(* ===== verification/Ambush_Prelude.thy ===== *)
theory Ambush_Prelude
  imports
    Main
    "HOL-Library.List_Lexorder"
    "HOL-Library.Char_ord"
    "HOL-Library.Multiset"
begin

text \<open>
  Shared vocabulary of the development.

  \<^item> Machine integers. The workspace is built with \<^verbatim>\<open>overflow-checks = true\<close>
    (\<^verbatim>\<open>Cargo.toml\<close>, release profile), so a plain \<open>+\<close>, \<open>-\<close> or \<open>*\<close> that leaves the
    range of its type aborts the process. Values of \<^verbatim>\<open>i64\<close> are integers, values of
    \<^verbatim>\<open>u64\<close> and \<^verbatim>\<open>usize\<close> (64-bit targets) are naturals; checked operations return
    \<open>None\<close> out of range, saturating ones clamp.
  \<^item> Strings. A Rust \<^verbatim>\<open>String\<close> is the list of its UTF-8 bytes (\<open>string\<close> of HOL, whose
    characters are bytes), which is also how Rust orders and measures strings.
    \<^verbatim>\<open>str::trim\<close> strips the UTF-8 encodings of the Unicode \<^verbatim>\<open>White_Space\<close> characters.
  \<^item> Decimal rendering (\<^verbatim>\<open>Display\<close> of integers) and its injectivity.
  \<^item> Generic lemmas on lists and cardinalities used by several components, and the
    collections of simplification rules the component proofs share.
\<close>

named_theorems policy_simps \<open>definitions of the approval gates\<close>
named_theorems ledger_simps \<open>the vote ledger operations\<close>
named_theorems node_simps \<open>the consensus node operations\<close>
named_theorems gov_simps \<open>the governance policy operations\<close>

type_synonym bytes = string
type_synonym u64 = nat
type_synonym usize = nat
type_synonym i64 = int

section \<open>Machine integers\<close>

definition u64_max :: nat where
  "u64_max = 2 ^ 64 - 1"

definition i64_min :: int where
  "i64_min = - (2 ^ 63)"

definition i64_max :: int where
  "i64_max = 2 ^ 63 - 1"

definition in_i64 :: "int \<Rightarrow> bool" where
  "in_i64 x \<longleftrightarrow> i64_min \<le> x \<and> x \<le> i64_max"

definition i64_clamp :: "int \<Rightarrow> int" where
  "i64_clamp x = max i64_min (min i64_max x)"

definition i64_saturating_add :: "i64 \<Rightarrow> i64 \<Rightarrow> i64" where
  "i64_saturating_add a b = i64_clamp (a + b)"

definition i64_saturating_sub :: "i64 \<Rightarrow> i64 \<Rightarrow> i64" where
  "i64_saturating_sub a b = i64_clamp (a - b)"

definition i64_saturating_mul :: "i64 \<Rightarrow> i64 \<Rightarrow> i64" where
  "i64_saturating_mul a b = i64_clamp (a * b)"

text \<open>Plain arithmetic under overflow checks: \<open>None\<close> is the abort.\<close>

definition i64_add :: "i64 \<Rightarrow> i64 \<Rightarrow> i64 option" where
  "i64_add a b = (if in_i64 (a + b) then Some (a + b) else None)"

definition i64_sub :: "i64 \<Rightarrow> i64 \<Rightarrow> i64 option" where
  "i64_sub a b = (if in_i64 (a - b) then Some (a - b) else None)"

definition u64_add :: "u64 \<Rightarrow> u64 \<Rightarrow> u64 option" where
  "u64_add a b = (if a + b \<le> u64_max then Some (a + b) else None)"

definition u64_mul :: "u64 \<Rightarrow> u64 \<Rightarrow> u64 option" where
  "u64_mul a b = (if a * b \<le> u64_max then Some (a * b) else None)"

definition u64_saturating_add :: "u64 \<Rightarrow> u64 \<Rightarrow> u64" where
  "u64_saturating_add a b = min u64_max (a + b)"

definition u64_saturating_mul :: "u64 \<Rightarrow> u64 \<Rightarrow> u64" where
  "u64_saturating_mul a b = min u64_max (a * b)"

text \<open>The cast \<^verbatim>\<open>as i64\<close> of a \<^verbatim>\<open>u64\<close>, which keeps the bit pattern.\<close>

definition u64_as_i64 :: "u64 \<Rightarrow> i64" where
  "u64_as_i64 n = (if int n \<le> i64_max then int n else int n - 2 ^ 64)"

lemmas machine_int_defs =
  u64_max_def i64_min_def i64_max_def in_i64_def i64_clamp_def
  i64_saturating_add_def i64_saturating_sub_def i64_saturating_mul_def
  i64_add_def i64_sub_def u64_add_def u64_mul_def
  u64_saturating_add_def u64_saturating_mul_def

lemma i64_saturating_sub_le [simp]:
  "in_i64 a \<Longrightarrow> 0 \<le> b \<Longrightarrow> i64_saturating_sub a b \<le> a"
  by (auto simp: machine_int_defs)

lemma in_i64_clamp [simp]: "in_i64 (i64_clamp x)"
  by (auto simp: machine_int_defs)

lemma i64_clamp_id [simp]: "in_i64 x \<Longrightarrow> i64_clamp x = x"
  by (auto simp: machine_int_defs)

section \<open>UTF-8 strings\<close>

text \<open>
  The UTF-8 encodings of the characters with the \<^verbatim>\<open>White_Space\<close> property: U+0009 to
  U+000D, U+0020, U+0085, U+00A0, U+1680, U+2000 to U+200A, U+2028, U+2029, U+202F,
  U+205F and U+3000.
\<close>

definition utf8_white_space :: "string list" where
  "utf8_white_space =
     [[CHR 0x09], [CHR 0x0A], [CHR 0x0B], [CHR 0x0C], [CHR 0x0D], [CHR 0x20],
      [CHR 0xC2, CHR 0x85], [CHR 0xC2, CHR 0xA0],
      [CHR 0xE1, CHR 0x9A, CHR 0x80],
      [CHR 0xE2, CHR 0x80, CHR 0x80], [CHR 0xE2, CHR 0x80, CHR 0x81],
      [CHR 0xE2, CHR 0x80, CHR 0x82], [CHR 0xE2, CHR 0x80, CHR 0x83],
      [CHR 0xE2, CHR 0x80, CHR 0x84], [CHR 0xE2, CHR 0x80, CHR 0x85],
      [CHR 0xE2, CHR 0x80, CHR 0x86], [CHR 0xE2, CHR 0x80, CHR 0x87],
      [CHR 0xE2, CHR 0x80, CHR 0x88], [CHR 0xE2, CHR 0x80, CHR 0x89],
      [CHR 0xE2, CHR 0x80, CHR 0x8A], [CHR 0xE2, CHR 0x80, CHR 0xA8],
      [CHR 0xE2, CHR 0x80, CHR 0xA9], [CHR 0xE2, CHR 0x80, CHR 0xAF],
      [CHR 0xE2, CHR 0x81, CHR 0x9F], [CHR 0xE3, CHR 0x80, CHR 0x80]]"

definition starts_with :: "string \<Rightarrow> string \<Rightarrow> bool" where
  "starts_with s p \<longleftrightarrow> take (length p) s = p"

function strip_front :: "string list \<Rightarrow> string \<Rightarrow> string" where
  "strip_front ws s =
     (case find (\<lambda>w. w \<noteq> [] \<and> starts_with s w) ws of
        None \<Rightarrow> s
      | Some w \<Rightarrow> strip_front ws (drop (length w) s))"
  by pat_completeness auto
termination
proof (relation "measure (\<lambda>(ws, s). length s)")
  fix ws s w
  assume "find (\<lambda>w. w \<noteq> [] \<and> starts_with s w) ws = Some w"
  then have "w \<noteq> []" "take (length w) s = w"
    by (auto simp: find_Some_iff starts_with_def)
  then have "0 < length w" "0 < length s" by auto
  then show "((ws, drop (length w) s), ws, s) \<in> measure (\<lambda>(ws, s). length s)" by simp
qed auto

declare strip_front.simps [simp del]

definition trim_start :: "string \<Rightarrow> string" where
  "trim_start s = strip_front utf8_white_space s"

definition trim_end :: "string \<Rightarrow> string" where
  "trim_end s = rev (strip_front (map rev utf8_white_space) (rev s))"

definition trim :: "string \<Rightarrow> string" where
  "trim s = trim_end (trim_start s)"

definition blank :: "string \<Rightarrow> bool" where
  "blank s \<longleftrightarrow> trim s = []"

lemma strip_front_Nil [simp]: "strip_front ws [] = []"
proof -
  have "find (\<lambda>w. w \<noteq> [] \<and> starts_with [] w) ws = None"
    by (auto simp: find_None_iff starts_with_def)
  then show ?thesis by (simp add: strip_front.simps)
qed

lemma blank_Nil [simp]: "blank []"
  by (simp add: blank_def trim_def trim_end_def trim_start_def)

section \<open>Decimal rendering\<close>

definition digit :: "nat \<Rightarrow> char" where
  "digit d = char_of (48 + d)"

fun dec_nat :: "nat \<Rightarrow> string" where
  "dec_nat n = (if n < 10 then [digit n] else dec_nat (n div 10) @ [digit (n mod 10)])"

declare dec_nat.simps [simp del]

definition dec_int :: "int \<Rightarrow> string" where
  "dec_int i = (if i < 0 then CHR ''-'' # dec_nat (nat (- i)) else dec_nat (nat i))"

text \<open>The format \<^verbatim>\<open>{:02}\<close>.\<close>

definition dec_pad2 :: "nat \<Rightarrow> string" where
  "dec_pad2 n = (if n < 10 then CHR ''0'' # dec_nat n else dec_nat n)"

definition digit_val :: "char \<Rightarrow> nat" where
  "digit_val c = of_char c - 48"

definition read_dec :: "string \<Rightarrow> nat" where
  "read_dec s = foldl (\<lambda>a c. 10 * a + digit_val c) 0 s"

lemma digit_val_digit [simp]: "d < 10 \<Longrightarrow> digit_val (digit d) = d"
  by (simp add: digit_val_def digit_def)

lemma read_dec_dec_nat [simp]: "read_dec (dec_nat n) = n"
proof (induction n rule: dec_nat.induct)
  case (1 n)
  show ?case
  proof (cases "n < 10")
    case True
    then show ?thesis by (subst dec_nat.simps) (simp add: read_dec_def)
  next
    case False
    with 1 have "read_dec (dec_nat (n div 10)) = n div 10" by simp
    with False show ?thesis
      by (subst dec_nat.simps) (simp add: read_dec_def)
  qed
qed

lemma dec_nat_inj [simp]: "dec_nat m = dec_nat n \<longleftrightarrow> m = n"
  by (metis read_dec_dec_nat)

lemma dec_nat_digits: "set (dec_nat n) \<subseteq> digit ` {..<10}"
proof (induction n rule: dec_nat.induct)
  case (1 n)
  show ?case
  proof (cases "n < 10")
    case True
    then show ?thesis by (subst dec_nat.simps) auto
  next
    case False
    with 1 have "set (dec_nat (n div 10)) \<subseteq> digit ` {..<10}" by simp
    with False show ?thesis by (subst dec_nat.simps) auto
  qed
qed

lemma dec_nat_nonempty [simp]: "dec_nat n \<noteq> []"
  by (subst dec_nat.simps) simp

lemma digit_code: "d < 10 \<Longrightarrow> of_char (digit d) = 48 + d"
  by (simp add: digit_def)

lemma digit_not_minus: "d < 10 \<Longrightarrow> digit d \<noteq> CHR ''-''"
proof
  assume d: "d < 10" and e: "digit d = CHR ''-''"
  from e have "(of_char (digit d) :: nat) = of_char (CHR ''-'')" by simp
  with digit_code[OF d] show False by simp
qed

lemma minus_notin_dec_nat: "CHR ''-'' \<notin> set (dec_nat n)"
  using dec_nat_digits digit_not_minus by fastforce

lemma dec_int_inj [simp]: "dec_int i = dec_int j \<longleftrightarrow> i = j"
proof
  assume eq: "dec_int i = dec_int j"
  have *: "CHR ''-'' # xs \<noteq> dec_nat n" for xs n
    using minus_notin_dec_nat[of n] by (metis list.set_intros(1))
  from eq show "i = j"
    by (auto simp: dec_int_def *[THEN not_sym] * split: if_splits)
qed simp

section \<open>Lists, options and cardinalities\<close>

text \<open>\<^verbatim>\<open>Vec::sort\<close> followed by \<^verbatim>\<open>Vec::dedup\<close> (adjacent duplicates are dropped).\<close>

definition sort_dedup :: "'a::linorder list \<Rightarrow> 'a list" where
  "sort_dedup xs = remdups_adj (sort xs)"

lemma set_sort_dedup [simp]: "set (sort_dedup xs) = set xs"
  by (simp add: sort_dedup_def)

lemma sorted_distinct_remdups_adj: "sorted xs \<Longrightarrow> distinct (remdups_adj xs)"
proof (induction xs rule: remdups_adj.induct)
  case (3 x y xs)
  then show ?case by (cases "x = y") (auto simp: order.antisym)
qed auto

lemma sorted_sort_dedup [simp]: "sorted (sort_dedup xs)"
  by (simp add: sort_dedup_def sorted_remdups_adj)

lemma distinct_sort_dedup [simp]: "distinct (sort_dedup xs)"
  by (simp add: sort_dedup_def sorted_distinct_remdups_adj)

lemma length_sort_dedup: "length (sort_dedup xs) = card (set xs)"
  by (metis distinct_card distinct_sort_dedup set_sort_dedup)

lemma sorted_dropWhile_filter:
  assumes "sorted xs" "\<And>x y. x \<le> y \<Longrightarrow> P y \<Longrightarrow> P x"
  shows "dropWhile P xs = filter (\<lambda>x. \<not> P x) xs"
  using assms(1)
proof (induction xs)
  case (Cons x xs)
  show ?case
  proof (cases "P x")
    case True
    with Cons show ?thesis by simp
  next
    case False
    with Cons.prems assms(2) have "\<forall>y\<in>set xs. \<not> P y" by auto
    with False show ?thesis by (simp add: filter_id_conv)
  qed
qed simp

lemma length_filter_mono:
  "(\<And>x. x \<in> set xs \<Longrightarrow> P x \<Longrightarrow> Q x) \<Longrightarrow> length (filter P xs) \<le> length (filter Q xs)"
  by (induction xs) (auto simp: le_SucI)

text \<open>Two subsets of a set of size \<open>n\<close> share at least \<open>card A + card B - n\<close> elements.\<close>

lemma card_inter_lower_bound:
  assumes "finite M" "A \<subseteq> M" "B \<subseteq> M"
  shows "card A + card B \<le> card M + card (A \<inter> B)"
proof -
  have fin: "finite A" "finite B" using assms by (auto intro: finite_subset)
  have "card A + card B = card (A \<union> B) + card (A \<inter> B)"
    using fin by (rule card_Un_Int)
  moreover have "card (A \<union> B) \<le> card M"
    using assms by (intro card_mono) auto
  ultimately show ?thesis by simp
qed

section \<open>The position of an element\<close>

text \<open>Rust's \<^verbatim>\<open>position\<close>: the index of the first element that satisfies the predicate.\<close>

fun position :: "('a \<Rightarrow> bool) \<Rightarrow> 'a list \<Rightarrow> nat option" where
  "position P [] = None"
| "position P (x # xs) = (if P x then Some 0 else map_option Suc (position P xs))"

lemma position_Some:
  "position P xs = Some i \<Longrightarrow> i < length xs \<and> P (xs ! i) \<and> (\<forall>j<i. \<not> P (xs ! j))"
proof (induction xs arbitrary: i)
  case (Cons x xs)
  then show ?case by (cases i) (auto split: if_splits simp: nth_Cons split: nat.splits)
qed simp

lemma position_None: "position P xs = None \<longleftrightarrow> find P xs = None"
  by (induction xs) auto

lemma position_find: "position P xs = Some i \<Longrightarrow> find P xs = Some (xs ! i)"
  by (induction xs arbitrary: i) (auto split: if_splits)

end
