(* ===== verification/Core_Types.thy ===== *)
theory Core_Types
  imports Ambush_Prelude "HOL-Library.Word"
begin

text \<open>
  The vocabulary of \<^verbatim>\<open>crates/swarm-core\<close> the other components speak: agent and hunt
  identifiers, severities, threat classes, the fifteen response actions
  (\<^verbatim>\<open>types.rs\<close>, \<^verbatim>\<open>pheromone.rs\<close>, \<^verbatim>\<open>agent.rs\<close>), and JSON values as \<^verbatim>\<open>serde_json::Value\<close>
  has them. Newtypes keep their constructor; identifiers and severities are instances of
  \<open>linorder\<close> with the order Rust derives for them. The \<open>_json\<close> functions are the
  serialisation the \<^verbatim>\<open>Serialize\<close> derives of these types declare.
\<close>

section \<open>Identifiers\<close>

datatype agent_id = AgentId (agent_str: string)

datatype hunt_id = HuntId (hunt_str: string)

instantiation agent_id :: linorder
begin

definition less_eq_agent_id :: "agent_id \<Rightarrow> agent_id \<Rightarrow> bool" where
  "less_eq_agent_id a b \<longleftrightarrow> agent_str a \<le> agent_str b"

definition less_agent_id :: "agent_id \<Rightarrow> agent_id \<Rightarrow> bool" where
  "less_agent_id a b \<longleftrightarrow> agent_str a < agent_str b"

instance
  by standard (auto simp: less_eq_agent_id_def less_agent_id_def agent_id.expand)

end

definition AgentId_new :: "string \<Rightarrow> string \<Rightarrow> agent_id" where
  "AgentId_new role short_id = AgentId (role @ ''-'' @ short_id)"

definition from_public_key_hex :: "string \<Rightarrow> agent_id" where
  "from_public_key_hex public_key_hex = AgentId (''swarm:ed25519:'' @ public_key_hex)"

section \<open>Severity\<close>

datatype severity = Low | Medium | High | Critical

fun severity_rank :: "severity \<Rightarrow> nat" where
  "severity_rank Low = 0"
| "severity_rank Medium = 1"
| "severity_rank High = 2"
| "severity_rank Critical = 3"

lemma severity_rank_inj [simp]: "severity_rank a = severity_rank b \<longleftrightarrow> a = b"
  by (cases a; cases b) simp_all

instantiation severity :: linorder
begin

definition less_eq_severity :: "severity \<Rightarrow> severity \<Rightarrow> bool" where
  "less_eq_severity a b \<longleftrightarrow> severity_rank a \<le> severity_rank b"

definition less_severity :: "severity \<Rightarrow> severity \<Rightarrow> bool" where
  "less_severity a b \<longleftrightarrow> severity_rank a < severity_rank b"

instance
  by standard (auto simp: less_eq_severity_def less_severity_def)

end

lemma severity_le_simps [simp]:
  "Low \<le> s" "s \<le> Critical" "(s \<le> Low) = (s = Low)" "(Critical \<le> s) = (s = Critical)"
  "\<not> High \<le> Medium" "Medium \<le> High"
  by (cases s; simp add: less_eq_severity_def)+

section \<open>Threat classes\<close>

datatype threat_class =
    LateralMovement | DataExfiltration | PrivilegeEscalation | CommandAndControl
  | InitialAccess | Persistence | SupplyChain | DefenseEvasion | CredentialAccess
  | Discovery | Execution | Impact | Custom string

section \<open>Response actions\<close>

datatype response_action =
    BlockEgress string
  | IsolateHost string
  | RevokeCredential string
  | SinkholeDns string
  | TerminateUserSession string string
  | TriggerEdrScan string string
  | InjectFirewallRule string string string string "nat option"
  | QuarantineFile string string
  | KillProcess string string
  | SuspendProcess string string
  | DisableUserAccount string
  | ForcePasswordReset string
  | RemoveScheduledTask string string
  | DeployDecoy string string
  | Escalate string severity

fun kind :: "response_action \<Rightarrow> string" where
  "kind (BlockEgress _) = ''block_egress''"
| "kind (IsolateHost _) = ''isolate_host''"
| "kind (RevokeCredential _) = ''revoke_credential''"
| "kind (SinkholeDns _) = ''sinkhole_dns''"
| "kind (TerminateUserSession _ _) = ''terminate_user_session''"
| "kind (TriggerEdrScan _ _) = ''trigger_edr_scan''"
| "kind (InjectFirewallRule _ _ _ _ _) = ''inject_firewall_rule''"
| "kind (QuarantineFile _ _) = ''quarantine_file''"
| "kind (KillProcess _ _) = ''kill_process''"
| "kind (SuspendProcess _ _) = ''suspend_process''"
| "kind (DisableUserAccount _) = ''disable_user_account''"
| "kind (ForcePasswordReset _) = ''force_password_reset''"
| "kind (RemoveScheduledTask _ _) = ''remove_scheduled_task''"
| "kind (DeployDecoy _ _) = ''deploy_decoy''"
| "kind (Escalate _ _) = ''escalate''"

section \<open>Agents\<close>

datatype agent_role = Whisker | Stalker | Weaver | Pouncer | Tom | Kitten | Sphinx | Calico

datatype agent_health = Healthy | Degraded | Failed

record agent_health_entry =
  ahe_id :: string
  ahe_role :: agent_role
  ahe_health :: agent_health

text \<open>The \<^verbatim>\<open>Debug\<close> rendering of a health status.\<close>

fun health_debug :: "agent_health \<Rightarrow> string" where
  "health_debug Healthy = ''Healthy''"
| "health_debug Degraded = ''Degraded''"
| "health_debug Failed = ''Failed''"

section \<open>JSON values\<close>

text \<open>
  \<^verbatim>\<open>serde_json::Number\<close> is a non-negative integer, a negative integer or a finite float;
  a float is kept as its IEEE 754 bit pattern. An object is the list of its entries.
\<close>

datatype json_number = PosInt nat | NegInt int | Float "64 word"

datatype json =
    JNull
  | JBool bool
  | JNumber json_number
  | JString string
  | JArray "json list"
  | JObject "(string \<times> json) list"

fun json_get :: "json \<Rightarrow> string \<Rightarrow> json option" where
  "json_get (JObject kvs) k = map_of kvs k"
| "json_get _ k = None"

fun json_as_str :: "json \<Rightarrow> string option" where
  "json_as_str (JString s) = Some s"
| "json_as_str _ = None"

text \<open>\<^verbatim>\<open>value[key] = ..\<close> on an object.\<close>

fun json_index_set :: "json \<Rightarrow> string \<Rightarrow> json \<Rightarrow> json" where
  "json_index_set (JObject kvs) key v = JObject (filter (\<lambda>(k, _). k \<noteq> key) kvs @ [(key, v)])"
| "json_index_set other key v = JObject [(key, v)]"

definition json_int :: "int \<Rightarrow> json" where
  "json_int i = JNumber (if i < 0 then NegInt i else PosInt (nat i))"

definition json_nat :: "nat \<Rightarrow> json" where
  "json_nat n = JNumber (PosInt n)"

definition json_opt :: "('a \<Rightarrow> json) \<Rightarrow> 'a option \<Rightarrow> json" where
  "json_opt f x = (case x of None \<Rightarrow> JNull | Some v \<Rightarrow> f v)"

definition agent_id_json :: "agent_id \<Rightarrow> json" where
  "agent_id_json a = JString (agent_str a)"

fun severity_json :: "severity \<Rightarrow> json" where
  "severity_json Low = JString ''LOW''"
| "severity_json Medium = JString ''MEDIUM''"
| "severity_json High = JString ''HIGH''"
| "severity_json Critical = JString ''CRITICAL''"

fun role_json :: "agent_role \<Rightarrow> json" where
  "role_json Whisker = JString ''whisker''"
| "role_json Stalker = JString ''stalker''"
| "role_json Weaver = JString ''weaver''"
| "role_json Pouncer = JString ''pouncer''"
| "role_json Tom = JString ''tom''"
| "role_json Kitten = JString ''kitten''"
| "role_json Sphinx = JString ''sphinx''"
| "role_json Calico = JString ''calico''"

fun health_json :: "agent_health \<Rightarrow> json" where
  "health_json Healthy = JString ''healthy''"
| "health_json Degraded = JString ''degraded''"
| "health_json Failed = JString ''failed''"

definition health_entry_json :: "agent_health_entry \<Rightarrow> json" where
  "health_entry_json e =
     JObject [(''id'', JString (ahe_id e)), (''role'', role_json (ahe_role e)),
              (''health'', health_json (ahe_health e))]"

fun response_action_fields :: "response_action \<Rightarrow> (string \<times> json) list" where
  "response_action_fields (BlockEgress target) = [(''target'', JString target)]"
| "response_action_fields (IsolateHost host_id) = [(''host_id'', JString host_id)]"
| "response_action_fields (RevokeCredential credential_id) =
     [(''credential_id'', JString credential_id)]"
| "response_action_fields (SinkholeDns domain) = [(''domain'', JString domain)]"
| "response_action_fields (TerminateUserSession host_id session_id) =
     [(''host_id'', JString host_id), (''session_id'', JString session_id)]"
| "response_action_fields (TriggerEdrScan host_id scan_profile) =
     [(''host_id'', JString host_id), (''scan_profile'', JString scan_profile)]"
| "response_action_fields (InjectFirewallRule host_id rule_name direction cidr port) =
     [(''host_id'', JString host_id), (''rule_name'', JString rule_name),
      (''direction'', JString direction), (''cidr'', JString cidr),
      (''port'', json_opt json_nat port)]"
| "response_action_fields (QuarantineFile host_id file_path) =
     [(''host_id'', JString host_id), (''file_path'', JString file_path)]"
| "response_action_fields (KillProcess host_id process_name) =
     [(''host_id'', JString host_id), (''process_name'', JString process_name)]"
| "response_action_fields (SuspendProcess host_id process_name) =
     [(''host_id'', JString host_id), (''process_name'', JString process_name)]"
| "response_action_fields (DisableUserAccount user_id) = [(''user_id'', JString user_id)]"
| "response_action_fields (ForcePasswordReset user_id) = [(''user_id'', JString user_id)]"
| "response_action_fields (RemoveScheduledTask host_id task_name) =
     [(''host_id'', JString host_id), (''task_name'', JString task_name)]"
| "response_action_fields (DeployDecoy decoy_type target_zone) =
     [(''decoy_type'', JString decoy_type), (''target_zone'', JString target_zone)]"
| "response_action_fields (Escalate summary urgency) =
     [(''summary'', JString summary), (''urgency'', severity_json urgency)]"

definition response_action_json :: "response_action \<Rightarrow> json" where
  "response_action_json a = JObject ((''type'', JString (kind a)) # response_action_fields a)"

end
