(* ===== verification/Sliding_Window.thy ===== *)
theory Sliding_Window
  imports Ambush_Prelude
begin

text \<open>
  Sliding windows of any width, shared by the policy limiters and the HTTP limiter: what ties a window of
  recorded times to the whole history of the times it admitted.
\<close>

text \<open>The times inside the trailing interval of width \<open>W\<close> that ends at \<open>t\<close>.\<close>

definition trailing_in :: "i64 \<Rightarrow> i64 \<Rightarrow> i64 list \<Rightarrow> i64 list" where
  "trailing_in W t ts = filter (\<lambda>x. t - W < x \<and> x \<le> t) ts"

text \<open>
  The window is a suffix of the history cut at some earlier evaluation, and no trailing interval of the
  history holds more than \<open>limit\<close> entries.
\<close>

definition window_tracks :: "i64 \<Rightarrow> usize \<Rightarrow> i64 \<Rightarrow> i64 list \<Rightarrow> i64 list \<Rightarrow> bool" where
  "window_tracks W limit t0 H w \<longleftrightarrow>
     sorted H \<and> (\<forall>t\<in>set H. t \<le> t0) \<and> (\<exists>m\<le>t0. w = filter (\<lambda>t. m - W < t) H) \<and>
     (\<forall>t. length (trailing_in W t H) \<le> limit)"

lemma window_tracks_empty: "window_tracks W limit t0 [] []"
  by (auto simp: window_tracks_def trailing_in_def)

lemma window_tracks_later: "window_tracks W limit t0 H w \<Longrightarrow> t0 \<le> t1 \<Longrightarrow> window_tracks W limit t1 H w"
  unfolding window_tracks_def by (elim conjE exE, intro conjI exI) auto

lemma window_tracks_bounded: "window_tracks W limit t0 H w \<Longrightarrow> length (trailing_in W t H) \<le> limit"
  by (simp add: window_tracks_def)

lemma window_tracks_sorted: "window_tracks W limit t0 H w \<Longrightarrow> sorted w \<and> (\<forall>t\<in>set w. t \<le> t0)"
  by (auto simp: window_tracks_def sorted_wrt_filter)

text \<open>What pruning at \<open>now\<close> leaves is the trailing interval of the window and of the history.\<close>

lemma window_tracks_cut:
  assumes "window_tracks W limit t0 H w" "t0 \<le> now"
  shows "filter (\<lambda>t. now - W < t) w = filter (\<lambda>t. now - W < t) H"
proof -
  obtain m where m: "m \<le> t0" "w = filter (\<lambda>t. m - W < t) H" using assms(1) by (auto simp: window_tracks_def)
  have "filter (\<lambda>t. m - W < t \<and> now - W < t) H = filter (\<lambda>t. now - W < t) H"
    using m(1) assms(2) by (intro filter_cong) auto
  then show ?thesis by (simp add: m(2))
qed

lemma window_tracks_prune:
  assumes "window_tracks W limit t0 H w" "t0 \<le> now"
  shows "window_tracks W limit now H (filter (\<lambda>t. now - W < t) w)"
  using assms window_tracks_cut [OF assms] unfolding window_tracks_def by (auto intro!: exI [of _ now])

lemma window_tracks_admit:
  assumes inv: "window_tracks W limit t0 H w" and le: "t0 \<le> now" and width: "0 < W"
    and room: "length (filter (\<lambda>t. now - W < t) w) < limit"
  shows "window_tracks W limit now (H @ [now]) (filter (\<lambda>t. now - W < t) w @ [now])"
proof -
  note cut = window_tracks_cut [OF inv le]
  have H: "sorted H" "\<forall>t\<in>set H. t \<le> t0" and bound: "\<And>t. length (trailing_in W t H) \<le> limit"
    using inv by (auto simp: window_tracks_def)
  have "length (trailing_in W t (H @ [now])) \<le> limit" for t
  proof (cases "now \<le> t")
    case True
    have "length (trailing_in W t H) \<le> length (filter (\<lambda>t. now - W < t) w)"
      unfolding cut unfolding trailing_in_def using True by (intro length_filter_mono) auto
    with room show ?thesis by (auto simp: trailing_in_def)
  next
    case False
    then have "trailing_in W t (H @ [now]) = trailing_in W t H" by (auto simp: trailing_in_def)
    with bound show ?thesis by simp
  qed
  moreover have "filter (\<lambda>t. now - W < t) w @ [now] = filter (\<lambda>t. now - W < t) (H @ [now])"
    using cut width by simp
  ultimately show ?thesis
    using H le unfolding window_tracks_def by (auto simp: sorted_append intro!: exI [of _ now])
qed

end
