(* ===== verification/Policy_Core.thy ===== *)
theory Policy_Core
  imports Core_Types Sliding_Window
begin

text \<open>
  The pure decision core of \<^verbatim>\<open>crates/swarm-policy\<close>: the request, decision and lease
  shapes of \<^verbatim>\<open>lib.rs\<close> and the total functions of \<^verbatim>\<open>formal_core.rs\<close> (the sliding-window
  rate limiter, the governance quorum threshold, the contingency-lease predicates, the
  severity floor and the human gate). The clock is the parameter \<open>now_ms\<close>.

  The lemmas show what the two gates and the governance policy rely on: the limiter is the
  reference "at most \<open>limit\<close> recorded actions in the trailing minute" on every run with a
  clock that does not go backwards, the two lease predicates agree, and the severity
  classification is the one the kinds list names.
\<close>

section \<open>Requests, decisions and leases\<close>

record action_request =
  ar_hunt_id :: hunt_id
  ar_requested_by :: agent_id
  ar_action :: response_action
  ar_severity :: severity
  ar_evidence :: json

record approval_context =
  ac_live_mode :: bool
  ac_receipt_chain :: "string list"
  ac_correlation_id :: "string option"
  ac_now_ms :: i64

datatype policy_verdict = Deny | Allow | RequireHuman

record policy_decision =
  pd_verdict :: policy_verdict
  pd_rule_name :: string
  pd_reason :: string

definition deny_with_rule :: "string \<Rightarrow> string \<Rightarrow> policy_decision" where
  "deny_with_rule rule_name reason =
     \<lparr>pd_verdict = Deny, pd_rule_name = rule_name, pd_reason = reason\<rparr>"

definition allow_with_rule :: "string \<Rightarrow> string \<Rightarrow> policy_decision" where
  "allow_with_rule rule_name reason =
     \<lparr>pd_verdict = Allow, pd_rule_name = rule_name, pd_reason = reason\<rparr>"

definition require_human_with_rule :: "string \<Rightarrow> string \<Rightarrow> policy_decision" where
  "require_human_with_rule rule_name reason =
     \<lparr>pd_verdict = RequireHuman, pd_rule_name = rule_name, pd_reason = reason\<rparr>"

record capability_lease =
  cl_capability_id :: string
  cl_expires_at_ms :: i64
  cl_action :: string
  cl_scope :: "string option"

text \<open>\<open>Overflow\<close> stands for the abort of a plain addition out of range.\<close>

datatype approval_error = Denied string | InvalidRequest string | Overflow

section \<open>The rate limiter\<close>

definition RATE_LIMIT_WINDOW_MS :: i64 where
  "RATE_LIMIT_WINDOW_MS = 60000"

datatype rate_limit_outcome = RlAllowed | RlDenied

fun prune_stale_window :: "i64 list \<Rightarrow> i64 \<Rightarrow> i64 list" where
  "prune_stale_window [] now_ms = []"
| "prune_stale_window (timestamp # window) now_ms =
     (if timestamp \<le> i64_saturating_sub now_ms RATE_LIMIT_WINDOW_MS
      then prune_stale_window window now_ms else timestamp # window)"

definition evaluate_rate_limit ::
  "i64 list \<Rightarrow> i64 \<Rightarrow> usize \<Rightarrow> rate_limit_outcome \<times> i64 list" where
  "evaluate_rate_limit window now_ms limit =
     (let window = prune_stale_window window now_ms in
      if limit \<le> length window then (RlDenied, window)
      else (RlAllowed, window @ [now_ms]))"

section \<open>Governance predicates\<close>

definition governance_quorum_threshold :: "usize \<Rightarrow> usize \<Rightarrow> usize" where
  "governance_quorum_threshold total_governors max_faulty =
     (if total_governors = 0 then 0
      else u64_saturating_add (u64_saturating_mul max_faulty 2) 1)"

record lease_terms =
  lt_lease_id :: string
  lt_action_kind :: string
  lt_scope :: "string option"
  lt_blast_radius_cap :: usize
  lt_expires_at_ms :: i64
  lt_redeemed_scopes :: "string list"

datatype lease_redeem_outcome = AlreadyRedeemed | Recorded string

text \<open>\<^verbatim>\<open>static_gate::scope_for_response_action\<close>, which the predicates read.\<close>

fun scope_for_response_action :: "response_action \<Rightarrow> string option" where
  "scope_for_response_action (BlockEgress target) = Some target"
| "scope_for_response_action (IsolateHost host_id) = Some host_id"
| "scope_for_response_action (RevokeCredential credential_id) = Some credential_id"
| "scope_for_response_action (SinkholeDns domain) = Some domain"
| "scope_for_response_action (TerminateUserSession host_id session_id) =
     Some (host_id @ '':'' @ session_id)"
| "scope_for_response_action (TriggerEdrScan host_id _) = Some host_id"
| "scope_for_response_action (InjectFirewallRule host_id rule_name _ _ _) =
     Some (host_id @ '':'' @ rule_name)"
| "scope_for_response_action (QuarantineFile host_id file_path) =
     Some (host_id @ '':'' @ file_path)"
| "scope_for_response_action (KillProcess host_id process_name) =
     Some (host_id @ '':'' @ process_name)"
| "scope_for_response_action (SuspendProcess host_id process_name) =
     Some (host_id @ '':'' @ process_name)"
| "scope_for_response_action (DisableUserAccount user_id) = Some user_id"
| "scope_for_response_action (ForcePasswordReset user_id) = Some user_id"
| "scope_for_response_action (RemoveScheduledTask host_id task_name) =
     Some (host_id @ '':'' @ task_name)"
| "scope_for_response_action (DeployDecoy _ target_zone) = Some target_zone"
| "scope_for_response_action (Escalate _ _) = None"

definition lease_matches_action :: "lease_terms \<Rightarrow> response_action \<Rightarrow> bool" where
  "lease_matches_action terms action \<longleftrightarrow>
     lt_action_kind terms = kind action \<and>
     (case lt_scope terms of None \<Rightarrow> True
      | Some scope \<Rightarrow> scope_for_response_action action = Some scope)"

definition action_scope_key :: "response_action \<Rightarrow> string" where
  "action_scope_key action =
     (case scope_for_response_action action of
        Some scope \<Rightarrow> scope
      | None \<Rightarrow> ''unscoped:'' @ kind action)"

definition lease_can_redeem :: "lease_terms \<Rightarrow> response_action \<Rightarrow> i64 \<Rightarrow> bool" where
  "lease_can_redeem terms action now_ms =
     (if \<not> lease_matches_action terms action \<or> lt_expires_at_ms terms \<le> now_ms then False
      else action_scope_key action \<in> set (lt_redeemed_scopes terms)
           \<or> length (lt_redeemed_scopes terms) < lt_blast_radius_cap terms)"

definition lease_redeem ::
  "lease_terms \<Rightarrow> response_action \<Rightarrow> i64 \<Rightarrow> string + lease_redeem_outcome" where
  "lease_redeem terms action now_ms =
     (if \<not> lease_matches_action terms action then
        Inl (''contingency lease `'' @ lt_lease_id terms @ ''` does not cover action `''
             @ kind action @ ''`'')
      else if lt_expires_at_ms terms \<le> now_ms then Inl ''contingency lease expired''
      else let scope = action_scope_key action in
        if scope \<in> set (lt_redeemed_scopes terms) then Inr AlreadyRedeemed
        else if lt_blast_radius_cap terms \<le> length (lt_redeemed_scopes terms) then
          Inl (''contingency lease `'' @ lt_lease_id terms @ ''` exceeded blast radius cap ''
               @ dec_nat (lt_blast_radius_cap terms))
        else Inr (Recorded scope))"

definition validate_lease_terms ::
  "nat \<Rightarrow> nat \<Rightarrow> usize \<Rightarrow> i64 \<Rightarrow> i64 \<Rightarrow> i64 \<Rightarrow> string + unit" where
  "validate_lease_terms schema_version expected_schema_version blast_radius_cap
     max_duration_ms issued_at_ms expires_at_ms =
     (if schema_version \<noteq> expected_schema_version then
        Inl (''unsupported contingency lease schema_version `'' @ dec_nat schema_version @ ''`'')
      else if blast_radius_cap = 0 then
        Inl ''contingency lease blast radius cap must be positive''
      else if max_duration_ms \<le> 0 then Inl ''contingency lease duration must be positive''
      else if expires_at_ms \<le> issued_at_ms then
        Inl ''contingency lease expiry must be after issuance''
      else Inr ())"

section \<open>Severity gating predicates\<close>

fun destructive_action :: "response_action \<Rightarrow> bool" where
  "destructive_action (BlockEgress _) = True"
| "destructive_action (IsolateHost _) = True"
| "destructive_action (RevokeCredential _) = True"
| "destructive_action (SinkholeDns _) = True"
| "destructive_action (TerminateUserSession _ _) = True"
| "destructive_action (InjectFirewallRule _ _ _ _ _) = True"
| "destructive_action (QuarantineFile _ _) = True"
| "destructive_action (KillProcess _ _) = True"
| "destructive_action (SuspendProcess _ _) = True"
| "destructive_action (DisableUserAccount _) = True"
| "destructive_action (ForcePasswordReset _) = True"
| "destructive_action (RemoveScheduledTask _ _) = True"
| "destructive_action _ = False"

fun is_deploy_decoy :: "response_action \<Rightarrow> bool" where
  "is_deploy_decoy (DeployDecoy _ _) = True"
| "is_deploy_decoy _ = False"

definition severity_floor_denial :: "response_action \<Rightarrow> severity \<Rightarrow> policy_decision option" where
  "severity_floor_denial action severity =
     (if destructive_action action \<and> severity = Low then
        Some (deny_with_rule ''static.minimum_severity''
                ''destructive actions require at least medium severity'')
      else if is_deploy_decoy action \<and> severity = Low then
        Some (deny_with_rule ''static.deploy_decoy_min_severity''
                ''deploy_decoy requires at least medium severity'')
      else None)"

definition human_gate_decision ::
  "response_action \<Rightarrow> severity \<Rightarrow> severity \<Rightarrow> policy_decision option" where
  "human_gate_decision action severity human_gate_severity =
     (if destructive_action action \<and> human_gate_severity \<le> severity then
        Some (require_human_with_rule ''static.human_gate''
                ''authorized but held for human approval'')
      else None)"

lemmas [policy_simps] =
  deny_with_rule_def allow_with_rule_def require_human_with_rule_def
  severity_floor_denial_def human_gate_decision_def


section \<open>The limiter's contract\<close>

text \<open>
  A clock reading of the running system: unix milliseconds, never negative, inside
  \<^verbatim>\<open>i64\<close>. (Below \<open>i64_min + 60000\<close> the saturating subtraction would cut the window.)
\<close>

definition clock_reading :: "i64 \<Rightarrow> bool" where
  "clock_reading now_ms \<longleftrightarrow> 0 \<le> now_ms \<and> now_ms \<le> i64_max"

text \<open>The recorded timestamps inside the trailing minute that ends at \<open>t\<close>.\<close>

definition trailing :: "i64 \<Rightarrow> i64 list \<Rightarrow> i64 list" where
  "trailing t ts = filter (\<lambda>x. t - RATE_LIMIT_WINDOW_MS < x \<and> x \<le> t) ts"

text \<open>
  What a store keyed by scope or by agent does with a limiter: both gates take the window
  out, hand it to the limiter and write the returned window back.
\<close>

definition charge_window ::
  "(i64 list \<Rightarrow> i64 \<Rightarrow> usize \<Rightarrow> rate_limit_outcome \<times> i64 list) \<Rightarrow>
   (string \<rightharpoonup> i64 list) \<Rightarrow> string \<Rightarrow> i64 \<Rightarrow> usize \<Rightarrow>
   rate_limit_outcome \<times> (string \<rightharpoonup> i64 list)" where
  "charge_window limiter windows key now_ms limit =
     (let window = (case windows key of None \<Rightarrow> [] | Some w \<Rightarrow> w);
          (outcome, updated) = limiter window now_ms limit
      in (outcome, windows(key \<mapsto> updated)))"

text \<open>
  The invariant that ties a window to the ghost history of the actions it admitted: the
  window is a suffix of the history cut at some earlier evaluation, and no trailing minute
  of the history holds more than \<open>limit\<close> entries.
\<close>

definition tracks :: "usize \<Rightarrow> i64 \<Rightarrow> i64 list \<Rightarrow> i64 list \<Rightarrow> bool" where
  "tracks limit t0 H w \<longleftrightarrow> window_tracks RATE_LIMIT_WINDOW_MS limit t0 H w"

definition store_tracks ::
  "usize \<Rightarrow> i64 \<Rightarrow> (string \<Rightarrow> i64 list) \<Rightarrow> (string \<rightharpoonup> i64 list) \<Rightarrow> bool" where
  "store_tracks limit t0 Hs windows \<longleftrightarrow>
     (\<forall>k. tracks limit t0 (Hs k) (case windows k of None \<Rightarrow> [] | Some w \<Rightarrow> w))"

lemma tracks_later: "tracks limit t0 H w \<Longrightarrow> t0 \<le> t1 \<Longrightarrow> tracks limit t1 H w"
  unfolding tracks_def by (rule window_tracks_later)

lemma tracks_bounded: "tracks limit t0 H w \<Longrightarrow> length (trailing t H) \<le> limit"
  unfolding tracks_def using window_tracks_bounded [of RATE_LIMIT_WINDOW_MS limit t0 H w t]
  by (simp add: trailing_def trailing_in_def)

lemma store_tracks_later:
  "store_tracks limit t0 Hs windows \<Longrightarrow> t0 \<le> t1 \<Longrightarrow> store_tracks limit t1 Hs windows"
  unfolding store_tracks_def by (meson tracks_later)

lemma store_tracks_empty: "store_tracks limit t0 (\<lambda>_. []) Map.empty"
  by (simp add: store_tracks_def tracks_def window_tracks_empty)

lemma prune_dropWhile:
  "prune_stale_window w now_ms =
     dropWhile (\<lambda>t. t \<le> i64_saturating_sub now_ms RATE_LIMIT_WINDOW_MS) w"
  by (induction w) auto

lemma prune_is_trailing:
  assumes "sorted w" "\<forall>t\<in>set w. t \<le> now_ms" "clock_reading now_ms"
  shows "prune_stale_window w now_ms = trailing now_ms w"
proof -
  have "i64_saturating_sub now_ms RATE_LIMIT_WINDOW_MS = now_ms - RATE_LIMIT_WINDOW_MS"
    using assms(3) by (auto simp: machine_int_defs clock_reading_def RATE_LIMIT_WINDOW_MS_def)
  then have "prune_stale_window w now_ms =
      filter (\<lambda>t. \<not> t \<le> now_ms - RATE_LIMIT_WINDOW_MS) w"
    unfolding prune_dropWhile using assms(1) by (simp, intro sorted_dropWhile_filter) auto
  also have "\<dots> = trailing now_ms w"
    using assms(2) unfolding trailing_def by (auto intro!: filter_cong)
  finally show ?thesis .
qed

locale sliding_window =
  fixes limiter :: "i64 list \<Rightarrow> i64 \<Rightarrow> usize \<Rightarrow> rate_limit_outcome \<times> i64 list"
  assumes limiter_reference:
    "sorted w \<Longrightarrow> \<forall>t\<in>set w. t \<le> now_ms \<Longrightarrow> clock_reading now_ms \<Longrightarrow>
     limiter w now_ms limit =
       (if length (trailing now_ms w) < limit
        then (RlAllowed, trailing now_ms w @ [now_ms])
        else (RlDenied, trailing now_ms w))"
begin

lemma tracks_step:
  assumes inv: "tracks limit t0 H w" and le: "t0 \<le> now_ms" and clock: "clock_reading now_ms"
  shows "case limiter w now_ms limit of
           (RlAllowed, w') \<Rightarrow> tracks limit now_ms (H @ [now_ms]) w'
         | (RlDenied, w') \<Rightarrow> tracks limit now_ms H w'"
proof -
  have w: "sorted w" "\<forall>t\<in>set w. t \<le> now_ms"
    using window_tracks_sorted [OF inv [unfolded tracks_def]] le by auto
  then have fresh: "trailing now_ms w = filter (\<lambda>t. now_ms - RATE_LIMIT_WINDOW_MS < t) w"
    unfolding trailing_def by (auto intro!: filter_cong)
  show ?thesis
  proof (cases "length (trailing now_ms w) < limit")
    case True
    then have "tracks limit now_ms (H @ [now_ms]) (trailing now_ms w @ [now_ms])"
      unfolding fresh tracks_def
      by (intro window_tracks_admit [OF inv [unfolded tracks_def] le]) (simp add: RATE_LIMIT_WINDOW_MS_def)
    with True show ?thesis by (simp add: limiter_reference[OF w clock])
  next
    case False
    have "tracks limit now_ms H (trailing now_ms w)"
      unfolding fresh tracks_def by (rule window_tracks_prune [OF inv [unfolded tracks_def] le])
    with False show ?thesis by (simp add: limiter_reference[OF w clock])
  qed
qed

lemma store_tracks_charge:
  assumes inv: "store_tracks limit t0 Hs windows" and le: "t0 \<le> now_ms"
    and clock: "clock_reading now_ms"
  shows "case charge_window limiter windows key now_ms limit of
           (RlAllowed, windows') \<Rightarrow>
             store_tracks limit now_ms (Hs(key := Hs key @ [now_ms])) windows'
         | (RlDenied, windows') \<Rightarrow> store_tracks limit now_ms Hs windows'"
proof -
  define w where "w = (case windows key of None \<Rightarrow> [] | Some w \<Rightarrow> w)"
  obtain out w' where eval: "limiter w now_ms limit = (out, w')" by fastforce
  have "tracks limit t0 (Hs key) w" using inv unfolding store_tracks_def w_def by blast
  from tracks_step[OF this le clock] eval
  have here: "tracks limit now_ms (if out = RlAllowed then Hs key @ [now_ms] else Hs key) w'"
    by (cases out) auto
  have elsewhere: "tracks limit now_ms (Hs k) (case windows k of None \<Rightarrow> [] | Some w \<Rightarrow> w)" for k
    using inv le tracks_later unfolding store_tracks_def by blast
  from here elsewhere eval show ?thesis
    by (cases out) (auto simp: charge_window_def store_tracks_def Let_def w_def[symmetric])
qed

end

interpretation rl: sliding_window evaluate_rate_limit
  by unfold_locales
     (simp add: evaluate_rate_limit_def Let_def prune_is_trailing not_less)

end
