(* ===== verification/Policy_Config.thy ===== *)
theory Policy_Config
  imports Policy_Core
begin

text \<open>
  The policy section of the runtime configuration
  (\<^verbatim>\<open>crates/swarm-core/src/config/policy.rs\<close>): ordered rules, their selectors and UTC
  hour windows, and the validation every loaded rule passes.
\<close>

datatype policy_rule_decision = RuleAllow | RuleDeny

datatype policy_action_selector =
    SelBlockEgress | SelIsolateHost | SelRevokeCredential | SelSinkholeDns
  | SelTerminateUserSession | SelTriggerEdrScan | SelInjectFirewallRule | SelQuarantineFile
  | SelKillProcess | SelSuspendProcess | SelDisableUserAccount | SelForcePasswordReset
  | SelRemoveScheduledTask | SelDeployDecoy | SelEscalate

primrec selector_matches_action :: "policy_action_selector \<Rightarrow> response_action \<Rightarrow> bool" where
  "selector_matches_action SelBlockEgress action =
     (case action of BlockEgress _ \<Rightarrow> True | _ \<Rightarrow> False)"
| "selector_matches_action SelIsolateHost action =
     (case action of IsolateHost _ \<Rightarrow> True | _ \<Rightarrow> False)"
| "selector_matches_action SelRevokeCredential action =
     (case action of RevokeCredential _ \<Rightarrow> True | _ \<Rightarrow> False)"
| "selector_matches_action SelSinkholeDns action =
     (case action of SinkholeDns _ \<Rightarrow> True | _ \<Rightarrow> False)"
| "selector_matches_action SelTerminateUserSession action =
     (case action of TerminateUserSession _ _ \<Rightarrow> True | _ \<Rightarrow> False)"
| "selector_matches_action SelTriggerEdrScan action =
     (case action of TriggerEdrScan _ _ \<Rightarrow> True | _ \<Rightarrow> False)"
| "selector_matches_action SelInjectFirewallRule action =
     (case action of InjectFirewallRule _ _ _ _ _ \<Rightarrow> True | _ \<Rightarrow> False)"
| "selector_matches_action SelQuarantineFile action =
     (case action of QuarantineFile _ _ \<Rightarrow> True | _ \<Rightarrow> False)"
| "selector_matches_action SelKillProcess action =
     (case action of KillProcess _ _ \<Rightarrow> True | _ \<Rightarrow> False)"
| "selector_matches_action SelSuspendProcess action =
     (case action of SuspendProcess _ _ \<Rightarrow> True | _ \<Rightarrow> False)"
| "selector_matches_action SelDisableUserAccount action =
     (case action of DisableUserAccount _ \<Rightarrow> True | _ \<Rightarrow> False)"
| "selector_matches_action SelForcePasswordReset action =
     (case action of ForcePasswordReset _ \<Rightarrow> True | _ \<Rightarrow> False)"
| "selector_matches_action SelRemoveScheduledTask action =
     (case action of RemoveScheduledTask _ _ \<Rightarrow> True | _ \<Rightarrow> False)"
| "selector_matches_action SelDeployDecoy action =
     (case action of DeployDecoy _ _ \<Rightarrow> True | _ \<Rightarrow> False)"
| "selector_matches_action SelEscalate action =
     (case action of Escalate _ _ \<Rightarrow> True | _ \<Rightarrow> False)"

text \<open>The hours are \<^verbatim>\<open>u8\<close>; they are only compared.\<close>

record policy_time_window_config =
  tw_start_hour_utc :: nat
  tw_end_hour_utc :: nat

definition contains_hour :: "policy_time_window_config \<Rightarrow> nat \<Rightarrow> bool" where
  "contains_hour window hour_utc =
     (if tw_start_hour_utc window < tw_end_hour_utc window
      then tw_start_hour_utc window \<le> hour_utc \<and> hour_utc < tw_end_hour_utc window
      else tw_start_hour_utc window \<le> hour_utc \<or> hour_utc < tw_end_hour_utc window)"

record policy_rule_config =
  pr_name :: string
  pr_decision :: policy_rule_decision
  pr_threat_class :: threat_class
  pr_actions :: "policy_action_selector list"
  pr_min_severity :: severity
  pr_max_severity :: severity
  pr_time_window_utc :: "policy_time_window_config option"
  pr_max_actions_per_agent_per_minute :: "usize option"
  pr_reason :: "string option"

record policy_config =
  pc_human_gate_severity :: severity
  pc_lease_ttl_ms :: i64
  pc_max_actions_per_scope_per_minute :: usize
  pc_rules :: "policy_rule_config list"

definition policy_config_default :: policy_config where
  "policy_config_default =
     \<lparr>pc_human_gate_severity = High, pc_lease_ttl_ms = 60000,
      pc_max_actions_per_scope_per_minute = 5, pc_rules = []\<rparr>"

datatype config_validation_error = InvalidField string string

definition rule_error :: "nat \<Rightarrow> string \<Rightarrow> config_validation_error + unit" where
  "rule_error index msg = Inl (InvalidField ''policy.rules'' (''rule '' @ dec_nat index @ msg))"

definition policy_rule_validate ::
  "policy_rule_config \<Rightarrow> nat \<Rightarrow> config_validation_error + unit" where
  "policy_rule_validate rule index =
     (if blank (pr_name rule) then rule_error index '' name must not be empty''
      else if pr_max_severity rule < pr_min_severity rule then
        rule_error index '' max_severity must be greater than or equal to min_severity''
      else if pr_max_actions_per_agent_per_minute rule = Some 0 then
        rule_error index '' max_actions_per_agent_per_minute must be greater than zero''
      else case pr_time_window_utc rule of None \<Rightarrow> Inr ()
        | Some window \<Rightarrow>
            if 23 < tw_start_hour_utc window then
              rule_error index '' start_hour_utc must be between 0 and 23''
            else if tw_end_hour_utc window = 0 \<or> 24 < tw_end_hour_utc window then
              rule_error index '' end_hour_utc must be between 1 and 24''
            else if tw_start_hour_utc window = tw_end_hour_utc window then
              rule_error index '' time_window_utc must span at least one UTC hour''
            else Inr ())"

text \<open>
  A validated window is a proper, non-empty set of hours of the day: it contains its
  start hour, and the hours it contains are those from the start up to the end, wrapping
  past midnight.
\<close>

lemma validated_window_hours:
  assumes "policy_rule_validate rule index = Inr ()"
    and "pr_time_window_utc rule = Some window" and "h < 24"
  shows "contains_hour window h \<longleftrightarrow>
      (h + 24 - tw_start_hour_utc window) mod 24 <
      (if tw_start_hour_utc window < tw_end_hour_utc window
       then tw_end_hour_utc window - tw_start_hour_utc window
       else tw_end_hour_utc window + 24 - tw_start_hour_utc window)"
proof -
  let ?s = "tw_start_hour_utc window" and ?e = "tw_end_hour_utc window"
  from assms(1,2) have b: "?s \<le> 23" "?e \<noteq> 0" "?e \<le> 24" "?s \<noteq> ?e"
    by (auto simp: policy_rule_validate_def rule_error_def split: if_splits)
  have "(h + 24 - ?s) mod 24 = (if ?s \<le> h then h - ?s else h + 24 - ?s)"
  proof (cases "?s \<le> h")
    case True
    then have "(h + 24 - ?s) mod 24 = (h - ?s) mod 24"
      by (metis Nat.add_diff_assoc2 mod_add_self2)
    with True assms(3) show ?thesis by simp
  qed (use b assms(3) in simp)
  with b assms(3) show ?thesis by (auto simp: contains_hour_def)
qed

end
