(* ===== verification/Static_Gate.thy ===== *)
theory Static_Gate
  imports Policy_Config
begin

text \<open>
  The static approval gate (\<^verbatim>\<open>crates/swarm-policy/src/static_gate.rs\<close>): request
  validation, the order floor / rate limit / human gate / default allow, and lease
  issuance. The gate's mutex-protected windows are a field of its record, and \<open>evaluate\<close>
  returns the gate with the windows it leaves behind.

  The lemmas give the gate's decision table, and show that over any sequence of
  evaluations with a clock that does not run backwards no scope gets more than its budget
  of authorisations in any minute.
\<close>

record static_approval_gate =
  sg_human_gate_severity :: severity
  sg_lease_ttl_ms :: i64
  sg_max_actions_per_scope_per_minute :: usize
  sg_scope_windows :: "string \<rightharpoonup> i64 list"

definition static_from_config :: "policy_config \<Rightarrow> static_approval_gate" where
  "static_from_config config =
     \<lparr>sg_human_gate_severity = pc_human_gate_severity config,
      sg_lease_ttl_ms = pc_lease_ttl_ms config,
      sg_max_actions_per_scope_per_minute = pc_max_actions_per_scope_per_minute config,
      sg_scope_windows = Map.empty\<rparr>"

fun validate_action :: "response_action \<Rightarrow> string option" where
  "validate_action (BlockEgress target) =
     (if blank target then Some ''block target must not be empty'' else None)"
| "validate_action (IsolateHost host_id) =
     (if blank host_id then Some ''host_id must not be empty'' else None)"
| "validate_action (RevokeCredential credential_id) =
     (if blank credential_id then Some ''credential_id must not be empty'' else None)"
| "validate_action (SinkholeDns domain) =
     (if blank domain then Some ''domain must not be empty'' else None)"
| "validate_action (TerminateUserSession host_id session_id) =
     (if blank host_id \<or> blank session_id
      then Some ''host_id and session_id must not be empty'' else None)"
| "validate_action (TriggerEdrScan host_id scan_profile) =
     (if blank host_id \<or> blank scan_profile
      then Some ''host_id and scan_profile must not be empty'' else None)"
| "validate_action (InjectFirewallRule host_id rule_name direction cidr _) =
     (if blank host_id \<or> blank rule_name \<or> blank direction \<or> blank cidr
      then Some ''host_id, rule_name, direction, and cidr must not be empty'' else None)"
| "validate_action (QuarantineFile host_id file_path) =
     (if blank host_id \<or> blank file_path
      then Some ''host_id and file_path must not be empty'' else None)"
| "validate_action (KillProcess host_id process_name) =
     (if blank host_id \<or> blank process_name
      then Some ''host_id and process_name must not be empty'' else None)"
| "validate_action (SuspendProcess host_id process_name) =
     (if blank host_id \<or> blank process_name
      then Some ''host_id and process_name must not be empty'' else None)"
| "validate_action (DisableUserAccount user_id) =
     (if blank user_id then Some ''user_id must not be empty'' else None)"
| "validate_action (ForcePasswordReset user_id) =
     (if blank user_id then Some ''user_id must not be empty'' else None)"
| "validate_action (RemoveScheduledTask host_id task_name) =
     (if blank host_id \<or> blank task_name
      then Some ''host_id and task_name must not be empty'' else None)"
| "validate_action (DeployDecoy decoy_type target_zone) =
     (if blank decoy_type \<or> blank target_zone
      then Some ''decoy_type and target_zone must not be empty'' else None)"
| "validate_action (Escalate summary _) =
     (if blank summary then Some ''summary must not be empty'' else None)"

definition validate_request :: "action_request \<Rightarrow> approval_error + unit" where
  "validate_request request =
     (if ar_evidence request = JNull then Inl (InvalidRequest ''evidence bundle must not be null'')
      else case validate_action (ar_action request) of
          Some msg \<Rightarrow> Inl (InvalidRequest msg)
        | None \<Rightarrow> Inr ())"

fun action_name :: "response_action \<Rightarrow> string" where
  "action_name (BlockEgress _) = ''block_egress''"
| "action_name (IsolateHost _) = ''isolate_host''"
| "action_name (RevokeCredential _) = ''revoke_credential''"
| "action_name (SinkholeDns _) = ''sinkhole_dns''"
| "action_name (TerminateUserSession _ _) = ''terminate_user_session''"
| "action_name (TriggerEdrScan _ _) = ''trigger_edr_scan''"
| "action_name (InjectFirewallRule _ _ _ _ _) = ''inject_firewall_rule''"
| "action_name (QuarantineFile _ _) = ''quarantine_file''"
| "action_name (KillProcess _ _) = ''kill_process''"
| "action_name (SuspendProcess _ _) = ''suspend_process''"
| "action_name (DisableUserAccount _) = ''disable_user_account''"
| "action_name (ForcePasswordReset _) = ''force_password_reset''"
| "action_name (RemoveScheduledTask _ _) = ''remove_scheduled_task''"
| "action_name (DeployDecoy _ _) = ''deploy_decoy''"
| "action_name (Escalate _ _) = ''escalate''"

definition scope_bucket :: "action_request \<Rightarrow> string" where
  "scope_bucket request =
     (case scope_for_response_action (ar_action request) of
        Some scope \<Rightarrow> scope
      | None \<Rightarrow> ''unscoped:'' @ kind (ar_action request))"

definition scope_rate_limit_decision ::
  "static_approval_gate \<Rightarrow> action_request \<Rightarrow> approval_context \<Rightarrow>
   policy_decision option \<times> static_approval_gate" where
  "scope_rate_limit_decision gate request ctx =
     (let scope = scope_bucket request;
          (outcome, windows) =
            charge_window evaluate_rate_limit (sg_scope_windows gate) scope (ac_now_ms ctx)
              (sg_max_actions_per_scope_per_minute gate);
          gate = gate\<lparr>sg_scope_windows := windows\<rparr>
      in case outcome of
           RlDenied \<Rightarrow>
             (Some (deny_with_rule ''static.scope_rate_limit''
                (''scope `'' @ scope @ ''` exceeded ''
                 @ dec_nat (sg_max_actions_per_scope_per_minute gate) @ '' actions per minute'')),
              gate)
         | RlAllowed \<Rightarrow> (None, gate))"

definition static_evaluate ::
  "static_approval_gate \<Rightarrow> action_request \<Rightarrow> approval_context \<Rightarrow>
   (approval_error + policy_decision) \<times> static_approval_gate" where
  "static_evaluate gate request ctx =
     (case validate_request request of
        Inl e \<Rightarrow> (Inl e, gate)
      | Inr _ \<Rightarrow>
         (case severity_floor_denial (ar_action request) (ar_severity request) of
            Some decision \<Rightarrow> (Inr decision, gate)
          | None \<Rightarrow>
             (case scope_rate_limit_decision gate request ctx of
                (Some decision, gate) \<Rightarrow> (Inr decision, gate)
              | (None, gate) \<Rightarrow>
                 (case human_gate_decision (ar_action request) (ar_severity request)
                         (sg_human_gate_severity gate) of
                    Some decision \<Rightarrow> (Inr decision, gate)
                  | None \<Rightarrow>
                      (Inr (allow_with_rule ''static.default_allow''
                              ''authorized for immediate execution''), gate)))))"

definition static_issue_lease ::
  "static_approval_gate \<Rightarrow> action_request \<Rightarrow> approval_context \<Rightarrow> approval_error + capability_lease" where
  "static_issue_lease gate request ctx =
     (case validate_request request of
        Inl e \<Rightarrow> Inl e
      | Inr _ \<Rightarrow>
         (case i64_add (ac_now_ms ctx) (sg_lease_ttl_ms gate) of
            None \<Rightarrow> Inl Overflow
          | Some expires_at_ms \<Rightarrow>
              Inr \<lparr>cl_capability_id =
                     ''lease:'' @ hunt_str (ar_hunt_id request) @ '':''
                     @ action_name (ar_action request) @ '':'' @ dec_int (ac_now_ms ctx),
                   cl_expires_at_ms = expires_at_ms,
                   cl_action = action_name (ar_action request),
                   cl_scope = scope_for_response_action (ar_action request)\<rparr>))"

definition destructive_action_kinds :: "string list" where
  "destructive_action_kinds =
     [''block_egress'', ''isolate_host'', ''revoke_credential'', ''sinkhole_dns'',
      ''terminate_user_session'', ''inject_firewall_rule'', ''quarantine_file'',
      ''kill_process'', ''suspend_process'', ''disable_user_account'',
      ''force_password_reset'', ''remove_scheduled_task'']"

lemmas [policy_simps] =
  validate_request_def scope_rate_limit_decision_def static_evaluate_def static_issue_lease_def


section \<open>The decision table\<close>

lemma action_name_kind: "action_name action = kind action"
  by (cases action) simp_all

lemma scope_bucket_key: "scope_bucket request = action_scope_key (ar_action request)"
  by (simp add: scope_bucket_def action_scope_key_def)

lemma destructive_action_kinds_iff:
  "destructive_action action \<longleftrightarrow> kind action \<in> set destructive_action_kinds"
  by (cases action) (simp_all add: destructive_action_kinds_def)

definition well_formed_request :: "action_request \<Rightarrow> bool" where
  "well_formed_request request \<longleftrightarrow>
     ar_evidence request \<noteq> JNull \<and> validate_action (ar_action request) = None"

lemma validate_request_iff: "validate_request request = Inr () \<longleftrightarrow> well_formed_request request"
  by (auto simp: validate_request_def well_formed_request_def split: option.splits)

definition window_of :: "(string \<rightharpoonup> i64 list) \<Rightarrow> string \<Rightarrow> i64 list" where
  "window_of windows key = (case windows key of None \<Rightarrow> [] | Some w \<Rightarrow> w)"

definition has_budget :: "(string \<rightharpoonup> i64 list) \<Rightarrow> string \<Rightarrow> i64 \<Rightarrow> usize \<Rightarrow> bool" where
  "has_budget windows key now_ms limit \<longleftrightarrow>
     length (prune_stale_window (window_of windows key) now_ms) < limit"

lemma charge_window_outcome:
  "fst (charge_window evaluate_rate_limit windows key now_ms limit) =
     (if has_budget windows key now_ms limit then RlAllowed else RlDenied)"
  by (simp add: charge_window_def evaluate_rate_limit_def has_budget_def window_of_def Let_def
        split: prod.splits)

lemma rate_limit_None:
  "fst (scope_rate_limit_decision gate request ctx) = None \<longleftrightarrow>
   has_budget (sg_scope_windows gate) (scope_bucket request) (ac_now_ms ctx)
     (sg_max_actions_per_scope_per_minute gate)"
  using charge_window_outcome[of "sg_scope_windows gate" "scope_bucket request" "ac_now_ms ctx"
      "sg_max_actions_per_scope_per_minute gate"]
  by (auto simp: scope_rate_limit_decision_def Let_def split: prod.splits rate_limit_outcome.splits
        if_splits)

lemma rate_limit_frame:
  assumes "scope_rate_limit_decision gate request ctx = (out, gate')"
  shows "gate' = gate\<lparr>sg_scope_windows :=
           snd (charge_window evaluate_rate_limit (sg_scope_windows gate) (scope_bucket request)
                  (ac_now_ms ctx) (sg_max_actions_per_scope_per_minute gate))\<rparr>"
  using assms
  by (auto simp: scope_rate_limit_decision_def Let_def split: prod.splits rate_limit_outcome.splits)

lemma rate_limit_Some_deny:
  "scope_rate_limit_decision gate request ctx = (Some d, gate') \<Longrightarrow> pd_verdict d = Deny"
  by (auto simp: scope_rate_limit_decision_def Let_def deny_with_rule_def
        split: prod.splits rate_limit_outcome.splits)

definition authorised :: "approval_error + policy_decision \<Rightarrow> bool" where
  "authorised out = (case out of Inl _ \<Rightarrow> False | Inr d \<Rightarrow> pd_verdict d \<noteq> Deny)"

text \<open>
  The verdicts of the gate. An action that reaches execution or an operator is well
  formed, above its severity floor and inside its scope's budget; the human gate then
  splits those into held and allowed ones.
\<close>

lemma static_evaluate_authorised:
  "authorised (fst (static_evaluate gate request ctx)) \<longleftrightarrow>
     well_formed_request request \<and>
     severity_floor_denial (ar_action request) (ar_severity request) = None \<and>
     has_budget (sg_scope_windows gate) (scope_bucket request) (ac_now_ms ctx)
       (sg_max_actions_per_scope_per_minute gate)"
proof -
  obtain out gate' where rl: "scope_rate_limit_decision gate request ctx = (out, gate')"
    by fastforce
  show ?thesis
    using rate_limit_None[of gate request ctx] rl rate_limit_Some_deny[of gate request ctx]
      validate_request_iff[of request]
    by (auto simp: static_evaluate_def authorised_def severity_floor_denial_def deny_with_rule_def
          human_gate_decision_def require_human_with_rule_def allow_with_rule_def
          split: sum.splits option.splits prod.splits if_splits)
qed

lemma static_evaluate_windows:
  "sg_scope_windows (snd (static_evaluate gate request ctx)) =
     (if well_formed_request request \<and>
         severity_floor_denial (ar_action request) (ar_severity request) = None
      then snd (charge_window evaluate_rate_limit (sg_scope_windows gate) (scope_bucket request)
                  (ac_now_ms ctx) (sg_max_actions_per_scope_per_minute gate))
      else sg_scope_windows gate)"
  and static_evaluate_frame:
  "sg_max_actions_per_scope_per_minute (snd (static_evaluate gate request ctx)) =
     sg_max_actions_per_scope_per_minute gate"
  "sg_human_gate_severity (snd (static_evaluate gate request ctx)) =
     sg_human_gate_severity gate"
proof -
  obtain out gate' where rl: "scope_rate_limit_decision gate request ctx = (out, gate')"
    by fastforce
  note frame = rate_limit_frame[OF rl]
  show "sg_scope_windows (snd (static_evaluate gate request ctx)) =
     (if well_formed_request request \<and>
         severity_floor_denial (ar_action request) (ar_severity request) = None
      then snd (charge_window evaluate_rate_limit (sg_scope_windows gate) (scope_bucket request)
                  (ac_now_ms ctx) (sg_max_actions_per_scope_per_minute gate))
      else sg_scope_windows gate)"
    using validate_request_iff[of request] rl frame
    by (auto simp: static_evaluate_def split: sum.splits option.splits)
  show "sg_max_actions_per_scope_per_minute (snd (static_evaluate gate request ctx)) =
     sg_max_actions_per_scope_per_minute gate"
    "sg_human_gate_severity (snd (static_evaluate gate request ctx)) =
     sg_human_gate_severity gate"
    using rl frame by (auto simp: static_evaluate_def split: sum.splits option.splits)
qed

section \<open>The budget over a run\<close>

fun static_run ::
  "static_approval_gate \<Rightarrow> (action_request \<times> approval_context) list \<Rightarrow>
   (approval_error + policy_decision) list" where
  "static_run gate [] = []"
| "static_run gate ((request, ctx) # calls) =
     (let (out, gate') = static_evaluate gate request ctx in out # static_run gate' calls)"

text \<open>The times at which a run authorised an action of one scope.\<close>

definition authorised_times ::
  "string \<Rightarrow> (action_request \<times> approval_context) list \<Rightarrow>
   (approval_error + policy_decision) list \<Rightarrow> i64 list" where
  "authorised_times scope calls outs =
     map (\<lambda>((request, ctx), out). ac_now_ms ctx)
       (filter (\<lambda>((request, ctx), out). scope_bucket request = scope \<and> authorised out)
         (zip calls outs))"

lemma authorised_times_Cons:
  "authorised_times k ((request, ctx) # calls) (out # outs) =
     authorised_times k [(request, ctx)] [out] @ authorised_times k calls outs"
  by (simp add: authorised_times_def)

lemma static_evaluate_tracks:
  assumes inv: "store_tracks (sg_max_actions_per_scope_per_minute gate) t0 Hs (sg_scope_windows gate)"
    and le: "t0 \<le> ac_now_ms ctx" and clock: "clock_reading (ac_now_ms ctx)"
  shows "store_tracks (sg_max_actions_per_scope_per_minute gate) (ac_now_ms ctx)
           (\<lambda>k. Hs k @ authorised_times k [(request, ctx)]
                  [fst (static_evaluate gate request ctx)])
           (sg_scope_windows (snd (static_evaluate gate request ctx)))"
proof -
  let ?charge = "charge_window evaluate_rate_limit (sg_scope_windows gate) (scope_bucket request)
                  (ac_now_ms ctx) (sg_max_actions_per_scope_per_minute gate)"
  let ?reach = "well_formed_request request \<and>
                severity_floor_denial (ar_action request) (ar_severity request) = None"
  note step = rl.store_tracks_charge[OF inv le clock, of "scope_bucket request"]
  note auth = static_evaluate_authorised[of gate request ctx]
  note out = charge_window_outcome[of "sg_scope_windows gate" "scope_bucket request"
      "ac_now_ms ctx" "sg_max_actions_per_scope_per_minute gate"]
  have times: "(\<lambda>k. Hs k @ authorised_times k [(request, ctx)]
                  [fst (static_evaluate gate request ctx)]) =
      (if ?reach \<and> fst ?charge = RlAllowed
       then Hs(scope_bucket request := Hs (scope_bucket request) @ [ac_now_ms ctx]) else Hs)"
    using auth out by (auto simp: authorised_times_def fun_eq_iff)
  show ?thesis
  proof (cases ?reach)
    case True
    with step show ?thesis
      unfolding times static_evaluate_windows
      by (cases ?charge; cases "fst ?charge") auto
  next
    case False
    with store_tracks_later[OF inv le] show ?thesis
      unfolding times static_evaluate_windows by (simp only: False if_False simp_thms)
  qed
qed

lemma static_run_tracks:
  assumes "store_tracks (sg_max_actions_per_scope_per_minute gate) t0 Hs (sg_scope_windows gate)"
    and "sorted (t0 # map (\<lambda>(_, ctx). ac_now_ms ctx) calls)"
    and "\<forall>(_, ctx)\<in>set calls. clock_reading (ac_now_ms ctx)"
  shows "length (trailing t (Hs k @ authorised_times k calls (static_run gate calls)))
           \<le> sg_max_actions_per_scope_per_minute gate"
  using assms
proof (induction calls arbitrary: gate t0 Hs)
  case Nil
  then show ?case
    unfolding store_tracks_def authorised_times_def by (auto dest: tracks_bounded)
next
  case (Cons call calls)
  obtain request ctx where call: "call = (request, ctx)" by fastforce
  obtain out gate' where ev: "static_evaluate gate request ctx = (out, gate')" by fastforce
  let ?Hs = "\<lambda>k. Hs k @ authorised_times k [(request, ctx)] [out]"
  have same: "sg_max_actions_per_scope_per_minute gate' = sg_max_actions_per_scope_per_minute gate"
    using static_evaluate_frame[of gate request ctx] ev by simp
  have "store_tracks (sg_max_actions_per_scope_per_minute gate) (ac_now_ms ctx) ?Hs
          (sg_scope_windows gate')"
    using static_evaluate_tracks[OF Cons.prems(1), of ctx request] Cons.prems(2,3) ev call
    by auto
  then have "length (trailing t (?Hs k @ authorised_times k calls (static_run gate' calls)))
           \<le> sg_max_actions_per_scope_per_minute gate'"
    using Cons.IH[of gate' "ac_now_ms ctx" ?Hs] Cons.prems(2,3) call same by auto
  then show ?case
    using same call ev authorised_times_Cons[of k request ctx calls out] by simp
qed

section \<open>Properties\<close>

text \<open>
  C18. The rate limit of the static gate: over any sequence of evaluations of a gate built
  from a configuration, under a clock that does not run backwards and whose readings are
  non-negative milliseconds of an \<^verbatim>\<open>i64\<close>, no trailing minute holds
  more authorised actions of one scope than \<^verbatim>\<open>max_actions_per_scope_per_minute\<close>.
\<close>

theorem static_scope_budget:
  assumes "sorted (map (\<lambda>(_, ctx). ac_now_ms ctx) calls)"
    and "\<forall>(_, ctx)\<in>set calls. clock_reading (ac_now_ms ctx)"
  shows "length (trailing t (authorised_times scope calls (static_run (static_from_config config) calls)))
           \<le> pc_max_actions_per_scope_per_minute config"
proof -
  let ?gate = "static_from_config config"
  have start: "store_tracks (sg_max_actions_per_scope_per_minute ?gate) 0 (\<lambda>_. []) (sg_scope_windows ?gate)"
    by (simp add: static_from_config_def store_tracks_empty)
  have "sorted (0 # map (\<lambda>(_, ctx). ac_now_ms ctx) calls)"
    using assms by (auto simp: clock_reading_def)
  from static_run_tracks[OF start this assms(2), of t scope] show ?thesis
    by (simp add: static_from_config_def)
qed

definition sample_request :: action_request where
  "sample_request =
     \<lparr>ar_hunt_id = HuntId ''h1'', ar_requested_by = AgentId ''a1'', ar_action = IsolateHost ''web'',
      ar_severity = Medium, ar_evidence = JBool True\<rparr>"

definition sample_context :: "i64 \<Rightarrow> approval_context" where
  "sample_context now_ms =
     \<lparr>ac_live_mode = True, ac_receipt_chain = [], ac_correlation_id = None, ac_now_ms = now_ms\<rparr>"

theorem static_scope_budget_witness:
  "sorted [1000, 2000 :: int] \<and> clock_reading 1000 \<and> clock_reading 2000 \<and>
   length (trailing 2000 (authorised_times ''web''
     [(sample_request, sample_context 1000), (sample_request, sample_context 2000)]
     (static_run (static_from_config policy_config_default)
       [(sample_request, sample_context 1000), (sample_request, sample_context 2000)])))
     \<le> pc_max_actions_per_scope_per_minute policy_config_default"
  using static_scope_budget[of
      "[(sample_request, sample_context 1000), (sample_request, sample_context 2000)]" 2000 "''web''"
      policy_config_default]
  by (simp add: sample_context_def clock_reading_def i64_max_def)

text \<open>
  C32. The decision table of the static gate: an action is allowed without a human exactly
  when the request is well formed, above its severity floor, inside its scope's budget and
  not held by the human gate.
\<close>

theorem static_allow_iff:
  "(\<exists>d. fst (static_evaluate gate request ctx) = Inr d \<and> pd_verdict d = Allow) \<longleftrightarrow>
     well_formed_request request \<and>
     severity_floor_denial (ar_action request) (ar_severity request) = None \<and>
     has_budget (sg_scope_windows gate) (scope_bucket request) (ac_now_ms ctx)
       (sg_max_actions_per_scope_per_minute gate) \<and>
     \<not> (destructive_action (ar_action request) \<and> sg_human_gate_severity gate \<le> ar_severity request)"
proof -
  obtain out gate' where rl: "scope_rate_limit_decision gate request ctx = (out, gate')"
    by fastforce
  have "sg_human_gate_severity gate' = sg_human_gate_severity gate"
    using rate_limit_frame[OF rl] by simp
  with rl rate_limit_None[of gate request ctx] rate_limit_Some_deny[of gate request ctx]
    validate_request_iff[of request]
  show ?thesis
    by (auto simp: static_evaluate_def policy_simps
          split: sum.splits option.splits prod.splits if_splits)
qed

end
