(* ===== verification/Configurable_Gate.thy ===== *)
theory Configurable_Gate
  imports Static_Gate
begin

text \<open>
  The configurable approval gate
  (\<^verbatim>\<open>crates/swarm-policy/src/configurable_gate.rs\<close>): ordered rules in front of the static
  gate, and the \<^verbatim>\<open>ApprovalGate\<close> trait both gates implement, as a locale with its two
  interpretations. The deserialiser of a threat class out of the evidence
  (\<^verbatim>\<open>serde_json::from_value\<close>) is the parameter \<open>threat_class_of_json\<close>. The tracing span
  of \<open>evaluate\<close> is left out; it does not influence the verdict.
\<close>

record configurable_approval_gate =
  cg_static_gate :: static_approval_gate
  cg_rules :: "policy_rule_config list"
  cg_agent_windows :: "string \<rightharpoonup> i64 list"

definition configurable_from_config :: "policy_config \<Rightarrow> configurable_approval_gate" where
  "configurable_from_config config =
     \<lparr>cg_static_gate = static_from_config config, cg_rules = pc_rules config,
      cg_agent_windows = Map.empty\<rparr>"

definition threat_class_from_request ::
  "(json \<Rightarrow> threat_class option) \<Rightarrow> action_request \<Rightarrow> threat_class option" where
  "threat_class_from_request threat_class_of_json request =
     (let nested = (case json_get (ar_evidence request) ''escalation'' of
                      None \<Rightarrow> None
                    | Some value \<Rightarrow> json_get value ''threat_class'');
          found = (case nested of
                     Some value \<Rightarrow> Some value
                   | None \<Rightarrow> json_get (ar_evidence request) ''threat_class'')
      in case found of None \<Rightarrow> None | Some value \<Rightarrow> threat_class_of_json value)"

definition selector_matches ::
  "policy_rule_config \<Rightarrow> action_request \<Rightarrow> threat_class \<Rightarrow> bool" where
  "selector_matches rule request threat_class \<longleftrightarrow>
     pr_threat_class rule = threat_class \<and>
     pr_min_severity rule \<le> ar_severity request \<and>
     ar_severity request \<le> pr_max_severity rule \<and>
     (pr_actions rule = [] \<or>
      list_ex (\<lambda>selector. selector_matches_action selector (ar_action request)) (pr_actions rule))"

definition current_hour_utc :: "i64 \<Rightarrow> nat" where
  "current_hour_utc now_ms = nat (now_ms div 1000 div 3600 mod 24)"

definition agent_window_key :: "policy_rule_config \<Rightarrow> action_request \<Rightarrow> string" where
  "agent_window_key rule request = pr_name rule @ '':'' @ agent_str (ar_requested_by request)"

definition agent_limit_exceeded ::
  "(string \<rightharpoonup> i64 list) \<Rightarrow> policy_rule_config \<Rightarrow> action_request \<Rightarrow> i64 \<Rightarrow> usize \<Rightarrow>
   bool \<times> (string \<rightharpoonup> i64 list)" where
  "agent_limit_exceeded windows rule request now_ms limit =
     (let (outcome, windows) =
            charge_window evaluate_rate_limit windows (agent_window_key rule request) now_ms limit
      in (outcome = RlDenied, windows))"

definition allow_reason :: "policy_rule_config \<Rightarrow> string" where
  "allow_reason rule =
     (case pr_reason rule of Some reason \<Rightarrow> reason
      | None \<Rightarrow> ''authorized by policy rule `'' @ pr_name rule @ ''`'')"

definition deny_reason :: "policy_rule_config \<Rightarrow> string" where
  "deny_reason rule =
     (case pr_reason rule of Some reason \<Rightarrow> reason
      | None \<Rightarrow> ''denied by policy rule `'' @ pr_name rule @ ''`'')"

text \<open>The body of the loop for a rule that selects the request.\<close>

definition apply_rule ::
  "(string \<rightharpoonup> i64 list) \<Rightarrow> policy_rule_config \<Rightarrow> action_request \<Rightarrow> approval_context \<Rightarrow>
   policy_decision \<times> (string \<rightharpoonup> i64 list)" where
  "apply_rule windows rule request ctx =
     (let hour = current_hour_utc (ac_now_ms ctx);
          final = (case pr_decision rule of
                     RuleAllow \<Rightarrow> allow_with_rule (pr_name rule) (allow_reason rule)
                   | RuleDeny \<Rightarrow> deny_with_rule (pr_name rule) (deny_reason rule));
          inactive = (case pr_time_window_utc rule of None \<Rightarrow> False
                      | Some window \<Rightarrow> \<not> contains_hour window hour)
      in if inactive then
           (deny_with_rule (pr_name rule)
              (''rule `'' @ pr_name rule @ ''` is inactive at '' @ dec_pad2 hour @ '':00 UTC''),
            windows)
         else case pr_max_actions_per_agent_per_minute rule of
           None \<Rightarrow> (final, windows)
         | Some limit \<Rightarrow>
             (case agent_limit_exceeded windows rule request (ac_now_ms ctx) limit of
                (True, windows') \<Rightarrow>
                  (deny_with_rule (pr_name rule)
                     (''agent `'' @ agent_str (ar_requested_by request)
                      @ ''` exceeded rule limit of '' @ dec_nat limit @ '' actions per minute''),
                   windows')
              | (False, windows') \<Rightarrow> (final, windows')))"

fun evaluate_rules ::
  "(string \<rightharpoonup> i64 list) \<Rightarrow> policy_rule_config list \<Rightarrow> action_request \<Rightarrow> approval_context \<Rightarrow>
   threat_class \<Rightarrow> policy_decision option \<times> (string \<rightharpoonup> i64 list)" where
  "evaluate_rules windows [] request ctx threat_class = (None, windows)"
| "evaluate_rules windows (rule # rules) request ctx threat_class =
     (if \<not> selector_matches rule request threat_class
      then evaluate_rules windows rules request ctx threat_class
      else let (decision, windows') = apply_rule windows rule request ctx
           in (Some decision, windows'))"

definition configurable_evaluate ::
  "(json \<Rightarrow> threat_class option) \<Rightarrow> configurable_approval_gate \<Rightarrow> action_request \<Rightarrow>
   approval_context \<Rightarrow> (approval_error + policy_decision) \<times> configurable_approval_gate" where
  "configurable_evaluate threat_class_of_json gate request ctx =
     (case validate_request request of
        Inl e \<Rightarrow> (Inl e, gate)
      | Inr _ \<Rightarrow>
         if cg_rules gate = [] then
           (Inr (deny_with_rule ''configurable.fail_closed.empty_ruleset''
                   ''no configurable policy rules loaded; failing closed''), gate)
         else
           let (ruled, windows) =
                 (case threat_class_from_request threat_class_of_json request of
                    None \<Rightarrow> (None, cg_agent_windows gate)
                  | Some threat_class \<Rightarrow>
                      evaluate_rules (cg_agent_windows gate) (cg_rules gate) request ctx threat_class);
               gate = gate\<lparr>cg_agent_windows := windows\<rparr>
           in case ruled of
                Some decision \<Rightarrow> (Inr decision, gate)
              | None \<Rightarrow>
                  (let (out, static_gate) = static_evaluate (cg_static_gate gate) request ctx
                   in (out, gate\<lparr>cg_static_gate := static_gate\<rparr>)))"

definition configurable_issue_lease ::
  "configurable_approval_gate \<Rightarrow> action_request \<Rightarrow> approval_context \<Rightarrow>
   approval_error + capability_lease" where
  "configurable_issue_lease gate request ctx = static_issue_lease (cg_static_gate gate) request ctx"

section \<open>The rule loop against its reference\<close>

lemma evaluate_rules_find:
  "evaluate_rules windows rules request ctx threat_class =
     (case find (\<lambda>rule. selector_matches rule request threat_class) rules of
        None \<Rightarrow> (None, windows)
      | Some rule \<Rightarrow>
          (let (decision, windows') = apply_rule windows rule request ctx
           in (Some decision, windows')))"
  by (induction rules) auto

lemma current_hour_utc_bound: "current_hour_utc now_ms < 24"
  unfolding current_hour_utc_def by (simp add: nat_less_iff)

lemma agent_limit_exceeded_budget:
  "agent_limit_exceeded windows rule request now_ms limit = (exceeded, windows') \<Longrightarrow>
   exceeded \<longleftrightarrow> \<not> has_budget windows (agent_window_key rule request) now_ms limit"
  using charge_window_outcome[of windows "agent_window_key rule request" now_ms limit]
  by (auto simp: agent_limit_exceeded_def Let_def split: prod.splits if_splits)

lemma apply_rule_allow:
  "pd_verdict (fst (apply_rule windows rule request ctx)) = Allow \<longleftrightarrow>
     pr_decision rule = RuleAllow \<and>
     (\<forall>window. pr_time_window_utc rule = Some window \<longrightarrow>
        contains_hour window (current_hour_utc (ac_now_ms ctx))) \<and>
     (\<forall>limit. pr_max_actions_per_agent_per_minute rule = Some limit \<longrightarrow>
        has_budget windows (agent_window_key rule request) (ac_now_ms ctx) limit)"
  by (auto simp: apply_rule_def Let_def deny_with_rule_def allow_with_rule_def
        dest: agent_limit_exceeded_budget
        split: option.splits prod.splits bool.splits policy_rule_decision.splits if_splits)

lemma apply_rule_verdict:
  "pd_verdict (fst (apply_rule windows rule request ctx)) \<in> {Allow, Deny}"
  by (auto simp: apply_rule_def Let_def deny_with_rule_def allow_with_rule_def
        split: option.splits prod.splits bool.splits policy_rule_decision.splits)

text \<open>The rule that decides a request, when one does.\<close>

definition deciding_rule ::
  "(json \<Rightarrow> threat_class option) \<Rightarrow> configurable_approval_gate \<Rightarrow> action_request \<Rightarrow>
   policy_rule_config option" where
  "deciding_rule threat_class_of_json gate request =
     (case threat_class_from_request threat_class_of_json request of
        None \<Rightarrow> None
      | Some threat_class \<Rightarrow>
          find (\<lambda>rule. selector_matches rule request threat_class) (cg_rules gate))"

lemma configurable_evaluate_cases:
  "fst (configurable_evaluate tc gate request ctx) =
     (case validate_request request of
        Inl e \<Rightarrow> Inl e
      | Inr _ \<Rightarrow>
         if cg_rules gate = [] then
           Inr (deny_with_rule ''configurable.fail_closed.empty_ruleset''
                  ''no configurable policy rules loaded; failing closed'')
         else case deciding_rule tc gate request of
           Some rule \<Rightarrow> Inr (fst (apply_rule (cg_agent_windows gate) rule request ctx))
         | None \<Rightarrow> fst (static_evaluate (cg_static_gate gate) request ctx))"
  by (auto simp: configurable_evaluate_def deciding_rule_def evaluate_rules_find Let_def
        split: sum.splits option.splits prod.splits)

section \<open>The approval-gate trait\<close>

text \<open>The gate after a sequence of evaluations.\<close>

primrec gate_after ::
  "('g \<Rightarrow> action_request \<Rightarrow> approval_context \<Rightarrow> 'r \<times> 'g) \<Rightarrow> 'g \<Rightarrow>
   (action_request \<times> approval_context) list \<Rightarrow> 'g" where
  "gate_after evaluate g [] = g"
| "gate_after evaluate g (c # calls) = gate_after evaluate (snd (evaluate g (fst c) (snd c))) calls"

text \<open>
  \<^verbatim>\<open>trait ApprovalGate\<close>: what a caller may rely on whichever gate it holds. Malformed
  requests are refused before anything is recorded, well-formed ones always get a
  decision, a lease is minted for well-formed requests only and names exactly the action's
  kind, scope and lifetime, and evaluating never changes the lifetime.
\<close>

locale approval_gate =
  fixes evaluate :: "'g \<Rightarrow> action_request \<Rightarrow> approval_context \<Rightarrow>
                     (approval_error + policy_decision) \<times> 'g"
    and issue_lease :: "'g \<Rightarrow> action_request \<Rightarrow> approval_context \<Rightarrow> approval_error + capability_lease"
    and ttl :: "'g \<Rightarrow> i64"
  assumes rejects_malformed:
    "\<not> well_formed_request request \<Longrightarrow> \<exists>msg. evaluate g request ctx = (Inl (InvalidRequest msg), g)"
    and decides: "well_formed_request request \<Longrightarrow> \<exists>d. fst (evaluate g request ctx) = Inr d"
    and lease: "issue_lease g request ctx = Inr l \<longleftrightarrow>
      well_formed_request request \<and> in_i64 (ac_now_ms ctx + ttl g) \<and>
      l = \<lparr>cl_capability_id = ''lease:'' @ hunt_str (ar_hunt_id request) @ '':''
             @ kind (ar_action request) @ '':'' @ dec_int (ac_now_ms ctx),
           cl_expires_at_ms = ac_now_ms ctx + ttl g,
           cl_action = kind (ar_action request),
           cl_scope = scope_for_response_action (ar_action request)\<rparr>"
    and ttl_evaluate: "ttl (snd (evaluate g request ctx)) = ttl g"
begin

lemma ttl_after: "ttl (gate_after evaluate g calls) = ttl g"
  by (induction calls arbitrary: g) (simp_all add: ttl_evaluate)

text \<open>Leases do not depend on what the gate evaluated before.\<close>

lemma lease_after:
  "issue_lease (gate_after evaluate g calls) request ctx = Inr l \<longleftrightarrow>
   issue_lease g request ctx = Inr l"
  by (simp add: lease ttl_after)

text \<open>A lease never outlives the configured lifetime and is live when it is minted.\<close>

lemma lease_lifetime:
  assumes "issue_lease g request ctx = Inr l" "0 < ttl g"
  shows "ac_now_ms ctx < cl_expires_at_ms l \<and> cl_expires_at_ms l - ac_now_ms ctx = ttl g"
  using assms by (auto simp: lease)

lemma malformed_after:
  "\<not> well_formed_request request \<Longrightarrow>
   gate_after evaluate g (calls @ [(request, ctx)]) = gate_after evaluate g calls"
proof (induction calls arbitrary: g)
  case Nil
  then show ?case using rejects_malformed[of request g ctx] by auto
qed simp

end

interpretation sg: approval_gate static_evaluate static_issue_lease sg_lease_ttl_ms
proof unfold_locales
  fix g request ctx
  show "\<exists>msg. static_evaluate g request ctx = (Inl (InvalidRequest msg), g)"
    if "\<not> well_formed_request request"
    using that
    by (auto simp: static_evaluate_def validate_request_def well_formed_request_def
          split: option.splits)
  show "\<exists>d. fst (static_evaluate g request ctx) = Inr d" if "well_formed_request request"
    using that
    by (auto simp: static_evaluate_def validate_request_def well_formed_request_def
          split: option.splits prod.splits)
  show "sg_lease_ttl_ms (snd (static_evaluate g request ctx)) = sg_lease_ttl_ms g"
    by (auto simp: static_evaluate_def scope_rate_limit_decision_def Let_def
          split: sum.splits option.splits prod.splits rate_limit_outcome.splits)
next
  fix g request ctx l
  show "static_issue_lease g request ctx = Inr l \<longleftrightarrow>
      well_formed_request request \<and> in_i64 (ac_now_ms ctx + sg_lease_ttl_ms g) \<and>
      l = \<lparr>cl_capability_id = ''lease:'' @ hunt_str (ar_hunt_id request) @ '':''
             @ kind (ar_action request) @ '':'' @ dec_int (ac_now_ms ctx),
           cl_expires_at_ms = ac_now_ms ctx + sg_lease_ttl_ms g,
           cl_action = kind (ar_action request),
           cl_scope = scope_for_response_action (ar_action request)\<rparr>"
    by (auto simp: static_issue_lease_def validate_request_def well_formed_request_def
          action_name_kind i64_add_def split: option.splits)
qed

interpretation cg: approval_gate "configurable_evaluate tc" configurable_issue_lease
  "\<lambda>g. sg_lease_ttl_ms (cg_static_gate g)"
proof unfold_locales
  fix g request ctx
  show "\<exists>msg. configurable_evaluate tc g request ctx = (Inl (InvalidRequest msg), g)"
    if "\<not> well_formed_request request"
    using that
    by (auto simp: configurable_evaluate_def validate_request_def well_formed_request_def
          split: option.splits)
  show "\<exists>d. fst (configurable_evaluate tc g request ctx) = Inr d" if "well_formed_request request"
    using sg.decides[OF that, of "cg_static_gate g" ctx] that
    by (auto simp: configurable_evaluate_cases validate_request_def well_formed_request_def
          split: option.splits)
  show "sg_lease_ttl_ms (cg_static_gate (snd (configurable_evaluate tc g request ctx))) =
        sg_lease_ttl_ms (cg_static_gate g)"
    using sg.ttl_evaluate[of "cg_static_gate g" request ctx]
    by (auto simp: configurable_evaluate_def Let_def split: sum.splits option.splits prod.splits)
next
  fix g request ctx l
  show "configurable_issue_lease g request ctx = Inr l \<longleftrightarrow>
      well_formed_request request \<and>
      in_i64 (ac_now_ms ctx + sg_lease_ttl_ms (cg_static_gate g)) \<and>
      l = \<lparr>cl_capability_id = ''lease:'' @ hunt_str (ar_hunt_id request) @ '':''
             @ kind (ar_action request) @ '':'' @ dec_int (ac_now_ms ctx),
           cl_expires_at_ms = ac_now_ms ctx + sg_lease_ttl_ms (cg_static_gate g),
           cl_action = kind (ar_action request),
           cl_scope = scope_for_response_action (ar_action request)\<rparr>"
    by (simp add: configurable_issue_lease_def sg.lease)
qed

section \<open>Properties\<close>

text \<open>A rule that selects a request allows it when it is an allow rule, active at this hour and inside its budget.\<close>

definition rule_grants ::
  "(string \<rightharpoonup> i64 list) \<Rightarrow> policy_rule_config \<Rightarrow> action_request \<Rightarrow> approval_context \<Rightarrow> bool" where
  "rule_grants windows rule request ctx \<longleftrightarrow>
     pr_decision rule = RuleAllow \<and>
     (case pr_time_window_utc rule of None \<Rightarrow> True
      | Some window \<Rightarrow> contains_hour window (current_hour_utc (ac_now_ms ctx))) \<and>
     (case pr_max_actions_per_agent_per_minute rule of None \<Rightarrow> True
      | Some limit \<Rightarrow> has_budget windows (agent_window_key rule request) (ac_now_ms ctx) limit)"

lemma apply_rule_decides:
  assumes "apply_rule windows rule request ctx = (d, windows')"
  shows "pd_verdict d = (if rule_grants windows rule request ctx then Allow else Deny)" "pd_rule_name d = pr_name rule"
proof -
  have "pd_verdict d = Allow \<longleftrightarrow> rule_grants windows rule request ctx"
    using apply_rule_allow [of windows rule request ctx] assms by (auto simp: rule_grants_def split: option.splits)
  then show "pd_verdict d = (if rule_grants windows rule request ctx then Allow else Deny)"
    using apply_rule_verdict [of windows rule request ctx] assms by auto
  show "pd_rule_name d = pr_name rule"
    using assms by (auto simp: apply_rule_def Let_def deny_with_rule_def allow_with_rule_def
        split: option.splits prod.splits bool.splits policy_rule_decision.splits if_splits)
qed

text \<open>
  C33. The decision of the configurable gate. A malformed request is refused with the error of the validation. An
  empty rule set denies. Otherwise the first rule that selects the request decides it, under its own name: it
  allows when the rule is an allow rule, active at this hour and inside its per-agent budget, and denies in
  every other case; only the windows of the agents change. When no rule selects the request, or its evidence
  names no threat class, the static gate decides, and the answer and the new state are the static gate's.
\<close>

theorem configurable_decides:
  "case validate_request request of
     Inl e \<Rightarrow> configurable_evaluate tc gate request ctx = (Inl e, gate)
   | Inr _ \<Rightarrow>
       if cg_rules gate = [] then
         \<exists>d. configurable_evaluate tc gate request ctx = (Inr d, gate) \<and> pd_verdict d = Deny
       else (case deciding_rule tc gate request of
         None \<Rightarrow> configurable_evaluate tc gate request ctx =
           map_prod id (\<lambda>static_gate. gate\<lparr>cg_static_gate := static_gate\<rparr>) (static_evaluate (cg_static_gate gate) request ctx)
       | Some rule \<Rightarrow>
           \<exists>d windows. configurable_evaluate tc gate request ctx = (Inr d, gate\<lparr>cg_agent_windows := windows\<rparr>) \<and>
             pd_rule_name d = pr_name rule \<and>
             pd_verdict d = (if rule_grants (cg_agent_windows gate) rule request ctx then Allow else Deny))"
  by (auto simp: configurable_evaluate_def deciding_rule_def evaluate_rules_find Let_def deny_with_rule_def map_prod_def
      apply_rule_decides split: sum.splits option.splits prod.splits)

text \<open>In particular, what the gate allows.\<close>

lemma configurable_allow_iff:
  "(\<exists>d. fst (configurable_evaluate tc gate request ctx) = Inr d \<and> pd_verdict d = Allow) \<longleftrightarrow>
     well_formed_request request \<and> cg_rules gate \<noteq> [] \<and>
     (case deciding_rule tc gate request of
        Some rule \<Rightarrow>
          pr_decision rule = RuleAllow \<and>
          (case pr_time_window_utc rule of None \<Rightarrow> True
           | Some window \<Rightarrow> contains_hour window (current_hour_utc (ac_now_ms ctx))) \<and>
          (case pr_max_actions_per_agent_per_minute rule of None \<Rightarrow> True
           | Some limit \<Rightarrow> has_budget (cg_agent_windows gate) (agent_window_key rule request)
                             (ac_now_ms ctx) limit)
      | None \<Rightarrow>
          \<exists>d. fst (static_evaluate (cg_static_gate gate) request ctx) = Inr d \<and> pd_verdict d = Allow)"
  using validate_request_iff[of request]
  by (auto simp: configurable_evaluate_cases apply_rule_allow deny_with_rule_def
      split: sum.splits option.splits)

text \<open>
  Leases of the configurable gate: whatever the gate evaluated before, a lease it mints
  names exactly the kind and the scope of the requested action, is live when it is minted
  and lasts exactly the configured lifetime.
\<close>

theorem configurable_lease_confined:
  assumes "configurable_issue_lease (gate_after (configurable_evaluate tc) gate calls) request ctx = Inr l"
    and "0 < sg_lease_ttl_ms (cg_static_gate gate)"
  shows "cl_action l = kind (ar_action request) \<and>
         cl_scope l = scope_for_response_action (ar_action request) \<and>
         ac_now_ms ctx < cl_expires_at_ms l \<and>
         cl_expires_at_ms l - ac_now_ms ctx = sg_lease_ttl_ms (cg_static_gate gate) \<and>
         configurable_issue_lease gate request ctx = Inr l"
proof -
  from assms(1) have l: "configurable_issue_lease gate request ctx = Inr l"
    by (simp add: cg.lease_after)
  with cg.lease_lifetime[OF l] assms(2) show ?thesis by (auto simp: cg.lease)
qed

definition sample_gate :: configurable_approval_gate where
  "sample_gate =
     \<lparr>cg_static_gate = static_from_config policy_config_default, cg_rules = [],
      cg_agent_windows = Map.empty\<rparr>"

theorem configurable_lease_confined_witness:
  "\<exists>l. configurable_issue_lease
         (gate_after (configurable_evaluate (\<lambda>_. None)) sample_gate
            [(sample_request, sample_context 5)]) sample_request (sample_context 1000) = Inr l \<and>
       0 < sg_lease_ttl_ms (cg_static_gate sample_gate) \<and>
       cl_scope l = Some ''web'' \<and> 1000 < cl_expires_at_ms l"
proof -
  let ?g = "gate_after (configurable_evaluate (\<lambda>_. None)) sample_gate [(sample_request, sample_context 5)]"
  have wf: "well_formed_request sample_request"
    by (simp add: well_formed_request_def sample_request_def) code_simp
  have ttl: "0 < sg_lease_ttl_ms (cg_static_gate sample_gate)"
    by (simp add: sample_gate_def static_from_config_def policy_config_default_def)
  have "\<exists>l. configurable_issue_lease sample_gate sample_request (sample_context 1000) = Inr l"
    using wf by (simp add: cg.lease sample_gate_def sample_context_def static_from_config_def
        policy_config_default_def machine_int_defs)
  then obtain l where l: "configurable_issue_lease ?g sample_request (sample_context 1000) = Inr l"
    using cg.lease_after by blast
  from configurable_lease_confined[OF l ttl] ttl l show ?thesis
    by (auto simp: sample_request_def sample_context_def)
qed

end
