(* ===== verification/Crypto.thy ===== *)
theory Crypto
  imports Core_Types
begin

unbundle bit_operations_syntax

text \<open>
  \<^verbatim>\<open>crates/swarm-crypto\<close>: canonical JSON (\<^verbatim>\<open>canonical.rs\<close>), hex-encoded hashes
  (\<^verbatim>\<open>hashing.rs\<close>), public keys and signatures (\<^verbatim>\<open>signing.rs\<close>) and detached signatures
  (\<^verbatim>\<open>lib.rs\<close>).

  The third-party crates these files call (\<^verbatim>\<open>sha2\<close>, \<^verbatim>\<open>ed25519_dalek\<close>, \<^verbatim>\<open>hex\<close>, \<^verbatim>\<open>ryu\<close>) are the
  fields of the record \<open>crypto_lib\<close>, an argument of every definition that uses them. What
  the code relies on about them is the predicate \<open>crypto_laws\<close>; collision resistance is
  never assumed, theorems that need it name the colliding pair instead.
\<close>

record crypto_lib =
  lib_sha256 :: "bytes \<Rightarrow> bytes"
  lib_verifying_key :: "bytes \<Rightarrow> bytes"
  lib_key_error :: "bytes \<Rightarrow> string option"
  lib_sign :: "bytes \<Rightarrow> bytes \<Rightarrow> bytes"
  lib_verify :: "bytes \<Rightarrow> bytes \<Rightarrow> bytes \<Rightarrow> bool"
  lib_hex_encode :: "bytes \<Rightarrow> string"
  lib_hex_decode :: "string \<Rightarrow> string + bytes"
  lib_ryu :: "64 word \<Rightarrow> string"

text \<open>
  \<open>lib_verifying_key\<close> is \<^verbatim>\<open>SigningKey::verifying_key\<close> on the 32-byte seed,
  \<open>lib_key_error\<close> the error text of \<^verbatim>\<open>VerifyingKey::from_bytes\<close> (\<open>None\<close> when the key
  decodes), \<open>lib_hex_decode\<close> the error text or the bytes of \<^verbatim>\<open>hex::decode\<close>.
\<close>

definition crypto_laws :: "crypto_lib \<Rightarrow> bool" where
  "crypto_laws C \<longleftrightarrow>
     (\<forall>b. lib_hex_decode C (lib_hex_encode C b) = Inr b) \<and>
     (\<forall>b. set (lib_hex_encode C b) \<subseteq> set ''0123456789abcdef'') \<and>
     (\<forall>sk. length (lib_verifying_key C sk) = 32) \<and>
     (\<forall>sk. lib_key_error C (lib_verifying_key C sk) = None) \<and>
     (\<forall>sk m. length (lib_sign C sk m) = 64) \<and>
     (\<forall>sk m. lib_verify C (lib_verifying_key C sk) m (lib_sign C sk m)) \<and>
     (\<forall>b. length (lib_sha256 C b) = 32)"

lemma length_sha256: "crypto_laws C \<Longrightarrow> length (lib_sha256 C b) = 32"
  by (simp add: crypto_laws_def)

datatype crypto_error =
    InvalidSignature
  | InvalidPublicKey string
  | InvalidPrivateKey
  | InvalidHex string
  | InvalidHashLength nat nat
  | MerkleProofFailed
  | EmptyTree
  | InvalidProofIndex nat nat
  | JsonError string

section \<open>Canonical JSON\<close>

text \<open>
  \<^verbatim>\<open>str::encode_utf16\<close> on the UTF-8 bytes of a string. The last equation covers byte
  sequences that are not UTF-8, which no Rust string holds.
\<close>

definition utf16_of_code_point :: "nat \<Rightarrow> nat list" where
  "utf16_of_code_point cp =
     (if cp < 0x10000 then [cp]
      else [0xD800 + (cp - 0x10000) div 0x400, 0xDC00 + (cp - 0x10000) mod 0x400])"

function utf16_units :: "nat list \<Rightarrow> nat list" where
  "utf16_units bs =
     (case bs of [] \<Rightarrow> []
      | b0 # bs1 \<Rightarrow>
        if b0 < 0x80 then b0 # utf16_units bs1
        else case bs1 of [] \<Rightarrow> [b0]
        | b1 # bs2 \<Rightarrow>
          if b0 < 0xE0 then
            utf16_of_code_point ((b0 mod 0x20) * 0x40 + b1 mod 0x40) @ utf16_units bs2
          else case bs2 of [] \<Rightarrow> b0 # utf16_units bs1
          | b2 # bs3 \<Rightarrow>
            if b0 < 0xF0 then
              utf16_of_code_point
                ((b0 mod 0x10) * 0x1000 + (b1 mod 0x40) * 0x40 + b2 mod 0x40) @ utf16_units bs3
            else case bs3 of [] \<Rightarrow> b0 # utf16_units bs1
            | b3 # bs4 \<Rightarrow>
              utf16_of_code_point
                ((b0 mod 8) * 0x40000 + (b1 mod 0x40) * 0x1000 + (b2 mod 0x40) * 0x40
                 + b3 mod 0x40) @ utf16_units bs4)"
  by pat_completeness auto
termination by (relation "measure length") auto

declare utf16_units.simps [simp del]

definition cmp_utf16_key :: "string \<Rightarrow> nat list" where
  "cmp_utf16_key s = utf16_units (map of_char s)"

definition hex_digit :: "nat \<Rightarrow> char" where
  "hex_digit d = (if d < 10 then char_of (48 + d) else char_of (87 + d))"

text \<open>The format \<^verbatim>\<open>\u{:04x}\<close> of a control character below U+0100.\<close>

definition unicode_escape :: "nat \<Rightarrow> string" where
  "unicode_escape n = [CHR 0x5C, CHR ''u'', CHR ''0'', CHR ''0'', hex_digit (n div 16), hex_digit (n mod 16)]"

text \<open>
  \<^verbatim>\<open>escape_json_string\<close>. The control characters U+0080 to U+009F are the byte 0xC2 followed
  by a byte from 0x80 to 0x9F.
\<close>

fun escape_json_string :: "string \<Rightarrow> string" where
  "escape_json_string [] = []"
| "escape_json_string (c # cs) =
     (if c = CHR 0x22 then [CHR 0x5C, CHR 0x22] @ escape_json_string cs
      else if c = CHR 0x5C then [CHR 0x5C, CHR 0x5C] @ escape_json_string cs
      else if c = CHR 0x08 then [CHR 0x5C, CHR ''b''] @ escape_json_string cs
      else if c = CHR 0x0C then [CHR 0x5C, CHR ''f''] @ escape_json_string cs
      else if c = CHR 0x0A then [CHR 0x5C, CHR ''n''] @ escape_json_string cs
      else if c = CHR 0x0D then [CHR 0x5C, CHR ''r''] @ escape_json_string cs
      else if c = CHR 0x09 then [CHR 0x5C, CHR ''t''] @ escape_json_string cs
      else if of_char c < (0x20 :: nat) \<or> of_char c = (0x7F :: nat) then
        unicode_escape (of_char c) @ escape_json_string cs
      else case cs of
             d # ds \<Rightarrow>
               if of_char c = (0xC2 :: nat) \<and> 0x80 \<le> (of_char d :: nat) \<and> of_char d \<le> (0x9F :: nat)
               then unicode_escape (of_char d) @ escape_json_string ds
               else c # escape_json_string cs
           | [] \<Rightarrow> [c])"

subsection \<open>Floats\<close>

fun split_once :: "char \<Rightarrow> string \<Rightarrow> (string \<times> string) option" where
  "split_once c [] = None"
| "split_once c (x # xs) =
     (if x = c then Some ([], xs)
      else case split_once c xs of None \<Rightarrow> None | Some (l, r) \<Rightarrow> Some (x # l, r))"

definition trim_start_matches :: "char \<Rightarrow> string \<Rightarrow> string" where
  "trim_start_matches c s = dropWhile (\<lambda>x. x = c) s"

definition trim_end_matches :: "char \<Rightarrow> string \<Rightarrow> string" where
  "trim_end_matches c s = rev (dropWhile (\<lambda>x. x = c) (rev s))"

definition parse_i32 :: "string \<Rightarrow> int option" where
  "parse_i32 s =
     (let (neg, ds) = (case s of c # cs \<Rightarrow> if c = CHR ''-'' then (True, cs)
                                          else if c = CHR ''+'' then (False, cs) else (False, s)
                       | [] \<Rightarrow> (False, []));
          v = (if neg then - int (read_dec ds) else int (read_dec ds))
      in if ds = [] \<or> \<not> list_all (\<lambda>c. c \<in> set ''0123456789'') ds then None
         else if - (2 ^ 31) \<le> v \<and> v < 2 ^ 31 then Some v else None)"

definition parse_to_scientific_parts :: "string \<Rightarrow> crypto_error + string \<times> int" where
  "parse_to_scientific_parts rendered0 =
     (let rendered = trim rendered0 in
      if rendered = [] then Inl (JsonError ''Empty number string'')
      else
        let (mantissa, exp_opt) =
              (case split_once CHR ''e'' rendered of
                 Some (m, e) \<Rightarrow> (m, Some e)
               | None \<Rightarrow>
                  (case split_once CHR ''E'' rendered of
                     Some (m, e) \<Rightarrow> (m, Some e)
                   | None \<Rightarrow> (rendered, None)));
            (digits_before_dot, digits0) =
              (case split_once CHR ''.'' mantissa of
                 Some (left, right) \<Rightarrow>
                   (int (length left), left @ trim_end_matches CHR ''0'' right)
               | None \<Rightarrow> (int (length mantissa), mantissa));
            digits1 = trim_start_matches CHR ''0'' digits0;
            digits2 = (if digits1 = [] then ''0'' else digits1);
            digits3 = trim_end_matches CHR ''0'' digits2;
            digits = (if digits3 = [] then ''0'' else digits3)
        in case exp_opt of
             Some exp_str \<Rightarrow>
               (case parse_i32 exp_str of
                  None \<Rightarrow> Inl (JsonError (''Invalid exponent: '' @ exp_str))
                | Some exp \<Rightarrow> Inr (digits, exp + (digits_before_dot - 1)))
           | None \<Rightarrow>
               (case split_once CHR ''.'' mantissa of
                  Some (int_part, frac_part_raw) \<Rightarrow>
                    let frac_part = trim_end_matches CHR ''0'' frac_part_raw;
                        int_stripped = trim_start_matches CHR ''0'' int_part
                    in if int_stripped \<noteq> [] then Inr (digits, int (length int_stripped) - 1)
                       else Inr (digits,
                              - (int (length (takeWhile (\<lambda>ch. ch = CHR ''0'') frac_part)) + 1))
                | None \<Rightarrow>
                    Inr (digits, int (length (trim_start_matches CHR ''0'' mantissa)) - 1)))"

definition trim_decimal :: "string \<Rightarrow> string" where
  "trim_decimal rendered =
     (case split_once CHR ''.'' rendered of
        None \<Rightarrow> rendered
      | Some (left, right) \<Rightarrow>
          let cut = trim_end_matches CHR ''0'' right
          in if cut = [] then left else left @ ''.'' @ cut)"

definition render_decimal :: "string \<Rightarrow> int \<Rightarrow> string" where
  "render_decimal digits sci_exp =
     (let digits_len = int (length digits); shift = sci_exp - (digits_len - 1) in
      if 0 \<le> shift then digits @ replicate (nat shift) CHR ''0''
      else let pos = digits_len + shift in
           if 0 < pos then
             trim_decimal (take (nat pos) digits @ ''.'' @ drop (nat pos) digits)
           else trim_decimal (''0.'' @ replicate (nat (- pos)) CHR ''0'' @ digits))"

text \<open>
  Tests on the bit pattern: a float is finite unless its exponent bits are all ones, and
  non-negative floats are ordered as their bit patterns; \<open>0x3EB0C6F7A0B5ED8D\<close> is
  \<open>1e-6\<close> and \<open>0x444B1AE4D6E2EF50\<close> is \<open>1e21\<close>.
\<close>

definition f64_abs :: "64 word \<Rightarrow> 64 word" where
  "f64_abs v = v AND 0x7FFFFFFFFFFFFFFF"

definition f64_finite :: "64 word \<Rightarrow> bool" where
  "f64_finite v \<longleftrightarrow> f64_abs v < 0x7FF0000000000000"

definition canonicalize_f64 :: "crypto_lib \<Rightarrow> 64 word \<Rightarrow> crypto_error + string" where
  "canonicalize_f64 C v =
     (if \<not> f64_finite v then Inl (JsonError ''Non-finite numbers are not valid JSON'')
      else if f64_abs v = 0 then Inr ''0''
      else
        let sgn = (if bit v 63 then ''-'' else '''');
            abs = f64_abs v;
            use_exponential = \<not> (0x3EB0C6F7A0B5ED8D \<le> abs \<and> abs < 0x444B1AE4D6E2EF50)
        in case parse_to_scientific_parts (lib_ryu C abs) of
             Inl e \<Rightarrow> Inl e
           | Inr (digits, sci_exp) \<Rightarrow>
               if \<not> use_exponential then Inr (sgn @ render_decimal digits sci_exp)
               else
                 let mantissa = (if length digits = 1 then digits
                                 else take 1 digits @ ''.'' @ drop 1 digits);
                     exp_sign = (if 0 \<le> sci_exp then ''+'' else '''')
                 in Inr (sgn @ mantissa @ ''e'' @ exp_sign @ dec_int sci_exp))"

fun canonicalize_number :: "crypto_lib \<Rightarrow> json_number \<Rightarrow> crypto_error + string" where
  "canonicalize_number C (PosInt n) = Inr (dec_nat n)"
| "canonicalize_number C (NegInt i) = Inr (dec_int i)"
| "canonicalize_number C (Float v) = canonicalize_f64 C v"

subsection \<open>Values\<close>

text \<open>
  The loops over entries and elements: the first failing part fails the whole, the others
  are joined with commas.
\<close>

fun join_results :: "(crypto_error + string) list \<Rightarrow> crypto_error + string" where
  "join_results [] = Inr []"
| "join_results [r] = r"
| "join_results (r # rs) =
     (case r of Inl e \<Rightarrow> Inl e
      | Inr s \<Rightarrow> (case join_results rs of Inl e \<Rightarrow> Inl e | Inr t \<Rightarrow> Inr (s @ '','' @ t)))"

definition quoted :: "string \<Rightarrow> string" where
  "quoted s = [CHR 0x22] @ escape_json_string s @ [CHR 0x22]"

definition map_result :: "('a \<Rightarrow> 'b) \<Rightarrow> 'e + 'a \<Rightarrow> 'e + 'b" where
  "map_result f r = (case r of Inl e \<Rightarrow> Inl e | Inr x \<Rightarrow> Inr (f x))"

fun canonicalize :: "crypto_lib \<Rightarrow> json \<Rightarrow> crypto_error + string" where
  "canonicalize C (JObject kvs) =
     (let rendered = map (\<lambda>kv. (fst kv, canonicalize C (snd kv))) kvs;
          pairs = sort_key (\<lambda>(k, _). cmp_utf16_key k) rendered
      in map_result (\<lambda>s. ''{'' @ s @ ''}'')
           (join_results (map (\<lambda>(k, r). map_result (\<lambda>s. quoted k @ '':'' @ s) r) pairs)))"
| "canonicalize C (JArray vs) =
     map_result (\<lambda>s. ''['' @ s @ '']'') (join_results (map (canonicalize C) vs))"
| "canonicalize C (JString s) = Inr (quoted s)"
| "canonicalize C (JNumber n) = canonicalize_number C n"
| "canonicalize C (JBool b) = Inr (if b then ''true'' else ''false'')"
| "canonicalize C JNull = Inr ''null''"

text \<open>Values without floats always canonicalise.\<close>

fun float_free :: "json \<Rightarrow> bool" where
  "float_free (JObject kvs) = list_all (\<lambda>kv. float_free (snd kv)) kvs"
| "float_free (JArray vs) = list_all float_free vs"
| "float_free (JNumber n) = (case n of Float _ \<Rightarrow> False | _ \<Rightarrow> True)"
| "float_free _ = True"

lemma join_results_Inr:
  "\<forall>r\<in>set rs. \<exists>s. r = Inr s \<Longrightarrow> \<exists>s. join_results rs = Inr s"
  by (induction rs rule: join_results.induct) (auto split: sum.splits)

lemma canonicalize_total: "float_free v \<Longrightarrow> \<exists>s. canonicalize C v = Inr s"
proof (induction C v rule: canonicalize.induct)
  case (1 C kvs)
  let ?rendered = "map (\<lambda>kv. (fst kv, canonicalize C (snd kv))) kvs"
  have "\<forall>kr\<in>set ?rendered. \<exists>s. snd kr = Inr s"
    using "1.IH" "1.prems" by (auto simp: list_all_iff)
  then have "\<forall>r\<in>set (map (\<lambda>(k, r). map_result (\<lambda>s. quoted k @ '':'' @ s) r)
               (sort_key (\<lambda>(k, _). cmp_utf16_key k) ?rendered)). \<exists>s. r = Inr s"
    by (fastforce simp: map_result_def)
  from join_results_Inr[OF this] obtain s where
    "join_results (map (\<lambda>(k, r). map_result (\<lambda>s. quoted k @ '':'' @ s) r)
       (sort_key (\<lambda>(k, _). cmp_utf16_key k) ?rendered)) = Inr s" ..
  then show ?case by (simp add: Let_def map_result_def[where r = "Inr s"])
next
  case (2 C vs)
  then have "\<exists>s. join_results (map (canonicalize C) vs) = Inr s"
    by (intro join_results_Inr) (auto simp: list_all_iff)
  then show ?case by (auto simp: map_result_def)
next
  case (4 C n)
  then show ?case by (cases n) auto
qed auto

section \<open>Hashes, keys and signatures\<close>

definition sha256 :: "crypto_lib \<Rightarrow> bytes \<Rightarrow> bytes" where
  "sha256 C data = lib_sha256 C data"

text \<open>\<^verbatim>\<open>Hash::to_hex\<close>, \<^verbatim>\<open>Hash::to_hex_prefixed\<close> and the two \<^verbatim>\<open>sha256_hex\<close> helpers.\<close>

definition hash_to_hex :: "crypto_lib \<Rightarrow> bytes \<Rightarrow> string" where
  "hash_to_hex C h = lib_hex_encode C h"

definition hash_to_hex_prefixed :: "crypto_lib \<Rightarrow> bytes \<Rightarrow> string" where
  "hash_to_hex_prefixed C h = ''0x'' @ hash_to_hex C h"

definition sha256_hex :: "crypto_lib \<Rightarrow> bytes \<Rightarrow> string" where
  "sha256_hex C data = hash_to_hex C (sha256 C data)"

definition sha256_hex_prefixed :: "crypto_lib \<Rightarrow> bytes \<Rightarrow> string" where
  "sha256_hex_prefixed C data = hash_to_hex_prefixed C (sha256 C data)"

definition canonical_json_bytes :: "crypto_lib \<Rightarrow> json \<Rightarrow> crypto_error + bytes" where
  "canonical_json_bytes C v = canonicalize C v"

definition strip_0x :: "string \<Rightarrow> string" where
  "strip_0x s = (if starts_with s ''0x'' then drop 2 s else s)"

definition public_key_from_hex :: "crypto_lib \<Rightarrow> string \<Rightarrow> crypto_error + bytes" where
  "public_key_from_hex C hex_str =
     (case lib_hex_decode C (strip_0x hex_str) of
        Inl err \<Rightarrow> Inl (InvalidHex err)
      | Inr bs \<Rightarrow>
          if length bs \<noteq> 32 then
            Inl (InvalidPublicKey (''expected 32 bytes, got '' @ dec_nat (length bs)))
          else case lib_key_error C bs of
                 Some err \<Rightarrow> Inl (InvalidPublicKey err)
               | None \<Rightarrow> Inr bs)"

definition signature_from_hex :: "crypto_lib \<Rightarrow> string \<Rightarrow> crypto_error + bytes" where
  "signature_from_hex C hex_str =
     (case lib_hex_decode C (strip_0x hex_str) of
        Inl err \<Rightarrow> Inl (InvalidHex err)
      | Inr bs \<Rightarrow> if length bs \<noteq> 64 then Inl InvalidSignature else Inr bs)"

record detached_signature =
  ds_algorithm :: string
  ds_key_id :: string
  ds_public_key_hex :: string
  ds_signature_hex :: string

definition verify_detached_signature ::
  "crypto_lib \<Rightarrow> bytes \<Rightarrow> detached_signature \<Rightarrow> crypto_error + unit" where
  "verify_detached_signature C payload sig =
     (if ds_algorithm sig \<noteq> ''ed25519'' then
        Inl (InvalidHex (''unsupported signature algorithm `'' @ ds_algorithm sig @ ''`''))
      else case public_key_from_hex C (ds_public_key_hex sig) of
        Inl e \<Rightarrow> Inl e
      | Inr public_key \<Rightarrow>
          if hash_to_hex C (sha256 C public_key) \<noteq> ds_key_id sig then Inl InvalidSignature
          else case signature_from_hex C (ds_signature_hex sig) of
            Inl e \<Rightarrow> Inl e
          | Inr raw \<Rightarrow> if lib_verify C public_key payload raw then Inr () else Inl InvalidSignature)"

text \<open>\<^verbatim>\<open>detached_signature\<close> of \<^verbatim>\<open>crates/swarm-consensus/src/lib.rs\<close>.\<close>

definition make_detached_signature :: "crypto_lib \<Rightarrow> bytes \<Rightarrow> bytes \<Rightarrow> detached_signature" where
  "make_detached_signature C signing_key payload =
     (let verifying_key = lib_verifying_key C signing_key in
      \<lparr>ds_algorithm = ''ed25519'',
       ds_key_id = hash_to_hex C (sha256 C verifying_key),
       ds_public_key_hex = lib_hex_encode C verifying_key,
       ds_signature_hex = lib_hex_encode C (lib_sign C signing_key payload)\<rparr>)"

definition from_verifying_key :: "crypto_lib \<Rightarrow> bytes \<Rightarrow> agent_id" where
  "from_verifying_key C key = from_public_key_hex (lib_hex_encode C key)"

definition detached_signature_json :: "detached_signature \<Rightarrow> json" where
  "detached_signature_json s =
     JObject [(''algorithm'', JString (ds_algorithm s)), (''key_id'', JString (ds_key_id s)),
              (''public_key_hex'', JString (ds_public_key_hex s)),
              (''signature_hex'', JString (ds_signature_hex s))]"

section \<open>What a signature by the local key satisfies\<close>

lemma strip_0x_hex: "crypto_laws C \<Longrightarrow> strip_0x (lib_hex_encode C b) = lib_hex_encode C b"
proof -
  assume laws: "crypto_laws C"
  have "\<not> starts_with (lib_hex_encode C b) ''0x''"
  proof
    assume "starts_with (lib_hex_encode C b) ''0x''"
    then have "CHR ''x'' \<in> set (take 2 (lib_hex_encode C b))"
      by (simp add: starts_with_def numeral_2_eq_2)
    then have "CHR ''x'' \<in> set (lib_hex_encode C b)" by (meson in_set_takeD)
    with laws have "CHR ''x'' \<in> set ''0123456789abcdef''" unfolding crypto_laws_def by blast
    then show False by simp
  qed
  then show ?thesis by (simp add: strip_0x_def)
qed

lemma public_key_from_hex_own:
  assumes "crypto_laws C"
  shows "public_key_from_hex C (lib_hex_encode C (lib_verifying_key C sk)) =
           Inr (lib_verifying_key C sk)"
  using assms strip_0x_hex[OF assms]
  by (simp add: public_key_from_hex_def crypto_laws_def)

lemma verify_own_signature:
  assumes "crypto_laws C"
  shows "verify_detached_signature C payload (make_detached_signature C sk payload) = Inr ()"
  using assms strip_0x_hex[OF assms] public_key_from_hex_own[OF assms]
  by (simp add: verify_detached_signature_def make_detached_signature_def signature_from_hex_def
        crypto_laws_def Let_def)

end
