(* ===== verification/Crypto_Instance.thy ===== *)
theory Crypto_Instance
  imports Crypto
begin

text \<open>
  A concrete instance of the third-party cryptography the development is parametric in.
  The hex codec is the real one; the hash, the signature and the float printer are small
  stand-ins with the lengths of SHA-256 and Ed25519. The instance shows that the laws the
  theorems assume hold together, and serves the concrete runs.
\<close>

definition pad :: "nat \<Rightarrow> bytes \<Rightarrow> bytes" where
  "pad n b = take n (b @ replicate n (CHR 0x00))"

lemma length_pad [simp]: "length (pad n b) = n"
  by (simp add: pad_def)

definition nibbles :: string where
  "nibbles = ''0123456789abcdef''"

fun nibble_value :: "nat \<Rightarrow> string \<Rightarrow> char \<Rightarrow> nat option" where
  "nibble_value i [] c = None"
| "nibble_value i (d # ds) c = (if c = d then Some i else nibble_value (Suc i) ds c)"

definition hex_encode :: "bytes \<Rightarrow> string" where
  "hex_encode b = concat (map (\<lambda>c. [nibbles ! (of_char c div 16), nibbles ! (of_char c mod 16)]) b)"

fun hex_decode :: "string \<Rightarrow> string + bytes" where
  "hex_decode [] = Inr []"
| "hex_decode [c] = Inl ''Odd number of digits''"
| "hex_decode (a # b # s) =
     (case (nibble_value 0 nibbles a, nibble_value 0 nibbles b) of
        (Some x, Some y) \<Rightarrow>
          (case hex_decode s of Inl e \<Rightarrow> Inl e | Inr bs \<Rightarrow> Inr (char_of (16 * x + y) # bs))
      | _ \<Rightarrow> Inl ''Invalid character'')"

lemma nibble_value_nth:
  "distinct ds \<Longrightarrow> k < length ds \<Longrightarrow> nibble_value i ds (ds ! k) = Some (i + k)"
proof (induction ds arbitrary: i k)
  case (Cons d ds)
  then show ?case by (cases k) auto
qed simp

lemma nibble_value_nibbles: "k < 16 \<Longrightarrow> nibble_value 0 nibbles (nibbles ! k) = Some k"
  using nibble_value_nth[of nibbles k 0] by (simp add: nibbles_def)

lemma of_char_bound: "(of_char c :: nat) < 256"
  by (metis nat_of_char_less_256)

lemma nibbles_of_char: "(of_char c :: nat) div 16 < 16" "(of_char c :: nat) mod 16 < 16"
  using of_char_bound[of c] by (auto simp: less_mult_imp_div_less)

lemma hex_decode_encode: "hex_decode (hex_encode b) = Inr b"
proof (induction b)
  case Nil
  then show ?case by (simp add: hex_encode_def)
next
  case (Cons c b)
  with nibbles_of_char[of c] show ?case by (simp add: hex_encode_def nibble_value_nibbles)
qed

lemma set_hex_encode: "set (hex_encode b) \<subseteq> set ''0123456789abcdef''"
proof -
  have "nibbles ! k \<in> set nibbles" if "k < 16" for k
    using that nth_mem[of k nibbles] by (simp add: nibbles_def)
  then have "set (hex_encode b) \<subseteq> set nibbles" by (auto simp: hex_encode_def nibbles_of_char)
  then show ?thesis by (simp add: nibbles_def)
qed

definition model_crypto :: crypto_lib where
  "model_crypto =
     \<lparr>lib_sha256 = pad 32,
      lib_verifying_key = pad 32,
      lib_key_error = (\<lambda>_. None),
      lib_sign = (\<lambda>sk m. pad 64 (pad 32 sk)),
      lib_verify = (\<lambda>pk m s. take 32 s = pk),
      lib_hex_encode = hex_encode,
      lib_hex_decode = hex_decode,
      lib_ryu = (\<lambda>_. ''0'')\<rparr>"

lemma model_crypto_laws: "crypto_laws model_crypto"
proof -
  have "take 32 (pad 64 (pad 32 sk)) = pad 32 sk" for sk
    by (simp add: pad_def)
  then show ?thesis
    using hex_decode_encode set_hex_encode
    by (simp add: crypto_laws_def model_crypto_def)
qed

end
