(* ===== verification/Merkle.thy ===== *)
theory Merkle
  imports Crypto_Instance
begin

text \<open>
  The Merkle tree of \<^verbatim>\<open>crates/swarm-crypto/src/merkle.rs\<close>: leaf and node hashes with their
  domain prefixes, the level-by-level construction, inclusion proofs and their
  verification. The lemmas show that the level-wise root is the recursive tree hash of
  RFC 6962, that every proof the tree hands out verifies, and that a proof that verifies
  against the root of a tree of the same size is for the leaf at its index, unless two of
  the finitely many inputs hashed by the tree and by the verification collide.
\<close>

definition leaf_hash :: "crypto_lib \<Rightarrow> bytes \<Rightarrow> bytes" where
  "leaf_hash C leaf_bytes = lib_sha256 C (CHR 0x00 # leaf_bytes)"

definition node_hash :: "crypto_lib \<Rightarrow> bytes \<Rightarrow> bytes \<Rightarrow> bytes" where
  "node_hash C left right = lib_sha256 C (CHR 0x01 # left @ right)"

text \<open>One pass of the inner loop: neighbours are hashed, an odd last entry is promoted.\<close>

fun next_level :: "crypto_lib \<Rightarrow> bytes list \<Rightarrow> bytes list" where
  "next_level C [] = []"
| "next_level C [h] = [h]"
| "next_level C (l # r # hs) = node_hash C l r # next_level C hs"

lemma length_next_level [simp]: "length (next_level C hs) = (length hs + 1) div 2"
  by (induction C hs rule: next_level.induct) auto

function build_levels :: "crypto_lib \<Rightarrow> bytes list \<Rightarrow> bytes list list" where
  "build_levels C current =
     (if length current \<le> 1 then [current]
      else current # build_levels C (next_level C current))"
  by pat_completeness auto
termination by (relation "measure (\<lambda>(C, hs). length hs)") auto

declare build_levels.simps [simp del]

record merkle_tree =
  mt_levels :: "bytes list list"

definition from_hashes :: "crypto_lib \<Rightarrow> bytes list \<Rightarrow> crypto_error + merkle_tree" where
  "from_hashes C leaf_hashes =
     (if leaf_hashes = [] then Inl EmptyTree
      else Inr \<lparr>mt_levels = build_levels C leaf_hashes\<rparr>)"

definition from_leaves :: "crypto_lib \<Rightarrow> bytes list \<Rightarrow> crypto_error + merkle_tree" where
  "from_leaves C leaves =
     (if leaves = [] then Inl EmptyTree
      else Inr \<lparr>mt_levels = build_levels C (map (leaf_hash C) leaves)\<rparr>)"

definition leaf_count :: "merkle_tree \<Rightarrow> usize" where
  "leaf_count tree = (case mt_levels tree of [] \<Rightarrow> 0 | level # _ \<Rightarrow> length level)"

definition hash_zero :: bytes where
  "hash_zero = replicate 32 (CHR 0x00)"

definition merkle_root :: "merkle_tree \<Rightarrow> bytes" where
  "merkle_root tree =
     (case rev (mt_levels tree) of
        [] \<Rightarrow> hash_zero
      | level # _ \<Rightarrow> (case level of [] \<Rightarrow> hash_zero | h # _ \<Rightarrow> h))"

record merkle_proof =
  mp_tree_size :: usize
  mp_leaf_index :: usize
  mp_audit_path :: "bytes list"

fun audit_path :: "bytes list list \<Rightarrow> usize \<Rightarrow> bytes list" where
  "audit_path [] index = []"
| "audit_path (level # levels) index =
     (if length level \<le> 1 then []
      else (if index mod 2 = 0
            then (if index + 1 < length level then [level ! (index + 1)] else [])
            else [level ! (index - 1)])
           @ audit_path levels (index div 2))"

definition inclusion_proof :: "merkle_tree \<Rightarrow> usize \<Rightarrow> crypto_error + merkle_proof" where
  "inclusion_proof tree leaf_index =
     (if leaf_count tree \<le> leaf_index then Inl (InvalidProofIndex leaf_index (leaf_count tree))
      else Inr \<lparr>mp_tree_size = leaf_count tree, mp_leaf_index = leaf_index,
                mp_audit_path = audit_path (mt_levels tree) leaf_index\<rparr>)"

text \<open>The verification loop; the remaining path plays the role of \<^verbatim>\<open>path_index\<close>.\<close>

function root_loop ::
  "crypto_lib \<Rightarrow> bytes \<Rightarrow> usize \<Rightarrow> usize \<Rightarrow> bytes list \<Rightarrow> crypto_error + bytes" where
  "root_loop C hash index n path =
     (if n \<le> 1 then (if path = [] then Inr hash else Inl MerkleProofFailed)
      else if index mod 2 = 0 then
        (if index + 1 < n then
           (case path of [] \<Rightarrow> Inl MerkleProofFailed
            | sibling # rest \<Rightarrow>
                root_loop C (node_hash C hash sibling) (index div 2) ((n + 1) div 2) rest)
         else root_loop C hash (index div 2) ((n + 1) div 2) path)
      else
        (case path of [] \<Rightarrow> Inl MerkleProofFailed
         | sibling # rest \<Rightarrow>
             root_loop C (node_hash C sibling hash) (index div 2) ((n + 1) div 2) rest))"
  by pat_completeness auto
termination by (relation "measure (\<lambda>(C, hash, index, n, path). n)") auto

declare root_loop.simps [simp del]

definition compute_root_from_hash ::
  "crypto_lib \<Rightarrow> merkle_proof \<Rightarrow> bytes \<Rightarrow> crypto_error + bytes" where
  "compute_root_from_hash C proof hash =
     (if mp_tree_size proof = 0 \<or> mp_tree_size proof \<le> mp_leaf_index proof then Inl MerkleProofFailed
      else root_loop C hash (mp_leaf_index proof) (mp_tree_size proof) (mp_audit_path proof))"

definition compute_root :: "crypto_lib \<Rightarrow> merkle_proof \<Rightarrow> bytes \<Rightarrow> crypto_error + bytes" where
  "compute_root C proof leaf_bytes = compute_root_from_hash C proof (leaf_hash C leaf_bytes)"

definition proof_verify :: "crypto_lib \<Rightarrow> merkle_proof \<Rightarrow> bytes \<Rightarrow> bytes \<Rightarrow> bool" where
  "proof_verify C proof leaf_bytes expected_root \<longleftrightarrow>
     compute_root C proof leaf_bytes = Inr expected_root"

definition proof_verify_hash :: "crypto_lib \<Rightarrow> merkle_proof \<Rightarrow> bytes \<Rightarrow> bytes \<Rightarrow> bool" where
  "proof_verify_hash C proof hash expected_root \<longleftrightarrow>
     compute_root_from_hash C proof hash = Inr expected_root"

section \<open>Levels\<close>

definition level_root :: "crypto_lib \<Rightarrow> bytes list \<Rightarrow> bytes" where
  "level_root C hs = merkle_root \<lparr>mt_levels = build_levels C hs\<rparr>"

lemma build_levels_nonempty [simp]: "build_levels C hs \<noteq> []"
  by (subst build_levels.simps) simp

lemma level_root_single [simp]: "level_root C [h] = h"
  by (simp add: level_root_def merkle_root_def build_levels.simps)

lemma level_root_next:
  "2 \<le> length hs \<Longrightarrow> level_root C hs = level_root C (next_level C hs)"
  unfolding level_root_def merkle_root_def
  by (subst build_levels.simps) (auto split: list.splits)

lemma next_level_nth:
  assumes "j < (length hs + 1) div 2"
  shows "next_level C hs ! j =
    (if 2 * j + 1 < length hs then node_hash C (hs ! (2 * j)) (hs ! (2 * j + 1)) else hs ! (2 * j))"
  using assms
proof (induction C hs arbitrary: j rule: next_level.induct)
  case (3 C l r hs)
  then show ?case by (cases j) auto
qed auto

text \<open>The parent of position \<open>i\<close>, by the three cases of the loops.\<close>

lemma next_level_parent:
  assumes "i < length hs"
  shows "next_level C hs ! (i div 2) =
    (if i mod 2 = 0
     then (if i + 1 < length hs then node_hash C (hs ! i) (hs ! (i + 1)) else hs ! i)
     else node_hash C (hs ! (i - 1)) (hs ! i))"
proof -
  have "i div 2 < (length hs + 1) div 2" using assms by presburger
  moreover have "2 * (i div 2) = (if i mod 2 = 0 then i else i - 1)" by presburger
  moreover have "i mod 2 \<noteq> 0 \<Longrightarrow> i - 1 + 1 = i" by presburger
  ultimately show ?thesis using assms by (auto simp: next_level_nth)
qed

lemma root_loop_audit_path:
  "i < length hs \<Longrightarrow>
   root_loop C (hs ! i) i (length hs) (audit_path (build_levels C hs) i) = Inr (level_root C hs)"
proof (induction "length hs" arbitrary: hs i rule: less_induct)
  case less
  show ?case
  proof (cases "length hs \<le> 1")
    case True
    with less.prems obtain h where "hs = [h]" by (cases hs) auto
    with less.prems show ?thesis by (simp add: build_levels.simps root_loop.simps)
  next
    case False
    let ?up = "next_level C hs"
    have "i div 2 < length ?up" using less.prems by simp
    with less.hyps[of ?up "i div 2"] False
    have IH: "root_loop C (?up ! (i div 2)) (i div 2) ((length hs + 1) div 2)
        (audit_path (build_levels C ?up) (i div 2)) = Inr (level_root C hs)"
      using level_root_next[of hs C] by simp
    have "build_levels C hs = hs # build_levels C ?up"
      using False by (subst build_levels.simps) simp
    with IH[unfolded next_level_parent[OF less.prems]] False less.prems show ?thesis
      by (subst root_loop.simps) (auto split: if_splits)
  qed
qed

section \<open>Soundness up to a collision\<close>

text \<open>
  The inputs that are hashed when a tree is built and when a proof is checked. Soundness is
  relative to SHA-256 being injective on this finite set.
\<close>

definition pair_inputs :: "bytes list \<Rightarrow> bytes set" where
  "pair_inputs level =
     (\<lambda>j. CHR 0x01 # level ! (2 * j) @ level ! (2 * j + 1)) ` {j. 2 * j + 1 < length level}"

definition tree_inputs :: "crypto_lib \<Rightarrow> bytes list \<Rightarrow> bytes set" where
  "tree_inputs C leaves =
     Cons (CHR 0x00) ` set leaves \<union>
     \<Union> (pair_inputs ` set (build_levels C (map (leaf_hash C) leaves)))"

function loop_inputs ::
  "crypto_lib \<Rightarrow> bytes \<Rightarrow> usize \<Rightarrow> usize \<Rightarrow> bytes list \<Rightarrow> bytes set" where
  "loop_inputs C hash index n path =
     (if n \<le> 1 then {}
      else if index mod 2 = 0 then
        (if index + 1 < n then
           (case path of [] \<Rightarrow> {}
            | sibling # rest \<Rightarrow> insert (CHR 0x01 # hash @ sibling)
                (loop_inputs C (node_hash C hash sibling) (index div 2) ((n + 1) div 2) rest))
         else loop_inputs C hash (index div 2) ((n + 1) div 2) path)
      else
        (case path of [] \<Rightarrow> {}
         | sibling # rest \<Rightarrow> insert (CHR 0x01 # sibling @ hash)
             (loop_inputs C (node_hash C sibling hash) (index div 2) ((n + 1) div 2) rest)))"
  by pat_completeness auto
termination by (relation "measure (\<lambda>(C, hash, index, n, path). n)") auto

declare loop_inputs.simps [simp del]

definition proof_inputs :: "crypto_lib \<Rightarrow> merkle_proof \<Rightarrow> bytes \<Rightarrow> bytes set" where
  "proof_inputs C proof leaf =
     insert (CHR 0x00 # leaf)
       (loop_inputs C (leaf_hash C leaf) (mp_leaf_index proof) (mp_tree_size proof) (mp_audit_path proof))"

lemma node_hash_inj:
  assumes "inj_on (lib_sha256 C) S" "CHR 0x01 # l @ r \<in> S" "CHR 0x01 # l' @ r' \<in> S"
    and "node_hash C l r = node_hash C l' r'" "length l = 32" "length l' = 32"
  shows "l = l' \<and> r = r'"
  using inj_onD[OF assms(1) assms(4)[unfolded node_hash_def] assms(2,3)] assms(5,6) by simp

lemma hash_lengths:
  "crypto_laws C \<Longrightarrow> length (node_hash C l r) = 32" "crypto_laws C \<Longrightarrow> length (leaf_hash C b) = 32"
  by (simp_all add: node_hash_def leaf_hash_def length_sha256)

lemma next_level_hashes:
  "crypto_laws C \<Longrightarrow> \<forall>h\<in>set hs. length h = 32 \<Longrightarrow> \<forall>h\<in>set (next_level C hs). length h = 32"
  by (induction C hs rule: next_level.induct) (simp_all add: hash_lengths)

lemma pair_inputs_left:
  "i mod 2 = 0 \<Longrightarrow> i + 1 < length hs \<Longrightarrow> CHR 0x01 # hs ! i @ hs ! (i + 1) \<in> pair_inputs hs"
  unfolding pair_inputs_def by (rule image_eqI[of _ _ "i div 2"]) auto

lemma pair_inputs_right:
  assumes "i mod 2 \<noteq> 0" "i < length hs"
  shows "CHR 0x01 # hs ! (i - 1) @ hs ! i \<in> pair_inputs hs"
proof -
  have "2 * (i div 2) = i - 1" "i - 1 + 1 = i" using assms(1) by presburger+
  with assms(2) show ?thesis
    unfolding pair_inputs_def by (intro image_eqI[of _ _ "i div 2"]) auto
qed

lemma root_loop_sound:
  assumes laws: "crypto_laws C" and inj: "inj_on (lib_sha256 C) S"
    and "\<Union> (pair_inputs ` set (build_levels C hs)) \<subseteq> S" "loop_inputs C hash i (length hs) path \<subseteq> S"
    and "i < length hs" "\<forall>h\<in>set hs. length h = 32" "\<forall>h\<in>set path. length h = 32" "length hash = 32"
    and "root_loop C hash i (length hs) path = Inr (level_root C hs)"
  shows "hash = hs ! i"
  using assms(3-)
proof (induction "length hs" arbitrary: hs i path hash rule: less_induct)
  case less
  show ?case
  proof (cases "length hs \<le> 1")
    case True
    with less.prems(3) obtain h where "hs = [h]" by (cases hs) auto
    with less.prems show ?thesis by (simp add: root_loop.simps split: if_splits)
  next
    case False
    let ?up = "next_level C hs"
    have levels: "build_levels C hs = hs # build_levels C ?up"
      using False by (subst build_levels.simps) simp
    have up: "i div 2 < length ?up" "length ?up < length hs" using less.prems(3) False by auto
    have IH: "parent = ?up ! (i div 2)"
      if "root_loop C parent (i div 2) ((length hs + 1) div 2) rest = Inr (level_root C hs)"
        "loop_inputs C parent (i div 2) ((length hs + 1) div 2) rest \<subseteq> S"
        "length parent = 32" "\<forall>h\<in>set rest. length h = 32" for parent rest
      using less.hyps[of ?up parent "i div 2" rest] that up next_level_hashes[OF laws less.prems(4)]
        level_root_next[of hs C] False less.prems(1) levels by simp
    note parent = next_level_parent[OF less.prems(3), of C]
    have in_hs: "length (hs ! j) = 32" if "j < length hs" for j using less.prems(4) that by simp
    have pairs: "pair_inputs hs \<subseteq> S" using less.prems(1) levels by auto
    note loop = less.prems(7)[unfolded root_loop.simps[of C hash i "length hs" path]]
    note ins = less.prems(2)[unfolded loop_inputs.simps[of C hash i "length hs" path]]
    consider (left) s rest where "i mod 2 = 0" "i + 1 < length hs" "path = s # rest"
        "root_loop C (node_hash C hash s) (i div 2) ((length hs + 1) div 2) rest = Inr (level_root C hs)"
      | (promoted) "i mod 2 = 0" "\<not> i + 1 < length hs"
        "root_loop C hash (i div 2) ((length hs + 1) div 2) path = Inr (level_root C hs)"
      | (right) s rest where "i mod 2 \<noteq> 0" "path = s # rest"
        "root_loop C (node_hash C s hash) (i div 2) ((length hs + 1) div 2) rest = Inr (level_root C hs)"
      using loop False by (auto split: if_splits list.splits)
    then show ?thesis
    proof cases
      case left
      from left ins False have "CHR 0x01 # hash @ s \<in> S"
        "loop_inputs C (node_hash C hash s) (i div 2) ((length hs + 1) div 2) rest \<subseteq> S" by auto
      moreover have "CHR 0x01 # hs ! i @ hs ! (i + 1) \<in> S"
        using pair_inputs_left[OF left(1,2)] pairs by (rule rev_subsetD)
      ultimately show ?thesis
        using IH[OF left(4)] left less.prems(5) parent hash_lengths[OF laws] less.prems(6)
          in_hs[OF less.prems(3)] node_hash_inj[OF inj, of hash s "hs ! i" "hs ! (i + 1)"]
        by simp
    next
      case promoted
      with ins False IH[OF promoted(3)] less.prems(5,6) parent show ?thesis by simp
    next
      case right
      from right ins False have "CHR 0x01 # s @ hash \<in> S"
        "loop_inputs C (node_hash C s hash) (i div 2) ((length hs + 1) div 2) rest \<subseteq> S" by auto
      moreover have "CHR 0x01 # hs ! (i - 1) @ hs ! i \<in> S"
        using pair_inputs_right[OF right(1) less.prems(3)] pairs by (rule rev_subsetD)
      ultimately show ?thesis
        using IH[OF right(3)] right less.prems(3,5) parent hash_lengths[OF laws]
          in_hs[of "i - 1"] node_hash_inj[OF inj, of s hash "hs ! (i - 1)" "hs ! i"]
        by simp
    qed
  qed
qed

section \<open>The recursive tree hash\<close>

text \<open>
  RFC 6962: the tree hash of \<open>n > 1\<close> entries splits at the largest power of two below
  \<open>n\<close>. The reference is the one the unit tests compare against.
\<close>

function power_below :: "nat \<Rightarrow> nat \<Rightarrow> nat" where
  "power_below p n = (if 0 < p \<and> 2 * p < n then power_below (2 * p) n else p)"
  by pat_completeness auto
termination by (relation "measure (\<lambda>(p, n). n - p)") auto

declare power_below.simps [simp del]

definition split_point :: "nat \<Rightarrow> nat" where
  "split_point n = power_below 1 n"

lemma power_below_bound: "0 < p \<Longrightarrow> p < n \<Longrightarrow> p \<le> power_below p n \<and> power_below p n < n"
proof (induction p n rule: power_below.induct)
  case (1 p n)
  then show ?case by (subst (1 2) power_below.simps) auto
qed

lemma split_point_bound: "2 \<le> n \<Longrightarrow> 1 \<le> split_point n \<and> split_point n < n"
  unfolding split_point_def using power_below_bound[of 1 n] by simp

function tree_hash_recursive :: "crypto_lib \<Rightarrow> bytes list \<Rightarrow> bytes" where
  "tree_hash_recursive C level0 =
     (if length level0 = 0 then hash_zero
      else if length level0 = 1 then hd level0
      else node_hash C (tree_hash_recursive C (take (split_point (length level0)) level0))
                       (tree_hash_recursive C (drop (split_point (length level0)) level0)))"
  by pat_completeness auto
termination
proof (relation "measure (\<lambda>(C, hs). length hs)")
  fix C :: crypto_lib and hs :: "bytes list"
  assume "length hs \<noteq> 0" "length hs \<noteq> 1"
  then have "2 \<le> length hs" by linarith
  from split_point_bound[OF this]
  show "((C, take (split_point (length hs)) hs), C, hs) \<in> measure (\<lambda>(C, hs). length hs)"
    "((C, drop (split_point (length hs)) hs), C, hs) \<in> measure (\<lambda>(C, hs). length hs)" by auto
qed simp

declare tree_hash_recursive.simps [simp del]

lemma power_below_double:
  "0 < p \<Longrightarrow> power_below (2 * p) n = 2 * power_below p ((n + 1) div 2)"
proof (induction p "(n + 1) div 2" rule: power_below.induct)
  case (1 p)
  have iff: "2 * (2 * p) < n \<longleftrightarrow> 2 * p < (n + 1) div 2" by presburger
  show ?case
  proof (cases "2 * p < (n + 1) div 2")
    case True
    with 1 iff show ?thesis
      by (subst (1 2) power_below.simps) (simp add: mult.assoc)
  next
    case False
    with iff 1(2) show ?thesis by (subst (1 2) power_below.simps) simp
  qed
qed

lemma split_point_half: "3 \<le> n \<Longrightarrow> split_point n = 2 * split_point ((n + 1) div 2)"
  unfolding split_point_def using power_below_double[of 1 n]
  by (subst power_below.simps) simp

lemma next_level_append:
  "even (length xs) \<Longrightarrow> next_level C (xs @ ys) = next_level C xs @ next_level C ys"
  by (induction C xs rule: next_level.induct) auto

lemma next_level_take_drop:
  assumes "k \<le> length hs" "even k"
  shows "next_level C (take k hs) = take (k div 2) (next_level C hs)"
    "next_level C (drop k hs) = drop (k div 2) (next_level C hs)"
proof -
  have "next_level C hs = next_level C (take k hs) @ next_level C (drop k hs)"
    using assms next_level_append[of "take k hs" C "drop k hs"] by simp
  moreover have "length (next_level C (take k hs)) = k div 2" using assms by auto
  ultimately show "next_level C (take k hs) = take (k div 2) (next_level C hs)"
    "next_level C (drop k hs) = drop (k div 2) (next_level C hs)" by simp_all
qed

lemma tree_hash_next_level:
  "hs \<noteq> [] \<Longrightarrow> tree_hash_recursive C (next_level C hs) = tree_hash_recursive C hs"
proof (induction "length hs" arbitrary: hs rule: less_induct)
  case less
  let ?n = "length hs"
  consider (one) "?n = 1" | (two) "?n = 2" | (more) "3 \<le> ?n"
    using less.prems by (cases "?n"; cases "?n - 1"; cases "?n - 2") auto
  then show ?case
  proof cases
    case one
    then obtain h where "hs = [h]" by (cases hs) auto
    then show ?thesis by simp
  next
    case two
    then obtain a b where "hs = [a, b]" by (cases hs; cases "tl hs") auto
    then show ?thesis
      by (simp add: tree_hash_recursive.simps split_point_def power_below.simps)
  next
    case more
    define k where "k = split_point ((?n + 1) div 2)"
    have k: "split_point ?n = 2 * k" using split_point_half[OF more] by (simp add: k_def)
    from more split_point_bound[of ?n] k have bound: "1 \<le> k" "2 * k < ?n" by auto
    have IH: "tree_hash_recursive C (next_level C (take (2 * k) hs)) = tree_hash_recursive C (take (2 * k) hs)"
      "tree_hash_recursive C (next_level C (drop (2 * k) hs)) = tree_hash_recursive C (drop (2 * k) hs)"
      using less.hyps[of "take (2 * k) hs"] less.hyps[of "drop (2 * k) hs"] bound less.prems by simp_all
    have "2 \<le> length (next_level C hs)" using more by simp
    then have "tree_hash_recursive C (next_level C hs) =
        node_hash C (tree_hash_recursive C (take k (next_level C hs)))
                    (tree_hash_recursive C (drop k (next_level C hs)))"
      by (subst tree_hash_recursive.simps) (simp add: k_def)
    also have "\<dots> = tree_hash_recursive C hs"
      using next_level_take_drop[of "2 * k" hs C] IH bound more k less.prems
      by (subst (3) tree_hash_recursive.simps) simp
    finally show ?thesis .
  qed
qed

lemma level_root_recursive: "hs \<noteq> [] \<Longrightarrow> level_root C hs = tree_hash_recursive C hs"
proof (induction "length hs" arbitrary: hs rule: less_induct)
  case less
  show ?case
  proof (cases "length hs = 1")
    case True
    then obtain h where "hs = [h]" by (cases hs) auto
    then show ?thesis by (simp add: tree_hash_recursive.simps)
  next
    case False
    with less.prems have two: "2 \<le> length hs" by (cases hs; cases "tl hs") auto
    then have "next_level C hs \<noteq> []" "length (next_level C hs) < length hs"
      using length_next_level[of C hs] by (auto simp del: length_next_level dest: arg_cong[where f = length])
    with less.hyps[of "next_level C hs"] two level_root_next[OF two, of C] tree_hash_next_level[OF less.prems, of C]
    show ?thesis by simp
  qed
qed

section \<open>Properties\<close>

lemma leaf_count_levels: "leaf_count \<lparr>mt_levels = build_levels C hs\<rparr> = length hs"
  unfolding leaf_count_def by (subst build_levels.simps) simp

lemma from_leaves_fields:
  assumes "from_leaves C leaves = Inr tree"
  shows "leaves \<noteq> []" "leaf_count tree = length leaves" "mt_levels tree = build_levels C (map (leaf_hash C) leaves)"
    "merkle_root tree = level_root C (map (leaf_hash C) leaves)"
  using assms by (auto simp: from_leaves_def leaf_count_levels level_root_def split: if_splits)

text \<open>
  C34. The level-by-level construction computes the tree hash of RFC 6962: the root of a tree
  over any non-empty list of leaves is the recursive hash that splits at the largest power
  of two below the size.
\<close>

theorem merkle_root_rfc6962:
  "case from_leaves C leaves of
     Inl e \<Rightarrow> leaves = [] \<and> e = EmptyTree
   | Inr tree \<Rightarrow> leaves \<noteq> [] \<and> merkle_root tree = tree_hash_recursive C (map (leaf_hash C) leaves)"
  by (auto simp: from_leaves_def level_root_recursive[symmetric] level_root_def)

text \<open>
  C35. Completeness of inclusion proofs: for every index inside the tree the tree hands out a
  proof, the proof is for that index and size, and it verifies for the leaf at that index
  against the tree's root; outside the tree the index is refused.
\<close>

theorem inclusion_proof_verifies:
  assumes "from_leaves C leaves = Inr tree"
  shows "case inclusion_proof tree i of
           Inl e \<Rightarrow> length leaves \<le> i \<and> e = InvalidProofIndex i (length leaves)
         | Inr proof \<Rightarrow> i < length leaves \<and> mp_leaf_index proof = i \<and>
             mp_tree_size proof = length leaves \<and>
             proof_verify C proof (leaves ! i) (merkle_root tree)"
proof (cases "i < length leaves")
  case True
  note tree = from_leaves_fields[OF assms]
  from root_loop_audit_path[of i "map (leaf_hash C) leaves" C] True tree show ?thesis
    by (auto simp: inclusion_proof_def proof_verify_def compute_root_def compute_root_from_hash_def)
next
  case False
  with from_leaves_fields[OF assms] show ?thesis by (simp add: inclusion_proof_def)
qed

theorem inclusion_proof_verifies_witness:
  "\<exists>tree proof. from_leaves model_crypto [''x'', ''y'', ''z''] = Inr tree \<and>
     inclusion_proof tree 2 = Inr proof \<and>
     proof_verify model_crypto proof ''z'' (merkle_root tree)"
proof -
  obtain tree where tree: "from_leaves model_crypto [''x'', ''y'', ''z''] = Inr tree"
    by (simp add: from_leaves_def)
  have "\<exists>proof. inclusion_proof tree 2 = Inr proof"
    using from_leaves_fields[OF tree] by (simp add: inclusion_proof_def)
  then obtain pr where pr: "inclusion_proof tree 2 = Inr pr" by blast
  from inclusion_proof_verifies[OF tree, of 2] pr tree show ?thesis by auto
qed

text \<open>
  C20. Soundness of inclusion proofs for the tree's own size: a proof of 32-byte hashes that claims the
  tree's size (\<open>claimed_size_unchecked\<close> is what happens otherwise) and verifies against its root is for the leaf at the claimed index, provided SHA-256 does
  not collide on the inputs hashed by this tree and this verification.
\<close>

theorem inclusion_proof_sound:
  assumes "crypto_laws C" and "from_leaves C leaves = Inr tree"
    and "mp_tree_size proof = length leaves" and "\<forall>h\<in>set (mp_audit_path proof). length h = 32"
    and "proof_verify C proof leaf (merkle_root tree)"
    and "inj_on (lib_sha256 C) (tree_inputs C leaves \<union> proof_inputs C proof leaf)"
  shows "mp_leaf_index proof < length leaves \<and> leaf = leaves ! mp_leaf_index proof"
proof -
  let ?hs = "map (leaf_hash C) leaves" and ?i = "mp_leaf_index proof"
  let ?S = "tree_inputs C leaves \<union> proof_inputs C proof leaf"
  note tree = from_leaves_fields[OF assms(2)]
  from assms(5) tree(4) assms(3) have i: "?i < length leaves"
    and loop: "root_loop C (leaf_hash C leaf) ?i (length ?hs) (mp_audit_path proof) = Inr (level_root C ?hs)"
    by (auto simp: proof_verify_def compute_root_def compute_root_from_hash_def split: if_splits)
  have "leaf_hash C leaf = ?hs ! ?i"
    by (rule root_loop_sound[OF assms(1,6) _ _ _ _ assms(4) _ loop])
       (use i assms(3) in \<open>auto simp: hash_lengths[OF assms(1)] tree_inputs_def proof_inputs_def\<close>)
  with i have "lib_sha256 C (CHR 0x00 # leaf) = lib_sha256 C (CHR 0x00 # leaves ! ?i)"
    by (simp add: leaf_hash_def)
  then have "CHR 0x00 # leaf = CHR 0x00 # leaves ! ?i"
    by (rule inj_onD[OF assms(6)]) (use i in \<open>auto simp: tree_inputs_def proof_inputs_def\<close>)
  with i show ?thesis by simp
qed

theorem inclusion_proof_sound_witness:
  "\<exists>tree proof. crypto_laws model_crypto \<and> from_leaves model_crypto [''x'', ''y''] = Inr tree \<and>
     mp_tree_size proof = 2 \<and> mp_audit_path proof = [leaf_hash model_crypto ''y''] \<and>
     proof_verify model_crypto proof ''x'' (merkle_root tree) \<and>
     mp_leaf_index proof < 2 \<and> ''x'' = [''x'', ''y''] ! mp_leaf_index proof"
proof -
  let ?C = model_crypto
  let ?x = "leaf_hash ?C ''x''" and ?y = "leaf_hash ?C ''y''"
  let ?proof = "\<lparr>mp_tree_size = 2, mp_leaf_index = 0, mp_audit_path = [?y]\<rparr>"
  obtain tree where tree: "from_leaves ?C [''x'', ''y''] = Inr tree" by (simp add: from_leaves_def)
  have root: "merkle_root tree = node_hash ?C ?x ?y"
    using from_leaves_fields(4)[OF tree] by (simp add: level_root_next)
  have ok: "proof_verify ?C ?proof ''x'' (merkle_root tree)"
    by (simp add: proof_verify_def compute_root_def compute_root_from_hash_def root root_loop.simps)
  have "tree_inputs ?C [''x'', ''y''] \<union> proof_inputs ?C ?proof ''x'' =
      {CHR 0x00 # ''x'', CHR 0x00 # ''y'', CHR 0x01 # ?x @ ?y}"
    by (auto simp: tree_inputs_def proof_inputs_def build_levels.simps pair_inputs_def loop_inputs.simps)
  moreover have "pad 32 (CHR 0x00 # ''x'') \<noteq> pad 32 (CHR 0x00 # ''y'')"
    by (simp add: pad_def)
  moreover have "pad 32 (CHR 0x00 # b) \<noteq> pad 32 (CHR 0x01 # b')" for b b'
    by (simp add: pad_def)
  ultimately have inj: "inj_on (lib_sha256 ?C) (tree_inputs ?C [''x'', ''y''] \<union> proof_inputs ?C ?proof ''x'')"
    by (simp add: model_crypto_def)
  have "mp_leaf_index ?proof < length [''x'', ''y''] \<and> ''x'' = [''x'', ''y''] ! mp_leaf_index ?proof"
    by (rule inclusion_proof_sound[OF model_crypto_laws tree _ _ ok inj])
       (simp_all add: hash_lengths model_crypto_laws)
  with tree ok model_crypto_laws show ?thesis by (intro exI[of _ tree] exI[of _ ?proof]) auto
qed

text \<open>
  The size is the proof's own and nothing compares it with the tree's: of three leaves the last one verifies at
  index 1 of a tree of two.
\<close>

lemma claimed_size_unchecked:
  "\<exists>tree. from_leaves C [a, b, c] = Inr tree \<and>
     proof_verify C \<lparr>mp_tree_size = 2, mp_leaf_index = 1, mp_audit_path = [node_hash C (leaf_hash C a) (leaf_hash C b)]\<rparr>
       c (merkle_root tree)"
  by (auto simp: from_leaves_def from_hashes_def merkle_root_def proof_verify_def compute_root_def compute_root_from_hash_def
      build_levels.simps root_loop.simps)

end
