(* ===== verification/Committee.thy ===== *)
theory Committee
  imports Crypto
begin

text \<open>
  Committees of \<^verbatim>\<open>crates/swarm-consensus/src/lib.rs\<close>: construction (sorted, deduplicated
  members, threshold \<open>2f + 1\<close>), membership, and proposer selection by the greatest hash
  score. The lemmas show that a constructed committee is well formed, that the selected
  proposer is a member with the greatest score, and how far two quorums overlap.
\<close>

text \<open>\<open>Aborted\<close> stands for the abort of a plain addition or subtraction out of range.\<close>

datatype consensus_error =
    InvalidCommittee string
  | InvalidMessage string
  | Encode string
  | CryptoFailure crypto_error
  | SigningUnavailable agent_id
  | Transport string
  | Aborted

definition recommended_max_faulty :: "usize \<Rightarrow> usize" where
  "recommended_max_faulty committee_size =
     (if committee_size \<le> 1 then 0 else (committee_size - 1) div 3)"

record consensus_committee =
  cc_members :: "agent_id list"
  cc_max_faulty :: usize
  cc_threshold :: usize
  cc_committee_id :: string

definition committee_descriptor_json :: "agent_id list \<Rightarrow> usize \<Rightarrow> json" where
  "committee_descriptor_json members max_faulty =
     JObject [(''members'', JArray (map agent_id_json members)),
              (''max_faulty'', json_nat max_faulty)]"

definition committee_new ::
  "crypto_lib \<Rightarrow> agent_id list \<Rightarrow> usize \<Rightarrow> consensus_error + consensus_committee" where
  "committee_new C members max_faulty =
     (if members = [] then
        Inl (InvalidCommittee ''committee must contain at least one member'')
      else
        let deduped = sort_dedup members in
        case Option.bind (u64_mul max_faulty 2) (\<lambda>value. u64_add value 1) of
          None \<Rightarrow> Inl (InvalidCommittee ''fault tolerance threshold overflowed usize'')
        | Some threshold \<Rightarrow>
            if length deduped < threshold then
              Inl (InvalidCommittee
                (''committee size '' @ dec_nat (length deduped)
                 @ '' cannot satisfy 2f+1 threshold '' @ dec_nat threshold))
            else case canonical_json_bytes C (committee_descriptor_json deduped max_faulty) of
                Inl e \<Rightarrow> Inl (CryptoFailure e)
              | Inr bs \<Rightarrow>
                  Inr \<lparr>cc_members = deduped, cc_max_faulty = max_faulty,
                       cc_threshold = threshold, cc_committee_id = sha256_hex C bs\<rparr>)"

text \<open>The binary search over the sorted members.\<close>

definition committee_contains :: "consensus_committee \<Rightarrow> agent_id \<Rightarrow> bool" where
  "committee_contains committee agent_id \<longleftrightarrow> agent_id \<in> set (cc_members committee)"

definition committee_seed_json :: "string \<Rightarrow> agent_id list \<Rightarrow> json" where
  "committee_seed_json previous_commit_hash members =
     JObject [(''previous_commit_hash'', JString previous_commit_hash),
              (''members'', JArray (map agent_id_json members))]"

definition proposer_selection_json :: "string \<Rightarrow> u64 \<Rightarrow> agent_id \<Rightarrow> json" where
  "proposer_selection_json previous_commit_hash round agent_id =
     JObject [(''previous_commit_hash'', JString previous_commit_hash),
              (''round'', json_nat round), (''agent_id'', agent_id_json agent_id)]"

fun select_proposer ::
  "crypto_lib \<Rightarrow> string \<Rightarrow> u64 \<Rightarrow> agent_id list \<Rightarrow> (agent_id \<times> string) option \<Rightarrow>
   consensus_error + (agent_id \<times> string) option" where
  "select_proposer C previous_commit_hash round [] best = Inr best"
| "select_proposer C previous_commit_hash round (agent_id # members) best =
     (case canonical_json_bytes C (proposer_selection_json previous_commit_hash round agent_id) of
        Inl e \<Rightarrow> Inl (CryptoFailure e)
      | Inr bs \<Rightarrow>
          let score = sha256_hex C bs;
              better = (case best of None \<Rightarrow> True | Some (_, current) \<Rightarrow> current < score)
          in select_proposer C previous_commit_hash round members
               (if better then Some (agent_id, score) else best))"

definition proposer_for ::
  "crypto_lib \<Rightarrow> consensus_committee \<Rightarrow> string \<Rightarrow> u64 \<Rightarrow> consensus_error + agent_id" where
  "proposer_for C committee previous_commit_hash round =
     (case canonical_json_bytes C (committee_seed_json previous_commit_hash (cc_members committee)) of
        Inl e \<Rightarrow> Inl (CryptoFailure e)
      | Inr _ \<Rightarrow>
         (case select_proposer C previous_commit_hash round (cc_members committee) None of
            Inl e \<Rightarrow> Inl e
          | Inr (Some (agent_id, _)) \<Rightarrow> Inr agent_id
          | Inr None \<Rightarrow>
              Inl (InvalidCommittee ''committee must contain at least one member'')))"

section \<open>Construction\<close>

definition committee_ok :: "consensus_committee \<Rightarrow> bool" where
  "committee_ok committee \<longleftrightarrow>
     cc_members committee \<noteq> [] \<and> sorted (cc_members committee) \<and>
     distinct (cc_members committee) \<and>
     cc_threshold committee = 2 * cc_max_faulty committee + 1 \<and>
     cc_threshold committee \<le> length (cc_members committee)"

lemma committee_new_ok:
  assumes "committee_new C members max_faulty = Inr committee"
  shows "committee_ok committee \<and> set (cc_members committee) = set members \<and>
         cc_max_faulty committee = max_faulty"
  using assms
  by (auto simp: committee_new_def committee_ok_def Let_def u64_mul_def u64_add_def
        length_sort_dedup card_gt_0_iff
        split: if_splits option.splits sum.splits bind_splits
        dest!: arg_cong[where f = set])

lemma committee_descriptor_float_free: "float_free (committee_descriptor_json members f)"
  by (simp add: committee_descriptor_json_def list_all_iff agent_id_json_def json_nat_def)

text \<open>Construction succeeds exactly when the quorum fits the deduplicated members.\<close>

lemma committee_new_Inr_iff:
  "(\<exists>committee. committee_new C members max_faulty = Inr committee) \<longleftrightarrow>
     members \<noteq> [] \<and> 2 * max_faulty + 1 \<le> u64_max \<and>
     2 * max_faulty + 1 \<le> card (set members)"
proof -
  obtain bs where "canonical_json_bytes C
      (committee_descriptor_json (sort_dedup members) max_faulty) = Inr bs"
    using canonicalize_total[OF committee_descriptor_float_free] unfolding canonical_json_bytes_def
    by blast
  then show ?thesis
    by (auto simp: committee_new_def Let_def u64_mul_def u64_add_def length_sort_dedup not_less
          mult.commute[of _ 2] split: if_splits option.splits)
qed

section \<open>Proposer selection\<close>

definition proposer_score :: "crypto_lib \<Rightarrow> string \<Rightarrow> u64 \<Rightarrow> agent_id \<Rightarrow> string" where
  "proposer_score C previous_commit_hash round agent_id =
     (case canonical_json_bytes C (proposer_selection_json previous_commit_hash round agent_id) of
        Inl _ \<Rightarrow> [] | Inr bs \<Rightarrow> sha256_hex C bs)"

lemma proposer_selection_bytes:
  "\<exists>bs. canonical_json_bytes C (proposer_selection_json h r a) = Inr bs"
  unfolding canonical_json_bytes_def
  by (rule canonicalize_total)
     (simp add: proposer_selection_json_def agent_id_json_def json_nat_def)

lemma select_proposer_best:
  "case best of None \<Rightarrow> True | Some (a, s) \<Rightarrow> s = proposer_score C h r a \<Longrightarrow>
   \<exists>out. select_proposer C h r members best = Inr out \<and>
     (out = None \<longleftrightarrow> members = [] \<and> best = None) \<and>
     (\<forall>a s. out = Some (a, s) \<longrightarrow>
        (a \<in> set members \<or> best = Some (a, s)) \<and> s = proposer_score C h r a \<and>
        (\<forall>b\<in>set members. proposer_score C h r b \<le> s) \<and>
        (\<forall>b t. best = Some (b, t) \<longrightarrow> t \<le> s))"
proof (induction members arbitrary: best)
  case Nil
  then show ?case by auto
next
  case (Cons m members)
  obtain bs where bs: "canonical_json_bytes C (proposer_selection_json h r m) = Inr bs"
    using proposer_selection_bytes by blast
  then have score: "proposer_score C h r m = sha256_hex C bs" by (simp add: proposer_score_def)
  define best' where "best' = (if (case best of None \<Rightarrow> True | Some (_, cur) \<Rightarrow> cur < sha256_hex C bs)
      then Some (m, sha256_hex C bs) else best)"
  have "case best' of None \<Rightarrow> True | Some (a, s) \<Rightarrow> s = proposer_score C h r a"
    using Cons.prems score by (auto simp: best'_def split: option.splits)
  from Cons.IH[OF this] obtain out where
    out: "select_proposer C h r members best' = Inr out"
      "out = None \<longleftrightarrow> members = [] \<and> best' = None"
      "\<forall>a s. out = Some (a, s) \<longrightarrow>
        (a \<in> set members \<or> best' = Some (a, s)) \<and> s = proposer_score C h r a \<and>
        (\<forall>b\<in>set members. proposer_score C h r b \<le> s) \<and>
        (\<forall>b t. best' = Some (b, t) \<longrightarrow> t \<le> s)"
    by blast
  have sel: "select_proposer C h r (m # members) best = Inr out"
    using out(1) bs by (simp add: Let_def best'_def)
  have ne: "best' \<noteq> None" by (auto simp: best'_def split: option.splits)
  show ?case
  proof (intro exI[of _ out] conjI sel allI impI)
    show "(out = None) = (m # members = [] \<and> best = None)" using out(2) ne by simp
  next
    fix a s assume "out = Some (a, s)"
    with out(3) have a: "a \<in> set members \<or> best' = Some (a, s)" "s = proposer_score C h r a"
      "\<forall>b\<in>set members. proposer_score C h r b \<le> s" "\<forall>b t. best' = Some (b, t) \<longrightarrow> t \<le> s"
      by blast+
    show "a \<in> set (m # members) \<or> best = Some (a, s)"
      using a(1) by (auto simp: best'_def split: if_splits)
    show "s = proposer_score C h r a" by (fact a(2))
    have ms: "proposer_score C h r m \<le> s"
      using a(4) ne score by (auto simp: best'_def split: if_splits option.splits)
    with a(3) show "\<forall>b\<in>set (m # members). proposer_score C h r b \<le> s" by simp
    show "t \<le> s" if "best = Some (b, t)" for b t
      using a(4) ms score that by (auto simp: best'_def split: if_splits)
  qed
qed

lemma proposer_for_member:
  assumes "cc_members committee \<noteq> []"
  shows "\<exists>a. proposer_for C committee h r = Inr a \<and> a \<in> set (cc_members committee) \<and>
             (\<forall>b\<in>set (cc_members committee). proposer_score C h r b \<le> proposer_score C h r a)"
proof -
  have "float_free (committee_seed_json h (cc_members committee))"
    by (simp add: committee_seed_json_def list_all_iff agent_id_json_def)
  from canonicalize_total[OF this] obtain bs where
    bs: "canonical_json_bytes C (committee_seed_json h (cc_members committee)) = Inr bs"
    unfolding canonical_json_bytes_def by blast
  from select_proposer_best[where best = None and C = C and h = h and r = r and members = "cc_members committee"] assms
  obtain a s where "select_proposer C h r (cc_members committee) None = Inr (Some (a, s))"
    "a \<in> set (cc_members committee)" "s = proposer_score C h r a"
    "\<forall>b\<in>set (cc_members committee). proposer_score C h r b \<le> s"
    by fastforce
  with bs show ?thesis by (auto simp: proposer_for_def)
qed

section \<open>Quorums\<close>

lemma recommended_max_faulty_bounds:
  "0 < n \<Longrightarrow> 3 * recommended_max_faulty n + 1 \<le> n \<and> n < 3 * recommended_max_faulty n + 4"
  by (auto simp: recommended_max_faulty_def)

text \<open>
  After the tolerated number of members has been excluded, the remaining ones still reach
  the threshold.
\<close>

lemma recommended_committable:
  "0 < n \<Longrightarrow> 2 * recommended_max_faulty n + 1 \<le> n - recommended_max_faulty n"
  using recommended_max_faulty_bounds[of n] by arith

lemma quorum_overlap:
  assumes ok: "committee_ok committee"
    and Q: "Q \<subseteq> set (cc_members committee)" "cc_threshold committee \<le> card Q"
    and Q': "Q' \<subseteq> set (cc_members committee)" "cc_threshold committee \<le> card Q'"
  shows "2 * cc_threshold committee \<le> length (cc_members committee) + card (Q \<inter> Q')"
proof -
  have "card (set (cc_members committee)) = length (cc_members committee)"
    using ok by (simp add: committee_ok_def distinct_card)
  with card_inter_lower_bound[of "set (cc_members committee)" Q Q'] Q Q' show ?thesis
    by auto
qed

end
