(* ===== verification/Vote_Ledger.thy ===== *)
theory Vote_Ledger
  imports Committee
begin

text \<open>
  The vote ledger of one round (\<^verbatim>\<open>VoteLedger\<close> in \<^verbatim>\<open>crates/swarm-consensus/src/lib.rs\<close>): two
  maps, from voters to choices and from choices to voter sets. The locale \<open>tally\<close> is the
  contract the consensus node relies on, stated against the abstract assignment of votes to
  voters; the ledger implements it.
\<close>

record vote_ledger =
  vl_by_agent :: "agent_id \<rightharpoonup> string option"
  vl_by_value :: "string option \<rightharpoonup> agent_id set"

definition ledger_empty :: vote_ledger where
  "ledger_empty = \<lparr>vl_by_agent = Map.empty, vl_by_value = Map.empty\<rparr>"

definition ledger_count :: "vote_ledger \<Rightarrow> string option \<Rightarrow> usize" where
  "ledger_count ledger proposal_id =
     (case vl_by_value ledger proposal_id of None \<Rightarrow> 0 | Some voters \<Rightarrow> card voters)"

definition record_vote ::
  "vote_ledger \<Rightarrow> agent_id \<Rightarrow> string option \<Rightarrow> (consensus_error + usize) \<times> vote_ledger" where
  "record_vote ledger voter choice =
     (case vl_by_agent ledger voter of
        Some existing \<Rightarrow>
          if existing = choice then (Inr (ledger_count ledger choice), ledger)
          else (Inl (InvalidMessage (''agent `'' @ agent_str voter
                  @ ''` cast conflicting votes in the same round'')), ledger)
      | None \<Rightarrow>
          let voters = (case vl_by_value ledger choice of None \<Rightarrow> {} | Some S \<Rightarrow> S);
              ledger = ledger\<lparr>vl_by_agent := (vl_by_agent ledger)(voter \<mapsto> choice),
                              vl_by_value := (vl_by_value ledger)(choice \<mapsto> insert voter voters)\<rparr>
          in (Inr (ledger_count ledger choice), ledger))"

definition remove_voter :: "vote_ledger \<Rightarrow> agent_id \<Rightarrow> vote_ledger" where
  "remove_voter ledger voter =
     (case vl_by_agent ledger voter of
        None \<Rightarrow> ledger
      | Some choice \<Rightarrow>
          let ledger = ledger\<lparr>vl_by_agent := (vl_by_agent ledger)(voter := None)\<rparr> in
          case vl_by_value ledger choice of
            None \<Rightarrow> ledger
          | Some voters \<Rightarrow>
              let voters = voters - {voter} in
              ledger\<lparr>vl_by_value := (vl_by_value ledger)
                        (choice := (if voters = {} then None else Some voters))\<rparr>)"

text \<open>The two maps agree, no empty voter set is kept, and the voters are finite.\<close>

definition voters_by_value :: "(agent_id \<rightharpoonup> string option) \<Rightarrow> string option \<rightharpoonup> agent_id set" where
  "voters_by_value votes v =
     (let S = {a. votes a = Some v} in if S = {} then None else Some S)"

definition ledger_ok :: "vote_ledger \<Rightarrow> bool" where
  "ledger_ok ledger \<longleftrightarrow>
     finite (dom (vl_by_agent ledger)) \<and>
     vl_by_value ledger = voters_by_value (vl_by_agent ledger)"

lemmas [ledger_simps] = ledger_empty_def ledger_count_def record_vote_def remove_voter_def

section \<open>The contract\<close>

locale tally =
  fixes empty :: 'l
    and record_ballot :: "'l \<Rightarrow> 'a \<Rightarrow> 'v \<Rightarrow> ('e + nat) \<times> 'l"
    and withdraw :: "'l \<Rightarrow> 'a \<Rightarrow> 'l"
    and count :: "'l \<Rightarrow> 'v \<Rightarrow> nat"
    and vote_of :: "'l \<Rightarrow> 'a \<Rightarrow> 'v option"
    and ok :: "'l \<Rightarrow> bool"
  assumes ok_empty: "ok empty" and vote_of_empty: "vote_of empty = Map.empty"
    and finite_voters: "ok l \<Longrightarrow> finite (dom (vote_of l))"
    and count_is: "ok l \<Longrightarrow> count l v = card {a. vote_of l a = Some v}"
    and record_Inr: "ok l \<Longrightarrow> record_ballot l a v = (Inr n, l') \<Longrightarrow>
      ok l' \<and> vote_of l a \<in> {None, Some v} \<and> vote_of l' = (vote_of l)(a \<mapsto> v) \<and> n = count l' v"
    and record_Inl: "ok l \<Longrightarrow> record_ballot l a v = (Inl e, l') \<Longrightarrow>
      l' = l \<and> (\<exists>w. w \<noteq> v \<and> vote_of l a = Some w)"
    and withdraw_is: "ok l \<Longrightarrow> ok (withdraw l a) \<and> vote_of (withdraw l a) = (vote_of l)(a := None)"
begin

lemma ok_record: "ok l \<Longrightarrow> record_ballot l a v = (r, l') \<Longrightarrow> ok l'"
  by (cases r) (auto dest: record_Inr record_Inl)

lemma vote_of_record:
  assumes "ok l" "record_ballot l a v = (r, l')"
  shows "vote_of l' = (case r of Inl _ \<Rightarrow> vote_of l | Inr _ \<Rightarrow> (vote_of l)(a \<mapsto> v))"
  using assms record_Inr[OF assms(1), of a v _ l'] record_Inl[OF assms(1), of a v _ l']
  by (auto split: sum.splits)

lemma voters_record:
  "ok l \<Longrightarrow> record_ballot l a v = (r, l') \<Longrightarrow> dom (vote_of l') \<subseteq> insert a (dom (vote_of l))"
  by (auto simp: vote_of_record split: sum.splits if_splits)

lemma count_le_members:
  assumes "ok l" "dom (vote_of l) \<subseteq> M" "finite M"
  shows "count l v \<le> card M"
  using assms by (auto simp: count_is intro!: card_mono)

text \<open>A vote, once counted, is never moved to another choice.\<close>

lemma record_keeps_votes:
  assumes "ok l" "record_ballot l a v = (r, l')" "vote_of l b = Some w"
  shows "vote_of l' b = Some w"
  using assms record_Inr[OF assms(1), of a v _ l']
  by (cases r) (auto simp: vote_of_record[OF assms(1,2)])

lemma record_twice:
  assumes "ok l" "record_ballot l a v = (Inr n, l')" "v \<noteq> w"
  shows "\<exists>e. record_ballot l' a w = (Inl e, l')"
proof -
  from record_Inr[OF assms(1,2)] have l': "ok l'" "vote_of l' a = Some v" by auto
  obtain r l'' where r: "record_ballot l' a w = (r, l'')" by fastforce
  show ?thesis
  proof (cases r)
    case (Inl e)
    with r record_Inl[OF l'(1)] show ?thesis by blast
  next
    case (Inr m)
    with r record_Inr[OF l'(1), of a w m l''] l'(2) assms(3) have False by auto
    then show ?thesis ..
  qed
qed

text \<open>
  Two quorums for different choices, counted by two nodes over the same members, expose
  at least \<open>2t - n\<close> members that voted both ways.
\<close>

lemma conflicting_quorums:
  assumes ok: "ok l" "ok l'" and M: "finite M" "dom (vote_of l) \<subseteq> M" "dom (vote_of l') \<subseteq> M"
    and quorum: "t \<le> count l v" "t \<le> count l' v'"
  shows "2 * t \<le> card M + card {a. vote_of l a = Some v \<and> vote_of l' a = Some v'}"
proof -
  let ?A = "{a. vote_of l a = Some v}" and ?B = "{a. vote_of l' a = Some v'}"
  have "card ?A + card ?B \<le> card M + card (?A \<inter> ?B)"
    using M by (intro card_inter_lower_bound) auto
  moreover have "?A \<inter> ?B = {a. vote_of l a = Some v \<and> vote_of l' a = Some v'}" by auto
  ultimately show ?thesis using quorum ok by (simp add: count_is)
qed

end

lemma ledger_count_card:
  "ledger_ok l \<Longrightarrow> ledger_count l v = card {a. vl_by_agent l a = Some v}"
  by (auto simp: ledger_ok_def ledger_count_def voters_by_value_def Let_def split: if_splits)

lemma voters_by_value_add:
  "m a = None \<Longrightarrow>
   (voters_by_value m)(v \<mapsto> insert a (case voters_by_value m v of None \<Rightarrow> {} | Some S \<Rightarrow> S)) =
   voters_by_value (m(a \<mapsto> v))"
proof (rule ext)
  fix w assume new: "m a = None"
  have "{b. (m(a \<mapsto> v)) b = Some w} = (if w = v then insert a {b. m b = Some w} else {b. m b = Some w})"
    using new by auto
  then show "((voters_by_value m)(v \<mapsto> insert a (case voters_by_value m v of None \<Rightarrow> {} | Some S \<Rightarrow> S))) w =
      voters_by_value (m(a \<mapsto> v)) w"
    by (simp add: voters_by_value_def Let_def)
qed

lemma voters_by_value_remove:
  assumes "m a = Some v"
  shows "(voters_by_value m)(v := (let S = {b. m b = Some v} - {a} in if S = {} then None else Some S)) =
         voters_by_value (m(a := None))"
proof (rule ext)
  fix w
  have "{b. (m(a := None)) b = Some w} = (if w = v then {b. m b = Some w} - {a} else {b. m b = Some w})"
    using assms by auto
  then show "((voters_by_value m)(v := (let S = {b. m b = Some v} - {a} in
      if S = {} then None else Some S))) w = voters_by_value (m(a := None)) w"
    by (simp add: voters_by_value_def Let_def)
qed

lemma ledger_ok_new_vote:
  assumes ok: "ledger_ok l" and new: "vl_by_agent l a = None"
  shows "ledger_ok (snd (record_vote l a v))"
    "vl_by_agent (snd (record_vote l a v)) = (vl_by_agent l)(a \<mapsto> v)"
  using ok new voters_by_value_add[of "vl_by_agent l" a v]
  by (simp_all add: ledger_ok_def record_vote_def Let_def)

lemma ledger_ok_remove:
  assumes ok: "ledger_ok l"
  shows "ledger_ok (remove_voter l a) \<and>
         vl_by_agent (remove_voter l a) = (vl_by_agent l)(a := None)"
proof (cases "vl_by_agent l a")
  case None
  then have "(vl_by_agent l)(a := None) = vl_by_agent l" by auto
  with None ok show ?thesis by (simp add: remove_voter_def)
next
  case (Some v)
  then have "vl_by_value l v = Some {b. vl_by_agent l b = Some v}"
    using ok by (auto simp: ledger_ok_def voters_by_value_def Let_def)
  with ok Some voters_by_value_remove[of "vl_by_agent l" a v] show ?thesis
    by (simp add: ledger_ok_def remove_voter_def Let_def)
qed

interpretation vl: tally ledger_empty record_vote remove_voter ledger_count vl_by_agent ledger_ok
proof unfold_locales
  show "ledger_ok ledger_empty"
    by (simp add: ledger_ok_def ledger_empty_def voters_by_value_def fun_eq_iff)
  show "vl_by_agent ledger_empty = Map.empty" by (simp add: ledger_empty_def)
next
  fix l v assume "ledger_ok l"
  then show "finite (dom (vl_by_agent l))"
    and "ledger_count l v = card {a. vl_by_agent l a = Some v}"
    by (simp_all add: ledger_ok_def ledger_count_card)
next
  fix l a assume "ledger_ok l"
  then show "ledger_ok (remove_voter l a) \<and>
    vl_by_agent (remove_voter l a) = (vl_by_agent l)(a := None)"
    by (rule ledger_ok_remove)
next
  fix l a v n l' assume ok: "ledger_ok l" and r: "record_vote l a v = (Inr n, l')"
  show "ledger_ok l' \<and> vl_by_agent l a \<in> {None, Some v} \<and>
        vl_by_agent l' = (vl_by_agent l)(a \<mapsto> v) \<and> n = ledger_count l' v"
  proof (cases "vl_by_agent l a")
    case None
    with ledger_ok_new_vote[OF ok None, of v] r show ?thesis
      by (auto simp: record_vote_def Let_def)
  next
    case (Some w)
    with r ok show ?thesis by (auto simp: record_vote_def split: if_splits)
  qed
next
  fix l a v e l' assume "ledger_ok l" "record_vote l a v = (Inl e, l')"
  then show "l' = l \<and> (\<exists>w. w \<noteq> v \<and> vl_by_agent l a = Some w)"
    by (auto simp: record_vote_def Let_def split: option.splits if_splits)
qed

end
