(* ===== verification/Consensus_Msgs.thy ===== *)
theory Consensus_Msgs
  imports Committee
begin

text \<open>
  Messages, signed envelopes, commits and receipts of
  \<^verbatim>\<open>crates/swarm-consensus/src/lib.rs\<close>, with the JSON forms their \<^verbatim>\<open>Serialize\<close> derives
  declare (the body of a message is flattened into it under the tag \<^verbatim>\<open>kind\<close>), signing and
  verification. The lemmas show that what a node signs verifies, and that a verified
  document names the identity of the key that signed it.
\<close>

record jetstream_subject_layout =
  jl_prefix :: string

definition DEFAULT_CONSENSUS_SUBJECT_PREFIX :: string where
  "DEFAULT_CONSENSUS_SUBJECT_PREFIX = ''swarm.consensus''"

definition CONSENSUS_RECEIPT_SCHEMA_VERSION :: nat where
  "CONSENSUS_RECEIPT_SCHEMA_VERSION = 1"

definition round_subject ::
  "jetstream_subject_layout \<Rightarrow> consensus_committee \<Rightarrow> u64 \<Rightarrow> u64 \<Rightarrow> string" where
  "round_subject layout committee height round =
     jl_prefix layout @ ''.'' @ cc_committee_id committee @ ''.height.'' @ dec_nat height
     @ ''.round.'' @ dec_nat round"

definition height_wildcard ::
  "jetstream_subject_layout \<Rightarrow> consensus_committee \<Rightarrow> u64 \<Rightarrow> string" where
  "height_wildcard layout committee height =
     jl_prefix layout @ ''.'' @ cc_committee_id committee @ ''.height.'' @ dec_nat height
     @ ''.round.*''"

datatype consensus_step = StepPropose | StepPrevote | StepPrecommit | StepCommit

record consensus_proposal =
  prop_id :: string
  prop_payload :: json

datatype signed_message_kind = KProposal | KPrevote | KPrecommit

datatype consensus_message_body =
    Proposal consensus_proposal
  | Prevote "string option"
  | Precommit "string option"

fun body_kind :: "consensus_message_body \<Rightarrow> signed_message_kind" where
  "body_kind (Proposal _) = KProposal"
| "body_kind (Prevote _) = KPrevote"
| "body_kind (Precommit _) = KPrecommit"

record consensus_message =
  msg_height :: u64
  msg_round :: u64
  msg_previous_commit_hash :: string
  msg_from :: agent_id
  msg_sent_at_ms :: i64
  msg_body :: consensus_message_body

record consensus_envelope =
  env_subject :: string
  env_message :: consensus_message

record consensus_signed_envelope =
  se_envelope :: consensus_envelope
  se_signature :: detached_signature

section \<open>JSON forms\<close>

definition proposal_json :: "consensus_proposal \<Rightarrow> json" where
  "proposal_json p = JObject [(''proposal_id'', JString (prop_id p)), (''payload'', prop_payload p)]"

fun kind_json :: "signed_message_kind \<Rightarrow> json" where
  "kind_json KProposal = JString ''proposal''"
| "kind_json KPrevote = JString ''prevote''"
| "kind_json KPrecommit = JString ''precommit''"

fun body_fields :: "consensus_message_body \<Rightarrow> (string \<times> json) list" where
  "body_fields (Proposal p) = [(''kind'', kind_json KProposal), (''proposal'', proposal_json p)]"
| "body_fields (Prevote pid) =
     [(''kind'', kind_json KPrevote), (''proposal_id'', json_opt JString pid)]"
| "body_fields (Precommit pid) =
     [(''kind'', kind_json KPrecommit), (''proposal_id'', json_opt JString pid)]"

definition message_json :: "consensus_message \<Rightarrow> json" where
  "message_json m =
     JObject ([(''height'', json_nat (msg_height m)), (''round'', json_nat (msg_round m)),
               (''previous_commit_hash'', JString (msg_previous_commit_hash m)),
               (''from'', agent_id_json (msg_from m)),
               (''sent_at_ms'', json_int (msg_sent_at_ms m))] @ body_fields (msg_body m))"

definition envelope_json :: "consensus_envelope \<Rightarrow> json" where
  "envelope_json e =
     JObject [(''subject'', JString (env_subject e)), (''message'', message_json (env_message e))]"

definition signed_envelope_json :: "consensus_signed_envelope \<Rightarrow> json" where
  "signed_envelope_json e =
     JObject [(''envelope'', envelope_json (se_envelope e)),
              (''signature'', detached_signature_json (se_signature e))]"

section \<open>Signing and verification\<close>

definition canonical_bytes :: "crypto_lib \<Rightarrow> json \<Rightarrow> consensus_error + bytes" where
  "canonical_bytes C v =
     (case canonical_json_bytes C v of Inl e \<Rightarrow> Inl (CryptoFailure e) | Inr bs \<Rightarrow> Inr bs)"

text \<open>
  The three \<^verbatim>\<open>verify\<close> functions (signed envelopes, governance receipts, exclusion receipts)
  share this body; they differ in the payload, in the identity it declares and in the text
  of the mismatch error.
\<close>

definition verify_signed ::
  "crypto_lib \<Rightarrow> json \<Rightarrow> detached_signature \<Rightarrow> agent_id \<Rightarrow> (agent_id \<Rightarrow> string) \<Rightarrow>
   consensus_error + bytes" where
  "verify_signed C payload sig declared mismatch =
     (case canonical_bytes C payload of Inl e \<Rightarrow> Inl e
      | Inr bs \<Rightarrow>
     (case verify_detached_signature C bs sig of Inl e \<Rightarrow> Inl (CryptoFailure e)
      | Inr _ \<Rightarrow>
     (case lib_hex_decode C (ds_public_key_hex sig) of
        Inl err \<Rightarrow> Inl (InvalidMessage (''invalid signer public key hex: '' @ err))
      | Inr key_bytes \<Rightarrow>
          if length key_bytes \<noteq> 32 then
            Inl (InvalidMessage (''expected 32-byte signer public key, got ''
                 @ dec_nat (length key_bytes)))
          else case lib_key_error C key_bytes of
            Some err \<Rightarrow> Inl (InvalidMessage (''invalid signer public key: '' @ err))
          | None \<Rightarrow>
              let derived_id = from_verifying_key C key_bytes in
              if derived_id \<noteq> declared then Inl (InvalidMessage (mismatch derived_id))
              else Inr key_bytes)))"

definition signed_envelope_sign ::
  "crypto_lib \<Rightarrow> consensus_envelope \<Rightarrow> bytes \<Rightarrow> consensus_error + consensus_signed_envelope" where
  "signed_envelope_sign C envelope signing_key =
     (case canonical_bytes C (envelope_json envelope) of Inl e \<Rightarrow> Inl e
      | Inr payload \<Rightarrow>
          Inr \<lparr>se_envelope = envelope,
               se_signature = make_detached_signature C signing_key payload\<rparr>)"

definition signed_envelope_verify ::
  "crypto_lib \<Rightarrow> consensus_signed_envelope \<Rightarrow> consensus_error + bytes" where
  "signed_envelope_verify C e =
     (let declared = msg_from (env_message (se_envelope e)) in
      verify_signed C (envelope_json (se_envelope e)) (se_signature e) declared
        (\<lambda>derived. ''signer identity mismatch: message declared `'' @ agent_str declared
           @ ''` but signature key derives `'' @ agent_str derived @ ''`''))"

definition signed_envelope_hash ::
  "crypto_lib \<Rightarrow> consensus_signed_envelope \<Rightarrow> consensus_error + string" where
  "signed_envelope_hash C e =
     (case canonical_bytes C (signed_envelope_json e) of
        Inl err \<Rightarrow> Inl err | Inr bs \<Rightarrow> Inr (sha256_hex C bs))"

record consensus_commit =
  com_height :: u64
  com_round :: u64
  com_committee_id :: string
  com_proposal :: consensus_proposal
  com_prevote_tally :: usize
  com_precommit_tally :: usize
  com_commit_hash :: string

subsection \<open>Governance receipts\<close>

datatype governance_receipt_decision = Approve | Veto

fun decision_json :: "governance_receipt_decision \<Rightarrow> json" where
  "decision_json Approve = JString ''approve''"
| "decision_json Veto = JString ''veto''"

record governance_receipt_payload =
  gr_schema_version :: nat
  gr_receipt_id :: string
  gr_decision :: governance_receipt_decision
  gr_committee_id :: string
  gr_committee_members :: "agent_id list"
  gr_threshold :: usize
  gr_height :: u64
  gr_round :: u64
  gr_previous_commit_hash :: string
  gr_commit_hash :: string
  gr_proposal_id :: string
  gr_prevote_tally :: usize
  gr_precommit_tally :: usize
  gr_issued_by :: agent_id
  gr_issued_at_ms :: i64

record governance_receipt =
  rcpt_payload :: governance_receipt_payload
  rcpt_signature :: detached_signature

definition receipt_payload_json :: "governance_receipt_payload \<Rightarrow> json" where
  "receipt_payload_json p =
     JObject [(''schema_version'', json_nat (gr_schema_version p)),
              (''receipt_id'', JString (gr_receipt_id p)),
              (''decision'', decision_json (gr_decision p)),
              (''committee_id'', JString (gr_committee_id p)),
              (''committee_members'', JArray (map agent_id_json (gr_committee_members p))),
              (''threshold'', json_nat (gr_threshold p)),
              (''height'', json_nat (gr_height p)), (''round'', json_nat (gr_round p)),
              (''previous_commit_hash'', JString (gr_previous_commit_hash p)),
              (''commit_hash'', JString (gr_commit_hash p)),
              (''proposal_id'', JString (gr_proposal_id p)),
              (''prevote_tally'', json_nat (gr_prevote_tally p)),
              (''precommit_tally'', json_nat (gr_precommit_tally p)),
              (''issued_by'', agent_id_json (gr_issued_by p)),
              (''issued_at_ms'', json_int (gr_issued_at_ms p))]"

definition receipt_id_json ::
  "governance_receipt_decision \<Rightarrow> consensus_commit \<Rightarrow> agent_id \<Rightarrow> i64 \<Rightarrow> json" where
  "receipt_id_json decision commit issued_by issued_at_ms =
     JObject [(''decision'', decision_json decision),
              (''height'', json_nat (com_height commit)),
              (''round'', json_nat (com_round commit)),
              (''commit_hash'', JString (com_commit_hash commit)),
              (''issued_by'', agent_id_json issued_by),
              (''issued_at_ms'', json_int issued_at_ms)]"

definition governance_receipt_issue ::
  "crypto_lib \<Rightarrow> consensus_commit \<Rightarrow> string \<Rightarrow> consensus_committee \<Rightarrow>
   governance_receipt_decision \<Rightarrow> agent_id \<Rightarrow> bytes \<Rightarrow> i64 \<Rightarrow>
   consensus_error + governance_receipt" where
  "governance_receipt_issue C commit previous_commit_hash committee decision issued_by
     signing_key issued_at_ms =
     (case canonical_bytes C (receipt_id_json decision commit issued_by issued_at_ms) of
        Inl e \<Rightarrow> Inl e
      | Inr id_bytes \<Rightarrow>
         let payload =
           \<lparr>gr_schema_version = CONSENSUS_RECEIPT_SCHEMA_VERSION,
            gr_receipt_id = sha256_hex C id_bytes,
            gr_decision = decision,
            gr_committee_id = cc_committee_id committee,
            gr_committee_members = cc_members committee,
            gr_threshold = cc_threshold committee,
            gr_height = com_height commit,
            gr_round = com_round commit,
            gr_previous_commit_hash = previous_commit_hash,
            gr_commit_hash = com_commit_hash commit,
            gr_proposal_id = prop_id (com_proposal commit),
            gr_prevote_tally = com_prevote_tally commit,
            gr_precommit_tally = com_precommit_tally commit,
            gr_issued_by = issued_by,
            gr_issued_at_ms = issued_at_ms\<rparr>
         in case canonical_bytes C (receipt_payload_json payload) of
              Inl e \<Rightarrow> Inl e
            | Inr payload_bytes \<Rightarrow>
                Inr \<lparr>rcpt_payload = payload,
                     rcpt_signature = make_detached_signature C signing_key payload_bytes\<rparr>)"

definition governance_receipt_verify ::
  "crypto_lib \<Rightarrow> governance_receipt \<Rightarrow> consensus_error + bytes" where
  "governance_receipt_verify C receipt =
     (let declared = gr_issued_by (rcpt_payload receipt) in
      verify_signed C (receipt_payload_json (rcpt_payload receipt)) (rcpt_signature receipt) declared
        (\<lambda>derived. ''receipt signer mismatch: payload issued_by `'' @ agent_str declared
           @ ''` but signature key derives `'' @ agent_str derived @ ''`''))"

subsection \<open>Exclusion receipts\<close>

datatype exclusion_reason = ExclInvalidSignature | ExclEquivocation

fun reason_json :: "exclusion_reason \<Rightarrow> json" where
  "reason_json ExclInvalidSignature = JString ''invalid_signature''"
| "reason_json ExclEquivocation = JString ''equivocation''"

record exclusion_receipt_payload =
  er_schema_version :: nat
  er_receipt_id :: string
  er_committee_id :: string
  er_height :: u64
  er_round :: u64
  er_excluded_agent_id :: agent_id
  er_message_kind :: signed_message_kind
  er_reason :: exclusion_reason
  er_evidence_hashes :: "string list"
  er_issued_by :: agent_id
  er_issued_at_ms :: i64

record exclusion_receipt =
  ex_payload :: exclusion_receipt_payload
  ex_signature :: detached_signature

definition exclusion_payload_json :: "exclusion_receipt_payload \<Rightarrow> json" where
  "exclusion_payload_json p =
     JObject [(''schema_version'', json_nat (er_schema_version p)),
              (''receipt_id'', JString (er_receipt_id p)),
              (''committee_id'', JString (er_committee_id p)),
              (''height'', json_nat (er_height p)), (''round'', json_nat (er_round p)),
              (''excluded_agent_id'', agent_id_json (er_excluded_agent_id p)),
              (''message_kind'', kind_json (er_message_kind p)),
              (''reason'', reason_json (er_reason p)),
              (''evidence_hashes'', JArray (map JString (er_evidence_hashes p))),
              (''issued_by'', agent_id_json (er_issued_by p)),
              (''issued_at_ms'', json_int (er_issued_at_ms p))]"

definition exclusion_receipt_verify ::
  "crypto_lib \<Rightarrow> exclusion_receipt \<Rightarrow> consensus_error + bytes" where
  "exclusion_receipt_verify C receipt =
     (let declared = er_issued_by (ex_payload receipt) in
      verify_signed C (exclusion_payload_json (ex_payload receipt)) (ex_signature receipt) declared
        (\<lambda>derived. ''exclusion signer mismatch: payload issued_by `'' @ agent_str declared
           @ ''` but signature key derives `'' @ agent_str derived @ ''`''))"

section \<open>Signatures and identities\<close>

lemma canonical_bytes_total: "float_free v \<Longrightarrow> \<exists>bs. canonical_bytes C v = Inr bs"
  using canonicalize_total[of v C]
  by (auto simp: canonical_bytes_def canonical_json_bytes_def)

lemma verify_signed_identity:
  assumes "verify_signed C payload sig declared mismatch = Inr key"
  shows "declared = from_verifying_key C key \<and> length key = 32 \<and>
         (\<exists>bs. canonical_bytes C payload = Inr bs \<and>
               verify_detached_signature C bs sig = Inr ())"
  using assms
  by (auto simp: verify_signed_def Let_def split: sum.splits option.splits if_splits)

lemma verify_signed_own:
  assumes "crypto_laws C" "canonical_bytes C payload = Inr bs"
    and "declared = from_verifying_key C (lib_verifying_key C sk)"
  shows "verify_signed C payload (make_detached_signature C sk bs) declared mismatch =
           Inr (lib_verifying_key C sk)"
  using assms verify_own_signature[OF assms(1), of bs sk]
  by (simp add: verify_signed_def Let_def)
     (simp add: make_detached_signature_def Let_def crypto_laws_def)

lemma receipt_payload_float_free: "float_free (receipt_payload_json p)"
  by (auto simp: receipt_payload_json_def list_all_iff agent_id_json_def json_nat_def json_int_def
        split: if_splits) (cases "gr_decision p"; simp)

lemma receipt_id_float_free: "float_free (receipt_id_json d c a t)"
  by (cases d) (auto simp: receipt_id_json_def agent_id_json_def json_nat_def json_int_def)

lemma governance_receipt_issue_total:
  "\<exists>r. governance_receipt_issue C commit h committee d a sk t = Inr r"
  using canonical_bytes_total[OF receipt_id_float_free, of C d commit a t]
    canonical_bytes_total[OF receipt_payload_float_free, of C]
  by (auto simp: governance_receipt_issue_def Let_def split: sum.splits) (metis sum.distinct(1))+

lemma governance_receipt_issue_payload:
  assumes "governance_receipt_issue C commit h committee d a sk t = Inr r"
  shows "gr_decision (rcpt_payload r) = d \<and> gr_issued_by (rcpt_payload r) = a \<and>
         gr_proposal_id (rcpt_payload r) = prop_id (com_proposal commit) \<and>
         gr_commit_hash (rcpt_payload r) = com_commit_hash commit \<and>
         gr_previous_commit_hash (rcpt_payload r) = h \<and>
         gr_committee_id (rcpt_payload r) = cc_committee_id committee \<and>
         gr_threshold (rcpt_payload r) = cc_threshold committee \<and>
         gr_prevote_tally (rcpt_payload r) = com_prevote_tally commit \<and>
         gr_precommit_tally (rcpt_payload r) = com_precommit_tally commit \<and>
         gr_issued_at_ms (rcpt_payload r) = t"
  using assms by (auto simp: governance_receipt_issue_def Let_def split: sum.splits)

lemma governance_receipt_issue_verifies:
  assumes "crypto_laws C"
    and "governance_receipt_issue C commit h committee d
           (from_verifying_key C (lib_verifying_key C sk)) sk t = Inr r"
  shows "governance_receipt_verify C r = Inr (lib_verifying_key C sk)"
proof -
  from assms(2) obtain bs where
    "canonical_bytes C (receipt_payload_json (rcpt_payload r)) = Inr bs"
    "rcpt_signature r = make_detached_signature C sk bs"
    by (auto simp: governance_receipt_issue_def Let_def split: sum.splits)
  with verify_signed_own[OF assms(1)] governance_receipt_issue_payload[OF assms(2)]
  show ?thesis by (simp add: governance_receipt_verify_def Let_def)
qed

end
