(* ===== verification/Consensus_Node.thy ===== *)
theory Consensus_Node
  imports Vote_Ledger Consensus_Msgs
begin

text \<open>
  The consensus node (\<^verbatim>\<open>ConsensusNode\<close> in \<^verbatim>\<open>crates/swarm-consensus/src/lib.rs\<close>): its state,
  every operation that changes it, and the messages it emits. An operation returns its
  result and the node it leaves behind, also when the result is an error, because the
  source mutates before some of its early returns.
\<close>

record consensus_config =
  cfg_round_timeout_ms :: i64
  cfg_subject_layout :: jetstream_subject_layout

definition consensus_config_default :: consensus_config where
  "consensus_config_default =
     \<lparr>cfg_round_timeout_ms = 1000,
      cfg_subject_layout = \<lparr>jl_prefix = DEFAULT_CONSENSUS_SUBJECT_PREFIX\<rparr>\<rparr>"

record consensus_progress =
  cp_outbound :: "consensus_envelope list"
  cp_commits :: "consensus_commit list"
  cp_exclusions :: "exclusion_receipt list"
  cp_round_advanced :: bool

definition progress_default :: consensus_progress where
  "progress_default =
     \<lparr>cp_outbound = [], cp_commits = [], cp_exclusions = [], cp_round_advanced = False\<rparr>"

definition progress_extend :: "consensus_progress \<Rightarrow> consensus_progress \<Rightarrow> consensus_progress" where
  "progress_extend p other =
     \<lparr>cp_outbound = cp_outbound p @ cp_outbound other,
      cp_commits = cp_commits p @ cp_commits other,
      cp_exclusions = cp_exclusions p @ cp_exclusions other,
      cp_round_advanced = (cp_round_advanced p \<or> cp_round_advanced other)\<rparr>"

definition push_outbound :: "consensus_progress \<Rightarrow> consensus_envelope \<Rightarrow> consensus_progress" where
  "push_outbound p envelope = p\<lparr>cp_outbound := cp_outbound p @ [envelope]\<rparr>"

record signed_message_key =
  smk_height :: u64
  smk_round :: u64
  smk_from :: agent_id
  smk_kind :: signed_message_kind

definition key_from_message :: "consensus_message \<Rightarrow> signed_message_key" where
  "key_from_message m =
     \<lparr>smk_height = msg_height m, smk_round = msg_round m, smk_from = msg_from m,
      smk_kind = body_kind (msg_body m)\<rparr>"

record consensus_node =
  cn_local_agent_id :: agent_id
  cn_local_signing_key :: "bytes option"
  cn_committee :: consensus_committee
  cn_config :: consensus_config
  cn_height :: u64
  cn_round :: u64
  cn_step :: consensus_step
  cn_previous_commit_hash :: string
  cn_round_started_at_ms :: i64
  cn_proposals :: "u64 \<rightharpoonup> consensus_proposal"
  cn_prevotes :: "u64 \<rightharpoonup> vote_ledger"
  cn_precommits :: "u64 \<rightharpoonup> vote_ledger"
  cn_emitted_prevotes :: "u64 set"
  cn_emitted_precommits :: "u64 set"
  cn_pending_local_proposal :: "consensus_proposal option"
  cn_seen_signed_messages :: "signed_message_key \<rightharpoonup> consensus_signed_envelope"
  cn_excluded_members :: "u64 \<times> u64 \<rightharpoonup> agent_id set"

type_synonym node_result = "(consensus_error + consensus_progress) \<times> consensus_node"

definition node_new ::
  "agent_id \<Rightarrow> bytes option \<Rightarrow> consensus_committee \<Rightarrow> consensus_config \<Rightarrow> string \<Rightarrow> i64 \<Rightarrow>
   consensus_error + consensus_node" where
  "node_new local_agent_id local_signing_key committee config previous_commit_hash started_at_ms =
     (if \<not> committee_contains committee local_agent_id then
        Inl (InvalidCommittee (''local node `'' @ agent_str local_agent_id
               @ ''` is not in the committee''))
      else if cfg_round_timeout_ms config \<le> 0 then
        Inl (InvalidCommittee ''round timeout must be greater than zero'')
      else Inr
        \<lparr>cn_local_agent_id = local_agent_id,
         cn_local_signing_key = local_signing_key,
         cn_committee = committee,
         cn_config = config,
         cn_height = 1,
         cn_round = 0,
         cn_step = StepPropose,
         cn_previous_commit_hash = previous_commit_hash,
         cn_round_started_at_ms = started_at_ms,
         cn_proposals = Map.empty,
         cn_prevotes = Map.empty,
         cn_precommits = Map.empty,
         cn_emitted_prevotes = {},
         cn_emitted_precommits = {},
         cn_pending_local_proposal = None,
         cn_seen_signed_messages = Map.empty,
         cn_excluded_members = Map.empty\<rparr>)"

definition proposer_for_current_round ::
  "crypto_lib \<Rightarrow> consensus_node \<Rightarrow> consensus_error + agent_id" where
  "proposer_for_current_round C node =
     proposer_for C (cn_committee node) (cn_previous_commit_hash node) (cn_round node)"

definition sign_outbound ::
  "crypto_lib \<Rightarrow> consensus_node \<Rightarrow> consensus_envelope \<Rightarrow>
   consensus_error + consensus_signed_envelope" where
  "sign_outbound C node envelope =
     (case cn_local_signing_key node of
        None \<Rightarrow> Inl (SigningUnavailable (cn_local_agent_id node))
      | Some signing_key \<Rightarrow> signed_envelope_sign C envelope signing_key)"

definition build_envelope ::
  "consensus_node \<Rightarrow> u64 \<Rightarrow> consensus_message_body \<Rightarrow> i64 \<Rightarrow> consensus_envelope" where
  "build_envelope node round body now_ms =
     \<lparr>env_subject = round_subject (cfg_subject_layout (cn_config node)) (cn_committee node)
                      (cn_height node) round,
      env_message =
        \<lparr>msg_height = cn_height node, msg_round = round,
         msg_previous_commit_hash = cn_previous_commit_hash node,
         msg_from = cn_local_agent_id node, msg_sent_at_ms = now_ms, msg_body = body\<rparr>\<rparr>"

text \<open>\<^verbatim>\<open>entry(round).or_default()\<close> on the two ledger maps.\<close>

definition ledger_at :: "(u64 \<rightharpoonup> vote_ledger) \<Rightarrow> u64 \<Rightarrow> vote_ledger" where
  "ledger_at ledgers round = (case ledgers round of None \<Rightarrow> ledger_empty | Some l \<Rightarrow> l)"

definition tally_at :: "(u64 \<rightharpoonup> vote_ledger) \<Rightarrow> u64 \<Rightarrow> string option \<Rightarrow> usize" where
  "tally_at ledgers round choice =
     (case ledgers round of None \<Rightarrow> 0 | Some l \<Rightarrow> ledger_count l choice)"

definition cast_prevote ::
  "consensus_node \<Rightarrow> u64 \<Rightarrow> agent_id \<Rightarrow> string option \<Rightarrow> (consensus_error + usize) \<times> consensus_node" where
  "cast_prevote node round voter choice =
     (let (res, ledger) = record_vote (ledger_at (cn_prevotes node) round) voter choice
      in (res, node\<lparr>cn_prevotes := (cn_prevotes node)(round \<mapsto> ledger)\<rparr>))"

definition cast_precommit ::
  "consensus_node \<Rightarrow> u64 \<Rightarrow> agent_id \<Rightarrow> string option \<Rightarrow> (consensus_error + usize) \<times> consensus_node" where
  "cast_precommit node round voter choice =
     (let (res, ledger) = record_vote (ledger_at (cn_precommits node) round) voter choice
      in (res, node\<lparr>cn_precommits := (cn_precommits node)(round \<mapsto> ledger)\<rparr>))"

section \<open>Committing\<close>

definition commit_json ::
  "u64 \<Rightarrow> u64 \<Rightarrow> string \<Rightarrow> consensus_proposal \<Rightarrow> json" where
  "commit_json height round previous_commit_hash proposal =
     JObject [(''height'', json_nat height), (''round'', json_nat round),
              (''previous_commit_hash'', JString previous_commit_hash),
              (''proposal_id'', JString (prop_id proposal)),
              (''payload'', prop_payload proposal)]"

definition commit :: "crypto_lib \<Rightarrow> consensus_node \<Rightarrow> u64 \<Rightarrow> string option \<Rightarrow> i64 \<Rightarrow> node_result" where
  "commit C node round proposal_id now_ms =
     (case (proposal_id, cn_proposals node round) of
        (Some pid, Some proposal) \<Rightarrow>
          if prop_id proposal \<noteq> pid then (Inr progress_default, node)
          else
            let prevote_tally = tally_at (cn_prevotes node) round (Some pid);
                precommit_tally = tally_at (cn_precommits node) round (Some pid)
            in if prevote_tally < cc_threshold (cn_committee node)
                  \<or> precommit_tally < cc_threshold (cn_committee node)
               then (Inr progress_default, node)
               else case canonical_bytes C
                      (commit_json (cn_height node) round (cn_previous_commit_hash node) proposal) of
                 Inl e \<Rightarrow> (Inl e, node)
               | Inr bs \<Rightarrow>
                  let commit_hash = sha256_hex C bs;
                      com = \<lparr>com_height = cn_height node, com_round = round,
                             com_committee_id = cc_committee_id (cn_committee node),
                             com_proposal = proposal, com_prevote_tally = prevote_tally,
                             com_precommit_tally = precommit_tally,
                             com_commit_hash = commit_hash\<rparr>;
                      pending = (case cn_pending_local_proposal node of
                                   Some p \<Rightarrow> if prop_id p = prop_id proposal then None else Some p
                                 | None \<Rightarrow> None);
                      node = node\<lparr>cn_pending_local_proposal := pending,
                                  cn_height := u64_saturating_add (cn_height node) 1,
                                  cn_round := 0,
                                  cn_previous_commit_hash := commit_hash,
                                  cn_round_started_at_ms := now_ms,
                                  cn_proposals := Map.empty,
                                  cn_prevotes := Map.empty,
                                  cn_precommits := Map.empty,
                                  cn_emitted_prevotes := {},
                                  cn_emitted_precommits := {},
                                  cn_step := StepPropose\<rparr>
                  in (Inr (progress_default\<lparr>cp_commits := [com]\<rparr>), node)
      | _ \<Rightarrow> (Inr progress_default, node))"

section \<open>Voting\<close>

definition emit_precommit ::
  "crypto_lib \<Rightarrow> consensus_node \<Rightarrow> u64 \<Rightarrow> string option \<Rightarrow> i64 \<Rightarrow> node_result" where
  "emit_precommit C node round proposal_id now_ms =
     (if round \<in> cn_emitted_precommits node then (Inr progress_default, node)
      else
        let node = node\<lparr>cn_emitted_precommits := insert round (cn_emitted_precommits node),
                        cn_step := StepPrecommit\<rparr>
        in case cast_precommit node round (cn_local_agent_id node) proposal_id of
             (Inl e, node) \<Rightarrow> (Inl e, node)
           | (Inr votes, node) \<Rightarrow>
               let progress = push_outbound progress_default
                     (build_envelope node round (Precommit proposal_id) now_ms)
               in if cc_threshold (cn_committee node) \<le> votes then
                    (case commit C node round proposal_id now_ms of
                       (Inl e, node) \<Rightarrow> (Inl e, node)
                     | (Inr follow_up, node) \<Rightarrow> (Inr (progress_extend progress follow_up), node))
                  else (Inr progress, node))"

definition emit_prevote ::
  "crypto_lib \<Rightarrow> consensus_node \<Rightarrow> u64 \<Rightarrow> string option \<Rightarrow> i64 \<Rightarrow> node_result" where
  "emit_prevote C node round proposal_id now_ms =
     (if round \<in> cn_emitted_prevotes node then (Inr progress_default, node)
      else
        let node = node\<lparr>cn_emitted_prevotes := insert round (cn_emitted_prevotes node),
                        cn_step := StepPrevote\<rparr>
        in case cast_prevote node round (cn_local_agent_id node) proposal_id of
             (Inl e, node) \<Rightarrow> (Inl e, node)
           | (Inr votes, node) \<Rightarrow>
               let progress = push_outbound progress_default
                     (build_envelope node round (Prevote proposal_id) now_ms)
               in if cc_threshold (cn_committee node) \<le> votes
                     \<and> round \<notin> cn_emitted_precommits node then
                    (case emit_precommit C node round proposal_id now_ms of
                       (Inl e, node) \<Rightarrow> (Inl e, node)
                     | (Inr follow_up, node) \<Rightarrow> (Inr (progress_extend progress follow_up), node))
                  else (Inr progress, node))"

section \<open>Proposals and rounds\<close>

definition record_proposal ::
  "crypto_lib \<Rightarrow> consensus_node \<Rightarrow> agent_id \<Rightarrow> u64 \<Rightarrow> consensus_proposal \<Rightarrow>
   (consensus_error + unit) \<times> consensus_node" where
  "record_proposal C node from round proposal =
     (case proposer_for C (cn_committee node) (cn_previous_commit_hash node) round of
        Inl e \<Rightarrow> (Inl e, node)
      | Inr expected \<Rightarrow>
          if from \<noteq> expected then
            (Inl (InvalidMessage (''proposal for round '' @ dec_nat round @ '' came from `''
               @ agent_str from @ ''` but proposer is `'' @ agent_str expected @ ''`'')), node)
          else case cn_proposals node round of
            Some existing \<Rightarrow>
              if existing = proposal then (Inr (), node)
              else (Inl (InvalidMessage (''round '' @ dec_nat round
                      @ '' already recorded proposal `'' @ prop_id existing @ ''`'')), node)
          | None \<Rightarrow> (Inr (), node\<lparr>cn_proposals := (cn_proposals node)(round \<mapsto> proposal)\<rparr>))"

definition observe_local_proposal ::
  "crypto_lib \<Rightarrow> consensus_node \<Rightarrow> u64 \<Rightarrow> consensus_proposal \<Rightarrow> i64 \<Rightarrow> node_result" where
  "observe_local_proposal C node round proposal now_ms =
     (case record_proposal C node (cn_local_agent_id node) round proposal of
        (Inl e, node) \<Rightarrow> (Inl e, node)
      | (Inr _, node) \<Rightarrow>
          let progress = push_outbound progress_default
                (build_envelope node round (Proposal proposal) now_ms)
          in case emit_prevote C node round (Some (prop_id proposal)) now_ms of
               (Inl e, node) \<Rightarrow> (Inl e, node)
             | (Inr follow_up, node) \<Rightarrow> (Inr (progress_extend progress follow_up), node))"

definition emit_proposal_if_leader ::
  "crypto_lib \<Rightarrow> consensus_node \<Rightarrow> i64 \<Rightarrow> node_result" where
  "emit_proposal_if_leader C node now_ms =
     (case proposer_for_current_round C node of
        Inl e \<Rightarrow> (Inl e, node)
      | Inr proposer \<Rightarrow>
          if proposer \<noteq> cn_local_agent_id node then (Inr progress_default, node)
          else if cn_proposals node (cn_round node) \<noteq> None then (Inr progress_default, node)
          else case cn_pending_local_proposal node of
                 None \<Rightarrow> (Inr progress_default, node)
               | Some proposal \<Rightarrow> observe_local_proposal C node (cn_round node) proposal now_ms)"

definition advance_round :: "crypto_lib \<Rightarrow> consensus_node \<Rightarrow> u64 \<Rightarrow> i64 \<Rightarrow> node_result" where
  "advance_round C node target_round now_ms =
     (if target_round \<le> cn_round node then (Inr progress_default, node)
      else
        let node = node\<lparr>cn_round := target_round, cn_step := StepPropose,
                        cn_round_started_at_ms := now_ms\<rparr>;
            progress = progress_default\<lparr>cp_round_advanced := True\<rparr>
        in case emit_proposal_if_leader C node now_ms of
             (Inl e, node) \<Rightarrow> (Inl e, node)
           | (Inr follow_up, node) \<Rightarrow> (Inr (progress_extend progress follow_up), node))"

definition queue_proposal ::
  "crypto_lib \<Rightarrow> consensus_node \<Rightarrow> consensus_proposal \<Rightarrow> i64 \<Rightarrow> node_result" where
  "queue_proposal C node proposal now_ms =
     emit_proposal_if_leader C (node\<lparr>cn_pending_local_proposal := Some proposal\<rparr>) now_ms"

definition tick :: "crypto_lib \<Rightarrow> consensus_node \<Rightarrow> i64 \<Rightarrow> node_result" where
  "tick C node now_ms =
     (case i64_sub now_ms (cn_round_started_at_ms node) of
        None \<Rightarrow> (Inl Aborted, node)
      | Some elapsed \<Rightarrow>
          if elapsed < cfg_round_timeout_ms (cn_config node) then (Inr progress_default, node)
          else case u64_add (cn_round node) 1 of
                 None \<Rightarrow> (Inl Aborted, node)
               | Some target \<Rightarrow> advance_round C node target now_ms)"

section \<open>Inbound messages\<close>

definition observe_proposal ::
  "crypto_lib \<Rightarrow> consensus_node \<Rightarrow> agent_id \<Rightarrow> u64 \<Rightarrow> consensus_proposal \<Rightarrow> i64 \<Rightarrow> node_result" where
  "observe_proposal C node from round proposal now_ms =
     (case record_proposal C node from round proposal of
        (Inl e, node) \<Rightarrow> (Inl e, node)
      | (Inr _, node) \<Rightarrow>
          if round \<in> cn_emitted_prevotes node then (Inr progress_default, node)
          else emit_prevote C node round (Some (prop_id proposal)) now_ms)"

definition observe_prevote ::
  "crypto_lib \<Rightarrow> consensus_node \<Rightarrow> agent_id \<Rightarrow> u64 \<Rightarrow> string option \<Rightarrow> i64 \<Rightarrow> node_result" where
  "observe_prevote C node from round proposal_id now_ms =
     (case cast_prevote node round from proposal_id of
        (Inl e, node) \<Rightarrow> (Inl e, node)
      | (Inr votes, node) \<Rightarrow>
          if cc_threshold (cn_committee node) \<le> votes \<and> round \<notin> cn_emitted_precommits node
          then emit_precommit C node round proposal_id now_ms
          else (Inr progress_default, node))"

definition observe_precommit ::
  "crypto_lib \<Rightarrow> consensus_node \<Rightarrow> agent_id \<Rightarrow> u64 \<Rightarrow> string option \<Rightarrow> i64 \<Rightarrow> node_result" where
  "observe_precommit C node from round proposal_id now_ms =
     (case cast_precommit node round from proposal_id of
        (Inl e, node) \<Rightarrow> (Inl e, node)
      | (Inr votes, node) \<Rightarrow>
          if cc_threshold (cn_committee node) \<le> votes then commit C node round proposal_id now_ms
          else (Inr progress_default, node))"

definition dispatch_body ::
  "crypto_lib \<Rightarrow> consensus_node \<Rightarrow> consensus_message \<Rightarrow> i64 \<Rightarrow> node_result" where
  "dispatch_body C node message now_ms =
     (case msg_body message of
        Proposal proposal \<Rightarrow>
          observe_proposal C node (msg_from message) (msg_round message) proposal now_ms
      | Prevote proposal_id \<Rightarrow>
          observe_prevote C node (msg_from message) (msg_round message) proposal_id now_ms
      | Precommit proposal_id \<Rightarrow>
          observe_precommit C node (msg_from message) (msg_round message) proposal_id now_ms)"

definition observe_message ::
  "crypto_lib \<Rightarrow> consensus_node \<Rightarrow> consensus_message \<Rightarrow> i64 \<Rightarrow> node_result" where
  "observe_message C node message now_ms =
     (if \<not> committee_contains (cn_committee node) (msg_from message) then
        (Inl (InvalidMessage (''message sender `'' @ agent_str (msg_from message)
           @ ''` is not a committee member'')), node)
      else if msg_height message < cn_height node then (Inr progress_default, node)
      else if cn_height node < msg_height message then
        (Inl (InvalidMessage (''message height '' @ dec_nat (msg_height message)
           @ '' is ahead of local height '' @ dec_nat (cn_height node))), node)
      else if msg_previous_commit_hash message \<noteq> cn_previous_commit_hash node then
        (Inr progress_default, node)
      else if msg_round message < cn_round node then (Inr progress_default, node)
      else if cn_round node < msg_round message then
        (case advance_round C node (msg_round message) now_ms of
           (Inl e, node) \<Rightarrow> (Inl e, node)
         | (Inr _, node) \<Rightarrow> dispatch_body C node message now_ms)
      else dispatch_body C node message now_ms)"

definition handle_envelope ::
  "crypto_lib \<Rightarrow> consensus_node \<Rightarrow> consensus_envelope \<Rightarrow> i64 \<Rightarrow> node_result" where
  "handle_envelope C node envelope now_ms =
     (let expected_subject =
            round_subject (cfg_subject_layout (cn_config node)) (cn_committee node)
              (msg_height (env_message envelope)) (msg_round (env_message envelope))
      in if env_subject envelope \<noteq> expected_subject then
           (Inl (InvalidMessage (''message subject `'' @ env_subject envelope
              @ ''` did not match expected round subject `'' @ expected_subject @ ''`'')), node)
         else observe_message C node (env_message envelope) now_ms)"

section \<open>Exclusion\<close>

definition is_excluded :: "consensus_node \<Rightarrow> u64 \<Rightarrow> u64 \<Rightarrow> agent_id \<Rightarrow> bool" where
  "is_excluded node height round agent_id =
     (case cn_excluded_members node (height, round) of
        None \<Rightarrow> False | Some members \<Rightarrow> agent_id \<in> members)"

definition drop_sender_round_contributions ::
  "crypto_lib \<Rightarrow> consensus_node \<Rightarrow> u64 \<Rightarrow> agent_id \<Rightarrow> consensus_node" where
  "drop_sender_round_contributions C node round agent_id =
     (let node1 = (if proposer_for C (cn_committee node) (cn_previous_commit_hash node) round
                       = Inr agent_id
                   then node\<lparr>cn_proposals := (cn_proposals node)(round := None)\<rparr> else node);
          node2 = (case cn_prevotes node1 round of
                     None \<Rightarrow> node1
                   | Some ledger \<Rightarrow>
                       node1\<lparr>cn_prevotes := (cn_prevotes node1)(round \<mapsto> remove_voter ledger agent_id)\<rparr>);
          node3 = (case cn_precommits node2 round of
                     None \<Rightarrow> node2
                   | Some ledger \<Rightarrow>
                       node2\<lparr>cn_precommits := (cn_precommits node2)(round \<mapsto> remove_voter ledger agent_id)\<rparr>)
      in node3\<lparr>cn_seen_signed_messages :=
                 (\<lambda>key. if smk_height key = cn_height node3 \<and> smk_round key = round
                            \<and> smk_from key = agent_id
                        then None else cn_seen_signed_messages node3 key)\<rparr>)"

definition exclusion_id_json ::
  "u64 \<Rightarrow> u64 \<Rightarrow> agent_id \<Rightarrow> exclusion_reason \<Rightarrow> string list \<Rightarrow> agent_id \<Rightarrow> i64 \<Rightarrow> json" where
  "exclusion_id_json height round excluded reason evidence issued_by issued_at_ms =
     JObject [(''height'', json_nat height), (''round'', json_nat round),
              (''excluded_agent_id'', agent_id_json excluded), (''reason'', reason_json reason),
              (''evidence_hashes'', JArray (map JString evidence)),
              (''issued_by'', agent_id_json issued_by), (''issued_at_ms'', json_int issued_at_ms)]"

definition issue_exclusion_receipt ::
  "crypto_lib \<Rightarrow> consensus_node \<Rightarrow> u64 \<Rightarrow> u64 \<Rightarrow> signed_message_kind \<Rightarrow> agent_id \<Rightarrow>
   exclusion_reason \<Rightarrow> string list \<Rightarrow> bytes \<Rightarrow> i64 \<Rightarrow> consensus_error + exclusion_receipt" where
  "issue_exclusion_receipt C node height round message_kind excluded reason evidence
     signing_key issued_at_ms =
     (case canonical_bytes C (exclusion_id_json height round excluded reason evidence
             (cn_local_agent_id node) issued_at_ms) of
        Inl e \<Rightarrow> Inl e
      | Inr id_bytes \<Rightarrow>
         let payload =
           \<lparr>er_schema_version = CONSENSUS_RECEIPT_SCHEMA_VERSION,
            er_receipt_id = sha256_hex C id_bytes,
            er_committee_id = cc_committee_id (cn_committee node),
            er_height = height, er_round = round, er_excluded_agent_id = excluded,
            er_message_kind = message_kind, er_reason = reason,
            er_evidence_hashes = evidence, er_issued_by = cn_local_agent_id node,
            er_issued_at_ms = issued_at_ms\<rparr>
         in case canonical_bytes C (exclusion_payload_json payload) of
              Inl e \<Rightarrow> Inl e
            | Inr payload_bytes \<Rightarrow>
                Inr \<lparr>ex_payload = payload,
                     ex_signature = make_detached_signature C signing_key payload_bytes\<rparr>)"

definition exclude_sender ::
  "crypto_lib \<Rightarrow> consensus_node \<Rightarrow> u64 \<Rightarrow> u64 \<Rightarrow> signed_message_kind \<Rightarrow> agent_id \<Rightarrow>
   exclusion_reason \<Rightarrow> string list \<Rightarrow> i64 \<Rightarrow> node_result" where
  "exclude_sender C node height round message_kind agent_id reason evidence_hashes now_ms =
     (let members = (case cn_excluded_members node (height, round) of None \<Rightarrow> {} | Some S \<Rightarrow> S);
          node = node\<lparr>cn_excluded_members :=
                        (cn_excluded_members node)((height, round) \<mapsto> insert agent_id members)\<rparr>;
          node = drop_sender_round_contributions C node round agent_id
      in case cn_local_signing_key node of
           None \<Rightarrow> (Inr progress_default, node)
         | Some signing_key \<Rightarrow>
             (case issue_exclusion_receipt C node height round message_kind agent_id reason
                     evidence_hashes signing_key now_ms of
                Inl e \<Rightarrow> (Inl e, node)
              | Inr receipt \<Rightarrow> (Inr (progress_default\<lparr>cp_exclusions := [receipt]\<rparr>), node)))"

definition handle_signed_envelope ::
  "crypto_lib \<Rightarrow> consensus_node \<Rightarrow> consensus_signed_envelope \<Rightarrow> i64 \<Rightarrow> node_result" where
  "handle_signed_envelope C node envelope now_ms =
     (let key = key_from_message (env_message (se_envelope envelope)) in
      if is_excluded node (smk_height key) (smk_round key) (smk_from key) then
        (Inr progress_default, node)
      else case cn_seen_signed_messages node key of
        Some previous \<Rightarrow>
          if previous = envelope then (Inr progress_default, node)
          else (case signed_envelope_hash C previous of Inl e \<Rightarrow> (Inl e, node)
            | Inr h1 \<Rightarrow> (case signed_envelope_hash C envelope of Inl e \<Rightarrow> (Inl e, node)
            | Inr h2 \<Rightarrow>
                exclude_sender C node (smk_height key) (smk_round key) (smk_kind key) (smk_from key)
                  ExclEquivocation [h1, h2] now_ms))
      | None \<Rightarrow>
          (case signed_envelope_verify C envelope of
             Inl _ \<Rightarrow>
               (case signed_envelope_hash C envelope of Inl e \<Rightarrow> (Inl e, node)
                | Inr h \<Rightarrow>
                    exclude_sender C node (smk_height key) (smk_round key) (smk_kind key)
                      (smk_from key) ExclInvalidSignature [h] now_ms)
           | Inr _ \<Rightarrow>
               handle_envelope C
                 (node\<lparr>cn_seen_signed_messages := (cn_seen_signed_messages node)(key \<mapsto> envelope)\<rparr>)
                 (se_envelope envelope) now_ms))"

end
