(* ===== verification/Node_Contract.thy ===== *)
theory Node_Contract
  imports Consensus_Node
begin

text \<open>
  What every operation of the consensus node keeps. The operations are compositions of a
  dozen elementary updates (enter a round, store a proposal, count a vote, spend the own
  vote, commit, exclude a sender). The locale \<open>node_contract\<close> states what a relation
  between a node, the progress it reports and the node it leaves behind has to satisfy on
  these updates at one reading of the clock; its lemmas lift the relation to every
  operation, error returns included, and \<open>node_run_contract\<close> lifts it to every sequence of
  inputs. The interpretations give the invariant of the node, the
  single vote per height and round, and the soundness of commits.
\<close>

section \<open>Inputs and runs\<close>

text \<open>The public operations a driver calls on a node.\<close>

datatype node_input =
    QueueProposal consensus_proposal i64
  | Tick i64
  | HandleEnvelope consensus_envelope i64
  | HandleSigned consensus_signed_envelope i64

fun node_apply :: "crypto_lib \<Rightarrow> consensus_node \<Rightarrow> node_input \<Rightarrow> node_result" where
  "node_apply C node (QueueProposal proposal now_ms) = queue_proposal C node proposal now_ms"
| "node_apply C node (Tick now_ms) = tick C node now_ms"
| "node_apply C node (HandleEnvelope envelope now_ms) = handle_envelope C node envelope now_ms"
| "node_apply C node (HandleSigned envelope now_ms) = handle_signed_envelope C node envelope now_ms"

fun input_time :: "node_input \<Rightarrow> i64" where
  "input_time (QueueProposal _ now_ms) = now_ms"
| "input_time (Tick now_ms) = now_ms"
| "input_time (HandleEnvelope _ now_ms) = now_ms"
| "input_time (HandleSigned _ now_ms) = now_ms"

text \<open>What the caller gets to see of a result: an error carries no progress.\<close>

definition produced :: "consensus_error + consensus_progress \<Rightarrow> consensus_progress" where
  "produced res = (case res of Inl _ \<Rightarrow> progress_default | Inr p \<Rightarrow> p)"

fun node_run ::
  "crypto_lib \<Rightarrow> consensus_node \<Rightarrow> node_input list \<Rightarrow> consensus_progress \<times> consensus_node" where
  "node_run C node [] = (progress_default, node)"
| "node_run C node (i # inputs) =
     (let (res, node) = node_apply C node i;
          (progress, node) = node_run C node inputs
      in (progress_extend (produced res) progress, node))"

lemma produced_simps [simp]:
  "produced (Inl e) = progress_default" "produced (Inr p) = p"
  by (simp_all add: produced_def)

lemma progress_default_simps [simp]:
  "cp_outbound progress_default = []" "cp_commits progress_default = []"
  "cp_exclusions progress_default = []" "\<not> cp_round_advanced progress_default"
  by (simp_all add: progress_default_def)

lemma progress_extend_simps [simp]:
  "cp_outbound (progress_extend p q) = cp_outbound p @ cp_outbound q"
  "cp_commits (progress_extend p q) = cp_commits p @ cp_commits q"
  "cp_exclusions (progress_extend p q) = cp_exclusions p @ cp_exclusions q"
  by (simp_all add: progress_extend_def)

lemma progress_extend_default [simp]: "progress_extend p progress_default = p"
  by (cases p) (simp add: progress_extend_def progress_default_def)

lemma push_outbound_simps [simp]:
  "cp_outbound (push_outbound p e) = cp_outbound p @ [e]"
  "cp_commits (push_outbound p e) = cp_commits p"
  by (simp_all add: push_outbound_def)

section \<open>The contract\<close>

locale node_contract =
  fixes C :: crypto_lib and now :: i64
    and R :: "consensus_node \<Rightarrow> consensus_progress \<Rightarrow> consensus_node \<Rightarrow> bool"
  assumes keep: "R n progress_default n"
    and compose: "R n p n1 \<Longrightarrow> R n1 q n2 \<Longrightarrow> R n (progress_extend p q) n2"
    and forget: "R n p n' \<Longrightarrow> R n progress_default n'"
    and same_committee: "R n p n' \<Longrightarrow> cn_committee n' = cn_committee n"
    and enter_round: "cn_round n < r \<Longrightarrow>
      R n (progress_default\<lparr>cp_round_advanced := True\<rparr>)
        (n\<lparr>cn_round := r, cn_step := StepPropose, cn_round_started_at_ms := now\<rparr>)"
    and set_pending: "R n progress_default (n\<lparr>cn_pending_local_proposal := Some prop\<rparr>)"
    and note_proposal: "cn_proposals n r = None \<Longrightarrow>
      R n progress_default (n\<lparr>cn_proposals := (cn_proposals n)(r \<mapsto> prop)\<rparr>)"
    and announce: "R n (push_outbound progress_default (build_envelope n r (Proposal prop) now)) n"
    and hear_prevote: "committee_contains (cn_committee n) a \<Longrightarrow>
      cast_prevote n r a v = (w, n') \<Longrightarrow> R n progress_default n'"
    and hear_precommit: "committee_contains (cn_committee n) a \<Longrightarrow>
      cast_precommit n r a v = (w, n') \<Longrightarrow> R n progress_default n'"
    and own_prevote: "r \<notin> cn_emitted_prevotes n \<Longrightarrow>
      cast_prevote (n\<lparr>cn_emitted_prevotes := insert r (cn_emitted_prevotes n),
                      cn_step := StepPrevote\<rparr>) r (cn_local_agent_id n) v = (w, n') \<Longrightarrow>
      R n (push_outbound progress_default (build_envelope n' r (Prevote v) now)) n'"
    and own_precommit: "r \<notin> cn_emitted_precommits n \<Longrightarrow>
      cast_precommit (n\<lparr>cn_emitted_precommits := insert r (cn_emitted_precommits n),
                        cn_step := StepPrecommit\<rparr>) r (cn_local_agent_id n) v = (w, n') \<Longrightarrow>
      R n (push_outbound progress_default (build_envelope n' r (Precommit v) now)) n'"
    and committed: "commit C n r v now = (res, n') \<Longrightarrow> R n (produced res) n'"
    and remember: "R n progress_default (n\<lparr>cn_seen_signed_messages := seen\<rparr>)"
    and exclude: "excluded = (cn_excluded_members n)((h, r) \<mapsto> insert a
        (case cn_excluded_members n (h, r) of None \<Rightarrow> {} | Some S \<Rightarrow> S)) \<Longrightarrow>
      R n (progress_default\<lparr>cp_exclusions := receipts\<rparr>)
      (drop_sender_round_contributions C (n\<lparr>cn_excluded_members := excluded\<rparr>) r a)"
begin

lemma chain:
  assumes first: "R n p n1" and second: "\<And>res n2. op = (res, n2) \<Longrightarrow> R n1 (produced res) n2"
    and result: "(case op of (Inl e, m) \<Rightarrow> (Inl e, m)
                  | (Inr follow_up, m) \<Rightarrow> (Inr (progress_extend p follow_up), m)) = (res, n')"
  shows "R n (produced res) n'"
proof (cases op)
  case (Pair r m)
  with second have "R n1 (produced r) m" .
  with first have "R n (progress_extend p (produced r)) m" by (rule compose)
  with Pair result show ?thesis by (auto split: sum.splits intro: forget)
qed

lemma after:
  "R n progress_default n1 \<Longrightarrow> R n1 p n' \<Longrightarrow> R n p n'"
  using compose[of n progress_default n1 p n'] 
  by (cases p) (simp add: progress_extend_def progress_default_def)

lemma emit_precommit_holds:
  assumes "emit_precommit C n r v now = (res, n')"
  shows "R n (produced res) n'"
proof (cases "r \<in> cn_emitted_precommits n")
  case True
  with assms keep show ?thesis by (auto simp: emit_precommit_def)
next
  case False
  let ?m = "n\<lparr>cn_emitted_precommits := insert r (cn_emitted_precommits n), cn_step := StepPrecommit\<rparr>"
  obtain w n1 where w: "cast_precommit ?m r (cn_local_agent_id n) v = (w, n1)" by fastforce
  note own = own_precommit[OF False w]
  show ?thesis
  proof (cases w)
    case (Inl e)
    with assms False w forget[OF own] show ?thesis by (auto simp: emit_precommit_def)
  next
    case (Inr k)
    with assms False w own chain[OF own committed] show ?thesis
      by (simp add: emit_precommit_def Let_def split: if_split_asm)
         (metis produced_simps(2))
  qed
qed

lemma emit_prevote_holds:
  assumes "emit_prevote C n r v now = (res, n')"
  shows "R n (produced res) n'"
proof (cases "r \<in> cn_emitted_prevotes n")
  case True
  with assms keep show ?thesis by (auto simp: emit_prevote_def)
next
  case False
  let ?m = "n\<lparr>cn_emitted_prevotes := insert r (cn_emitted_prevotes n), cn_step := StepPrevote\<rparr>"
  obtain w n1 where w: "cast_prevote ?m r (cn_local_agent_id n) v = (w, n1)" by fastforce
  note own = own_prevote[OF False w]
  show ?thesis
  proof (cases w)
    case (Inl e)
    with assms False w forget[OF own] show ?thesis by (auto simp: emit_prevote_def)
  next
    case (Inr k)
    with assms False w own chain[OF own emit_precommit_holds] show ?thesis
      by (simp add: emit_prevote_def Let_def split: if_split_asm)
         (metis produced_simps(2))
  qed
qed

lemma record_proposal_holds:
  "record_proposal C n a r prop = (w, n') \<Longrightarrow> R n progress_default n'"
  by (auto simp: record_proposal_def intro: keep note_proposal
      split: sum.splits if_splits option.splits)

lemma observe_local_proposal_holds:
  assumes "observe_local_proposal C n r prop now = (res, n')"
  shows "R n (produced res) n'"
proof -
  obtain w n1 where w: "record_proposal C n (cn_local_agent_id n) r prop = (w, n1)" by fastforce
  from record_proposal_holds[OF w] announce
  have "R n (push_outbound progress_default (build_envelope n1 r (Proposal prop) now)) n1"
    by (rule after)
  from chain[OF this emit_prevote_holds] record_proposal_holds[OF w] assms w show ?thesis
    by (auto simp: observe_local_proposal_def split: sum.splits)
qed

lemma emit_proposal_if_leader_holds:
  "emit_proposal_if_leader C n now = (res, n') \<Longrightarrow> R n (produced res) n'"
  by (auto simp: emit_proposal_if_leader_def intro: keep observe_local_proposal_holds
      split: sum.splits if_splits option.splits)

lemma advance_round_holds:
  assumes "advance_round C n r now = (res, n')"
  shows "R n (produced res) n'"
proof (cases "r \<le> cn_round n")
  case True
  with assms keep show ?thesis by (auto simp: advance_round_def)
next
  case False
  then have enter: "cn_round n < r" by simp
  from chain[OF enter_round[OF enter] emit_proposal_if_leader_holds] assms False
  show ?thesis by (simp add: advance_round_def)
qed

lemma observe_proposal_holds:
  assumes "observe_proposal C n a r prop now = (res, n')"
  shows "R n (produced res) n'"
proof -
  obtain w n1 where w: "record_proposal C n a r prop = (w, n1)" by fastforce
  from assms w record_proposal_holds[OF w] show ?thesis
    by (auto simp: observe_proposal_def intro: after emit_prevote_holds split: sum.splits if_splits)
qed

lemma observe_prevote_holds:
  assumes "observe_prevote C n a r v now = (res, n')" "committee_contains (cn_committee n) a"
  shows "R n (produced res) n'"
proof -
  obtain w n1 where w: "cast_prevote n r a v = (w, n1)" by fastforce
  from assms w hear_prevote[OF assms(2) w] show ?thesis
    by (auto simp: observe_prevote_def intro: after emit_precommit_holds split: sum.splits if_splits)
qed

lemma observe_precommit_holds:
  assumes "observe_precommit C n a r v now = (res, n')" "committee_contains (cn_committee n) a"
  shows "R n (produced res) n'"
proof -
  obtain w n1 where w: "cast_precommit n r a v = (w, n1)" by fastforce
  from assms w hear_precommit[OF assms(2) w] show ?thesis
    by (auto simp: observe_precommit_def intro: after committed split: sum.splits if_splits)
qed

lemma dispatch_body_holds:
  "dispatch_body C n m now = (res, n') \<Longrightarrow> committee_contains (cn_committee n) (msg_from m) \<Longrightarrow>
   R n (produced res) n'"
  by (auto simp: dispatch_body_def split: consensus_message_body.splits
      intro: observe_proposal_holds observe_prevote_holds observe_precommit_holds)

lemma observe_message_holds:
  assumes "observe_message C n m now = (res, n')"
  shows "R n (produced res) n'"
proof -
  obtain w n1 where w: "advance_round C n (msg_round m) now = (w, n1)" by fastforce
  from advance_round_holds[OF w] have n1: "R n progress_default n1" by (rule forget)
  from same_committee[OF n1] have same: "cn_committee n1 = cn_committee n" .
  have "R n (produced res) n'" if "dispatch_body C n1 m now = (res, n')"
    "committee_contains (cn_committee n) (msg_from m)"
    using after[OF n1 dispatch_body_holds] that same by simp
  with assms w n1 show ?thesis
    by (auto simp: observe_message_def intro: keep dispatch_body_holds split: if_splits sum.splits)
qed

lemma handle_envelope_holds:
  "handle_envelope C n e now = (res, n') \<Longrightarrow> R n (produced res) n'"
  by (auto simp: handle_envelope_def Let_def intro: keep observe_message_holds split: if_splits)

lemma exclude_sender_holds:
  assumes "exclude_sender C n h r k a reason ev now = (res, n')"
  shows "R n (produced res) n'"
proof -
  note ex = exclude[OF refl, where n = n and h = h and r = r and a = a]
  from assms ex forget[OF ex] show ?thesis
    by (auto simp: exclude_sender_def Let_def split: option.splits sum.splits)
qed

lemma handle_signed_envelope_holds:
  "handle_signed_envelope C n e now = (res, n') \<Longrightarrow> R n (produced res) n'"
  by (auto simp: handle_signed_envelope_def Let_def
      intro: keep exclude_sender_holds after[OF remember] handle_envelope_holds
      split: if_splits option.splits sum.splits)

lemma queue_proposal_holds:
  "queue_proposal C n prop now = (res, n') \<Longrightarrow> R n (produced res) n'"
  by (auto simp: queue_proposal_def intro: after[OF set_pending] emit_proposal_if_leader_holds)

lemma tick_holds: "tick C n now = (res, n') \<Longrightarrow> R n (produced res) n'"
  by (auto simp: tick_def intro: keep advance_round_holds split: option.splits if_splits)

lemma apply_holds:
  "node_apply C n i = (res, n') \<Longrightarrow> input_time i = now \<Longrightarrow> R n (produced res) n'"
  by (cases i) (auto intro: queue_proposal_holds tick_holds handle_envelope_holds
      handle_signed_envelope_holds)

end

text \<open>A relation that satisfies the contract at every reading of the clock holds over runs.\<close>

locale node_run_contract =
  fixes C :: crypto_lib
    and R :: "consensus_node \<Rightarrow> consensus_progress \<Rightarrow> consensus_node \<Rightarrow> bool"
  assumes contract: "node_contract C now R"
begin

lemma run_holds: "node_run C n inputs = (p, n') \<Longrightarrow> R n p n'"
proof (induction inputs arbitrary: n p n')
  case Nil
  with node_contract.keep[OF contract] show ?case by simp
next
  case (Cons i inputs)
  obtain res n1 where first: "node_apply C n i = (res, n1)" by fastforce
  obtain q n2 where rest: "node_run C n1 inputs = (q, n2)" by fastforce
  from node_contract.compose[OF contract node_contract.apply_holds[OF contract first refl]
      Cons.IH[OF rest]] Cons.prems first rest
  show ?case by simp
qed

end

end
