(* ===== verification/Node_Safety.thy ===== *)
theory Node_Safety
  imports Node_Contract
begin

text \<open>
  The safety properties of the consensus node, as interpretations of the contract: the
  invariant of its state, at most one prevote and one precommit per height and round, and
  commits that are backed by two quorums and linked by their hashes.
\<close>

section \<open>The invariant\<close>

definition ledgers_ok :: "agent_id set \<Rightarrow> (u64 \<rightharpoonup> vote_ledger) \<Rightarrow> bool" where
  "ledgers_ok M ledgers \<longleftrightarrow>
     (\<forall>r l. ledgers r = Some l \<longrightarrow> ledger_ok l \<and> dom (vl_by_agent l) \<subseteq> M)"

definition node_ok :: "consensus_node \<Rightarrow> bool" where
  "node_ok node \<longleftrightarrow>
     committee_ok (cn_committee node) \<and>
     committee_contains (cn_committee node) (cn_local_agent_id node) \<and>
     0 < cfg_round_timeout_ms (cn_config node) \<and>
     1 \<le> cn_height node \<and> cn_height node \<le> u64_max \<and>
     ledgers_ok (set (cc_members (cn_committee node))) (cn_prevotes node) \<and>
     ledgers_ok (set (cc_members (cn_committee node))) (cn_precommits node)"

definition same_identity :: "consensus_node \<Rightarrow> consensus_node \<Rightarrow> bool" where
  "same_identity n n' \<longleftrightarrow>
     cn_local_agent_id n' = cn_local_agent_id n \<and> cn_local_signing_key n' = cn_local_signing_key n
     \<and> cn_committee n' = cn_committee n \<and> cn_config n' = cn_config n"

lemma ledgers_ok_empty [simp]: "ledgers_ok M Map.empty"
  by (simp add: ledgers_ok_def)

lemma ledger_at_ok:
  "ledgers_ok M ledgers \<Longrightarrow>
   ledger_ok (ledger_at ledgers r) \<and> dom (vl_by_agent (ledger_at ledgers r)) \<subseteq> M"
  using vl.ok_empty vl.vote_of_empty
  by (auto simp: ledgers_ok_def ledger_at_def split: option.splits)

lemma ledgers_ok_record:
  assumes "ledgers_ok M ledgers" "a \<in> M" "record_vote (ledger_at ledgers r) a v = (w, l)"
  shows "ledgers_ok M (ledgers(r \<mapsto> l))"
proof -
  from ledger_at_ok[OF assms(1), of r] have ok: "ledger_ok (ledger_at ledgers r)"
    and sub: "dom (vl_by_agent (ledger_at ledgers r)) \<subseteq> M" by auto
  from vl.ok_record[OF ok assms(3)] vl.voters_record[OF ok assms(3)] sub assms(1,2)
  show ?thesis by (auto simp: ledgers_ok_def)
qed

lemma ledgers_ok_remove:
  assumes "ledgers_ok M ledgers" "ledgers r = Some l"
  shows "ledgers_ok M (ledgers(r \<mapsto> remove_voter l a))"
  using assms vl.withdraw_is[of l a] by (auto simp: ledgers_ok_def)

lemma tally_at_bound:
  assumes "node_ok n"
  shows "tally_at (cn_prevotes n) r v \<le> length (cc_members (cn_committee n))"
    and "tally_at (cn_precommits n) r v \<le> length (cc_members (cn_committee n))"
proof -
  have bound: "tally_at ledgers r v \<le> length (cc_members (cn_committee n))"
    if "ledgers_ok (set (cc_members (cn_committee n))) ledgers" for ledgers
    using that vl.count_le_members[of _ "set (cc_members (cn_committee n))" v]
      assms card_length[of "cc_members (cn_committee n)"]
    by (fastforce simp: tally_at_def ledgers_ok_def split: option.splits)
  show "tally_at (cn_prevotes n) r v \<le> length (cc_members (cn_committee n))"
    and "tally_at (cn_precommits n) r v \<le> length (cc_members (cn_committee n))"
    using assms by (auto simp: node_ok_def intro: bound)
qed

text \<open>The elementary updates, on the fields the invariant reads.\<close>

lemma cast_prevote_fields:
  assumes "cast_prevote n r a v = (w, n')"
  obtains l where "record_vote (ledger_at (cn_prevotes n) r) a v = (w, l)"
    "n' = n\<lparr>cn_prevotes := (cn_prevotes n)(r \<mapsto> l)\<rparr>"
  using assms by (auto simp: cast_prevote_def split: prod.splits)

lemma cast_precommit_fields:
  assumes "cast_precommit n r a v = (w, n')"
  obtains l where "record_vote (ledger_at (cn_precommits n) r) a v = (w, l)"
    "n' = n\<lparr>cn_precommits := (cn_precommits n)(r \<mapsto> l)\<rparr>"
  using assms by (auto simp: cast_precommit_def split: prod.splits)

lemma node_ok_cast_prevote:
  assumes "cast_prevote n r a v = (w, n')" "node_ok n" "committee_contains (cn_committee n) a"
  shows "node_ok n'"
  using assms(1)
proof (rule cast_prevote_fields)
  fix l assume "record_vote (ledger_at (cn_prevotes n) r) a v = (w, l)"
    "n' = n\<lparr>cn_prevotes := (cn_prevotes n)(r \<mapsto> l)\<rparr>"
  with assms show ?thesis
    by (auto simp: node_ok_def committee_contains_def intro: ledgers_ok_record)
qed

lemma node_ok_cast_precommit:
  assumes "cast_precommit n r a v = (w, n')" "node_ok n" "committee_contains (cn_committee n) a"
  shows "node_ok n'"
  using assms(1)
proof (rule cast_precommit_fields)
  fix l assume "record_vote (ledger_at (cn_precommits n) r) a v = (w, l)"
    "n' = n\<lparr>cn_precommits := (cn_precommits n)(r \<mapsto> l)\<rparr>"
  with assms show ?thesis
    by (auto simp: node_ok_def committee_contains_def intro: ledgers_ok_record)
qed

lemma drop_sender_fields:
  "same_identity n (drop_sender_round_contributions C n r a) \<and>
   cn_height (drop_sender_round_contributions C n r a) = cn_height n \<and>
   cn_previous_commit_hash (drop_sender_round_contributions C n r a) = cn_previous_commit_hash n \<and>
   cn_emitted_prevotes (drop_sender_round_contributions C n r a) = cn_emitted_prevotes n \<and>
   cn_emitted_precommits (drop_sender_round_contributions C n r a) = cn_emitted_precommits n \<and>
   cn_excluded_members (drop_sender_round_contributions C n r a) = cn_excluded_members n"
  by (auto simp: drop_sender_round_contributions_def Let_def same_identity_def split: option.splits)

lemma drop_sender_ledgers:
  "cn_prevotes (drop_sender_round_contributions C n r a) =
     (case cn_prevotes n r of None \<Rightarrow> cn_prevotes n
      | Some l \<Rightarrow> (cn_prevotes n)(r \<mapsto> remove_voter l a))"
  "cn_precommits (drop_sender_round_contributions C n r a) =
     (case cn_precommits n r of None \<Rightarrow> cn_precommits n
      | Some l \<Rightarrow> (cn_precommits n)(r \<mapsto> remove_voter l a))"
  by (auto simp: drop_sender_round_contributions_def Let_def split: option.splits)

lemma node_ok_drop_sender:
  "node_ok n \<Longrightarrow> node_ok (drop_sender_round_contributions C n r a)"
  using drop_sender_fields[of n C r a]
  by (auto simp: node_ok_def same_identity_def drop_sender_ledgers
      intro: ledgers_ok_remove split: option.splits)

text \<open>A commit either changes nothing or is backed by both quorums and moves on.\<close>

definition commit_digest ::
  "crypto_lib \<Rightarrow> string \<Rightarrow> consensus_commit \<Rightarrow> consensus_error + string" where
  "commit_digest C previous c =
     (case canonical_bytes C (commit_json (com_height c) (com_round c) previous (com_proposal c)) of
        Inl e \<Rightarrow> Inl e | Inr bs \<Rightarrow> Inr (sha256_hex C bs))"

definition quorum_backed :: "consensus_committee \<Rightarrow> consensus_commit \<Rightarrow> bool" where
  "quorum_backed committee c \<longleftrightarrow>
     com_committee_id c = cc_committee_id committee \<and>
     cc_threshold committee \<le> com_prevote_tally c \<and>
     com_prevote_tally c \<le> length (cc_members committee) \<and>
     cc_threshold committee \<le> com_precommit_tally c \<and>
     com_precommit_tally c \<le> length (cc_members committee)"

lemma commit_cases:
  assumes "commit C n r v now = (res, n')"
  obtains (unchanged) "n' = n" "cp_outbound (produced res) = []" "cp_commits (produced res) = []"
    "produced res = progress_default"
  | (commits) c where "res = Inr (progress_default\<lparr>cp_commits := [c]\<rparr>)"
    "v = Some (prop_id (com_proposal c))" "cn_proposals n r = Some (com_proposal c)"
    "com_height c = cn_height n" "com_round c = r"
    "com_committee_id c = cc_committee_id (cn_committee n)"
    "com_prevote_tally c = tally_at (cn_prevotes n) r v"
    "com_precommit_tally c = tally_at (cn_precommits n) r v"
    "cc_threshold (cn_committee n) \<le> com_prevote_tally c"
    "cc_threshold (cn_committee n) \<le> com_precommit_tally c"
    "commit_digest C (cn_previous_commit_hash n) c = Inr (com_commit_hash c)"
    "same_identity n n'" "cn_height n' = u64_saturating_add (cn_height n) 1"
    "cn_previous_commit_hash n' = com_commit_hash c" "cn_round n' = 0"
    "cn_prevotes n' = Map.empty" "cn_precommits n' = Map.empty" "cn_proposals n' = Map.empty"
    "cn_emitted_prevotes n' = {}" "cn_emitted_precommits n' = {}"
    "cn_excluded_members n' = cn_excluded_members n"
proof (cases "cp_commits (produced res) = []")
  case True
  then have "n' = n \<and> produced res = progress_default"
    using assms by (auto simp: commit_def Let_def split: option.splits if_splits sum.splits)
  then show thesis by (intro unchanged) auto
next
  case False
  then obtain c where c: "cp_commits (produced res) = [c]"
    using assms by (auto simp: commit_def Let_def split: option.splits if_splits sum.splits)
  show thesis
    by (rule commits[of c])
       (use assms c in \<open>auto simp: commit_def Let_def commit_digest_def same_identity_def
          split: option.splits if_splits sum.splits\<close>)
qed

lemma node_ok_commit:
  assumes "commit C n r v now = (res, n')" "node_ok n"
  shows "node_ok n'"
  using assms(1)
proof (cases rule: commit_cases)
  case (commits c)
  with assms(2) show ?thesis
    by (auto simp: node_ok_def same_identity_def u64_saturating_add_def u64_max_def)
qed (use assms(2) in simp)

definition keeps_ok :: "consensus_node \<Rightarrow> consensus_progress \<Rightarrow> consensus_node \<Rightarrow> bool" where
  "keeps_ok n p n' \<longleftrightarrow> same_identity n n' \<and> (node_ok n \<longrightarrow> node_ok n')"

lemma same_identity_cast:
  "cast_prevote n r a v = (w, n') \<Longrightarrow> same_identity n n'"
  "cast_precommit n r a v = (w, n') \<Longrightarrow> same_identity n n'"
  by (auto simp: cast_prevote_def cast_precommit_def same_identity_def split: prod.splits)

lemma same_identity_commit: "commit C n r v now = (res, n') \<Longrightarrow> same_identity n n'"
  by (erule commit_cases) (auto simp: same_identity_def)

lemma node_ok_bookkeeping [simp]:
  "node_ok (n\<lparr>cn_round := r\<rparr>) = node_ok n" "node_ok (n\<lparr>cn_step := s\<rparr>) = node_ok n"
  "node_ok (n\<lparr>cn_round_started_at_ms := t\<rparr>) = node_ok n"
  "node_ok (n\<lparr>cn_pending_local_proposal := q\<rparr>) = node_ok n"
  "node_ok (n\<lparr>cn_proposals := ps\<rparr>) = node_ok n"
  "node_ok (n\<lparr>cn_emitted_prevotes := E\<rparr>) = node_ok n"
  "node_ok (n\<lparr>cn_emitted_precommits := E\<rparr>) = node_ok n"
  "node_ok (n\<lparr>cn_seen_signed_messages := m\<rparr>) = node_ok n"
  "node_ok (n\<lparr>cn_excluded_members := X\<rparr>) = node_ok n"
  by (simp_all add: node_ok_def)

lemma node_ok_local: "node_ok n \<Longrightarrow> committee_contains (cn_committee n) (cn_local_agent_id n)"
  by (simp add: node_ok_def)

interpretation inv: node_contract C now keeps_ok
proof (unfold_locales, goal_cases keep compose forget committee enter pending noted announce
    prevote precommit own_prevote own_precommit commit remember exclude)
  case (prevote n a r v w n')
  then show ?case
    using same_identity_cast(1) node_ok_cast_prevote by (auto simp: keeps_ok_def)
next
  case (precommit n a r v w n')
  then show ?case
    using same_identity_cast(2) node_ok_cast_precommit by (auto simp: keeps_ok_def)
next
  case (own_prevote r n v w n')
  then show ?case
    using same_identity_cast(1)[OF own_prevote(2)] node_ok_cast_prevote[OF own_prevote(2)]
    by (auto simp: keeps_ok_def same_identity_def node_ok_local)
next
  case (own_precommit r n v w n')
  then show ?case
    using same_identity_cast(2)[OF own_precommit(2)] node_ok_cast_precommit[OF own_precommit(2)]
    by (auto simp: keeps_ok_def same_identity_def node_ok_local)
next
  case (commit n r v res n')
  then show ?case
    using same_identity_commit node_ok_commit by (auto simp: keeps_ok_def)
next
  case (exclude excluded n h r a receipts)
  show ?case
    using drop_sender_fields[of "n\<lparr>cn_excluded_members := excluded\<rparr>" C r a]
    by (auto simp: keeps_ok_def same_identity_def intro: node_ok_drop_sender)
qed (auto simp: keeps_ok_def same_identity_def)

section \<open>Relations on the visible part of the state\<close>

text \<open>
  Many relations read only the height, the last commit hash and the spent votes. For
  those the elementary updates that leave this part alone need no argument.
\<close>

definition node_view ::
  "consensus_node \<Rightarrow> consensus_committee \<times> u64 \<times> string \<times> u64 set \<times> u64 set" where
  "node_view n = (cn_committee n, cn_height n, cn_previous_commit_hash n,
                  cn_emitted_prevotes n, cn_emitted_precommits n)"

definition envelope_kind :: "consensus_envelope \<Rightarrow> signed_message_kind" where
  "envelope_kind e = body_kind (msg_body (env_message e))"

definition quiet :: "consensus_progress \<Rightarrow> bool" where
  "quiet p \<longleftrightarrow> (\<forall>e\<in>set (cp_outbound p). envelope_kind e = KProposal) \<and> cp_commits p = []"

locale view_contract =
  fixes C :: crypto_lib and now :: i64
    and R :: "consensus_node \<Rightarrow> consensus_progress \<Rightarrow> consensus_node \<Rightarrow> bool"
  assumes unseen: "node_view n' = node_view n \<Longrightarrow> quiet p \<Longrightarrow> R n p n'"
    and view_compose: "R n p n1 \<Longrightarrow> R n1 q n2 \<Longrightarrow> R n (progress_extend p q) n2"
    and view_forget: "R n p n' \<Longrightarrow> R n progress_default n'"
    and view_committee: "R n p n' \<Longrightarrow> cn_committee n' = cn_committee n"
    and spend_prevote: "r \<notin> cn_emitted_prevotes n \<Longrightarrow>
      node_view n' = node_view (n\<lparr>cn_emitted_prevotes := insert r (cn_emitted_prevotes n)\<rparr>) \<Longrightarrow>
      R n (push_outbound progress_default (build_envelope n' r (Prevote v) now)) n'"
    and spend_precommit: "r \<notin> cn_emitted_precommits n \<Longrightarrow>
      node_view n' = node_view (n\<lparr>cn_emitted_precommits := insert r (cn_emitted_precommits n)\<rparr>) \<Longrightarrow>
      R n (push_outbound progress_default (build_envelope n' r (Precommit v) now)) n'"
    and view_committed: "commit C n r v now = (res, n') \<Longrightarrow> R n (produced res) n'"

lemma node_view_cast:
  "cast_prevote n r a v = (w, n') \<Longrightarrow> node_view n' = node_view n"
  "cast_precommit n r a v = (w, n') \<Longrightarrow> node_view n' = node_view n"
  by (auto simp: cast_prevote_def cast_precommit_def node_view_def split: prod.splits)

lemma quiet_simps [simp]:
  "quiet progress_default" "quiet (progress_default\<lparr>cp_round_advanced := b\<rparr>)"
  "quiet (progress_default\<lparr>cp_exclusions := xs\<rparr>)"
  "quiet (push_outbound progress_default (build_envelope n r (Proposal prop) now))"
  by (simp_all add: quiet_def envelope_kind_def build_envelope_def)

sublocale view_contract \<subseteq> node_contract
proof (unfold_locales, goal_cases keep compose forget committee enter pending noted announce
    prevote precommit own_prevote own_precommit commit remember exclude)
  case (own_prevote r n v w n')
  from node_view_cast(1)[OF own_prevote(2)] own_prevote(1) show ?case
    by (intro spend_prevote) (simp_all add: node_view_def)
next
  case (own_precommit r n v w n')
  from node_view_cast(2)[OF own_precommit(2)] own_precommit(1) show ?case
    by (intro spend_precommit) (simp_all add: node_view_def)
next
  case (exclude excluded n h r a receipts)
  show ?case
    using drop_sender_fields[of "n\<lparr>cn_excluded_members := excluded\<rparr>" C r a]
    by (intro unseen) (auto simp: node_view_def same_identity_def)
qed (auto intro: view_compose view_forget view_committee view_committed unseen node_view_cast
      simp: node_view_def)

section \<open>One vote per height and round\<close>

definition spent :: "signed_message_kind \<Rightarrow> consensus_node \<Rightarrow> u64 \<Rightarrow> u64 \<Rightarrow> bool" where
  "spent k n h r \<longleftrightarrow>
     h < cn_height n \<or>
     h = cn_height n \<and> r \<in> (if k = KPrevote then cn_emitted_prevotes n else cn_emitted_precommits n)"

definition votes_cast ::
  "signed_message_kind \<Rightarrow> consensus_progress \<Rightarrow> u64 \<Rightarrow> u64 \<Rightarrow> consensus_envelope list" where
  "votes_cast k p h r =
     filter (\<lambda>e. envelope_kind e = k \<and> msg_height (env_message e) = h \<and> msg_round (env_message e) = r)
       (cp_outbound p)"

text \<open>
  Below the saturation of the height counter, a vote that is sent was not spent before
  and is spent afterwards.
\<close>

definition one_vote ::
  "signed_message_kind \<Rightarrow> consensus_node \<Rightarrow> consensus_progress \<Rightarrow> consensus_node \<Rightarrow> bool" where
  "one_vote k n p n' \<longleftrightarrow>
     cn_committee n' = cn_committee n \<and>
     (cn_height n \<le> u64_max \<longrightarrow> cn_height n' \<le> u64_max \<and>
       (\<forall>h r. h < u64_max \<longrightarrow>
          length (votes_cast k p h r) + (if spent k n h r then 1 else 0)
            \<le> (if spent k n' h r then 1 else 0)))"

lemma votes_cast_extend [simp]:
  "votes_cast k (progress_extend p q) h r = votes_cast k p h r @ votes_cast k q h r"
  by (simp add: votes_cast_def)

lemma votes_cast_quiet: "quiet p \<Longrightarrow> k \<noteq> KProposal \<Longrightarrow> votes_cast k p h r = []"
  by (auto simp: votes_cast_def quiet_def filter_empty_conv)

lemma spent_view: "node_view n' = node_view n \<Longrightarrow> spent k n' h r = spent k n h r"
  by (simp add: node_view_def spent_def)

lemma one_voteD:
  "one_vote k n p n' \<Longrightarrow> cn_height n \<le> u64_max \<Longrightarrow> h < u64_max \<Longrightarrow>
   length (votes_cast k p h r) + (if spent k n h r then 1 else 0) \<le> (if spent k n' h r then 1 else 0)"
  by (simp add: one_vote_def)

lemma one_vote_compose:
  assumes "one_vote k n p n1" "one_vote k n1 q n2"
  shows "one_vote k n (progress_extend p q) n2"
  unfolding one_vote_def
proof (intro conjI impI allI)
  show "cn_committee n2 = cn_committee n" using assms by (simp add: one_vote_def)
next
  assume "cn_height n \<le> u64_max"
  then show "cn_height n2 \<le> u64_max" using assms by (simp add: one_vote_def)
next
  fix h r :: nat assume le: "cn_height n \<le> u64_max" and h: "h < u64_max"
  from assms(1) le have "cn_height n1 \<le> u64_max" by (simp add: one_vote_def)
  with one_voteD[OF assms(1) le h, of r] one_voteD[OF assms(2) _ h, of r] show "length (votes_cast k (progress_extend p q) h r) + (if spent k n h r then 1 else 0)
      \<le> (if spent k n2 h r then 1 else 0)"
    by simp
qed

lemma one_vote_commit:
  assumes "commit C n r v now = (res, n')"
  shows "one_vote k n (produced res) n'"
  using assms
proof (cases rule: commit_cases)
  case unchanged
  then show ?thesis by (simp add: one_vote_def votes_cast_def)
next
  case (commits c)
  then show ?thesis
    by (auto simp: one_vote_def votes_cast_def spent_def same_identity_def u64_saturating_add_def)
qed

lemma one_vote_prevote:
  assumes "k = KPrevote \<or> k = KPrecommit" "r \<notin> cn_emitted_prevotes n"
    "node_view n' = node_view (n\<lparr>cn_emitted_prevotes := insert r (cn_emitted_prevotes n)\<rparr>)"
  shows "one_vote k n (push_outbound progress_default (build_envelope n' r (Prevote v) now)) n'"
  using assms
  by (auto simp: one_vote_def votes_cast_def envelope_kind_def build_envelope_def spent_def node_view_def)

lemma one_vote_precommit:
  assumes "k = KPrevote \<or> k = KPrecommit" "r \<notin> cn_emitted_precommits n"
    "node_view n' = node_view (n\<lparr>cn_emitted_precommits := insert r (cn_emitted_precommits n)\<rparr>)"
  shows "one_vote k n (push_outbound progress_default (build_envelope n' r (Precommit v) now)) n'"
  using assms
  by (auto simp: one_vote_def votes_cast_def envelope_kind_def build_envelope_def spent_def node_view_def)

lemma one_vote_view_contract:
  assumes k: "k = KPrevote \<or> k = KPrecommit"
  shows "view_contract C now (one_vote k)"
proof (unfold_locales, goal_cases unseen compose forget committee prevote precommit commit)
  case (unseen n' n p)
  with k votes_cast_quiet[of p k] spent_view[of n' n k] show ?case
    by (auto simp: one_vote_def node_view_def)
next
  case (forget n p n')
  have "spent k n' h r" if "cn_height n \<le> u64_max" "h < u64_max" "spent k n h r" for h r
    using one_voteD[OF forget that(1,2), of r] that(3) by (simp split: if_splits)
  with forget show ?case by (auto simp: one_vote_def votes_cast_def)
next
  case (committee n p n')
  then show ?case by (simp add: one_vote_def)
qed (auto intro: one_vote_compose one_vote_commit one_vote_prevote[OF k] one_vote_precommit[OF k])

interpretation pv: view_contract C now "one_vote KPrevote"
  by (rule one_vote_view_contract) simp

interpretation pc: view_contract C now "one_vote KPrecommit"
  by (rule one_vote_view_contract) simp

section \<open>Commits\<close>

text \<open>
  A log of commits from height \<open>h\<close> and hash \<open>v\<close>: heights increase, and a commit at the next
  height is hashed over the hash before it. A gap in the heights is a commit whose progress
  was not reported.
\<close>

fun chained :: "crypto_lib \<Rightarrow> u64 \<Rightarrow> string \<Rightarrow> consensus_commit list \<Rightarrow> bool" where
  "chained C h v [] \<longleftrightarrow> True"
| "chained C h v (c # cs) \<longleftrightarrow>
     h \<le> com_height c \<and> (com_height c = h \<longrightarrow> commit_digest C v c = Inr (com_commit_hash c))
     \<and> chained C (com_height c + 1) (com_commit_hash c) cs"

fun chain_end :: "u64 \<Rightarrow> string \<Rightarrow> consensus_commit list \<Rightarrow> u64 \<times> string" where
  "chain_end h v [] = (h, v)"
| "chain_end h v (c # cs) = chain_end (com_height c + 1) (com_commit_hash c) cs"

lemma chained_append:
  "chained C h v (cs @ ds) \<longleftrightarrow>
     chained C h v cs \<and> chained C (fst (chain_end h v cs)) (snd (chain_end h v cs)) ds"
  by (induction cs arbitrary: h v) auto

lemma chain_end_append:
  "chain_end h v (cs @ ds) = chain_end (fst (chain_end h v cs)) (snd (chain_end h v cs)) ds"
  by (induction cs arbitrary: h v) auto

lemma chained_weaken:
  "chained C h v cs \<Longrightarrow> h' \<le> h \<Longrightarrow> h' = h \<longrightarrow> v' = v \<Longrightarrow> chained C h' v' cs"
  by (cases cs) auto

definition reaches :: "u64 \<Rightarrow> string \<Rightarrow> consensus_node \<Rightarrow> bool" where
  "reaches h v n \<longleftrightarrow> h \<le> cn_height n \<and> (h = cn_height n \<longrightarrow> v = cn_previous_commit_hash n)"

definition commit_log :: "crypto_lib \<Rightarrow> consensus_node \<Rightarrow> consensus_progress \<Rightarrow> consensus_node \<Rightarrow> bool" where
  "commit_log C n p n' \<longleftrightarrow>
     cn_committee n' = cn_committee n \<and>
     (cn_height n \<le> u64_max \<longrightarrow> cn_height n \<le> cn_height n' \<and> cn_height n' \<le> u64_max) \<and>
     (cn_height n' < u64_max \<longrightarrow> cn_height n \<le> u64_max \<longrightarrow>
        reaches (cn_height n) (cn_previous_commit_hash n) n' \<and>
        chained C (cn_height n) (cn_previous_commit_hash n) (cp_commits p) \<and>
        (case chain_end (cn_height n) (cn_previous_commit_hash n) (cp_commits p) of
           (h, v) \<Rightarrow> reaches h v n'))"

lemma chain_end_weaken:
  assumes "chained C h v ds" "h' \<le> h" "h' = h \<longrightarrow> v' = v"
    "case chain_end h v ds of (a, b) \<Rightarrow> reaches a b n" "reaches h v n"
  shows "case chain_end h' v' ds of (a, b) \<Rightarrow> reaches a b n"
  using assms by (cases ds) (auto simp: reaches_def)

lemma commit_log_compose:
  assumes p: "commit_log C n p n1" and q: "commit_log C n1 q n2"
  shows "commit_log C n (progress_extend p q) n2"
proof -
  let ?h = "cn_height n" and ?v = "cn_previous_commit_hash n"
  obtain h v where end_p: "chain_end ?h ?v (cp_commits p) = (h, v)" by fastforce
  have "reaches ?h ?v n2 \<and> chained C ?h ?v (cp_commits p @ cp_commits q) \<and>
      (case chain_end ?h ?v (cp_commits p @ cp_commits q) of (a, b) \<Rightarrow> reaches a b n2)"
    if le: "?h \<le> u64_max" and low: "cn_height n2 < u64_max"
  proof -
    from p le have n1: "cn_height n1 \<le> u64_max" by (simp add: commit_log_def)
    with q low have low1: "cn_height n1 < u64_max" by (auto simp: commit_log_def)
    from p le low1 end_p have 1: "reaches ?h ?v n1" "chained C ?h ?v (cp_commits p)" "reaches h v n1"
      by (auto simp: commit_log_def)
    from q n1 low have 2: "reaches (cn_height n1) (cn_previous_commit_hash n1) n2"
      "chained C (cn_height n1) (cn_previous_commit_hash n1) (cp_commits q)"
      "case chain_end (cn_height n1) (cn_previous_commit_hash n1) (cp_commits q) of
         (a, b) \<Rightarrow> reaches a b n2"
      by (auto simp: commit_log_def)
    from 1(3) have hv: "h \<le> cn_height n1" "h = cn_height n1 \<longrightarrow> v = cn_previous_commit_hash n1"
      by (auto simp: reaches_def)
    have "reaches ?h ?v n2" using 1(1) 2(1) by (auto simp: reaches_def)
    with 1(2) end_p chained_weaken[OF 2(2) hv] chain_end_weaken[OF 2(2) hv 2(3,1)]
    show ?thesis by (simp add: chained_append chain_end_append)
  qed
  with p q show ?thesis by (auto simp: commit_log_def)
qed

lemma commit_log_commit:
  assumes "commit C n r v now = (res, n')"
  shows "commit_log C n (produced res) n'"
  using assms
proof (cases rule: commit_cases)
  case unchanged
  then show ?thesis by (simp add: commit_log_def reaches_def)
next
  case (commits c)
  then show ?thesis
    by (auto simp: commit_log_def reaches_def same_identity_def u64_saturating_add_def)
qed

interpretation cl: view_contract C now "commit_log C"
proof (unfold_locales, goal_cases unseen compose forget committee prevote precommit commit)
  case (compose n p n1 q n2)
  then show ?case by (rule commit_log_compose)
next
  case (commit n r v res n')
  then show ?case by (rule commit_log_commit)
qed (auto simp: commit_log_def reaches_def quiet_def node_view_def push_outbound_def)

text \<open>Every reported commit carries two quorums of the committee's members.\<close>

definition commits_backed :: "consensus_node \<Rightarrow> consensus_progress \<Rightarrow> consensus_node \<Rightarrow> bool" where
  "commits_backed n p n' \<longleftrightarrow>
     keeps_ok n p n' \<and> (node_ok n \<longrightarrow> (\<forall>c\<in>set (cp_commits p). quorum_backed (cn_committee n) c))"

lemma commits_backed_quiet: "keeps_ok n p n' \<Longrightarrow> cp_commits p = [] \<Longrightarrow> commits_backed n p n'"
  by (simp add: commits_backed_def)

lemma commits_backed_commit:
  assumes "commit C n r v now = (res, n')"
  shows "commits_backed n (produced res) n'"
  using assms
proof (cases rule: commit_cases)
  case unchanged
  then show ?thesis by (simp add: commits_backed_def keeps_ok_def same_identity_def)
next
  case (commits c)
  with tally_at_bound inv.committed[OF assms] show ?thesis
    by (auto simp: commits_backed_def quorum_backed_def)
qed

interpretation cb: node_contract C now commits_backed
proof (unfold_locales, goal_cases keep compose forget committee enter pending noted announce
    prevote precommit own_prevote own_precommit commit remember exclude)
  case (compose n p n1 q n2)
  then show ?case
    using inv.compose[of n p n1 q n2] by (auto simp: commits_backed_def keeps_ok_def same_identity_def)
next
  case (commit n r v res n')
  then show ?case by (rule commits_backed_commit)
next
  case (forget n p n')
  then show ?case by (simp add: commits_backed_def keeps_ok_def)
next
  case (committee n p n')
  then show ?case by (simp add: commits_backed_def keeps_ok_def same_identity_def)
qed (auto intro!: commits_backed_quiet intro: inv.keep inv.enter_round inv.set_pending
      inv.note_proposal inv.announce inv.hear_prevote inv.hear_precommit inv.own_prevote
      inv.own_precommit inv.remember inv.exclude)

section \<open>Runs\<close>

interpretation inv_run: node_run_contract C keeps_ok
  by (rule node_run_contract.intro) (rule inv.node_contract_axioms)

interpretation pv_run: node_run_contract C "one_vote KPrevote"
  by (rule node_run_contract.intro) (rule pv.node_contract_axioms)

interpretation pc_run: node_run_contract C "one_vote KPrecommit"
  by (rule node_run_contract.intro) (rule pc.node_contract_axioms)

interpretation cl_run: node_run_contract C "commit_log C"
  by (rule node_run_contract.intro) (rule cl.node_contract_axioms)

interpretation cb_run: node_run_contract C commits_backed
  by (rule node_run_contract.intro) (rule cb.node_contract_axioms)

end
