(* ===== verification/Node_Properties.thy ===== *)
theory Node_Properties
  imports Node_Safety Crypto_Instance
begin

text \<open>
  The properties of a consensus node over every sequence of inputs (local proposals, clock
  ticks, plain and signed envelopes from any sender, with the errors they cause), the
  agreement of two nodes in one round, and what exclusion removes.
\<close>

section \<open>A node and its committee\<close>

definition started :: "crypto_lib \<Rightarrow> agent_id list \<Rightarrow> usize \<Rightarrow> string \<Rightarrow> consensus_node \<Rightarrow> bool" where
  "started C members max_faulty previous n \<longleftrightarrow>
     (\<exists>committee me key config t.
        committee_new C members max_faulty = Inr committee \<and>
        node_new me key committee config previous t = Inr n)"

lemma started_ok:
  "started C members max_faulty previous n \<Longrightarrow>
   node_ok n \<and> cn_height n = 1 \<and> cn_previous_commit_hash n = previous \<and>
   cn_emitted_prevotes n = {} \<and> cn_emitted_precommits n = {}"
  by (auto simp: started_def node_new_def node_ok_def u64_max_def split: if_splits
      dest!: committee_new_ok)

lemma started_committee:
  assumes "started C members max_faulty previous n"
  shows "set (cc_members (cn_committee n)) = set members \<and> cc_max_faulty (cn_committee n) = max_faulty"
proof -
  from assms obtain committee where new: "committee_new C members max_faulty = Inr committee"
    and "cn_committee n = committee"
    by (auto simp: started_def node_new_def split: if_splits)
  with committee_new_ok[OF new] show ?thesis by simp
qed

lemma committee_new_exists:
  "members \<noteq> [] \<Longrightarrow> 2 * max_faulty + 1 \<le> card (set members) \<Longrightarrow> card (set members) \<le> u64_max \<Longrightarrow>
   \<exists>committee. committee_new C members max_faulty = Inr committee"
  using committee_new_Inr_iff[of C members max_faulty] by simp

text \<open>The committee of four agents the concrete runs use, and a node of it.\<close>

definition four :: "agent_id list" where
  "four = [AgentId ''a'', AgentId ''b'', AgentId ''c'', AgentId ''d'']"

lemma started_four: "\<exists>n. started model_crypto four 1 ''genesis'' n"
proof -
  obtain committee where new: "committee_new model_crypto four 1 = Inr committee"
    using committee_new_exists[of four 1 model_crypto] by (auto simp: four_def u64_max_def)
  from committee_new_ok[OF new] have "committee_contains committee (AgentId ''a'')"
    by (simp add: committee_contains_def four_def)
  then have "\<exists>n. node_new (AgentId ''a'') None committee consensus_config_default ''genesis'' 0 = Inr n"
    by (simp add: node_new_def consensus_config_default_def)
  with new show ?thesis unfolding started_def by blast
qed

section \<open>A committee of one\<close>

text \<open>
  With one member the proposal, both votes and the commit happen in one call. These
  lemmas serve the round driver and the concrete runs below.
\<close>

definition fresh_round :: "consensus_node \<Rightarrow> bool" where
  "fresh_round n \<longleftrightarrow>
     cn_proposals n (cn_round n) = None \<and> cn_prevotes n (cn_round n) = None \<and>
     cn_precommits n (cn_round n) = None \<and> cn_round n \<notin> cn_emitted_prevotes n \<and>
     cn_round n \<notin> cn_emitted_precommits n"

lemma cast_first_vote:
  "cn_prevotes n r = None \<Longrightarrow> \<exists>l. cast_prevote n r a v =
     (Inr 1, n\<lparr>cn_prevotes := (cn_prevotes n)(r \<mapsto> l)\<rparr>) \<and> ledger_count l v = 1"
  "cn_precommits n r = None \<Longrightarrow> \<exists>l. cast_precommit n r a v =
     (Inr 1, n\<lparr>cn_precommits := (cn_precommits n)(r \<mapsto> l)\<rparr>) \<and> ledger_count l v = 1"
  by (auto simp: cast_prevote_def cast_precommit_def ledger_at_def ledger_simps Let_def)

lemma solo_proposer:
  assumes "cc_members committee = [a]"
  shows "proposer_for C committee h r = Inr a"
  using proposer_for_member[of committee C h r] assms by auto

lemma solo_queue_commits:
  assumes solo: "cc_members (cn_committee n) = [cn_local_agent_id n]" "cc_threshold (cn_committee n) = 1"
    and fresh: "fresh_round n"
    and bytes: "canonical_bytes C (commit_json (cn_height n) (cn_round n) (cn_previous_commit_hash n) prop) = Inr bs"
  shows "\<exists>c p n'. queue_proposal C n prop now = (Inr p, n') \<and> cp_commits p = [c] \<and>
     cp_outbound p = map (\<lambda>body. build_envelope n (cn_round n) body now)
       [Proposal prop, Prevote (Some (prop_id prop)), Precommit (Some (prop_id prop))] \<and>
     cn_local_agent_id n' = cn_local_agent_id n \<and> cn_local_signing_key n' = cn_local_signing_key n \<and>
     com_proposal c = prop \<and> com_height c = cn_height n \<and> com_round c = cn_round n \<and>
     com_prevote_tally c = 1 \<and> com_precommit_tally c = 1 \<and> com_commit_hash c = sha256_hex C bs \<and>
     cn_height n' = u64_saturating_add (cn_height n) 1"
proof -
  let ?r = "cn_round n" and ?v = "Some (prop_id prop)"
  let ?n0 = "n\<lparr>cn_pending_local_proposal := Some prop, cn_proposals := (cn_proposals n)(?r \<mapsto> prop)\<rparr>"
  let ?n1 = "?n0\<lparr>cn_emitted_prevotes := insert ?r (cn_emitted_prevotes n), cn_step := StepPrevote\<rparr>"
  obtain l where l: "cast_prevote ?n1 ?r (cn_local_agent_id n) ?v =
      (Inr 1, ?n1\<lparr>cn_prevotes := (cn_prevotes n)(?r \<mapsto> l)\<rparr>)" "ledger_count l ?v = 1"
    using cast_first_vote(1)[of ?n1 ?r] fresh by (auto simp: fresh_round_def)
  let ?n2 = "?n1\<lparr>cn_prevotes := (cn_prevotes n)(?r \<mapsto> l)\<rparr>"
  let ?n3 = "?n2\<lparr>cn_emitted_precommits := insert ?r (cn_emitted_precommits n), cn_step := StepPrecommit\<rparr>"
  obtain l' where l': "cast_precommit ?n3 ?r (cn_local_agent_id n) ?v =
      (Inr 1, ?n3\<lparr>cn_precommits := (cn_precommits n)(?r \<mapsto> l')\<rparr>)" "ledger_count l' ?v = 1"
    using cast_first_vote(2)[of ?n3 ?r] fresh by (auto simp: fresh_round_def)
  show ?thesis
    using fresh solo bytes l l' solo_proposer[OF solo(1)]
    by (simp add: queue_proposal_def emit_proposal_if_leader_def proposer_for_current_round_def
        observe_local_proposal_def record_proposal_def fresh_round_def emit_prevote_def
        emit_precommit_def commit_def tally_at_def build_envelope_def Let_def)
qed
lemma started_solo:
  assumes "started C [a] 0 previous n"
  shows "cc_members (cn_committee n) = [cn_local_agent_id n]" "cc_threshold (cn_committee n) = 1"
    "fresh_round n" "cn_round n = 0" "cn_height n = 1" "cn_previous_commit_hash n = previous"
proof -
  from assms obtain committee me key config t where
    new: "committee_new C [a] 0 = Inr committee"
      "node_new me key committee config previous t = Inr n"
    unfolding started_def by blast
  from committee_new_ok[OF new(1)] have ok: "committee_ok committee" "set (cc_members committee) = {a}"
    "cc_max_faulty committee = 0" by auto
  then have members: "cc_members committee = [a]"
    by (cases "cc_members committee"; cases "tl (cc_members committee)")
       (auto simp: committee_ok_def)
  from new(2) members ok
  show "cc_members (cn_committee n) = [cn_local_agent_id n]" "cc_threshold (cn_committee n) = 1"
    "fresh_round n" "cn_round n = 0" "cn_height n = 1" "cn_previous_commit_hash n = previous"
    by (auto simp: node_new_def committee_contains_def committee_ok_def fresh_round_def
        split: if_splits)
qed

definition sample_proposal :: consensus_proposal where
  "sample_proposal = \<lparr>prop_id = ''p1'', prop_payload = JNull\<rparr>"

lemma solo_run:
  "\<exists>n. started model_crypto [AgentId ''a''] 0 ''genesis'' n \<and>
       (\<exists>c. cp_commits (fst (node_run model_crypto n [QueueProposal sample_proposal 5])) = [c]) \<and>
       cn_height (snd (node_run model_crypto n [QueueProposal sample_proposal 5])) = 2"
proof -
  obtain committee where new: "committee_new model_crypto [AgentId ''a''] 0 = Inr committee"
    using committee_new_exists[of "[AgentId ''a'']" 0 model_crypto] by (auto simp: u64_max_def)
  from committee_new_ok[OF new] have "committee_contains committee (AgentId ''a'')"
    by (simp add: committee_contains_def)
  then obtain n where "node_new (AgentId ''a'') None committee consensus_config_default ''genesis'' 0 = Inr n"
    by (simp add: node_new_def consensus_config_default_def)
  with new have start: "started model_crypto [AgentId ''a''] 0 ''genesis'' n"
    unfolding started_def by blast
  note solo = started_solo[OF start]
  obtain bs where "canonical_bytes model_crypto
      (commit_json (cn_height n) (cn_round n) (cn_previous_commit_hash n) sample_proposal) = Inr bs"
    using canonical_bytes_total[of "commit_json (cn_height n) (cn_round n)
      (cn_previous_commit_hash n) sample_proposal" model_crypto]
    by (auto simp: commit_json_def sample_proposal_def json_nat_def)
  from solo_queue_commits[OF solo(1,2,3) this, of 5] solo(5) start show ?thesis
    by (auto simp: u64_saturating_add_def u64_max_def)
qed

section \<open>The invariant over runs\<close>

text \<open>
  C28. Every input, accepted or refused, keeps the node's invariant: its committee and
  identity do not change, both ledgers of every round stay consistent, and only committee
  members are counted as voters.
\<close>

theorem node_invariant:
  assumes "started C members max_faulty previous n"
  shows "node_ok (snd (node_run C n inputs)) \<and> same_identity n (snd (node_run C n inputs))"
  using inv_run.run_holds[of C n inputs "fst (node_run C n inputs)" "snd (node_run C n inputs)"]
    started_ok[OF assms]
  by (simp add: keeps_ok_def)

theorem node_invariant_witness:
  "\<exists>n. started model_crypto four 1 ''genesis'' n \<and> node_ok (snd (node_run model_crypto n [Tick 5000]))"
  using node_invariant started_four by blast

text \<open>
  C2. No double voting: over any sequence of inputs a node sends at most one prevote and
  at most one precommit for each height and round (below the saturation of the height
  counter), also when it returns errors in between.
\<close>

theorem node_votes_once:
  assumes "started C members max_faulty previous n" and "h < u64_max"
  shows "length (votes_cast KPrevote (fst (node_run C n inputs)) h r) \<le> 1 \<and>
         length (votes_cast KPrecommit (fst (node_run C n inputs)) h r) \<le> 1"
proof -
  have low: "cn_height n \<le> u64_max" using started_ok[OF assms(1)] by (simp add: u64_max_def)
  obtain p n' where run: "node_run C n inputs = (p, n')" by fastforce
  from one_voteD[OF pv_run.run_holds[OF run] low assms(2), of r]
    one_voteD[OF pc_run.run_holds[OF run] low assms(2), of r] run
  show ?thesis by (simp split: if_splits)
qed

theorem node_votes_once_witness:
  "\<exists>n. started model_crypto four 1 ''genesis'' n \<and> (1::nat) < u64_max \<and>
       length (votes_cast KPrevote (fst (node_run model_crypto n [Tick 5000, Tick 9000])) 1 2) \<le> 1"
  using node_votes_once[of model_crypto four 1 "''genesis''" _ 1 "[Tick 5000, Tick 9000]" 2] started_four
  by (auto simp: u64_max_def)

section \<open>Commits\<close>

text \<open>
  Every commit a node reports is backed: it carries the committee's id and prevote and
  precommit tallies that reach the threshold and never exceed the committee.
\<close>

theorem node_commits_backed:
  assumes "started C members max_faulty previous n"
    and "c \<in> set (cp_commits (fst (node_run C n inputs)))"
  shows "quorum_backed (cn_committee n) c"
  using cb_run.run_holds[of C n inputs "fst (node_run C n inputs)" "snd (node_run C n inputs)"]
    started_ok[OF assms(1)] assms(2)
  by (auto simp: commits_backed_def)

theorem node_commits_backed_witness:
  "\<exists>n c. started model_crypto [AgentId ''a''] 0 ''genesis'' n \<and>
     c \<in> set (cp_commits (fst (node_run model_crypto n [QueueProposal sample_proposal 5]))) \<and>
     quorum_backed (cn_committee n) c"
proof -
  from solo_run obtain n c where start: "started model_crypto [AgentId ''a''] 0 ''genesis'' n"
    and c: "cp_commits (fst (node_run model_crypto n [QueueProposal sample_proposal 5])) = [c]" by blast
  from c have "c \<in> set (cp_commits (fst (node_run model_crypto n [QueueProposal sample_proposal 5])))"
    by simp
  with start node_commits_backed[OF start this] show ?thesis by blast
qed

text \<open>
  The commits a node reports form a hash chain: heights strictly increase from one, and
  the hash of a commit that directly follows another (or the genesis hash) is the digest of
  its height, round, proposal and that previous hash.
\<close>

theorem node_commit_chain:
  assumes "started C members max_faulty previous n"
    and "cn_height (snd (node_run C n inputs)) < u64_max"
  shows "chained C 1 previous (cp_commits (fst (node_run C n inputs)))"
  using cl_run.run_holds[of C n inputs "fst (node_run C n inputs)" "snd (node_run C n inputs)"]
    started_ok[OF assms(1)] assms(2)
  by (simp add: commit_log_def u64_max_def)

theorem node_commit_chain_witness:
  "\<exists>n c. started model_crypto [AgentId ''a''] 0 ''genesis'' n \<and>
     cn_height (snd (node_run model_crypto n [QueueProposal sample_proposal 5])) < u64_max \<and>
     cp_commits (fst (node_run model_crypto n [QueueProposal sample_proposal 5])) = [c] \<and>
     chained model_crypto 1 ''genesis'' [c]"
proof -
  from solo_run obtain n c where start: "started model_crypto [AgentId ''a''] 0 ''genesis'' n"
    and c: "cp_commits (fst (node_run model_crypto n [QueueProposal sample_proposal 5])) = [c]"
    and low: "cn_height (snd (node_run model_crypto n [QueueProposal sample_proposal 5])) < u64_max"
    by (auto simp: u64_max_def)
  from node_commit_chain[OF start low] c low start show ?thesis by auto
qed

section \<open>Agreement\<close>

definition precommit_of :: "consensus_node \<Rightarrow> u64 \<Rightarrow> agent_id \<Rightarrow> string option option" where
  "precommit_of n r a = vl_by_agent (ledger_at (cn_precommits n) r) a"

lemma tally_ledger_at: "tally_at ledgers r v = ledger_count (ledger_at ledgers r) v"
  by (simp add: tally_at_def ledger_at_def ledger_count_def ledger_empty_def split: option.splits)

lemma commit_quorum:
  assumes "node_ok n" "commit C n r v t = (Inr p, n')" "cp_commits p = [c]"
  shows "v = Some (prop_id (com_proposal c))"
    "cc_threshold (cn_committee n) \<le> ledger_count (ledger_at (cn_precommits n) r) v"
    "ledger_ok (ledger_at (cn_precommits n) r)"
    "dom (vl_by_agent (ledger_at (cn_precommits n) r)) \<subseteq> set (cc_members (cn_committee n))"
proof -
  from assms(2,3) have "v = Some (prop_id (com_proposal c)) \<and>
      cc_threshold (cn_committee n) \<le> tally_at (cn_precommits n) r v"
    by (cases rule: commit_cases) auto
  with assms(1) ledger_at_ok[of "set (cc_members (cn_committee n))" "cn_precommits n" r]
  show "v = Some (prop_id (com_proposal c))"
    "cc_threshold (cn_committee n) \<le> ledger_count (ledger_at (cn_precommits n) r) v"
    "ledger_ok (ledger_at (cn_precommits n) r)"
    "dom (vl_by_agent (ledger_at (cn_precommits n) r)) \<subseteq> set (cc_members (cn_committee n))"
    by (auto simp: tally_ledger_at node_ok_def)
qed

text \<open>
  C1. Agreement within a round: two nodes of a committee of \<open>3f + 1\<close> that commit in the
  same round commit the same proposal id, unless more than \<open>f\<close> members precommitted
  differently towards the two nodes.
\<close>

theorem commit_agreement:
  assumes ok: "node_ok n1" "node_ok n2" and same: "cn_committee n2 = cn_committee n1"
    and size: "length (cc_members (cn_committee n1)) = 3 * cc_max_faulty (cn_committee n1) + 1"
    and first: "commit C n1 r v1 t1 = (Inr p1, n1')" "cp_commits p1 = [c1]"
    and second: "commit C n2 r v2 t2 = (Inr p2, n2')" "cp_commits p2 = [c2]"
    and faulty: "finite F" "card F \<le> cc_max_faulty (cn_committee n1)"
      "\<And>a. precommit_of n1 r a \<noteq> None \<Longrightarrow> precommit_of n2 r a \<noteq> None \<Longrightarrow>
           precommit_of n1 r a \<noteq> precommit_of n2 r a \<Longrightarrow> a \<in> F"
  shows "prop_id (com_proposal c1) = prop_id (com_proposal c2)"
proof (rule ccontr)
  let ?M = "set (cc_members (cn_committee n1))" and ?f = "cc_max_faulty (cn_committee n1)"
  let ?both = "{a. precommit_of n1 r a = Some v1 \<and> precommit_of n2 r a = Some v2}"
  note q1 = commit_quorum[OF ok(1) first] and q2 = commit_quorum[OF ok(2) second]
  assume "prop_id (com_proposal c1) \<noteq> prop_id (com_proposal c2)"
  with q1(1) q2(1) have "v1 \<noteq> v2" by simp
  then have "?both \<subseteq> F" using faulty(3) by auto
  then have few: "card ?both \<le> ?f" using card_mono[OF faulty(1)] faulty(2) by (meson le_trans)
  from ok(1) have committee: "cc_threshold (cn_committee n1) = 2 * ?f + 1" "card ?M = 3 * ?f + 1"
    using size by (auto simp: node_ok_def committee_ok_def distinct_card)
  from vl.conflicting_quorums[OF q1(3) q2(3), of ?M "2 * ?f + 1" v1 v2] q1(2,4) q2(2,4) same committee
  have "2 * (2 * ?f + 1) \<le> (3 * ?f + 1) + card ?both"
    by (simp add: precommit_of_def)
  with few show False by simp
qed

text \<open>A node of the committee of four with the given votes of round 0 in both ledgers.\<close>

fun ballot :: "(agent_id \<times> string option) list \<Rightarrow> vote_ledger" where
  "ballot [] = ledger_empty"
| "ballot ((a, v) # votes) = snd (record_vote (ballot votes) a v)"

definition with_votes :: "consensus_node \<Rightarrow> (agent_id \<times> string option) list \<Rightarrow> consensus_node" where
  "with_votes n votes =
     n\<lparr>cn_proposals := [0 \<mapsto> sample_proposal], cn_prevotes := [0 \<mapsto> ballot votes],
       cn_precommits := [0 \<mapsto> ballot votes]\<rparr>"

lemma ballot_ok: "ledger_ok (ballot votes) \<and> dom (vl_by_agent (ballot votes)) \<subseteq> fst ` set votes"
proof (induction votes rule: ballot.induct)
  case 1
  then show ?case using vl.ok_empty by (simp add: ledger_empty_def)
next
  case (2 a v votes)
  obtain w l where w: "record_vote (ballot votes) a v = (w, l)" by fastforce
  with 2 vl.ok_record[OF _ w] vl.voters_record[OF _ w] show ?case by fastforce
qed

lemma with_votes_ok:
  "node_ok n \<Longrightarrow> fst ` set votes \<subseteq> set (cc_members (cn_committee n)) \<Longrightarrow> node_ok (with_votes n votes)"
  using ballot_ok[of votes] subset_trans[of "dom (vl_by_agent (ballot votes))" "fst ` set votes"]
  by (simp add: node_ok_def with_votes_def ledgers_ok_def)

lemma with_votes_commits:
  assumes "cc_threshold (cn_committee n) \<le> ledger_count (ballot votes) (Some ''p1'')"
  shows "\<exists>p n' c. commit C (with_votes n votes) 0 (Some ''p1'') t = (Inr p, n') \<and> cp_commits p = [c]"
proof -
  have "float_free (commit_json (cn_height n) 0 (cn_previous_commit_hash n) sample_proposal)"
    by (simp add: commit_json_def sample_proposal_def json_nat_def)
  from canonical_bytes_total[OF this, of C] assms show ?thesis
    by (auto simp: commit_def with_votes_def sample_proposal_def tally_at_def Let_def)
qed

definition votes_at_n1 :: "(agent_id \<times> string option) list" where
  "votes_at_n1 = [(AgentId ''a'', Some ''p1''), (AgentId ''b'', Some ''p1''),
                  (AgentId ''c'', Some ''p1''), (AgentId ''d'', None)]"

definition votes_at_n2 :: "(agent_id \<times> string option) list" where
  "votes_at_n2 = [(AgentId ''b'', Some ''p1''), (AgentId ''c'', Some ''p1''),
                  (AgentId ''d'', Some ''p1'')]"

lemma ballot_counts:
  "ledger_count (ballot votes_at_n1) (Some ''p1'') = 3" "ledger_count (ballot votes_at_n2) (Some ''p1'') = 3"
  by (simp_all add: votes_at_n1_def votes_at_n2_def ledger_simps Let_def)

lemma ballot_votes:
  "vl_by_agent (ballot votes_at_n1) = map_of votes_at_n1"
  "vl_by_agent (ballot votes_at_n2) = map_of votes_at_n2"
  by (auto simp: votes_at_n1_def votes_at_n2_def ledger_simps Let_def fun_eq_iff)

lemma votes_differ:
  "map_of votes_at_n1 a = Some y \<Longrightarrow> map_of votes_at_n2 a = Some z \<Longrightarrow> y \<noteq> z \<Longrightarrow> a = AgentId ''d''"
  by (auto simp: votes_at_n1_def votes_at_n2_def split: if_splits)

theorem commit_agreement_witness:
  "\<exists>n p1 p2 n1' n2' c1 c2.
     node_ok (with_votes n votes_at_n1) \<and> node_ok (with_votes n votes_at_n2) \<and>
     length (cc_members (cn_committee n)) = 3 * cc_max_faulty (cn_committee n) + 1 \<and>
     commit model_crypto (with_votes n votes_at_n1) 0 (Some ''p1'') 9 = (Inr p1, n1') \<and>
     cp_commits p1 = [c1] \<and>
     commit model_crypto (with_votes n votes_at_n2) 0 (Some ''p1'') 9 = (Inr p2, n2') \<and>
     cp_commits p2 = [c2] \<and>
     prop_id (com_proposal c1) = prop_id (com_proposal c2)"
proof -
  from started_four obtain n where start: "started model_crypto four 1 ''genesis'' n" by blast
  from started_committee[OF start] have four: "set (cc_members (cn_committee n)) = set four"
    "cc_max_faulty (cn_committee n) = 1" by auto
  have n: "node_ok n" using started_ok[OF start] by simp
  then have "distinct (cc_members (cn_committee n))" "cc_threshold (cn_committee n) = 3"
    using four(2) by (simp_all add: node_ok_def committee_ok_def)
  moreover have "card (set four) = 4" by (simp add: four_def)
  ultimately have size: "length (cc_members (cn_committee n)) = 4" "cc_threshold (cn_committee n) = 3"
    using four(1) distinct_card[of "cc_members (cn_committee n)"] by simp_all
  have ok: "node_ok (with_votes n votes_at_n1)" "node_ok (with_votes n votes_at_n2)"
    by (rule with_votes_ok[OF n], unfold four(1), simp add: four_def votes_at_n1_def votes_at_n2_def)+
  obtain p1 n1' c1 where first: "commit model_crypto (with_votes n votes_at_n1) 0 (Some ''p1'') 9 = (Inr p1, n1')"
    "cp_commits p1 = [c1]"
    using with_votes_commits[of n votes_at_n1 model_crypto 9] size ballot_counts by auto
  obtain p2 n2' c2 where second: "commit model_crypto (with_votes n votes_at_n2) 0 (Some ''p1'') 9 = (Inr p2, n2')"
    "cp_commits p2 = [c2]"
    using with_votes_commits[of n votes_at_n2 model_crypto 9] size ballot_counts by auto
  have "prop_id (com_proposal c1) = prop_id (com_proposal c2)"
  proof (rule commit_agreement[OF ok _ _ first second, of "{AgentId ''d''}"])
    show "length (cc_members (cn_committee (with_votes n votes_at_n1))) =
        3 * cc_max_faulty (cn_committee (with_votes n votes_at_n1)) + 1"
      using size four(2) by (simp add: with_votes_def)
    show "card {AgentId ''d''} \<le> cc_max_faulty (cn_committee (with_votes n votes_at_n1))"
      using four(2) by (simp add: with_votes_def)
  qed (auto simp: with_votes_def precommit_of_def ledger_at_def ballot_votes dest: votes_differ)
  with ok size four(2) first second show ?thesis by (intro exI[of _ n]) auto
qed

end
