(* ===== verification/Node_Exclusion.thy ===== *)
theory Node_Exclusion
  imports Node_Properties
begin

text \<open>
  What an exclusion does: the sender's votes and proposal of the round leave the ledgers,
  and no later input brings the sender back for that height and round.
\<close>

definition prevote_of :: "consensus_node \<Rightarrow> u64 \<Rightarrow> agent_id \<Rightarrow> string option option" where
  "prevote_of n r a = vl_by_agent (ledger_at (cn_prevotes n) r) a"

definition keeps_exclusions :: "consensus_node \<Rightarrow> consensus_progress \<Rightarrow> consensus_node \<Rightarrow> bool" where
  "keeps_exclusions n p n' \<longleftrightarrow>
     cn_committee n' = cn_committee n \<and>
     (\<forall>h r a. is_excluded n h r a \<longrightarrow> is_excluded n' h r a)"

lemma is_excluded_cong:
  "cn_excluded_members n' = cn_excluded_members n \<Longrightarrow> is_excluded n' h r a = is_excluded n h r a"
  by (simp add: is_excluded_def)

lemma excluded_cast:
  "cast_prevote n r a v = (w, n') \<Longrightarrow>
     cn_excluded_members n' = cn_excluded_members n \<and> cn_committee n' = cn_committee n"
  "cast_precommit n r a v = (w, n') \<Longrightarrow>
     cn_excluded_members n' = cn_excluded_members n \<and> cn_committee n' = cn_committee n"
  by (auto simp: cast_prevote_def cast_precommit_def split: prod.splits)

lemma keeps_exclusionsI:
  "cn_committee n' = cn_committee n \<Longrightarrow> cn_excluded_members n' = cn_excluded_members n \<Longrightarrow>
   keeps_exclusions n p n'"
  by (simp add: keeps_exclusions_def is_excluded_def)

interpretation ke: node_contract C now keeps_exclusions
proof (unfold_locales, goal_cases keep compose forget committee enter pending noted announce
    prevote precommit own_prevote own_precommit commit remember exclude)
  case (prevote n a r v w n')
  with excluded_cast(1)[OF prevote(2)] show ?case by (auto intro: keeps_exclusionsI)
next
  case (precommit n a r v w n')
  with excluded_cast(2)[OF precommit(2)] show ?case by (auto intro: keeps_exclusionsI)
next
  case (own_prevote r n v w n')
  with excluded_cast(1)[OF own_prevote(2)] show ?case by (auto intro: keeps_exclusionsI)
next
  case (own_precommit r n v w n')
  with excluded_cast(2)[OF own_precommit(2)] show ?case by (auto intro: keeps_exclusionsI)
next
  case (commit n r v res n')
  then show ?case
    by (cases rule: commit_cases) (auto intro: keeps_exclusionsI simp: same_identity_def)
next
  case (exclude excluded n h r a receipts)
  then show ?case
    using drop_sender_fields[of "n\<lparr>cn_excluded_members := excluded\<rparr>" C r a]
    by (auto simp: keeps_exclusions_def is_excluded_def same_identity_def split: option.splits)
qed (auto simp: keeps_exclusions_def is_excluded_def)

interpretation ke_run: node_run_contract C keeps_exclusions
  by (rule node_run_contract.intro) (rule ke.node_contract_axioms)

lemma exclude_sender_effect:
  assumes "node_ok n" "exclude_sender C n h r k a reason ev now = (res, n')"
  shows "is_excluded n' h r a \<and> prevote_of n' r a = None \<and> precommit_of n' r a = None"
proof -
  let ?m = "n\<lparr>cn_excluded_members := (cn_excluded_members n)((h, r) \<mapsto> insert a
      (case cn_excluded_members n (h, r) of None \<Rightarrow> {} | Some S \<Rightarrow> S))\<rparr>"
  from assms(2) have n': "n' = drop_sender_round_contributions C ?m r a"
    by (auto simp: exclude_sender_def Let_def split: option.splits sum.splits)
  have gone: "vl_by_agent (remove_voter l a) a = None" if "ledger_ok l" for l
    using vl.withdraw_is[OF that, of a] by simp
  from assms(1) have "ledger_ok l" if "cn_prevotes n r = Some l \<or> cn_precommits n r = Some l" for l
    using that by (auto simp: node_ok_def ledgers_ok_def)
  with gone have "prevote_of n' r a = None \<and> precommit_of n' r a = None"
    unfolding n' prevote_of_def precommit_of_def ledger_at_def drop_sender_ledgers
    by (auto simp: vl.vote_of_empty split: option.splits)
  moreover have "is_excluded n' h r a"
    using drop_sender_fields[of ?m C r a] by (simp add: n' is_excluded_def)
  ultimately show ?thesis by blast
qed

text \<open>An envelope that contradicts an earlier one of the same sender, height, round and kind.\<close>

definition equivocates :: "consensus_node \<Rightarrow> consensus_signed_envelope \<Rightarrow> bool" where
  "equivocates n e \<longleftrightarrow>
     (case cn_seen_signed_messages n (key_from_message (env_message (se_envelope e))) of
        None \<Rightarrow> False | Some previous \<Rightarrow> previous \<noteq> e)"

definition sender_height :: "consensus_signed_envelope \<Rightarrow> u64" where
  "sender_height e = msg_height (env_message (se_envelope e))"

definition sender_round :: "consensus_signed_envelope \<Rightarrow> u64" where
  "sender_round e = msg_round (env_message (se_envelope e))"

definition sender :: "consensus_signed_envelope \<Rightarrow> agent_id" where
  "sender e = msg_from (env_message (se_envelope e))"

lemmas sender_defs = sender_height_def sender_round_def sender_def key_from_message_def

text \<open>
  C22. Equivocation is punished for good: when a signed envelope contradicts an earlier one
  of its sender, the node excludes the sender for that height and round, its prevote and
  precommit leave the ledgers, and after any further inputs every envelope of the sender
  for that height and round is ignored.
\<close>

theorem equivocator_excluded:
  assumes "node_ok n" and "equivocates n e"
    and "handle_signed_envelope C n e now = (Inr p, n')"
    and "\<not> is_excluded n (sender_height e) (sender_round e) (sender e)"
    and "sender e' = sender e" "sender_height e' = sender_height e" "sender_round e' = sender_round e"
  shows "prevote_of n' (sender_round e) (sender e) = None \<and>
         precommit_of n' (sender_round e) (sender e) = None \<and>
         handle_signed_envelope C (snd (node_run C n' inputs)) e' later =
           (Inr progress_default, snd (node_run C n' inputs))"
proof -
  from assms(2-4) obtain k reason ev where
    "exclude_sender C n (sender_height e) (sender_round e) k (sender e) reason ev now = (Inr p, n')"
    by (auto simp: handle_signed_envelope_def equivocates_def sender_defs Let_def
        split: option.splits if_splits sum.splits)
  note effect = exclude_sender_effect[OF assms(1) this]
  have "is_excluded (snd (node_run C n' inputs)) (sender_height e) (sender_round e) (sender e)"
    using ke_run.run_holds[of C n' inputs "fst (node_run C n' inputs)" "snd (node_run C n' inputs)"] effect
    by (simp add: keeps_exclusions_def)
  with assms(5-7) effect show ?thesis
    by (simp add: handle_signed_envelope_def Let_def sender_defs)
qed

definition sample_signed :: "string option \<Rightarrow> consensus_signed_envelope" where
  "sample_signed v =
     \<lparr>se_envelope =
        \<lparr>env_subject = ''s'',
         env_message =
           \<lparr>msg_height = 1, msg_round = 0, msg_previous_commit_hash = ''genesis'',
            msg_from = AgentId ''b'', msg_sent_at_ms = 0, msg_body = Prevote v\<rparr>\<rparr>,
      se_signature =
        \<lparr>ds_algorithm = ''ed25519'', ds_key_id = ''k'', ds_public_key_hex = ''00'',
         ds_signature_hex = ''00''\<rparr>\<rparr>"

lemma sample_signed_hash: "\<exists>h. signed_envelope_hash C (sample_signed v) = Inr h"
proof -
  have "float_free (signed_envelope_json (sample_signed v))"
    by (cases v) (auto simp: signed_envelope_json_def sample_signed_def envelope_json_def
        message_json_def agent_id_json_def json_nat_def json_int_def json_opt_def
        detached_signature_json_def)
  from canonical_bytes_total[OF this, of C] show ?thesis by (auto simp: signed_envelope_hash_def)
qed

theorem equivocator_excluded_witness:
  "\<exists>n n'. node_ok n \<and> equivocates n (sample_signed None) \<and>
     handle_signed_envelope model_crypto n (sample_signed None) 7 = (Inr progress_default, n') \<and>
     handle_signed_envelope model_crypto (snd (node_run model_crypto n' [Tick 9]))
        (sample_signed (Some ''q'')) 10
       = (Inr progress_default, snd (node_run model_crypto n' [Tick 9]))"
proof -
  from started_four obtain m where m: "started model_crypto four 1 ''genesis'' m" by blast
  let ?key = "key_from_message (env_message (se_envelope (sample_signed None)))"
  let ?n = "m\<lparr>cn_local_signing_key := None, cn_excluded_members := Map.empty,
               cn_seen_signed_messages := [?key \<mapsto> sample_signed (Some ''p'')]\<rparr>"
  have ok: "node_ok ?n" using started_ok[OF m] by (simp add: node_ok_def)
  have eq: "equivocates ?n (sample_signed None)"
    by (simp add: equivocates_def) (simp add: sample_signed_def)
  have free: "\<not> is_excluded ?n (sender_height (sample_signed None)) (sender_round (sample_signed None))
      (sender (sample_signed None))"
    by (simp add: is_excluded_def)
  have same: "sender (sample_signed (Some ''q'')) = sender (sample_signed None)"
    "sender_height (sample_signed (Some ''q'')) = sender_height (sample_signed None)"
    "sender_round (sample_signed (Some ''q'')) = sender_round (sample_signed None)"
    by (simp_all add: sample_signed_def sender_defs)
  obtain n' where n': "handle_signed_envelope model_crypto ?n (sample_signed None) 7 = (Inr progress_default, n')"
    using eq free sample_signed_hash[of model_crypto None] sample_signed_hash[of model_crypto "Some ''p''"]
      drop_sender_fields
    by (auto simp: handle_signed_envelope_def equivocates_def sender_defs exclude_sender_def Let_def
        same_identity_def split: option.splits)
  from equivocator_excluded[OF ok eq n' free same] ok eq n' show ?thesis by blast
qed

end
