(* ===== verification/Node_Limits.thy ===== *)
theory Node_Limits
  imports Node_Exclusion
begin

text \<open>
  Where the consensus node promises less than its module comment (\<^verbatim>\<open>Tolerates f Byzantine
  faults with 2f+1 agreement out of 3f+1 voters\<close>): the quorum of committees whose size is
  not \<open>3f + 1\<close>, votes that name only a proposal id, the progress discarded when a later
  round's message arrives, and exclusion on a signature anyone can forge.
\<close>

section \<open>Quorums\<close>

definition voting_node ::
  "consensus_node \<Rightarrow> consensus_proposal \<Rightarrow> (agent_id \<times> string option) list \<Rightarrow> consensus_node" where
  "voting_node n prop votes =
     n\<lparr>cn_proposals := [0 \<mapsto> prop], cn_prevotes := [0 \<mapsto> ballot votes],
       cn_precommits := [0 \<mapsto> ballot votes]\<rparr>"

lemma voting_node_ok:
  "node_ok n \<Longrightarrow> fst ` set votes \<subseteq> set (cc_members (cn_committee n)) \<Longrightarrow>
   node_ok (voting_node n prop votes)"
  using ballot_ok[of votes] subset_trans[of "dom (vl_by_agent (ballot votes))" "fst ` set votes"]
  by (simp add: node_ok_def voting_node_def ledgers_ok_def)

lemma voting_node_commits:
  assumes "cc_threshold (cn_committee n) \<le> ledger_count (ballot votes) (Some (prop_id prop))"
    and "float_free (prop_payload prop)"
  shows "\<exists>p n' c. commit C (voting_node n prop votes) 0 (Some (prop_id prop)) t = (Inr p, n') \<and>
                 cp_commits p = [c] \<and> com_proposal c = prop"
proof -
  have "float_free (commit_json (cn_height n) 0 (cn_previous_commit_hash n) prop)"
    using assms(2) by (simp add: commit_json_def json_nat_def)
  from canonical_bytes_total[OF this, of C] assms(1) show ?thesis
    by (auto simp: commit_def voting_node_def tally_at_def Let_def)
qed

lemma started_exists:
  assumes "a \<in> set members" "2 * max_faulty + 1 \<le> card (set members)" "card (set members) \<le> u64_max"
  shows "\<exists>n. started C members max_faulty previous n"
proof -
  from assms obtain committee where new: "committee_new C members max_faulty = Inr committee"
    using committee_new_exists[of members max_faulty C] by (metis empty_iff list.set(1))
  from committee_new_ok[OF new] assms(1) have "committee_contains committee a"
    by (simp add: committee_contains_def)
  then have "\<exists>n. node_new a None committee consensus_config_default previous 0 = Inr n"
    by (simp add: node_new_def consensus_config_default_def)
  with new show ?thesis unfolding started_def by blast
qed

definition six :: "agent_id list" where
  "six = [AgentId ''a'', AgentId ''b'', AgentId ''c'', AgentId ''d'', AgentId ''e'', AgentId ''f'']"

definition left_votes :: "(agent_id \<times> string option) list" where
  "left_votes = [(AgentId ''a'', Some ''p1''), (AgentId ''b'', Some ''p1''), (AgentId ''c'', Some ''p1'')]"

definition right_votes :: "(agent_id \<times> string option) list" where
  "right_votes = [(AgentId ''d'', Some ''p2''), (AgentId ''e'', Some ''p2''), (AgentId ''f'', Some ''p2'')]"

lemma split_ballots:
  "ledger_count (ballot left_votes) (Some ''p1'') = 3" "vl_by_agent (ballot left_votes) = map_of left_votes"
  "ledger_count (ballot right_votes) (Some ''p2'') = 3" "vl_by_agent (ballot right_votes) = map_of right_votes"
  by (auto simp: left_votes_def right_votes_def ledger_simps Let_def fun_eq_iff)

text \<open>
  The recommended fault bound does not give agreement when the committee is not of size
  \<open>3f + 1\<close>: with six members \<^verbatim>\<open>recommended_max_faulty\<close> is one and the threshold three, and
  two nodes commit different proposals in the same round of the same height although no
  member votes twice.
\<close>

theorem recommended_threshold_splits:
  "\<exists>n p1 p2 n1' n2' c1 c2.
     started C six (recommended_max_faulty (length six)) ''genesis'' n \<and>
     node_ok (voting_node n \<lparr>prop_id = ''p1'', prop_payload = JNull\<rparr> left_votes) \<and>
     node_ok (voting_node n \<lparr>prop_id = ''p2'', prop_payload = JNull\<rparr> right_votes) \<and>
     commit C (voting_node n \<lparr>prop_id = ''p1'', prop_payload = JNull\<rparr> left_votes) 0 (Some ''p1'') 9
       = (Inr p1, n1') \<and> cp_commits p1 = [c1] \<and>
     commit C (voting_node n \<lparr>prop_id = ''p2'', prop_payload = JNull\<rparr> right_votes) 0 (Some ''p2'') 9
       = (Inr p2, n2') \<and> cp_commits p2 = [c2] \<and>
     prop_id (com_proposal c1) \<noteq> prop_id (com_proposal c2) \<and>
     dom (map_of left_votes) \<inter> dom (map_of right_votes) = {}"
proof -
  let ?p1 = "\<lparr>prop_id = ''p1'', prop_payload = JNull\<rparr>" and ?p2 = "\<lparr>prop_id = ''p2'', prop_payload = JNull\<rparr>"
  have f: "recommended_max_faulty (length six) = 1" by (simp add: recommended_max_faulty_def six_def)
  have six: "card (set six) = 6" by (simp add: six_def)
  obtain n where start: "started C six 1 ''genesis'' n"
    using started_exists[of "AgentId ''a''" six 1 C "''genesis''"] six by (auto simp: six_def u64_max_def)
  note committee = started_committee[OF start]
  have n: "node_ok n" using started_ok[OF start] by simp
  have ok: "node_ok (voting_node n ?p1 left_votes)" "node_ok (voting_node n ?p2 right_votes)"
    by (rule voting_node_ok[OF n], simp add: committee, simp add: six_def left_votes_def right_votes_def)+
  have "cc_threshold (cn_committee n) = 3"
    using n committee by (simp add: node_ok_def committee_ok_def)
  with voting_node_commits[of n left_votes ?p1 C 9] voting_node_commits[of n right_votes ?p2 C 9]
    split_ballots obtain q1 m1 c1 q2 m2 c2 where
    "commit C (voting_node n ?p1 left_votes) 0 (Some ''p1'') 9 = (Inr q1, m1)" "cp_commits q1 = [c1]"
    "com_proposal c1 = ?p1"
    "commit C (voting_node n ?p2 right_votes) 0 (Some ''p2'') 9 = (Inr q2, m2)" "cp_commits q2 = [c2]"
    "com_proposal c2 = ?p2"
    by auto
  moreover have "dom (map_of left_votes) \<inter> dom (map_of right_votes) = {}"
    by (auto simp: left_votes_def right_votes_def split: if_splits)
  ultimately show ?thesis using start f ok by (intro exI[of _ n]) auto
qed

text \<open>
  Votes name a proposal id, not its content: two nodes that counted the very same votes
  commit different payloads when the proposer sent them different proposals under one id.
  Only the proposer misbehaves, no member votes twice.
\<close>

theorem votes_do_not_bind_payload:
  "\<exists>n prop prop' p1 p2 n1' n2' c1 c2.
     started C four 1 ''genesis'' n \<and>
     prop_id prop = prop_id prop' \<and> prop_payload prop \<noteq> prop_payload prop' \<and>
     commit C (voting_node n prop votes_at_n1) 0 (Some ''p1'') 9 = (Inr p1, n1') \<and>
     commit C (voting_node n prop' votes_at_n1) 0 (Some ''p1'') 9 = (Inr p2, n2') \<and>
     cp_commits p1 = [c1] \<and> cp_commits p2 = [c2] \<and>
     com_proposal c1 = prop \<and> com_proposal c2 = prop'"
proof -
  let ?p = "\<lparr>prop_id = ''p1'', prop_payload = JNull\<rparr>" and ?p' = "\<lparr>prop_id = ''p1'', prop_payload = JBool True\<rparr>"
  have "card (set four) = 4" by (simp add: four_def)
  then obtain n where start: "started C four 1 ''genesis'' n"
    using started_exists[of "AgentId ''a''" four 1 C "''genesis''"] by (auto simp: four_def u64_max_def)
  have "cc_threshold (cn_committee n) = 3"
    using started_ok[OF start] started_committee[OF start] by (simp add: node_ok_def committee_ok_def)
  with voting_node_commits[of n votes_at_n1 ?p C 9] voting_node_commits[of n votes_at_n1 ?p' C 9]
    ballot_counts start show ?thesis
    by (intro exI[of _ n] exI[of _ ?p] exI[of _ ?p']) auto
qed

section \<open>Catching up to a round\<close>

text \<open>
  A leader that is pulled into its round by another member's vote loses its own
  proposal: the node records the proposal and spends its prevote for the round, but the
  envelopes are dropped. The call reports nothing to send, and whatever the node is given
  later, it never sends a prevote for that round.
\<close>

theorem catch_up_drops_proposal:
  assumes leader: "proposer_for C (cn_committee n) (cn_previous_commit_hash n) (msg_round m) =
      Inr (cn_local_agent_id n)"
    and pending: "cn_pending_local_proposal n = Some prop"
    and later: "cn_round n < msg_round m" "cn_proposals n (msg_round m) = None"
      "cn_prevotes n (msg_round m) = None" "msg_round m \<notin> cn_emitted_prevotes n"
    and vote: "msg_body m = Prevote None" "msg_from m \<noteq> cn_local_agent_id n"
    and valid: "committee_contains (cn_committee n) (msg_from m)" "msg_height m = cn_height n"
      "msg_previous_commit_hash m = cn_previous_commit_hash n"
    and threshold: "1 < cc_threshold (cn_committee n)" and low: "cn_height n < u64_max"
  shows "\<exists>n'. observe_message C n m now = (Inr progress_default, n') \<and>
              cn_proposals n' (msg_round m) = Some prop \<and>
              votes_cast KPrevote (fst (node_run C n' inputs)) (cn_height n) (msg_round m) = []"
proof -
  let ?r = "msg_round m"
  let ?n1 = "n\<lparr>cn_round := ?r, cn_round_started_at_ms := now,
      cn_proposals := (cn_proposals n)(?r \<mapsto> prop),
      cn_emitted_prevotes := insert ?r (cn_emitted_prevotes n), cn_step := StepPrevote,
      cn_prevotes := (cn_prevotes n)(?r \<mapsto> snd (record_vote ledger_empty (cn_local_agent_id n)
        (Some (prop_id prop))))\<rparr>"
  have "\<exists>p. advance_round C n ?r now = (Inr p, ?n1)"
    using leader pending later threshold
    by (simp add: advance_round_def emit_proposal_if_leader_def proposer_for_current_round_def
        observe_local_proposal_def record_proposal_def emit_prevote_def cast_prevote_def
        ledger_at_def ledger_simps Let_def)
  moreover have "dispatch_body C ?n1 m now =
      (Inr progress_default, ?n1\<lparr>cn_prevotes := (cn_prevotes ?n1)(?r \<mapsto> snd (record_vote
        (the (cn_prevotes ?n1 ?r)) (msg_from m) None))\<rparr>)"
    using vote threshold
    by (simp add: dispatch_body_def observe_prevote_def cast_prevote_def ledger_at_def
        ledger_simps Let_def)
  ultimately obtain n' where n': "observe_message C n m now = (Inr progress_default, n')"
    "cn_proposals n' ?r = Some prop" "?r \<in> cn_emitted_prevotes n'" "cn_height n' = cn_height n"
    using later valid by (auto simp: observe_message_def)
  obtain p n'' where run: "node_run C n' inputs = (p, n'')" by fastforce
  from one_voteD[OF pv_run.run_holds[OF run], of "cn_height n" ?r] n' low
  have "votes_cast KPrevote p (cn_height n) ?r = []" by (simp add: spent_def split: if_splits)
  with n' run show ?thesis by auto
qed

definition nil_prevote :: "agent_id \<Rightarrow> consensus_message" where
  "nil_prevote a = \<lparr>msg_height = 1, msg_round = 1, msg_previous_commit_hash = ''genesis'',
     msg_from = a, msg_sent_at_ms = 0, msg_body = Prevote None\<rparr>"

theorem catch_up_drops_proposal_witness:
  "\<exists>n a n'. cn_pending_local_proposal n = Some sample_proposal \<and> cn_round n < 1 \<and>
     proposer_for model_crypto (cn_committee n) (cn_previous_commit_hash n) 1 = Inr (cn_local_agent_id n) \<and>
     observe_message model_crypto n (nil_prevote a) 5 = (Inr progress_default, n') \<and>
     cn_proposals n' 1 = Some sample_proposal \<and>
     votes_cast KPrevote (fst (node_run model_crypto n' [Tick 9000])) 1 1 = []"
proof -
  from started_four obtain m where m: "started model_crypto four 1 ''genesis'' m" by blast
  note committee = started_committee[OF m]
  from m have fields: "cn_round m = 0" "cn_proposals m = Map.empty" "cn_prevotes m = Map.empty"
    by (auto simp: started_def node_new_def split: if_splits)
  have "cc_members (cn_committee m) \<noteq> []" using committee by (auto simp: four_def)
  from proposer_for_member[OF this, of model_crypto "''genesis''" 1] obtain leader where
    leader: "proposer_for model_crypto (cn_committee m) ''genesis'' 1 = Inr leader" by blast
  let ?n = "m\<lparr>cn_local_agent_id := leader, cn_pending_local_proposal := Some sample_proposal\<rparr>"
  obtain a where a: "a \<in> set four" "a \<noteq> leader"
    by (cases "leader = AgentId ''a''") (auto simp: four_def)
  have "committee_contains (cn_committee m) a" using a committee by (simp add: committee_contains_def)
  moreover have "1 < cc_threshold (cn_committee m)"
    using started_ok[OF m] committee by (simp add: node_ok_def committee_ok_def)
  ultimately have "\<exists>n'. observe_message model_crypto ?n (nil_prevote a) 5 = (Inr progress_default, n') \<and>
      cn_proposals n' (msg_round (nil_prevote a)) = Some sample_proposal \<and>
      votes_cast KPrevote (fst (node_run model_crypto n' [Tick 9000])) (cn_height ?n)
        (msg_round (nil_prevote a)) = []"
    using leader fields started_ok[OF m] a
    by (intro catch_up_drops_proposal) (simp_all add: nil_prevote_def u64_max_def)
  moreover have "msg_round (nil_prevote a) = 1" "cn_height ?n = 1"
    using started_ok[OF m] by (simp_all add: nil_prevote_def)
  ultimately obtain n' where "observe_message model_crypto ?n (nil_prevote a) 5 = (Inr progress_default, n')"
    "cn_proposals n' 1 = Some sample_proposal"
    "votes_cast KPrevote (fst (node_run model_crypto n' [Tick 9000])) 1 1 = []" by auto
  with leader fields started_ok[OF m] show ?thesis
    by (intro exI[of _ ?n] exI[of _ a] exI[of _ n']) simp
qed

section \<open>Forged exclusion\<close>

text \<open>
  Exclusion does not need the sender's signature: any envelope that names a member and
  fails verification excludes that member for the height and round, whoever sent it.
\<close>

theorem forged_envelope_excludes:
  assumes "node_ok n" and "signed_envelope_verify C e = Inl err"
    and "cn_seen_signed_messages n (key_from_message (env_message (se_envelope e))) = None"
    and "handle_signed_envelope C n e now = (Inr p, n')"
  shows "is_excluded n' (sender_height e) (sender_round e) (sender e)"
proof (cases "is_excluded n (sender_height e) (sender_round e) (sender e)")
  case True
  with assms(4) show ?thesis by (auto simp: handle_signed_envelope_def sender_defs Let_def)
next
  case False
  with assms(2-4) obtain k reason ev where
    "exclude_sender C n (sender_height e) (sender_round e) k (sender e) reason ev now = (Inr p, n')"
    by (auto simp: handle_signed_envelope_def sender_defs Let_def split: sum.splits)
  from exclude_sender_effect[OF assms(1) this] show ?thesis by blast
qed

theorem forged_envelope_excludes_witness:
  "\<exists>n p n'. node_ok n \<and>
     handle_signed_envelope model_crypto n (sample_signed None) 7 = (Inr p, n') \<and>
     is_excluded n' 1 0 (AgentId ''b'')"
proof -
  from started_four obtain m where m: "started model_crypto four 1 ''genesis'' m" by blast
  let ?n = "m\<lparr>cn_local_signing_key := None\<rparr>" and ?e = "sample_signed None"
  have ok: "node_ok ?n" using started_ok[OF m] by (simp add: node_ok_def)
  have empty: "cn_seen_signed_messages ?n = Map.empty" "cn_excluded_members ?n = Map.empty"
    using m by (auto simp: started_def node_new_def split: if_splits)
  have "public_key_from_hex model_crypto ''00'' = Inl (InvalidPublicKey (''expected 32 bytes, got '' @ dec_nat 1))"
    by (simp add: public_key_from_hex_def model_crypto_def strip_0x_def starts_with_def nibbles_def)
  then have "\<exists>err. signed_envelope_verify model_crypto ?e = Inl err"
    by (simp add: signed_envelope_verify_def verify_signed_def verify_detached_signature_def
        sample_signed_def Let_def split: sum.splits)
  then obtain err where bad: "signed_envelope_verify model_crypto ?e = Inl err" by blast
  obtain n' where n': "handle_signed_envelope model_crypto ?n ?e 7 = (Inr progress_default, n')"
    using bad empty sample_signed_hash[of model_crypto None] drop_sender_fields
    by (auto simp: handle_signed_envelope_def is_excluded_def exclude_sender_def Let_def
        same_identity_def split: option.splits)
  from forged_envelope_excludes[OF ok bad _ n'] ok n' empty show ?thesis
    by (auto simp: sender_defs sample_signed_def)
qed

end
