(* ===== verification/Consensus_Drive.thy ===== *)
theory Consensus_Drive
  imports Node_Exclusion
begin

text \<open>
  The round driver and the transport seam (\<^verbatim>\<open>crates/swarm-consensus/src/transport.rs\<close>).
  The trait \<^verbatim>\<open>ConsensusTransport\<close> is a record of operations on a transport state, because
  its implementations mutate behind locks; \<^verbatim>\<open>SoloGovernorTransport\<close> is the one
  implementation of the crate. The driver's loop is a \<open>partial_function\<close>: \<open>None\<close> is a loop
  that does not end, and that it ends is a theorem.
\<close>

record 't consensus_transport =
  tr_accept_committee :: "'t \<Rightarrow> consensus_committee \<Rightarrow> consensus_error + unit"
  tr_publish :: "'t \<Rightarrow> consensus_signed_envelope \<Rightarrow> (consensus_error + unit) \<times> 't"
  tr_drain :: "'t \<Rightarrow> (consensus_error + consensus_signed_envelope list) \<times> 't"

section \<open>The solo transport\<close>

definition SOLO_TRANSPORT_RECENT_CAPACITY :: usize where
  "SOLO_TRANSPORT_RECENT_CAPACITY = 64"

record solo_governor_transport =
  st_recent :: "consensus_signed_envelope list"
  st_published_total :: u64

definition solo_transport_new :: solo_governor_transport where
  "solo_transport_new = \<lparr>st_recent = [], st_published_total = 0\<rparr>"

definition solo_accept_committee ::
  "solo_governor_transport \<Rightarrow> consensus_committee \<Rightarrow> consensus_error + unit" where
  "solo_accept_committee t committee =
     (if 1 < length (cc_members committee) then
        Inl (InvalidCommittee (''SoloGovernorTransport cannot serve a committee of ''
          @ dec_nat (length (cc_members committee))
          @ '' members: it delivers no messages, so every peer vote would be missing and the round would either stall or commit on the local vote alone. Wire a networked transport.''))
      else Inr ())"

text \<open>The trimming loop pops from the front until the capacity is respected.\<close>

fun trim_recent :: "'a list \<Rightarrow> 'a list" where
  "trim_recent recent =
     (if SOLO_TRANSPORT_RECENT_CAPACITY < length recent
      then (case recent of [] \<Rightarrow> [] | _ # rest \<Rightarrow> trim_recent rest) else recent)"

declare trim_recent.simps [simp del]

definition solo_publish ::
  "solo_governor_transport \<Rightarrow> consensus_signed_envelope \<Rightarrow>
   (consensus_error + unit) \<times> solo_governor_transport" where
  "solo_publish t envelope =
     (Inr (), t\<lparr>st_recent := trim_recent (st_recent t @ [envelope]),
               st_published_total := u64_saturating_add (st_published_total t) 1\<rparr>)"

definition solo_drain ::
  "solo_governor_transport \<Rightarrow>
   (consensus_error + consensus_signed_envelope list) \<times> solo_governor_transport" where
  "solo_drain t = (Inr [], t)"

definition solo_governor_ops :: "solo_governor_transport consensus_transport" where
  "solo_governor_ops =
     \<lparr>tr_accept_committee = solo_accept_committee, tr_publish = solo_publish, tr_drain = solo_drain\<rparr>"

section \<open>The driver\<close>

text \<open>Sign with the node's own key and publish, in order, stopping at the first error.\<close>

fun publish_all ::
  "crypto_lib \<Rightarrow> 't consensus_transport \<Rightarrow> consensus_node \<Rightarrow> consensus_envelope list \<Rightarrow> 't \<Rightarrow>
   (consensus_error + unit) \<times> 't" where
  "publish_all C T node [] t = (Inr (), t)"
| "publish_all C T node (envelope # outbound) t =
     (case sign_outbound C node envelope of
        Inl e \<Rightarrow> (Inl e, t)
      | Inr sealed \<Rightarrow>
          (case tr_publish T t sealed of
             (Inl e, t) \<Rightarrow> (Inl e, t)
           | (Inr _, t) \<Rightarrow> publish_all C T node outbound t))"

type_synonym 't drive_result = "(consensus_error + consensus_commit) \<times> consensus_node \<times> 't"

text \<open>A reported commit is published and returned; otherwise the outbound envelopes are queued.\<close>

definition finish_commit ::
  "crypto_lib \<Rightarrow> 't consensus_transport \<Rightarrow> consensus_node \<Rightarrow> consensus_envelope list \<Rightarrow>
   consensus_commit \<Rightarrow> 't \<Rightarrow> 't drive_result" where
  "finish_commit C T node outbound c t =
     (case publish_all C T node outbound t of
        (Inl e, t) \<Rightarrow> (Inl e, node, t)
      | (Inr _, t) \<Rightarrow> (Inr c, node, t))"

datatype 't delivery =
    Stop "(consensus_error + consensus_commit) \<times> consensus_node \<times> 't"
  | Go consensus_node u64 "consensus_envelope list"

fun deliver ::
  "crypto_lib \<Rightarrow> 't consensus_transport \<Rightarrow> u64 \<Rightarrow> i64 \<Rightarrow> consensus_signed_envelope list \<Rightarrow>
   consensus_node \<Rightarrow> u64 \<Rightarrow> consensus_envelope list \<Rightarrow> 't \<Rightarrow> 't delivery" where
  "deliver C T max_inbound now_ms [] node handled outbound t = Go node handled outbound"
| "deliver C T max_inbound now_ms (envelope # inbound) node handled outbound t =
     (let handled = u64_saturating_add handled 1 in
      if max_inbound < handled then
        Stop (Inl (Transport (''transport delivered more than '' @ dec_nat max_inbound
          @ '' envelopes for one round of a                      ''
          @ dec_nat (length (cc_members (cn_committee node)))
          @ ''-member committee; refusing to spin'')), node, t)
      else case handle_signed_envelope C node envelope now_ms of
        (Inl e, node) \<Rightarrow> Stop (Inl e, node, t)
      | (Inr progress, node) \<Rightarrow>
          (case cp_commits progress of
             c # _ \<Rightarrow> Stop (finish_commit C T node (cp_outbound progress) c t)
           | [] \<Rightarrow> deliver C T max_inbound now_ms inbound node handled
                    (outbound @ cp_outbound progress) t))"

record drive_budget =
  db_last_round :: u64
  db_round_timeout_ms :: i64
  db_budget_ms :: i64
  db_max_inbound :: u64

definition budget_of :: "consensus_node \<Rightarrow> drive_budget" where
  "budget_of node =
     (let committee = cn_committee node;
          last_round = cc_max_faulty committee;
          timeout = cfg_round_timeout_ms (cn_config node)
      in \<lparr>db_last_round = last_round,
          db_round_timeout_ms = timeout,
          db_budget_ms = i64_saturating_mul timeout (u64_as_i64 (u64_saturating_add last_round 1)),
          db_max_inbound =
            u64_saturating_add
              (u64_saturating_mul
                (u64_saturating_mul (u64_saturating_add last_round 1) 3)
                (length (cc_members committee))) 8\<rparr>)"

definition round_exhausted :: "drive_budget \<Rightarrow> consensus_node \<Rightarrow> consensus_error" where
  "round_exhausted b node =
     InvalidMessage (''governance round did not reach threshold ''
       @ dec_nat (cc_threshold (cn_committee node)) @ '' of committee size ''
       @ dec_nat (length (cc_members (cn_committee node))) @ '' within ''
       @ dec_int (db_budget_ms b) @ '' ms (round_timeout_ms ''
       @ dec_int (db_round_timeout_ms b) @ '' x max_faulty+1 ''
       @ dec_nat (u64_saturating_add (db_last_round b) 1) @ '')'')"

partial_function (option) drive_loop ::
  "crypto_lib \<Rightarrow> 't consensus_transport \<Rightarrow> drive_budget \<Rightarrow> consensus_node \<Rightarrow> 't \<Rightarrow>
   consensus_envelope list \<Rightarrow> u64 \<Rightarrow> i64 \<Rightarrow> 't drive_result option" where
  "drive_loop C T b node t outbound handled now_ms =
     (case publish_all C T node outbound t of
        (Inl e, t) \<Rightarrow> Some (Inl e, node, t)
      | (Inr _, t) \<Rightarrow>
        (case tr_drain T t of
           (Inl e, t) \<Rightarrow> Some (Inl e, node, t)
         | (Inr inbound, t) \<Rightarrow>
           (case deliver C T (db_max_inbound b) now_ms inbound node handled [] t of
              Stop result \<Rightarrow> Some result
            | Go node handled outbound \<Rightarrow>
                if inbound \<noteq> [] then drive_loop C T b node t outbound handled now_ms
                else if db_last_round b \<le> cn_round node then
                  Some (Inl (round_exhausted b node), node, t)
                else
                  (case tick C node (i64_saturating_add now_ms (db_round_timeout_ms b)) of
                     (Inl e, node) \<Rightarrow> Some (Inl e, node, t)
                   | (Inr progress, node) \<Rightarrow>
                       (case cp_commits progress of
                          c # _ \<Rightarrow> Some (finish_commit C T node (cp_outbound progress) c t)
                        | [] \<Rightarrow> drive_loop C T b node t (outbound @ cp_outbound progress) handled
                                 (i64_saturating_add now_ms (db_round_timeout_ms b)))))))"

definition drive_round ::
  "crypto_lib \<Rightarrow> 't consensus_transport \<Rightarrow> consensus_node \<Rightarrow> 't \<Rightarrow> consensus_proposal \<Rightarrow> i64 \<Rightarrow>
   't drive_result option" where
  "drive_round C T node t proposal started_at_ms =
     (case tr_accept_committee T t (cn_committee node) of
        Inl e \<Rightarrow> Some (Inl e, node, t)
      | Inr _ \<Rightarrow>
         let b = budget_of node in
         (case queue_proposal C node proposal started_at_ms of
            (Inl e, node) \<Rightarrow> Some (Inl e, node, t)
          | (Inr progress, node) \<Rightarrow>
              (case cp_commits progress of
                 c # _ \<Rightarrow> Some (finish_commit C T node (cp_outbound progress) c t)
               | [] \<Rightarrow> drive_loop C T b node t (cp_outbound progress) 0 started_at_ms)))"

section \<open>What delivery keeps\<close>

lemma deliver_ConsE:
  assumes "deliver C T m now (e # inbound) n h out t = Go n' h' out'"
  obtains p n1 where "handle_signed_envelope C n e now = (Inr p, n1)"
    "u64_saturating_add h 1 \<le> m"
    "deliver C T m now inbound n1 (u64_saturating_add h 1) (out @ cp_outbound p) t = Go n' h' out'"
  using assms by (auto simp: Let_def split: if_splits prod.splits sum.splits list.splits)

lemma deliver_handled:
  "deliver C T m now inbound n h out t = Go n' h' out' \<Longrightarrow> h \<le> m \<Longrightarrow> m < u64_max \<Longrightarrow>
   h + length inbound \<le> h' \<and> h' \<le> m"
proof (induction inbound arbitrary: n h out)
  case (Cons e inbound)
  from Cons.prems(1) obtain p n1 where "handle_signed_envelope C n e now = (Inr p, n1)"
    "u64_saturating_add h 1 \<le> m"
    "deliver C T m now inbound n1 (u64_saturating_add h 1) (out @ cp_outbound p) t = Go n' h' out'"
    by (rule deliver_ConsE)
  with Cons.IH Cons.prems(2,3) show ?case by (fastforce simp: u64_saturating_add_def min_def split: if_splits)
qed simp

context node_contract
begin

lemma deliver_holds:
  "deliver C T m now inbound n h out t = Go n' h' out' \<Longrightarrow> R n progress_default n'"
proof (induction inbound arbitrary: n h out)
  case Nil
  then show ?case using keep by simp
next
  case (Cons e inbound)
  from Cons.prems obtain p n1 where
    step: "handle_signed_envelope C n e now = (Inr p, n1)" "u64_saturating_add h 1 \<le> m"
      "deliver C T m now inbound n1 (u64_saturating_add h 1) (out @ cp_outbound p) t = Go n' h' out'"
    by (rule deliver_ConsE)
  from forget[OF handle_signed_envelope_holds[OF step(1)]] Cons.IH[OF step(3)] show ?case
    by (rule after)
qed

end

section \<open>The clock of the driver\<close>

text \<open>The round timer never runs ahead of the clock the operations are given.\<close>

definition paced :: "i64 \<Rightarrow> consensus_node \<Rightarrow> consensus_progress \<Rightarrow> consensus_node \<Rightarrow> bool" where
  "paced now n p n' \<longleftrightarrow>
     cn_committee n' = cn_committee n \<and> cn_config n' = cn_config n \<and>
     (0 \<le> cn_round_started_at_ms n \<and> cn_round_started_at_ms n \<le> now \<longrightarrow>
      0 \<le> cn_round_started_at_ms n' \<and> cn_round_started_at_ms n' \<le> now)"

lemma pacedI:
  "same_identity n n' \<Longrightarrow> cn_round_started_at_ms n' \<in> {cn_round_started_at_ms n, now} \<Longrightarrow>
   paced now n p n'"
  by (auto simp: paced_def same_identity_def)

lemma commit_started:
  "commit C n r v now = (res, n') \<Longrightarrow> cn_round_started_at_ms n' \<in> {cn_round_started_at_ms n, now}"
  by (auto simp: commit_def Let_def split: option.splits if_splits sum.splits)

lemma drop_sender_started:
  "cn_round_started_at_ms (drop_sender_round_contributions C n r a) = cn_round_started_at_ms n"
  by (auto simp: drop_sender_round_contributions_def Let_def split: option.splits)

lemma cast_started:
  "cast_prevote n r a v = (w, n') \<Longrightarrow> cn_round_started_at_ms n' = cn_round_started_at_ms n"
  "cast_precommit n r a v = (w, n') \<Longrightarrow> cn_round_started_at_ms n' = cn_round_started_at_ms n"
  by (auto simp: cast_prevote_def cast_precommit_def split: prod.splits)

interpretation clk: node_contract C now "paced now"
proof (unfold_locales, goal_cases keep compose forget committee enter pending noted announce
    prevote precommit own_prevote own_precommit commit remember exclude)
  case (commit n r v res n')
  then show ?case by (intro pacedI same_identity_commit commit_started)
next
  case (own_prevote r n v w n')
  with same_identity_cast(1)[OF own_prevote(2)] cast_started(1)[OF own_prevote(2)] show ?case
    by (intro pacedI) (auto simp: same_identity_def)
next
  case (own_precommit r n v w n')
  with same_identity_cast(2)[OF own_precommit(2)] cast_started(2)[OF own_precommit(2)] show ?case
    by (intro pacedI) (auto simp: same_identity_def)
next
  case (exclude excluded n h r a receipts)
  show ?case
    using drop_sender_fields[of "n\<lparr>cn_excluded_members := excluded\<rparr>" C r a]
      drop_sender_started[of C "n\<lparr>cn_excluded_members := excluded\<rparr>" r a]
    by (intro pacedI) (auto simp: same_identity_def)
qed (auto simp: paced_def dest: same_identity_cast cast_started simp: same_identity_def)

section \<open>Ticks\<close>

text \<open>An operation that reports no commit leaves the round alone.\<close>

lemma commit_silent:
  "commit C n r v now = (Inr p, n') \<Longrightarrow> cp_commits p = [] \<Longrightarrow> cn_round n' = cn_round n"
  by (erule commit_cases) auto

lemma cast_round:
  "cast_prevote n r a v = (w, n') \<Longrightarrow> cn_round n' = cn_round n"
  "cast_precommit n r a v = (w, n') \<Longrightarrow> cn_round n' = cn_round n"
  by (auto simp: cast_prevote_def cast_precommit_def split: prod.splits)

lemma emit_precommit_silent:
  "emit_precommit C n r v now = (Inr p, n') \<Longrightarrow> cp_commits p = [] \<Longrightarrow> cn_round n' = cn_round n"
  by (auto simp: emit_precommit_def Let_def dest!: commit_silent cast_round(2)
      split: if_splits prod.splits sum.splits)

lemma emit_prevote_silent:
  "emit_prevote C n r v now = (Inr p, n') \<Longrightarrow> cp_commits p = [] \<Longrightarrow> cn_round n' = cn_round n"
  by (auto simp: emit_prevote_def Let_def dest!: emit_precommit_silent cast_round(1)
      split: if_splits prod.splits sum.splits)

lemma record_proposal_round: "record_proposal C n a r prop = (w, n') \<Longrightarrow> cn_round n' = cn_round n"
  by (auto simp: record_proposal_def split: sum.splits if_splits option.splits)

lemma emit_proposal_if_leader_silent:
  "emit_proposal_if_leader C n now = (Inr p, n') \<Longrightarrow> cp_commits p = [] \<Longrightarrow> cn_round n' = cn_round n"
  by (auto simp: emit_proposal_if_leader_def observe_local_proposal_def Let_def
      dest!: emit_prevote_silent record_proposal_round
      split: if_splits prod.splits sum.splits option.splits)

lemma tick_advances:
  assumes "tick C n now = (Inr p, n')" "cp_commits p = []"
    and "0 \<le> cn_round_started_at_ms n" "cn_round_started_at_ms n + cfg_round_timeout_ms (cn_config n) \<le> now"
  shows "cn_round n' = cn_round n + 1"
proof -
  from assms(1,4) obtain target where
    "u64_add (cn_round n) 1 = Some target" "advance_round C n target now = (Inr p, n')"
    by (auto simp: tick_def i64_sub_def split: option.splits if_splits)
  then have "target = cn_round n + 1"
    "advance_round C n (cn_round n + 1) now = (Inr p, n')" by (auto simp: u64_add_def split: if_splits)
  with assms(2) show ?thesis
    by (auto simp: advance_round_def Let_def dest!: emit_proposal_if_leader_silent
        split: prod.splits sum.splits)
qed

section \<open>Termination\<close>

definition drive_rank :: "drive_budget \<Rightarrow> consensus_node \<Rightarrow> u64 \<Rightarrow> nat" where
  "drive_rank b n handled =
     (db_max_inbound b - handled) * (db_last_round b + 1) + (db_last_round b - cn_round n)"

lemma rank_inbound:
  assumes "handled < handled'" "handled' \<le> db_max_inbound b"
  shows "drive_rank b n' handled' < drive_rank b n handled"
proof -
  have "(db_max_inbound b - handled') * (db_last_round b + 1) + (db_last_round b + 1)
      \<le> (db_max_inbound b - handled) * (db_last_round b + 1)"
    using assms mult_le_mono1[of "db_max_inbound b - handled' + 1" "db_max_inbound b - handled"
        "db_last_round b + 1"] by (simp add: algebra_simps)
  then show ?thesis unfolding drive_rank_def by linarith
qed

lemma drive_loop_returns:
  assumes "0 \<le> cn_round_started_at_ms n" "cn_round_started_at_ms n \<le> now"
    and "db_round_timeout_ms b = cfg_round_timeout_ms (cn_config n)" "0 < db_round_timeout_ms b"
    and "now + db_round_timeout_ms b * int (drive_rank b n handled) \<le> i64_max"
    and "handled \<le> db_max_inbound b" "db_max_inbound b < u64_max"
  shows "drive_loop C T b n t outbound handled now \<noteq> None"
  using assms
proof (induction "drive_rank b n handled" arbitrary: n t outbound handled now rule: less_induct)
  case less
  note unfold_loop = drive_loop.simps[of C T b n t outbound handled now]
  have later: "drive_loop C T b n' t' outbound' handled' now \<noteq> None"
    if "paced now n progress_default n'" "handled < handled'" "handled' \<le> db_max_inbound b" for n' t' outbound' handled'
  proof (rule less.hyps)
    show smaller: "drive_rank b n' handled' < drive_rank b n handled" using that(2,3) by (rule rank_inbound)
    have "db_round_timeout_ms b * int (drive_rank b n' handled') \<le> db_round_timeout_ms b * int (drive_rank b n handled)"
      using smaller less.prems(4) by (intro mult_left_mono) auto
    with less.prems(5) show "now + db_round_timeout_ms b * int (drive_rank b n' handled') \<le> i64_max" by linarith
  qed (use that less.prems in \<open>auto simp: paced_def\<close>)
  have ticked: "drive_loop C T b n' t' outbound' handled
      (i64_saturating_add now (db_round_timeout_ms b)) \<noteq> None"
    if running: "cn_round n < db_last_round b"
      and tick: "tick C n (i64_saturating_add now (db_round_timeout_ms b)) = (Inr p, n')" "cp_commits p = []"
    for p n' t' outbound'
  proof -
    have pos: "1 \<le> drive_rank b n handled" using running by (simp add: drive_rank_def)
    then have "db_round_timeout_ms b * 1 \<le> db_round_timeout_ms b * int (drive_rank b n handled)"
      using less.prems(4) by (intro mult_left_mono) auto
    with less.prems have "now + db_round_timeout_ms b \<le> i64_max" "0 \<le> now + db_round_timeout_ms b"
      by linarith+
    then have at: "i64_saturating_add now (db_round_timeout_ms b) = now + db_round_timeout_ms b"
      unfolding i64_saturating_add_def by (intro i64_clamp_id) (simp add: in_i64_def i64_min_def)
    have round: "cn_round n' = cn_round n + 1"
      using tick_advances[OF tick] less.prems(1-3) at by simp
    have paced: "paced (now + db_round_timeout_ms b) n (produced (Inr p)) n'"
      using clk.tick_holds[OF tick(1)] at by simp
    have rank: "drive_rank b n' handled + 1 = drive_rank b n handled"
      using running round by (simp add: drive_rank_def)
    then have "now + db_round_timeout_ms b + db_round_timeout_ms b * int (drive_rank b n' handled) =
        now + db_round_timeout_ms b * int (drive_rank b n handled)"
      by (simp flip: rank add: algebra_simps)
    with less.prems rank paced show ?thesis
      unfolding at by (intro less.hyps) (auto simp: paced_def)
  qed
  obtain pr t1 where pub: "publish_all C T n outbound t = (pr, t1)" by fastforce
  obtain dr t2 where dr: "tr_drain T t1 = (dr, t2)" by fastforce
  show ?case
  proof (cases pr)
    case (Inl e)
    with pub show ?thesis by (simp add: unfold_loop)
  next
    case pub_ok: (Inr u)
    show ?thesis
    proof (cases dr)
      case (Inl e)
      with pub pub_ok dr show ?thesis by (simp add: unfold_loop)
    next
      case (Inr inbound)
      note so_far = pub pub_ok dr Inr
      show ?thesis
      proof (cases "deliver C T (db_max_inbound b) now inbound n handled [] t2")
        case (Stop result)
        with so_far show ?thesis by (simp add: unfold_loop)
      next
        case (Go n1 h1 out1)
        show ?thesis
        proof (cases "inbound = []")
          case False
          with deliver_handled[OF Go less.prems(6,7)] later[OF clk.deliver_holds[OF Go], of h1 t2 out1] so_far Go
          show ?thesis by (cases inbound) (auto simp: unfold_loop)
        next
          case True
          with Go have same: "n1 = n" "h1 = handled" "out1 = []" by auto
          obtain tr n2 where tr: "tick C n (i64_saturating_add now (db_round_timeout_ms b)) = (tr, n2)"
            by fastforce
          from so_far Go True same tr ticked[of _ n2 t2] show ?thesis
            by (auto simp: unfold_loop not_le simp del: not_None_eq split: sum.splits list.splits)
        qed
      qed
    qed
  qed
qed

section \<open>Soundness\<close>

lemma finish_commit_result:
  "finish_commit C T n out c t = (Inr c', n', t') \<Longrightarrow> c' = c"
  by (auto simp: finish_commit_def split: prod.splits sum.splits)

lemma deliver_backed:
  "deliver C T m now inbound n h out t = Stop (Inr c, n', t') \<Longrightarrow> node_ok n \<Longrightarrow>
   quorum_backed (cn_committee n) c"
proof (induction inbound arbitrary: n h out)
  case (Cons e inbound)
  obtain res n1 where res: "handle_signed_envelope C n e now = (res, n1)" by fastforce
  note backed = cb.handle_signed_envelope_holds[OF res]
  then have n1: "node_ok n1" "cn_committee n1 = cn_committee n"
    using Cons.prems(2) by (auto simp: commits_backed_def keeps_ok_def same_identity_def)
  from Cons.prems(1) res obtain p where p: "res = Inr p"
    by (auto simp: Let_def split: if_splits sum.splits)
  show ?case
  proof (cases "cp_commits p")
    case Nil
    with Cons.prems(1) res p have "deliver C T m now inbound n1 (u64_saturating_add h 1)
        (out @ cp_outbound p) t = Stop (Inr c, n', t')" by (auto simp: Let_def split: if_splits)
    from Cons.IH[OF this n1(1)] n1(2) show ?thesis by simp
  next
    case (Cons c0 cs)
    with \<open>deliver C T m now (e # inbound) n h out t = Stop (Inr c, n', t')\<close> res p
    have "c = c0" by (auto simp: Let_def dest: finish_commit_result split: if_splits)
    with backed p Cons \<open>node_ok n\<close> show ?thesis by (simp add: commits_backed_def)
  qed
qed simp

lemma drive_loop_backed:
  assumes "drive_loop C T b n t outbound handled now = Some y"
  shows "node_ok n \<longrightarrow> (\<forall>c. fst y = Inr c \<longrightarrow> quorum_backed (cn_committee n) c)"
proof (rule drive_loop.raw_induct[OF _ assms], goal_cases)
  case (1 loop C T b n t outbound handled now y)
  show ?case
  proof (intro impI allI)
    fix c assume ok: "node_ok n" and "fst y = Inr c"
    then obtain n' t' where c: "y = (Inr c, n', t')" by (cases y) auto
    obtain pr t1 where pub: "publish_all C T n outbound t = (pr, t1)" by fastforce
    obtain dr t2 where dr: "tr_drain T t1 = (dr, t2)" by fastforce
    from 1(2) pub c obtain u where pr: "pr = Inr u" by (cases pr) auto
    from 1(2) pub pr dr c obtain inbound where inbound: "dr = Inr inbound" by (cases dr) auto
    note so_far = pub pr dr inbound
    show "quorum_backed (cn_committee n) c"
    proof (cases "deliver C T (db_max_inbound b) now inbound n handled [] t2")
      case (Stop result)
      with 1(2) so_far c have "result = (Inr c, n', t')" by simp
      with Stop have "deliver C T (db_max_inbound b) now inbound n handled [] t2 = Stop (Inr c, n', t')"
        by simp
      then show ?thesis using ok by (rule deliver_backed)
    next
      case (Go n1 h1 out1)
      from inv.deliver_holds[OF Go] ok have n1: "node_ok n1" "cn_committee n1 = cn_committee n"
        by (auto simp: keeps_ok_def same_identity_def)
      obtain tr n2 where tr: "tick C n1 (i64_saturating_add now (db_round_timeout_ms b)) = (tr, n2)"
        by fastforce
      note backed = cb.tick_holds[OF tr]
      from backed n1 have n2: "node_ok n2" "cn_committee n2 = cn_committee n"
        by (auto simp: commits_backed_def keeps_ok_def same_identity_def)
      show ?thesis
      proof (cases "inbound = []")
        case False
        with 1(2) so_far Go c have "loop C T b n1 t2 out1 h1 now = Some (Inr c, n', t')" by simp
        from 1(1)[OF this] n1 show ?thesis by simp
      next
        case True
        with 1(2) so_far Go c tr obtain p where p: "tr = Inr p" by (auto split: if_splits sum.splits)
        show ?thesis
        proof (cases "cp_commits p")
          case Nil
          with 1(2) so_far Go c tr p True
          have "loop C T b n2 t2 (out1 @ cp_outbound p) h1
              (i64_saturating_add now (db_round_timeout_ms b)) = Some (Inr c, n', t')"
            by (auto split: if_splits)
          from 1(1)[OF this] n2 show ?thesis by simp
        next
          case (Cons c0 cs)
          with 1(2) so_far Go c tr p True have "c = c0"
            by (auto split: if_splits dest: finish_commit_result)
          with backed p Cons n1 show ?thesis by (simp add: commits_backed_def)
        qed
      qed
    qed
  qed
qed

section \<open>Transports\<close>

text \<open>
  What the documentation of the trait asks of an implementation: a committee it cannot
  serve is refused before the round starts, and publishing hands over every envelope.
\<close>

locale transport_contract =
  fixes T :: "'t consensus_transport" and serves :: "consensus_committee \<Rightarrow> bool"
    and published :: "'t \<Rightarrow> consensus_signed_envelope list \<Rightarrow> 't"
  assumes accept: "tr_accept_committee T t committee = Inr u \<longleftrightarrow> serves committee"
    and publish: "tr_publish T t e = (Inr (), published t [e])"
    and published_Nil: "published t [] = t"
    and published_append: "published (published t es) es' = published t (es @ es')"
begin

lemma refused_round:
  assumes "\<not> serves (cn_committee n)"
  shows "\<exists>e. drive_round C T n t prop now = Some (Inl e, n, t)"
proof -
  obtain e where "tr_accept_committee T t (cn_committee n) = Inl e"
    using assms accept by (cases "tr_accept_committee T t (cn_committee n)") auto
  then show ?thesis by (simp add: drive_round_def)
qed

lemma publish_all_ok:
  "(\<And>e. e \<in> set out \<Longrightarrow> \<exists>s. sign_outbound C n e = Inr s) \<Longrightarrow>
   \<exists>sealed. publish_all C T n out t = (Inr (), published t sealed) \<and>
            list_all2 (\<lambda>e s. sign_outbound C n e = Inr s) out sealed"
proof (induction out arbitrary: t)
  case Nil
  then show ?case by (simp add: published_Nil)
next
  case (Cons e out)
  from Cons.prems obtain s where s: "sign_outbound C n e = Inr s" by fastforce
  from Cons.IH[of "published t [s]"] Cons.prems obtain sealed where
    "publish_all C T n out (published t [s]) = (Inr (), published (published t [s]) sealed)"
    "list_all2 (\<lambda>e s. sign_outbound C n e = Inr s) out sealed" by auto
  with s show ?case by (intro exI[of _ "s # sealed"]) (simp add: publish published_append)
qed

end

definition solo_published ::
  "solo_governor_transport \<Rightarrow> consensus_signed_envelope list \<Rightarrow> solo_governor_transport" where
  "solo_published t es = foldl (\<lambda>t e. snd (solo_publish t e)) t es"

definition serves_solo :: "consensus_committee \<Rightarrow> bool" where
  "serves_solo committee \<longleftrightarrow> length (cc_members committee) \<le> 1"

interpretation solo: transport_contract solo_governor_ops serves_solo solo_published
  by unfold_locales
     (auto simp: solo_governor_ops_def solo_accept_committee_def serves_solo_def solo_published_def
        solo_publish_def)

lemma length_trim_recent: "length (trim_recent xs) = min (length xs) SOLO_TRANSPORT_RECENT_CAPACITY"
  by (induction xs rule: trim_recent.induct)
     (subst trim_recent.simps, auto simp: SOLO_TRANSPORT_RECENT_CAPACITY_def split: list.splits)

lemma trim_recent_drop: "trim_recent xs = drop (length xs - SOLO_TRANSPORT_RECENT_CAPACITY) xs"
proof (induction xs rule: trim_recent.induct)
  case (1 xs)
  then show ?case
    by (subst trim_recent.simps) (auto split: list.splits simp: Suc_diff_le)
qed

lemma trim_recent_append: "trim_recent (trim_recent xs @ ys) = trim_recent (xs @ ys)"
  by (cases "length xs \<le> SOLO_TRANSPORT_RECENT_CAPACITY") (auto simp: trim_recent_drop add.commute)

lemma solo_published_recent:
  "es \<noteq> [] \<Longrightarrow> st_recent (solo_published t es) = trim_recent (st_recent t @ es)"
proof (induction es arbitrary: t rule: list_nonempty_induct)
  case (single x)
  then show ?case by (simp add: solo_published_def solo_publish_def)
next
  case (cons x xs)
  have "solo_published t (x # xs) = solo_published (snd (solo_publish t x)) xs"
    by (simp add: solo_published_def)
  with cons show ?case by (simp add: solo_publish_def trim_recent_append)
qed

section \<open>Properties\<close>

lemma budget_rank:
  assumes "now + db_round_timeout_ms b * int ((db_max_inbound b + 1) * (db_last_round b + 1)) \<le> i64_max"
    and "0 \<le> now" "0 < db_round_timeout_ms b"
  shows "now + db_round_timeout_ms b * int (drive_rank b n 0) \<le> i64_max" "db_max_inbound b < u64_max"
proof -
  let ?K = "(db_max_inbound b + 1) * (db_last_round b + 1)"
  have "drive_rank b n 0 \<le> ?K" by (simp add: drive_rank_def)
  then have "db_round_timeout_ms b * int (drive_rank b n 0) \<le> db_round_timeout_ms b * int ?K"
    using assms(3) by (intro mult_left_mono) (simp_all only: of_nat_le_iff less_imp_le)
  with assms(1) show "now + db_round_timeout_ms b * int (drive_rank b n 0) \<le> i64_max" by linarith
  have "1 * int ?K \<le> db_round_timeout_ms b * int ?K" using assms(3) by (intro mult_right_mono) auto
  with assms(1,2) have "int ?K \<le> i64_max" by linarith
  moreover have "int (db_max_inbound b) \<le> int ?K" by (simp only: of_nat_le_iff) simp
  ultimately have "int (db_max_inbound b) \<le> i64_max" by linarith
  then show "db_max_inbound b < u64_max" by (simp add: i64_max_def u64_max_def)
qed

lemma drive_round_total:
  assumes "node_ok n" and "0 \<le> cn_round_started_at_ms n" "cn_round_started_at_ms n \<le> now"
    and "now + db_round_timeout_ms (budget_of n) *
           int ((db_max_inbound (budget_of n) + 1) * (db_last_round (budget_of n) + 1)) \<le> i64_max"
  shows "\<exists>result. drive_round C T n t prop now = Some result"
proof -
  let ?b = "budget_of n"
  have timeout: "db_round_timeout_ms ?b = cfg_round_timeout_ms (cn_config n)" "0 < db_round_timeout_ms ?b"
    using assms(1) by (simp_all add: budget_of_def Let_def node_ok_def)
  have loop: "drive_loop C T ?b n' t out 0 now \<noteq> None"
    if "queue_proposal C n prop now = (Inr p, n')" for p n' out
  proof (rule drive_loop_returns)
    from clk.queue_proposal_holds[OF that] assms(2,3)
    show "0 \<le> cn_round_started_at_ms n'" "cn_round_started_at_ms n' \<le> now"
      "db_round_timeout_ms ?b = cfg_round_timeout_ms (cn_config n')" "0 < db_round_timeout_ms ?b"
      using timeout by (auto simp: paced_def)
  qed (use budget_rank[OF assms(4)] timeout assms(2,3) in auto)
  have "drive_round C T n t prop now \<noteq> None"
    using loop by (auto simp: drive_round_def Let_def simp del: not_None_eq
        split: sum.splits prod.splits list.splits)
  then show ?thesis by blast
qed

text \<open>
  C36. The driver always returns: whatever the transport delivers, a round started at a clock
  reading not before the node's round timer ends with a commit or an error, as long as the
  clock has room for the timeouts of the budget (\<open>max_inbound + 1\<close> times the number of rounds)
  below the saturation of \<^verbatim>\<open>i64\<close>.
\<close>

theorem drive_round_returns:
  assumes "node_ok n" and "0 \<le> cn_round_started_at_ms n" "cn_round_started_at_ms n \<le> now"
    and "now + db_round_timeout_ms (budget_of n) *
           int ((db_max_inbound (budget_of n) + 1) * (db_last_round (budget_of n) + 1)) \<le> i64_max"
  shows "\<exists>result. drive_round C T n t prop now = Some result"
  using assms by (rule drive_round_total)

text \<open>A transport that serves every committee and never delivers anything.\<close>

definition silent_ops :: "solo_governor_transport consensus_transport" where
  "silent_ops = solo_governor_ops\<lparr>tr_accept_committee := \<lambda>_ _. Inr ()\<rparr>"

lemma started_node_four:
  "\<exists>n. started model_crypto four 1 ''genesis'' n \<and> cn_config n = consensus_config_default \<and>
       cn_round_started_at_ms n = 0"
proof -
  obtain committee where new: "committee_new model_crypto four 1 = Inr committee"
    using committee_new_exists[of four 1 model_crypto] by (auto simp: four_def u64_max_def)
  from committee_new_ok[OF new] have "committee_contains committee (AgentId ''a'')"
    by (simp add: committee_contains_def four_def)
  then have "\<exists>n. node_new (AgentId ''a'') None committee consensus_config_default ''genesis'' 0 = Inr n \<and>
      cn_config n = consensus_config_default \<and> cn_round_started_at_ms n = 0"
    by (simp add: node_new_def consensus_config_default_def)
  with new show ?thesis unfolding started_def by blast
qed

theorem drive_round_returns_witness:
  "\<exists>n result. started model_crypto four 1 ''genesis'' n \<and>
     drive_round model_crypto silent_ops n solo_transport_new sample_proposal 1000 = Some result"
proof -
  obtain n where n: "started model_crypto four 1 ''genesis'' n" "cn_config n = consensus_config_default"
    "cn_round_started_at_ms n = 0" using started_node_four by blast
  have ok: "node_ok n" using started_ok[OF n(1)] by simp
  have "length (cc_members (cn_committee n)) = 4" "cc_max_faulty (cn_committee n) = 1"
    using ok started_committee[OF n(1)] distinct_card[of "cc_members (cn_committee n)"]
    by (simp_all add: node_ok_def committee_ok_def) (simp add: four_def)
  then have "1000 + db_round_timeout_ms (budget_of n) *
      int ((db_max_inbound (budget_of n) + 1) * (db_last_round (budget_of n) + 1)) \<le> i64_max"
    using n(2) by (simp add: budget_of_def Let_def consensus_config_default_def machine_int_defs)
  from drive_round_returns[OF ok _ _ this] n show ?thesis by fastforce
qed

lemma drive_round_quorum:
  assumes "node_ok n" and "drive_round C T n t prop now = Some (Inr c, n', t')"
  shows "quorum_backed (cn_committee n) c"
proof -
  obtain u where accept: "tr_accept_committee T t (cn_committee n) = Inr u"
    using assms(2) by (cases "tr_accept_committee T t (cn_committee n)") (auto simp: drive_round_def)
  obtain res n1 where q: "queue_proposal C n prop now = (res, n1)" by fastforce
  note backed = cb.queue_proposal_holds[OF q]
  then have n1: "node_ok n1" "cn_committee n1 = cn_committee n"
    using assms(1) by (auto simp: commits_backed_def keeps_ok_def same_identity_def)
  from assms(2) accept q obtain p where p: "res = Inr p"
    by (cases res) (auto simp: drive_round_def Let_def)
  show ?thesis
  proof (cases "cp_commits p")
    case Nil
    with assms(2) accept q p have
      "drive_loop C T (budget_of n) n1 t (cp_outbound p) 0 now = Some (Inr c, n', t')"
      by (simp add: drive_round_def Let_def)
    from drive_loop_backed[OF this] n1 show ?thesis by simp
  next
    case (Cons c0 cs)
    with assms(2) accept q p have "c = c0"
      by (auto simp: drive_round_def Let_def dest: finish_commit_result)
    with backed p Cons assms(1) show ?thesis by (simp add: commits_backed_def)
  qed
qed

text \<open>
  The driver never synthesises a commit: whatever the transport, a commit that
  \<^verbatim>\<open>drive_round\<close> returns for a well-formed node carries two quorums of its committee.
\<close>

theorem drive_round_backed:
  assumes "node_ok n" and "drive_round C T n t prop now = Some (Inr c, n', t')"
  shows "quorum_backed (cn_committee n) c"
  using assms by (rule drive_round_quorum)

text \<open>The solo round, step by step.\<close>

lemma build_envelope_float_free:
  "float_free (prop_payload prop) \<Longrightarrow>
   body \<in> {Proposal prop, Prevote v, Precommit w} \<Longrightarrow> float_free (envelope_json (build_envelope n r body now))"
  by (cases v; cases w)
     (auto simp: envelope_json_def build_envelope_def message_json_def agent_id_json_def json_nat_def
        json_int_def json_opt_def proposal_json_def)

lemma sign_outbound_own:
  assumes "cn_local_signing_key n = Some sk" "float_free (envelope_json e)"
  shows "\<exists>s. sign_outbound C n e = Inr s"
  using canonical_bytes_total[OF assms(2), of C] assms(1)
  by (auto simp: sign_outbound_def signed_envelope_sign_def)

lemma sign_outbound_verifies:
  assumes "crypto_laws C" "cn_local_signing_key n = Some sk" "sign_outbound C n e = Inr s"
    and "msg_from (env_message e) = from_verifying_key C (lib_verifying_key C sk)"
  shows "se_envelope s = e \<and> signed_envelope_verify C s = Inr (lib_verifying_key C sk)"
proof -
  from assms(2,3) obtain bs where bs: "canonical_bytes C (envelope_json e) = Inr bs"
    and s: "s = \<lparr>se_envelope = e, se_signature = make_detached_signature C sk bs\<rparr>"
    by (auto simp: sign_outbound_def signed_envelope_sign_def split: sum.splits)
  from verify_signed_own[OF assms(1) bs assms(4)] s show ?thesis
    by (simp add: signed_envelope_verify_def Let_def assms(4)[symmetric])
qed

lemma solo_drive:
  assumes laws: "crypto_laws C" and solo_node: "cc_members (cn_committee n) = [cn_local_agent_id n]"
      "cc_threshold (cn_committee n) = 1" "fresh_round n" and key: "cn_local_signing_key n = Some sk"
    and own: "cn_local_agent_id n = from_verifying_key C (lib_verifying_key C sk)"
    and payload: "float_free (prop_payload prop)"
  shows "\<exists>c n' sealed. drive_round C solo_governor_ops n t prop now = Some (Inr c, n', solo_published t sealed) \<and>
     com_proposal c = prop \<and> com_prevote_tally c = 1 \<and> com_precommit_tally c = 1 \<and>
     map (\<lambda>s. msg_body (env_message (se_envelope s))) sealed =
       [Proposal prop, Prevote (Some (prop_id prop)), Precommit (Some (prop_id prop))] \<and>
     list_all (\<lambda>s. signed_envelope_verify C s = Inr (lib_verifying_key C sk)) sealed"
proof -
  let ?bodies = "[Proposal prop, Prevote (Some (prop_id prop)), Precommit (Some (prop_id prop))]"
  let ?out = "map (\<lambda>body. build_envelope n (cn_round n) body now) ?bodies"
  obtain bs where "canonical_bytes C (commit_json (cn_height n) (cn_round n) (cn_previous_commit_hash n) prop) = Inr bs"
    using canonical_bytes_total[of "commit_json (cn_height n) (cn_round n) (cn_previous_commit_hash n) prop" C]
      payload by (auto simp: commit_json_def json_nat_def)
  from solo_queue_commits[OF solo_node(1,2,3) this, of now] obtain c p n' where
    q: "queue_proposal C n prop now = (Inr p, n')" "cp_commits p = [c]" "cp_outbound p = ?out"
    and n': "cn_local_agent_id n' = cn_local_agent_id n" "cn_local_signing_key n' = Some sk"
    and c: "com_proposal c = prop" "com_prevote_tally c = 1" "com_precommit_tally c = 1"
    using key by auto
  have "\<exists>s. sign_outbound C n' e = Inr s" if "e \<in> set ?out" for e
    using that build_envelope_float_free[OF payload] by (intro sign_outbound_own[OF n'(2)]) auto
  from solo.publish_all_ok[of ?out C n' t, OF this] obtain sealed where
    pub: "publish_all C solo_governor_ops n' ?out t = (Inr (), solo_published t sealed)"
    and signed: "list_all2 (\<lambda>e s. sign_outbound C n' e = Inr s) ?out sealed" by blast
  have "se_envelope s = e \<and> signed_envelope_verify C s = Inr (lib_verifying_key C sk)"
    if "sign_outbound C n' e = Inr s" "e \<in> set ?out" for e s
    using that sign_outbound_verifies[OF laws n'(2) that(1)] own
    by (auto simp: build_envelope_def)
  then have sealed: "list_all2 (\<lambda>e s. se_envelope s = e \<and> signed_envelope_verify C s = Inr (lib_verifying_key C sk))
      ?out sealed"
    using signed by (auto elim!: list.rel_mono_strong)
  then have "map se_envelope sealed = ?out" "list_all (\<lambda>s. signed_envelope_verify C s = Inr (lib_verifying_key C sk)) sealed"
    by (auto simp: list_all2_conv_all_nth list_all_length intro!: nth_equalityI)
  moreover from this(1) have "map (\<lambda>s. msg_body (env_message (se_envelope s))) sealed = ?bodies"
    using map_map[of "\<lambda>e. msg_body (env_message e)" se_envelope sealed]
    by (simp add: comp_def build_envelope_def)
  moreover have "tr_accept_committee solo_governor_ops t (cn_committee n) = Inr ()"
    using solo_node(1) by (simp add: solo_governor_ops_def solo_accept_committee_def)
  ultimately show ?thesis
    using q pub c by (auto simp: drive_round_def finish_commit_def Let_def)
qed

text \<open>
  A governor alone in its committee always gets its decision: the round commits the
  queued proposal in one call, with both tallies one, and publishes exactly the proposal,
  the prevote and the precommit, each verifying under the governor's own key.
\<close>

theorem solo_round_commits:
  assumes "crypto_laws C" and "started C [a] 0 previous n" and "cn_local_signing_key n = Some sk"
    and "cn_local_agent_id n = from_verifying_key C (lib_verifying_key C sk)"
    and "float_free (prop_payload prop)"
  shows "\<exists>c n' sealed. drive_round C solo_governor_ops n t prop now = Some (Inr c, n', solo_published t sealed) \<and>
     com_proposal c = prop \<and> com_prevote_tally c = 1 \<and> com_precommit_tally c = 1 \<and>
     map (\<lambda>s. msg_body (env_message (se_envelope s))) sealed =
       [Proposal prop, Prevote (Some (prop_id prop)), Precommit (Some (prop_id prop))] \<and>
     list_all (\<lambda>s. signed_envelope_verify C s = Inr (lib_verifying_key C sk)) sealed"
  by (rule solo_drive[OF assms(1) started_solo(1-3)[OF assms(2)] assms(3-5)])

definition solo_key :: bytes where
  "solo_key = replicate 32 (CHR 0x07)"

definition solo_id :: agent_id where
  "solo_id = from_verifying_key model_crypto (lib_verifying_key model_crypto solo_key)"

lemma started_solo_id:
  "\<exists>n. started model_crypto [solo_id] 0 ''genesis'' n \<and> cn_local_signing_key n = Some solo_key \<and>
       cn_local_agent_id n = solo_id"
proof -
  obtain committee where new: "committee_new model_crypto [solo_id] 0 = Inr committee"
    using committee_new_exists[of "[solo_id]" 0 model_crypto] by (auto simp: u64_max_def)
  from committee_new_ok[OF new] have "committee_contains committee solo_id"
    by (simp add: committee_contains_def)
  then have "\<exists>n. node_new solo_id (Some solo_key) committee consensus_config_default ''genesis'' 0 = Inr n \<and>
      cn_local_signing_key n = Some solo_key \<and> cn_local_agent_id n = solo_id"
    by (simp add: node_new_def consensus_config_default_def)
  with new show ?thesis unfolding started_def by blast
qed

theorem solo_round_commits_witness:
  "\<exists>n c n' sealed. started model_crypto [solo_id] 0 ''genesis'' n \<and>
     drive_round model_crypto solo_governor_ops n solo_transport_new sample_proposal 5 =
       Some (Inr c, n', solo_published solo_transport_new sealed) \<and>
     com_proposal c = sample_proposal \<and> length sealed = 3"
proof -
  obtain n where n: "started model_crypto [solo_id] 0 ''genesis'' n"
    "cn_local_signing_key n = Some solo_key" "cn_local_agent_id n = solo_id"
    using started_solo_id by blast
  have "float_free (prop_payload sample_proposal)" by (simp add: sample_proposal_def)
  from solo_round_commits[OF model_crypto_laws n(1,2) n(3)[unfolded solo_id_def] this, of solo_transport_new 5]
  obtain c n' sealed where
    "drive_round model_crypto solo_governor_ops n solo_transport_new sample_proposal 5 =
       Some (Inr c, n', solo_published solo_transport_new sealed)" "com_proposal c = sample_proposal"
    and bodies: "map (\<lambda>s. msg_body (env_message (se_envelope s))) sealed =
       [Proposal sample_proposal, Prevote (Some (prop_id sample_proposal)), Precommit (Some (prop_id sample_proposal))]"
    by (elim exE conjE) (rule that)
  moreover from arg_cong[OF bodies, of length] have "length sealed = 3" by simp
  ultimately show ?thesis using n(1) by blast
qed

theorem drive_round_backed_witness:
  "\<exists>n c n' t'. node_ok n \<and>
     drive_round model_crypto solo_governor_ops n solo_transport_new sample_proposal 5 = Some (Inr c, n', t') \<and>
     quorum_backed (cn_committee n) c"
proof -
  obtain n where n: "started model_crypto [solo_id] 0 ''genesis'' n"
    "cn_local_signing_key n = Some solo_key" "cn_local_agent_id n = solo_id"
    using started_solo_id by blast
  have ok: "node_ok n" using started_ok[OF n(1)] by simp
  have "float_free (prop_payload sample_proposal)" by (simp add: sample_proposal_def)
  from solo_drive[OF model_crypto_laws started_solo(1-3)[OF n(1)] n(2) n(3)[unfolded solo_id_def] this,
      of solo_transport_new 5]
  obtain c n' t' where
    d: "drive_round model_crypto solo_governor_ops n solo_transport_new sample_proposal 5 = Some (Inr c, n', t')"
    by (elim exE conjE) (rule that)
  from drive_round_backed[OF ok d] ok d show ?thesis by blast
qed

text \<open>
  The solo transport refuses every committee of more than one member: the round fails
  before the node is touched, and nothing is published.
\<close>

theorem solo_transport_refuses:
  assumes "1 < length (cc_members (cn_committee n))"
  shows "\<exists>e. drive_round C solo_governor_ops n t prop now = Some (Inl (InvalidCommittee e), n, t)"
  using assms by (simp add: drive_round_def solo_governor_ops_def solo_accept_committee_def)

theorem solo_transport_refuses_witness:
  "\<exists>n e. started model_crypto four 1 ''genesis'' n \<and> 1 < length (cc_members (cn_committee n)) \<and>
     drive_round model_crypto solo_governor_ops n solo_transport_new sample_proposal 5 =
       Some (Inl (InvalidCommittee e), n, solo_transport_new)"
proof -
  obtain n where n: "started model_crypto four 1 ''genesis'' n" using started_four by blast
  have "cc_threshold (cn_committee n) = 3" "cc_threshold (cn_committee n) \<le> length (cc_members (cn_committee n))"
    using started_ok[OF n] started_committee[OF n] by (auto simp: node_ok_def committee_ok_def)
  then have "1 < length (cc_members (cn_committee n))" by simp
  from solo_transport_refuses[OF this] this n show ?thesis by blast
qed

end
