(* ===== verification/Governance.thy ===== *)
theory Governance
  imports Consensus_Drive Static_Gate
begin

text \<open>
  The governance policy of the Tom agent (\<^verbatim>\<open>crates/swarm-agents/src/tom_agent.rs\<close>): the one
  local governor key, peers by identity, the partition state machine driven by health
  reports, contingency leases staged while healthy and redeemed while partitioned, the
  governance rounds that mint receipts, persistence and restart, and the agent's tick.

  The policy owns its consensus transport, an arbitrary implementation of the transport
  record. Operations that run a round return \<open>None\<close> when the round driver would not return.
  The state file holds the persisted record; whether a write succeeds is decided by the file
  system, the field \<open>pe_writable\<close>. The operating-system clock is an argument.
\<close>

section \<open>Error texts\<close>

fun crypto_error_display :: "crypto_error \<Rightarrow> string" where
  "crypto_error_display InvalidSignature = ''Invalid signature''"
| "crypto_error_display (InvalidPublicKey m) = ''Invalid public key: '' @ m"
| "crypto_error_display InvalidPrivateKey = ''Invalid private key''"
| "crypto_error_display (InvalidHex m) = ''Invalid hex encoding: '' @ m"
| "crypto_error_display (InvalidHashLength expected actual) =
     ''Invalid hash length: expected '' @ dec_nat expected @ '', got '' @ dec_nat actual"
| "crypto_error_display MerkleProofFailed = ''Merkle proof verification failed''"
| "crypto_error_display EmptyTree = ''Empty tree: cannot compute root''"
| "crypto_error_display (InvalidProofIndex index leaves) =
     ''Invalid proof: leaf index '' @ dec_nat index @ '' out of bounds for tree with ''
     @ dec_nat leaves @ '' leaves''"
| "crypto_error_display (JsonError m) = ''JSON serialization error: '' @ m"

text \<open>\<open>Aborted\<close> has no text: the process is gone.\<close>

fun consensus_error_display :: "consensus_error \<Rightarrow> string" where
  "consensus_error_display (InvalidCommittee m) = ''invalid consensus committee: '' @ m"
| "consensus_error_display (InvalidMessage m) = ''invalid consensus message: '' @ m"
| "consensus_error_display (Encode m) = ''failed to encode consensus payload: '' @ m"
| "consensus_error_display (CryptoFailure e) =
     ''failed to canonicalize consensus payload: '' @ crypto_error_display e"
| "consensus_error_display (SigningUnavailable a) =
     ''local node `'' @ agent_str a @ ''` cannot issue signed receipts without a signing key''"
| "consensus_error_display (Transport m) = ''consensus transport failed: '' @ m"
| "consensus_error_display Aborted = []"

section \<open>Leases\<close>

definition DEFAULT_CONTINGENCY_LEASE_TTL_MS :: i64 where
  "DEFAULT_CONTINGENCY_LEASE_TTL_MS = 300000"

definition DEFAULT_CONTINGENCY_BLAST_RADIUS_CAP :: usize where
  "DEFAULT_CONTINGENCY_BLAST_RADIUS_CAP = 1"

definition CONTINGENCY_LEASE_SCHEMA_VERSION :: nat where
  "CONTINGENCY_LEASE_SCHEMA_VERSION = 1"

definition MAX_RECONCILIATION_REPORTS :: usize where
  "MAX_RECONCILIATION_REPORTS = 16"

record contingency_lease =
  le_schema_version :: nat
  le_lease_id :: string
  le_action_kind :: string
  le_scope :: "string option"
  le_blast_radius_cap :: usize
  le_max_duration_ms :: i64
  le_issued_at_ms :: i64
  le_expires_at_ms :: i64
  le_redeemed_scopes :: "string list"
  le_governance_receipt :: governance_receipt

definition governance_payload_json ::
  "u64 \<Rightarrow> response_action \<Rightarrow> governance_receipt_decision \<Rightarrow> agent_health_entry list \<Rightarrow> string \<Rightarrow> json" where
  "governance_payload_json receipt_counter action decision unhealthy_agents previous_commit_hash =
     JObject [(''receipt_counter'', json_nat receipt_counter), (''action'', response_action_json action),
              (''decision'', decision_json decision),
              (''unhealthy_agents'', JArray (map health_entry_json unhealthy_agents)),
              (''previous_commit_hash'', JString previous_commit_hash)]"

definition build_governance_proposal ::
  "crypto_lib \<Rightarrow> u64 \<Rightarrow> response_action \<Rightarrow> governance_receipt_decision \<Rightarrow> agent_health_entry list \<Rightarrow>
   string \<Rightarrow> consensus_error + consensus_proposal" where
  "build_governance_proposal C receipt_counter action decision unhealthy_agents previous_commit_hash =
     (let payload = governance_payload_json receipt_counter action decision unhealthy_agents
                      previous_commit_hash
      in case canonical_bytes C payload of
           Inl e \<Rightarrow> Inl e
         | Inr bs \<Rightarrow> Inr \<lparr>prop_id = sha256_hex C bs, prop_payload = payload\<rparr>)"

definition lease_payload_json ::
  "string \<Rightarrow> string \<Rightarrow> string option \<Rightarrow> usize \<Rightarrow> i64 \<Rightarrow> i64 \<Rightarrow> i64 \<Rightarrow> json" where
  "lease_payload_json lease_id action_kind scope blast_radius_cap max_duration_ms issued_at_ms
     expires_at_ms =
     JObject [(''lease_id'', JString lease_id), (''kind'', JString ''contingency_lease''),
              (''action_kind'', JString action_kind), (''scope'', json_opt JString scope),
              (''blast_radius_cap'', json_nat blast_radius_cap),
              (''max_duration_ms'', json_int max_duration_ms),
              (''issued_at_ms'', json_int issued_at_ms), (''expires_at_ms'', json_int expires_at_ms)]"

definition build_contingency_lease_proposal ::
  "crypto_lib \<Rightarrow> string \<Rightarrow> string \<Rightarrow> string option \<Rightarrow> usize \<Rightarrow> i64 \<Rightarrow> i64 \<Rightarrow> i64 \<Rightarrow>
   consensus_error + consensus_proposal" where
  "build_contingency_lease_proposal C lease_id action_kind scope blast_radius_cap max_duration_ms
     issued_at_ms expires_at_ms =
     (let payload = lease_payload_json lease_id action_kind scope blast_radius_cap max_duration_ms
                      issued_at_ms expires_at_ms
      in case canonical_bytes C payload of
           Inl e \<Rightarrow> Inl e
         | Inr bs \<Rightarrow> Inr \<lparr>prop_id = sha256_hex C bs, prop_payload = payload\<rparr>)"

definition lease_verify :: "crypto_lib \<Rightarrow> contingency_lease \<Rightarrow> string + unit" where
  "lease_verify C lease =
     (case validate_lease_terms (le_schema_version lease) CONTINGENCY_LEASE_SCHEMA_VERSION
             (le_blast_radius_cap lease) (le_max_duration_ms lease) (le_issued_at_ms lease)
             (le_expires_at_ms lease) of
        Inl e \<Rightarrow> Inl e
      | Inr _ \<Rightarrow>
         let receipt = le_governance_receipt lease in
         (case governance_receipt_verify C receipt of
            Inl e \<Rightarrow> Inl (''invalid contingency lease receipt: '' @ consensus_error_display e)
          | Inr _ \<Rightarrow>
             if gr_decision (rcpt_payload receipt) \<noteq> Approve then
               Inl ''contingency lease receipt must be an approval''
             else case build_contingency_lease_proposal C (le_lease_id lease) (le_action_kind lease)
                         (le_scope lease) (le_blast_radius_cap lease) (le_max_duration_ms lease)
                         (le_issued_at_ms lease) (le_expires_at_ms lease) of
               Inl e \<Rightarrow> Inl (''failed to rebuild contingency lease proposal: ''
                          @ consensus_error_display e)
             | Inr proposal \<Rightarrow>
                 if gr_proposal_id (rcpt_payload receipt) \<noteq> prop_id proposal then
                   Inl ''contingency lease proposal hash did not match receipt''
                 else Inr ()))"

definition terms :: "contingency_lease \<Rightarrow> lease_terms" where
  "terms lease =
     \<lparr>lt_lease_id = le_lease_id lease, lt_action_kind = le_action_kind lease,
      lt_scope = le_scope lease, lt_blast_radius_cap = le_blast_radius_cap lease,
      lt_expires_at_ms = le_expires_at_ms lease, lt_redeemed_scopes = le_redeemed_scopes lease\<rparr>"

definition can_redeem :: "contingency_lease \<Rightarrow> response_action \<Rightarrow> i64 \<Rightarrow> bool" where
  "can_redeem lease action now_ms = lease_can_redeem (terms lease) action now_ms"

definition redeem ::
  "contingency_lease \<Rightarrow> response_action \<Rightarrow> i64 \<Rightarrow> (string + unit) \<times> contingency_lease" where
  "redeem lease action now_ms =
     (case lease_redeem (terms lease) action now_ms of
        Inl e \<Rightarrow> (Inl e, lease)
      | Inr AlreadyRedeemed \<Rightarrow> (Inr (), lease)
      | Inr (Recorded scope) \<Rightarrow>
          (Inr (), lease\<lparr>le_redeemed_scopes := le_redeemed_scopes lease @ [scope]\<rparr>))"

section \<open>State\<close>

datatype partition_state = PHealthy | PDegraded | PPartitioned | PHealing

record partition_action_record =
  pa_recorded_at_ms :: i64
  pa_hunt_id :: string
  pa_requested_by :: string
  pa_action_kind :: string
  pa_scope :: "string option"
  pa_authorized :: bool
  pa_reason :: string
  pa_lease_id :: "string option"

record partition_reconciliation_report =
  rr_report_id :: string
  rr_created_at_ms :: i64
  rr_partition_started_at_ms :: "i64 option"
  rr_healed_at_ms :: i64
  rr_authorized_actions :: "partition_action_record list"
  rr_unauthorized_actions :: "partition_action_record list"

record transition_event =
  te_emitted_at_ms :: i64
  te_governing_agent_id :: agent_id
  te_from :: partition_state
  te_to :: partition_state
  te_healthy_governors :: usize
  te_total_governors :: usize
  te_quorum_threshold :: usize
  te_reason :: string

datatype governance_runtime_event =
    PartitionStateTransition transition_event
  | PartitionReconciliation i64 agent_id partition_reconciliation_report

datatype governance_decision =
    GAllow "governance_receipt option" "contingency_lease option"
  | GVeto agent_id string "governance_receipt option"

record local_governor_key =
  lg_consensus_agent_id :: agent_id
  lg_signing_key :: bytes

definition local_governor_key_new :: "crypto_lib \<Rightarrow> bytes \<Rightarrow> local_governor_key" where
  "local_governor_key_new C signing_key =
     \<lparr>lg_consensus_agent_id = from_verifying_key C (lib_verifying_key C signing_key),
      lg_signing_key = signing_key\<rparr>"

definition local_verifying_key :: "crypto_lib \<Rightarrow> local_governor_key \<Rightarrow> bytes" where
  "local_verifying_key C key = lib_verifying_key C (lg_signing_key key)"

definition local_consensus_node ::
  "local_governor_key \<Rightarrow> consensus_committee \<Rightarrow> consensus_config \<Rightarrow> string \<Rightarrow> i64 \<Rightarrow>
   consensus_error + consensus_node" where
  "local_consensus_node key committee config previous_commit_hash now_ms =
     node_new (lg_consensus_agent_id key) (Some (lg_signing_key key)) committee config
       previous_commit_hash now_ms"

definition issue_receipt ::
  "crypto_lib \<Rightarrow> local_governor_key \<Rightarrow> consensus_commit \<Rightarrow> string \<Rightarrow> consensus_committee \<Rightarrow>
   governance_receipt_decision \<Rightarrow> i64 \<Rightarrow> consensus_error + governance_receipt" where
  "issue_receipt C key com previous_commit_hash committee decision issued_at_ms =
     governance_receipt_issue C com previous_commit_hash committee decision
       (lg_consensus_agent_id key) (lg_signing_key key) issued_at_ms"

datatype governance_key_error = SecondSigningKey agent_id agent_id

record governance_state =
  gs_governing_agent_id :: "agent_id option"
  gs_display_governors :: "agent_id \<rightharpoonup> agent_id"
  gs_local_governor :: "local_governor_key option"
  gs_peer_governors :: "agent_id set"
  gs_unhealthy_agents :: "agent_health_entry list"
  gs_previous_commit_hash :: string
  gs_receipt_counter :: u64
  gs_partition_state :: partition_state
  gs_partition_started_at_ms :: "i64 option"
  gs_last_transition_at_ms :: "i64 option"
  gs_last_healthy_governors :: usize
  gs_last_quorum_threshold :: usize
  gs_active_contingency_leases :: "contingency_lease list"
  gs_partition_activity :: "partition_action_record list"
  gs_reconciliation_reports :: "partition_reconciliation_report list"
  gs_pending_events :: "governance_runtime_event list"

definition governance_state_default :: governance_state where
  "governance_state_default =
     \<lparr>gs_governing_agent_id = None, gs_display_governors = Map.empty, gs_local_governor = None,
      gs_peer_governors = {}, gs_unhealthy_agents = [],
      gs_previous_commit_hash = ''governance-bootstrap'', gs_receipt_counter = 0,
      gs_partition_state = PHealthy, gs_partition_started_at_ms = None,
      gs_last_transition_at_ms = None, gs_last_healthy_governors = 0,
      gs_last_quorum_threshold = 0, gs_active_contingency_leases = [], gs_partition_activity = [],
      gs_reconciliation_reports = [], gs_pending_events = []\<rparr>"

definition governor_count :: "governance_state \<Rightarrow> usize" where
  "governor_count state =
     u64_saturating_add (card (gs_peer_governors state))
       (if gs_local_governor state = None then 0 else 1)"

text \<open>The peers are a \<^verbatim>\<open>BTreeSet\<close>: they are listed in order, the local governor last.\<close>

definition committee_members :: "governance_state \<Rightarrow> agent_id list" where
  "committee_members state =
     sorted_list_of_set (gs_peer_governors state) @
     (case gs_local_governor state of None \<Rightarrow> [] | Some local \<Rightarrow> [lg_consensus_agent_id local])"

definition governance_committee ::
  "crypto_lib \<Rightarrow> governance_state \<Rightarrow> consensus_error + consensus_committee" where
  "governance_committee C state =
     (let members = committee_members state
      in committee_new C members (recommended_max_faulty (length members)))"

record governance_policy_config =
  gc_contingency_lease_ttl_ms :: i64
  gc_contingency_blast_radius_cap :: usize

definition governance_policy_config_default :: governance_policy_config where
  "governance_policy_config_default =
     \<lparr>gc_contingency_lease_ttl_ms = DEFAULT_CONTINGENCY_LEASE_TTL_MS,
      gc_contingency_blast_radius_cap = DEFAULT_CONTINGENCY_BLAST_RADIUS_CAP\<rparr>"

record persisted_governance_state =
  ps_governing_agent_id :: "agent_id option"
  ps_peer_governors :: "agent_id set"
  ps_previous_commit_hash :: string
  ps_receipt_counter :: u64
  ps_partition_state :: partition_state
  ps_partition_started_at_ms :: "i64 option"
  ps_last_transition_at_ms :: "i64 option"
  ps_active_contingency_leases :: "contingency_lease list"
  ps_partition_activity :: "partition_action_record list"
  ps_reconciliation_reports :: "partition_reconciliation_report list"

definition persisted_default :: persisted_governance_state where
  "persisted_default =
     \<lparr>ps_governing_agent_id = None, ps_peer_governors = {},
      ps_previous_commit_hash = ''governance-bootstrap'', ps_receipt_counter = 0,
      ps_partition_state = PHealthy, ps_partition_started_at_ms = None,
      ps_last_transition_at_ms = None, ps_active_contingency_leases = [],
      ps_partition_activity = [], ps_reconciliation_reports = []\<rparr>"

text \<open>
  The state file: \<open>None\<close> when it does not exist, an error when it cannot be read or decoded,
  otherwise the record it holds; and which writes the file system accepts. A write goes to a
  temporary file that is renamed, so that a refused write leaves the file as it was.
\<close>

record governance_persistence =
  pe_file :: "(string + persisted_governance_state) option"
  pe_writable :: "persisted_governance_state \<Rightarrow> bool"

definition persistence_load :: "governance_persistence \<Rightarrow> string + persisted_governance_state" where
  "persistence_load pe = (case pe_file pe of None \<Rightarrow> Inr persisted_default | Some r \<Rightarrow> r)"

definition persisted_of :: "governance_state \<Rightarrow> persisted_governance_state" where
  "persisted_of state =
     \<lparr>ps_governing_agent_id = gs_governing_agent_id state,
      ps_peer_governors = gs_peer_governors state,
      ps_previous_commit_hash = gs_previous_commit_hash state,
      ps_receipt_counter = gs_receipt_counter state,
      ps_partition_state = gs_partition_state state,
      ps_partition_started_at_ms = gs_partition_started_at_ms state,
      ps_last_transition_at_ms = gs_last_transition_at_ms state,
      ps_active_contingency_leases = gs_active_contingency_leases state,
      ps_partition_activity = gs_partition_activity state,
      ps_reconciliation_reports = gs_reconciliation_reports state\<rparr>"

definition persistence_save :: "governance_persistence \<Rightarrow> governance_state \<Rightarrow> governance_persistence" where
  "persistence_save pe state =
     (if pe_writable pe (persisted_of state) then pe\<lparr>pe_file := Some (Inr (persisted_of state))\<rparr> else pe)"

record 't governance_policy =
  gp_state :: governance_state
  gp_config :: governance_policy_config
  gp_persistence :: "governance_persistence option"
  gp_transport :: "'t consensus_transport"
  gp_transport_state :: 't

definition policy_new :: "governance_policy_config \<Rightarrow> solo_governor_transport governance_policy" where
  "policy_new config =
     \<lparr>gp_state = governance_state_default, gp_config = config, gp_persistence = None,
      gp_transport = solo_governor_ops, gp_transport_state = solo_transport_new\<rparr>"

definition with_transport ::
  "'s governance_policy \<Rightarrow> 't consensus_transport \<Rightarrow> 't \<Rightarrow> 't governance_policy" where
  "with_transport policy transport t =
     \<lparr>gp_state = gp_state policy, gp_config = gp_config policy,
      gp_persistence = gp_persistence policy, gp_transport = transport, gp_transport_state = t\<rparr>"

text \<open>The state a restarted process starts from: no key, no display names, no pending events.\<close>

definition state_of_persisted :: "persisted_governance_state \<Rightarrow> governance_state" where
  "state_of_persisted persisted =
     governance_state_default
       \<lparr>gs_governing_agent_id := ps_governing_agent_id persisted,
        gs_peer_governors := ps_peer_governors persisted,
        gs_previous_commit_hash := ps_previous_commit_hash persisted,
        gs_receipt_counter := ps_receipt_counter persisted,
        gs_partition_state := ps_partition_state persisted,
        gs_partition_started_at_ms := ps_partition_started_at_ms persisted,
        gs_last_transition_at_ms := ps_last_transition_at_ms persisted,
        gs_active_contingency_leases := ps_active_contingency_leases persisted,
        gs_partition_activity := ps_partition_activity persisted,
        gs_reconciliation_reports := ps_reconciliation_reports persisted\<rparr>"

definition with_persistence ::
  "governance_policy_config \<Rightarrow> governance_persistence \<Rightarrow>
   string + solo_governor_transport governance_policy" where
  "with_persistence config pe =
     (case persistence_load pe of
        Inl e \<Rightarrow> Inl e
      | Inr persisted \<Rightarrow>
          Inr \<lparr>gp_state = state_of_persisted persisted, gp_config = config, gp_persistence = Some pe,
               gp_transport = solo_governor_ops, gp_transport_state = solo_transport_new\<rparr>)"

definition persist_locked :: "'t governance_policy \<Rightarrow> 't governance_policy" where
  "persist_locked policy =
     (case gp_persistence policy of
        None \<Rightarrow> policy
      | Some pe \<Rightarrow> policy\<lparr>gp_persistence := Some (persistence_save pe (gp_state policy))\<rparr>)"

end
