(* ===== verification/Governance_Policy.thy ===== *)
theory Governance_Policy
  imports Governance
begin

text \<open>
  The operations of \<^verbatim>\<open>GovernancePolicy\<close> and of the Tom agent
  (\<^verbatim>\<open>crates/swarm-agents/src/tom_agent.rs\<close>), in the order the policy uses them: the round
  that mints a receipt, the leases staged from it, registration, the health-driven partition
  state machine, the decision on an action, redemption while partitioned, attestation of a
  release, the read-only reports, and the agent's tick.

  Every operation takes the whole policy and returns it updated. \<open>None\<close> stands for a call
  that does not return: the round driver spins, or the process aborts on an overflow.
  Decoding a lease from request evidence is serde's work and a parameter.
\<close>

section \<open>Rounds and receipts\<close>

type_synonym 't round_result =
  "((consensus_error + governance_receipt) \<times> governance_state \<times> 't) option"

definition run_governance_round ::
  "crypto_lib \<Rightarrow> 't consensus_transport \<Rightarrow> governance_state \<Rightarrow> 't \<Rightarrow> consensus_proposal \<Rightarrow>
   governance_receipt_decision \<Rightarrow> i64 \<Rightarrow> 't round_result" where
  "run_governance_round C T state t proposal decision issued_at_ms =
     (case gs_local_governor state of
        None \<Rightarrow> Some (Inl (InvalidCommittee
                  ''governance policy holds no local governor signing key''), state, t)
      | Some local \<Rightarrow>
        (case governance_committee C state of
           Inl e \<Rightarrow> Some (Inl e, state, t)
         | Inr committee \<Rightarrow>
           (case local_consensus_node local committee consensus_config_default
                   (gs_previous_commit_hash state) issued_at_ms of
              Inl e \<Rightarrow> Some (Inl e, state, t)
            | Inr node \<Rightarrow>
              (case drive_round C T node t proposal issued_at_ms of
                 None \<Rightarrow> None
               | Some (Inl e, _, t) \<Rightarrow> if e = Aborted then None else Some (Inl e, state, t)
               | Some (Inr com, _, t) \<Rightarrow>
                 (case issue_receipt C local com (gs_previous_commit_hash state) committee decision
                         issued_at_ms of
                    Inl e \<Rightarrow> Some (Inl e, state, t)
                  | Inr receipt \<Rightarrow>
                      Some (Inr receipt,
                        state\<lparr>gs_previous_commit_hash := com_commit_hash com,
                              gs_receipt_counter := u64_saturating_add (gs_receipt_counter state) 1\<rparr>,
                        t))))))"

text \<open>\<open>clock_ms\<close> is the reading of the operating-system clock inside the function.\<close>

definition issue_governance_receipt ::
  "crypto_lib \<Rightarrow> 't consensus_transport \<Rightarrow> governance_state \<Rightarrow> 't \<Rightarrow> response_action \<Rightarrow>
   governance_receipt_decision \<Rightarrow> i64 \<Rightarrow> 't round_result" where
  "issue_governance_receipt C T state t action decision clock_ms =
     (case build_governance_proposal C (gs_receipt_counter state) action decision
             (gs_unhealthy_agents state) (gs_previous_commit_hash state) of
        Inl e \<Rightarrow> Some (Inl e, state, t)
      | Inr proposal \<Rightarrow> run_governance_round C T state t proposal decision clock_ms)"

definition lease_id_json ::
  "string \<Rightarrow> string option \<Rightarrow> i64 \<Rightarrow> i64 \<Rightarrow> usize \<Rightarrow> json" where
  "lease_id_json action_kind scope issued_at_ms expires_at_ms blast_radius_cap =
     JObject [(''kind'', JString ''contingency_lease''), (''action_kind'', JString action_kind),
              (''scope'', json_opt JString scope), (''issued_at_ms'', json_int issued_at_ms),
              (''expires_at_ms'', json_int expires_at_ms),
              (''blast_radius_cap'', json_nat blast_radius_cap)]"

definition issue_contingency_lease ::
  "crypto_lib \<Rightarrow> 't consensus_transport \<Rightarrow> governance_state \<Rightarrow> 't \<Rightarrow> string \<Rightarrow> string option \<Rightarrow>
   usize \<Rightarrow> i64 \<Rightarrow> i64 \<Rightarrow> (contingency_lease option \<times> governance_state \<times> 't) option" where
  "issue_contingency_lease C T state t action_kind scope blast_radius_cap ttl_ms issued_at_ms =
     (if gs_local_governor state = None \<or> blast_radius_cap = 0 \<or> ttl_ms \<le> 0 then Some (None, state, t)
      else let expires_at_ms = i64_saturating_add issued_at_ms ttl_ms in
        case canonical_json_bytes C
               (lease_id_json action_kind scope issued_at_ms expires_at_ms blast_radius_cap) of
          Inl _ \<Rightarrow> Some (None, state, t)
        | Inr id_bytes \<Rightarrow>
          let lease_id = sha256_hex C id_bytes in
          (case build_contingency_lease_proposal C lease_id action_kind scope blast_radius_cap
                  ttl_ms issued_at_ms expires_at_ms of
             Inl _ \<Rightarrow> Some (None, state, t)
           | Inr proposal \<Rightarrow>
             (case run_governance_round C T state t proposal Approve issued_at_ms of
                None \<Rightarrow> None
              | Some (Inl _, state, t) \<Rightarrow> Some (None, state, t)
              | Some (Inr governance_receipt, state, t) \<Rightarrow>
                  Some (Some \<lparr>le_schema_version = CONTINGENCY_LEASE_SCHEMA_VERSION,
                              le_lease_id = lease_id, le_action_kind = action_kind,
                              le_scope = scope, le_blast_radius_cap = blast_radius_cap,
                              le_max_duration_ms = ttl_ms, le_issued_at_ms = issued_at_ms,
                              le_expires_at_ms = expires_at_ms, le_redeemed_scopes = [],
                              le_governance_receipt = governance_receipt\<rparr>, state, t))))"

section \<open>Registration\<close>

text \<open>The state changes of a registration that is not refused.\<close>

definition install_governor ::
  "governance_state \<Rightarrow> agent_id \<Rightarrow> local_governor_key \<Rightarrow> governance_state" where
  "install_governor state governing_agent_id offered =
     state\<lparr>gs_governing_agent_id :=
             (case gs_governing_agent_id state of None \<Rightarrow> Some governing_agent_id | Some a \<Rightarrow> Some a),
           gs_display_governors :=
             (gs_display_governors state)(governing_agent_id \<mapsto> lg_consensus_agent_id offered),
           gs_peer_governors := gs_peer_governors state - {lg_consensus_agent_id offered},
           gs_local_governor := Some offered\<rparr>"

definition register_governor ::
  "crypto_lib \<Rightarrow> 't governance_policy \<Rightarrow> agent_id \<Rightarrow> bytes \<Rightarrow>
   (governance_key_error + unit) \<times> 't governance_policy" where
  "register_governor C policy governing_agent_id signing_key =
     (let state = gp_state policy; offered = local_governor_key_new C signing_key in
      case gs_local_governor state of
        Some existing \<Rightarrow>
          if local_verifying_key C existing \<noteq> local_verifying_key C offered then
            (Inl (SecondSigningKey (lg_consensus_agent_id existing) (lg_consensus_agent_id offered)),
             policy)
          else (Inr (), persist_locked (policy\<lparr>gp_state := install_governor state governing_agent_id offered\<rparr>))
      | None \<Rightarrow>
          (Inr (), persist_locked (policy\<lparr>gp_state := install_governor state governing_agent_id offered\<rparr>)))"

definition register_peer_governor ::
  "crypto_lib \<Rightarrow> 't governance_policy \<Rightarrow> bytes \<Rightarrow> 't governance_policy" where
  "register_peer_governor C policy peer =
     (let consensus_agent_id = from_verifying_key C peer; state = gp_state policy in
      if (case gs_local_governor state of
            None \<Rightarrow> False
          | Some local \<Rightarrow> lg_consensus_agent_id local = consensus_agent_id)
      then policy
      else persist_locked
             (policy\<lparr>gp_state := state\<lparr>gs_peer_governors :=
                insert consensus_agent_id (gs_peer_governors state)\<rparr>\<rparr>))"

section \<open>The partition state machine\<close>

fun partition_transition_reason :: "partition_state \<Rightarrow> string" where
  "partition_transition_reason PHealthy = ''quorum restored and no unhealthy agents remain''"
| "partition_transition_reason PDegraded = ''quorum intact but unhealthy agents remain''"
| "partition_transition_reason PPartitioned = ''quorum lost across admitted governors''"
| "partition_transition_reason PHealing = ''quorum restored; reconciling partition-era actions''"

definition reconcile_partition_activity ::
  "governance_state \<Rightarrow> i64 \<Rightarrow> partition_reconciliation_report \<times> governance_state" where
  "reconcile_partition_activity state healed_at_ms =
     (let activity = gs_partition_activity state;
          report =
            \<lparr>rr_report_id = ''partition-reconciliation:'' @ dec_int healed_at_ms @ '':''
                            @ dec_nat (gs_receipt_counter state),
             rr_created_at_ms = healed_at_ms,
             rr_partition_started_at_ms = gs_partition_started_at_ms state,
             rr_healed_at_ms = healed_at_ms,
             rr_authorized_actions = filter pa_authorized activity,
             rr_unauthorized_actions = filter (\<lambda>r. \<not> pa_authorized r) activity\<rparr>;
          reports = gs_reconciliation_reports state @ [report];
          trimmed = (if MAX_RECONCILIATION_REPORTS < length reports
                     then drop (length reports - MAX_RECONCILIATION_REPORTS) reports else reports)
      in (report, state\<lparr>gs_partition_activity := [], gs_reconciliation_reports := trimmed\<rparr>))"

definition prune_expired_contingency_leases :: "governance_state \<Rightarrow> i64 \<Rightarrow> governance_state" where
  "prune_expired_contingency_leases state now_ms =
     state\<lparr>gs_active_contingency_leases :=
       filter (\<lambda>lease. now_ms < le_expires_at_ms lease) (gs_active_contingency_leases state)\<rparr>"

text \<open>\<^verbatim>\<open>tom_agent::destructive_action_kinds\<close>, a copy of the list in the static gate.\<close>

definition tom_destructive_action_kinds :: "string list" where
  "tom_destructive_action_kinds =
     [''block_egress'', ''isolate_host'', ''revoke_credential'', ''sinkhole_dns'',
      ''terminate_user_session'', ''inject_firewall_rule'', ''quarantine_file'',
      ''kill_process'', ''suspend_process'', ''disable_user_account'',
      ''force_password_reset'', ''remove_scheduled_task'']"

definition lease_staged :: "i64 \<Rightarrow> string \<Rightarrow> contingency_lease \<Rightarrow> bool" where
  "lease_staged now_ms action_kind lease \<longleftrightarrow>
     le_action_kind lease = action_kind \<and> le_scope lease = None \<and>
     now_ms < le_expires_at_ms lease \<and>
     length (le_redeemed_scopes lease) < le_blast_radius_cap lease"

fun ensure_contingency_leases ::
  "crypto_lib \<Rightarrow> 't consensus_transport \<Rightarrow> governance_policy_config \<Rightarrow> string list \<Rightarrow>
   governance_state \<Rightarrow> 't \<Rightarrow> i64 \<Rightarrow> (governance_state \<times> 't) option" where
  "ensure_contingency_leases C T config [] state t now_ms = Some (state, t)"
| "ensure_contingency_leases C T config (action_kind # kinds) state t now_ms =
     (if list_ex (lease_staged now_ms action_kind) (gs_active_contingency_leases state)
      then ensure_contingency_leases C T config kinds state t now_ms
      else case issue_contingency_lease C T state t action_kind None
                  (gc_contingency_blast_radius_cap config) (gc_contingency_lease_ttl_ms config)
                  now_ms of
             None \<Rightarrow> None
           | Some (None, state, t) \<Rightarrow> ensure_contingency_leases C T config kinds state t now_ms
           | Some (Some lease, state, t) \<Rightarrow>
               ensure_contingency_leases C T config kinds
                 (state\<lparr>gs_active_contingency_leases :=
                    gs_active_contingency_leases state @ [lease]\<rparr>) t now_ms)"

definition total_governors :: "governance_state \<Rightarrow> usize" where
  "total_governors state = max (card (dom (gs_display_governors state))) (governor_count state)"

definition unhealthy_governors :: "governance_state \<Rightarrow> agent_health_entry list \<Rightarrow> usize" where
  "unhealthy_governors state entries =
     length (filter (\<lambda>entry. ahe_health entry \<noteq> Healthy \<and>
                             gs_display_governors state (AgentId (ahe_id entry)) \<noteq> None) entries)"

definition base_partition_state :: "usize \<Rightarrow> usize \<Rightarrow> agent_health_entry list \<Rightarrow> partition_state" where
  "base_partition_state healthy_governors quorum_threshold unhealthy =
     (if healthy_governors < quorum_threshold then PPartitioned
      else if unhealthy = [] then PHealthy else PDegraded)"

text \<open>The match on the previous and the base state, with the reconciliation it triggers.\<close>

definition settle_partition ::
  "governance_state \<Rightarrow> partition_state \<Rightarrow> i64 \<Rightarrow> partition_state \<times> governance_state" where
  "settle_partition state base observed_at_ms =
     (if gs_partition_state state = PPartitioned \<and> base \<in> {PHealthy, PDegraded} then
        let (report, state) = reconcile_partition_activity state observed_at_ms in
        (PHealing,
         case gs_governing_agent_id state of
           None \<Rightarrow> state
         | Some agent \<Rightarrow>
             state\<lparr>gs_pending_events := gs_pending_events state
                     @ [PartitionReconciliation observed_at_ms agent report]\<rparr>)
      else (base, state))"

definition enter_partition_state ::
  "governance_state \<Rightarrow> partition_state \<Rightarrow> usize \<Rightarrow> usize \<Rightarrow> usize \<Rightarrow> i64 \<Rightarrow> governance_state" where
  "enter_partition_state state next_state healthy governors threshold observed_at_ms =
     (let previous_state = gs_partition_state state in
      if previous_state = next_state then state
      else
        let state = (if next_state = PPartitioned
                     then state\<lparr>gs_partition_started_at_ms := Some observed_at_ms\<rparr>
                     else if next_state = PHealthy
                     then state\<lparr>gs_partition_started_at_ms := None\<rparr> else state);
            state = state\<lparr>gs_last_transition_at_ms := Some observed_at_ms\<rparr>;
            state = (case gs_governing_agent_id state of
                       None \<Rightarrow> state
                     | Some agent \<Rightarrow>
                         state\<lparr>gs_pending_events := gs_pending_events state
                           @ [PartitionStateTransition
                                \<lparr>te_emitted_at_ms = observed_at_ms, te_governing_agent_id = agent,
                                 te_from = previous_state, te_to = next_state,
                                 te_healthy_governors = healthy, te_total_governors = governors,
                                 te_quorum_threshold = threshold,
                                 te_reason = partition_transition_reason next_state\<rparr>]\<rparr>)
        in state\<lparr>gs_partition_state := next_state\<rparr>)"

definition health_transition ::
  "governance_state \<Rightarrow> agent_id \<Rightarrow> agent_health_entry list \<Rightarrow> i64 \<Rightarrow> governance_state" where
  "health_transition state governing_agent_id entries observed_at_ms =
     (let state = state\<lparr>gs_governing_agent_id := Some governing_agent_id,
                        gs_unhealthy_agents := filter (\<lambda>entry. ahe_health entry \<noteq> Healthy) entries\<rparr>;
          governors = total_governors state;
          healthy = governors - unhealthy_governors state entries;
          threshold = governance_quorum_threshold governors (recommended_max_faulty governors);
          state = state\<lparr>gs_last_healthy_governors := healthy, gs_last_quorum_threshold := threshold\<rparr>;
          (next_state, state) =
            settle_partition state
              (base_partition_state healthy threshold (gs_unhealthy_agents state)) observed_at_ms
      in prune_expired_contingency_leases
           (enter_partition_state state next_state healthy governors threshold observed_at_ms)
           observed_at_ms)"

definition observe_health ::
  "crypto_lib \<Rightarrow> 't governance_policy \<Rightarrow> agent_id \<Rightarrow> agent_health_entry list \<Rightarrow> i64 \<Rightarrow>
   't governance_policy option" where
  "observe_health C policy governing_agent_id entries observed_at_ms =
     (let state = health_transition (gp_state policy) governing_agent_id entries observed_at_ms in
      case (if gs_partition_state state = PHealthy
            then ensure_contingency_leases C (gp_transport policy) (gp_config policy)
                   tom_destructive_action_kinds state (gp_transport_state policy) observed_at_ms
            else Some (state, gp_transport_state policy)) of
        None \<Rightarrow> None
      | Some (state, t) \<Rightarrow>
          Some (persist_locked (policy\<lparr>gp_state := state, gp_transport_state := t\<rparr>)))"

section \<open>Deciding on an action\<close>

fun is_destructive_action :: "response_action \<Rightarrow> bool" where
  "is_destructive_action (BlockEgress _) = True"
| "is_destructive_action (IsolateHost _) = True"
| "is_destructive_action (RevokeCredential _) = True"
| "is_destructive_action (SinkholeDns _) = True"
| "is_destructive_action (TerminateUserSession _ _) = True"
| "is_destructive_action (InjectFirewallRule _ _ _ _ _) = True"
| "is_destructive_action (QuarantineFile _ _) = True"
| "is_destructive_action (KillProcess _ _) = True"
| "is_destructive_action (SuspendProcess _ _) = True"
| "is_destructive_action (DisableUserAccount _) = True"
| "is_destructive_action (ForcePasswordReset _) = True"
| "is_destructive_action (RemoveScheduledTask _ _) = True"
| "is_destructive_action _ = False"

definition preview_matching_contingency_lease ::
  "governance_state \<Rightarrow> response_action \<Rightarrow> i64 \<Rightarrow> contingency_lease option" where
  "preview_matching_contingency_lease state action now_ms =
     find (\<lambda>lease. can_redeem lease action now_ms) (gs_active_contingency_leases state)"

definition governing_or :: "governance_state \<Rightarrow> agent_id \<Rightarrow> agent_id" where
  "governing_or state fallback =
     (case gs_governing_agent_id state of None \<Rightarrow> fallback | Some a \<Rightarrow> a)"

text \<open>The entries of the veto reason, joined by a comma and a space.\<close>

fun join_entries :: "string list \<Rightarrow> string" where
  "join_entries [] = []"
| "join_entries [x] = x"
| "join_entries (x # y # xs) = x @ '', '' @ join_entries (y # xs)"

definition unhealthy_reason :: "agent_health_entry list \<Rightarrow> string" where
  "unhealthy_reason entries =
     ''blocked destructive action while swarm unhealthy: ''
     @ join_entries (map (\<lambda>entry. ahe_id entry @ '':'' @ health_debug (ahe_health entry)) entries)"

definition can_act_at ::
  "crypto_lib \<Rightarrow> 't governance_policy \<Rightarrow> response_action \<Rightarrow> i64 \<Rightarrow> i64 \<Rightarrow>
   (governance_decision \<times> 't governance_policy) option" where
  "can_act_at C policy action now_ms clock_ms =
     (let state = gp_state policy in
      if \<not> is_destructive_action action then Some (GAllow None None, policy)
      else if gs_local_governor state = None then
        Some (GVeto (governing_or state (AgentId_new ''tom'' ''unconfigured''))
                ''blocked destructive action because no governor signing key is registered'' None,
              policy)
      else if gs_partition_state state = PPartitioned then
        (case preview_matching_contingency_lease state action now_ms of
           Some lease \<Rightarrow> Some (GAllow (Some (le_governance_receipt lease)) (Some lease), policy)
         | None \<Rightarrow>
             Some (GVeto (governing_or state (AgentId_new ''tom'' ''partition''))
                ''blocked destructive action during partition without active contingency lease''
                None, policy))
      else
        let unhealthy = gs_unhealthy_agents state;
            decision = (if unhealthy = [] then Approve else Veto)
        in case issue_governance_receipt C (gp_transport policy) state (gp_transport_state policy)
                  action decision clock_ms of
             None \<Rightarrow> None
           | Some (Inl e, state, t) \<Rightarrow>
               Some (GVeto (governing_or state (AgentId_new ''tom'' ''unconfigured''))
                  (''blocked destructive action because the governance round produced no receipt: ''
                   @ consensus_error_display e) None,
                policy\<lparr>gp_state := state, gp_transport_state := t\<rparr>)
           | Some (Inr receipt, state, t) \<Rightarrow>
               Some (if unhealthy = [] then GAllow (Some receipt) None
                     else GVeto (governing_or state (gr_issued_by (rcpt_payload receipt)))
                            (unhealthy_reason unhealthy) (Some receipt),
                policy\<lparr>gp_state := state, gp_transport_state := t\<rparr>))"

text \<open>The wrapper reads the clock; a receipt reads it a second time.\<close>

definition can_act ::
  "crypto_lib \<Rightarrow> 't governance_policy \<Rightarrow> response_action \<Rightarrow> i64 \<Rightarrow> i64 \<Rightarrow>
   (governance_decision \<times> 't governance_policy) option" where
  "can_act C policy action first_clock_ms second_clock_ms =
     can_act_at C policy action first_clock_ms second_clock_ms"

definition is_partitioned :: "'t governance_policy \<Rightarrow> bool" where
  "is_partitioned policy \<longleftrightarrow> gs_partition_state (gp_state policy) = PPartitioned"

section \<open>Redemption while partitioned\<close>

definition record_partition_activity ::
  "governance_state \<Rightarrow> action_request \<Rightarrow> bool \<Rightarrow> string \<Rightarrow> string option \<Rightarrow> i64 \<Rightarrow> governance_state" where
  "record_partition_activity state request authorized reason lease_id now_ms =
     state\<lparr>gs_partition_activity := gs_partition_activity state @
       [\<lparr>pa_recorded_at_ms = now_ms, pa_hunt_id = hunt_str (ar_hunt_id request),
         pa_requested_by = agent_str (ar_requested_by request),
         pa_action_kind = kind (ar_action request),
         pa_scope = scope_for_response_action (ar_action request),
         pa_authorized = authorized, pa_reason = reason, pa_lease_id = lease_id\<rparr>]\<rparr>"

text \<open>A refusal: the reason is recorded, the state persisted, the reason returned.\<close>

definition refuse_partition_request ::
  "'t governance_policy \<Rightarrow> action_request \<Rightarrow> string \<Rightarrow> string option \<Rightarrow> i64 \<Rightarrow>
   (string + contingency_lease option) \<times> 't governance_policy" where
  "refuse_partition_request policy request reason lease_id now_ms =
     (Inl reason,
      persist_locked (policy\<lparr>gp_state :=
        record_partition_activity (gp_state policy) request False reason lease_id now_ms\<rparr>))"

definition authorize_partition_request ::
  "crypto_lib \<Rightarrow> (json \<Rightarrow> string + contingency_lease) \<Rightarrow> 't governance_policy \<Rightarrow> action_request \<Rightarrow>
   i64 \<Rightarrow> (string + contingency_lease option) \<times> 't governance_policy" where
  "authorize_partition_request C lease_of_json policy request now_ms =
     (let state = gp_state policy;
          refuse = (\<lambda>reason lease_id. refuse_partition_request policy request reason lease_id now_ms)
      in
      if \<not> is_destructive_action (ar_action request) then (Inr None, policy)
      else if gs_partition_state state \<noteq> PPartitioned then (Inr None, policy)
      else case json_get (ar_evidence request) ''contingency_lease'' of
        None \<Rightarrow> refuse ''missing contingency lease during partition'' None
      | Some lease_value \<Rightarrow>
        (case lease_of_json lease_value of
           Inl e \<Rightarrow> refuse (''invalid contingency lease: '' @ e) None
         | Inr lease \<Rightarrow>
           (case lease_verify C lease of
              Inl reason \<Rightarrow> refuse reason (Some (le_lease_id lease))
            | Inr _ \<Rightarrow>
              (case position (\<lambda>candidate. le_lease_id candidate = le_lease_id lease)
                      (gs_active_contingency_leases state) of
                 None \<Rightarrow> refuse (''unknown contingency lease `'' @ le_lease_id lease @ ''`'') None
               | Some index \<Rightarrow>
                 if gs_active_contingency_leases state ! index \<noteq> lease then
                   refuse (''contingency lease `'' @ le_lease_id lease
                           @ ''` did not match persisted lease'') None
                 else
                   (case redeem (gs_active_contingency_leases state ! index) (ar_action request) now_ms of
                      (Inl reason, existing) \<Rightarrow> refuse reason (Some (le_lease_id existing))
                    | (Inr _, redeemed) \<Rightarrow>
                        (Inr (Some redeemed),
                         persist_locked (policy\<lparr>gp_state :=
                           record_partition_activity
                             (state\<lparr>gs_active_contingency_leases :=
                                (gs_active_contingency_leases state)[index := redeemed]\<rparr>)
                             request True ''authorized by contingency lease''
                             (Some (le_lease_id redeemed)) now_ms\<rparr>)))))))"

definition note_partition_veto ::
  "'t governance_policy \<Rightarrow> action_request \<Rightarrow> string \<Rightarrow> i64 \<Rightarrow> 't governance_policy" where
  "note_partition_veto policy request reason now_ms =
     (if gs_partition_state (gp_state policy) \<noteq> PPartitioned then policy
      else persist_locked (policy\<lparr>gp_state :=
        record_partition_activity (gp_state policy) request False reason
          (Option.bind (json_get (ar_evidence request) ''contingency_lease'')
             (\<lambda>value. Option.bind (json_get value ''lease_id'') json_as_str)) now_ms\<rparr>))"

section \<open>Attesting a release\<close>

definition attest_release ::
  "crypto_lib \<Rightarrow> 't governance_policy \<Rightarrow> json \<Rightarrow> i64 \<Rightarrow>
   (governance_receipt option \<times> 't governance_policy) option" where
  "attest_release C policy subject now_ms =
     (let state = gp_state policy in
      if gs_local_governor state = None then Some (None, policy)
      else case canonical_json_bytes C subject of
        Inl _ \<Rightarrow> Some (None, policy)
      | Inr bs \<Rightarrow>
        (case run_governance_round C (gp_transport policy) state (gp_transport_state policy)
                \<lparr>prop_id = sha256_hex C bs, prop_payload = subject\<rparr> Approve now_ms of
           None \<Rightarrow> None
         | Some (Inl _, state, t) \<Rightarrow> Some (None, policy\<lparr>gp_state := state, gp_transport_state := t\<rparr>)
         | Some (Inr receipt, state, t) \<Rightarrow>
             Some (Some receipt, policy\<lparr>gp_state := state, gp_transport_state := t\<rparr>)))"

section \<open>Reports\<close>

record governance_status_report =
  sr_partition_state :: partition_state
  sr_total_governors :: usize
  sr_healthy_governors :: usize
  sr_quorum_threshold :: usize
  sr_active_contingency_leases :: usize
  sr_unauthorized_partition_actions :: usize
  sr_last_transition_at_ms :: "i64 option"
  sr_last_reconciliation_report_id :: "string option"

definition status_report :: "'t governance_policy \<Rightarrow> governance_status_report" where
  "status_report policy =
     (let state = gp_state policy; reports = gs_reconciliation_reports state in
      \<lparr>sr_partition_state = gs_partition_state state,
       sr_total_governors = total_governors state,
       sr_healthy_governors = gs_last_healthy_governors state,
       sr_quorum_threshold = gs_last_quorum_threshold state,
       sr_active_contingency_leases = length (gs_active_contingency_leases state),
       sr_unauthorized_partition_actions =
         length (filter (\<lambda>r. \<not> pa_authorized r) (gs_partition_activity state)),
       sr_last_transition_at_ms = gs_last_transition_at_ms state,
       sr_last_reconciliation_report_id =
         (if reports = [] then None else Some (rr_report_id (last reports)))\<rparr>)"

definition drain_runtime_events ::
  "'t governance_policy \<Rightarrow> governance_runtime_event list \<times> 't governance_policy" where
  "drain_runtime_events policy =
     (gs_pending_events (gp_state policy),
      policy\<lparr>gp_state := (gp_state policy)\<lparr>gs_pending_events := []\<rparr>\<rparr>)"

record runtime_event_record =
  ev_governing_agent_id :: string
  ev_role :: agent_role
  ev_action_kind :: string
  ev_details :: json

fun partition_state_json :: "partition_state \<Rightarrow> json" where
  "partition_state_json PHealthy = JString ''healthy''"
| "partition_state_json PDegraded = JString ''degraded''"
| "partition_state_json PPartitioned = JString ''partitioned''"
| "partition_state_json PHealing = JString ''healing''"

text \<open>A field that is skipped when it is absent.\<close>

definition opt_field :: "string \<Rightarrow> ('a \<Rightarrow> json) \<Rightarrow> 'a option \<Rightarrow> (string \<times> json) list" where
  "opt_field name f x = (case x of None \<Rightarrow> [] | Some v \<Rightarrow> [(name, f v)])"

definition action_record_json :: "partition_action_record \<Rightarrow> json" where
  "action_record_json r =
     JObject ([(''recorded_at_ms'', json_int (pa_recorded_at_ms r)),
               (''hunt_id'', JString (pa_hunt_id r)), (''requested_by'', JString (pa_requested_by r)),
               (''action_kind'', JString (pa_action_kind r))]
              @ opt_field ''scope'' JString (pa_scope r)
              @ [(''authorized'', JBool (pa_authorized r)), (''reason'', JString (pa_reason r))]
              @ opt_field ''lease_id'' JString (pa_lease_id r))"

definition reconciliation_report_json :: "partition_reconciliation_report \<Rightarrow> json" where
  "reconciliation_report_json r =
     JObject ([(''report_id'', JString (rr_report_id r)), (''created_at_ms'', json_int (rr_created_at_ms r))]
              @ opt_field ''partition_started_at_ms'' json_int (rr_partition_started_at_ms r)
              @ [(''healed_at_ms'', json_int (rr_healed_at_ms r)),
                 (''authorized_actions'', JArray (map action_record_json (rr_authorized_actions r))),
                 (''unauthorized_actions'', JArray (map action_record_json (rr_unauthorized_actions r)))])"

fun runtime_event_json :: "governance_runtime_event \<Rightarrow> json" where
  "runtime_event_json (PartitionStateTransition e) =
     JObject [(''kind'', JString ''partition_state_transition''),
              (''emitted_at_ms'', json_int (te_emitted_at_ms e)),
              (''governing_agent_id'', agent_id_json (te_governing_agent_id e)),
              (''from'', partition_state_json (te_from e)), (''to'', partition_state_json (te_to e)),
              (''healthy_governors'', json_nat (te_healthy_governors e)),
              (''total_governors'', json_nat (te_total_governors e)),
              (''quorum_threshold'', json_nat (te_quorum_threshold e)),
              (''reason'', JString (te_reason e))]"
| "runtime_event_json (PartitionReconciliation emitted_at_ms agent report) =
     JObject [(''kind'', JString ''partition_reconciliation''),
              (''emitted_at_ms'', json_int emitted_at_ms),
              (''governing_agent_id'', agent_id_json agent),
              (''report'', reconciliation_report_json report)]"

fun governance_runtime_event_record ::
  "governance_runtime_event \<Rightarrow> runtime_event_record" where
  "governance_runtime_event_record (PartitionStateTransition e) =
     \<lparr>ev_governing_agent_id = agent_str (te_governing_agent_id e), ev_role = Tom,
      ev_action_kind = ''partition_state_transition'',
      ev_details = runtime_event_json (PartitionStateTransition e)\<rparr>"
| "governance_runtime_event_record (PartitionReconciliation at agent report) =
     \<lparr>ev_governing_agent_id = agent_str agent, ev_role = Tom,
      ev_action_kind = ''partition_reconciliation'',
      ev_details = runtime_event_json (PartitionReconciliation at agent report)\<rparr>"

section \<open>The authority the dispatcher sees\<close>

text \<open>
  The trait methods of \<^verbatim>\<open>GovernanceAuthority\<close> whose result differs from the inherent method of
  the same name: a verdict instead of the lease, flat event records, a serialised receipt.
\<close>

definition authority_authorize ::
  "crypto_lib \<Rightarrow> (json \<Rightarrow> string + contingency_lease) \<Rightarrow> 't governance_policy \<Rightarrow> action_request \<Rightarrow>
   i64 \<Rightarrow> (string + bool) \<times> 't governance_policy" where
  "authority_authorize C lease_of_json policy request now_ms =
     map_prod (map_result (\<lambda>lease. lease \<noteq> None)) id
       (authorize_partition_request C lease_of_json policy request now_ms)"

definition authority_drain ::
  "'t governance_policy \<Rightarrow> runtime_event_record list \<times> 't governance_policy" where
  "authority_drain policy =
     map_prod (map governance_runtime_event_record) id (drain_runtime_events policy)"

definition governance_receipt_json :: "governance_receipt \<Rightarrow> json" where
  "governance_receipt_json r =
     JObject [(''payload'', receipt_payload_json (rcpt_payload r)),
              (''signature'', detached_signature_json (rcpt_signature r))]"

definition authority_attest ::
  "crypto_lib \<Rightarrow> 't governance_policy \<Rightarrow> json \<Rightarrow> i64 \<Rightarrow>
   (json option \<times> 't governance_policy) option" where
  "authority_attest C policy subject now_ms =
     map_option (map_prod (map_option governance_receipt_json) id) (attest_release C policy subject now_ms)"

section \<open>The agent\<close>

record tom_agent =
  ta_id :: agent_id
  ta_verifying_key :: bytes
  ta_health :: agent_health
  ta_degraded_tick_threshold :: usize
  ta_degraded_ticks :: "string \<rightharpoonup> usize"

text \<open>The actions a tick can return.\<close>

datatype tom_action = RoleShift agent_id agent_role | HealthReport agent_id agent_health

definition tom_new_with_signing_key ::
  "crypto_lib \<Rightarrow> agent_id \<Rightarrow> bytes \<Rightarrow> usize \<Rightarrow> 't governance_policy \<Rightarrow>
   (governance_key_error + tom_agent) \<times> 't governance_policy" where
  "tom_new_with_signing_key C aid signing_key degraded_tick_threshold policy =
     (case register_governor C policy aid signing_key of
        (Inl e, policy) \<Rightarrow> (Inl e, policy)
      | (Inr _, policy) \<Rightarrow>
          (Inr \<lparr>ta_id = aid, ta_verifying_key = lib_verifying_key C signing_key,
                ta_health = Healthy, ta_degraded_tick_threshold = degraded_tick_threshold,
                ta_degraded_ticks = Map.empty\<rparr>, policy))"

fun tom_scan ::
  "tom_agent \<Rightarrow> agent_health_entry list \<Rightarrow> tom_action list \<Rightarrow> (string \<rightharpoonup> usize) \<Rightarrow>
   (tom_action list \<times> (string \<rightharpoonup> usize)) option" where
  "tom_scan agent [] actions degraded_ticks = Some (actions, degraded_ticks)"
| "tom_scan agent (entry # entries) actions degraded_ticks =
     (if ahe_id entry = agent_str (ta_id agent) then tom_scan agent entries actions degraded_ticks
      else case ahe_health entry of
        Healthy \<Rightarrow> tom_scan agent entries actions degraded_ticks
      | Failed \<Rightarrow> tom_scan agent entries actions degraded_ticks
      | Degraded \<Rightarrow>
          (case u64_add (case ta_degraded_ticks agent (ahe_id entry) of None \<Rightarrow> 0 | Some n \<Rightarrow> n) 1 of
             None \<Rightarrow> None
           | Some seen \<Rightarrow>
               tom_scan agent entries
                 (actions
                  @ (if ahe_role entry \<noteq> Tom then [RoleShift (AgentId (ahe_id entry)) Tom] else [])
                  @ (if seen = ta_degraded_tick_threshold agent
                     then [HealthReport (AgentId (ahe_id entry)) Failed] else []))
                 (degraded_ticks(ahe_id entry \<mapsto> seen))))"

definition tom_tick ::
  "crypto_lib \<Rightarrow> tom_agent \<Rightarrow> 't governance_policy \<Rightarrow> agent_health_entry list \<Rightarrow> i64 \<Rightarrow>
   (tom_action list \<times> tom_agent \<times> 't governance_policy) option" where
  "tom_tick C agent policy entries clock_ms =
     (case observe_health C policy (ta_id agent) entries clock_ms of
        None \<Rightarrow> None
      | Some policy \<Rightarrow>
          (case tom_scan agent entries [] Map.empty of
             None \<Rightarrow> None
           | Some (actions, degraded_ticks) \<Rightarrow>
               Some (actions, agent\<lparr>ta_degraded_ticks := degraded_ticks\<rparr>, policy)))"

end
