(* ===== verification/Governance_Contract.thy ===== *)
theory Governance_Contract
  imports Governance_Policy
begin

text \<open>
  How the operations of the governance policy change its state. The locale
  \<open>governance_contract\<close> names the elementary changes; a relation on states that every one of
  them respects holds between the state before and after each operation, and over every run.
  The interpretations give the single governor key, the well-formedness of leases and the
  bound on retained reports.
\<close>

section \<open>Elementary changes\<close>

definition fresh_lease :: "contingency_lease \<Rightarrow> bool" where
  "fresh_lease lease \<longleftrightarrow> le_redeemed_scopes lease = [] \<and> 0 < le_blast_radius_cap lease"

text \<open>A round moves the receipt chain and nothing else.\<close>

definition only_chain :: "governance_state \<Rightarrow> governance_state \<Rightarrow> bool" where
  "only_chain s s' \<longleftrightarrow>
     s' = s\<lparr>gs_previous_commit_hash := gs_previous_commit_hash s',
           gs_receipt_counter := gs_receipt_counter s'\<rparr>"

lemma only_chain_refl [simp]: "only_chain s s"
  by (simp add: only_chain_def)

lemma run_governance_round_state:
  "run_governance_round C T s t proposal d now = Some (res, s', t') \<Longrightarrow> only_chain s s'"
  by (auto simp: run_governance_round_def only_chain_def
      split: option.splits sum.splits if_splits prod.splits)

lemma issue_governance_receipt_state:
  "issue_governance_receipt C T s t action d now = Some (res, s', t') \<Longrightarrow> only_chain s s'"
  by (auto simp: issue_governance_receipt_def split: sum.splits dest: run_governance_round_state)

lemma issue_contingency_lease_state:
  "issue_contingency_lease C T s t k sc cap ttl now = Some (res, s', t') \<Longrightarrow>
   only_chain s s' \<and> (\<forall>lease. res = Some lease \<longrightarrow> fresh_lease lease)"
  by (auto simp: issue_contingency_lease_def Let_def fresh_lease_def
      split: if_splits sum.splits option.splits prod.splits dest: run_governance_round_state)

text \<open>A health report: the observation, then the match, then the entry into the next state.\<close>

definition reported :: "governance_state \<Rightarrow> agent_id \<Rightarrow> agent_health_entry list \<Rightarrow> governance_state" where
  "reported s gid entries =
     s\<lparr>gs_governing_agent_id := Some gid,
       gs_unhealthy_agents := filter (\<lambda>entry. ahe_health entry \<noteq> Healthy) entries,
       gs_last_healthy_governors := total_governors s - unhealthy_governors s entries,
       gs_last_quorum_threshold :=
         governance_quorum_threshold (total_governors s) (recommended_max_faulty (total_governors s))\<rparr>"

definition base_of :: "governance_state \<Rightarrow> partition_state" where
  "base_of s =
     base_partition_state (gs_last_healthy_governors s) (gs_last_quorum_threshold s) (gs_unhealthy_agents s)"

lemma health_transition_settle:
  assumes "settle_partition (reported s gid entries) (base_of (reported s gid entries)) now = (st, s')"
  shows "health_transition s gid entries now = prune_expired_contingency_leases
     (enter_partition_state s' st (gs_last_healthy_governors (reported s gid entries)) (total_governors s)
        (gs_last_quorum_threshold (reported s gid entries)) now) now"
proof -
  have governors: "total_governors (s\<lparr>gs_governing_agent_id := a, gs_unhealthy_agents := u\<rparr>) = total_governors s"
    "unhealthy_governors (s\<lparr>gs_governing_agent_id := a, gs_unhealthy_agents := u\<rparr>) entries =
       unhealthy_governors s entries" for a u
    by (simp_all add: total_governors_def unhealthy_governors_def governor_count_def)
  from assms show ?thesis
    by (simp add: health_transition_def reported_def base_of_def Let_def governors)
qed

lemma gp_persist_locked [simp]:
  "gp_state (persist_locked p) = gp_state p" "gp_config (persist_locked p) = gp_config p"
  "gp_transport (persist_locked p) = gp_transport p"
  "gp_transport_state (persist_locked p) = gp_transport_state p"
  by (simp_all add: persist_locked_def split: option.splits)

lemmas position_bound = position_Some[THEN conjunct1]

section \<open>Steps, runs and restarts\<close>

text \<open>
  One public operation with arbitrary arguments; \<open>D\<close> decodes leases. A life is a sequence of
  operations and restarts: a restarted process loads the state file and gets a transport
  in some state.
\<close>

inductive policy_step ::
  "crypto_lib \<Rightarrow> (json \<Rightarrow> string + contingency_lease) \<Rightarrow> 't governance_policy \<Rightarrow> 't governance_policy \<Rightarrow> bool"
  for C D where
  step_register: "policy_step C D p (snd (register_governor C p gid sk))"
| step_peer: "policy_step C D p (register_peer_governor C p peer)"
| step_observe: "observe_health C p gid entries now = Some p' \<Longrightarrow> policy_step C D p p'"
| step_act: "can_act C p action now clock = Some (d, p') \<Longrightarrow> policy_step C D p p'"
| step_authorize: "policy_step C D p (snd (authorize_partition_request C D p request now))"
| step_veto: "policy_step C D p (note_partition_veto p request reason now)"
| step_attest: "attest_release C p subject now = Some (r, p') \<Longrightarrow> policy_step C D p p'"
| step_drain: "policy_step C D p (snd (drain_runtime_events p))"

abbreviation policy_run ::
  "crypto_lib \<Rightarrow> (json \<Rightarrow> string + contingency_lease) \<Rightarrow> 't governance_policy \<Rightarrow> 't governance_policy \<Rightarrow> bool" where
  "policy_run C D \<equiv> (policy_step C D)\<^sup>*\<^sup>*"

definition restarts_as :: "'t governance_policy \<Rightarrow> 't governance_policy \<Rightarrow> bool" where
  "restarts_as p p' \<longleftrightarrow>
     (\<exists>pe q t. gp_persistence p = Some pe \<and> with_persistence (gp_config p) pe = Inr q \<and>
             p' = with_transport q (gp_transport p) t)"

inductive policy_life ::
  "crypto_lib \<Rightarrow> (json \<Rightarrow> string + contingency_lease) \<Rightarrow> 't governance_policy \<Rightarrow> 't governance_policy \<Rightarrow> bool"
  for C D where
  life_start: "policy_life C D p p"
| life_step: "policy_life C D p q \<Longrightarrow> policy_step C D q r \<Longrightarrow> policy_life C D p r"
| life_restart: "policy_life C D p q \<Longrightarrow> restarts_as q r \<Longrightarrow> policy_life C D p r"

text \<open>What an operation does to the parts of the policy other than its state.\<close>

definition saved :: "'t governance_policy \<Rightarrow> 't governance_policy \<Rightarrow> bool" where
  "saved p p' \<longleftrightarrow>
     gp_config p' = gp_config p \<and> gp_transport p' = gp_transport p \<and>
     (gp_persistence p' = gp_persistence p \<or>
      (\<exists>pe. gp_persistence p = Some pe \<and>
            gp_persistence p' = Some (pe\<lparr>pe_file := Some (Inr (persisted_of (gp_state p')))\<rparr>)))"

lemma saved_keep: "saved p (p\<lparr>gp_state := s, gp_transport_state := t\<rparr>)" "saved p p" "saved p (p\<lparr>gp_state := s\<rparr>)"
  by (simp_all add: saved_def)

lemma saved_persist:
  "saved p (persist_locked (p\<lparr>gp_state := s, gp_transport_state := t\<rparr>))"
  "saved p (persist_locked (p\<lparr>gp_state := s\<rparr>))"
  by (auto simp: saved_def persist_locked_def persistence_save_def split: option.splits)

lemma policy_step_saved: "policy_step C D p p' \<Longrightarrow> saved p p'"
proof (induction rule: policy_step.induct)
  case (step_observe p gid entries now p')
  then show ?case
    by (auto simp: observe_health_def Let_def saved_persist split: if_splits option.splits)
next
  case (step_act p action now clock d p')
  then show ?case
    by (auto simp: can_act_def can_act_at_def Let_def saved_keep
        split: if_splits option.splits sum.splits prod.splits)
next
  case (step_attest p subject now r p')
  then show ?case
    by (auto simp: attest_release_def Let_def saved_keep
        split: if_splits option.splits sum.splits prod.splits)
qed (auto simp: register_governor_def register_peer_governor_def authorize_partition_request_def
    refuse_partition_request_def note_partition_veto_def drain_runtime_events_def Let_def
    saved_keep saved_persist split: option.splits sum.splits prod.splits)

section \<open>The contract\<close>

locale governance_contract =
  fixes C :: crypto_lib and K :: "governance_state \<Rightarrow> governance_state \<Rightarrow> bool"
  assumes keep: "K s s"
    and after: "K s s' \<Longrightarrow> K s' s'' \<Longrightarrow> K s s''"
    and chained: "K s (s\<lparr>gs_previous_commit_hash := h, gs_receipt_counter := n\<rparr>)"
    and staged: "fresh_lease lease \<Longrightarrow>
      K s (s\<lparr>gs_active_contingency_leases := gs_active_contingency_leases s @ [lease]\<rparr>)"
    and pruned: "K s (prune_expired_contingency_leases s now)"
    and observed: "K s (s\<lparr>gs_governing_agent_id := g, gs_unhealthy_agents := u,
      gs_last_healthy_governors := hg, gs_last_quorum_threshold := qt\<rparr>)"
    and reconciled: "K s (snd (reconcile_partition_activity s now))"
    and entered: "K s (s\<lparr>gs_partition_state := st, gs_partition_started_at_ms := a,
      gs_last_transition_at_ms := b\<rparr>)"
    and queued: "K s (s\<lparr>gs_pending_events := events\<rparr>)"
    and recorded: "K s (record_partition_activity s request authorized reason lid now)"
    and redeemed: "i < length (gs_active_contingency_leases s) \<Longrightarrow>
      redeem (gs_active_contingency_leases s ! i) action now = (Inr u', lease') \<Longrightarrow>
      K s (s\<lparr>gs_active_contingency_leases := (gs_active_contingency_leases s)[i := lease']\<rparr>)"
    and installed: "(\<And>k. gs_local_governor s = Some k \<Longrightarrow>
        local_verifying_key C k = local_verifying_key C (local_governor_key_new C sk)) \<Longrightarrow>
      K s (install_governor s gid (local_governor_key_new C sk))"
    and admitted: "(\<And>k. gs_local_governor s = Some k \<Longrightarrow> lg_consensus_agent_id k \<noteq> peer) \<Longrightarrow>
      K s (s\<lparr>gs_peer_governors := insert peer (gs_peer_governors s)\<rparr>)"
begin

lemma only_chain_holds: "only_chain s s' \<Longrightarrow> K s s'"
  using chained[where h = "gs_previous_commit_hash s'" and n = "gs_receipt_counter s'" and s = s] by (simp add: only_chain_def)

lemma ensure_holds:
  "ensure_contingency_leases C T config kinds s t now = Some (s', t') \<Longrightarrow> K s s'"
proof (induction kinds arbitrary: s t)
  case Nil
  then show ?case using keep by simp
next
  case (Cons k kinds)
  show ?case
  proof (cases "list_ex (lease_staged now k) (gs_active_contingency_leases s)")
    case True
    with Cons show ?thesis by simp
  next
    case False
    with Cons.prems obtain res s1 t1 where
      issue: "issue_contingency_lease C T s t k None (gc_contingency_blast_radius_cap config)
         (gc_contingency_lease_ttl_ms config) now = Some (res, s1, t1)"
      by (auto split: option.splits)
    from issue_contingency_lease_state[OF issue] have s1: "K s s1" by (simp add: only_chain_holds)
    show ?thesis
    proof (cases res)
      case None
      with False Cons issue s1 after show ?thesis by fastforce
    next
      case (Some lease)
      with issue_contingency_lease_state[OF issue] staged after[OF s1]
      have "K s (s1\<lparr>gs_active_contingency_leases := gs_active_contingency_leases s1 @ [lease]\<rparr>)" by blast
      moreover from False Cons.prems issue Some have
        "ensure_contingency_leases C T config kinds
           (s1\<lparr>gs_active_contingency_leases := gs_active_contingency_leases s1 @ [lease]\<rparr>) t1 now = Some (s', t')"
        by simp
      ultimately show ?thesis using Cons.IH after by blast
    qed
  qed
qed

lemma settle_holds: "K s (snd (settle_partition s base now))"
proof -
  obtain report r where r: "reconcile_partition_activity s now = (report, r)" by fastforce
  then have "K s r" using reconciled[of s now] by simp
  moreover have "K r (r\<lparr>gs_pending_events := events\<rparr>)" for events by (rule queued)
  ultimately show ?thesis
    using r keep after by (auto simp: settle_partition_def split: option.splits)
qed

lemma enter_holds: "K s (enter_partition_state s st h g q now)"
proof (cases "gs_partition_state s = st")
  case True
  then show ?thesis by (simp add: enter_partition_state_def keep)
next
  case False
  have "\<exists>a events. enter_partition_state s st h g q now =
      s\<lparr>gs_partition_state := st, gs_partition_started_at_ms := a,
        gs_last_transition_at_ms := Some now\<rparr>\<lparr>gs_pending_events := events\<rparr>"
    using False
    by (intro exI[of _ "gs_partition_started_at_ms (enter_partition_state s st h g q now)"]
          exI[of _ "gs_pending_events (enter_partition_state s st h g q now)"])
       (auto simp: enter_partition_state_def Let_def split: option.splits)
  with after[OF entered queued] show ?thesis by metis
qed

lemma health_transition_holds: "K s (health_transition s gid entries now)"
proof -
  obtain st s2 where st: "settle_partition (reported s gid entries) (base_of (reported s gid entries)) now = (st, s2)"
    by fastforce
  have "K s (reported s gid entries)" unfolding reported_def by (rule observed)
  moreover have "K (reported s gid entries) s2" using settle_holds[of "reported s gid entries"] st by (metis snd_conv)
  ultimately show ?thesis unfolding health_transition_settle[OF st] using enter_holds pruned after by metis
qed

lemma observe_health_holds:
  assumes "observe_health C p gid entries now = Some p'"
  shows "K (gp_state p) (gp_state p')"
proof -
  let ?s = "health_transition (gp_state p) gid entries now"
  have "gp_state p' = ?s \<or> (\<exists>t'. ensure_contingency_leases C (gp_transport p) (gp_config p)
      tom_destructive_action_kinds ?s (gp_transport_state p) now = Some (gp_state p', t'))"
    using assms by (auto simp: observe_health_def Let_def split: if_splits option.splits)
  then show ?thesis using health_transition_holds ensure_holds after by metis
qed

lemma register_governor_holds: "K (gp_state p) (gp_state (snd (register_governor C p gid sk)))"
  by (auto simp: register_governor_def Let_def keep intro!: installed split: option.splits)

lemma register_peer_governor_holds: "K (gp_state p) (gp_state (register_peer_governor C p peer))"
  by (auto simp: register_peer_governor_def Let_def keep intro!: admitted split: option.splits)

lemma can_act_at_holds:
  assumes "can_act_at C p action now clock = Some (d, p')"
  shows "K (gp_state p) (gp_state p')"
proof -
  have "gp_state p' = gp_state p \<or> only_chain (gp_state p) (gp_state p')"
    using assms by (auto simp: can_act_at_def Let_def dest!: issue_governance_receipt_state
        split: if_splits option.splits sum.splits prod.splits)
  then show ?thesis using keep only_chain_holds by metis
qed

lemma authorize_holds:
  "K (gp_state p) (gp_state (snd (authorize_partition_request C D p request now)))"
proof -
  have spent: "K s (record_partition_activity
      (s\<lparr>gs_active_contingency_leases := (gs_active_contingency_leases s)[i := lease']\<rparr>)
      request True reason lid now)"
    if "position P (gs_active_contingency_leases s) = Some i"
      "redeem (gs_active_contingency_leases s ! i) action now = (Inr u', lease')" for s P i lease' u' action reason lid
    using after[OF redeemed[OF position_bound[OF that(1)] that(2)] recorded] .
  show ?thesis
    by (auto simp: authorize_partition_request_def refuse_partition_request_def Let_def keep recorded
        intro: spent split: option.splits sum.splits prod.splits)
qed

lemma note_partition_veto_holds: "K (gp_state p) (gp_state (note_partition_veto p request reason now))"
  by (simp add: note_partition_veto_def keep recorded)

lemma attest_release_holds:
  assumes "attest_release C p subject now = Some (r, p')"
  shows "K (gp_state p) (gp_state p')"
proof -
  have "gp_state p' = gp_state p \<or> only_chain (gp_state p) (gp_state p')"
    using assms by (auto simp: attest_release_def Let_def dest!: run_governance_round_state
        split: if_splits option.splits sum.splits prod.splits)
  then show ?thesis using keep only_chain_holds by metis
qed

lemma drain_holds: "K (gp_state p) (gp_state (snd (drain_runtime_events p)))"
  by (simp add: drain_runtime_events_def queued)

lemma step_holds: "policy_step C D p p' \<Longrightarrow> K (gp_state p) (gp_state p')"
  by (induction rule: policy_step.induct)
     (auto simp: can_act_def register_governor_holds register_peer_governor_holds authorize_holds
        note_partition_veto_holds drain_holds
        intro: observe_health_holds can_act_at_holds attest_release_holds)

lemma run_holds: "policy_run C D p p' \<Longrightarrow> K (gp_state p) (gp_state p')"
  by (induction rule: rtranclp_induct) (auto intro: keep after step_holds)

end

section \<open>The governor key\<close>

definition key_kept :: "crypto_lib \<Rightarrow> governance_state \<Rightarrow> governance_state \<Rightarrow> bool" where
  "key_kept C s s' \<longleftrightarrow>
     (\<forall>k. gs_local_governor s = Some k \<longrightarrow>
        (\<exists>k'. gs_local_governor s' = Some k' \<and> local_verifying_key C k' = local_verifying_key C k))"

lemma same_key_kept: "gs_local_governor s' = gs_local_governor s \<Longrightarrow> key_kept C s s'"
  by (simp add: key_kept_def)

lemmas state_change_defs =
  prune_expired_contingency_leases_def reconcile_partition_activity_def
  record_partition_activity_def install_governor_def Let_def

interpretation gk: governance_contract C "key_kept C"
proof (unfold_locales, goal_cases keep after chained staged pruned observed reconciled entered
    queued recorded redeemed installed admitted)
  case (after s s' s'')
  then show ?case by (fastforce simp: key_kept_def)
next
  case (installed s sk gid)
  then show ?case by (auto simp: key_kept_def install_governor_def)
qed (simp_all add: same_key_kept state_change_defs)

section \<open>Well-formed states\<close>

definition lease_ok :: "contingency_lease \<Rightarrow> bool" where
  "lease_ok lease \<longleftrightarrow>
     distinct (le_redeemed_scopes lease) \<and>
     length (le_redeemed_scopes lease) \<le> le_blast_radius_cap lease"

definition governor_ok :: "crypto_lib \<Rightarrow> local_governor_key option \<Rightarrow> agent_id set \<Rightarrow> bool" where
  "governor_ok C local peers \<longleftrightarrow>
     finite peers \<and>
     (\<forall>k. local = Some k \<longrightarrow>
        lg_consensus_agent_id k = from_verifying_key C (local_verifying_key C k) \<and>
        lg_consensus_agent_id k \<notin> peers)"

definition state_ok :: "crypto_lib \<Rightarrow> governance_state \<Rightarrow> bool" where
  "state_ok C s \<longleftrightarrow>
     governor_ok C (gs_local_governor s) (gs_peer_governors s) \<and>
     list_all lease_ok (gs_active_contingency_leases s) \<and>
     length (gs_reconciliation_reports s) \<le> MAX_RECONCILIATION_REPORTS"

definition state_ok_kept :: "crypto_lib \<Rightarrow> governance_state \<Rightarrow> governance_state \<Rightarrow> bool" where
  "state_ok_kept C s s' \<longleftrightarrow> (state_ok C s \<longrightarrow> state_ok C s')"

lemma redeem_lease_ok:
  "redeem lease action now = (Inr u, lease') \<Longrightarrow> lease_ok lease \<Longrightarrow> lease_ok lease'"
  by (auto simp: redeem_def lease_redeem_def terms_def lease_ok_def Let_def
      split: sum.splits lease_redeem_outcome.splits if_splits)

lemma list_all_update: "list_all P xs \<Longrightarrow> P x \<Longrightarrow> list_all P (xs[i := x])"
  by (auto simp: list_all_iff dest: set_update_subset_insert[THEN subsetD])

interpretation gok: governance_contract C "state_ok_kept C"
proof (unfold_locales, goal_cases keep after chained staged pruned observed reconciled entered
    queued recorded redeemed installed admitted)
  case (redeemed i s action now u' lease')
  show ?case
  proof (unfold state_ok_kept_def, rule impI)
    assume ok: "state_ok C s"
    then have "lease_ok (gs_active_contingency_leases s ! i)"
      using redeemed(1) by (simp add: state_ok_def list_all_length)
    from redeem_lease_ok[OF redeemed(2) this] ok
    show "state_ok C (s\<lparr>gs_active_contingency_leases := (gs_active_contingency_leases s)[i := lease']\<rparr>)"
      by (simp add: state_ok_def list_all_update)
  qed
next
  case (installed s sk gid)
  then show ?case
    by (simp add: state_ok_kept_def state_ok_def install_governor_def)
       (simp add: governor_ok_def local_governor_key_new_def local_verifying_key_def)
next
  case (admitted s peer)
  then show ?case by (auto simp: state_ok_kept_def state_ok_def governor_ok_def)
next
  case (pruned s now)
  then show ?case
    by (auto simp: state_ok_kept_def state_ok_def prune_expired_contingency_leases_def list_all_iff)
qed (auto simp: state_ok_kept_def state_ok_def reconcile_partition_activity_def
    record_partition_activity_def Let_def lease_ok_def fresh_lease_def)

end
