(* ===== verification/Governance_Rounds.thy ===== *)
theory Governance_Rounds
  imports Governance_Contract
begin

text \<open>
  What a governance round gives: any receipt is signed by the local governor, chained to the
  previous commit and carries two quorums; a committee with peers is refused by the shipped
  transport; a governor alone always gets its receipt. The last section proves the
  properties of \<^verbatim>\<open>can_act\<close> and of the receipt chain that rest on it.
\<close>

section \<open>Committees of a policy\<close>

lemma committee_members_set:
  "governor_ok C (gs_local_governor s) (gs_peer_governors s) \<Longrightarrow>
   set (committee_members s) = gs_peer_governors s \<union>
     (case gs_local_governor s of None \<Rightarrow> {} | Some k \<Rightarrow> {lg_consensus_agent_id k})"
  by (auto simp: committee_members_def governor_ok_def split: option.splits)

lemma committee_members_count:
  "governor_ok C (gs_local_governor s) (gs_peer_governors s) \<Longrightarrow>
   length (committee_members s) = card (gs_peer_governors s) + (if gs_local_governor s = None then 0 else 1)"
  by (auto simp: committee_members_def governor_ok_def length_sorted_list_of_set split: option.splits)

definition local_node_of :: "crypto_lib \<Rightarrow> governance_state \<Rightarrow> i64 \<Rightarrow> consensus_node \<Rightarrow> bool" where
  "local_node_of C s now node \<longleftrightarrow>
     (\<exists>k committee. gs_local_governor s = Some k \<and> governance_committee C s = Inr committee \<and>
        local_consensus_node k committee consensus_config_default (gs_previous_commit_hash s) now = Inr node)"

lemma local_node_started:
  assumes "local_node_of C s now node"
  shows "started C (committee_members s) (recommended_max_faulty (length (committee_members s)))
           (gs_previous_commit_hash s) node"
  using assms unfolding local_node_of_def started_def governance_committee_def local_consensus_node_def Let_def
  by blast

lemma local_node_fields:
  assumes "local_node_of C s now node" "gs_local_governor s = Some k"
  shows "cn_local_agent_id node = lg_consensus_agent_id k" "cn_local_signing_key node = Some (lg_signing_key k)"
    "governance_committee C s = Inr (cn_committee node)"
  using assms by (auto simp: local_node_of_def local_consensus_node_def node_new_def split: if_splits)

section \<open>Receipts\<close>

definition receipt_ok ::
  "crypto_lib \<Rightarrow> governance_state \<Rightarrow> governance_receipt_decision \<Rightarrow> i64 \<Rightarrow> governance_receipt \<Rightarrow> bool" where
  "receipt_ok C s d now r \<longleftrightarrow>
     (\<exists>k. gs_local_governor s = Some k \<and>
        governance_receipt_verify C r = Inr (local_verifying_key C k) \<and>
        gr_issued_by (rcpt_payload r) = lg_consensus_agent_id k) \<and>
     gr_decision (rcpt_payload r) = d \<and> gr_issued_at_ms (rcpt_payload r) = now \<and>
     gr_previous_commit_hash (rcpt_payload r) = gs_previous_commit_hash s \<and>
     gr_threshold (rcpt_payload r) = 2 * recommended_max_faulty (length (committee_members s)) + 1 \<and>
     gr_threshold (rcpt_payload r) \<le> gr_prevote_tally (rcpt_payload r) \<and>
     gr_threshold (rcpt_payload r) \<le> gr_precommit_tally (rcpt_payload r)"

lemma round_receiptE:
  assumes "run_governance_round C T s t proposal d now = Some (Inr r, s', t')"
  obtains k node com n' where "gs_local_governor s = Some k" "local_node_of C s now node"
    "drive_round C T node t proposal now = Some (Inr com, n', t')"
    "issue_receipt C k com (gs_previous_commit_hash s) (cn_committee node) d now = Inr r"
    "s' = s\<lparr>gs_previous_commit_hash := com_commit_hash com,
            gs_receipt_counter := u64_saturating_add (gs_receipt_counter s) 1\<rparr>"
proof -
  from assms obtain k committee node com n' where
    k: "gs_local_governor s = Some k" "governance_committee C s = Inr committee"
      "local_consensus_node k committee consensus_config_default (gs_previous_commit_hash s) now = Inr node"
    and d: "drive_round C T node t proposal now = Some (Inr com, n', t')"
    and i: "issue_receipt C k com (gs_previous_commit_hash s) committee d now = Inr r"
    and s': "s' = s\<lparr>gs_previous_commit_hash := com_commit_hash com,
            gs_receipt_counter := u64_saturating_add (gs_receipt_counter s) 1\<rparr>"
    by (auto simp: run_governance_round_def split: option.splits sum.splits if_splits prod.splits)
  from k have n: "local_node_of C s now node" unfolding local_node_of_def by blast
  from local_node_fields(3)[OF n k(1)] k(2) have "committee = cn_committee node" by simp
  with that k(1) n d i s' show thesis by blast
qed

lemma round_receipt_ok:
  assumes laws: "crypto_laws C" and ok: "governor_ok C (gs_local_governor s) (gs_peer_governors s)"
    and run: "run_governance_round C T s t proposal d now = Some (Inr r, s', t')"
  shows "receipt_ok C s d now r \<and> gs_previous_commit_hash s' = gr_commit_hash (rcpt_payload r) \<and>
         gs_receipt_counter s' = u64_saturating_add (gs_receipt_counter s) 1"
proof -
  from run obtain k node com n' where k: "gs_local_governor s = Some k"
    and node: "local_node_of C s now node"
    and drive: "drive_round C T node t proposal now = Some (Inr com, n', t')"
    and issue: "issue_receipt C k com (gs_previous_commit_hash s) (cn_committee node) d now = Inr r"
    and s': "s' = s\<lparr>gs_previous_commit_hash := com_commit_hash com,
            gs_receipt_counter := u64_saturating_add (gs_receipt_counter s) 1\<rparr>"
    by (rule round_receiptE)
  from local_node_started[OF node] have start: "node_ok node"
    "cc_max_faulty (cn_committee node) = recommended_max_faulty (length (committee_members s))"
    using started_ok started_committee by blast+
  from drive_round_quorum[OF start(1) drive] start have quorum:
    "cc_threshold (cn_committee node) = 2 * recommended_max_faulty (length (committee_members s)) + 1"
    "cc_threshold (cn_committee node) \<le> com_prevote_tally com"
    "cc_threshold (cn_committee node) \<le> com_precommit_tally com"
    by (auto simp: quorum_backed_def node_ok_def committee_ok_def)
  have own: "lg_consensus_agent_id k = from_verifying_key C (lib_verifying_key C (lg_signing_key k))"
    using ok k by (simp add: governor_ok_def local_verifying_key_def)
  have "governance_receipt_verify C r = Inr (local_verifying_key C k)"
    using governance_receipt_issue_verifies[OF laws] issue own
    by (simp add: issue_receipt_def local_verifying_key_def)
  with governance_receipt_issue_payload[OF issue[unfolded issue_receipt_def]] quorum s' k show ?thesis
    by (simp add: receipt_ok_def)
qed

lemma round_receipt_member:
  assumes ok: "governor_ok C (gs_local_governor s) (gs_peer_governors s)"
    and run: "run_governance_round C T s t proposal d now = Some (Inr r, s', t')"
  shows "gr_issued_by (rcpt_payload r) \<in> set (gr_committee_members (rcpt_payload r))"
proof -
  from run obtain k node com n' where k: "gs_local_governor s = Some k"
    and node: "local_node_of C s now node"
    and issue: "issue_receipt C k com (gs_previous_commit_hash s) (cn_committee node) d now = Inr r"
    by (rule round_receiptE)
  have "set (cc_members (cn_committee node)) = set (committee_members s)"
    using local_node_fields(3)[OF node k] committee_new_ok by (auto simp: governance_committee_def Let_def)
  moreover have "gr_committee_members (rcpt_payload r) = cc_members (cn_committee node)"
    "gr_issued_by (rcpt_payload r) = lg_consensus_agent_id k"
    using issue by (auto simp: issue_receipt_def governance_receipt_issue_def Let_def split: sum.splits)
  ultimately show ?thesis using committee_members_set[OF ok] k by simp
qed

section \<open>A governor alone\<close>

lemma solo_round:
  assumes laws: "crypto_laws C" and ok: "governor_ok C (gs_local_governor s) (gs_peer_governors s)"
    and solo: "gs_local_governor s = Some k" "gs_peer_governors s = {}"
    and payload: "float_free (prop_payload proposal)"
  shows "\<exists>r s' t'. run_governance_round C solo_governor_ops s t proposal d now = Some (Inr r, s', t') \<and>
           gr_proposal_id (rcpt_payload r) = prop_id proposal"
proof -
  have members: "committee_members s = [lg_consensus_agent_id k]"
    using solo by (simp add: committee_members_def)
  obtain committee where c: "governance_committee C s = Inr committee"
    using committee_new_exists[of "[lg_consensus_agent_id k]" 0 C]
    by (auto simp: governance_committee_def members recommended_max_faulty_def u64_max_def)
  then have "committee_contains committee (lg_consensus_agent_id k)"
    using committee_new_ok[of C "[lg_consensus_agent_id k]" _ committee]
    by (auto simp: governance_committee_def members Let_def committee_contains_def)
  then obtain node where node: "local_consensus_node k committee consensus_config_default
      (gs_previous_commit_hash s) now = Inr node"
    by (simp add: local_consensus_node_def node_new_def consensus_config_default_def)
  with c solo(1) have n: "local_node_of C s now node" unfolding local_node_of_def by blast
  from local_node_started[OF n] have start:
    "started C [lg_consensus_agent_id k] 0 (gs_previous_commit_hash s) node"
    by (simp add: members recommended_max_faulty_def)
  have own: "cn_local_agent_id node = from_verifying_key C (lib_verifying_key C (lg_signing_key k))"
    using local_node_fields(1)[OF n solo(1)] ok solo(1) by (simp add: governor_ok_def local_verifying_key_def)
  from solo_drive[OF laws started_solo(1-3)[OF start] local_node_fields(2)[OF n solo(1)] own payload, of t now]
  obtain com n' t' where drive: "drive_round C solo_governor_ops node t proposal now = Some (Inr com, n', t')"
    "com_proposal com = proposal" by (elim exE conjE) (rule that)
  obtain r where r: "issue_receipt C k com (gs_previous_commit_hash s) committee d now = Inr r"
    using governance_receipt_issue_total unfolding issue_receipt_def by blast
  from governance_receipt_issue_payload[OF r[unfolded issue_receipt_def]] drive(2)
  have "gr_proposal_id (rcpt_payload r) = prop_id proposal" by simp
  with solo(1) c node drive(1) r show ?thesis by (simp add: run_governance_round_def)
qed

lemma governance_payload_float_free: "float_free (governance_payload_json n action d entries h)"
proof -
  have role: "float_free (role_json r)" "float_free (health_json hl)" "float_free (severity_json sv)" for r hl sv
    by (cases r, simp_all) (cases hl, simp_all, cases sv, simp_all)
  have "float_free (health_entry_json e)" for e by (simp add: health_entry_json_def role)
  moreover have "float_free (response_action_json action)"
    by (cases action) (auto simp: response_action_json_def json_nat_def json_opt_def role split: option.splits)
  moreover have "float_free (decision_json d)" by (cases d) simp_all
  ultimately show ?thesis
    by (simp add: governance_payload_json_def json_nat_def list_all_iff)
qed

lemma solo_receipt:
  assumes laws: "crypto_laws C" and ok: "governor_ok C (gs_local_governor s) (gs_peer_governors s)"
    and solo: "gs_local_governor s = Some k" "gs_peer_governors s = {}"
  shows "\<exists>r s' t'. issue_governance_receipt C solo_governor_ops s t action d now = Some (Inr r, s', t') \<and>
           receipt_ok C s d now r \<and> gs_previous_commit_hash s' = gr_commit_hash (rcpt_payload r) \<and>
           gs_receipt_counter s' = u64_saturating_add (gs_receipt_counter s) 1 \<and> only_chain s s'"
proof -
  obtain bs where "canonical_bytes C (governance_payload_json (gs_receipt_counter s) action d
      (gs_unhealthy_agents s) (gs_previous_commit_hash s)) = Inr bs"
    using canonical_bytes_total[OF governance_payload_float_free] by blast
  then obtain proposal where p: "build_governance_proposal C (gs_receipt_counter s) action d
      (gs_unhealthy_agents s) (gs_previous_commit_hash s) = Inr proposal" "float_free (prop_payload proposal)"
    by (simp add: build_governance_proposal_def Let_def governance_payload_float_free)
  from solo_round[OF laws ok solo p(2)] obtain r s' t' where
    run: "run_governance_round C solo_governor_ops s t proposal d now = Some (Inr r, s', t')" by blast
  with p(1) round_receipt_ok[OF laws ok run] run_governance_round_state[OF run] show ?thesis
    by (simp add: issue_governance_receipt_def)
qed

section \<open>Peers without a network\<close>

lemma peers_refused:
  assumes ok: "governor_ok C (gs_local_governor s) (gs_peer_governors s)"
    and local: "gs_local_governor s = Some k" and peers: "gs_peer_governors s \<noteq> {}"
  shows "\<exists>e. run_governance_round C solo_governor_ops s t proposal d now = Some (Inl e, s, t)"
proof (cases "governance_committee C s")
  case (Inl e)
  with local show ?thesis by (simp add: run_governance_round_def)
next
  case (Inr committee)
  show ?thesis
  proof (cases "local_consensus_node k committee consensus_config_default (gs_previous_commit_hash s) now")
    case (Inl e)
    with local Inr show ?thesis by (simp add: run_governance_round_def)
  next
    case node: (Inr node)
    with Inr local have n: "local_node_of C s now node" unfolding local_node_of_def by blast
    have "committee_ok (cn_committee node)" "set (cc_members (cn_committee node)) = set (committee_members s)"
      using started_ok[OF local_node_started[OF n]] started_committee[OF local_node_started[OF n]]
      by (auto simp: node_ok_def)
    then have "length (cc_members (cn_committee node)) = card (set (committee_members s))"
      by (metis committee_ok_def distinct_card)
    moreover have "card (set (committee_members s)) = card (gs_peer_governors s) + 1"
      using committee_members_set[OF ok] local ok by (auto simp: governor_ok_def)
    moreover have "0 < card (gs_peer_governors s)" using ok peers by (simp add: governor_ok_def card_gt_0_iff)
    ultimately have "1 < length (cc_members (cn_committee node))" by simp
    with local Inr node show ?thesis
      by (simp add: run_governance_round_def drive_round_def solo_governor_ops_def solo_accept_committee_def)
  qed
qed

section \<open>Properties\<close>

lemma is_destructive_action_iff: "is_destructive_action action \<longleftrightarrow> destructive_action action"
  by (cases action) simp_all

lemma tom_destructive_action_kinds_eq: "tom_destructive_action_kinds = destructive_action_kinds"
  by (simp add: tom_destructive_action_kinds_def destructive_action_kinds_def)

lemma healthy_allow_round:
  assumes "\<not> is_partitioned p" "is_destructive_action action"
    and "can_act C p action now clock = Some (GAllow receipt lease, p')"
  obtains r proposal t' where "gs_local_governor (gp_state p) \<noteq> None"
    "gs_unhealthy_agents (gp_state p) = []" "receipt = Some r" "lease = None"
    "run_governance_round C (gp_transport p) (gp_state p) (gp_transport_state p) proposal Approve clock =
       Some (Inr r, gp_state p', t')"
proof -
  obtain r s' t' where *: "gs_local_governor (gp_state p) \<noteq> None"
    "gs_unhealthy_agents (gp_state p) = []" "receipt = Some r" "lease = None" "gp_state p' = s'"
    and issue: "issue_governance_receipt C (gp_transport p) (gp_state p) (gp_transport_state p) action
        Approve clock = Some (Inr r, s', t')"
    using assms by (auto simp: can_act_def can_act_at_def is_partitioned_def Let_def
        split: if_splits option.splits sum.splits prod.splits)
  then show thesis
    using that by (auto simp: issue_governance_receipt_def split: sum.splits)
qed

text \<open>
  C7. A destructive action is allowed only on evidence. The policy holds a governor key, and
  either the quorum is partitioned and an active contingency lease covers the action, with
  the policy unchanged; or no agent is unhealthy and the answer carries an approval signed by
  that key, chained to the previous commit and backed by two quorums of the committee of all
  admitted governors.
\<close>

theorem destructive_allow_on_evidence:
  assumes "crypto_laws C" and "state_ok C (gp_state p)" and "is_destructive_action action"
    and "can_act C p action now clock = Some (GAllow receipt lease, p')"
  shows "gs_local_governor (gp_state p) \<noteq> None \<and>
    (if is_partitioned p
     then p' = p \<and> (\<exists>l\<in>set (gs_active_contingency_leases (gp_state p)). lease = Some l \<and>
            receipt = Some (le_governance_receipt l) \<and> can_redeem l action now)
     else lease = None \<and> gs_unhealthy_agents (gp_state p) = [] \<and>
          (\<exists>r. receipt = Some r \<and> receipt_ok C (gp_state p) Approve clock r \<and>
             gs_previous_commit_hash (gp_state p') = gr_commit_hash (rcpt_payload r)))"
proof (cases "is_partitioned p")
  case True
  with assms(3,4) show ?thesis
    by (auto simp: can_act_def can_act_at_def is_partitioned_def preview_matching_contingency_lease_def
        Let_def find_Some_iff in_set_conv_nth split: if_splits option.splits)
next
  case False
  from False assms(3,4) obtain r proposal t' where key: "gs_local_governor (gp_state p) \<noteq> None"
    and healthy: "gs_unhealthy_agents (gp_state p) = []" and ans: "receipt = Some r" "lease = None"
    and run: "run_governance_round C (gp_transport p) (gp_state p) (gp_transport_state p) proposal
        Approve clock = Some (Inr r, gp_state p', t')"
    by (rule healthy_allow_round)
  from round_receipt_ok[OF assms(1) _ run] assms(2) key healthy ans False show ?thesis
    by (simp add: state_ok_def)
qed

text \<open>
  A policy that has admitted peers and still has the shipped transport fails closed:
  every destructive action outside a partition is vetoed without a receipt, and the policy
  does not change.
\<close>

theorem peers_without_network_veto:
  assumes "state_ok C (gp_state p)" and "gp_transport p = solo_governor_ops"
    and "gs_peer_governors (gp_state p) \<noteq> {}" and "\<not> is_partitioned p"
    and "is_destructive_action action"
  shows "\<exists>who reason. can_act C p action now clock = Some (GVeto who reason None, p)"
proof (cases "gs_local_governor (gp_state p)")
  case None
  with assms show ?thesis by (simp add: can_act_def can_act_at_def Let_def)
next
  case (Some k)
  have ok: "governor_ok C (gs_local_governor (gp_state p)) (gs_peer_governors (gp_state p))"
    using assms(1) by (simp add: state_ok_def)
  obtain e where "issue_governance_receipt C (gp_transport p) (gp_state p) (gp_transport_state p) action
      (if gs_unhealthy_agents (gp_state p) = [] then Approve else Veto) clock =
      Some (Inl e, gp_state p, gp_transport_state p)"
    using peers_refused[OF ok Some assms(3)] assms(2)
    by (fastforce simp: issue_governance_receipt_def split: sum.splits)
  with Some assms(4,5) show ?thesis
    by (simp add: can_act_def can_act_at_def is_partitioned_def Let_def)
qed

text \<open>
  A governor alone in its committee always gets an answer: outside a partition, a
  destructive action is approved when no agent is unhealthy and vetoed otherwise, in both
  cases with a receipt of the matching decision that verifies under the local key, extends
  the chain by one and is the next link of the policy.
\<close>

theorem lone_governor_decides:
  assumes "crypto_laws C" and "state_ok C (gp_state p)" and "gp_transport p = solo_governor_ops"
    and "gs_local_governor (gp_state p) \<noteq> None" and "gs_peer_governors (gp_state p) = {}"
    and "\<not> is_partitioned p" and "is_destructive_action action"
  shows "\<exists>r p' who. can_act C p action now clock =
      Some (if gs_unhealthy_agents (gp_state p) = [] then GAllow (Some r) None
            else GVeto who (unhealthy_reason (gs_unhealthy_agents (gp_state p))) (Some r), p') \<and>
    receipt_ok C (gp_state p) (if gs_unhealthy_agents (gp_state p) = [] then Approve else Veto) clock r \<and>
    gs_previous_commit_hash (gp_state p') = gr_commit_hash (rcpt_payload r) \<and>
    gs_receipt_counter (gp_state p') = u64_saturating_add (gs_receipt_counter (gp_state p)) 1"
proof -
  let ?s = "gp_state p" and ?d = "if gs_unhealthy_agents (gp_state p) = [] then Approve else Veto"
  obtain k where k: "gs_local_governor ?s = Some k" using assms(4) by blast
  have ok: "governor_ok C (gs_local_governor ?s) (gs_peer_governors ?s)"
    using assms(2) by (simp add: state_ok_def)
  from solo_receipt[OF assms(1) ok k assms(5)] obtain r s' t' where
    r: "issue_governance_receipt C solo_governor_ops ?s (gp_transport_state p) action ?d clock = Some (Inr r, s', t')"
      "receipt_ok C ?s ?d clock r" "gs_previous_commit_hash s' = gr_commit_hash (rcpt_payload r)"
      "gs_receipt_counter s' = u64_saturating_add (gs_receipt_counter ?s) 1" by blast
  with k assms(3,6,7) show ?thesis
    by (intro exI[of _ r] exI[of _ "p\<lparr>gp_state := s', gp_transport_state := t'\<rparr>"]
        exI[of _ "governing_or s' (gr_issued_by (rcpt_payload r))"])
       (auto simp: can_act_def can_act_at_def is_partitioned_def Let_def)
qed

text \<open>
  C25. One process, one key: once a governor key is installed, every later state of the process
  holds a key with the same public half, and an attempt to install another one is refused
  with both identities and changes nothing.
\<close>

theorem single_governor_key:
  assumes "policy_run C D p p'" and "gs_local_governor (gp_state p) = Some k"
  shows "\<exists>k'. gs_local_governor (gp_state p') = Some k' \<and>
    local_verifying_key C k' = local_verifying_key C k \<and>
    (\<forall>gid sk. lib_verifying_key C sk \<noteq> local_verifying_key C k \<longrightarrow>
       register_governor C p' gid sk =
         (Inl (SecondSigningKey (lg_consensus_agent_id k') (from_verifying_key C (lib_verifying_key C sk))), p'))"
proof -
  from gk.run_holds[OF assms(1)] assms(2) obtain k' where
    "gs_local_governor (gp_state p') = Some k'" "local_verifying_key C k' = local_verifying_key C k"
    by (auto simp: key_kept_def)
  then show ?thesis
    by (auto simp: register_governor_def Let_def local_governor_key_new_def local_verifying_key_def)
qed

section \<open>Concrete policies\<close>

definition lone_policy :: "solo_governor_transport governance_policy" where
  "lone_policy = snd (register_governor model_crypto (policy_new governance_policy_config_default)
     (AgentId_new ''tom'' ''1'') solo_key)"

lemma default_state_ok: "state_ok C governance_state_default"
  by (simp add: state_ok_def governance_state_default_def governor_ok_def)

lemma lone_policy_fields:
  "gs_local_governor (gp_state lone_policy) = Some (local_governor_key_new model_crypto solo_key)"
  "gs_peer_governors (gp_state lone_policy) = {}" "gs_unhealthy_agents (gp_state lone_policy) = []"
  "gs_partition_state (gp_state lone_policy) = PHealthy" "gp_transport lone_policy = solo_governor_ops"
  "gp_config lone_policy = governance_policy_config_default" "gp_persistence lone_policy = None"
  "gs_display_governors (gp_state lone_policy) = [AgentId_new ''tom'' ''1'' \<mapsto> solo_id]"
  "gs_active_contingency_leases (gp_state lone_policy) = []"
  by (simp_all add: lone_policy_def register_governor_def policy_new_def governance_state_default_def
      install_governor_def persist_locked_def local_governor_key_new_def solo_id_def)

lemma lone_policy_ok: "state_ok model_crypto (gp_state lone_policy)"
  using gok.register_governor_holds[of model_crypto "policy_new governance_policy_config_default"
      "AgentId_new ''tom'' ''1''" solo_key] default_state_ok
  by (simp add: lone_policy_def state_ok_kept_def policy_new_def)

lemma lone_policy_running: "\<not> is_partitioned lone_policy"
  by (simp add: is_partitioned_def lone_policy_fields)

theorem lone_governor_decides_witness:
  "\<exists>r p'. can_act model_crypto lone_policy (IsolateHost ''h1'') 5 6 = Some (GAllow (Some r) None, p') \<and>
     receipt_ok model_crypto (gp_state lone_policy) Approve 6 r"
  using lone_governor_decides[OF model_crypto_laws lone_policy_ok lone_policy_fields(5) _
      lone_policy_fields(2) lone_policy_running, of "IsolateHost ''h1''" 5 6]
  by (auto simp: lone_policy_fields)

lemma lone_policy_allows:
  "\<exists>r p'. can_act model_crypto lone_policy (IsolateHost ''h1'') 5 6 = Some (GAllow (Some r) None, p')"
proof -
  have ok: "governor_ok model_crypto (gs_local_governor (gp_state lone_policy)) (gs_peer_governors (gp_state lone_policy))"
    using lone_policy_ok by (simp add: state_ok_def)
  from solo_receipt[OF model_crypto_laws ok lone_policy_fields(1,2)] obtain r s' t' where
    "issue_governance_receipt model_crypto solo_governor_ops (gp_state lone_policy)
       (gp_transport_state lone_policy) (IsolateHost ''h1'') Approve 6 = Some (Inr r, s', t')" by blast
  then show ?thesis
    by (simp add: can_act_def can_act_at_def lone_policy_fields Let_def)
qed

theorem destructive_allow_on_evidence_witness:
  "\<exists>r p'. can_act model_crypto lone_policy (IsolateHost ''h1'') 5 6 = Some (GAllow (Some r) None, p') \<and>
     receipt_ok model_crypto (gp_state lone_policy) Approve 6 r"
proof -
  obtain r p' where act: "can_act model_crypto lone_policy (IsolateHost ''h1'') 5 6 = Some (GAllow (Some r) None, p')"
    using lone_policy_allows by blast
  have "is_destructive_action (IsolateHost ''h1'')" by simp
  from destructive_allow_on_evidence[OF model_crypto_laws lone_policy_ok this act] act lone_policy_running
  show ?thesis by auto
qed

definition peer_key :: bytes where
  "peer_key = replicate 32 (CHR 0x08)"

definition peered_policy :: "solo_governor_transport governance_policy" where
  "peered_policy = register_peer_governor model_crypto lone_policy (lib_verifying_key model_crypto peer_key)"

lemma hex_encode_inj: "hex_encode a = hex_encode b \<Longrightarrow> a = b"
  by (drule arg_cong[where f = hex_decode]) (simp add: hex_decode_encode)

lemma verifying_key_replicate: "lib_verifying_key model_crypto (replicate 32 c) = replicate 32 c"
  by (simp add: model_crypto_def pad_def)

lemma from_verifying_key_model_inj:
  "from_verifying_key model_crypto a = from_verifying_key model_crypto b \<Longrightarrow> a = b"
  by (simp add: from_verifying_key_def from_public_key_hex_def model_crypto_def hex_encode_inj)

lemma peer_key_other:
  "lib_verifying_key model_crypto peer_key \<noteq> lib_verifying_key model_crypto solo_key"
  "from_verifying_key model_crypto (lib_verifying_key model_crypto peer_key) \<noteq> solo_id"
proof -
  show other: "lib_verifying_key model_crypto peer_key \<noteq> lib_verifying_key model_crypto solo_key"
    unfolding peer_key_def solo_key_def verifying_key_replicate replicate_eq_replicate by simp
  then show "from_verifying_key model_crypto (lib_verifying_key model_crypto peer_key) \<noteq> solo_id"
    unfolding solo_id_def using from_verifying_key_model_inj by blast
qed

theorem peers_without_network_veto_witness:
  "\<exists>who reason. gs_local_governor (gp_state peered_policy) \<noteq> None \<and>
     can_act model_crypto peered_policy (IsolateHost ''h1'') 5 6 = Some (GVeto who reason None, peered_policy)"
proof -
  have fields: "gp_state peered_policy = (gp_state lone_policy)
      \<lparr>gs_peer_governors := {from_verifying_key model_crypto (lib_verifying_key model_crypto peer_key)}\<rparr>"
    "gp_transport peered_policy = solo_governor_ops"
    using peer_key_other(2)
    by (auto simp: peered_policy_def register_peer_governor_def lone_policy_fields Let_def
        local_governor_key_new_def solo_id_def)
  have ok: "state_ok model_crypto (gp_state peered_policy)"
    using gok.register_peer_governor_holds[of model_crypto lone_policy] lone_policy_ok
    by (simp add: peered_policy_def state_ok_kept_def)
  have "gs_peer_governors (gp_state peered_policy) \<noteq> {}" "\<not> is_partitioned peered_policy"
    "is_destructive_action (IsolateHost ''h1'')"
    by (simp_all add: fields is_partitioned_def lone_policy_fields)
  from peers_without_network_veto[OF ok fields(2) this] show ?thesis
    by (simp add: fields lone_policy_fields)
qed

theorem single_governor_key_witness:
  "\<exists>who. policy_run model_crypto (\<lambda>_. Inl []) lone_policy peered_policy \<and>
     register_governor model_crypto peered_policy (AgentId ''x'') peer_key =
       (Inl (SecondSigningKey who
          (from_verifying_key model_crypto (lib_verifying_key model_crypto peer_key))), peered_policy)"
proof -
  have run: "policy_run model_crypto (\<lambda>_. Inl []) lone_policy peered_policy"
    unfolding peered_policy_def by (intro r_into_rtranclp policy_step.step_peer)
  from single_governor_key[OF run lone_policy_fields(1)] run peer_key_other(1) show ?thesis
    by (auto simp: local_governor_key_new_def local_verifying_key_def)
qed

end
