(* ===== verification/Governance_Partition.thy ===== *)
theory Governance_Partition
  imports Governance_Rounds
begin

text \<open>
  The partition path: leases staged while the swarm is healthy, spent while it is
  partitioned, and the activity reconciled when the quorum returns; restarts from the state
  file. The properties say when a request is authorised, how many targets one lease can
  authorise, that no activity is lost, and what a restart keeps and loses.
\<close>

section \<open>Redemption\<close>

text \<open>What a successful redemption leaves behind.\<close>

definition spend :: "contingency_lease \<Rightarrow> response_action \<Rightarrow> contingency_lease" where
  "spend lease action =
     (if action_scope_key action \<in> set (le_redeemed_scopes lease) then lease
      else lease\<lparr>le_redeemed_scopes := le_redeemed_scopes lease @ [action_scope_key action]\<rparr>)"

lemma spend_fields [simp]:
  "le_lease_id (spend lease action) = le_lease_id lease"
  "le_blast_radius_cap (spend lease action) = le_blast_radius_cap lease"
  "le_action_kind (spend lease action) = le_action_kind lease"
  "le_scope (spend lease action) = le_scope lease"
  "le_expires_at_ms (spend lease action) = le_expires_at_ms lease"
  "set (le_redeemed_scopes (spend lease action)) =
     insert (action_scope_key action) (set (le_redeemed_scopes lease))"
  by (auto simp: spend_def)

text \<open>The preview and the redemption agree.\<close>

lemma redeem_iff:
  "redeem lease action now = (Inr u, lease') \<longleftrightarrow> can_redeem lease action now \<and> lease' = spend lease action"
  by (auto simp: redeem_def can_redeem_def lease_redeem_def lease_can_redeem_def terms_def spend_def Let_def
      split: if_splits)

lemma redeem_refused: "redeem lease action now = (Inl e, lease') \<Longrightarrow> \<not> can_redeem lease action now"
  using redeem_iff[of lease action now "()" "spend lease action"] by auto

definition lease_called :: "string \<Rightarrow> governance_state \<Rightarrow> contingency_lease option" where
  "lease_called lid s = find (\<lambda>candidate. le_lease_id candidate = lid) (gs_active_contingency_leases s)"

text \<open>The request shows the active lease of its identifier, and that lease covers the action.\<close>

definition presents ::
  "crypto_lib \<Rightarrow> (json \<Rightarrow> string + contingency_lease) \<Rightarrow> governance_state \<Rightarrow> action_request \<Rightarrow> i64 \<Rightarrow>
   contingency_lease \<Rightarrow> bool" where
  "presents C D s request now lease \<longleftrightarrow>
     (\<exists>v. json_get (ar_evidence request) ''contingency_lease'' = Some v \<and> D v = Inr lease) \<and>
     lease_verify C lease = Inr () \<and> lease_called (le_lease_id lease) s = Some lease \<and>
     can_redeem lease (ar_action request) now"

lemma presents_unique: "presents C D s request now a \<Longrightarrow> presents C D s request now b \<Longrightarrow> a = b"
  by (auto simp: presents_def)

lemma authorize_idle:
  "\<not> (is_destructive_action (ar_action request) \<and> gs_partition_state (gp_state p) = PPartitioned) \<Longrightarrow>
   authorize_partition_request C D p request now = (Inr None, p)"
  by (auto simp: authorize_partition_request_def Let_def)

text \<open>The outcome of a request in a partition: one of two shapes.\<close>

lemma authorize_cases:
  assumes "is_destructive_action (ar_action request)" "gs_partition_state (gp_state p) = PPartitioned"
  obtains (granted) lease i where "presents C D (gp_state p) request now lease"
      "position (\<lambda>candidate. le_lease_id candidate = le_lease_id lease)
         (gs_active_contingency_leases (gp_state p)) = Some i"
      "authorize_partition_request C D p request now =
         (Inr (Some (spend lease (ar_action request))),
          persist_locked (p\<lparr>gp_state := record_partition_activity
            ((gp_state p)\<lparr>gs_active_contingency_leases :=
               (gs_active_contingency_leases (gp_state p))[i := spend lease (ar_action request)]\<rparr>)
            request True ''authorized by contingency lease'' (Some (le_lease_id lease)) now\<rparr>))"
  | (refused) reason lid where "\<nexists>lease. presents C D (gp_state p) request now lease"
      "authorize_partition_request C D p request now = refuse_partition_request p request reason lid now"
proof -
  let ?s = "gp_state p"
  show thesis
  proof (cases "\<exists>lease. presents C D ?s request now lease")
    case True
    then obtain lease v where l: "presents C D ?s request now lease"
      "json_get (ar_evidence request) ''contingency_lease'' = Some v" "D v = Inr lease"
      unfolding presents_def by blast
    then have v: "lease_verify C lease = Inr ()" "lease_called (le_lease_id lease) ?s = Some lease"
      "can_redeem lease (ar_action request) now" by (auto simp: presents_def)
    then obtain i where i: "position (\<lambda>candidate. le_lease_id candidate = le_lease_id lease)
        (gs_active_contingency_leases ?s) = Some i"
      using position_None[of _ "gs_active_contingency_leases ?s"] by (fastforce simp: lease_called_def)
    have at: "gs_active_contingency_leases ?s ! i = lease"
      using position_find[OF i] v(2) by (simp add: lease_called_def)
    have "redeem lease (ar_action request) now = (Inr (), spend lease (ar_action request))"
      using v(3) by (simp add: redeem_iff)
    with granted[OF l(1) i] assms l v(1) i at show thesis
      by (simp add: authorize_partition_request_def Let_def)
  next
    case False
    have "\<exists>reason lid. authorize_partition_request C D p request now =
        refuse_partition_request p request reason lid now"
      using assms False
      by (auto simp: authorize_partition_request_def presents_def lease_called_def Let_def redeem_iff
          dest!: position_find split: option.splits sum.splits prod.splits)
    with refused[OF False] show thesis by blast
  qed
qed

text \<open>
  A destructive request is authorised in a partition exactly when its evidence decodes to
  a lease that verifies (its terms are valid and its receipt is a signed approval of exactly
  those terms), equals the active lease of that identifier, covers the action, is unexpired
  and has budget left for the action's scope; the answer is that lease with the scope spent.
\<close>

theorem partition_authorization_iff:
  "fst (authorize_partition_request C D p request now) = Inr (Some granted) \<longleftrightarrow>
     is_destructive_action (ar_action request) \<and> is_partitioned p \<and>
     (\<exists>lease. presents C D (gp_state p) request now lease \<and> granted = spend lease (ar_action request))"
proof (cases "is_destructive_action (ar_action request) \<and> gs_partition_state (gp_state p) = PPartitioned")
  case True
  then have "is_destructive_action (ar_action request)" "gs_partition_state (gp_state p) = PPartitioned"
    by auto
  then show ?thesis
  proof (cases rule: authorize_cases[where C = C and D = D and now = now])
    case (granted lease i)
    have "(\<exists>l. presents C D (gp_state p) request now l \<and> g = spend l (ar_action request)) \<longleftrightarrow>
        g = spend lease (ar_action request)" for g
      using presents_unique[OF granted(1)] granted(1) by blast
    with True granted(3) show ?thesis by (auto simp: is_partitioned_def)
  next
    case (refused reason lid)
    then show ?thesis by (auto simp: refuse_partition_request_def)
  qed
next
  case False
  from authorize_idle[OF this, of C D now] False show ?thesis by (auto simp: is_partitioned_def)
qed

text \<open>
  Every destructive request made in a partition leaves exactly one record, marked
  authorised exactly when it was; a refused request spends nothing, and outside a partition,
  or for a harmless action, nothing changes at all.
\<close>

theorem partition_requests_recorded:
  "case authorize_partition_request C D p request now of (answer, p') \<Rightarrow>
     if is_destructive_action (ar_action request) \<and> is_partitioned p
     then (\<exists>r. gs_partition_activity (gp_state p') = gs_partition_activity (gp_state p) @ [r] \<and>
             pa_recorded_at_ms r = now \<and> pa_action_kind r = kind (ar_action request) \<and>
             pa_scope r = scope_for_response_action (ar_action request) \<and>
             pa_authorized r = (\<exists>lease. answer = Inr (Some lease)) \<and>
             (pa_authorized r \<or> answer = Inl (pa_reason r) \<and>
                gs_active_contingency_leases (gp_state p') = gs_active_contingency_leases (gp_state p)))
     else answer = Inr None \<and> p' = p"
proof (cases "is_destructive_action (ar_action request) \<and> gs_partition_state (gp_state p) = PPartitioned")
  case True
  then have "is_destructive_action (ar_action request)" "gs_partition_state (gp_state p) = PPartitioned"
    by auto
  then show ?thesis using True
    by (cases rule: authorize_cases[where C = C and D = D and now = now])
       (auto simp: is_partitioned_def refuse_partition_request_def record_partition_activity_def)
next
  case False
  from authorize_idle[OF this, of C D now] False show ?thesis by (auto simp: is_partitioned_def)
qed

section \<open>The blast radius\<close>

text \<open>A sequence of requests, with the grants it obtained.\<close>

fun authorize_all ::
  "crypto_lib \<Rightarrow> (json \<Rightarrow> string + contingency_lease) \<Rightarrow> 't governance_policy \<Rightarrow>
   (action_request \<times> i64) list \<Rightarrow> (action_request \<times> contingency_lease) list \<times> 't governance_policy" where
  "authorize_all C D p [] = ([], p)"
| "authorize_all C D p ((request, now) # requests) =
     (let (answer, p') = authorize_partition_request C D p request now;
          (grants, p'') = authorize_all C D p' requests
      in (case answer of Inr (Some lease) \<Rightarrow> (request, lease) # grants | _ \<Rightarrow> grants, p''))"

lemma find_update_other:
  assumes "position Q xs = Some i" "\<And>x. Q x \<Longrightarrow> \<not> P x" "\<not> P y"
  shows "find P (xs[i := y]) = find P xs"
  using assms by (induction xs arbitrary: i) (auto split: if_splits nat.splits)

lemma find_update_same:
  assumes "position P xs = Some i" "P y"
  shows "find P (xs[i := y]) = Some y"
  using assms by (induction xs arbitrary: i) (auto split: if_splits nat.splits)

lemma authorize_lease_called:
  assumes called: "lease_called lid (gp_state p) = Some lease"
    and auth: "authorize_partition_request C D p request now = (answer, p')"
  shows "\<exists>lease'. lease_called lid (gp_state p') = Some lease' \<and>
     le_blast_radius_cap lease' = le_blast_radius_cap lease \<and>
     set (le_redeemed_scopes lease) \<subseteq> set (le_redeemed_scopes lease') \<and>
     (\<forall>g. answer = Inr (Some g) \<and> le_lease_id g = lid \<longrightarrow>
        action_scope_key (ar_action request) \<in> set (le_redeemed_scopes lease'))"
proof (cases "is_destructive_action (ar_action request) \<and> gs_partition_state (gp_state p) = PPartitioned")
  case True
  then have "is_destructive_action (ar_action request)" "gs_partition_state (gp_state p) = PPartitioned"
    by auto
  then show ?thesis
  proof (cases rule: authorize_cases[where C = C and D = D and now = now])
    case (granted l i)
    note gr = granted
    show ?thesis
    proof (cases "le_lease_id l = lid")
      case True
      have "lease = l" using gr(1) called True by (auto simp: presents_def)
      moreover have "lease_called lid (gp_state p') = Some (spend l (ar_action request))"
        using gr(2,3) auth True
        by (auto simp: lease_called_def record_partition_activity_def intro: find_update_same)
      ultimately show ?thesis by auto
    next
      case False
      then have "lease_called lid (gp_state p') = Some lease"
        using gr(2,3) auth called find_update_other[OF gr(2), of "\<lambda>c. le_lease_id c = lid"]
        by (auto simp: lease_called_def record_partition_activity_def)
      with gr(3) auth False show ?thesis by auto
    qed
  next
    case (refused reason l)
    then show ?thesis
      using called auth by (auto simp: refuse_partition_request_def record_partition_activity_def lease_called_def)
  qed
next
  case False
  then have "answer = Inr None \<and> p' = p"
    using auth authorize_idle[OF False, of C D now] by simp
  with called show ?thesis by auto
qed

lemma authorize_all_lease:
  assumes "lease_called lid (gp_state p) = Some lease" "authorize_all C D p requests = (grants, p')"
  shows "\<exists>lease'. lease_called lid (gp_state p') = Some lease' \<and>
     le_blast_radius_cap lease' = le_blast_radius_cap lease \<and>
     set (le_redeemed_scopes lease) \<subseteq> set (le_redeemed_scopes lease') \<and>
     (\<forall>(request, g)\<in>set grants. le_lease_id g = lid \<longrightarrow>
        action_scope_key (ar_action request) \<in> set (le_redeemed_scopes lease'))"
  using assms
proof (induction requests arbitrary: p lease grants)
  case Nil
  then show ?case by auto
next
  case (Cons r requests)
  obtain request now where r: "r = (request, now)" by fastforce
  obtain answer p1 where auth: "authorize_partition_request C D p request now = (answer, p1)" by fastforce
  obtain grants1 where rest: "authorize_all C D p1 requests = (grants1, p')"
    using Cons.prems(2) r auth by (auto simp: Let_def split: prod.splits)
  from authorize_lease_called[OF Cons.prems(1) auth] obtain lease1 where
    one: "lease_called lid (gp_state p1) = Some lease1" "le_blast_radius_cap lease1 = le_blast_radius_cap lease"
      "set (le_redeemed_scopes lease) \<subseteq> set (le_redeemed_scopes lease1)"
      "\<forall>g. answer = Inr (Some g) \<and> le_lease_id g = lid \<longrightarrow>
        action_scope_key (ar_action request) \<in> set (le_redeemed_scopes lease1)" by blast
  from Cons.IH[OF one(1) rest] obtain lease' where
    all: "lease_called lid (gp_state p') = Some lease'" "le_blast_radius_cap lease' = le_blast_radius_cap lease1"
      "set (le_redeemed_scopes lease1) \<subseteq> set (le_redeemed_scopes lease')"
      "\<forall>(request, g)\<in>set grants1. le_lease_id g = lid \<longrightarrow>
        action_scope_key (ar_action request) \<in> set (le_redeemed_scopes lease')" by blast
  have grants: "grants = (case answer of Inr (Some g) \<Rightarrow> (request, g) # grants1 | _ \<Rightarrow> grants1)"
    using Cons.prems(2) r auth rest by (simp add: Let_def)
  have "\<forall>(request, g)\<in>set grants. le_lease_id g = lid \<longrightarrow>
      action_scope_key (ar_action request) \<in> set (le_redeemed_scopes lease')"
    using one(4) all(3,4) unfolding grants by (fastforce split: sum.splits option.splits)
  with one all show ?case by (intro exI[of _ lease']) auto
qed

text \<open>
  C10. A contingency lease never authorises more targets than its blast radius: whatever
  requests arrive in whatever order, the distinct scopes granted under one lease identifier
  number at most the cap of the lease that carries it.
\<close>

theorem blast_radius_respected:
  assumes "state_ok C (gp_state p)" and "lease_called lid (gp_state p) = Some lease"
    and "authorize_all C D p requests = (grants, p')"
  shows "card {action_scope_key (ar_action request) | request g. (request, g) \<in> set grants \<and> le_lease_id g = lid}
    \<le> le_blast_radius_cap lease"
proof -
  from authorize_all_lease[OF assms(2,3)] obtain lease' where
    l: "lease_called lid (gp_state p') = Some lease'" "le_blast_radius_cap lease' = le_blast_radius_cap lease"
      "\<forall>(request, g)\<in>set grants. le_lease_id g = lid \<longrightarrow>
        action_scope_key (ar_action request) \<in> set (le_redeemed_scopes lease')" by blast
  have "state_ok C (gp_state p')"
    using assms(1,3)
  proof (induction requests arbitrary: p grants)
    case (Cons r requests)
    obtain request now where r: "r = (request, now)" by fastforce
    with Cons.prems gok.authorize_holds[of C p D request now] Cons.IH show ?case
      by (auto simp: Let_def state_ok_kept_def split: prod.splits)
  qed simp
  with l(1) have "lease_ok lease'"
    by (auto simp: state_ok_def list_all_iff lease_called_def find_Some_iff)
  then have "card (set (le_redeemed_scopes lease')) \<le> le_blast_radius_cap lease"
    using l(2) by (simp add: lease_ok_def distinct_card)
  moreover have "{action_scope_key (ar_action request) | request g. (request, g) \<in> set grants \<and> le_lease_id g = lid}
      \<subseteq> set (le_redeemed_scopes lease')" using l(3) by blast
  ultimately show ?thesis by (meson List.finite_set card_mono le_trans)
qed

section \<open>Healing\<close>

text \<open>The fields a health report settles.\<close>

lemma ensure_only:
  "ensure_contingency_leases C T config kinds s t now = Some (s', t') \<Longrightarrow>
   gs_partition_state s' = gs_partition_state s \<and> gs_partition_activity s' = gs_partition_activity s \<and>
   gs_reconciliation_reports s' = gs_reconciliation_reports s \<and> gs_pending_events s' = gs_pending_events s \<and>
   gs_local_governor s' = gs_local_governor s"
proof (induction kinds arbitrary: s t)
  case (Cons k kinds)
  have one: "gs_partition_state s1 = gs_partition_state s \<and> gs_partition_activity s1 = gs_partition_activity s \<and>
      gs_reconciliation_reports s1 = gs_reconciliation_reports s \<and> gs_pending_events s1 = gs_pending_events s \<and>
      gs_local_governor s1 = gs_local_governor s" if "only_chain s s1" for s1
    using arg_cong[OF that[unfolded only_chain_def], of gs_partition_state]
      arg_cong[OF that[unfolded only_chain_def], of gs_partition_activity]
      arg_cong[OF that[unfolded only_chain_def], of gs_reconciliation_reports]
      arg_cong[OF that[unfolded only_chain_def], of gs_pending_events]
      arg_cong[OF that[unfolded only_chain_def], of gs_local_governor] by simp
  show ?case
    using Cons.prems
    by (auto split: if_splits option.splits prod.splits dest!: Cons.IH issue_contingency_lease_state one)
qed simp

definition reconciled_as :: "governance_state \<Rightarrow> partition_reconciliation_report \<Rightarrow> bool" where
  "reconciled_as s report \<longleftrightarrow>
     rr_authorized_actions report = filter pa_authorized (gs_partition_activity s) \<and>
     rr_unauthorized_actions report = filter (\<lambda>r. \<not> pa_authorized r) (gs_partition_activity s)"

lemma enter_fields:
  "gs_partition_state (enter_partition_state s st h g q now) = st"
  "gs_partition_activity (enter_partition_state s st h g q now) = gs_partition_activity s"
  "gs_reconciliation_reports (enter_partition_state s st h g q now) = gs_reconciliation_reports s"
  "set (gs_pending_events s) \<subseteq> set (gs_pending_events (enter_partition_state s st h g q now))"
  by (auto simp: enter_partition_state_def Let_def split: option.splits)

lemma reconcile_fields:
  assumes "reconcile_partition_activity s now = (report, s')"
  shows "gs_partition_activity s' = []" "gs_reconciliation_reports s' \<noteq> []"
    "last (gs_reconciliation_reports s') = report" "reconciled_as s report"
    "gs_governing_agent_id s' = gs_governing_agent_id s"
  using assms
  by (auto simp: reconcile_partition_activity_def reconciled_as_def MAX_RECONCILIATION_REPORTS_def
      last_drop Let_def split: if_splits)

lemma settle_partitioned:
  assumes "gs_partition_state s = PPartitioned" "gs_governing_agent_id s = Some gid"
    "settle_partition s base now = (st, s')"
  shows "st = base \<and> base \<notin> {PHealthy, PDegraded} \<and> s' = s
    \<or> st = PHealing \<and> gs_partition_activity s' = [] \<and> gs_reconciliation_reports s' \<noteq> [] \<and>
      reconciled_as s (last (gs_reconciliation_reports s')) \<and>
      PartitionReconciliation now gid (last (gs_reconciliation_reports s')) \<in> set (gs_pending_events s')"
proof -
  obtain report r where r: "reconcile_partition_activity s now = (report, r)" by fastforce
  with reconcile_fields[OF r] assms show ?thesis
    by (auto simp: settle_partition_def split: if_splits)
qed

lemma health_transition_partitioned:
  assumes part: "gs_partition_state s = PPartitioned"
    and s': "s' = health_transition s gid entries now"
  shows "gs_partition_state s' = PPartitioned \<and> gs_partition_activity s' = gs_partition_activity s
    \<or> gs_partition_state s' = PHealing \<and> gs_partition_activity s' = [] \<and>
      gs_reconciliation_reports s' \<noteq> [] \<and> reconciled_as s (last (gs_reconciliation_reports s')) \<and>
      PartitionReconciliation now gid (last (gs_reconciliation_reports s')) \<in> set (gs_pending_events s')"
proof -
  let ?s = "reported s gid entries"
  obtain st s2 where st: "settle_partition ?s (base_of ?s) now = (st, s2)" by fastforce
  have base: "base_of ?s \<in> {PPartitioned, PHealthy, PDegraded}"
    by (simp add: base_of_def base_partition_state_def)
  have fields: "gs_partition_state ?s = PPartitioned" "gs_governing_agent_id ?s = Some gid"
    "gs_partition_activity ?s = gs_partition_activity s" using part by (simp_all add: reported_def)
  have fin: "gs_partition_state s' = st" "gs_partition_activity s' = gs_partition_activity s2"
    "gs_reconciliation_reports s' = gs_reconciliation_reports s2"
    "set (gs_pending_events s2) \<subseteq> set (gs_pending_events s')"
    unfolding s' health_transition_settle[OF st]
    by (simp_all add: prune_expired_contingency_leases_def enter_fields)
  from settle_partitioned[OF fields(1,2) st] show ?thesis
  proof (elim disjE)
    assume "st = base_of ?s \<and> base_of ?s \<notin> {PHealthy, PDegraded} \<and> s2 = ?s"
    with base fin(1,2) fields(3) show ?thesis by simp
  next
    assume healed: "st = PHealing \<and> gs_partition_activity s2 = [] \<and> gs_reconciliation_reports s2 \<noteq> [] \<and>
      reconciled_as ?s (last (gs_reconciliation_reports s2)) \<and>
      PartitionReconciliation now gid (last (gs_reconciliation_reports s2)) \<in> set (gs_pending_events s2)"
    then have "PartitionReconciliation now gid (last (gs_reconciliation_reports s2)) \<in> set (gs_pending_events s')"
      using fin(4) by blast
    with healed fin(1-3) fields(3) show ?thesis by (simp add: reconciled_as_def)
  qed
qed

text \<open>Every operation but a health report keeps the partition state and extends the activity.\<close>

definition activity_kept :: "governance_state \<Rightarrow> governance_state \<Rightarrow> bool" where
  "activity_kept s s' \<longleftrightarrow>
     gs_partition_state s' = gs_partition_state s \<and>
     (\<exists>more. gs_partition_activity s' = gs_partition_activity s @ more)"

lemma only_chain_activity: "only_chain s s' \<Longrightarrow> activity_kept s s'"
  unfolding only_chain_def activity_kept_def
  by (metis (no_types, lifting) append_Nil2 governance_state.select_convs(8,14)
      governance_state.surjective governance_state.update_convs(6,7))

text \<open>
  C23. The audit trail of a partition is never lost, and a partition never ends silently: from
  a partitioned policy every operation either keeps it partitioned and only appends to the
  recorded activity, or it is a health report after which the policy is healing, the activity
  is empty and the newest reconciliation report, which is also queued as an event, holds
  exactly the recorded activity split into authorised and unauthorised actions.
\<close>

theorem partition_ends_with_reconciliation:
  assumes "policy_step C D p p'" and "is_partitioned p"
  shows "activity_kept (gp_state p) (gp_state p') \<or>
    gs_partition_state (gp_state p') = PHealing \<and> gs_partition_activity (gp_state p') = [] \<and>
    gs_reconciliation_reports (gp_state p') \<noteq> [] \<and>
    reconciled_as (gp_state p) (last (gs_reconciliation_reports (gp_state p'))) \<and>
    (\<exists>now gid. PartitionReconciliation now gid (last (gs_reconciliation_reports (gp_state p')))
       \<in> set (gs_pending_events (gp_state p')))"
  using assms
proof (induction rule: policy_step.induct)
  case (step_observe p gid entries now p')
  let ?s = "health_transition (gp_state p) gid entries now"
  have "gs_partition_state (gp_state p') = gs_partition_state ?s \<and>
      gs_partition_activity (gp_state p') = gs_partition_activity ?s \<and>
      gs_reconciliation_reports (gp_state p') = gs_reconciliation_reports ?s \<and>
      gs_pending_events (gp_state p') = gs_pending_events ?s"
    using step_observe(1)
    by (auto simp: observe_health_def Let_def dest!: ensure_only split: if_splits option.splits)
  then show ?case
    using health_transition_partitioned[of "gp_state p" ?s gid entries now] step_observe(2)
    by (auto simp: is_partitioned_def activity_kept_def)
next
  case (step_act p action now clock d p')
  then have "gp_state p' = gp_state p \<or> only_chain (gp_state p) (gp_state p')"
    by (auto simp: can_act_def can_act_at_def Let_def dest!: issue_governance_receipt_state
        split: if_splits option.splits sum.splits prod.splits)
  then show ?case using only_chain_activity only_chain_refl by metis
next
  case (step_attest p subject now r p')
  then have "gp_state p' = gp_state p \<or> only_chain (gp_state p) (gp_state p')"
    by (auto simp: attest_release_def Let_def dest!: run_governance_round_state
        split: if_splits option.splits sum.splits prod.splits)
  then show ?case using only_chain_activity only_chain_refl by metis
qed (auto simp: activity_kept_def register_governor_def register_peer_governor_def install_governor_def
    authorize_partition_request_def refuse_partition_request_def note_partition_veto_def
    drain_runtime_events_def record_partition_activity_def Let_def
    split: option.splits sum.splits prod.splits)

end
