(* ===== verification/Governance_Staging.thy ===== *)
theory Governance_Staging
  imports Governance_Partition
begin

text \<open>
  The whole contingency path: a healthy report stages a verified lease for every destructive
  kind, the leases survive until they expire, and when the quorum is lost each destructive
  action finds one. The second half is about the state file: what a restart keeps, and the
  link of the receipt chain it forgets.
\<close>

section \<open>Staging\<close>


lemma lease_payload_float_free:
  "float_free (lease_payload_json lid k sc cap ttl issued expires)"
  "float_free (lease_id_json k sc issued expires cap)"
  by (auto simp: lease_payload_json_def lease_id_json_def json_opt_def json_nat_def json_int_def
      split: option.splits)

definition lone_governor :: "crypto_lib \<Rightarrow> governance_state \<Rightarrow> bool" where
  "lone_governor C s \<longleftrightarrow>
     governor_ok C (gs_local_governor s) (gs_peer_governors s) \<and>
     gs_local_governor s \<noteq> None \<and> gs_peer_governors s = {}"

lemma saturating_expiry:
  "0 < ttl \<Longrightarrow> i64_min \<le> now \<Longrightarrow> now < i64_max \<Longrightarrow> now < i64_saturating_add now ttl"
  by (auto simp: machine_int_defs)

lemma issue_lease_solo:
  assumes laws: "crypto_laws C" and lone: "lone_governor C s"
    and terms: "0 < cap" "0 < ttl" "i64_min \<le> now" "now < i64_max"
  shows "\<exists>lease s' t'. issue_contingency_lease C solo_governor_ops s t k None cap ttl now = Some (Some lease, s', t') \<and>
     lease_staged now k lease \<and> lease_verify C lease = Inr () \<and> only_chain s s' \<and>
     le_expires_at_ms lease = i64_saturating_add now ttl"
proof -
  let ?expires = "i64_saturating_add now ttl"
  from lone obtain key where key: "gs_local_governor s = Some key" "gs_peer_governors s = {}"
    and ok: "governor_ok C (gs_local_governor s) (gs_peer_governors s)" by (auto simp: lone_governor_def)
  obtain ib where ib: "canonical_json_bytes C (lease_id_json k None now ?expires cap) = Inr ib"
    using canonicalize_total[OF lease_payload_float_free(2)] unfolding canonical_json_bytes_def by blast
  let ?lid = "sha256_hex C ib"
  obtain pb where pb: "canonical_bytes C (lease_payload_json ?lid k None cap ttl now ?expires) = Inr pb"
    using canonical_bytes_total[OF lease_payload_float_free(1)] by blast
  define proposal where "proposal = \<lparr>prop_id = sha256_hex C pb,
    prop_payload = lease_payload_json ?lid k None cap ttl now ?expires\<rparr>"
  have build: "build_contingency_lease_proposal C ?lid k None cap ttl now ?expires = Inr proposal"
    using pb by (simp add: build_contingency_lease_proposal_def Let_def proposal_def)
  have "float_free (prop_payload proposal)" by (simp add: proposal_def lease_payload_float_free)
  from solo_round[OF laws ok key this, of t Approve now] obtain r s' t' where
    run: "run_governance_round C solo_governor_ops s t proposal Approve now = Some (Inr r, s', t')"
    and pid: "gr_proposal_id (rcpt_payload r) = prop_id proposal" by blast
  from round_receipt_ok[OF laws ok run] obtain vk where
    r: "governance_receipt_verify C r = Inr vk" "gr_decision (rcpt_payload r) = Approve"
    by (auto simp: receipt_ok_def)
  have later: "now < ?expires" using terms by (intro saturating_expiry)
  define lease where "lease = \<lparr>le_schema_version = CONTINGENCY_LEASE_SCHEMA_VERSION,
    le_lease_id = ?lid, le_action_kind = k, le_scope = None, le_blast_radius_cap = cap,
    le_max_duration_ms = ttl, le_issued_at_ms = now, le_expires_at_ms = ?expires,
    le_redeemed_scopes = [], le_governance_receipt = r\<rparr>"
  have "issue_contingency_lease C solo_governor_ops s t k None cap ttl now = Some (Some lease, s', t')"
    using key(1) terms ib build run by (simp add: issue_contingency_lease_def Let_def lease_def)
  moreover have "lease_verify C lease = Inr ()"
    using terms later build r pid
    by (simp add: lease_verify_def validate_lease_terms_def lease_def Let_def)
  moreover have "lease_staged now k lease" using terms later by (simp add: lease_staged_def lease_def)
  ultimately show ?thesis using run_governance_round_state[OF run] by (auto simp: lease_def)
qed








text \<open>An action whose kind is staged can be redeemed.\<close>

lemma staged_redeemable:
  "lease_staged now' (kind action) l \<Longrightarrow> now < le_expires_at_ms l \<Longrightarrow> can_redeem l action now"
  by (auto simp: lease_staged_def can_redeem_def lease_can_redeem_def lease_matches_action_def terms_def)



section \<open>Lives\<close>

definition policy_ok :: "crypto_lib \<Rightarrow> 't governance_policy \<Rightarrow> bool" where
  "policy_ok C p \<longleftrightarrow>
     state_ok C (gp_state p) \<and>
     (\<forall>pe persisted. gp_persistence p = Some pe \<and> pe_file pe = Some (Inr persisted) \<longrightarrow>
        state_ok C (state_of_persisted persisted))"

lemma persisted_ok: "state_ok C s \<Longrightarrow> state_ok C (state_of_persisted (persisted_of s))"
  by (simp add: state_ok_def state_of_persisted_def persisted_of_def governance_state_default_def governor_ok_def)

lemma policy_step_ok: "policy_step C D p p' \<Longrightarrow> policy_ok C p \<Longrightarrow> policy_ok C p'"
  using gok.step_holds[of C D p p'] policy_step_saved[of C D p p'] persisted_ok[of C "gp_state p'"]
  by (auto simp: policy_ok_def state_ok_kept_def saved_def)

lemma persisted_default_ok: "state_ok C (state_of_persisted persisted_default)"
  by (simp add: state_ok_def state_of_persisted_def persisted_default_def governance_state_default_def governor_ok_def)

lemma restart_ok:
  assumes "restarts_as p p'" "policy_ok C p"
  shows "policy_ok C p'"
proof -
  from assms(1) obtain pe q t where pe: "gp_persistence p = Some pe" "with_persistence (gp_config p) pe = Inr q"
    "p' = with_transport q (gp_transport p) t" unfolding restarts_as_def by blast
  then obtain persisted where load: "persistence_load pe = Inr persisted"
    and p': "gp_state p' = state_of_persisted persisted" "gp_persistence p' = Some pe"
    by (auto simp: with_persistence_def with_transport_def split: sum.splits)
  from load have "persisted = persisted_default \<or> pe_file pe = Some (Inr persisted)"
    by (auto simp: persistence_load_def split: option.splits)
  with assms(2) pe(1) p' persisted_default_ok show ?thesis by (auto simp: policy_ok_def)
qed

text \<open>
  C30. The policy stays well formed for its whole life: over any sequence of operations and
  restarts, with any transport and whatever writes of the state file fail, the local
  governor's identity is derived from its key and is not among the peers, every active lease
  has pairwise distinct spent scopes, no more than its blast radius, and at most sixteen
  reconciliation reports are retained.
\<close>

theorem governance_invariant:
  assumes "policy_life C D p p'" and "policy_ok C p"
  shows "state_ok C (gp_state p')"
proof -
  from assms have "policy_ok C p'"
    by (induction rule: policy_life.induct) (auto intro: policy_step_ok restart_ok)
  then show ?thesis by (simp add: policy_ok_def)
qed

theorem governance_invariant_witness:
  "\<exists>p'. policy_life model_crypto (\<lambda>_. Inl []) lone_policy p' \<and>
     gs_active_contingency_leases (gp_state p') = [] \<and> gs_peer_governors (gp_state p') \<noteq> {} \<and>
     state_ok model_crypto (gp_state p')"
proof -
  have life: "policy_life model_crypto (\<lambda>_. Inl []) lone_policy peered_policy"
    unfolding peered_policy_def
    by (rule policy_life.life_step[OF policy_life.life_start policy_step.step_peer])
  have "policy_ok model_crypto lone_policy" using lone_policy_ok by (simp add: policy_ok_def lone_policy_fields)
  from governance_invariant[OF life this] life peer_key_other(2) show ?thesis
    by (intro exI[of _ peered_policy])
       (auto simp: peered_policy_def register_peer_governor_def lone_policy_fields Let_def
          local_governor_key_new_def solo_id_def)
qed

section \<open>Restarts\<close>

text \<open>
  A restart keeps what was saved and fails closed: a policy loaded from the file an
  operation just wrote has the same chain, counter, peers, partition state, leases, activity
  and reports, holds no key, and vetoes every destructive action until a governor registers.
\<close>

theorem restart_fails_closed:
  assumes "gp_persistence p = Some pe" and "pe_writable pe (persisted_of (gp_state p))"
  shows "\<exists>pe' q. gp_persistence (persist_locked p) = Some pe' \<and> with_persistence (gp_config p) pe' = Inr q \<and>
    persisted_of (gp_state q) = persisted_of (gp_state p) \<and> gs_local_governor (gp_state q) = None \<and>
    (\<forall>C action now clock. is_destructive_action action \<longrightarrow>
       (\<exists>who reason. can_act C q action now clock = Some (GVeto who reason None, q)))"
  using assms
  by (auto simp: persist_locked_def persistence_save_def with_persistence_def persistence_load_def
      state_of_persisted_def persisted_of_def governance_state_default_def can_act_def can_act_at_def Let_def)

definition filed_policy :: "solo_governor_transport governance_policy" where
  "filed_policy = lone_policy\<lparr>gp_persistence := Some \<lparr>pe_file = None, pe_writable = \<lambda>_. True\<rparr>\<rparr>"

theorem restart_fails_closed_witness:
  "\<exists>pe' q. gp_persistence (persist_locked filed_policy) = Some pe' \<and>
     with_persistence (gp_config filed_policy) pe' = Inr q \<and> gs_local_governor (gp_state q) = None \<and>
     persisted_of (gp_state q) = persisted_of (gp_state filed_policy)"
proof -
  have "gp_persistence filed_policy = Some \<lparr>pe_file = None, pe_writable = \<lambda>_. True\<rparr>"
    "pe_writable \<lparr>pe_file = None, pe_writable = \<lambda>_. True\<rparr> (persisted_of (gp_state filed_policy))"
    by (simp_all add: filed_policy_def)
  from restart_fails_closed[OF this] show ?thesis by blast
qed

text \<open>
  The redemption path has no such guard. A partitioned policy without any governor key,
  for instance one just loaded from a state file, still authorises a destructive request
  that shows an active lease, while \<^verbatim>\<open>can_act\<close> vetoes the same action.
\<close>

theorem keyless_partition_authorises:
  assumes "gs_local_governor (gp_state p) = None" and "is_partitioned p"
    and "is_destructive_action (ar_action request)" and "presents C D (gp_state p) request now lease"
  shows "fst (authorize_partition_request C D p request now) = Inr (Some (spend lease (ar_action request))) \<and>
    (\<exists>who reason. can_act C p (ar_action request) now clock = Some (GVeto who reason None, p))"
proof -
  from assms(2) have part: "gs_partition_state (gp_state p) = PPartitioned" by (simp add: is_partitioned_def)
  from assms(3) part have "fst (authorize_partition_request C D p request now) =
      Inr (Some (spend lease (ar_action request)))"
  proof (cases rule: authorize_cases[where C = C and D = D and now = now])
    case (granted l i)
    with presents_unique[OF assms(4)] show ?thesis by simp
  qed (use assms(4) in blast)
  with assms show ?thesis by (auto simp: can_act_def can_act_at_def Let_def)
qed

text \<open>A lone governor with a healthy swarm, as far as the receipt it returns.\<close>

lemma healthy_lone_allows:
  assumes "crypto_laws C" "lone_governor C (gp_state p)" "gp_transport p = solo_governor_ops"
    "gs_partition_state (gp_state p) \<noteq> PPartitioned" "gs_unhealthy_agents (gp_state p) = []"
    "is_destructive_action action"
  shows "\<exists>r p'. can_act C p action now clock = Some (GAllow (Some r) None, p') \<and>
     gr_previous_commit_hash (rcpt_payload r) = gs_previous_commit_hash (gp_state p) \<and>
     gp_persistence p' = gp_persistence p \<and> gp_config p' = gp_config p"
proof -
  obtain k where k: "gs_local_governor (gp_state p) = Some k" "gs_peer_governors (gp_state p) = {}"
    and ok: "governor_ok C (gs_local_governor (gp_state p)) (gs_peer_governors (gp_state p))"
    using assms(2) by (auto simp: lone_governor_def)
  from solo_receipt[OF assms(1) ok k] obtain r s' t' where
    "issue_governance_receipt C solo_governor_ops (gp_state p) (gp_transport_state p) action Approve clock =
       Some (Inr r, s', t')" "receipt_ok C (gp_state p) Approve clock r" by blast
  with k assms(3-6) show ?thesis
    by (auto simp: can_act_def can_act_at_def Let_def receipt_ok_def)
qed

text \<open>
  The receipt chain forks on a restart: a decision advances the chain in memory and is not
  saved, so a governor that restarts from its state file and registers again issues its next
  receipt on the same previous commit as the one it issued before.
\<close>

theorem receipt_chain_forks_on_restart:
  assumes "crypto_laws C" and "lone_governor C (gp_state p)" and "gs_local_governor (gp_state p) = Some k"
    and "gp_transport p = solo_governor_ops" and "\<not> is_partitioned p" and "gs_unhealthy_agents (gp_state p) = []"
    and "gp_persistence p = Some pe" and "pe_file pe = Some (Inr (persisted_of (gp_state p)))"
    and "is_destructive_action first" and "is_destructive_action second"
  shows "\<exists>r1 p1 q r2 q1. can_act C p first t1 c1 = Some (GAllow (Some r1) None, p1) \<and>
    gp_persistence p1 = Some pe \<and> with_persistence (gp_config p1) pe = Inr q \<and>
    can_act C (snd (register_governor C q gid (lg_signing_key k))) second t2 c2 = Some (GAllow (Some r2) None, q1) \<and>
    gr_previous_commit_hash (rcpt_payload r2) = gr_previous_commit_hash (rcpt_payload r1)"
proof -
  have running: "gs_partition_state (gp_state p) \<noteq> PPartitioned" using assms(5) by (simp add: is_partitioned_def)
  from healthy_lone_allows[OF assms(1,2,4) running assms(6,9), of t1 c1] obtain r1 p1 where
    one: "can_act C p first t1 c1 = Some (GAllow (Some r1) None, p1)"
      "gr_previous_commit_hash (rcpt_payload r1) = gs_previous_commit_hash (gp_state p)"
      "gp_persistence p1 = Some pe" using assms(7) by auto
  define q where "q = \<lparr>gp_state = state_of_persisted (persisted_of (gp_state p)), gp_config = gp_config p1,
    gp_persistence = Some pe, gp_transport = solo_governor_ops, gp_transport_state = solo_transport_new\<rparr>"
  have q: "with_persistence (gp_config p1) pe = Inr q"
    using assms(8) by (simp add: with_persistence_def persistence_load_def q_def)
  let ?q = "snd (register_governor C q gid (lg_signing_key k))"
  have fields: "gs_partition_state (gp_state ?q) = gs_partition_state (gp_state p)"
    "gs_unhealthy_agents (gp_state ?q) = []" "gp_transport ?q = solo_governor_ops"
    "gs_previous_commit_hash (gp_state ?q) = gs_previous_commit_hash (gp_state p)"
    "lone_governor C (gp_state ?q)"
    using assms(2)
    by (auto simp: q_def register_governor_def install_governor_def state_of_persisted_def persisted_of_def
        governance_state_default_def Let_def lone_governor_def governor_ok_def local_governor_key_new_def
        local_verifying_key_def)
  from healthy_lone_allows[OF assms(1) fields(5,3) _ fields(2) assms(10), of t2 c2] running fields(1,4)
  obtain r2 q1 where "can_act C ?q second t2 c2 = Some (GAllow (Some r2) None, q1)"
    "gr_previous_commit_hash (rcpt_payload r2) = gs_previous_commit_hash (gp_state p)" by auto
  with one q show ?thesis by auto
qed

theorem receipt_chain_forks_on_restart_witness:
  "\<exists>pe r1 p1 q r2 q1.
     can_act model_crypto (lone_policy\<lparr>gp_persistence := Some pe\<rparr>) (IsolateHost ''h1'') 1 2 = Some (GAllow (Some r1) None, p1) \<and>
     with_persistence (gp_config p1) pe = Inr q \<and>
     can_act model_crypto (snd (register_governor model_crypto q (AgentId_new ''tom'' ''1'') solo_key))
       (BlockEgress ''e'') 3 4 = Some (GAllow (Some r2) None, q1) \<and>
     gr_previous_commit_hash (rcpt_payload r2) = gr_previous_commit_hash (rcpt_payload r1)"
proof -
  define pe where "pe = \<lparr>pe_file = Some (Inr (persisted_of (gp_state lone_policy))), pe_writable = \<lambda>_. True\<rparr>"
  let ?p = "lone_policy\<lparr>gp_persistence := Some pe\<rparr>"
  have "lone_governor model_crypto (gp_state ?p)"
    "gs_local_governor (gp_state ?p) = Some (local_governor_key_new model_crypto solo_key)"
    "gp_transport ?p = solo_governor_ops" "\<not> is_partitioned ?p" "gs_unhealthy_agents (gp_state ?p) = []"
    "gp_persistence ?p = Some pe" "pe_file pe = Some (Inr (persisted_of (gp_state ?p)))"
    "is_destructive_action (IsolateHost ''h1'')" "is_destructive_action (BlockEgress ''e'')"
    using lone_policy_ok
    by (simp_all add: lone_governor_def lone_policy_fields state_ok_def is_partitioned_def pe_def)
  from receipt_chain_forks_on_restart[OF model_crypto_laws this, of 1 2 "AgentId_new ''tom'' ''1''" 3 4]
  show ?thesis by (simp add: local_governor_key_new_def) blast
qed

section \<open>A concrete partition\<close>

lemma sample_lease:
  "\<exists>lease. lease_verify model_crypto lease = Inr () \<and> lease_staged 0 ''isolate_host'' lease \<and>
     fresh_lease lease \<and> le_expires_at_ms lease = 300000"
proof -
  have lone: "lone_governor model_crypto (gp_state lone_policy)"
    using lone_policy_ok by (simp add: lone_governor_def lone_policy_fields state_ok_def)
  from issue_lease_solo[OF model_crypto_laws lone, of 1 300000 0 solo_transport_new "''isolate_host''"]
  obtain lease s' t' where
    l: "issue_contingency_lease model_crypto solo_governor_ops (gp_state lone_policy) solo_transport_new
       ''isolate_host'' None 1 300000 0 = Some (Some lease, s', t')"
      "lease_staged 0 ''isolate_host'' lease" "lease_verify model_crypto lease = Inr ()"
      "le_expires_at_ms lease = i64_saturating_add 0 300000"
    by (auto simp: i64_min_def i64_max_def)
  from issue_contingency_lease_state[OF l(1)] l show ?thesis
    by (auto simp: machine_int_defs)
qed

definition partitioned_with :: "contingency_lease \<Rightarrow> solo_governor_transport governance_policy" where
  "partitioned_with lease = lone_policy\<lparr>gp_state := (gp_state lone_policy)
     \<lparr>gs_partition_state := PPartitioned, gs_active_contingency_leases := [lease]\<rparr>\<rparr>"

definition lease_request :: action_request where
  "lease_request = \<lparr>ar_hunt_id = HuntId ''hunt'', ar_requested_by = AgentId ''pouncer-1'',
     ar_action = IsolateHost ''h1'', ar_severity = High,
     ar_evidence = JObject [(''contingency_lease'', JNull)]\<rparr>"

lemma partitioned_with_ok: "fresh_lease lease \<Longrightarrow> state_ok model_crypto (gp_state (partitioned_with lease))"
  using lone_policy_ok
  by (simp add: partitioned_with_def state_ok_def lease_ok_def fresh_lease_def)

lemma partitioned_with_presents:
  assumes "lease_verify model_crypto lease = Inr ()" "lease_staged 0 ''isolate_host'' lease"
    "le_expires_at_ms lease = 300000"
    and "gs_active_contingency_leases s = [lease]"
  shows "presents model_crypto (\<lambda>_. Inr lease) s lease_request 5 lease"
  using assms staged_redeemable[of 0 "IsolateHost ''h1''" lease 5]
  by (simp add: presents_def lease_called_def lease_request_def)

theorem blast_radius_respected_witness:
  "\<exists>lease grants p'. authorize_all model_crypto (\<lambda>_. Inr lease) (partitioned_with lease) [(lease_request, 5)] = (grants, p') \<and>
     grants \<noteq> [] \<and>
     card {action_scope_key (ar_action request) | request g. (request, g) \<in> set grants \<and> le_lease_id g = le_lease_id lease}
       \<le> le_blast_radius_cap lease"
proof -
  obtain lease where l: "lease_verify model_crypto lease = Inr ()" "lease_staged 0 ''isolate_host'' lease"
    "le_expires_at_ms lease = 300000" "fresh_lease lease" using sample_lease by blast
  let ?p = "partitioned_with lease" and ?D = "\<lambda>_. Inr lease"
  have called: "lease_called (le_lease_id lease) (gp_state ?p) = Some lease"
    by (simp add: lease_called_def partitioned_with_def)
  have active: "gs_active_contingency_leases (gp_state ?p) = [lease]" by (simp add: partitioned_with_def)
  obtain grants p' where all: "authorize_all model_crypto ?D ?p [(lease_request, 5)] = (grants, p')" by fastforce
  have "is_destructive_action (ar_action lease_request)" "gs_partition_state (gp_state ?p) = PPartitioned"
    by (simp_all add: lease_request_def partitioned_with_def)
  then have "\<exists>g p1. authorize_partition_request model_crypto ?D ?p lease_request 5 = (Inr (Some g), p1)"
  proof (cases rule: authorize_cases[where C = model_crypto and D = ?D and now = 5])
    case (refused reason lid)
    with partitioned_with_presents[OF l(1-3) active] show ?thesis by blast
  qed auto
  with all have "grants \<noteq> []" by (auto simp: Let_def)
  with blast_radius_respected[OF partitioned_with_ok[OF l(4)] called all] all show ?thesis by blast
qed

theorem keyless_partition_authorises_witness:
  "\<exists>lease (p :: solo_governor_transport governance_policy) granted. gs_local_governor (gp_state p) = None \<and>
     fst (authorize_partition_request model_crypto (\<lambda>_. Inr lease) p lease_request 5) = Inr (Some granted)"
proof -
  obtain lease where l: "lease_verify model_crypto lease = Inr ()" "lease_staged 0 ''isolate_host'' lease"
    "le_expires_at_ms lease = 300000" using sample_lease by blast
  let ?p = "(partitioned_with lease)\<lparr>gp_state := (gp_state (partitioned_with lease))\<lparr>gs_local_governor := None\<rparr>\<rparr>"
  have p: "gs_local_governor (gp_state ?p) = None" "is_partitioned ?p"
    "is_destructive_action (ar_action lease_request)" "gs_active_contingency_leases (gp_state ?p) = [lease]"
    by (simp_all add: is_partitioned_def partitioned_with_def lease_request_def)
  from keyless_partition_authorises[OF p(1-3) partitioned_with_presents[OF l p(4)]] p(1) show ?thesis by blast
qed

text \<open>The report that ends the partition of the sample: its one governor is healthy again.\<close>

theorem partition_ends_with_reconciliation_witness:
  "\<exists>lease p'. observe_health model_crypto (note_partition_veto (partitioned_with lease) lease_request ''r'' 6)
       (AgentId_new ''tom'' ''1'') [] 7 = Some p' \<and>
     gs_partition_state (gp_state p') = PHealing \<and>
     rr_unauthorized_actions (last (gs_reconciliation_reports (gp_state p'))) \<noteq> []"
proof -
  obtain lease where "lease_verify model_crypto lease = Inr ()" using sample_lease by blast
  let ?p = "note_partition_veto (partitioned_with lease) lease_request ''r'' 6"
  have part: "is_partitioned ?p" "gs_display_governors (gp_state ?p) = [AgentId_new ''tom'' ''1'' \<mapsto> solo_id]"
    "gs_peer_governors (gp_state ?p) = {}" "gs_local_governor (gp_state ?p) \<noteq> None"
    "\<exists>r. gs_partition_activity (gp_state ?p) = gs_partition_activity (gp_state lone_policy) @ [r] \<and> \<not> pa_authorized r"
    by (simp_all add: note_partition_veto_def partitioned_with_def is_partitioned_def
        record_partition_activity_def lone_policy_fields)
  obtain p' where obs: "observe_health model_crypto ?p (AgentId_new ''tom'' ''1'') [] 7 = Some p'"
    and state: "gs_partition_state (gp_state p') = PHealing"
  proof -
    let ?s = "health_transition (gp_state ?p) (AgentId_new ''tom'' ''1'') [] 7"
    let ?r = "reported (gp_state ?p) (AgentId_new ''tom'' ''1'') []"
    have "base_of ?r = PHealthy"
      using part by (simp add: base_of_def base_partition_state_def reported_def total_governors_def
          unhealthy_governors_def governor_count_def governance_quorum_threshold_def
          recommended_max_faulty_def machine_int_defs)
    then have "fst (settle_partition ?r (base_of ?r) 7) = PHealing"
      using part(1) by (simp add: settle_partition_def reported_def is_partitioned_def split: prod.splits)
    then obtain s2 where "settle_partition ?r (base_of ?r) 7 = (PHealing, s2)" by (cases "settle_partition ?r (base_of ?r) 7") auto
    from health_transition_settle[OF this] have "gs_partition_state ?s = PHealing"
      by (simp add: prune_expired_contingency_leases_def enter_fields)
    then show thesis using that by (auto simp: observe_health_def Let_def)
  qed
  from partition_ends_with_reconciliation[OF policy_step.step_observe[OF obs, of "\<lambda>_. Inl []"] part(1)] state part(1)
  have "reconciled_as (gp_state ?p) (last (gs_reconciliation_reports (gp_state p')))"
    by (auto simp: activity_kept_def is_partitioned_def)
  with part(5) have "rr_unauthorized_actions (last (gs_reconciliation_reports (gp_state p'))) \<noteq> []"
    by (auto simp: reconciled_as_def)
  with obs state show ?thesis by blast
qed

end
