(* ===== verification/Held_Action.thy ===== *)
theory Held_Action
  imports Governance_Policy Ordered_Map "HOL-Library.Product_Lexorder"
begin

text \<open>
  The held-action record of \<^verbatim>\<open>crates/swarm-runtime/src/held_action.rs\<close>: one
  \<^verbatim>\<open>RequireHuman\<close> verdict made durable. The hold states, the decision record, the hold with
  its fields in the order of the source, decidability, and the transition functions both
  store backends apply (\<^verbatim>\<open>mod transitions\<close>). A Rust function that mutates a hold in place
  and reports what it did returns the report and the hold.

  The settings and previews a hold carries (\<^verbatim>\<open>swarm-core\<close>), the finding it was authorised
  against (\<^verbatim>\<open>swarm-whisker\<close>) and the fields of the request's evidence that
  \<^verbatim>\<open>serde_json::from_value\<close> reads are included; the three readers are the record
  \<open>evidence_readers\<close>, an argument of the definitions that use them.
\<close>

section \<open>What a hold carries\<close>

datatype rehearsal_scope_kind =
    NetworkTarget | HostScope | CredentialScope | UserSession | FileScope | ProcessScope
  | UserAccount | ScheduledTask | ZoneScope | OperatorQueue

datatype blast_radius_impact =
    NetworkEgressBlocked | HostConnectivityIsolated | CredentialAccessRevoked
  | DnsResolutionSinkholed | UserSessionTerminated | HostScanTriggered
  | HostFirewallPolicyChanged | FileQuarantined | ProcessTerminated | ProcessSuspended
  | UserAccountDisabled | PasswordResetEnforced | ScheduledTaskRemoved
  | DeceptionCoverageChanged | OperatorEscalationOnly

record blast_radius_preview =
  br_scope_kind :: rehearsal_scope_kind
  br_scope_value :: string
  br_impact :: blast_radius_impact
  br_max_affected_scopes :: usize
  br_affected_capabilities :: "string list"
  br_summary :: string

datatype rollback_step_kind =
    RemoveNetworkBlock | RestoreHostConnectivity | RestoreCredential | RemoveDnsSinkhole
  | ReauthenticateUserSession | CancelHostScan | RemoveFirewallRule | ReleaseQuarantinedFile
  | RestartProcess | ResumeProcess | ReenableUserAccount | ClearPasswordResetRequirement
  | RestoreScheduledTask | WithdrawDecoy | CloseEscalation

record rollback_step =
  rs_kind :: rollback_step_kind
  rs_summary :: string

record rollback_preview =
  rp_required :: bool
  rp_summary :: string
  rp_steps :: "rollback_step list"

record rehearsal_preview =
  rh_rehearsal_id :: string
  rh_source_bundle_id :: string
  rh_prepared_at_ms :: i64
  rh_simulated_only :: bool
  rh_blast_radius :: blast_radius_preview
  rh_rollback :: rollback_preview

text \<open>Floats are kept as their IEEE 754 bit patterns.\<close>

record detection_finding =
  df_finding_id :: string
  df_event_id :: string
  df_threat_class :: threat_class
  df_severity :: severity
  df_confidence :: "64 word"
  df_evidence :: json
  df_strategy_id :: string

datatype escalation_level = LevelAlert | LevelIncident

record threat_concentration =
  tc_threat_class :: threat_class
  tc_total_strength :: "64 word"
  tc_distinct_sources :: usize
  tc_peak_confidence :: "64 word"

section \<open>States, decisions and outcomes\<close>

datatype hold_state =
    Created | Notified | Armed | Deciding | Granted | Refused | Expired | Executed | HoldFailed

fun state_is_open :: "hold_state \<Rightarrow> bool" where
  "state_is_open s \<longleftrightarrow> s = Created \<or> s = Notified \<or> s = Armed"

fun state_is_terminal :: "hold_state \<Rightarrow> bool" where
  "state_is_terminal s \<longleftrightarrow>
     s = Granted \<or> s = Refused \<or> s = Expired \<or> s = Executed \<or> s = HoldFailed"

fun hold_state_str :: "hold_state \<Rightarrow> string" where
  "hold_state_str Created = ''created''"
| "hold_state_str Notified = ''notified''"
| "hold_state_str Armed = ''armed''"
| "hold_state_str Deciding = ''deciding''"
| "hold_state_str Granted = ''granted''"
| "hold_state_str Refused = ''refused''"
| "hold_state_str Expired = ''expired''"
| "hold_state_str Executed = ''executed''"
| "hold_state_str HoldFailed = ''failed''"

datatype hold_decision = Grant | Refuse

fun hold_decision_str :: "hold_decision \<Rightarrow> string" where
  "hold_decision_str Grant = ''grant''"
| "hold_decision_str Refuse = ''refuse''"

datatype hold_outcome =
    GrantedExecuted | GrantedSimulated | GrantedFailed | RefusedByOperator | RefusedLate
  | GuardRejectedOutcome

datatype governance_clearance =
    NotRequired | PartitionAuthorized | ReceiptSignatureOk | ReceiptSubjectBound

record hold_refusal =
  hr_rule :: string
  hr_reason :: string

record hold_rationale =
  ra_rule_name :: string
  ra_reason :: string
  ra_threat_class :: threat_class
  ra_severity :: severity
  ra_request_carried_fields :: "string list"
  ra_concentration_at_hold :: "threat_concentration option"
  ra_escalation_level :: "escalation_level option"
  ra_governance_receipt_present :: bool

record hold_decision_record =
  hd_decision :: hold_decision
  hd_operator_id :: string
  hd_voter_id :: string
  hd_rationale_sha256 :: "string option"
  hd_hold_notice_published :: bool
  hd_governance_clearance :: governance_clearance
  hd_decided_at_ms :: i64
  hd_nostr_intent_event_id :: string
  hd_signature :: "detached_signature option"
  hd_rationale :: "string option"
  hd_outcome :: hold_outcome
  hd_dispatched :: bool
  hd_receipt_id :: "string option"
  hd_audit_trail_id :: "string option"
  hd_refusal :: "hold_refusal option"
  hd_partition_state_at_execution :: "partition_state option"

record held_action =
  ha_hold_id :: string
  ha_state :: hold_state
  ha_action_request :: action_request
  ha_rehearsal :: "rehearsal_preview option"
  ha_detection :: detection_finding
  ha_policy_decision :: policy_decision
  ha_rationale :: hold_rationale
  ha_held_at_ms :: i64
  ha_expires_at_ms :: i64
  ha_audit_trail_id :: "string option"
  ha_case_channel :: "string option"
  ha_notified_at_ms :: "i64 option"
  ha_notice_event_id :: "string option"
  ha_card_event_id :: "string option"
  ha_decision :: "hold_decision_record option"
  ha_deciding_intent_event_id :: "string option"
  ha_cas_instant_ms :: "i64 option"
  ha_prior_state :: "hold_state option"
  ha_partition_state_at_hold :: "partition_state option"

datatype not_decidable = NdExpired | NdDeciding | NdTerminal

section \<open>Construction\<close>

definition is_ascii_alphanumeric :: "char \<Rightarrow> bool" where
  "is_ascii_alphanumeric c \<longleftrightarrow>
     (CHR ''0'' \<le> c \<and> c \<le> CHR ''9'') \<or> (CHR ''A'' \<le> c \<and> c \<le> CHR ''Z'')
     \<or> (CHR ''a'' \<le> c \<and> c \<le> CHR ''z'')"

definition is_opaque_hold_id :: "string \<Rightarrow> bool" where
  "is_opaque_hold_id value \<longleftrightarrow>
     8 \<le> length value \<and> length value \<le> 64 \<and>
     (case value of [] \<Rightarrow> False | c # _ \<Rightarrow> is_ascii_alphanumeric c) \<and>
     list_all (\<lambda>c. is_ascii_alphanumeric c \<or> c = CHR ''_'' \<or> c = CHR ''-'') value"

record evidence_readers =
  read_threat_class :: "json \<Rightarrow> string + threat_class"
  read_escalation_level :: "json \<Rightarrow> string + escalation_level"
  read_concentration :: "json \<Rightarrow> string + threat_concentration"

definition result_ok :: "'e + 'a \<Rightarrow> 'a option" where
  "result_ok r = (case r of Inl _ \<Rightarrow> None | Inr v \<Rightarrow> Some v)"

definition rationale_derive ::
  "evidence_readers \<Rightarrow> action_request \<Rightarrow> policy_decision \<Rightarrow> hold_rationale" where
  "rationale_derive R request decision =
     (let escalation = json_get (ar_evidence request) ''escalation'';
          field = (\<lambda>name. Option.bind escalation (\<lambda>value. json_get value name));
          threat_class = (case Option.bind (field ''threat_class'')
                                 (\<lambda>value. result_ok (read_threat_class R value)) of
                            None \<Rightarrow> Execution | Some c \<Rightarrow> c);
          escalation_level = Option.bind (field ''level'')
                               (\<lambda>value. result_ok (read_escalation_level R value));
          concentration_at_hold = Option.bind (field ''concentration'')
                                    (\<lambda>value. result_ok (read_concentration R value))
      in \<lparr>ra_rule_name = pd_rule_name decision, ra_reason = pd_reason decision,
          ra_threat_class = threat_class, ra_severity = ar_severity request,
          ra_request_carried_fields = [''severity'', ''threat_class''],
          ra_concentration_at_hold = concentration_at_hold,
          ra_escalation_level = escalation_level,
          ra_governance_receipt_present =
            (json_get (ar_evidence request) ''governance_receipt'' \<noteq> None)\<rparr>)"

definition held_action_new ::
  "evidence_readers \<Rightarrow> string \<Rightarrow> action_request \<Rightarrow> detection_finding \<Rightarrow> policy_decision \<Rightarrow>
   rehearsal_preview option \<Rightarrow> i64 \<Rightarrow> i64 \<Rightarrow> string option \<Rightarrow> held_action" where
  "held_action_new R hold_id action_request detection policy_decision rehearsal held_at_ms
     expires_at_ms audit_trail_id =
     \<lparr>ha_hold_id = hold_id, ha_state = Created, ha_action_request = action_request,
      ha_rehearsal = rehearsal, ha_detection = detection, ha_policy_decision = policy_decision,
      ha_rationale = rationale_derive R action_request policy_decision,
      ha_held_at_ms = held_at_ms, ha_expires_at_ms = expires_at_ms,
      ha_audit_trail_id = audit_trail_id, ha_case_channel = None, ha_notified_at_ms = None,
      ha_notice_event_id = None, ha_card_event_id = None, ha_decision = None,
      ha_deciding_intent_event_id = None, ha_cas_instant_ms = None, ha_prior_state = None,
      ha_partition_state_at_hold = None\<rparr>"

definition is_containment_action :: "response_action \<Rightarrow> bool" where
  "is_containment_action action =
     (case action of QuarantineFile _ _ \<Rightarrow> True | SuspendProcess _ _ \<Rightarrow> True
      | IsolateHost _ \<Rightarrow> True | TerminateUserSession _ _ \<Rightarrow> True | _ \<Rightarrow> False)"

definition leases_a_containment :: "held_action \<Rightarrow> bool" where
  "leases_a_containment hold = is_containment_action (ar_action (ha_action_request hold))"

definition hold_is_open :: "held_action \<Rightarrow> bool" where
  "hold_is_open hold = state_is_open (ha_state hold)"

definition hold_is_terminal :: "held_action \<Rightarrow> bool" where
  "hold_is_terminal hold = state_is_terminal (ha_state hold)"

definition assert_decidable :: "held_action \<Rightarrow> i64 \<Rightarrow> not_decidable + unit" where
  "assert_decidable hold now_ms =
     (if ha_state hold = Deciding then Inl NdDeciding
      else if ha_state hold = Expired then Inl NdExpired
      else if state_is_terminal (ha_state hold) then Inl NdTerminal
      else if now_ms \<ge> ha_expires_at_ms hold then Inl NdExpired
      else Inr ())"

section \<open>Transitions\<close>

definition STALLED_DECISION_REASON :: string where
  "STALLED_DECISION_REASON = ''the decision stalled; whether the action ran is unknown''"

definition stalled_refusal :: hold_refusal where
  "stalled_refusal =
     \<lparr>hr_rule = ''runtime.capability_lease_expired'', hr_reason = STALLED_DECISION_REASON\<rparr>"

definition tr_begin :: "held_action \<Rightarrow> string \<Rightarrow> i64 \<Rightarrow> bool \<times> held_action" where
  "tr_begin hold intent_event_id cas_instant_ms =
     (case assert_decidable hold cas_instant_ms of
        Inl _ \<Rightarrow> (False, hold)
      | Inr _ \<Rightarrow>
          (True, hold\<lparr>ha_prior_state := Some (ha_state hold), ha_state := Deciding,
                      ha_deciding_intent_event_id := Some intent_event_id,
                      ha_cas_instant_ms := Some cas_instant_ms\<rparr>))"

definition tr_abandon :: "held_action \<Rightarrow> string \<Rightarrow> bool \<times> held_action" where
  "tr_abandon hold intent_event_id =
     (if ha_state hold \<noteq> Deciding \<or> ha_deciding_intent_event_id hold \<noteq> Some intent_event_id
      then (False, hold)
      else
        (True, hold\<lparr>ha_state := (case ha_prior_state hold of None \<Rightarrow> Created | Some s \<Rightarrow> s),
                    ha_prior_state := None, ha_deciding_intent_event_id := None,
                    ha_cas_instant_ms := None\<rparr>))"

definition tr_complete :: "held_action \<Rightarrow> hold_decision_record \<Rightarrow> hold_state \<Rightarrow> held_action" where
  "tr_complete hold decision state =
     hold\<lparr>ha_state := state, ha_decision := Some decision, ha_prior_state := None\<rparr>"

definition tr_expire :: "held_action \<Rightarrow> i64 \<Rightarrow> bool \<times> held_action" where
  "tr_expire hold now_ms =
     (if state_is_open (ha_state hold) \<and> now_ms \<ge> ha_expires_at_ms hold
      then (True, hold\<lparr>ha_state := Expired\<rparr>) else (False, hold))"

definition is_stalled :: "held_action \<Rightarrow> i64 \<Rightarrow> u64 \<Rightarrow> bool" where
  "is_stalled hold now_ms stall_ms \<longleftrightarrow>
     ha_state hold = Deciding \<and>
     (case ha_cas_instant_ms hold of
        None \<Rightarrow> False
      | Some cas \<Rightarrow> i64_saturating_sub now_ms cas \<ge> u64_as_i64 stall_ms)"

definition stalled_record :: "held_action \<Rightarrow> i64 \<Rightarrow> hold_decision_record" where
  "stalled_record hold now_ms =
     \<lparr>hd_decision = Grant, hd_operator_id = [], hd_voter_id = [], hd_rationale_sha256 = None,
      hd_hold_notice_published = (ha_notified_at_ms hold \<noteq> None),
      hd_governance_clearance = NotRequired,
      hd_decided_at_ms = (case ha_cas_instant_ms hold of None \<Rightarrow> now_ms | Some cas \<Rightarrow> cas),
      hd_nostr_intent_event_id =
        (case ha_deciding_intent_event_id hold of None \<Rightarrow> [] | Some i \<Rightarrow> i),
      hd_signature = None, hd_rationale = None, hd_outcome = GrantedFailed,
      hd_dispatched = False, hd_receipt_id = None, hd_audit_trail_id = None,
      hd_refusal = Some stalled_refusal, hd_partition_state_at_execution = None\<rparr>"

definition tr_fail_stalled :: "held_action \<Rightarrow> i64 \<Rightarrow> u64 \<Rightarrow> bool \<times> held_action" where
  "tr_fail_stalled hold now_ms stall_ms =
     (if \<not> is_stalled hold now_ms stall_ms then (False, hold)
      else (True, hold\<lparr>ha_decision := Some (stalled_record hold now_ms),
                       ha_state := HoldFailed, ha_prior_state := None\<rparr>))"

definition hold_sort_key :: "held_action \<Rightarrow> i64 \<times> string" where
  "hold_sort_key hold = (ha_expires_at_ms hold, ha_hold_id hold)"

text \<open>The three \<^verbatim>\<open>mark_\<close> callbacks of the bridge and the console.\<close>

definition set_case_channel :: "string \<Rightarrow> held_action \<Rightarrow> held_action" where
  "set_case_channel case_channel hold = hold\<lparr>ha_case_channel := Some case_channel\<rparr>"

definition set_notified :: "i64 \<Rightarrow> string \<Rightarrow> string option \<Rightarrow> held_action \<Rightarrow> held_action" where
  "set_notified at_ms notice_event_id card_event_id hold =
     (let hold = hold\<lparr>ha_notified_at_ms := Some at_ms, ha_notice_event_id := Some notice_event_id,
                      ha_card_event_id := card_event_id\<rparr>
      in if ha_state hold = Created then hold\<lparr>ha_state := Notified\<rparr> else hold)"

definition set_armed :: "held_action \<Rightarrow> held_action" where
  "set_armed hold = (if ha_state hold = Notified then hold\<lparr>ha_state := Armed\<rparr> else hold)"

lemmas transition_defs =
  tr_begin_def tr_abandon_def tr_complete_def tr_expire_def tr_fail_stalled_def
  set_case_channel_def set_notified_def set_armed_def

lemma hold_id_kept [simp]:
  "ha_hold_id (snd (tr_begin h i t)) = ha_hold_id h"
  "ha_hold_id (snd (tr_abandon h i)) = ha_hold_id h"
  "ha_hold_id (tr_complete h d s) = ha_hold_id h"
  "ha_hold_id (snd (tr_expire h t)) = ha_hold_id h"
  "ha_hold_id (snd (tr_fail_stalled h t m)) = ha_hold_id h"
  "ha_hold_id (set_case_channel c h) = ha_hold_id h"
  "ha_hold_id (set_notified t n k h) = ha_hold_id h"
  "ha_hold_id (set_armed h) = ha_hold_id h"
  by (auto simp: transition_defs Let_def split: sum.splits)

lemma assert_decidable_iff:
  "assert_decidable h t = Inr () \<longleftrightarrow> state_is_open (ha_state h) \<and> t < ha_expires_at_ms h"
  by (cases "ha_state h") (auto simp: assert_decidable_def)

end
