(* ===== verification/Hold_Store.thy ===== *)
theory Hold_Store
  imports Held_Action
begin

text \<open>
  The two backends of \<^verbatim>\<open>HeldActionStore\<close> (\<^verbatim>\<open>crates/swarm-runtime/src/held_action.rs\<close>) and
  the store the configuration selects. Each trait method is a function of the store's state;
  the lock that serialises the calls makes one call one step.

  The memory backend is its map. The file backend is its read cache together with the part of
  the file system it uses: the documents of its directory, and the answers the operating
  system gives to the successive writes (\<open>fi_io\<close>), so that any write can fail.
  \<^verbatim>\<open>serde_json\<close> is the record \<open>hold_codec\<close>. The workspace is built with \<^verbatim>\<open>panic = abort\<close>, so no
  lock is ever poisoned and \<open>HsPoisoned\<close> is never returned.
\<close>

datatype store_error =
    HsNotFound string
  | HsNotDecidable string held_action
  | HsDuplicate string
  | HsIo string string
  | HsCorrupt string string
  | HsPoisoned

fun store_error_display :: "store_error \<Rightarrow> string" where
  "store_error_display (HsNotFound hold_id) = ''no hold `'' @ hold_id @ ''`''"
| "store_error_display (HsNotDecidable hold_id current) =
     ''hold `'' @ hold_id @ ''` is not decidable in state '' @ hold_state_str (ha_state current)"
| "store_error_display (HsDuplicate hold_id) = ''hold `'' @ hold_id @ ''` already exists''"
| "store_error_display (HsIo path source) = ''hold store io error at '' @ path @ '': '' @ source"
| "store_error_display (HsCorrupt path reason) =
     ''hold store document '' @ path @ '' is corrupt: '' @ reason"
| "store_error_display HsPoisoned = ''hold store lock poisoned''"

record store_health =
  sh_durable :: bool
  sh_backend :: string
  sh_open_holds :: usize
  sh_deciding_stalled :: usize

type_synonym 's store_result = "(store_error + unit) \<times> 's"
type_synonym holds = "(string, held_action) btree"

definition list_of_holds :: "holds \<Rightarrow> bool \<Rightarrow> usize \<Rightarrow> held_action list" where
  "list_of_holds holds include_terminal limit =
     take limit (sort_key hold_sort_key
       (filter (\<lambda>hold. include_terminal \<or> \<not> hold_is_terminal hold) (bt_values holds)))"

definition health_of_holds :: "bool \<Rightarrow> string \<Rightarrow> holds \<Rightarrow> i64 \<Rightarrow> u64 \<Rightarrow> store_health" where
  "health_of_holds durable backend holds now_ms stall_ms =
     \<lparr>sh_durable = durable, sh_backend = backend,
      sh_open_holds = length (filter hold_is_open (bt_values holds)),
      sh_deciding_stalled =
        length (filter (\<lambda>hold. is_stalled hold now_ms stall_ms) (bt_values holds))\<rparr>"

section \<open>The memory backend\<close>

record memory_store =
  ms_holds :: holds

definition memory_default :: memory_store where
  "memory_default = \<lparr>ms_holds = []\<rparr>"

definition mem_with_hold ::
  "memory_store \<Rightarrow> string \<Rightarrow> (held_action \<Rightarrow> held_action) \<Rightarrow> memory_store store_result" where
  "mem_with_hold store hold_id f =
     (case bt_get (ms_holds store) hold_id of
        None \<Rightarrow> (Inl (HsNotFound hold_id), store)
      | Some hold \<Rightarrow> (Inr (), store\<lparr>ms_holds := bt_insert hold_id (f hold) (ms_holds store)\<rparr>))"

definition mem_create :: "memory_store \<Rightarrow> held_action \<Rightarrow> memory_store store_result" where
  "mem_create store hold =
     (if bt_get (ms_holds store) (ha_hold_id hold) \<noteq> None
      then (Inl (HsDuplicate (ha_hold_id hold)), store)
      else (Inr (), store\<lparr>ms_holds := bt_insert (ha_hold_id hold) hold (ms_holds store)\<rparr>))"

definition mem_get :: "memory_store \<Rightarrow> string \<Rightarrow> held_action option" where
  "mem_get store hold_id = bt_get (ms_holds store) hold_id"

definition mem_list :: "memory_store \<Rightarrow> bool \<Rightarrow> usize \<Rightarrow> held_action list" where
  "mem_list store include_terminal limit = list_of_holds (ms_holds store) include_terminal limit"

definition mem_mark_case_channel ::
  "memory_store \<Rightarrow> string \<Rightarrow> string \<Rightarrow> memory_store store_result" where
  "mem_mark_case_channel store hold_id case_channel =
     mem_with_hold store hold_id (set_case_channel case_channel)"

definition mem_mark_notified ::
  "memory_store \<Rightarrow> string \<Rightarrow> i64 \<Rightarrow> string \<Rightarrow> string option \<Rightarrow> memory_store store_result" where
  "mem_mark_notified store hold_id at_ms notice_event_id card_event_id =
     mem_with_hold store hold_id (set_notified at_ms notice_event_id card_event_id)"

definition mem_mark_armed :: "memory_store \<Rightarrow> string \<Rightarrow> i64 \<Rightarrow> memory_store store_result" where
  "mem_mark_armed store hold_id at_ms = mem_with_hold store hold_id set_armed"

definition mem_begin_decision ::
  "memory_store \<Rightarrow> string \<Rightarrow> string \<Rightarrow> i64 \<Rightarrow> (store_error + held_action) \<times> memory_store" where
  "mem_begin_decision store hold_id intent_event_id cas_instant_ms =
     (case bt_get (ms_holds store) hold_id of
        None \<Rightarrow> (Inl (HsNotFound hold_id), store)
      | Some hold \<Rightarrow>
          (case tr_begin hold intent_event_id cas_instant_ms of
             (True, claimed) \<Rightarrow>
               (Inr claimed, store\<lparr>ms_holds := bt_insert hold_id claimed (ms_holds store)\<rparr>)
           | (False, _) \<Rightarrow> (Inl (HsNotDecidable hold_id hold), store)))"

definition mem_abandon_decision ::
  "memory_store \<Rightarrow> string \<Rightarrow> string \<Rightarrow> memory_store store_result" where
  "mem_abandon_decision store hold_id intent_event_id =
     (case bt_get (ms_holds store) hold_id of
        None \<Rightarrow> (Inr (), store)
      | Some hold \<Rightarrow>
          (Inr (), store\<lparr>ms_holds :=
             bt_insert hold_id (snd (tr_abandon hold intent_event_id)) (ms_holds store)\<rparr>))"

definition mem_complete_decision ::
  "memory_store \<Rightarrow> string \<Rightarrow> hold_decision_record \<Rightarrow> hold_state \<Rightarrow> memory_store store_result" where
  "mem_complete_decision store hold_id decision state =
     mem_with_hold store hold_id (\<lambda>hold. tr_complete hold decision state)"

text \<open>The holds a sweep changed, after the change, in key order.\<close>

definition changed_holds ::
  "(held_action \<Rightarrow> bool \<times> held_action) \<Rightarrow> held_action list \<Rightarrow> held_action list" where
  "changed_holds f holds = map (\<lambda>hold. snd (f hold)) (filter (\<lambda>hold. fst (f hold)) holds)"

definition mem_sweep ::
  "memory_store \<Rightarrow> (held_action \<Rightarrow> bool \<times> held_action) \<Rightarrow>
   (store_error + held_action list) \<times> memory_store" where
  "mem_sweep store f =
     (Inr (changed_holds f (bt_values (ms_holds store))),
      store\<lparr>ms_holds := bt_map (\<lambda>_ hold. snd (f hold)) (ms_holds store)\<rparr>)"

definition mem_expire_due ::
  "memory_store \<Rightarrow> i64 \<Rightarrow> (store_error + held_action list) \<times> memory_store" where
  "mem_expire_due store now_ms = mem_sweep store (\<lambda>hold. tr_expire hold now_ms)"

definition mem_fail_stalled_decisions ::
  "memory_store \<Rightarrow> i64 \<Rightarrow> u64 \<Rightarrow> (store_error + held_action list) \<times> memory_store" where
  "mem_fail_stalled_decisions store now_ms stall_ms =
     mem_sweep store (\<lambda>hold. tr_fail_stalled hold now_ms stall_ms)"

definition mem_health :: "memory_store \<Rightarrow> i64 \<Rightarrow> u64 \<Rightarrow> store_health" where
  "mem_health store now_ms stall_ms =
     health_of_holds False ''memory'' (ms_holds store) now_ms stall_ms"

section \<open>The file backend\<close>

record hold_codec =
  hc_encode :: "held_action \<Rightarrow> string + bytes"
  hc_decode :: "bytes \<Rightarrow> string + held_action"

text \<open>
  How the operating system answers one write of a temporary file followed by its rename. A
  failing write may leave a partial temporary file.
\<close>

datatype write_outcome = WriteOk | WriteFails string "bytes option" | RenameFails string

record file_store =
  fi_directory :: string
  fi_holds :: holds
  fi_disk :: "(string, bytes) btree"
  fi_io :: "nat \<Rightarrow> write_outcome"
  fi_writes :: nat

text \<open>\<^verbatim>\<open>Path::extension\<close>: what follows the last dot, unless the name starts with it.\<close>

definition path_extension :: "string \<Rightarrow> string option" where
  "path_extension name =
     (let suffix = rev (takeWhile (\<lambda>c. c \<noteq> CHR ''.'') (rev name))
      in if length name \<le> length suffix + 1 then None else Some suffix)"

definition document_name :: "string \<Rightarrow> string" where
  "document_name hold_id = hold_id @ ''.json''"

definition document_path :: "file_store \<Rightarrow> string \<Rightarrow> string" where
  "document_path store hold_id = fi_directory store @ ''/'' @ document_name hold_id"

definition temp_name :: "string \<Rightarrow> string" where
  "temp_name hold_id = hold_id @ ''.json.tmp''"

text \<open>
  \<^verbatim>\<open>open\<close>: \<open>listing\<close> is what the directory iterator yields, an error or, entry by entry, an
  error or a file name with the result of reading the file.
\<close>

fun load_documents ::
  "hold_codec \<Rightarrow> string \<Rightarrow> holds \<Rightarrow> (string + string \<times> (string + bytes)) list \<Rightarrow>
   store_error + holds" where
  "load_documents S directory holds [] = Inr holds"
| "load_documents S directory holds (Inl source # entries) = Inl (HsIo directory source)"
| "load_documents S directory holds (Inr (name, content) # entries) =
     (if path_extension name \<noteq> Some ''json'' then load_documents S directory holds entries
      else case content of
        Inl source \<Rightarrow> Inl (HsIo (directory @ ''/'' @ name) source)
      | Inr bytes \<Rightarrow>
          (case hc_decode S bytes of
             Inl reason \<Rightarrow> Inl (HsCorrupt (directory @ ''/'' @ name) reason)
           | Inr hold \<Rightarrow>
               load_documents S directory (bt_insert (ha_hold_id hold) hold holds) entries))"

definition file_open ::
  "hold_codec \<Rightarrow> string \<Rightarrow> string option \<Rightarrow> string + (string + string \<times> (string + bytes)) list \<Rightarrow>
   (string, bytes) btree \<Rightarrow> (nat \<Rightarrow> write_outcome) \<Rightarrow> store_error + file_store" where
  "file_open S directory create_dir_error listing disk io =
     (case create_dir_error of
        Some source \<Rightarrow> Inl (HsIo directory source)
      | None \<Rightarrow>
        (case listing of
           Inl source \<Rightarrow> Inl (HsIo directory source)
         | Inr entries \<Rightarrow>
           (case load_documents S directory [] entries of
              Inl e \<Rightarrow> Inl e
            | Inr holds \<Rightarrow>
                Inr \<lparr>fi_directory = directory, fi_holds = holds, fi_disk = disk, fi_io = io,
                     fi_writes = 0\<rparr>)))"

definition persist :: "hold_codec \<Rightarrow> file_store \<Rightarrow> held_action \<Rightarrow> file_store store_result" where
  "persist S store hold =
     (let path = document_path store (ha_hold_id hold);
          temp = fi_directory store @ ''/'' @ temp_name (ha_hold_id hold);
          after = store\<lparr>fi_writes := fi_writes store + 1\<rparr>
      in case hc_encode S hold of
        Inl reason \<Rightarrow> (Inl (HsCorrupt path reason), store)
      | Inr bytes \<Rightarrow>
        (case fi_io store (fi_writes store) of
           WriteFails source leftover \<Rightarrow>
             (Inl (HsIo temp source),
              (case leftover of
                 None \<Rightarrow> after
               | Some part \<Rightarrow>
                   after\<lparr>fi_disk := bt_insert (temp_name (ha_hold_id hold)) part (fi_disk store)\<rparr>))
         | RenameFails source \<Rightarrow>
             (Inl (HsIo path source),
              after\<lparr>fi_disk := bt_insert (temp_name (ha_hold_id hold)) bytes (fi_disk store)\<rparr>)
         | WriteOk \<Rightarrow>
             (Inr (),
              after\<lparr>fi_disk := bt_insert (document_name (ha_hold_id hold)) bytes
                (bt_retain (\<lambda>name. name \<noteq> temp_name (ha_hold_id hold)) (fi_disk store))\<rparr>)))"

definition put_cache :: "file_store \<Rightarrow> string \<Rightarrow> held_action \<Rightarrow> file_store" where
  "put_cache store hold_id hold = store\<lparr>fi_holds := bt_insert hold_id hold (fi_holds store)\<rparr>"

definition file_mutate ::
  "hold_codec \<Rightarrow> file_store \<Rightarrow> string \<Rightarrow> (held_action \<Rightarrow> held_action) \<Rightarrow> file_store store_result" where
  "file_mutate S store hold_id f =
     (case bt_get (fi_holds store) hold_id of
        None \<Rightarrow> (Inl (HsNotFound hold_id), store)
      | Some hold \<Rightarrow> persist S (put_cache store hold_id (f hold)) (f hold))"

definition file_create :: "hold_codec \<Rightarrow> file_store \<Rightarrow> held_action \<Rightarrow> file_store store_result" where
  "file_create S store hold =
     (if bt_get (fi_holds store) (ha_hold_id hold) \<noteq> None
      then (Inl (HsDuplicate (ha_hold_id hold)), store)
      else case persist S store hold of
        (Inl e, store') \<Rightarrow> (Inl e, store')
      | (Inr _, store') \<Rightarrow> (Inr (), put_cache store' (ha_hold_id hold) hold))"

definition file_get :: "file_store \<Rightarrow> string \<Rightarrow> held_action option" where
  "file_get store hold_id = bt_get (fi_holds store) hold_id"

definition file_list :: "file_store \<Rightarrow> bool \<Rightarrow> usize \<Rightarrow> held_action list" where
  "file_list store include_terminal limit = list_of_holds (fi_holds store) include_terminal limit"

definition file_mark_case_channel ::
  "hold_codec \<Rightarrow> file_store \<Rightarrow> string \<Rightarrow> string \<Rightarrow> file_store store_result" where
  "file_mark_case_channel S store hold_id case_channel =
     file_mutate S store hold_id (set_case_channel case_channel)"

definition file_mark_notified ::
  "hold_codec \<Rightarrow> file_store \<Rightarrow> string \<Rightarrow> i64 \<Rightarrow> string \<Rightarrow> string option \<Rightarrow> file_store store_result" where
  "file_mark_notified S store hold_id at_ms notice_event_id card_event_id =
     file_mutate S store hold_id (set_notified at_ms notice_event_id card_event_id)"

definition file_mark_armed ::
  "hold_codec \<Rightarrow> file_store \<Rightarrow> string \<Rightarrow> i64 \<Rightarrow> file_store store_result" where
  "file_mark_armed S store hold_id at_ms = file_mutate S store hold_id set_armed"

definition file_begin_decision ::
  "hold_codec \<Rightarrow> file_store \<Rightarrow> string \<Rightarrow> string \<Rightarrow> i64 \<Rightarrow> (store_error + held_action) \<times> file_store" where
  "file_begin_decision S store hold_id intent_event_id cas_instant_ms =
     (case bt_get (fi_holds store) hold_id of
        None \<Rightarrow> (Inl (HsNotFound hold_id), store)
      | Some hold \<Rightarrow>
          (case tr_begin hold intent_event_id cas_instant_ms of
             (False, _) \<Rightarrow> (Inl (HsNotDecidable hold_id hold), store)
           | (True, claimed) \<Rightarrow>
               (case persist S (put_cache store hold_id claimed) claimed of
                  (Inl e, store') \<Rightarrow> (Inl e, store')
                | (Inr _, store') \<Rightarrow> (Inr claimed, store'))))"

definition file_abandon_decision ::
  "hold_codec \<Rightarrow> file_store \<Rightarrow> string \<Rightarrow> string \<Rightarrow> file_store store_result" where
  "file_abandon_decision S store hold_id intent_event_id =
     (case bt_get (fi_holds store) hold_id of
        None \<Rightarrow> (Inr (), store)
      | Some hold \<Rightarrow>
          (case tr_abandon hold intent_event_id of
             (True, freed) \<Rightarrow> persist S (put_cache store hold_id freed) freed
           | (False, _) \<Rightarrow> (Inr (), store)))"

definition file_complete_decision ::
  "hold_codec \<Rightarrow> file_store \<Rightarrow> string \<Rightarrow> hold_decision_record \<Rightarrow> hold_state \<Rightarrow>
   file_store store_result" where
  "file_complete_decision S store hold_id decision state =
     file_mutate S store hold_id (\<lambda>hold. tr_complete hold decision state)"

text \<open>
  The loop over \<^verbatim>\<open>values_mut\<close>: an entry that changes is persisted at once, and a failing
  write ends the call with the entries after it untouched.
\<close>

fun file_sweep ::
  "hold_codec \<Rightarrow> (held_action \<Rightarrow> bool \<times> held_action) \<Rightarrow> (string \<times> held_action) list \<Rightarrow>
   held_action list \<Rightarrow> file_store \<Rightarrow> (store_error + held_action list) \<times> file_store" where
  "file_sweep S f [] acc store = (Inr acc, store)"
| "file_sweep S f ((hold_id, hold) # rest) acc store =
     (case f hold of
        (False, _) \<Rightarrow> file_sweep S f rest acc store
      | (True, hold') \<Rightarrow>
          (case persist S (put_cache store hold_id hold') hold' of
             (Inl e, store') \<Rightarrow> (Inl e, store')
           | (Inr _, store') \<Rightarrow> file_sweep S f rest (acc @ [hold']) store'))"

definition file_expire_due ::
  "hold_codec \<Rightarrow> file_store \<Rightarrow> i64 \<Rightarrow> (store_error + held_action list) \<times> file_store" where
  "file_expire_due S store now_ms =
     file_sweep S (\<lambda>hold. tr_expire hold now_ms) (fi_holds store) [] store"

definition file_fail_stalled_decisions ::
  "hold_codec \<Rightarrow> file_store \<Rightarrow> i64 \<Rightarrow> u64 \<Rightarrow> (store_error + held_action list) \<times> file_store" where
  "file_fail_stalled_decisions S store now_ms stall_ms =
     file_sweep S (\<lambda>hold. tr_fail_stalled hold now_ms stall_ms) (fi_holds store) [] store"

definition file_health :: "file_store \<Rightarrow> i64 \<Rightarrow> u64 \<Rightarrow> store_health" where
  "file_health store now_ms stall_ms =
     health_of_holds True ''local_files'' (fi_holds store) now_ms stall_ms"

end
