(* ===== verification/Hold_Contract.thy ===== *)
theory Hold_Contract
  imports Hold_Store
begin

text \<open>
  The store the configuration selects (\<^verbatim>\<open>ConfiguredHeldActionStore\<close>) and the contract of the
  trait \<^verbatim>\<open>HeldActionStore\<close> as the locale \<open>hold_store\<close>: what each method does to the holds a
  caller can see, whatever the file system answers. A method that returns a write error has
  still made its change visible, except \<open>create\<close>. The locale is interpreted on the memory
  backend, the file backend and the configured store.
\<close>

section \<open>The configured store\<close>

datatype configured_store = CfgMemory memory_store | CfgLocalFiles file_store

record hold_settings =
  hs_hold_store_path :: "string option"
  hs_hold_ttl_ms :: u64
  hs_hold_ttl_ms_by_threat_class :: "(string, u64) btree"
  hs_sweep_interval_ms :: u64
  hs_decide_stall_ms :: u64
  hs_refile_after_ms :: u64
  hs_governance_receipt_max_age_ms :: u64

definition hold_ttl_ms_for :: "hold_settings \<Rightarrow> string \<Rightarrow> u64" where
  "hold_ttl_ms_for settings slug =
     (case bt_get (hs_hold_ttl_ms_by_threat_class settings) slug of
        None \<Rightarrow> hs_hold_ttl_ms settings | Some ttl \<Rightarrow> ttl)"

text \<open>\<^verbatim>\<open>FileHeldActionStore::open\<close> on a directory is an argument: it reads the file system.\<close>

definition store_from_settings ::
  "hold_settings \<Rightarrow> string \<Rightarrow> (string \<Rightarrow> store_error + file_store) \<Rightarrow>
   store_error + configured_store" where
  "store_from_settings settings config_dir open_directory =
     (case Option.bind (hs_hold_store_path settings)
             (\<lambda>path. if trim path = [] then None else Some (trim path)) of
        None \<Rightarrow> Inr (CfgMemory memory_default)
      | Some path \<Rightarrow>
          let resolved = (if starts_with path ''/'' then path else config_dir @ ''/'' @ path)
          in (case open_directory resolved of
                Inl e \<Rightarrow> Inl e | Inr store \<Rightarrow> Inr (CfgLocalFiles store)))"

definition cfg_create ::
  "hold_codec \<Rightarrow> configured_store \<Rightarrow> held_action \<Rightarrow> configured_store store_result" where
  "cfg_create S store hold =
     (case store of
        CfgMemory m \<Rightarrow> apsnd CfgMemory (mem_create m hold)
      | CfgLocalFiles f \<Rightarrow> apsnd CfgLocalFiles (file_create S f hold))"

definition cfg_get :: "configured_store \<Rightarrow> string \<Rightarrow> held_action option" where
  "cfg_get store hold_id =
     (case store of CfgMemory m \<Rightarrow> mem_get m hold_id | CfgLocalFiles f \<Rightarrow> file_get f hold_id)"

definition cfg_list :: "configured_store \<Rightarrow> bool \<Rightarrow> usize \<Rightarrow> held_action list" where
  "cfg_list store include_terminal limit =
     (case store of
        CfgMemory m \<Rightarrow> mem_list m include_terminal limit
      | CfgLocalFiles f \<Rightarrow> file_list f include_terminal limit)"

definition cfg_mark_case_channel ::
  "hold_codec \<Rightarrow> configured_store \<Rightarrow> string \<Rightarrow> string \<Rightarrow> configured_store store_result" where
  "cfg_mark_case_channel S store hold_id case_channel =
     (case store of
        CfgMemory m \<Rightarrow> apsnd CfgMemory (mem_mark_case_channel m hold_id case_channel)
      | CfgLocalFiles f \<Rightarrow> apsnd CfgLocalFiles (file_mark_case_channel S f hold_id case_channel))"

definition cfg_mark_notified ::
  "hold_codec \<Rightarrow> configured_store \<Rightarrow> string \<Rightarrow> i64 \<Rightarrow> string \<Rightarrow> string option \<Rightarrow>
   configured_store store_result" where
  "cfg_mark_notified S store hold_id at_ms notice_event_id card_event_id =
     (case store of
        CfgMemory m \<Rightarrow>
          apsnd CfgMemory (mem_mark_notified m hold_id at_ms notice_event_id card_event_id)
      | CfgLocalFiles f \<Rightarrow>
          apsnd CfgLocalFiles (file_mark_notified S f hold_id at_ms notice_event_id card_event_id))"

definition cfg_mark_armed ::
  "hold_codec \<Rightarrow> configured_store \<Rightarrow> string \<Rightarrow> i64 \<Rightarrow> configured_store store_result" where
  "cfg_mark_armed S store hold_id at_ms =
     (case store of
        CfgMemory m \<Rightarrow> apsnd CfgMemory (mem_mark_armed m hold_id at_ms)
      | CfgLocalFiles f \<Rightarrow> apsnd CfgLocalFiles (file_mark_armed S f hold_id at_ms))"

definition cfg_begin_decision ::
  "hold_codec \<Rightarrow> configured_store \<Rightarrow> string \<Rightarrow> string \<Rightarrow> i64 \<Rightarrow>
   (store_error + held_action) \<times> configured_store" where
  "cfg_begin_decision S store hold_id intent_event_id cas_instant_ms =
     (case store of
        CfgMemory m \<Rightarrow>
          apsnd CfgMemory (mem_begin_decision m hold_id intent_event_id cas_instant_ms)
      | CfgLocalFiles f \<Rightarrow>
          apsnd CfgLocalFiles (file_begin_decision S f hold_id intent_event_id cas_instant_ms))"

definition cfg_abandon_decision ::
  "hold_codec \<Rightarrow> configured_store \<Rightarrow> string \<Rightarrow> string \<Rightarrow> configured_store store_result" where
  "cfg_abandon_decision S store hold_id intent_event_id =
     (case store of
        CfgMemory m \<Rightarrow> apsnd CfgMemory (mem_abandon_decision m hold_id intent_event_id)
      | CfgLocalFiles f \<Rightarrow> apsnd CfgLocalFiles (file_abandon_decision S f hold_id intent_event_id))"

definition cfg_complete_decision ::
  "hold_codec \<Rightarrow> configured_store \<Rightarrow> string \<Rightarrow> hold_decision_record \<Rightarrow> hold_state \<Rightarrow>
   configured_store store_result" where
  "cfg_complete_decision S store hold_id decision state =
     (case store of
        CfgMemory m \<Rightarrow> apsnd CfgMemory (mem_complete_decision m hold_id decision state)
      | CfgLocalFiles f \<Rightarrow> apsnd CfgLocalFiles (file_complete_decision S f hold_id decision state))"

definition cfg_expire_due ::
  "hold_codec \<Rightarrow> configured_store \<Rightarrow> i64 \<Rightarrow> (store_error + held_action list) \<times> configured_store" where
  "cfg_expire_due S store now_ms =
     (case store of
        CfgMemory m \<Rightarrow> apsnd CfgMemory (mem_expire_due m now_ms)
      | CfgLocalFiles f \<Rightarrow> apsnd CfgLocalFiles (file_expire_due S f now_ms))"

definition cfg_fail_stalled_decisions ::
  "hold_codec \<Rightarrow> configured_store \<Rightarrow> i64 \<Rightarrow> u64 \<Rightarrow>
   (store_error + held_action list) \<times> configured_store" where
  "cfg_fail_stalled_decisions S store now_ms stall_ms =
     (case store of
        CfgMemory m \<Rightarrow> apsnd CfgMemory (mem_fail_stalled_decisions m now_ms stall_ms)
      | CfgLocalFiles f \<Rightarrow> apsnd CfgLocalFiles (file_fail_stalled_decisions S f now_ms stall_ms))"

definition cfg_health :: "configured_store \<Rightarrow> i64 \<Rightarrow> u64 \<Rightarrow> store_health" where
  "cfg_health store now_ms stall_ms =
     (case store of
        CfgMemory m \<Rightarrow> mem_health m now_ms stall_ms
      | CfgLocalFiles f \<Rightarrow> file_health f now_ms stall_ms)"

section \<open>The contract\<close>

type_synonym hold_view = "string \<Rightarrow> held_action option"

fun write_error :: "store_error \<Rightarrow> bool" where
  "write_error (HsIo _ _) = True"
| "write_error (HsCorrupt _ _) = True"
| "write_error _ = False"

text \<open>One hold is changed by a function, whether or not the change could be written.\<close>

definition applied ::
  "('s \<Rightarrow> hold_view) \<Rightarrow> 's \<Rightarrow> string \<Rightarrow> (held_action \<Rightarrow> held_action) \<Rightarrow> 's store_result \<Rightarrow> bool" where
  "applied view s hold_id f out \<longleftrightarrow>
     (case view s hold_id of
        None \<Rightarrow> out = (Inl (HsNotFound hold_id), s)
      | Some h \<Rightarrow> view (snd out) = (view s)(hold_id \<mapsto> f h) \<and>
                  (\<forall>e. fst out = Inl e \<longrightarrow> write_error e))"

text \<open>
  A sweep changes each hold by the function or leaves it; it leaves none when it returns, and
  reports exactly the changed ones.
\<close>

definition swept ::
  "('s \<Rightarrow> hold_view) \<Rightarrow> 's \<Rightarrow> (held_action \<Rightarrow> bool \<times> held_action) \<Rightarrow>
   (store_error + held_action list) \<times> 's \<Rightarrow> bool" where
  "swept view s f out \<longleftrightarrow>
     (\<forall>i. view (snd out) i = view s i \<or> view (snd out) i = map_option (snd \<circ> f) (view s i)) \<and>
     (case fst out of
        Inl e \<Rightarrow> write_error e
      | Inr hs \<Rightarrow>
          (\<forall>i. view (snd out) i = map_option (snd \<circ> f) (view s i)) \<and>
          set hs = {snd (f h) |i h. view s i = Some h \<and> fst (f h)})"

locale hold_store =
  fixes view :: "'s \<Rightarrow> hold_view"
    and ok :: "'s \<Rightarrow> bool"
    and create :: "'s \<Rightarrow> held_action \<Rightarrow> 's store_result"
    and get :: "'s \<Rightarrow> string \<Rightarrow> held_action option"
    and listing :: "'s \<Rightarrow> bool \<Rightarrow> usize \<Rightarrow> held_action list"
    and mark_case_channel :: "'s \<Rightarrow> string \<Rightarrow> string \<Rightarrow> 's store_result"
    and mark_notified :: "'s \<Rightarrow> string \<Rightarrow> i64 \<Rightarrow> string \<Rightarrow> string option \<Rightarrow> 's store_result"
    and mark_armed :: "'s \<Rightarrow> string \<Rightarrow> i64 \<Rightarrow> 's store_result"
    and begin_decision :: "'s \<Rightarrow> string \<Rightarrow> string \<Rightarrow> i64 \<Rightarrow> (store_error + held_action) \<times> 's"
    and abandon_decision :: "'s \<Rightarrow> string \<Rightarrow> string \<Rightarrow> 's store_result"
    and complete_decision :: "'s \<Rightarrow> string \<Rightarrow> hold_decision_record \<Rightarrow> hold_state \<Rightarrow> 's store_result"
    and expire_due :: "'s \<Rightarrow> i64 \<Rightarrow> (store_error + held_action list) \<times> 's"
    and fail_stalled :: "'s \<Rightarrow> i64 \<Rightarrow> u64 \<Rightarrow> (store_error + held_action list) \<times> 's"
  assumes view_id: "\<And>s j h. ok s \<Longrightarrow> view s j = Some h \<Longrightarrow> ha_hold_id h = j"
    and get_law: "\<And>s j. ok s \<Longrightarrow> get s j = view s j"
    and create_done: "\<And>s h s'. ok s \<Longrightarrow> create s h = (Inr (), s') \<Longrightarrow>
          view s (ha_hold_id h) = None \<and> view s' = (view s)(ha_hold_id h \<mapsto> h)"
    and create_refused: "\<And>s h e s'. ok s \<Longrightarrow> create s h = (Inl e, s') \<Longrightarrow>
          view s' = view s \<and> (if view s (ha_hold_id h) = None then write_error e
                              else e = HsDuplicate (ha_hold_id h))"
    and case_channel_law: "\<And>s j c. ok s \<Longrightarrow>
          applied view s j (set_case_channel c) (mark_case_channel s j c)"
    and notified_law: "\<And>s j t n k. ok s \<Longrightarrow>
          applied view s j (set_notified t n k) (mark_notified s j t n k)"
    and armed_law: "\<And>s j t. ok s \<Longrightarrow> applied view s j set_armed (mark_armed s j t)"
    and complete_law: "\<And>s j d st. ok s \<Longrightarrow>
          applied view s j (\<lambda>h. tr_complete h d st) (complete_decision s j d st)"
    and begin_missing: "\<And>s j i t. ok s \<Longrightarrow> view s j = None \<Longrightarrow>
          begin_decision s j i t = (Inl (HsNotFound j), s)"
    and begin_refused: "\<And>s j i t h. ok s \<Longrightarrow> view s j = Some h \<Longrightarrow>
          assert_decidable h t \<noteq> Inr () \<Longrightarrow> begin_decision s j i t = (Inl (HsNotDecidable j h), s)"
    and begin_claims: "\<And>s j i t h. ok s \<Longrightarrow> view s j = Some h \<Longrightarrow> assert_decidable h t = Inr () \<Longrightarrow>
          view (snd (begin_decision s j i t)) = (view s)(j \<mapsto> snd (tr_begin h i t)) \<and>
          (case fst (begin_decision s j i t) of
             Inl e \<Rightarrow> write_error e | Inr claimed \<Rightarrow> claimed = snd (tr_begin h i t))"
    and abandon_missing: "\<And>s j i. ok s \<Longrightarrow> view s j = None \<Longrightarrow>
          abandon_decision s j i = (Inr (), s)"
    and abandon_law: "\<And>s j i h. ok s \<Longrightarrow> view s j = Some h \<Longrightarrow>
          view (snd (abandon_decision s j i)) = (view s)(j \<mapsto> snd (tr_abandon h i)) \<and>
          (\<forall>e. fst (abandon_decision s j i) = Inl e \<longrightarrow> write_error e)"
    and expire_law: "\<And>s t. ok s \<Longrightarrow> swept view s (\<lambda>h. tr_expire h t) (expire_due s t)"
    and stalled_law: "\<And>s t m. ok s \<Longrightarrow>
          swept view s (\<lambda>h. tr_fail_stalled h t m) (fail_stalled s t m)"
    and list_sorted: "\<And>s b n. ok s \<Longrightarrow> sorted (map hold_sort_key (listing s b n))"
    and list_limit: "\<And>s b n. ok s \<Longrightarrow> length (listing s b n) \<le> n"
    and list_sound: "\<And>s b n h. ok s \<Longrightarrow> h \<in> set (listing s b n) \<Longrightarrow>
          view s (ha_hold_id h) = Some h \<and> (b \<or> \<not> hold_is_terminal h)"
    and list_complete: "\<And>s b n h j. ok s \<Longrightarrow> length (listing s b n) < n \<Longrightarrow>
          view s j = Some h \<Longrightarrow> b \<or> \<not> hold_is_terminal h \<Longrightarrow> h \<in> set (listing s b n)"
    and ok_create: "\<And>s h. ok s \<Longrightarrow> ok (snd (create s h))"
    and ok_case_channel: "\<And>s j c. ok s \<Longrightarrow> ok (snd (mark_case_channel s j c))"
    and ok_notified: "\<And>s j t n k. ok s \<Longrightarrow> ok (snd (mark_notified s j t n k))"
    and ok_armed: "\<And>s j t. ok s \<Longrightarrow> ok (snd (mark_armed s j t))"
    and ok_begin: "\<And>s j i t. ok s \<Longrightarrow> ok (snd (begin_decision s j i t))"
    and ok_abandon: "\<And>s j i. ok s \<Longrightarrow> ok (snd (abandon_decision s j i))"
    and ok_complete: "\<And>s j d st. ok s \<Longrightarrow> ok (snd (complete_decision s j d st))"
    and ok_expire: "\<And>s t. ok s \<Longrightarrow> ok (snd (expire_due s t))"
    and ok_stalled: "\<And>s t m. ok s \<Longrightarrow> ok (snd (fail_stalled s t m))"
    and list_distinct: "\<And>s b n. ok s \<Longrightarrow> distinct (map ha_hold_id (listing s b n))"

section \<open>Both backends keep the contract\<close>

definition holds_ok :: "holds \<Rightarrow> bool" where
  "holds_ok m \<longleftrightarrow> bt_ok m \<and> (\<forall>j h. bt_get m j = Some h \<longrightarrow> ha_hold_id h = j)"

lemma holds_ok_get: "holds_ok m \<Longrightarrow> bt_get m j = Some h \<Longrightarrow> ha_hold_id h = j"
  by (simp add: holds_ok_def)

lemma holds_ok_Nil [simp]: "holds_ok []"
  by (simp add: holds_ok_def)

lemma holds_ok_insert [simp, intro]:
  "holds_ok m \<Longrightarrow> ha_hold_id h = j \<Longrightarrow> holds_ok (bt_insert j h m)"
  by (auto simp: holds_ok_def)

lemma holds_ok_map [simp, intro]:
  "holds_ok m \<Longrightarrow> (\<And>h. ha_hold_id (f h) = ha_hold_id h) \<Longrightarrow> holds_ok (bt_map (\<lambda>_. f) m)"
  by (auto simp: holds_ok_def)

lemma tr_begin_iff: "fst (tr_begin h i t) \<longleftrightarrow> assert_decidable h t = Inr ()"
  by (simp add: tr_begin_def split: sum.split)

lemma tr_begin_cases:
  obtains "assert_decidable h t \<noteq> Inr ()" "tr_begin h i t = (False, h)"
  | h' where "assert_decidable h t = Inr ()" "tr_begin h i t = (True, h')"
      "ha_hold_id h' = ha_hold_id h"
  by (cases "assert_decidable h t") (auto simp: tr_begin_def)

lemma list_of_holds_facts:
  assumes "holds_ok m"
  shows "sorted (map hold_sort_key (list_of_holds m b n))"
    and "length (list_of_holds m b n) \<le> n"
    and "h \<in> set (list_of_holds m b n) \<Longrightarrow>
           bt_get m (ha_hold_id h) = Some h \<and> (b \<or> \<not> hold_is_terminal h)"
    and "length (list_of_holds m b n) < n \<Longrightarrow> bt_get m j = Some h \<Longrightarrow>
           b \<or> \<not> hold_is_terminal h \<Longrightarrow> h \<in> set (list_of_holds m b n)"
proof -
  have get: "v \<in> set (bt_values m) \<longleftrightarrow> (\<exists>k. bt_get m k = Some v)" for v
    using assms by (simp add: holds_ok_def bt_values_get)
  show "sorted (map hold_sort_key (list_of_holds m b n))"
    by (simp add: list_of_holds_def take_map [symmetric] sorted_wrt_take)
  show "length (list_of_holds m b n) \<le> n" by (simp add: list_of_holds_def)
  show "bt_get m (ha_hold_id h) = Some h \<and> (b \<or> \<not> hold_is_terminal h)"
    if "h \<in> set (list_of_holds m b n)"
  proof -
    have "h \<in> set (bt_values m)" "b \<or> \<not> hold_is_terminal h"
      using that by (auto simp: list_of_holds_def dest!: in_set_takeD)
    then show ?thesis using get holds_ok_get [OF assms] by metis
  qed
  show "h \<in> set (list_of_holds m b n)"
    if "length (list_of_holds m b n) < n" "bt_get m j = Some h" "b \<or> \<not> hold_is_terminal h"
    using that get by (auto simp: list_of_holds_def)
qed

lemma list_of_holds_distinct:
  assumes "holds_ok m"
  shows "distinct (map ha_hold_id (list_of_holds m b n))"
proof -
  have ok: "bt_ok m" using assms by (simp add: holds_ok_def)
  have "ha_hold_id h = j" if "(j, h) \<in> set m" for j h
    using that bt_ok_distinct [OF ok] holds_ok_get [OF assms] by (simp add: bt_get_def)
  then have "map ha_hold_id (bt_values m) = map fst m" by (auto simp: bt_values_def)
  then have "distinct (map ha_hold_id (filter P (bt_values m)))" for P
    using bt_ok_distinct [OF ok] by (metis distinct_map_filter)
  then have "distinct (map ha_hold_id (sort_key hold_sort_key (filter P (bt_values m))))" for P
    by (metis mset_map mset_sort mset_eq_imp_distinct_iff)
  then show ?thesis by (simp add: list_of_holds_def take_map [symmetric] distinct_take)
qed

lemma changed_holds_set:
  "bt_ok m \<Longrightarrow>
   set (changed_holds f (bt_values m)) = {snd (f h) |i h. bt_get m i = Some h \<and> fst (f h)}"
  by (auto simp: changed_holds_def bt_values_get)

lemma idle_sweep: "\<not> fst (tr_expire h t) \<Longrightarrow> snd (tr_expire h t) = h"
  "\<not> fst (tr_fail_stalled h t m) \<Longrightarrow> snd (tr_fail_stalled h t m) = h"
  by (auto simp: tr_expire_def tr_fail_stalled_def)

subsection \<open>Memory\<close>

lemma mem_with_hold_applied:
  "applied mem_get s j f (mem_with_hold s j f)"
  by (auto simp: applied_def mem_with_hold_def mem_get_def fun_eq_iff split: option.split)

lemma mem_with_hold_ok:
  "holds_ok (ms_holds s) \<Longrightarrow> (\<And>h. ha_hold_id (f h) = ha_hold_id h) \<Longrightarrow>
   holds_ok (ms_holds (snd (mem_with_hold s j f)))"
  by (auto simp: mem_with_hold_def holds_ok_get split: option.split)

lemma mem_sweep_swept:
  "holds_ok (ms_holds s) \<Longrightarrow> swept mem_get s f (mem_sweep s f)"
  by (simp add: swept_def mem_sweep_def mem_get_def changed_holds_set holds_ok_def comp_def)

lemma mem_sweep_ok:
  "holds_ok (ms_holds s) \<Longrightarrow> (\<And>h. ha_hold_id (snd (f h)) = ha_hold_id h) \<Longrightarrow>
   holds_ok (ms_holds (snd (mem_sweep s f)))"
  by (auto simp: mem_sweep_def)

lemmas memory_ops = mem_mark_case_channel_def mem_mark_notified_def mem_mark_armed_def
  mem_complete_decision_def mem_expire_due_def mem_fail_stalled_decisions_def

interpretation memory: hold_store mem_get "\<lambda>s. holds_ok (ms_holds s)" mem_create mem_get mem_list
  mem_mark_case_channel mem_mark_notified mem_mark_armed mem_begin_decision mem_abandon_decision
  mem_complete_decision mem_expire_due mem_fail_stalled_decisions
proof (unfold_locales, goal_cases)
  case (10 s j i t h)
  then show ?case
    by (cases rule: tr_begin_cases [of h t i]) (simp_all add: mem_begin_decision_def mem_get_def)
next
  case (11 s j i t h)
  then show ?case
    by (cases rule: tr_begin_cases [of h t i]) (simp_all add: mem_begin_decision_def mem_get_def fun_eq_iff)
next
  case (24 s j i t)
  show ?case
  proof (cases "bt_get (ms_holds s) j")
    case (Some h)
    with 24 show ?thesis
      by (cases rule: tr_begin_cases [of h t i]) (auto simp: mem_begin_decision_def holds_ok_get)
  qed (simp add: 24 mem_begin_decision_def)
qed (auto simp: mem_get_def mem_create_def mem_list_def memory_ops mem_begin_decision_def
    mem_abandon_decision_def holds_ok_get mem_with_hold_applied mem_with_hold_ok
    mem_sweep_swept mem_sweep_ok fun_eq_iff list_of_holds_facts list_of_holds_distinct
    split: if_splits option.splits)

subsection \<open>Files\<close>

lemma persist_frame [simp]:
  "fi_holds (snd (persist S s h)) = fi_holds s"
  by (simp add: persist_def Let_def split: sum.split write_outcome.split option.split)

lemma persist_error: "fst (persist S s h) = Inl e \<Longrightarrow> write_error e"
  by (auto simp: persist_def Let_def split: sum.splits write_outcome.splits)

lemma persistD:
  "persist S s h = (r, s') \<Longrightarrow> fi_holds s' = fi_holds s \<and> (\<forall>e. r = Inl e \<longrightarrow> write_error e)"
  using persist_frame [of S s h] persist_error [of S s h] by simp

lemma file_get_fun: "file_get s = bt_get (fi_holds s)"
  by (rule ext) (simp add: file_get_def)

lemma fi_holds_put_cache [simp]: "fi_holds (put_cache s j h) = bt_insert j h (fi_holds s)"
  by (simp add: put_cache_def)

lemma file_mutate_applied: "applied file_get s j f (file_mutate S s j f)"
  by (auto simp: applied_def file_mutate_def file_get_def fun_eq_iff dest: persist_error
      split: option.split)

lemma file_mutate_ok:
  "holds_ok (fi_holds s) \<Longrightarrow> (\<And>h. ha_hold_id (f h) = ha_hold_id h) \<Longrightarrow>
   holds_ok (fi_holds (snd (file_mutate S s j f)))"
  by (auto simp: file_mutate_def holds_ok_get split: option.split)

text \<open>
  The loop started on the entries \<open>ms\<close> with the changed holds \<open>acc\<close> so far: what it does to
  the entries of \<open>ms\<close>, the others being left alone.
\<close>

definition loop_post where
  "loop_post f ms acc s out \<longleftrightarrow>
     (\<forall>j. bt_get ms j = None \<longrightarrow> bt_get (fi_holds (snd out)) j = bt_get (fi_holds s) j) \<and>
     (\<forall>j h. bt_get ms j = Some h \<longrightarrow>
        bt_get (fi_holds (snd out)) j = Some h \<or> bt_get (fi_holds (snd out)) j = Some (snd (f h))) \<and>
     (case fst out of
        Inl e \<Rightarrow> write_error e
      | Inr hs \<Rightarrow> hs = acc @ changed_holds f (bt_values ms) \<and>
          (\<forall>j h. bt_get ms j = Some h \<longrightarrow> bt_get (fi_holds (snd out)) j = Some (snd (f h))))"

lemma loop_post_skip:
  "loop_post f ms acc s out \<Longrightarrow> \<not> fst (f h) \<Longrightarrow> snd (f h) = h \<Longrightarrow> bt_get ms j = None \<Longrightarrow>
   bt_get (fi_holds s) j = Some h \<Longrightarrow> loop_post f ((j, h) # ms) acc s out"
  by (auto simp: loop_post_def changed_holds_def bt_values_def split: sum.splits)

lemma loop_post_step:
  "loop_post f ms (acc @ [snd (f h)]) s1 out \<Longrightarrow> fst (f h) \<Longrightarrow> bt_get ms j = None \<Longrightarrow>
   fi_holds s1 = bt_insert j (snd (f h)) (fi_holds s) \<Longrightarrow> loop_post f ((j, h) # ms) acc s out"
  by (auto simp: loop_post_def changed_holds_def bt_values_def split: sum.splits)

lemma loop_post_stop:
  assumes "\<And>i g. bt_get ms i = Some g \<Longrightarrow> bt_get (fi_holds s) i = Some g"
    and "fi_holds s1 = bt_insert j (snd (f h)) (fi_holds s)" "write_error e"
  shows "loop_post f ((j, h) # ms) acc s (Inl e, s1)"
  using assms by (auto simp: loop_post_def)

lemma file_sweep_loop:
  assumes "bt_ok ms" "\<And>j h. bt_get ms j = Some h \<Longrightarrow> bt_get (fi_holds s) j = Some h"
    and idle: "\<And>h. \<not> fst (f h) \<Longrightarrow> snd (f h) = h"
  shows "loop_post f ms acc s (file_sweep S f ms acc s)"
  using assms(1,2)
proof (induction ms arbitrary: acc s)
  case (Cons entry ms)
  obtain j h where entry: "entry = (j, h)" by (cases entry)
  have ok: "bt_ok ms" "bt_get ms j = None"
    using Cons.prems(1) by (auto simp: entry dest: bt_ok_ConsD)
  have here: "bt_get (fi_holds s) j = Some h" using Cons.prems(2) [of j h] by (simp add: entry)
  have rest: "bt_get (fi_holds s) i = Some g" if "bt_get ms i = Some g" for i g
    using Cons.prems(2) [of i g] that ok by (cases "i = j") (auto simp: entry)
  obtain b h' where fh: "f h = (b, h')" by (cases "f h")
  obtain q s1 where p: "persist S (put_cache s j h') h' = (q, s1)" by fastforce
  have s1: "fi_holds s1 = bt_insert j (snd (f h)) (fi_holds s)"
    using p persist_frame [of S "put_cache s j h'" h'] fh by simp
  have IH: "loop_post f ms acc s (file_sweep S f ms acc s)" using Cons.IH ok rest by blast
  have IH1: "loop_post f ms acc' s1 (file_sweep S f ms acc' s1)" for acc'
    using Cons.IH [of s1] ok rest s1 by fastforce
  show ?case
  proof (cases b)
    case False
    then show ?thesis
      using loop_post_skip [OF IH, of h j] idle [of h] fh ok here by (simp add: entry)
  next
    case True
    show ?thesis
    proof (cases q)
      case (Inl e)
      then show ?thesis
        using True p fh persist_error [of S "put_cache s j h'" h' e]
          loop_post_stop [where f = f and h = h, OF rest s1] by (simp add: entry)
    next
      case (Inr u)
      then show ?thesis
        using True p fh loop_post_step [where f = f and h = h, OF IH1 _ ok(2) s1] by (simp add: entry)
    qed
  qed
qed (simp add: loop_post_def changed_holds_def bt_values_def)

lemma file_sweep_swept:
  assumes "holds_ok (fi_holds s)" "\<And>h. \<not> fst (f h) \<Longrightarrow> snd (f h) = h"
  shows "swept file_get s f (file_sweep S f (fi_holds s) [] s)"
proof -
  have "loop_post f (fi_holds s) [] s (file_sweep S f (fi_holds s) [] s)"
    using assms by (intro file_sweep_loop) (simp_all add: holds_ok_def)
  then have post: "loop_post f (fi_holds s) [] s out" if "out = file_sweep S f (fi_holds s) [] s" for out
    using that by simp
  have all: "bt_get (fi_holds s') j = bt_get (fi_holds s) j \<or>
             bt_get (fi_holds s') j = map_option (snd \<circ> f) (bt_get (fi_holds s) j)"
    if "(r, s') = file_sweep S f (fi_holds s) [] s" for r s' j
    using post [OF that] by (cases "bt_get (fi_holds s) j") (auto simp: loop_post_def)
  have full: "bt_get (fi_holds s') j = map_option (snd \<circ> f) (bt_get (fi_holds s) j)"
    if "(Inr hs, s') = file_sweep S f (fi_holds s) [] s" for hs s' j
    using post [OF that] by (cases "bt_get (fi_holds s) j") (auto simp: loop_post_def)
  obtain r s' where out: "file_sweep S f (fi_holds s) [] s = (r, s')" by fastforce
  show ?thesis
  proof (cases r)
    case (Inl e)
    then show ?thesis
      using all [of r s'] post [of "(r, s')"] out by (simp add: swept_def loop_post_def file_get_def)
  next
    case (Inr hs)
    then show ?thesis
      using all [of r s'] full [of hs s'] post [of "(r, s')"] out assms(1)
      by (simp add: swept_def loop_post_def file_get_def changed_holds_set holds_ok_def)
  qed
qed

lemma file_sweep_ok:
  assumes "holds_ok (fi_holds s)" "\<And>h. ha_hold_id (snd (f h)) = ha_hold_id h"
    and "bt_ok ms" "\<And>j h. bt_get ms j = Some h \<Longrightarrow> ha_hold_id h = j"
  shows "holds_ok (fi_holds (snd (file_sweep S f ms acc s)))"
  using assms(1,3,4)
proof (induction ms arbitrary: acc s)
  case (Cons entry ms)
  obtain j h where entry: "entry = (j, h)" by (cases entry)
  obtain b h' where fh: "f h = (b, h')" by (cases "f h")
  have ok: "bt_ok ms" "bt_get ms j = None"
    using Cons.prems(2) by (auto simp: entry dest: bt_ok_ConsD)
  have rest: "ha_hold_id g = i" if "bt_get ms i = Some g" for i g
    using Cons.prems(3) [of i g] that ok by (cases "i = j") (auto simp: entry)
  have "ha_hold_id h' = j" using assms(2) [of h] fh Cons.prems(3) [of j h] by (simp add: entry)
  then have "holds_ok (bt_insert j h' (fi_holds s))" using Cons.prems(1) by auto
  then show ?case
    using Cons.IH ok(1) rest Cons.prems(1) fh
    by (auto simp: entry dest!: persistD split: prod.split sum.split bool.split)
qed simp

lemmas file_ops = file_mark_case_channel_def file_mark_notified_def file_mark_armed_def
  file_complete_decision_def file_expire_due_def file_fail_stalled_decisions_def

interpretation files: hold_store file_get "\<lambda>s. holds_ok (fi_holds s)" "file_create S" file_get
  file_list "file_mark_case_channel S" "file_mark_notified S" "file_mark_armed S"
  "file_begin_decision S" "file_abandon_decision S" "file_complete_decision S"
  "file_expire_due S" "file_fail_stalled_decisions S" for S
proof (unfold_locales, goal_cases)
  case (1 s j h)
  then show ?case by (simp add: file_get_def holds_ok_get)
next
  case (3 s h s')
  then show ?case
    by (auto simp: file_create_def file_get_fun dest!: persistD split: if_splits prod.splits sum.splits)
next
  case (4 s h e s')
  then show ?case
    by (auto simp: file_create_def file_get_fun dest!: persistD split: if_splits prod.splits sum.splits)
next
  case (10 s j i t h)
  then show ?case
    by (cases rule: tr_begin_cases [of h t i]) (simp_all add: file_begin_decision_def file_get_def)
next
  case (11 s j i t h)
  then show ?case
    by (cases rule: tr_begin_cases [of h t i])
      (auto simp: file_begin_decision_def file_get_fun dest!: persistD split: prod.split sum.split)
next
  case (13 s j i h)
  then show ?case
    by (cases "fst (tr_abandon h i)")
      (auto simp: file_abandon_decision_def file_get_fun tr_abandon_def dest: persist_error)
next
  case (20 s h)
  then show ?case
    by (auto simp: file_create_def dest!: persistD split: prod.split sum.split)
next
  case (24 s j i t)
  show ?case
  proof (cases "bt_get (fi_holds s) j")
    case (Some h)
    with 24 show ?thesis
      by (cases rule: tr_begin_cases [of h t i])
        (auto simp: file_begin_decision_def holds_ok_get dest!: persistD split: prod.split sum.split)
  qed (simp add: 24 file_begin_decision_def)
next
  case (25 s j i)
  then show ?case
    by (cases "bt_get (fi_holds s) j")
      (auto simp: file_abandon_decision_def tr_abandon_def holds_ok_get)
next
  case (14 s t)
  then show ?case unfolding file_ops by (intro file_sweep_swept) (auto simp: idle_sweep)
next
  case (15 s t m)
  then show ?case unfolding file_ops by (intro file_sweep_swept) (auto simp: idle_sweep)
next
  case (27 s t)
  then show ?case unfolding file_ops by (intro file_sweep_ok) (auto simp: holds_ok_def)
next
  case (28 s t m)
  then show ?case unfolding file_ops by (intro file_sweep_ok) (auto simp: holds_ok_def)
qed (simp_all add: file_get_def file_list_def file_ops file_begin_decision_def
    file_abandon_decision_def file_mutate_applied file_mutate_ok list_of_holds_facts
    list_of_holds_distinct)

subsection \<open>The configured store\<close>

fun cfg_ok :: "configured_store \<Rightarrow> bool" where
  "cfg_ok (CfgMemory m) = holds_ok (ms_holds m)"
| "cfg_ok (CfgLocalFiles f) = holds_ok (fi_holds f)"

lemma cfg_get_simps [simp]:
  "cfg_get (CfgMemory m) = mem_get m" "cfg_get (CfgLocalFiles f) = file_get f"
  by (simp_all add: cfg_get_def fun_eq_iff)

lemma applied_lift:
  "(\<And>s. view' (C s) = view s) \<Longrightarrow> applied view s j f out \<Longrightarrow> applied view' (C s) j f (apsnd C out)"
  by (cases out) (auto simp: applied_def split: option.splits)

lemma swept_lift:
  "(\<And>s. view' (C s) = view s) \<Longrightarrow> swept view s f out \<Longrightarrow> swept view' (C s) f (apsnd C out)"
  by (cases out; cases "fst out") (simp_all add: swept_def)

lemma apsnd_eq_Pair: "apsnd C p = (r, s') \<longleftrightarrow> (\<exists>t. p = (r, t) \<and> s' = C t)"
  by (cases p) auto

lemmas cfg_defs = cfg_create_def cfg_list_def cfg_mark_case_channel_def cfg_mark_notified_def
  cfg_mark_armed_def cfg_begin_decision_def cfg_abandon_decision_def cfg_complete_decision_def
  cfg_expire_due_def cfg_fail_stalled_decisions_def

lemmas memory_rules = memory.begin_missing memory.begin_refused memory.abandon_missing
  memory.list_sorted memory.list_limit memory.list_distinct memory.ok_create memory.ok_case_channel memory.ok_notified
  memory.ok_armed memory.ok_begin memory.ok_abandon memory.ok_complete memory.ok_expire
  memory.ok_stalled

lemmas file_rules = files.begin_missing files.begin_refused files.abandon_missing
  files.list_sorted files.list_limit files.list_distinct files.ok_create files.ok_case_channel files.ok_notified
  files.ok_armed files.ok_begin files.ok_abandon files.ok_complete files.ok_expire
  files.ok_stalled

lemmas memory_applied = memory.case_channel_law memory.notified_law memory.armed_law
  memory.complete_law

lemmas file_applied = files.case_channel_law files.notified_law files.armed_law
  files.complete_law

interpretation configured: hold_store cfg_get cfg_ok "cfg_create S" cfg_get cfg_list
  "cfg_mark_case_channel S" "cfg_mark_notified S" "cfg_mark_armed S" "cfg_begin_decision S"
  "cfg_abandon_decision S" "cfg_complete_decision S" "cfg_expire_due S"
  "cfg_fail_stalled_decisions S" for S
proof (unfold_locales, goal_cases)
  case (1 s j h)
  then show ?case by (cases s) (auto dest: memory.view_id files.view_id)
next
  case (3 s h s')
  then show ?case
    by (cases s) (auto simp: cfg_defs apsnd_eq_Pair dest: memory.create_done files.create_done)
next
  case (4 s h e s')
  then show ?case
    by (cases s) (auto simp: cfg_defs apsnd_eq_Pair dest: memory.create_refused files.create_refused)
next
  case (18 s b n h)
  then show ?case by (cases s) (auto simp: cfg_defs dest: memory.list_sound files.list_sound)
next
  case (19 s b n h j)
  then show ?case
    by (cases s) (auto simp: cfg_defs intro: memory.list_complete files.list_complete)
next
  case (5 s j c) then show ?case
    by (cases s) (auto simp: cfg_defs intro!: applied_lift memory_applied file_applied)
next
  case (6 s j t n k) then show ?case
    by (cases s) (auto simp: cfg_defs intro!: applied_lift memory_applied file_applied)
next
  case (7 s j t) then show ?case
    by (cases s) (auto simp: cfg_defs intro!: applied_lift memory_applied file_applied)
next
  case (8 s j d st) then show ?case
    by (cases s) (auto simp: cfg_defs intro!: applied_lift memory_applied file_applied)
next
  case (14 s t) then show ?case
    by (cases s) (auto simp: cfg_defs intro!: swept_lift memory.expire_law files.expire_law)
next
  case (15 s t m) then show ?case
    by (cases s) (auto simp: cfg_defs intro!: swept_lift memory.stalled_law files.stalled_law)
next
  case (11 s j i t h)
  then show ?case
    using memory.begin_claims files.begin_claims by (cases s) (simp_all add: cfg_defs)
next
  case (13 s j i h)
  then show ?case
    using memory.abandon_law files.abandon_law by (cases s) (simp_all add: cfg_defs)
qed (case_tac s; simp add: cfg_defs memory_rules file_rules)+

end
