(* ===== verification/Hold_Claims.thy ===== *)
theory Hold_Claims
  imports Hold_Contract
begin

text \<open>
  Decision claims (\<^verbatim>\<open>DecisionClaim\<close> of \<^verbatim>\<open>crates/swarm-runtime/src/held_action.rs\<close>) and what
  a daemon that serves holds does to its store. The step relation \<open>claim_step\<close> is the
  specification: the holds a caller can see and the claims that are live, moved by creations,
  marks, claims, completions, drops and sweeps in any order. Its invariant says who owns a
  hold that is being decided. The calls a daemon makes on the configured store, with claims
  taken and consumed as the code does, refine it whatever the file system answers.
\<close>

section \<open>The claim guard\<close>

record decision_claim =
  dc_hold_id :: string
  dc_intent_event_id :: string
  dc_claimed :: held_action
  dc_armed :: bool

definition claim_begin ::
  "hold_codec \<Rightarrow> configured_store \<Rightarrow> string \<Rightarrow> string \<Rightarrow> i64 \<Rightarrow>
   (store_error + decision_claim) \<times> configured_store" where
  "claim_begin S store hold_id intent_event_id cas_instant_ms =
     (case cfg_begin_decision S store hold_id intent_event_id cas_instant_ms of
        (Inl e, store') \<Rightarrow> (Inl e, store')
      | (Inr claimed, store') \<Rightarrow>
          (Inr \<lparr>dc_hold_id = hold_id, dc_intent_event_id = intent_event_id,
                dc_claimed = claimed, dc_armed = True\<rparr>, store'))"

text \<open>\<^verbatim>\<open>Drop\<close>: an error of the store is logged, the store is what the call left.\<close>

definition claim_drop ::
  "hold_codec \<Rightarrow> configured_store \<Rightarrow> decision_claim \<Rightarrow> configured_store" where
  "claim_drop S store claim =
     (if \<not> dc_armed claim then store
      else snd (cfg_abandon_decision S store (dc_hold_id claim) (dc_intent_event_id claim)))"

text \<open>\<^verbatim>\<open>complete\<close> consumes the guard: it is dropped, disarmed, when the call returns.\<close>

definition claim_complete ::
  "hold_codec \<Rightarrow> configured_store \<Rightarrow> decision_claim \<Rightarrow> hold_decision_record \<Rightarrow> hold_state \<Rightarrow>
   configured_store store_result" where
  "claim_complete S store claim decision state =
     (let claim = claim\<lparr>dc_armed := False\<rparr>;
          (r, store') = cfg_complete_decision S store (dc_hold_id claim) decision state
      in (r, claim_drop S store' claim))"

section \<open>Specification: holds and live claims\<close>

type_synonym claim_world = "hold_view \<times> (string \<times> string) list"

definition undecided :: "held_action \<Rightarrow> bool" where
  "undecided h \<longleftrightarrow>
     ha_decision h = None \<and> ha_deciding_intent_event_id h = None \<and>
     ha_cas_instant_ms h = None \<and> ha_prior_state h = None"

definition fresh_hold :: "held_action \<Rightarrow> bool" where
  "fresh_hold h \<longleftrightarrow> ha_state h = Created \<and> undecided h"

definition settled_state :: "hold_state \<Rightarrow> bool" where
  "settled_state st \<longleftrightarrow> st = Refused \<or> st = Executed \<or> st = HoldFailed"

inductive marked :: "held_action \<Rightarrow> held_action \<Rightarrow> bool" where
  "marked h (set_case_channel c h)"
| "marked h (set_notified t n k h)"
| "marked h (set_armed h)"

inductive claim_step :: "claim_world \<Rightarrow> claim_world \<Rightarrow> bool" where
  created: "v (ha_hold_id h) = None \<Longrightarrow> fresh_hold h \<Longrightarrow>
     claim_step (v, cs) (v(ha_hold_id h \<mapsto> h), cs)"
| marked: "v j = Some h \<Longrightarrow> marked h h' \<Longrightarrow> claim_step (v, cs) (v(j \<mapsto> h'), cs)"
| claimed: "v j = Some h \<Longrightarrow> assert_decidable h t = Inr () \<Longrightarrow>
     claim_step (v, cs) (v(j \<mapsto> snd (tr_begin h i t)), (j, i) # cs)"
| claim_unsaved: "v j = Some h \<Longrightarrow> assert_decidable h t = Inr () \<Longrightarrow>
     claim_step (v, cs) (v(j \<mapsto> snd (tr_begin h i t)), cs)"
| completed: "(j, i) \<in> set cs \<Longrightarrow> v j = Some h \<Longrightarrow> hd_nostr_intent_event_id d = i \<Longrightarrow>
     settled_state st \<Longrightarrow> claim_step (v, cs) (v(j \<mapsto> tr_complete h d st), remove1 (j, i) cs)"
| dropped: "(j, i) \<in> set cs \<Longrightarrow> v j = Some h \<Longrightarrow>
     claim_step (v, cs) (v(j \<mapsto> snd (tr_abandon h i)), remove1 (j, i) cs)"
| expiry: "(\<And>j. v' j = v j \<or> v' j = map_option (\<lambda>h. snd (tr_expire h t)) (v j)) \<Longrightarrow>
     claim_step (v, cs) (v', cs)"
| stall: "(\<And>j. v' j = v j \<or> v' j = map_option (\<lambda>h. snd (tr_fail_stalled h t m)) (v j)) \<Longrightarrow>
     claim_step (v, cs) (v', cs)"

subsection \<open>The invariant\<close>

text \<open>
  A hold's decision fields agree with its state; a live claim names a hold that is deciding
  under the claim's intent, or that the stall sweep resolved under it; no hold has two claims.
\<close>

definition hold_ok :: "held_action \<Rightarrow> bool" where
  "hold_ok h \<longleftrightarrow>
     ha_state h \<noteq> Granted \<and>
     (state_is_open (ha_state h) \<or> ha_state h = Expired \<longrightarrow> undecided h) \<and>
     (ha_state h = Deciding \<longrightarrow> ha_decision h = None \<and> ha_deciding_intent_event_id h \<noteq> None \<and>
        ha_cas_instant_ms h \<noteq> None \<and> (\<exists>p. ha_prior_state h = Some p \<and> state_is_open p)) \<and>
     (settled_state (ha_state h) \<longrightarrow> (\<exists>d. ha_decision h = Some d \<and>
        ha_deciding_intent_event_id h = Some (hd_nostr_intent_event_id d)))"

definition owns :: "string \<Rightarrow> held_action \<Rightarrow> bool" where
  "owns i h \<longleftrightarrow>
     (ha_state h = Deciding \<or> ha_state h = HoldFailed) \<and> ha_deciding_intent_event_id h = Some i"

definition claims_ok :: "claim_world \<Rightarrow> bool" where
  "claims_ok w \<longleftrightarrow>
     (\<forall>j h. fst w j = Some h \<longrightarrow> ha_hold_id h = j \<and> hold_ok h) \<and>
     distinct (map fst (snd w)) \<and>
     (\<forall>j i. (j, i) \<in> set (snd w) \<longrightarrow> (\<exists>h. fst w j = Some h \<and> owns i h))"

lemmas hold_ok_defs = hold_ok_def undecided_def settled_state_def

lemma hold_ok_marked: "marked h h' \<Longrightarrow> hold_ok h \<Longrightarrow> hold_ok h'"
  by (induction rule: marked.induct)
    (auto simp: hold_ok_defs set_case_channel_def set_notified_def set_armed_def Let_def)

lemma marked_owns: "marked h h' \<Longrightarrow> owns i h \<longleftrightarrow> owns i h'"
  by (induction rule: marked.induct)
    (auto simp: owns_def set_case_channel_def set_notified_def set_armed_def Let_def)

lemma marked_id: "marked h h' \<Longrightarrow> ha_hold_id h' = ha_hold_id h"
  by (induction rule: marked.induct) simp_all

lemma hold_ok_begin:
  assumes "assert_decidable h t = Inr ()" "hold_ok h"
  shows "hold_ok (snd (tr_begin h i t))"
proof -
  have "state_is_open (ha_state h)" using assms(1) by (simp only: assert_decidable_iff)
  then show ?thesis
    using assms(2) by (cases "ha_state h") (simp_all add: tr_begin_def assms(1) hold_ok_defs)
qed

lemma owns_begin: "assert_decidable h t = Inr () \<Longrightarrow> owns i (snd (tr_begin h i t))"
  by (simp add: tr_begin_def owns_def)

lemma hold_ok_abandon: "hold_ok h \<Longrightarrow> hold_ok (snd (tr_abandon h i))"
  by (cases "ha_state h") (auto simp: tr_abandon_def hold_ok_defs)

lemma hold_ok_complete:
  "owns i h \<Longrightarrow> hd_nostr_intent_event_id d = i \<Longrightarrow> settled_state st \<Longrightarrow> hold_ok (tr_complete h d st)"
  by (cases st) (simp_all add: tr_complete_def hold_ok_defs owns_def)

lemma hold_ok_expire: "hold_ok h \<Longrightarrow> hold_ok (snd (tr_expire h t))"
  by (cases "ha_state h") (simp_all add: tr_expire_def hold_ok_defs)

lemma owns_expire: "owns i h \<Longrightarrow> owns i (snd (tr_expire h t))"
  by (auto simp: tr_expire_def owns_def)

lemma hold_ok_fail_stalled: "hold_ok h \<Longrightarrow> hold_ok (snd (tr_fail_stalled h t m))"
  by (cases "ha_state h") (auto simp: tr_fail_stalled_def hold_ok_defs is_stalled_def stalled_record_def)

lemma owns_fail_stalled: "owns i h \<Longrightarrow> owns i (snd (tr_fail_stalled h t m))"
  by (auto simp: tr_fail_stalled_def owns_def)

lemma owned_not_decidable: "owns i h \<Longrightarrow> assert_decidable h t \<noteq> Inr ()"
  by (auto simp: owns_def assert_decidable_iff)

lemma claims_hold: "claims_ok (v, cs) \<Longrightarrow> v j = Some h \<Longrightarrow> ha_hold_id h = j \<and> hold_ok h"
  by (simp add: claims_ok_def)

lemma claims_distinct: "claims_ok (v, cs) \<Longrightarrow> distinct (map fst cs)"
  by (simp add: claims_ok_def)

lemma claims_owned: "claims_ok (v, cs) \<Longrightarrow> (j, i) \<in> set cs \<Longrightarrow> \<exists>h. v j = Some h \<and> owns i h"
  by (simp add: claims_ok_def)

lemma claims_owner: "claims_ok (v, cs) \<Longrightarrow> (j, i) \<in> set cs \<Longrightarrow> v j = Some h \<Longrightarrow> owns i h"
  using claims_owned by fastforce

lemma claims_okI:
  assumes "\<And>j h. v j = Some h \<Longrightarrow> ha_hold_id h = j" "\<And>j h. v j = Some h \<Longrightarrow> hold_ok h"
    and "distinct (map fst cs)" "\<And>j i. (j, i) \<in> set cs \<Longrightarrow> \<exists>h. v j = Some h \<and> owns i h"
  shows "claims_ok (v, cs)"
  using assms by (simp add: claims_ok_def)

text \<open>Changing one hold to an acceptable one that keeps the claim it is under.\<close>

lemma claims_ok_update:
  assumes ok: "claims_ok (v, cs)" and h: "v j = Some h" "ha_hold_id h' = ha_hold_id h" "hold_ok h'"
    and keep: "\<And>i. (j, i) \<in> set cs \<Longrightarrow> owns i h \<Longrightarrow> owns i h'"
  shows "claims_ok (v(j \<mapsto> h'), cs)"
proof (rule claims_okI)
  fix k i assume "(k, i) \<in> set cs"
  then show "\<exists>g. (v(j \<mapsto> h')) k = Some g \<and> owns i g"
    using claims_owned [OF ok, of k i] keep [of i] h(1) by (cases "k = j") auto
qed (use h claims_hold [OF ok] claims_distinct [OF ok] in \<open>auto split: if_splits\<close>)

lemma claims_ok_sweep:
  assumes ok: "claims_ok (v, cs)"
    and sweep: "\<And>j. v' j = v j \<or> v' j = map_option f (v j)"
    and keep: "\<And>h. hold_ok h \<Longrightarrow> hold_ok (f h)" "\<And>h. ha_hold_id (f h) = ha_hold_id h"
      "\<And>i h. owns i h \<Longrightarrow> owns i (f h)"
  shows "claims_ok (v', cs)"
proof (rule claims_okI)
  have origin: "\<exists>g. v j = Some g \<and> (h = g \<or> h = f g)" if "v' j = Some h" for j h
    using sweep [of j] that by (cases "v j") auto
  show "ha_hold_id h = j" "hold_ok h" if "v' j = Some h" for j h
    using origin [OF that] claims_hold [OF ok, of j] keep by auto
  show "\<exists>h. v' j = Some h \<and> owns i h" if "(j, i) \<in> set cs" for j i
    using claims_owned [OF ok that] sweep [of j] keep(3) by auto
qed (rule claims_distinct [OF ok])

lemma claims_ok_remove: "claims_ok (v, cs) \<Longrightarrow> claims_ok (v, remove1 c cs)"
  by (rule claims_okI) (auto simp: claims_ok_def distinct_map intro: inj_on_diff)

lemma remove1_claim:
  "distinct (map fst cs) \<Longrightarrow> (j, i) \<in> set cs \<Longrightarrow> (j, i') \<notin> set (remove1 (j, i) cs)"
  by (induction cs) (auto simp: rev_image_eqI)

lemma free_when_decidable:
  "claims_ok (v, cs) \<Longrightarrow> v j = Some h \<Longrightarrow> assert_decidable h t = Inr () \<Longrightarrow> (j, i) \<notin> set cs"
  using claims_owner owned_not_decidable by blast

lemma claims_ok_begin:
  "claims_ok (v, cs) \<Longrightarrow> v j = Some h \<Longrightarrow> assert_decidable h t = Inr () \<Longrightarrow>
   claims_ok (v(j \<mapsto> snd (tr_begin h i t)), cs)"
  using claims_hold [of v cs j h] free_when_decidable
  by (intro claims_ok_update) (auto simp: hold_ok_begin)

lemma claims_ok_claim:
  "claims_ok (v, cs) \<Longrightarrow> v j = Some h \<Longrightarrow> owns i h \<Longrightarrow> (\<And>k. (j, k) \<notin> set cs) \<Longrightarrow>
   claims_ok (v, (j, i) # cs)"
  by (rule claims_okI) (auto dest: claims_hold claims_distinct claims_owned)

lemma claim_step_ok: "claim_step w w' \<Longrightarrow> claims_ok w \<Longrightarrow> claims_ok w'"
proof (induction rule: claim_step.induct)
  case (created v h cs)
  have new: "hold_ok h" using created(2) by (simp add: fresh_hold_def hold_ok_defs)
  have "(ha_hold_id h, i) \<notin> set cs" for i
    using created(1) claims_owned [OF created(3), of "ha_hold_id h" i] by auto
  then show ?case
    using new claims_hold [OF created(3)] claims_distinct [OF created(3)]
      claims_owned [OF created(3)]
    by (intro claims_okI) (auto split: if_splits)
next
  case (marked v j h h' cs)
  with claims_hold [OF marked(3,1)] show ?case
    by (intro claims_ok_update [of v cs j h]) (auto simp: marked_id hold_ok_marked marked_owns)
next
  case (claimed v j h t cs i)
  note ok = claims_ok_begin [OF claimed(3,1,2), of i]
  show ?case
    by (rule claims_ok_claim [OF ok _ owns_begin [OF claimed(2)]])
      (simp_all add: free_when_decidable [OF claimed(3,1,2)])
next
  case (claim_unsaved v j h t cs i)
  then show ?case by (simp add: claims_ok_begin)
next
  case (completed j i cs v h d st)
  with claims_owner [OF completed(5,1,2)] claims_distinct [OF completed(5)] show ?case
    by (intro claims_ok_update [OF claims_ok_remove]) (auto simp: hold_ok_complete remove1_claim)
next
  case (dropped j i cs v h)
  with claims_hold [OF dropped(3,2)] claims_distinct [OF dropped(3)] show ?case
    by (intro claims_ok_update [OF claims_ok_remove]) (auto simp: hold_ok_abandon remove1_claim)
next
  case (expiry v' v t cs)
  show ?case
    by (rule claims_ok_sweep [OF expiry(2,1)]) (auto simp: hold_ok_expire owns_expire)
next
  case (stall v' v t m cs)
  show ?case
    by (rule claims_ok_sweep [OF stall(2,1)]) (auto simp: hold_ok_fail_stalled owns_fail_stalled)
qed

section \<open>Every store call is a step\<close>

text \<open>
  Proved once for any store that keeps the contract: what a caller sees after a call is what
  one step of the specification, or none, allows.
\<close>

context hold_store
begin

lemma create_steps:
  "ok s \<Longrightarrow> fresh_hold h \<Longrightarrow> claim_step\<^sup>*\<^sup>* (view s, cs) (view (snd (create s h)), cs)"
  using create_done [of s h] create_refused [of s h] claim_step.created [of "view s" h cs]
  by (cases "create s h"; cases "fst (create s h)") auto

lemma applied_steps:
  "applied view s j f out \<Longrightarrow> (\<And>h. marked h (f h)) \<Longrightarrow>
   claim_step\<^sup>*\<^sup>* (view s, cs) (view (snd out), cs)"
  using claim_step.marked [of "view s" j _ _ cs]
  by (cases "view s j") (auto simp: applied_def)

lemma mark_steps:
  "ok s \<Longrightarrow> claim_step\<^sup>*\<^sup>* (view s, cs) (view (snd (mark_case_channel s j c)), cs)"
  "ok s \<Longrightarrow> claim_step\<^sup>*\<^sup>* (view s, cs) (view (snd (mark_notified s j t n k)), cs)"
  "ok s \<Longrightarrow> claim_step\<^sup>*\<^sup>* (view s, cs) (view (snd (mark_armed s j t)), cs)"
  using applied_steps [OF case_channel_law] applied_steps [OF notified_law]
    applied_steps [OF armed_law] marked.intros by blast+

lemma begin_steps:
  assumes "ok s" "begin_decision s j i t = (r, s')"
  shows "claim_step\<^sup>*\<^sup>* (view s, cs)
           (view s', case r of Inl _ \<Rightarrow> cs | Inr _ \<Rightarrow> (j, i) # cs)"
proof (cases "view s j")
  case None
  then show ?thesis using begin_missing [of s j i t] assms by simp
next
  case (Some h)
  show ?thesis
  proof (cases "assert_decidable h t = Inr ()")
    case True
    then show ?thesis
      using begin_claims [OF assms(1) Some True, of i] assms(2)
        claim_step.claimed [of "view s" j h t cs i, OF Some True]
        claim_step.claim_unsaved [of "view s" j h t cs i, OF Some True]
      by (cases r) auto
  next
    case False
    then show ?thesis using begin_refused [OF assms(1) Some False, of i] assms(2) by simp
  qed
qed

lemma begin_claimed:
  assumes "ok s" "begin_decision s j i t = (Inr claimed, s')"
  shows "\<exists>h. view s j = Some h \<and> assert_decidable h t = Inr () \<and> claimed = snd (tr_begin h i t) \<and>
             view s' = (view s)(j \<mapsto> claimed)"
proof (cases "view s j")
  case None
  then show ?thesis using begin_missing [of s j i t] assms by simp
next
  case (Some h)
  then show ?thesis
    using begin_refused [OF assms(1) Some, of t i] begin_claims [OF assms(1) Some, of t i] assms(2)
    by (cases "assert_decidable h t = Inr ()") auto
qed

lemma complete_step:
  "ok s \<Longrightarrow> view s j = Some h \<Longrightarrow> (j, i) \<in> set cs \<Longrightarrow> hd_nostr_intent_event_id d = i \<Longrightarrow>
   settled_state st \<Longrightarrow>
   claim_step (view s, cs) (view (snd (complete_decision s j d st)), remove1 (j, i) cs)"
  using complete_law [of s j d st] claim_step.completed [of j i cs "view s" h d st]
  by (simp add: applied_def)

lemma abandon_step:
  "ok s \<Longrightarrow> view s j = Some h \<Longrightarrow> (j, i) \<in> set cs \<Longrightarrow>
   claim_step (view s, cs) (view (snd (abandon_decision s j i)), remove1 (j, i) cs)"
  using abandon_law [of s j h i] claim_step.dropped [of j i cs "view s" h] by simp

lemma expire_step: "ok s \<Longrightarrow> claim_step (view s, cs) (view (snd (expire_due s t)), cs)"
  using expire_law [of s t] by (intro claim_step.expiry [of _ _ t]) (simp add: swept_def comp_def)

lemma stalled_step: "ok s \<Longrightarrow> claim_step (view s, cs) (view (snd (fail_stalled s t m)), cs)"
  using stalled_law [of s t m] by (intro claim_step.stall [of _ _ t m]) (simp add: swept_def comp_def)

end

end
