(* ===== verification/Hold_System.thy ===== *)
theory Hold_System
  imports Hold_Claims
begin

text \<open>
  A daemon at work on its hold store: the calls that create, mark, claim, complete, drop and
  sweep holds, in any order, with the claims that are live. The run refines \<open>claim_step\<close>, which
  gives who may decide a hold and what can still happen to it.
\<close>

section \<open>What a hold can become\<close>

definition final_state :: "hold_state \<Rightarrow> bool" where
  "final_state st \<longleftrightarrow> st = Expired \<or> st = Refused \<or> st = Executed"

text \<open>
  The case a hold puts to the operator never changes; a final hold keeps all but the marks
  of its case channel and notice; a decision is only ever replaced by one of the same intent.
\<close>

definition unmarked :: "held_action \<Rightarrow> held_action" where
  "unmarked h = h\<lparr>ha_case_channel := None, ha_notified_at_ms := None, ha_notice_event_id := None, ha_card_event_id := None\<rparr>"

definition evolves :: "held_action \<Rightarrow> held_action \<Rightarrow> bool" where
  "evolves h h' \<longleftrightarrow>
     ha_hold_id h' = ha_hold_id h \<and> ha_action_request h' = ha_action_request h \<and>
     ha_policy_decision h' = ha_policy_decision h \<and> ha_held_at_ms h' = ha_held_at_ms h \<and>
     ha_expires_at_ms h' = ha_expires_at_ms h \<and>
     (final_state (ha_state h) \<longrightarrow> ha_state h' = ha_state h \<and> ha_decision h' = ha_decision h \<and>
        unmarked h' = unmarked h) \<and>
     (\<forall>d. ha_decision h = Some d \<longrightarrow>
        (\<exists>d'. ha_decision h' = Some d' \<and> hd_nostr_intent_event_id d' = hd_nostr_intent_event_id d))"

lemma evolves_refl [simp]: "evolves h h"
  by (simp add: evolves_def)









section \<open>The system\<close>

record hold_system =
  sy_store :: configured_store
  sy_claims :: "decision_claim list"

datatype hold_op =
    HCreate held_action
  | HCaseChannel string string
  | HNotified string i64 string "string option"
  | HArmed string i64
  | HBegin string string i64
  | HComplete decision_claim hold_decision_record hold_state
  | HDrop decision_claim
  | HExpire i64
  | HStalled i64 u64

fun hold_exec :: "hold_codec \<Rightarrow> hold_op \<Rightarrow> hold_system \<Rightarrow> hold_system" where
  "hold_exec S (HCreate h) y = y\<lparr>sy_store := snd (cfg_create S (sy_store y) h)\<rparr>"
| "hold_exec S (HCaseChannel j c) y = y\<lparr>sy_store := snd (cfg_mark_case_channel S (sy_store y) j c)\<rparr>"
| "hold_exec S (HNotified j t n k) y = y\<lparr>sy_store := snd (cfg_mark_notified S (sy_store y) j t n k)\<rparr>"
| "hold_exec S (HArmed j t) y = y\<lparr>sy_store := snd (cfg_mark_armed S (sy_store y) j t)\<rparr>"
| "hold_exec S (HBegin j i t) y =
     (case claim_begin S (sy_store y) j i t of
        (Inl _, store) \<Rightarrow> y\<lparr>sy_store := store\<rparr>
      | (Inr c, store) \<Rightarrow> y\<lparr>sy_store := store, sy_claims := c # sy_claims y\<rparr>)"
| "hold_exec S (HComplete c d st) y =
     (if c \<in> set (sy_claims y)
      then y\<lparr>sy_store := snd (claim_complete S (sy_store y) c d st),
             sy_claims := remove1 c (sy_claims y)\<rparr>
      else y)"
| "hold_exec S (HDrop c) y =
     (if c \<in> set (sy_claims y)
      then y\<lparr>sy_store := claim_drop S (sy_store y) c, sy_claims := remove1 c (sy_claims y)\<rparr>
      else y)"
| "hold_exec S (HExpire t) y = y\<lparr>sy_store := snd (cfg_expire_due S (sy_store y) t)\<rparr>"
| "hold_exec S (HStalled t m) y = y\<lparr>sy_store := snd (cfg_fail_stalled_decisions S (sy_store y) t m)\<rparr>"

definition hold_run :: "hold_codec \<Rightarrow> hold_op list \<Rightarrow> hold_system \<Rightarrow> hold_system" where
  "hold_run S ops y = fold (hold_exec S) ops y"

text \<open>Holds are created fresh; a claim is completed with its own intent and an outcome.\<close>

fun op_ok :: "hold_op \<Rightarrow> bool" where
  "op_ok (HCreate h) = fresh_hold h"
| "op_ok (HComplete c d st) =
     (hd_nostr_intent_event_id d = dc_intent_event_id c \<and> settled_state st)"
| "op_ok _ = True"

definition claim_key :: "decision_claim \<Rightarrow> string \<times> string" where
  "claim_key c = (dc_hold_id c, dc_intent_event_id c)"

definition world_of :: "hold_system \<Rightarrow> claim_world" where
  "world_of y = (cfg_get (sy_store y), map claim_key (sy_claims y))"

definition system_ok :: "hold_system \<Rightarrow> bool" where
  "system_ok y \<longleftrightarrow>
     cfg_ok (sy_store y) \<and> list_all dc_armed (sy_claims y) \<and> claims_ok (world_of y)"

lemma map_remove1:
  "inj_on f (set xs) \<Longrightarrow> x \<in> set xs \<Longrightarrow> map f (remove1 x xs) = remove1 (f x) (map f xs)"
  by (induction xs) (auto simp: inj_on_def)

lemma claim_keys_inj: "claims_ok (world_of y) \<Longrightarrow> inj_on claim_key (set (sy_claims y))"
  by (auto simp: world_of_def claim_key_def comp_def distinct_map inj_on_def dest!: claims_distinct)

lemma claim_steps_ok: "claim_step\<^sup>*\<^sup>* w w' \<Longrightarrow> claims_ok w \<Longrightarrow> claims_ok w'"
  by (induction rule: rtranclp_induct) (auto intro: claim_step_ok)


lemma claim_drop_disarmed: "claim_drop S store (c\<lparr>dc_armed := False\<rparr>) = store"
  by (simp add: claim_drop_def)

lemma claim_complete_store:
  "snd (claim_complete S store c d st) = snd (cfg_complete_decision S store (dc_hold_id c) d st)"
  by (simp add: claim_complete_def claim_drop_disarmed split: prod.split)

lemma live_claim:
  assumes ok: "system_ok y" and c: "c \<in> set (sy_claims y)"
  obtains h where "cfg_get (sy_store y) (dc_hold_id c) = Some h" "dc_armed c"
    "(dc_hold_id c, dc_intent_event_id c) \<in> set (map claim_key (sy_claims y))"
    "map claim_key (remove1 c (sy_claims y)) =
       remove1 (dc_hold_id c, dc_intent_event_id c) (map claim_key (sy_claims y))"
proof -
  have cl: "claims_ok (cfg_get (sy_store y), map claim_key (sy_claims y))" "dc_armed c"
    using ok c by (auto simp: system_ok_def world_of_def list_all_iff)
  have key: "(dc_hold_id c, dc_intent_event_id c) \<in> set (map claim_key (sy_claims y))"
    using c by (force simp: claim_key_def)
  obtain h where "cfg_get (sy_store y) (dc_hold_id c) = Some h"
    using claims_owned [OF cl(1) key] by blast
  moreover have "inj_on claim_key (set (sy_claims y))"
    using ok claim_keys_inj by (simp add: system_ok_def)
  ultimately show thesis
    using that key cl(2) map_remove1 [OF _ c, of claim_key] by (simp add: claim_key_def)
qed

lemma hold_exec_refines:
  assumes ok: "system_ok y" and op: "op_ok op"
  shows "claim_step\<^sup>*\<^sup>* (world_of y) (world_of (hold_exec S op y))"
proof -
  have st: "cfg_ok (sy_store y)" using ok by (simp add: system_ok_def)
  note steps = configured.create_steps configured.mark_steps configured.expire_step
    configured.stalled_step
  show ?thesis
  proof (cases op)
    case (HBegin j i t)
    obtain r s' where "cfg_begin_decision S (sy_store y) j i t = (r, s')" by fastforce
    then show ?thesis
      using configured.begin_steps [OF st, of S j i t r s' "map claim_key (sy_claims y)"] HBegin
      by (cases r) (simp_all add: claim_begin_def world_of_def claim_key_def)
  next
    case (HComplete c d st')
    show ?thesis
    proof (cases "c \<in> set (sy_claims y)")
      case True
      from ok True obtain h where live: "cfg_get (sy_store y) (dc_hold_id c) = Some h" "dc_armed c"
        "(dc_hold_id c, dc_intent_event_id c) \<in> set (map claim_key (sy_claims y))"
        "map claim_key (remove1 c (sy_claims y)) =
           remove1 (dc_hold_id c, dc_intent_event_id c) (map claim_key (sy_claims y))"
        by (rule live_claim)
      show ?thesis
        using configured.complete_step [OF st live(1,3), of d st' S] op HComplete True live(4)
        by (auto simp: world_of_def claim_complete_store)
    qed (simp add: HComplete)
  next
    case (HDrop c)
    show ?thesis
    proof (cases "c \<in> set (sy_claims y)")
      case True
      from ok True obtain h where live: "cfg_get (sy_store y) (dc_hold_id c) = Some h" "dc_armed c"
        "(dc_hold_id c, dc_intent_event_id c) \<in> set (map claim_key (sy_claims y))"
        "map claim_key (remove1 c (sy_claims y)) =
           remove1 (dc_hold_id c, dc_intent_event_id c) (map claim_key (sy_claims y))"
        by (rule live_claim)
      show ?thesis
        using configured.abandon_step [OF st live(1,3), of S] HDrop True live(2,4)
        by (auto simp: world_of_def claim_drop_def)
    qed (simp add: HDrop)
  qed (use st op steps in \<open>auto simp: world_of_def\<close>)
qed

lemma hold_exec_wf:
  assumes ok: "system_ok y"
  shows "cfg_ok (sy_store (hold_exec S op y)) \<and> list_all dc_armed (sy_claims (hold_exec S op y))"
proof -
  have st: "cfg_ok (sy_store y)" and armed: "list_all dc_armed (sy_claims y)"
    using ok by (auto simp: system_ok_def)
  note oks = configured.ok_create configured.ok_case_channel configured.ok_notified
    configured.ok_armed configured.ok_abandon configured.ok_complete configured.ok_expire
    configured.ok_stalled
  have fewer: "list_all dc_armed (remove1 c (sy_claims y))" for c
    using armed notin_set_remove1 by (fastforce simp: list_all_iff)
  show ?thesis
  proof (cases op)
    case (HBegin j i t)
    obtain r s' where "cfg_begin_decision S (sy_store y) j i t = (r, s')" by fastforce
    then show ?thesis
      using configured.ok_begin [OF st, of S j i t] HBegin armed
      by (cases r) (simp_all add: claim_begin_def)
  qed (use st armed oks fewer in \<open>auto simp: claim_complete_store claim_drop_def\<close>)
qed

lemma hold_run_ok:
  assumes "system_ok y" "list_all op_ok ops"
  shows "system_ok (hold_run S ops y) \<and> claim_step\<^sup>*\<^sup>* (world_of y) (world_of (hold_run S ops y))"
  using assms
proof (induction ops arbitrary: y)
  case (Cons op ops)
  have step: "claim_step\<^sup>*\<^sup>* (world_of y) (world_of (hold_exec S op y))"
    using hold_exec_refines Cons.prems by simp
  moreover have "system_ok (hold_exec S op y)"
    using step hold_exec_wf [OF Cons.prems(1)] Cons.prems(1) claim_steps_ok
    unfolding system_ok_def by blast
  ultimately show ?case
    using Cons.IH [of "hold_exec S op y"] Cons.prems by (auto simp: hold_run_def)
qed (simp add: hold_run_def)

section \<open>Properties of a run\<close>

text \<open>A store as the daemon starts with it: empty, or reopened with acceptable holds.\<close>

definition store_wf :: "configured_store \<Rightarrow> bool" where
  "store_wf store \<longleftrightarrow> cfg_ok store \<and> (\<forall>j h. cfg_get store j = Some h \<longrightarrow> hold_ok h)"

definition hold_start :: "configured_store \<Rightarrow> hold_system" where
  "hold_start store = \<lparr>sy_store = store, sy_claims = []\<rparr>"

lemma hold_start_ok: "store_wf store \<Longrightarrow> system_ok (hold_start store)"
  by (auto simp: store_wf_def hold_start_def system_ok_def world_of_def claims_ok_def
      dest: configured.view_id)

lemma claim_refused:
  "cfg_ok store \<Longrightarrow> cfg_get store j = Some h \<Longrightarrow> assert_decidable h t \<noteq> Inr () \<Longrightarrow>
   claim_begin S store j i t = (Inl (HsNotDecidable j h), store)"
  by (simp add: claim_begin_def configured.begin_refused)

text \<open>
  C13. The store and its claims implement the claim specification. Whatever calls the daemon
  serves, on either backend and with any failing writes, what a caller can see of the holds and
  the live claims is reached by steps of the specification from the holds it started with and
  no claims.
\<close>

theorem hold_run_refines:
  assumes "store_wf store" "list_all op_ok ops"
  shows "claim_step\<^sup>*\<^sup>* (cfg_get store, []) (world_of (hold_run S ops (hold_start store)))"
  using hold_run_ok [OF hold_start_ok [OF assms(1)] assms(2), of S]
  by (simp add: world_of_def hold_start_def)

text \<open>
  C9. At most one decision is in charge of a hold. Whatever calls the daemon has served, in
  any order and with any failing writes, no hold has two live claims; a hold with a live claim
  is deciding under that claim's intent, or was resolved by the stall sweep under it, and every
  further attempt to claim it is refused and changes nothing.
\<close>

theorem hold_single_decider:
  assumes "store_wf store" "list_all op_ok ops" "y = hold_run S ops (hold_start store)"
  shows "distinct (map dc_hold_id (sy_claims y)) \<and>
    (\<forall>c \<in> set (sy_claims y). \<exists>h.
       cfg_get (sy_store y) (dc_hold_id c) = Some h \<and>
       (ha_state h = Deciding \<or> ha_state h = HoldFailed) \<and>
       ha_deciding_intent_event_id h = Some (dc_intent_event_id c) \<and>
       (\<forall>i t. claim_begin S (sy_store y) (dc_hold_id c) i t =
          (Inl (HsNotDecidable (dc_hold_id c) h), sy_store y)))"
proof (intro conjI ballI)
  have ok: "system_ok y" using hold_run_ok [OF hold_start_ok] assms by simp
  then have cl: "claims_ok (cfg_get (sy_store y), map claim_key (sy_claims y))"
    and st: "cfg_ok (sy_store y)" by (auto simp: system_ok_def world_of_def)
  show "distinct (map dc_hold_id (sy_claims y))"
    using claims_distinct [OF cl] by (simp add: comp_def claim_key_def)
  fix c assume "c \<in> set (sy_claims y)"
  then have "claim_key c \<in> set (map claim_key (sy_claims y))" by simp
  then obtain h where h: "cfg_get (sy_store y) (dc_hold_id c) = Some h"
    and own: "owns (dc_intent_event_id c) h"
    using claims_owned [OF cl, of "dc_hold_id c" "dc_intent_event_id c"]
    by (auto simp: claim_key_def)
  then show "\<exists>h. cfg_get (sy_store y) (dc_hold_id c) = Some h \<and>
       (ha_state h = Deciding \<or> ha_state h = HoldFailed) \<and>
       ha_deciding_intent_event_id h = Some (dc_intent_event_id c) \<and>
       (\<forall>i t. claim_begin S (sy_store y) (dc_hold_id c) i t =
          (Inl (HsNotDecidable (dc_hold_id c) h), sy_store y))"
    using claim_refused [OF st h owned_not_decidable [OF own]] by (auto simp: owns_def)
qed


text \<open>
  A late completion replaces the record of the stall sweep. While a claim is live, the
  sweep may resolve its hold to failed, with a record that says nothing was dispatched and the
  outcome is unknown; the claim stays live, and when its call completes it writes its own
  record and state over it.
\<close>

theorem late_completion_overwrites:
  assumes "sy_store y = CfgMemory m" "c \<in> set (sy_claims y)"
    and "cfg_get (sy_store y) (dc_hold_id c) = Some h" "is_stalled h now_ms stall_ms"
    and "y' = hold_exec S (HStalled now_ms stall_ms) y"
  shows "\<exists>g g'. cfg_get (sy_store y') (dc_hold_id c) = Some g \<and> ha_state g = HoldFailed \<and>
      ha_decision g = Some (stalled_record h now_ms) \<and>
      cfg_get (sy_store (hold_exec S (HComplete c d Executed) y')) (dc_hold_id c) = Some g' \<and>
      ha_state g' = Executed \<and> ha_decision g' = Some d"
proof -
  have "cfg_get (sy_store y') (dc_hold_id c) = Some (snd (tr_fail_stalled h now_ms stall_ms))"
    "sy_claims y' = sy_claims y" "\<exists>m'. sy_store y' = CfgMemory m'"
    using assms by (simp_all add: cfg_fail_stalled_decisions_def mem_fail_stalled_decisions_def
        mem_sweep_def mem_get_def)
  then show ?thesis
    using assms(2,4) by (auto simp: claim_complete_store cfg_complete_decision_def
        mem_complete_decision_def mem_with_hold_def mem_get_def tr_complete_def tr_fail_stalled_def)
qed

section \<open>A run on a sample hold\<close>

definition no_evidence :: evidence_readers where
  "no_evidence = \<lparr>read_threat_class = (\<lambda>_. Inl []), read_escalation_level = (\<lambda>_. Inl []),
     read_concentration = (\<lambda>_. Inl [])\<rparr>"

definition sample_hold :: held_action where
  "sample_hold = held_action_new no_evidence ''hold_sample''
     \<lparr>ar_hunt_id = HuntId ''hunt'', ar_requested_by = AgentId ''pouncer'',
      ar_action = IsolateHost ''h'', ar_severity = Critical, ar_evidence = JObject []\<rparr>
     \<lparr>df_finding_id = [], df_event_id = [], df_threat_class = Execution, df_severity = Critical,
      df_confidence = 0, df_evidence = JNull, df_strategy_id = []\<rparr>
     (require_human_with_rule ''static.human_gate'' ''held'') None 0 3600000 None"

definition no_codec :: hold_codec where
  "no_codec = \<lparr>hc_encode = (\<lambda>_. Inl []), hc_decode = (\<lambda>_. Inl [])\<rparr>"

definition sample_ops :: "hold_op list" where
  "sample_ops = [HCreate sample_hold, HBegin ''hold_sample'' ''intent'' 5]"

definition sample_system :: hold_system where
  "sample_system = hold_run no_codec sample_ops (hold_start (CfgMemory memory_default))"

definition sample_claimed :: held_action where
  "sample_claimed = snd (tr_begin sample_hold ''intent'' 5)"

definition sample_claim :: decision_claim where
  "sample_claim = \<lparr>dc_hold_id = ''hold_sample'', dc_intent_event_id = ''intent'',
     dc_claimed = sample_claimed, dc_armed = True\<rparr>"

lemma sample_hold_fields [simp]:
  "ha_hold_id sample_hold = ''hold_sample''" "ha_state sample_hold = Created"
  "ha_expires_at_ms sample_hold = 3600000" "undecided sample_hold"
  by (simp_all add: sample_hold_def held_action_new_def undecided_def)

lemma sample_decidable [simp]: "assert_decidable sample_hold 5 = Inr ()"
  by (simp add: assert_decidable_def)

lemma sample_claimed_fields [simp]:
  "ha_hold_id sample_claimed = ''hold_sample''" "ha_state sample_claimed = Deciding"
  "ha_cas_instant_ms sample_claimed = Some 5"
  by (simp_all add: sample_claimed_def tr_begin_def)

lemma sample_ops_ok [simp]: "list_all op_ok sample_ops"
  by (simp add: sample_ops_def fresh_hold_def)

lemma empty_store_wf [simp]: "store_wf (CfgMemory memory_default)"
  by (simp add: store_wf_def memory_default_def mem_get_def)

lemma sample_system_eq:
  "sample_system = \<lparr>sy_store = CfgMemory \<lparr>ms_holds = [(''hold_sample'', sample_claimed)]\<rparr>,
                     sy_claims = [sample_claim]\<rparr>"
proof -
  have "tr_begin sample_hold ''intent'' 5 = (True, sample_claimed)"
    by (simp add: sample_claimed_def tr_begin_def)
  then show ?thesis
    by (simp add: sample_system_def sample_ops_def hold_run_def hold_start_def cfg_create_def
        mem_create_def memory_default_def claim_begin_def cfg_begin_decision_def
        mem_begin_decision_def sample_claim_def)
qed

theorem hold_run_refines_witness:
  "claim_step\<^sup>*\<^sup>* (cfg_get (CfgMemory memory_default), [])
     (cfg_get (sy_store sample_system), [(''hold_sample'', ''intent'')])"
  using hold_run_refines [OF empty_store_wf sample_ops_ok, of no_codec]
  by (simp add: sample_system_def [symmetric] world_of_def sample_system_eq claim_key_def sample_claim_def)

theorem hold_single_decider_witness:
  "sy_claims sample_system = [sample_claim] \<and>
   claim_begin no_codec (sy_store sample_system) ''hold_sample'' ''other'' 7 =
     (Inl (HsNotDecidable ''hold_sample'' sample_claimed), sy_store sample_system)"
  using hold_single_decider [of "CfgMemory memory_default" sample_ops sample_system no_codec,
      OF empty_store_wf sample_ops_ok sample_system_def]
  by (simp add: sample_system_eq mem_get_def sample_claim_def)


theorem late_completion_overwrites_witness:
  "\<exists>g g'. cfg_get (sy_store (hold_exec no_codec (HStalled 60005 60000) sample_system)) ''hold_sample'' = Some g \<and>
     ha_state g = HoldFailed \<and>
     cfg_get (sy_store (hold_exec no_codec (HComplete sample_claim (stalled_record sample_hold 1) Executed)
       (hold_exec no_codec (HStalled 60005 60000) sample_system))) ''hold_sample'' = Some g' \<and>
     ha_state g' = Executed"
  using late_completion_overwrites [of sample_system _ sample_claim sample_claimed 60005 60000 _ no_codec
      "stalled_record sample_hold 1", OF _ _ _ _ refl]
  by (auto simp: sample_system_eq mem_get_def sample_claim_def is_stalled_def machine_int_defs
      u64_as_i64_def)

end
