(* ===== verification/Hold_Durability.thy ===== *)
theory Hold_Durability
  imports Hold_System
begin

text \<open>
  The file backend against the memory backend. As long as writes succeed the two give the same
  answers to the same calls, and the directory holds exactly one document per hold, the
  encoding of the hold a caller sees, so that reopening the store after a crash at any point
  gives the same holds back. When writes fail, a hold that could not be written is not created;
  any other change is visible although the document is the old one.
\<close>

section \<open>The directory\<close>

lemma takeWhile_suffix:
  "CHR ''.'' \<notin> set ext \<Longrightarrow> takeWhile (\<lambda>c. c \<noteq> CHR ''.'') (rev (stem @ CHR ''.'' # ext)) = rev ext"
  by (simp add: takeWhile_append)

lemma path_extension_append:
  "CHR ''.'' \<notin> set ext \<Longrightarrow>
   path_extension (stem @ CHR ''.'' # ext) = (if stem = [] then None else Some ext)"
  unfolding path_extension_def takeWhile_suffix by (cases stem) simp_all

lemma document_extension [simp]:
  "path_extension (document_name j) = (if j = [] then None else Some ''json'')"
  using path_extension_append [of "''json''" j] by (simp add: document_name_def)

lemma temp_extension [simp]: "path_extension (temp_name j) = Some ''tmp''"
  using path_extension_append [of "''tmp''" "j @ ''.json''"] by (simp add: temp_name_def)

lemma document_name_inj [simp]: "document_name j = document_name k \<longleftrightarrow> j = k"
  by (simp add: document_name_def)

text \<open>One document per hold, its encoding, and no other document.\<close>

definition in_sync :: "hold_codec \<Rightarrow> holds \<Rightarrow> (string, bytes) btree \<Rightarrow> bool" where
  "in_sync S holds disk \<longleftrightarrow>
     bt_ok disk \<and>
     (\<forall>j h. bt_get holds j = Some h \<longrightarrow> is_opaque_hold_id j \<and>
        (\<exists>b. bt_get disk (document_name j) = Some b \<and> hc_encode S h = Inr b)) \<and>
     (\<forall>name b. bt_get disk name = Some b \<longrightarrow> path_extension name = Some ''json'' \<longrightarrow>
        (\<exists>j. name = document_name j \<and> bt_get holds j \<noteq> None))"

definition writable :: "hold_codec \<Rightarrow> file_store \<Rightarrow> bool" where
  "writable S s \<longleftrightarrow> (\<forall>n. fi_io s n = WriteOk) \<and> (\<forall>h. \<exists>b. hc_encode S h = Inr b)"

lemma opaque_nonempty: "is_opaque_hold_id j \<Longrightarrow> j \<noteq> []"
  by (auto simp: is_opaque_hold_id_def)

lemma in_sync_hold:
  "in_sync S holds disk \<Longrightarrow> bt_get holds j = Some h \<Longrightarrow>
   \<exists>b. bt_get disk (document_name j) = Some b \<and> hc_encode S h = Inr b \<and> is_opaque_hold_id j"
  by (simp add: in_sync_def)

lemma in_sync_document:
  "in_sync S holds disk \<Longrightarrow> bt_get disk (document_name j) = Some b \<Longrightarrow> j \<noteq> [] \<Longrightarrow>
   bt_get holds j \<noteq> None"
  unfolding in_sync_def using document_extension [of j] by (metis document_name_inj)

lemma in_sync_put:
  assumes "in_sync S holds disk" "hc_encode S h = Inr b" "is_opaque_hold_id j"
  shows "in_sync S (bt_insert j h holds)
           (bt_insert (document_name j) b (bt_retain (\<lambda>name. name \<noteq> temp_name j) disk))"
proof -
  have "document_name k \<noteq> temp_name j" if "is_opaque_hold_id k" for k
    using document_extension [of k] temp_extension [of j] opaque_nonempty [OF that] by force
  moreover have "bt_ok (bt_retain P disk)" for P
    using assms(1) by (simp add: in_sync_def bt_ok_def bt_retain_def sorted_wrt_map sorted_wrt_filter)
  moreover have "\<exists>k. name = document_name k \<and> bt_get holds k \<noteq> None"
    if "bt_get disk name = Some c" "path_extension name = Some ''json''" for name c
    using assms(1) that by (simp add: in_sync_def)
  ultimately show ?thesis
    using assms unfolding in_sync_def by (auto split: if_splits) (metis option.discI)
qed

lemma persist_writable:
  assumes "writable S s"
  obtains b s' where "persist S s h = (Inr (), s')" "fi_holds s' = fi_holds s" "writable S s'"
    "hc_encode S h = Inr b"
    "fi_disk s' = bt_insert (document_name (ha_hold_id h)) b
       (bt_retain (\<lambda>name. name \<noteq> temp_name (ha_hold_id h)) (fi_disk s))"
proof -
  obtain b where b: "hc_encode S h = Inr b" using assms by (auto simp: writable_def)
  show thesis
    by (rule that [of "snd (persist S s h)", OF _ _ _ b])
      (use assms b in \<open>auto simp: persist_def writable_def\<close>)
qed

lemma persist_sync:
  assumes "writable S s" "in_sync S (fi_holds s) (fi_disk s)" "is_opaque_hold_id (ha_hold_id h)"
  obtains s' where "persist S (put_cache s (ha_hold_id h) h) h = (Inr (), s')"
    "fi_holds s' = bt_insert (ha_hold_id h) h (fi_holds s)" "writable S s'"
    "in_sync S (fi_holds s') (fi_disk s')"
proof -
  have "writable S (put_cache s (ha_hold_id h) h)" using assms(1) by (simp add: writable_def put_cache_def)
  then obtain b s' where "persist S (put_cache s (ha_hold_id h) h) h = (Inr (), s')"
    "fi_holds s' = bt_insert (ha_hold_id h) h (fi_holds s)" "writable S s'" "hc_encode S h = Inr b"
    "fi_disk s' = bt_insert (document_name (ha_hold_id h)) b
       (bt_retain (\<lambda>name. name \<noteq> temp_name (ha_hold_id h)) (fi_disk s))"
    by (rule persist_writable [of S _ h]) (simp_all add: put_cache_def)
  then show thesis using that in_sync_put [OF assms(2) _ assms(3)] by simp
qed

section \<open>The file backend answers as the memory backend\<close>

definition mirrors :: "hold_codec \<Rightarrow> file_store \<Rightarrow> memory_store \<Rightarrow> bool" where
  "mirrors S f m \<longleftrightarrow>
     fi_holds f = ms_holds m \<and> holds_ok (ms_holds m) \<and> writable S f \<and>
     in_sync S (ms_holds m) (fi_disk f)"

definition same_answer where
  "same_answer S out_f out_m \<longleftrightarrow> fst out_f = fst out_m \<and> mirrors S (snd out_f) (snd out_m)"

lemma mirrors_opaque: "mirrors S f m \<Longrightarrow> bt_get (ms_holds m) j = Some h \<Longrightarrow> is_opaque_hold_id j"
  by (auto simp: mirrors_def in_sync_def)

lemma mirrors_put:
  assumes "mirrors S f m" "ha_hold_id h = j" "is_opaque_hold_id j"
  obtains f' where "persist S (put_cache f j h) h = (Inr (), f')"
    "mirrors S f' (m\<lparr>ms_holds := bt_insert j h (ms_holds m)\<rparr>)"
proof -
  have "writable S f" "in_sync S (fi_holds f) (fi_disk f)" "fi_holds f = ms_holds m" "holds_ok (ms_holds m)"
    using assms(1) by (auto simp: mirrors_def)
  then obtain f' where "persist S (put_cache f j h) h = (Inr (), f')"
    "fi_holds f' = bt_insert j h (fi_holds f)" "writable S f'" "in_sync S (fi_holds f') (fi_disk f')"
    using persist_sync [of S f h] assms(2,3) by blast
  then show thesis using that assms(2) \<open>fi_holds f = ms_holds m\<close> \<open>holds_ok (ms_holds m)\<close>
    by (auto simp: mirrors_def)
qed

lemma mirror_mutate:
  assumes "mirrors S f m" "\<And>h. ha_hold_id (g h) = ha_hold_id h"
  shows "same_answer S (file_mutate S f j g) (mem_with_hold m j g)"
proof (cases "bt_get (ms_holds m) j")
  case None
  then show ?thesis using assms(1) by (simp add: same_answer_def mirrors_def file_mutate_def mem_with_hold_def)
next
  case (Some h)
  have gid: "ha_hold_id (g h) = j" using assms Some by (auto simp: mirrors_def holds_ok_get)
  obtain f' where "persist S (put_cache f j (g h)) (g h) = (Inr (), f')"
    "mirrors S f' (m\<lparr>ms_holds := bt_insert j (g h) (ms_holds m)\<rparr>)"
    using mirrors_put [OF assms(1) gid mirrors_opaque [OF assms(1) Some]] by blast
  then show ?thesis
    using Some assms(1) by (simp add: same_answer_def mirrors_def file_mutate_def mem_with_hold_def)
qed

lemma mirror_create:
  assumes "mirrors S f m" "is_opaque_hold_id (ha_hold_id h)"
  shows "same_answer S (file_create S f h) (mem_create m h)"
proof (cases "bt_get (ms_holds m) (ha_hold_id h) = None")
  case True
  have w: "writable S f" "in_sync S (ms_holds m) (fi_disk f)" "fi_holds f = ms_holds m" "holds_ok (ms_holds m)"
    using assms(1) by (auto simp: mirrors_def)
  obtain b f' where p: "persist S f h = (Inr (), f')" "fi_holds f' = fi_holds f" "writable S f'"
    "hc_encode S h = Inr b" "fi_disk f' = bt_insert (document_name (ha_hold_id h)) b
       (bt_retain (\<lambda>name. name \<noteq> temp_name (ha_hold_id h)) (fi_disk f))"
    by (rule persist_writable [OF w(1)])
  have "in_sync S (bt_insert (ha_hold_id h) h (ms_holds m)) (fi_disk f')"
    using in_sync_put [OF w(2) p(4) assms(2)] p(5) by simp
  then show ?thesis
    using True p w by (auto simp: same_answer_def mirrors_def file_create_def mem_create_def
        put_cache_def writable_def)
qed (use assms in \<open>auto simp: same_answer_def mirrors_def file_create_def mem_create_def\<close>)

lemma mirror_begin:
  assumes "mirrors S f m"
  shows "same_answer S (file_begin_decision S f j i t) (mem_begin_decision m j i t)"
proof (cases "bt_get (ms_holds m) j")
  case None
  then show ?thesis
    using assms by (simp add: same_answer_def mirrors_def file_begin_decision_def mem_begin_decision_def)
next
  case (Some h)
  have hf: "fi_holds f = ms_holds m" and hid: "ha_hold_id h = j"
    using assms Some by (auto simp: mirrors_def holds_ok_get)
  show ?thesis
  proof (cases rule: tr_begin_cases [of h t i])
    case 1
    then show ?thesis
      using assms Some hf by (simp add: same_answer_def file_begin_decision_def mem_begin_decision_def)
  next
    case (2 h')
    with hid have hid': "ha_hold_id h' = j" by simp
    obtain f' where "persist S (put_cache f j h') h' = (Inr (), f')"
      "mirrors S f' (m\<lparr>ms_holds := bt_insert j h' (ms_holds m)\<rparr>)"
      using mirrors_put [OF assms hid' mirrors_opaque [OF assms Some]] by blast
    then show ?thesis
      using 2 Some hf by (simp add: same_answer_def file_begin_decision_def mem_begin_decision_def)
  qed
qed

lemma mirror_abandon:
  assumes "mirrors S f m"
  shows "same_answer S (file_abandon_decision S f j i) (mem_abandon_decision m j i)"
proof (cases "bt_get (ms_holds m) j")
  case None
  then show ?thesis
    using assms by (simp add: same_answer_def mirrors_def file_abandon_decision_def mem_abandon_decision_def)
next
  case (Some h)
  have ok: "holds_ok (ms_holds m)" and hf: "fi_holds f = ms_holds m"
    using assms by (simp_all add: mirrors_def)
  have hid: "ha_hold_id h = j" and bt: "bt_ok (ms_holds m)"
    using ok holds_ok_get [OF ok Some] by (simp_all add: holds_ok_def)
  obtain b h' where ab: "tr_abandon h i = (b, h')" by fastforce
  show ?thesis
  proof (cases b)
    case True
    have hid': "ha_hold_id h' = j" using hid ab hold_id_kept(2) [of h i] by simp
    obtain f' where "persist S (put_cache f j h') h' = (Inr (), f')"
      "mirrors S f' (m\<lparr>ms_holds := bt_insert j h' (ms_holds m)\<rparr>)"
      using mirrors_put [OF assms hid' mirrors_opaque [OF assms Some]] by blast
    then show ?thesis
      using True ab Some hf
      by (simp add: same_answer_def file_abandon_decision_def mem_abandon_decision_def)
  next
    case False
    then have "h' = h" using ab by (auto simp: tr_abandon_def split: if_splits)
    then show ?thesis
      using False ab Some hf assms bt_insert_same [OF bt Some]
      by (simp add: same_answer_def file_abandon_decision_def mem_abandon_decision_def)
  qed
qed

lemma file_sweep_writable:
  assumes "writable S s" "in_sync S (fi_holds s) (fi_disk s)"
    and "\<And>j h. (j, h) \<in> set ms \<Longrightarrow> is_opaque_hold_id j \<and> ha_hold_id (snd (f h)) = j"
  shows "\<exists>s'. file_sweep S f ms acc s = (Inr (acc @ changed_holds f (map snd ms)), s') \<and>
              writable S s' \<and> in_sync S (fi_holds s') (fi_disk s')"
  using assms
proof (induction ms arbitrary: acc s)
  case (Cons entry ms)
  obtain j h where entry: "entry = (j, h)" by (cases entry)
  obtain b h' where fh: "f h = (b, h')" by (cases "f h")
  have id: "is_opaque_hold_id j" "ha_hold_id h' = j" using Cons.prems(3) [of j h] by (auto simp: entry fh)
  have rest: "is_opaque_hold_id k \<and> ha_hold_id (snd (f g)) = k" if "(k, g) \<in> set ms" for k g
    using Cons.prems(3) [of k g] that by simp
  show ?case
  proof (cases b)
    case True
    obtain s1 where s1: "persist S (put_cache s j h') h' = (Inr (), s1)" "writable S s1"
      "in_sync S (fi_holds s1) (fi_disk s1)"
      using persist_sync [OF Cons.prems(1,2), of h'] id by blast
    show ?thesis
      using Cons.IH [OF s1(2,3) rest, of "acc @ [h']"] True fh s1(1)
      by (simp add: entry changed_holds_def)
  next
    case False
    then show ?thesis
      using Cons.IH [OF Cons.prems(1,2) rest, of acc] fh by (simp add: entry changed_holds_def)
  qed
qed (simp add: changed_holds_def)

lemma mirror_sweep:
  assumes mir: "mirrors S f m" and id: "\<And>h. ha_hold_id (snd (g h)) = ha_hold_id h"
    and idle: "\<And>h. \<not> fst (g h) \<Longrightarrow> snd (g h) = h"
  shows "same_answer S (file_sweep S g (fi_holds f) [] f) (mem_sweep m g)"
proof -
  have w: "writable S f" "in_sync S (fi_holds f) (fi_disk f)" "fi_holds f = ms_holds m"
    "holds_ok (fi_holds f)" using mir by (auto simp: mirrors_def)
  have "is_opaque_hold_id j \<and> ha_hold_id (snd (g h)) = j" if "(j, h) \<in> set (fi_holds f)" for j h
  proof -
    have "bt_get (ms_holds m) j = Some h"
      using that w(3,4) by (simp add: bt_get_def holds_ok_def bt_ok_distinct)
    then show ?thesis
      using mirrors_opaque [OF mir] holds_ok_get [OF w(4)] w(3) id [of h] by auto
  qed
  then obtain s' where s': "file_sweep S g (fi_holds f) [] f = (Inr (changed_holds g (map snd (fi_holds f))), s')"
    "writable S s'" "in_sync S (fi_holds s') (fi_disk s')"
    using file_sweep_writable [OF w(1,2), of "fi_holds f" g "[]"] by auto
  have ok': "holds_ok (fi_holds s')"
    using file_sweep_ok [OF w(4) id, of "fi_holds f" S "[]"] w(4) s'(1) by (simp add: holds_ok_def)
  have get: "bt_get (fi_holds s') j = bt_get (bt_map (\<lambda>_ h. snd (g h)) (ms_holds m)) j" for j
    using file_sweep_swept [OF w(4) idle, of S] s'(1) w(3) by (simp add: swept_def file_get_def comp_def)
  have "bt_ok (fi_holds s')" "bt_ok (ms_holds m)"
    using ok' w(4) unfolding w(3) by (simp_all add: holds_ok_def)
  then have eq: "fi_holds s' = bt_map (\<lambda>_ h. snd (g h)) (ms_holds m)"
    by (intro bt_get_eq ext get) simp_all
  then show ?thesis
    using s' ok' w(3) by (simp add: same_answer_def mirrors_def mem_sweep_def bt_values_def)
qed

section \<open>Runs and restarts\<close>

fun op_opaque :: "hold_op \<Rightarrow> bool" where
  "op_opaque (HCreate h) = is_opaque_hold_id (ha_hold_id h)"
| "op_opaque _ = True"

definition mirrored :: "hold_codec \<Rightarrow> hold_system \<Rightarrow> hold_system \<Rightarrow> bool" where
  "mirrored S y z \<longleftrightarrow>
     sy_claims y = sy_claims z \<and>
     (\<exists>f m. sy_store y = CfgLocalFiles f \<and> sy_store z = CfgMemory m \<and> mirrors S f m)"

lemma same_answer_cases:
  assumes "same_answer S p q"
  obtains r f m where "p = (r, f)" "q = (r, m)" "mirrors S f m"
  using assms by (cases p; cases q) (auto simp: same_answer_def)

lemmas mirror_ops = file_ops memory_ops

lemma mirrored_exec:
  assumes "mirrored S y z" "op_opaque op"
  shows "mirrored S (hold_exec S op y) (hold_exec S op z)"
proof -
  obtain f m where st: "sy_store y = CfgLocalFiles f" "sy_store z = CfgMemory m"
    and mir: "mirrors S f m" and cl: "sy_claims y = sy_claims z"
    using assms(1) by (auto simp: mirrored_def)
  have sa: "same_answer S p q \<Longrightarrow> fst p = fst q \<and> mirrors S (snd p) (snd q)" for p q
    by (simp add: same_answer_def)
  note rules = mirror_mutate [OF mir] mirror_create [OF mir] mirror_begin [OF mir]
    mirror_abandon [OF mir] mirror_sweep [OF mir]
  show ?thesis
  proof (cases op)
    case (HBegin j i t)
    obtain r f' m' where "file_begin_decision S f j i t = (r, f')"
      "mem_begin_decision m j i t = (r, m')" "mirrors S f' m'"
      by (rule same_answer_cases [OF mirror_begin [OF mir]])
    then show ?thesis
      using st cl HBegin
      by (cases r) (simp_all add: mirrored_def claim_begin_def cfg_begin_decision_def)
  next
    case (HDrop c)
    then show ?thesis
      using sa [OF mirror_abandon [OF mir]] st cl mir
      by (auto simp: mirrored_def claim_drop_def cfg_abandon_decision_def)
  qed (use st cl mir assms(2) sa [OF mirror_mutate [OF mir]] sa [OF mirror_create [OF mir]]
      sa [OF mirror_sweep [OF mir]]
      in \<open>auto simp: mirrored_def cfg_defs claim_complete_store mirror_ops idle_sweep\<close>)
qed

lemma mirrored_run:
  "mirrored S y z \<Longrightarrow> list_all op_opaque ops \<Longrightarrow> mirrored S (hold_run S ops y) (hold_run S ops z)"
  unfolding hold_run_def by (induction ops arbitrary: y z) (simp_all add: mirrored_exec)

text \<open>Reading the documents back in any order.\<close>

definition reads_back :: "hold_codec \<Rightarrow> held_action \<Rightarrow> bool" where
  "reads_back S h \<longleftrightarrow> (\<exists>b. hc_encode S h = Inr b \<and> hc_decode S b = Inr h)"

lemma load_documents_get:
  assumes "\<And>name b. (name, b) \<in> set docs \<Longrightarrow> path_extension name = Some ''json'' \<Longrightarrow>
             \<exists>h. hc_decode S b = Inr h \<and> name = document_name (ha_hold_id h)"
    and "distinct (map fst docs)" "bt_ok holds"
  shows "\<exists>loaded. load_documents S directory holds (map (\<lambda>(name, b). Inr (name, Inr b)) docs) = Inr loaded \<and>
           bt_ok loaded \<and>
           (\<forall>j. bt_get loaded j =
              (case map_of docs (document_name j) of
                 Some b \<Rightarrow> if j = [] then bt_get holds j else result_ok (hc_decode S b)
               | None \<Rightarrow> bt_get holds j))"
  using assms
proof (induction docs arbitrary: holds)
  case (Cons doc docs)
  obtain name b where doc: "doc = (name, b)" by (cases doc)
  have rest: "\<exists>h. hc_decode S c = Inr h \<and> n = document_name (ha_hold_id h)"
    if "(n, c) \<in> set docs" "path_extension n = Some ''json''" for n c
    using Cons.prems(1) [of n c] that by simp
  have new: "map_of docs name = None"
    using Cons.prems(2) by (simp add: doc map_of_eq_None_iff)
  show ?case
  proof (cases "path_extension name = Some ''json''")
    case True
    then obtain h where h: "hc_decode S b = Inr h" "name = document_name (ha_hold_id h)"
      using Cons.prems(1) [of name b] doc by auto
    have "distinct (map fst docs)" "bt_ok (bt_insert (ha_hold_id h) h holds)"
      using Cons.prems(2,3) by auto
    from Cons.IH [OF rest this] obtain loaded where l:
      "load_documents S directory (bt_insert (ha_hold_id h) h holds)
         (map (\<lambda>(name, b). Inr (name, Inr b)) docs) = Inr loaded" "bt_ok loaded"
      and get: "\<And>j. bt_get loaded j = (case map_of docs (document_name j) of
           Some b \<Rightarrow> if j = [] then bt_get (bt_insert (ha_hold_id h) h holds) j
                     else result_ok (hc_decode S b)
         | None \<Rightarrow> bt_get (bt_insert (ha_hold_id h) h holds) j)"
      by blast
    have "ha_hold_id h \<noteq> []" using True h(2) by auto
    then show ?thesis
      using True h l new
      by (intro exI [of _ loaded]) (auto simp: doc get result_ok_def split: option.split)
  next
    case False
    have "distinct (map fst docs)" using Cons.prems(2) by simp
    from Cons.IH [OF rest this Cons.prems(3)] obtain loaded where l:
      "load_documents S directory holds (map (\<lambda>(name, b). Inr (name, Inr b)) docs) = Inr loaded"
      "bt_ok loaded"
      and get: "\<And>j. bt_get loaded j = (case map_of docs (document_name j) of
           Some b \<Rightarrow> if j = [] then bt_get holds j else result_ok (hc_decode S b)
         | None \<Rightarrow> bt_get holds j)"
      by blast
    have "j = []" if "name = document_name j" for j
      using False that by (auto split: if_splits)
    then show ?thesis
      using False l new
      by (intro exI [of _ loaded]) (auto simp: doc get split: option.split)
  qed
qed (auto split: option.splits)

lemma reopen_in_sync:
  assumes sync: "in_sync S holds disk" "holds_ok holds"
    and rb: "\<And>j h. bt_get holds j = Some h \<Longrightarrow> reads_back S h"
    and docs: "distinct (map fst docs)" "set docs = set disk"
  shows "file_open S directory None (Inr (map (\<lambda>(name, b). Inr (name, Inr b)) docs)) disk io =
           Inr \<lparr>fi_directory = directory, fi_holds = holds, fi_disk = disk, fi_io = io, fi_writes = 0\<rparr>"
proof -
  have disk: "distinct (map fst disk)" using sync(1) by (simp add: in_sync_def bt_ok_distinct)
  have get: "map_of docs name = bt_get disk name" for name
    using map_of_inject_set [OF docs(1) disk] docs(2) by (simp add: bt_get_def)
  have doc: "\<exists>h. hc_decode S b = Inr h \<and> name = document_name (ha_hold_id h)"
    if mem: "(name, b) \<in> set docs" and ext: "path_extension name = Some ''json''" for name b
  proof -
    have b: "bt_get disk name = Some b" using mem docs(1) by (simp flip: get)
    then obtain j h where "name = document_name j" "bt_get holds j = Some h"
      using sync(1) ext by (auto simp: in_sync_def)
    moreover from this have "hc_encode S h = Inr b"
      using in_sync_hold [OF sync(1), of j h] b by simp
    ultimately show ?thesis using rb [of j h] holds_ok_get [OF sync(2)] by (auto simp: reads_back_def)
  qed
  obtain loaded where l: "load_documents S directory [] (map (\<lambda>(name, b). Inr (name, Inr b)) docs) = Inr loaded"
    "bt_ok loaded" and ld: "\<And>j. bt_get loaded j = (case bt_get disk (document_name j) of
       Some b \<Rightarrow> if j = [] then bt_get [] j else result_ok (hc_decode S b) | None \<Rightarrow> bt_get [] j)"
    using load_documents_get [OF doc docs(1), of "[]" directory] unfolding get by auto
  have "bt_get loaded j = bt_get holds j" for j
  proof (cases "bt_get holds j")
    case None
    then have "j = [] \<or> bt_get disk (document_name j) = None"
      using in_sync_document [OF sync(1), of j] by (cases "bt_get disk (document_name j)") auto
    then show ?thesis using None ld by (auto split: option.split)
  next
    case (Some h)
    then obtain b where "bt_get disk (document_name j) = Some b" "hc_encode S h = Inr b"
      "is_opaque_hold_id j" using in_sync_hold [OF sync(1) Some] by blast
    then show ?thesis
      using Some rb [OF Some] opaque_nonempty ld by (auto simp: reads_back_def result_ok_def)
  qed
  then have "loaded = holds" using l(2) sync(2) by (intro bt_get_eq ext) (simp_all add: holds_ok_def)
  then show ?thesis using l(1) by (simp add: file_open_def)
qed

text \<open>
  The file backend refines the memory backend and survives a restart. From an empty
  directory, as long as writes succeed, the calls a daemon serves leave the two backends with
  the same holds and the same claims; and whenever the process stops, opening the directory
  again, its entries listed in any order, gives exactly the holds that were visible, provided
  their documents decode to what was encoded.
\<close>

theorem holds_survive_restart:
  assumes "file = \<lparr>fi_directory = directory, fi_holds = [], fi_disk = [], fi_io = io, fi_writes = 0\<rparr>"
    and "\<forall>n. io n = WriteOk" "\<forall>h. \<exists>b. hc_encode S h = Inr b" "list_all op_opaque ops"
    and "y = hold_run S ops (hold_start (CfgLocalFiles file))"
    and "z = hold_run S ops (hold_start (CfgMemory memory_default))"
    and "\<forall>j h. cfg_get (sy_store y) j = Some h \<longrightarrow> reads_back S h"
  shows "sy_claims y = sy_claims z \<and> cfg_get (sy_store y) = cfg_get (sy_store z) \<and>
    (\<exists>f. sy_store y = CfgLocalFiles f \<and>
      (\<forall>docs io'. distinct (map fst docs) \<longrightarrow> set docs = set (fi_disk f) \<longrightarrow>
        (\<exists>g. file_open S directory None (Inr (map (\<lambda>(name, b). Inr (name, Inr b)) docs))
               (fi_disk f) io' = Inr g \<and> file_get g = cfg_get (sy_store y))))"
proof -
  have "mirrored S (hold_start (CfgLocalFiles file)) (hold_start (CfgMemory memory_default))"
    using assms(1-3) by (simp add: mirrored_def hold_start_def mirrors_def memory_default_def
        writable_def in_sync_def)
  then have "mirrored S y z" using mirrored_run assms(4-6) by simp
  then obtain f m where st: "sy_store y = CfgLocalFiles f" "sy_store z = CfgMemory m"
    and cl: "sy_claims y = sy_claims z" and mir: "fi_holds f = ms_holds m" "holds_ok (ms_holds m)"
      "in_sync S (fi_holds f) (fi_disk f)"
    by (auto simp: mirrored_def mirrors_def)
  have "reads_back S h" if "bt_get (fi_holds f) j = Some h" for j h
    using assms(7) that st(1) by (auto simp: file_get_def)
  then have "\<exists>g. file_open S directory None (Inr (map (\<lambda>(name, b). Inr (name, Inr b)) docs))
               (fi_disk f) io' = Inr g \<and> file_get g = file_get f"
    if "distinct (map fst docs)" "set docs = set (fi_disk f)" for docs io'
    using reopen_in_sync [OF mir(3) _ _ that] mir(1,2) by (simp add: file_get_fun)
  then show ?thesis
    using st cl mir(1) by (auto simp: file_get_def mem_get_def fun_eq_iff)
qed

text \<open>
  A hold that cannot be written does not exist. When the file backend fails to create a
  hold, no caller ever sees it: the visible holds are unchanged, it cannot be claimed, and no
  document of it is left for the next start to load.
\<close>

theorem unwritten_hold_invisible:
  assumes "holds_ok (fi_holds f)" "file_create S f h = (Inl e, f')" "file_get f (ha_hold_id h) = None"
  shows "write_error e \<and> file_get f' = file_get f \<and>
    file_begin_decision S f' (ha_hold_id h) i t = (Inl (HsNotFound (ha_hold_id h)), f') \<and>
    (\<forall>name. path_extension name = Some ''json'' \<longrightarrow> bt_get (fi_disk f') name = bt_get (fi_disk f) name)"
proof -
  have p: "persist S f h = (Inl e, f')"
    using assms(2,3) by (auto simp: file_create_def file_get_def split: prod.splits sum.splits)
  have "bt_get (fi_disk f') name = bt_get (fi_disk f) name"
    if "path_extension name = Some ''json''" for name
    using p that temp_extension [of "ha_hold_id h"]
    by (auto simp: persist_def Let_def split: sum.splits write_outcome.splits option.splits)
  moreover have "holds_ok (fi_holds f')" using persistD [OF p] assms(1) by simp
  ultimately show ?thesis
    using files.create_refused [OF assms(1,2)] assms(3) files.begin_missing [of f'] by simp
qed

definition sample_codec :: hold_codec where
  "sample_codec = \<lparr>hc_encode = (\<lambda>_. Inr ''{}''), hc_decode = (\<lambda>_. Inr sample_hold)\<rparr>"

definition empty_files :: "(nat \<Rightarrow> write_outcome) \<Rightarrow> file_store" where
  "empty_files io = \<lparr>fi_directory = ''holds'', fi_holds = [], fi_disk = [], fi_io = io, fi_writes = 0\<rparr>"

lemma sample_opaque: "is_opaque_hold_id ''hold_sample''"
  by code_simp

theorem holds_survive_restart_witness:
  "\<exists>f g. sy_store (hold_run sample_codec [HCreate sample_hold]
        (hold_start (CfgLocalFiles (empty_files (\<lambda>_. WriteOk))))) = CfgLocalFiles f \<and>
     fi_disk f = [(''hold_sample.json'', ''{}'')] \<and>
     file_open sample_codec ''holds'' None (Inr [Inr (''hold_sample.json'', Inr ''{}'')])
       (fi_disk f) (\<lambda>_. WriteOk) = Inr g \<and>
     file_get g ''hold_sample'' = Some sample_hold"
proof -
  let ?y = "hold_run sample_codec [HCreate sample_hold]
        (hold_start (CfgLocalFiles (empty_files (\<lambda>_. WriteOk))))"
  obtain f where f: "sy_store ?y = CfgLocalFiles f" "fi_disk f = [(''hold_sample.json'', ''{}'')]"
    "fi_holds f = [(''hold_sample'', sample_hold)]"
    by (simp add: hold_run_def hold_start_def cfg_create_def file_create_def persist_def
        empty_files_def sample_codec_def put_cache_def document_name_def bt_retain_def)
  have "reads_back sample_codec h" if "cfg_get (sy_store ?y) j = Some h" for j h
    using that f by (auto simp: file_get_def reads_back_def sample_codec_def split: if_splits)
  then have rb: "\<forall>j h. cfg_get (sy_store ?y) j = Some h \<longrightarrow> reads_back sample_codec h" by blast
  have codec: "\<forall>h. \<exists>b. hc_encode sample_codec h = Inr b" by (simp add: sample_codec_def)
  have ops: "list_all op_opaque [HCreate sample_hold]" using sample_opaque by simp
  have "\<forall>docs io'. distinct (map fst docs) \<longrightarrow> set docs = set (fi_disk f) \<longrightarrow>
      (\<exists>g. file_open sample_codec ''holds'' None (Inr (map (\<lambda>(name, b). Inr (name, Inr b)) docs))
             (fi_disk f) io' = Inr g \<and> file_get g = cfg_get (sy_store ?y))"
    using holds_survive_restart [OF empty_files_def _ codec ops refl refl rb, THEN conjunct2,
        THEN conjunct2] f(1) by simp
  from this [rule_format, of "[(''hold_sample.json'', ''{}'')]" "\<lambda>_. WriteOk"] show ?thesis
    using f by (auto simp: file_get_fun)
qed

theorem unwritten_hold_invisible_witness:
  "file_get (snd (file_create sample_codec
     (empty_files (\<lambda>_. WriteFails ''full'' (Some ''{'')))  sample_hold)) ''hold_sample'' = None"
  using unwritten_hold_invisible [of "empty_files (\<lambda>_. WriteFails ''full'' (Some ''{''))" sample_codec
      sample_hold "HsIo ''holds/hold_sample.json.tmp'' ''full''", OF _ _ _, of _ "[]" 0]
  by (simp add: empty_files_def file_create_def persist_def sample_codec_def file_get_def temp_name_def
      document_name_def)

end
