(* ===== verification/Governance_Gate.thy ===== *)
theory Governance_Gate
  imports Governance_Rounds Held_Action
begin

text \<open>
  The pre-routing governance gate (\<^verbatim>\<open>crates/swarm-runtime/src/governance_gate.rs\<close>): which
  actions need a governance receipt, the check the autonomous path makes, and \<open>reauthorize\<close>,
  the check the human path makes at decision time. The authority is the governance policy of
  the Tom agent. The deserialisers of a contingency lease and of a receipt are arguments.
\<close>

definition requires_governance_receipt :: "response_action \<Rightarrow> bool" where
  "requires_governance_receipt action =
     (case action of
        BlockEgress _ \<Rightarrow> True | IsolateHost _ \<Rightarrow> True | RevokeCredential _ \<Rightarrow> True
      | SinkholeDns _ \<Rightarrow> True | TerminateUserSession _ _ \<Rightarrow> True
      | InjectFirewallRule _ _ _ _ _ \<Rightarrow> True | QuarantineFile _ _ \<Rightarrow> True | KillProcess _ _ \<Rightarrow> True
      | SuspendProcess _ _ \<Rightarrow> True | DisableUserAccount _ \<Rightarrow> True | ForcePasswordReset _ \<Rightarrow> True
      | RemoveScheduledTask _ _ \<Rightarrow> True | _ \<Rightarrow> False)"

type_synonym receipt_reader = "json \<Rightarrow> string + governance_receipt"
type_synonym lease_reader = "json \<Rightarrow> string + contingency_lease"

definition missing_governance_receipt_reason ::
  "crypto_lib \<Rightarrow> receipt_reader \<Rightarrow> action_request \<Rightarrow> string option" where
  "missing_governance_receipt_reason C receipt_of_json request =
     (if \<not> requires_governance_receipt (ar_action request) then None
      else case json_get (ar_evidence request) ''governance_receipt'' of
        None \<Rightarrow> Some ''missing governance receipt''
      | Some receipt_value \<Rightarrow>
        (case receipt_of_json receipt_value of
           Inl e \<Rightarrow> Some (''invalid governance receipt: '' @ e)
         | Inr receipt \<Rightarrow>
           (case governance_receipt_verify C receipt of
              Inl e \<Rightarrow> Some (''invalid governance receipt signature: '' @ consensus_error_display e)
            | Inr _ \<Rightarrow> None)))"

record receipt_bounds =
  gb_subject_captured_at_ms :: i64
  gb_max_age_ms :: u64

record governance_refusal =
  gf_rule :: string
  gf_reason :: string

definition refusal :: "string \<Rightarrow> string \<Rightarrow> governance_refusal" where
  "refusal rule reason = \<lparr>gf_rule = rule, gf_reason = reason\<rparr>"

text \<open>\<^verbatim>\<open>GovernanceAuthority::authorize_partition_request\<close> of the policy.\<close>

definition authority_authorizes ::
  "crypto_lib \<Rightarrow> lease_reader \<Rightarrow> 't governance_policy \<Rightarrow> action_request \<Rightarrow> i64 \<Rightarrow>
   (string + bool) \<times> 't governance_policy" where
  "authority_authorizes C lease_of_json policy request now_ms =
     (case authorize_partition_request C lease_of_json policy request now_ms of
        (Inl e, policy') \<Rightarrow> (Inl e, policy')
      | (Inr lease, policy') \<Rightarrow> (Inr (lease \<noteq> None), policy'))"

text \<open>G1 to G3: the attested decision, both freshness bounds, self-consistency.\<close>

definition check_payload ::
  "governance_receipt_payload \<Rightarrow> i64 \<Rightarrow> receipt_bounds \<Rightarrow> governance_refusal + governance_clearance" where
  "check_payload payload now_ms bounds =
     (if gr_decision payload \<noteq> Approve then
        Inl (refusal ''governance.receipt_veto'' ''the attested decision is a veto'')
      else if gr_issued_at_ms payload > gb_subject_captured_at_ms bounds then
        Inl (refusal ''governance.receipt_stale''
          (''receipt issued at '' @ dec_int (gr_issued_at_ms payload)
           @ '' after the action was held at '' @ dec_int (gb_subject_captured_at_ms bounds)))
      else if i64_saturating_sub now_ms (gr_issued_at_ms payload) > u64_as_i64 (gb_max_age_ms bounds) then
        Inl (refusal ''governance.receipt_stale''
          (''receipt issued at '' @ dec_int (gr_issued_at_ms payload)
           @ '' is older than '' @ dec_nat (gb_max_age_ms bounds) @ '' ms''))
      else if gr_threshold payload = 0 then
        Inl (refusal ''governance.receipt_committee_inconsistent'' ''threshold is zero'')
      else if gr_issued_by payload \<notin> set (gr_committee_members payload) then
        Inl (refusal ''governance.receipt_committee_inconsistent''
          ''issued_by is not a committee member'')
      else if gr_prevote_tally payload < gr_threshold payload \<or>
              gr_precommit_tally payload < gr_threshold payload then
        Inl (refusal ''governance.receipt_committee_inconsistent'' ''a tally is below the threshold'')
      else Inr ReceiptSignatureOk)"

definition check_receipt ::
  "crypto_lib \<Rightarrow> receipt_reader \<Rightarrow> action_request \<Rightarrow> i64 \<Rightarrow> receipt_bounds \<Rightarrow>
   governance_refusal + governance_clearance" where
  "check_receipt C receipt_of_json request now_ms bounds =
     (case json_get (ar_evidence request) ''governance_receipt'' of
        None \<Rightarrow> Inl (refusal ''governance.missing_receipt'' ''missing governance receipt'')
      | Some receipt_value \<Rightarrow>
        (case receipt_of_json receipt_value of
           Inl e \<Rightarrow> Inl (refusal ''governance.invalid_receipt'' (''invalid governance receipt: '' @ e))
         | Inr receipt \<Rightarrow>
           (case governance_receipt_verify C receipt of
              Inl e \<Rightarrow> Inl (refusal ''governance.invalid_receipt''
                         (''invalid governance receipt signature: '' @ consensus_error_display e))
            | Inr _ \<Rightarrow> check_payload (rcpt_payload receipt) now_ms bounds)))"

definition reauthorize ::
  "crypto_lib \<Rightarrow> lease_reader \<Rightarrow> receipt_reader \<Rightarrow> 't governance_policy option \<Rightarrow> action_request \<Rightarrow>
   i64 \<Rightarrow> receipt_bounds \<Rightarrow>
   (governance_refusal + governance_clearance) \<times> 't governance_policy option" where
  "reauthorize C lease_of_json receipt_of_json authority request now_ms bounds =
     (let (early, authority) =
            (case authority of
               None \<Rightarrow> (None, None)
             | Some policy \<Rightarrow>
               (case authority_authorizes C lease_of_json policy request now_ms of
                  (Inr True, policy') \<Rightarrow> (Some (Inr PartitionAuthorized), Some policy')
                | (Inr False, policy') \<Rightarrow> (None, Some policy')
                | (Inl reason, policy') \<Rightarrow>
                    (Some (Inl (refusal ''governance.partition_rejected'' reason)), Some policy')))
      in case early of
        Some result \<Rightarrow> (result, authority)
      | None \<Rightarrow>
          (if \<not> requires_governance_receipt (ar_action request) then Inr NotRequired
           else check_receipt C receipt_of_json request now_ms bounds, authority))"

section \<open>What clears the gate\<close>

lemma requires_receipt_destructive: "requires_governance_receipt a \<longleftrightarrow> is_destructive_action a"
  by (cases a) (simp_all add: requires_governance_receipt_def)

definition receipt_clears ::
  "crypto_lib \<Rightarrow> receipt_reader \<Rightarrow> action_request \<Rightarrow> i64 \<Rightarrow> receipt_bounds \<Rightarrow> bool" where
  "receipt_clears C receipt_of_json request now_ms bounds \<longleftrightarrow>
     (\<exists>value receipt. json_get (ar_evidence request) ''governance_receipt'' = Some value \<and>
        receipt_of_json value = Inr receipt \<and>
        (\<exists>key. governance_receipt_verify C receipt = Inr key) \<and>
        (let p = rcpt_payload receipt in
           gr_decision p = Approve \<and> gr_issued_at_ms p \<le> gb_subject_captured_at_ms bounds \<and>
           i64_saturating_sub now_ms (gr_issued_at_ms p) \<le> u64_as_i64 (gb_max_age_ms bounds) \<and>
           0 < gr_threshold p \<and> gr_issued_by p \<in> set (gr_committee_members p) \<and>
           gr_threshold p \<le> gr_prevote_tally p \<and> gr_threshold p \<le> gr_precommit_tally p))"

lemma check_payload_iff:
  "(\<exists>c. check_payload p t b = Inr c) \<longleftrightarrow>
     gr_decision p = Approve \<and> gr_issued_at_ms p \<le> gb_subject_captured_at_ms b \<and>
     i64_saturating_sub t (gr_issued_at_ms p) \<le> u64_as_i64 (gb_max_age_ms b) \<and>
     0 < gr_threshold p \<and> gr_issued_by p \<in> set (gr_committee_members p) \<and>
     gr_threshold p \<le> gr_prevote_tally p \<and> gr_threshold p \<le> gr_precommit_tally p"
  by (auto simp: check_payload_def)

lemma check_payload_Inr: "check_payload p t b = Inr c \<Longrightarrow> c = ReceiptSignatureOk"
  by (auto simp: check_payload_def split: if_splits)

lemma check_receipt_iff:
  "check_receipt C R request t b = Inr ReceiptSignatureOk \<longleftrightarrow> receipt_clears C R request t b"
proof -
  have "check_payload p t b = Inr ReceiptSignatureOk \<longleftrightarrow> (\<exists>c. check_payload p t b = Inr c)" for p
    using check_payload_Inr by blast
  then show ?thesis
    unfolding check_receipt_def receipt_clears_def Let_def
    by (auto simp: check_payload_iff split: option.splits sum.splits)
qed

lemma check_receipt_Inr: "check_receipt C R request t b = Inr c \<Longrightarrow> c = ReceiptSignatureOk"
  by (auto simp: check_receipt_def dest: check_payload_Inr split: option.splits sum.splits)

text \<open>
  C21. What clears the governance gate at decision time. An action that is not destructive clears. A destructive
  one clears exactly when the policy, if there is one, is partitioned and redeems a lease the request presents,
  or the policy, if there is one, does not reject it and the request carries a receipt that parses, verifies
  against its own key, attests an approval issued no later than the hold and no longer ago than the maximum
  age, and is consistent: a positive threshold, both tallies at least the threshold, and an issuer that is one
  of the committee. Without a policy only the receipt counts.
\<close>

theorem reauthorize_clears_iff:
  "(\<exists>c. fst (reauthorize C lease_of_json receipt_of_json authority request now_ms bounds) = Inr c) \<longleftrightarrow>
     (if is_destructive_action (ar_action request)
      then (case authority of
          None \<Rightarrow> receipt_clears C receipt_of_json request now_ms bounds
        | Some policy \<Rightarrow>
            (\<exists>lease. fst (authorize_partition_request C lease_of_json policy request now_ms) =
               Inr (Some lease)) \<or>
            fst (authorize_partition_request C lease_of_json policy request now_ms) = Inr None \<and>
            receipt_clears C receipt_of_json request now_ms bounds)
      else True)"
proof -
  have receipt: "(\<exists>c. check_receipt C receipt_of_json request now_ms bounds = Inr c) \<longleftrightarrow>
      receipt_clears C receipt_of_json request now_ms bounds"
    using check_receipt_iff check_receipt_Inr by metis
  show ?thesis
  proof (cases authority)
    case None
    then show ?thesis using receipt by (simp add: reauthorize_def requires_receipt_destructive)
  next
    case (Some policy)
    obtain r policy' where a: "authorize_partition_request C lease_of_json policy request now_ms = (r, policy')"
      by fastforce
    have idle: "r = Inr None" if "\<not> is_destructive_action (ar_action request)"
      using a that by (simp add: authorize_partition_request_def Let_def)
    show ?thesis
      using a idle receipt Some
      by (cases r) (auto simp: reauthorize_def authority_authorizes_def requires_receipt_destructive Let_def
          split: option.splits)
  qed
qed

text \<open>
  The receipts the governance policy mints clear the gate. When a policy outside a
  partition allows a destructive action, the receipt it returns, carried in the request's
  evidence, clears the gate of any authority that leaves the request to the receipt check, from
  the moment of issue until the maximum age, for a hold made at or after the issue.
\<close>

theorem minted_receipt_clears:
  assumes "crypto_laws C" "state_ok C (gp_state p)" "\<not> is_partitioned p" "is_destructive_action action"
    and "can_act C p action now clock = Some (GAllow (Some receipt) lease, p')"
    and "ar_action request = action"
      "json_get (ar_evidence request) ''governance_receipt'' = Some value" "receipt_of_json value = Inr receipt"
    and "fst (authorize_partition_request C lease_of_json authority request decided) = Inr None"
    and "clock \<le> gb_subject_captured_at_ms bounds"
      "i64_saturating_sub decided clock \<le> u64_as_i64 (gb_max_age_ms bounds)"
  shows "fst (reauthorize C lease_of_json receipt_of_json (Some authority) request decided bounds) =
           Inr ReceiptSignatureOk"
proof -
  obtain r proposal t' where r: "Some receipt = Some r"
    "run_governance_round C (gp_transport p) (gp_state p) (gp_transport_state p) proposal Approve clock =
       Some (Inr r, gp_state p', t')"
    using healthy_allow_round [OF assms(3,4,5)] by metis
  have gov: "governor_ok C (gs_local_governor (gp_state p)) (gs_peer_governors (gp_state p))"
    using assms(2) by (simp add: state_ok_def)
  have "receipt_ok C (gp_state p) Approve clock receipt"
    "gr_issued_by (rcpt_payload receipt) \<in> set (gr_committee_members (rcpt_payload receipt))"
    using round_receipt_ok [OF assms(1) gov r(2)] round_receipt_member [OF gov r(2)] r(1) by auto
  then have "receipt_clears C receipt_of_json request decided bounds"
    using assms(7-11) by (auto simp: receipt_clears_def receipt_ok_def Let_def)
  then have "check_receipt C receipt_of_json request decided bounds = Inr ReceiptSignatureOk"
    by (simp add: check_receipt_iff)
  then show ?thesis
    using assms(4,6,9)
    by (auto simp: reauthorize_def authority_authorizes_def requires_receipt_destructive Let_def
        split: prod.splits)
qed

definition carrying :: "governance_receipt \<Rightarrow> action_request" where
  "carrying r = \<lparr>ar_hunt_id = HuntId ''hunt'', ar_requested_by = AgentId ''pouncer'',
     ar_action = IsolateHost ''h1'', ar_severity = Critical,
     ar_evidence = JObject [(''governance_receipt'', receipt_payload_json (rcpt_payload r))]\<rparr>"

theorem minted_receipt_clears_witness:
  "\<exists>r p'. can_act model_crypto lone_policy (IsolateHost ''h1'') 5 6 = Some (GAllow (Some r) None, p') \<and>
     fst (reauthorize model_crypto (\<lambda>_. Inl []) (\<lambda>_. Inr r) (Some lone_policy) (carrying r) 70
       \<lparr>gb_subject_captured_at_ms = 10, gb_max_age_ms = 86400000\<rparr>) = Inr ReceiptSignatureOk"
proof -
  obtain r p' where act: "can_act model_crypto lone_policy (IsolateHost ''h1'') 5 6 = Some (GAllow (Some r) None, p')"
    using lone_policy_allows by blast
  have "fst (authorize_partition_request model_crypto (\<lambda>_. Inl []) lone_policy (carrying r) 70) = Inr None"
    using lone_policy_running by (simp add: authorize_partition_request_def is_partitioned_def Let_def)
  then have "fst (reauthorize model_crypto (\<lambda>_. Inl []) (\<lambda>_. Inr r) (Some lone_policy) (carrying r) 70
       \<lparr>gb_subject_captured_at_ms = 10, gb_max_age_ms = 86400000\<rparr>) = Inr ReceiptSignatureOk"
    by (intro minted_receipt_clears [OF model_crypto_laws lone_policy_ok lone_policy_running _ act,
        of "carrying r" "receipt_payload_json (rcpt_payload r)"])
      (simp_all add: carrying_def machine_int_defs u64_as_i64_def)
  with act show ?thesis by blast
qed

end
