(* ===== verification/Hold_Sweep.thy ===== *)
theory Hold_Sweep
  imports Hold_System
begin

text \<open>
  The hold sweep (\<^verbatim>\<open>crates/swarm-runtime/src/hold_sweep.rs\<close>): on every tick it expires holds
  past their time to live, resolves stalled decisions, and announces again the holds the relay
  never learned of. The sweep's store and its broadcaster are fields of its record; the
  broadcaster is the list of the events published so far. Listing the store cannot fail, since
  its lock is never poisoned. A tick is \<open>None\<close> when the age computed for the log overflows.
\<close>

datatype runtime_event =
    ResponseHeld i64 string string string severity i64 hold_state
  | ResponseExecution i64 string string string string policy_verdict string string
      "string option" "string option" "string option"

record sweep_report =
  sr_expired :: "string list"
  sr_stalled :: "string list"
  sr_refiled :: "string list"
  sr_failures :: "string list"

record hold_sweep =
  hw_store :: configured_store
  hw_events :: "runtime_event list option"
  hw_decide_stall_ms :: u64
  hw_refile_after_ms :: u64
  hw_refiled_at :: "(string, i64) btree"

definition sweep_new ::
  "configured_store \<Rightarrow> runtime_event list option \<Rightarrow> u64 \<Rightarrow> u64 \<Rightarrow> hold_sweep" where
  "sweep_new store events decide_stall_ms refile_after_ms =
     \<lparr>hw_store = store, hw_events = events, hw_decide_stall_ms = decide_stall_ms,
      hw_refile_after_ms = refile_after_ms, hw_refiled_at = []\<rparr>"

definition held_event :: "held_action \<Rightarrow> hold_state \<Rightarrow> i64 \<Rightarrow> runtime_event" where
  "held_event hold state at_ms =
     ResponseHeld at_ms (ha_hold_id hold) (hunt_str (ar_hunt_id (ha_action_request hold)))
       (kind (ar_action (ha_action_request hold))) (ar_severity (ha_action_request hold))
       (ha_expires_at_ms hold) state"

definition sweep_publish :: "hold_sweep \<Rightarrow> held_action \<Rightarrow> hold_state \<Rightarrow> i64 \<Rightarrow> hold_sweep" where
  "sweep_publish w hold state at_ms =
     w\<lparr>hw_events := map_option (\<lambda>es. es @ [held_event hold state at_ms]) (hw_events w)\<rparr>"

definition u64_try_i64 :: "u64 \<Rightarrow> i64" where
  "u64_try_i64 n = (if int n \<le> i64_max then int n else i64_max)"

text \<open>The two guards at the head of the loop, and the throttle.\<close>

definition refile_due :: "(string, i64) btree \<Rightarrow> i64 \<Rightarrow> i64 \<Rightarrow> held_action \<Rightarrow> bool" where
  "refile_due refiled_at interval_ms now_ms hold \<longleftrightarrow>
     \<not> (ha_state hold \<noteq> Created \<or> ha_notice_event_id hold \<noteq> None) \<and>
     \<not> i64_saturating_add (ha_held_at_ms hold) interval_ms > now_ms \<and>
     (case bt_get refiled_at (ha_hold_id hold) of
        None \<Rightarrow> True | Some prev \<Rightarrow> i64_saturating_add prev interval_ms \<le> now_ms)"

fun refile_loop ::
  "i64 \<Rightarrow> i64 \<Rightarrow> held_action list \<Rightarrow> hold_sweep \<Rightarrow> sweep_report \<Rightarrow>
   (hold_sweep \<times> sweep_report) option" where
  "refile_loop interval_ms now_ms [] w report = Some (w, report)"
| "refile_loop interval_ms now_ms (hold # rest) w report =
     (if \<not> refile_due (hw_refiled_at w) interval_ms now_ms hold
      then refile_loop interval_ms now_ms rest w report
      else case i64_sub now_ms (ha_held_at_ms hold) of
        None \<Rightarrow> None
      | Some age_ms \<Rightarrow>
          let w = sweep_publish w hold Created now_ms
          in refile_loop interval_ms now_ms rest
               (w\<lparr>hw_refiled_at := bt_insert (ha_hold_id hold) now_ms (hw_refiled_at w)\<rparr>)
               (report\<lparr>sr_refiled := sr_refiled report @ [ha_hold_id hold]\<rparr>))"

definition refile_unfiled ::
  "hold_sweep \<Rightarrow> i64 \<Rightarrow> sweep_report \<Rightarrow> (hold_sweep \<times> sweep_report) option" where
  "refile_unfiled w now_ms report =
     (let open_holds = cfg_list (hw_store w) False u64_max;
          interval_ms = u64_try_i64 (hw_refile_after_ms w)
      in case refile_loop interval_ms now_ms open_holds w report of
        None \<Rightarrow> None
      | Some (w, report) \<Rightarrow>
          Some (w\<lparr>hw_refiled_at :=
                   bt_retain (\<lambda>hold_id. hold_id \<in> set (map ha_hold_id open_holds)) (hw_refiled_at w)\<rparr>,
                report))"

fun publish_each :: "hold_sweep \<Rightarrow> held_action list \<Rightarrow> hold_state \<Rightarrow> i64 \<Rightarrow> hold_sweep" where
  "publish_each w [] state at_ms = w"
| "publish_each w (hold # rest) state at_ms =
     publish_each (sweep_publish w hold state at_ms) rest state at_ms"

definition expire_pass ::
  "hold_codec \<Rightarrow> hold_sweep \<Rightarrow> i64 \<Rightarrow> sweep_report \<Rightarrow> hold_sweep \<times> sweep_report" where
  "expire_pass S w now_ms report =
     (let (result, store) = cfg_expire_due S (hw_store w) now_ms; w = w\<lparr>hw_store := store\<rparr>
      in case result of
        Inr expired \<Rightarrow>
          (publish_each w expired Expired now_ms,
           report\<lparr>sr_expired := sr_expired report @ map ha_hold_id expired\<rparr>)
      | Inl e \<Rightarrow>
          (w, report\<lparr>sr_failures := sr_failures report @ [''expire_due: '' @ store_error_display e]\<rparr>))"

definition stall_pass ::
  "hold_codec \<Rightarrow> hold_sweep \<Rightarrow> i64 \<Rightarrow> sweep_report \<Rightarrow> hold_sweep \<times> sweep_report" where
  "stall_pass S w now_ms report =
     (let (result, store) =
            cfg_fail_stalled_decisions S (hw_store w) now_ms (hw_decide_stall_ms w);
          w = w\<lparr>hw_store := store\<rparr>
      in case result of
        Inr stalled \<Rightarrow>
          (publish_each w stalled HoldFailed now_ms,
           report\<lparr>sr_stalled := sr_stalled report @ map ha_hold_id stalled\<rparr>)
      | Inl e \<Rightarrow>
          (w, report\<lparr>sr_failures := sr_failures report
                @ [''fail_stalled_decisions: '' @ store_error_display e]\<rparr>))"

definition empty_report :: sweep_report where
  "empty_report = \<lparr>sr_expired = [], sr_stalled = [], sr_refiled = [], sr_failures = []\<rparr>"

definition sweep_tick ::
  "hold_codec \<Rightarrow> hold_sweep \<Rightarrow> i64 \<Rightarrow> (hold_sweep \<times> sweep_report) option" where
  "sweep_tick S w now_ms =
     (let (w, report) = expire_pass S w now_ms empty_report;
          (w, report) = stall_pass S w now_ms report
      in refile_unfiled w now_ms report)"

section \<open>What a tick does\<close>

lemma publish_frame [simp]:
  "hw_store (sweep_publish w h st t) = hw_store w"
  "hw_refiled_at (sweep_publish w h st t) = hw_refiled_at w"
  "hw_refile_after_ms (sweep_publish w h st t) = hw_refile_after_ms w"
  "hw_decide_stall_ms (sweep_publish w h st t) = hw_decide_stall_ms w"
  by (simp_all add: sweep_publish_def)

lemma publish_each_frame [simp]:
  "hw_store (publish_each w hs st t) = hw_store w"
  "hw_refiled_at (publish_each w hs st t) = hw_refiled_at w"
  "hw_refile_after_ms (publish_each w hs st t) = hw_refile_after_ms w"
  "hw_decide_stall_ms (publish_each w hs st t) = hw_decide_stall_ms w"
  by (induction w hs st t rule: publish_each.induct) simp_all

lemma refile_loop_effect:
  assumes "refile_loop d t hs w r = Some (w', r')" "distinct (map ha_hold_id hs)"
  shows "hw_store w' = hw_store w \<and>
    sr_refiled r' = sr_refiled r @ map ha_hold_id (filter (refile_due (hw_refiled_at w) d t) hs) \<and>
    sr_failures r' = sr_failures r \<and> sr_expired r' = sr_expired r \<and> sr_stalled r' = sr_stalled r"
  using assms
proof (induction hs arbitrary: w r)
  case (Cons h hs)
  have new: "ha_hold_id g \<noteq> ha_hold_id h" if "g \<in> set hs" for g
    using Cons.prems(2) that by (auto simp: rev_image_eqI)
  have same: "filter (refile_due (bt_insert (ha_hold_id h) t m) d t) hs = filter (refile_due m d t) hs" for m
    by (intro filter_cong) (auto simp: refile_due_def dest: new)
  show ?case
  proof (cases "refile_due (hw_refiled_at w) d t h")
    case True
    with Cons show ?thesis by (auto simp: Let_def same split: option.splits)
  next
    case False
    with Cons show ?thesis by simp
  qed
qed simp

lemma refile_loop_total:
  "(\<And>h. h \<in> set hs \<Longrightarrow> in_i64 (t - ha_held_at_ms h)) \<Longrightarrow> \<exists>out. refile_loop d t hs w r = Some out"
  by (induction hs arbitrary: w r) (auto simp: i64_sub_def Let_def)

text \<open>
  A pass leaves the throttle alone and the holds as its sweep of the store leaves them; when it
  reports no failure every hold was swept, and the ids it reports are those of the holds it
  changed.
\<close>

definition pass_effect ::
  "(held_action \<Rightarrow> bool \<times> held_action) \<Rightarrow> hold_sweep \<Rightarrow> hold_sweep \<Rightarrow> bool \<Rightarrow> string list \<Rightarrow> bool" where
  "pass_effect f w w' clean ids \<longleftrightarrow>
     cfg_ok (hw_store w') \<and> hw_refiled_at w' = hw_refiled_at w \<and>
     hw_refile_after_ms w' = hw_refile_after_ms w \<and> hw_decide_stall_ms w' = hw_decide_stall_ms w \<and>
     (\<forall>j. cfg_get (hw_store w') j = cfg_get (hw_store w) j \<or>
          cfg_get (hw_store w') j = map_option (snd \<circ> f) (cfg_get (hw_store w) j)) \<and>
     (clean \<longrightarrow>
        (\<forall>j. cfg_get (hw_store w') j = map_option (snd \<circ> f) (cfg_get (hw_store w) j)) \<and>
        set ids = {j. \<exists>h. cfg_get (hw_store w) j = Some h \<and> fst (f h)})"

lemma swept_ids:
  assumes "swept cfg_get s f (Inr hs, s')" "cfg_ok s" "\<And>h. ha_hold_id (snd (f h)) = ha_hold_id h"
  shows "set (map ha_hold_id hs) = {j. \<exists>h. cfg_get s j = Some h \<and> fst (f h)}"
proof -
  have "set hs = {snd (f h) |i h. cfg_get s i = Some h \<and> fst (f h)}"
    using assms(1) by (simp add: swept_def)
  then show ?thesis
    using assms(3) configured.view_id [OF assms(2)] by (auto simp: image_iff) metis+
qed

lemma pass_effectI:
  assumes "swept cfg_get (hw_store w) f (r, s')" "cfg_ok (hw_store w)" "cfg_ok s'"
    and "\<And>h. ha_hold_id (snd (f h)) = ha_hold_id h"
    and "hw_store w' = s'" "hw_refiled_at w' = hw_refiled_at w"
      "hw_refile_after_ms w' = hw_refile_after_ms w" "hw_decide_stall_ms w' = hw_decide_stall_ms w"
    and "\<And>e. r = Inl e \<Longrightarrow> \<not> clean" "\<And>hs. r = Inr hs \<Longrightarrow> ids = map ha_hold_id hs"
  shows "pass_effect f w w' clean ids"
proof (cases r)
  case (Inl e)
  with assms show ?thesis by (simp add: pass_effect_def swept_def)
next
  case (Inr hs)
  with assms swept_ids [of "hw_store w" f hs s'] show ?thesis
    by (simp add: pass_effect_def swept_def)
qed

lemma expire_pass_effect:
  assumes "cfg_ok (hw_store w)" "expire_pass S w t empty_report = (w', rep)"
  shows "pass_effect (\<lambda>h. tr_expire h t) w w' (sr_failures rep = []) (sr_expired rep) \<and>
         sr_refiled rep = [] \<and> sr_stalled rep = []"
proof -
  obtain r s' where r: "cfg_expire_due S (hw_store w) t = (r, s')" by fastforce
  have "pass_effect (\<lambda>h. tr_expire h t) w w' (sr_failures rep = []) (sr_expired rep)"
    using configured.expire_law [OF assms(1), where S = S and t = t] configured.ok_expire [OF assms(1), where S = S and t = t] r assms
    by (intro pass_effectI [where r = r and s' = s'])
      (auto simp: expire_pass_def empty_report_def Let_def split: sum.splits)
  then show ?thesis
    using assms(2) r by (auto simp: expire_pass_def empty_report_def Let_def split: sum.splits)
qed

lemma stall_pass_effect:
  assumes "cfg_ok (hw_store w)" "stall_pass S w t rep = (w', rep')" "sr_stalled rep = []"
  shows "pass_effect (\<lambda>h. tr_fail_stalled h t (hw_decide_stall_ms w)) w w'
           (sr_failures rep' = []) (sr_stalled rep') \<and>
         sr_refiled rep' = sr_refiled rep \<and> sr_expired rep' = sr_expired rep \<and>
         (sr_failures rep' = [] \<longrightarrow> sr_failures rep = [])"
proof -
  obtain r s' where r: "cfg_fail_stalled_decisions S (hw_store w) t (hw_decide_stall_ms w) = (r, s')"
    by fastforce
  have "pass_effect (\<lambda>h. tr_fail_stalled h t (hw_decide_stall_ms w)) w w'
           (sr_failures rep' = []) (sr_stalled rep')"
    using configured.stalled_law [OF assms(1), where S = S and t = t and m = "hw_decide_stall_ms w"]
      configured.ok_stalled [OF assms(1), where S = S and t = t and m = "hw_decide_stall_ms w"] r assms
    by (intro pass_effectI [where r = r and s' = s'])
      (auto simp: stall_pass_def Let_def split: sum.splits)
  then show ?thesis using assms(2) r by (auto simp: stall_pass_def Let_def split: sum.splits)
qed

definition remaining :: "i64 \<Rightarrow> u64 \<Rightarrow> held_action \<Rightarrow> held_action" where
  "remaining now_ms stall_ms h = snd (tr_fail_stalled (snd (tr_expire h now_ms)) now_ms stall_ms)"

lemma remaining_settled:
  "\<not> (hold_is_open (remaining t m h) \<and> ha_expires_at_ms (remaining t m h) \<le> t) \<and>
   \<not> is_stalled (remaining t m h) t m"
  by (auto simp: remaining_def tr_expire_def tr_fail_stalled_def is_stalled_def hold_is_open_def)

lemma stalled_after_expiry: "fst (tr_fail_stalled (snd (tr_expire h t)) t m) \<longleftrightarrow> is_stalled h t m"
  by (auto simp: tr_expire_def tr_fail_stalled_def is_stalled_def)

lemma retired_not_created:
  "fst (tr_expire h t) \<or> is_stalled h t m \<Longrightarrow> ha_state (remaining t m h) \<noteq> Created"
  by (auto simp: remaining_def tr_expire_def tr_fail_stalled_def is_stalled_def)

lemma held_at_kept [simp]:
  "ha_held_at_ms (snd (tr_expire h t)) = ha_held_at_ms h"
  "ha_held_at_ms (snd (tr_fail_stalled h t m)) = ha_held_at_ms h"
  by (simp_all add: tr_expire_def tr_fail_stalled_def)

lemma pass_effect_held_at:
  assumes "pass_effect f w w' clean ids" "\<And>h. ha_held_at_ms (snd (f h)) = ha_held_at_ms h"
    and "\<forall>j h. cfg_get (hw_store w) j = Some h \<longrightarrow> P (ha_held_at_ms h)"
  shows "\<forall>j h. cfg_get (hw_store w') j = Some h \<longrightarrow> P (ha_held_at_ms h)"
proof (intro allI impI)
  fix j h assume "cfg_get (hw_store w') j = Some h"
  moreover have "cfg_get (hw_store w') j = cfg_get (hw_store w) j \<or>
      cfg_get (hw_store w') j = map_option (snd \<circ> f) (cfg_get (hw_store w) j)"
    using assms(1) by (simp add: pass_effect_def)
  ultimately obtain g where "cfg_get (hw_store w) j = Some g" "ha_held_at_ms h = ha_held_at_ms g"
    using assms(2) by (cases "cfg_get (hw_store w) j") auto
  then show "P (ha_held_at_ms h)" using assms(3) by simp
qed

text \<open>What the store and the throttle are after a tick, and what it reports.\<close>

definition holds_after_tick :: "hold_sweep \<Rightarrow> i64 \<Rightarrow> hold_sweep \<Rightarrow> sweep_report \<Rightarrow> bool" where
  "holds_after_tick w now_ms w' report \<longleftrightarrow>
     (\<forall>j. cfg_get (hw_store w') j =
        map_option (remaining now_ms (hw_decide_stall_ms w)) (cfg_get (hw_store w) j)) \<and>
     set (sr_expired report) = {j. \<exists>h. cfg_get (hw_store w) j = Some h \<and>
        hold_is_open h \<and> ha_expires_at_ms h \<le> now_ms} \<and>
     set (sr_stalled report) = {j. \<exists>h. cfg_get (hw_store w) j = Some h \<and>
        is_stalled h now_ms (hw_decide_stall_ms w)}"

definition refiled_by_tick :: "hold_sweep \<Rightarrow> i64 \<Rightarrow> hold_sweep \<Rightarrow> sweep_report \<Rightarrow> bool" where
  "refiled_by_tick w now_ms w' report \<longleftrightarrow>
     set (sr_refiled report) = {j. \<exists>h. cfg_get (hw_store w') j = Some h \<and>
        refile_due (hw_refiled_at w) (u64_try_i64 (hw_refile_after_ms w)) now_ms h} \<and>
     (\<forall>j. bt_get (hw_refiled_at w') j \<noteq> None \<longrightarrow>
        (\<exists>h. cfg_get (hw_store w') j = Some h \<and> \<not> hold_is_terminal h))"

lemma passes_effect:
  assumes "pass_effect (\<lambda>h. tr_expire h t) w w1 True ex"
    and "pass_effect (\<lambda>h. tr_fail_stalled h t (hw_decide_stall_ms w)) w1 w2 True st"
    and "hw_store w' = hw_store w2" "sr_expired rep = ex" "sr_stalled rep = st"
  shows "holds_after_tick w t w' rep"
proof -
  have one: "cfg_get (hw_store w1) j = map_option (\<lambda>h. snd (tr_expire h t)) (cfg_get (hw_store w) j)"
    and two: "cfg_get (hw_store w2) j =
      map_option (\<lambda>h. snd (tr_fail_stalled h t (hw_decide_stall_ms w))) (cfg_get (hw_store w1) j)" for j
    using assms(1,2) by (simp_all add: pass_effect_def comp_def)
  have ex: "set ex = {j. \<exists>h. cfg_get (hw_store w) j = Some h \<and> fst (tr_expire h t)}"
    and st: "set st = {j. \<exists>h. cfg_get (hw_store w1) j = Some h \<and>
        fst (tr_fail_stalled h t (hw_decide_stall_ms w))}"
    using assms(1,2) by (simp_all add: pass_effect_def)
  have "set st = {j. \<exists>h. cfg_get (hw_store w) j = Some h \<and> is_stalled h t (hw_decide_stall_ms w)}"
    unfolding st one by (auto simp: stalled_after_expiry)
  moreover have "set ex = {j. \<exists>h. cfg_get (hw_store w) j = Some h \<and> hold_is_open h \<and> ha_expires_at_ms h \<le> t}"
    unfolding ex by (auto simp: tr_expire_def hold_is_open_def)
  moreover have "cfg_get (hw_store w2) j =
      map_option (remaining t (hw_decide_stall_ms w)) (cfg_get (hw_store w) j)" for j
    unfolding two one by (simp add: option.map_comp comp_def remaining_def [abs_def])
  ultimately show ?thesis using assms(3-5) by (simp add: holds_after_tick_def)
qed

lemma refile_effect:
  assumes ok: "cfg_ok (hw_store w2)"
    and few: "length (cfg_list (hw_store w2) False u64_max) < u64_max"
    and same: "hw_store w' = hw_store w2" "hw_refiled_at w2 = hw_refiled_at w"
      "hw_refile_after_ms w2 = hw_refile_after_ms w"
    and rep: "sr_refiled rep = map ha_hold_id (filter (refile_due (hw_refiled_at w2)
        (u64_try_i64 (hw_refile_after_ms w2)) t) (cfg_list (hw_store w2) False u64_max))"
    and throttle: "hw_refiled_at w' = bt_retain
        (\<lambda>j. j \<in> set (map ha_hold_id (cfg_list (hw_store w2) False u64_max))) m"
  shows "refiled_by_tick w t w' rep"
proof -
  have mem: "h \<in> set (cfg_list (hw_store w2) False u64_max) \<longleftrightarrow>
      cfg_get (hw_store w2) (ha_hold_id h) = Some h \<and> \<not> hold_is_terminal h" for h
    using configured.list_sound [OF ok] configured.list_complete [OF ok few] by blast
  have "\<not> hold_is_terminal h" if "refile_due r d t h" for r d h
    using that by (auto simp: refile_due_def hold_is_terminal_def)
  then show ?thesis
    using configured.view_id [OF ok]
    by (auto simp: refiled_by_tick_def same rep throttle mem image_iff split: if_splits) metis
qed

text \<open>
  One tick of the sweep. It always returns when the clock and the holds' times are
  representable and not before the epoch. When the store reports no failure, every hold is as
  before except that the open holds past their time to live have expired and the stalled
  decisions have failed: none of either is left, and exactly these are reported. The holds
  announced again are those still created, without a notice, older than the interval and not
  announced within it, never one the same tick retired; and the throttle remembers only
  undecided holds of the store.
\<close>

theorem sweep_tick_effect:
  assumes "cfg_ok (hw_store w)" "0 \<le> now_ms" "now_ms \<le> i64_max"
    and "\<forall>j h. cfg_get (hw_store w) j = Some h \<longrightarrow> 0 \<le> ha_held_at_ms h \<and> ha_held_at_ms h \<le> i64_max"
  shows "\<exists>w' report. sweep_tick S w now_ms = Some (w', report) \<and>
    (sr_failures report = [] \<longrightarrow> length (cfg_list (hw_store w') False u64_max) < u64_max \<longrightarrow>
      holds_after_tick w now_ms w' report \<and> refiled_by_tick w now_ms w' report \<and>
      (\<forall>j h. cfg_get (hw_store w') j = Some h \<longrightarrow>
         \<not> (hold_is_open h \<and> ha_expires_at_ms h \<le> now_ms) \<and>
         \<not> is_stalled h now_ms (hw_decide_stall_ms w)) \<and>
      set (sr_refiled report) \<inter> (set (sr_expired report) \<union> set (sr_stalled report)) = {})"
proof -
  obtain w1 rep1 where p1: "expire_pass S w now_ms empty_report = (w1, rep1)" by fastforce
  obtain w2 rep2 where p2: "stall_pass S w1 now_ms rep1 = (w2, rep2)" by fastforce
  note e1 = expire_pass_effect [OF assms(1) p1]
  have ok1: "cfg_ok (hw_store w1)" and d1: "hw_decide_stall_ms w1 = hw_decide_stall_ms w"
    using e1 by (auto simp: pass_effect_def)
  have e2: "pass_effect (\<lambda>h. tr_fail_stalled h now_ms (hw_decide_stall_ms w)) w1 w2
      (sr_failures rep2 = []) (sr_stalled rep2)" "sr_refiled rep2 = []" "sr_expired rep2 = sr_expired rep1"
    "sr_failures rep2 = [] \<longrightarrow> sr_failures rep1 = []"
    using stall_pass_effect [OF ok1 p2] e1 d1 by auto
  have ok2: "cfg_ok (hw_store w2)" using e2(1) by (simp add: pass_effect_def)
  have "\<forall>j h. cfg_get (hw_store w2) j = Some h \<longrightarrow> 0 \<le> ha_held_at_ms h \<and> ha_held_at_ms h \<le> i64_max"
    by (rule pass_effect_held_at [OF e2(1)], simp,
        rule pass_effect_held_at [OF e1 [THEN conjunct1]], simp, rule assms(4))
  then have "in_i64 (now_ms - ha_held_at_ms h)" if "h \<in> set (cfg_list (hw_store w2) False u64_max)" for h
    using configured.list_sound [OF ok2 that] assms(2,3) by (fastforce simp: machine_int_defs)
  then obtain w3 rep3 where loop: "refile_loop (u64_try_i64 (hw_refile_after_ms w2)) now_ms
      (cfg_list (hw_store w2) False u64_max) w2 rep2 = Some (w3, rep3)"
    using refile_loop_total by fastforce
  note e3 = refile_loop_effect [OF loop configured.list_distinct [OF ok2]]
  define w' where "w' = w3\<lparr>hw_refiled_at := bt_retain
     (\<lambda>j. j \<in> set (map ha_hold_id (cfg_list (hw_store w2) False u64_max))) (hw_refiled_at w3)\<rparr>"
  have st: "hw_store w' = hw_store w2" using e3 by (simp add: w'_def)
  show ?thesis
  proof (intro exI [of _ w'] exI [of _ rep3] conjI impI allI)
    show "sweep_tick S w now_ms = Some (w', rep3)"
      by (simp add: sweep_tick_def p1 p2 refile_unfiled_def Let_def loop w'_def)
    assume clean: "sr_failures rep3 = []" and few: "length (cfg_list (hw_store w') False u64_max) < u64_max"
    have c: "sr_failures rep2 = []" "sr_failures rep1 = []" using clean e3 e2(4) by simp_all
    show after: "holds_after_tick w now_ms w' rep3"
      using e1 e2 e3 c by (intro passes_effect [of now_ms w w1 _ w2]) (simp_all add: st)
    show refiled: "refiled_by_tick w now_ms w' rep3"
      using few e1 e2 e3 by (intro refile_effect [OF ok2]) (simp_all add: st w'_def pass_effect_def)
    have get: "cfg_get (hw_store w') j =
        map_option (remaining now_ms (hw_decide_stall_ms w)) (cfg_get (hw_store w) j)" for j
      using after by (simp add: holds_after_tick_def)
    show "\<not> (hold_is_open h \<and> ha_expires_at_ms h \<le> now_ms)" "\<not> is_stalled h now_ms (hw_decide_stall_ms w)"
      if "cfg_get (hw_store w') j = Some h" for j h
      using that get [of j] remaining_settled [of now_ms "hw_decide_stall_ms w"] by auto
    show "set (sr_refiled rep3) \<inter> (set (sr_expired rep3) \<union> set (sr_stalled rep3)) = {}"
      using refiled after retired_not_created [of _ now_ms "hw_decide_stall_ms w"] get
      by (auto simp: refiled_by_tick_def holds_after_tick_def refile_due_def tr_expire_def hold_is_open_def)
  qed
qed

definition sample_sweep :: hold_sweep where
  "sample_sweep = sweep_new (CfgMemory \<lparr>ms_holds = [(''hold_sample'', sample_hold)]\<rparr>) (Some []) 60000 30000"

lemma sample_tick:
  "\<exists>w'. sweep_tick no_codec sample_sweep 3600000 =
     Some (w', \<lparr>sr_expired = [''hold_sample''], sr_stalled = [], sr_refiled = [], sr_failures = []\<rparr>) \<and>
     length (cfg_list (hw_store w') False u64_max) < u64_max"
  by (simp add: sweep_tick_def expire_pass_def stall_pass_def empty_report_def sample_sweep_def
      sweep_new_def cfg_expire_due_def mem_expire_due_def mem_sweep_def changed_holds_def
      bt_values_def bt_map_def tr_expire_def cfg_fail_stalled_decisions_def
      mem_fail_stalled_decisions_def tr_fail_stalled_def is_stalled_def refile_unfiled_def
      cfg_list_def mem_list_def list_of_holds_def hold_is_terminal_def u64_max_def)

theorem sweep_tick_effect_witness:
  "\<exists>w' report. sweep_tick no_codec sample_sweep 3600000 = Some (w', report) \<and>
     sr_expired report = [''hold_sample''] \<and> holds_after_tick sample_sweep 3600000 w' report"
proof -
  have ok: "cfg_ok (hw_store sample_sweep)"
    by (auto simp: sample_sweep_def sweep_new_def holds_ok_def bt_ok_def split: if_splits)
  have held: "\<forall>j h. cfg_get (hw_store sample_sweep) j = Some h \<longrightarrow>
      0 \<le> ha_held_at_ms h \<and> ha_held_at_ms h \<le> i64_max"
    by (auto simp: sample_sweep_def sweep_new_def mem_get_def sample_hold_def held_action_new_def
        i64_max_def split: if_splits)
  show ?thesis
    using sweep_tick_effect [OF ok _ _ held, of 3600000 no_codec] sample_tick
    by (auto simp: i64_max_def)
qed

end
