(* ===== verification/Response_Types.thy ===== *)
theory Response_Types
  imports Held_Action
begin

text \<open>
  Receipts, failures and audit trails of the response lane (\<^verbatim>\<open>crates/swarm-response/src/lib.rs\<close>,
  \<^verbatim>\<open>crates/swarm-spine/src/lib.rs\<close>, \<^verbatim>\<open>OperatorApproval\<close> of \<^verbatim>\<open>crates/swarm-core/src/types.rs\<close>), the
  builders that attach attribution to a receipt, and the JSON the serde derives of these types
  give where the runtime puts them into other records.
\<close>

section \<open>Trails and receipts\<close>

datatype execution_mode = DryRun | Enforced

datatype response_status = StatusSimulated | StatusExecuted | StatusTimeout | StatusFailed

record operator_approval =
  oa_operator_id :: string
  oa_voter_id :: string
  oa_hold_id :: string
  oa_decided_at_ms :: i64
  oa_signature :: detached_signature
  oa_rationale :: "string option"
  oa_rationale_sha256 :: "string option"
  oa_nostr_intent_event_id :: "string option"

record response_governance_audit =
  rg_governing_agent_id :: agent_id
  rg_reason :: string
  rg_receipt :: "json option"

record response_receipt_audit =
  rra_policy :: "policy_decision option"
  rra_governance :: "response_governance_audit option"
  rra_approved_by :: "operator_approval option"

record response_receipt =
  rr_receipt_id :: string
  rr_action :: string
  rr_mode :: execution_mode
  rr_status :: response_status
  rr_summary :: string
  rr_details :: json
  rr_audit :: response_receipt_audit

record response_failure =
  rf_receipt_id :: string
  rf_action :: string
  rf_mode :: execution_mode
  rf_message :: string
  rf_details :: json

datatype audit_response =
    Success response_receipt
  | Failure response_failure
  | Skipped string
  | GuardRejected string string

record policy_record =
  pr_verdict :: policy_verdict
  pr_rule_name :: string
  pr_reason :: string
  pr_lease :: "capability_lease option"

record audit_trail =
  at_trail_id :: string
  at_hunt_id :: string
  at_related_receipt_ids :: "string list"
  at_detection :: detection_finding
  at_policy :: policy_record
  at_response :: audit_response
  at_created_at_ms :: i64

definition response_kind :: "audit_trail \<Rightarrow> string" where
  "response_kind audit =
     (case at_response audit of
        Success _ \<Rightarrow> ''success'' | Failure _ \<Rightarrow> ''failure'' | Skipped _ \<Rightarrow> ''skipped''
      | GuardRejected _ _ \<Rightarrow> ''guard_rejected'')"

definition response_receipt_details :: "audit_trail \<Rightarrow> string option \<times> string option" where
  "response_receipt_details audit =
     (case at_response audit of
        Success receipt \<Rightarrow> (Some (rr_receipt_id receipt), None)
      | Failure failure \<Rightarrow> (Some (rf_receipt_id failure), Some (rf_message failure))
      | Skipped _ \<Rightarrow> (None, None)
      | GuardRejected _ _ \<Rightarrow> (None, None))"

record execution_report =
  xr_audit :: audit_trail
  xr_response_attempted :: bool
  xr_response_succeeded :: bool

section \<open>Attribution\<close>

record response_error =
  re_failure :: response_failure

definition receipt_audit_default :: response_receipt_audit where
  "receipt_audit_default = \<lparr>rra_policy = None, rra_governance = None, rra_approved_by = None\<rparr>"

fun indicates_success :: "response_status \<Rightarrow> bool" where
  "indicates_success StatusSimulated = True"
| "indicates_success StatusExecuted = True"
| "indicates_success StatusTimeout = False"
| "indicates_success StatusFailed = False"

definition with_operator_approval :: "response_receipt \<Rightarrow> operator_approval \<Rightarrow> response_receipt" where
  "with_operator_approval receipt approval =
     receipt\<lparr>rr_audit := (rr_audit receipt)\<lparr>rra_approved_by := Some approval\<rparr>\<rparr>"

definition with_policy_audit ::
  "response_receipt \<Rightarrow> policy_verdict \<Rightarrow> string \<Rightarrow> string \<Rightarrow> response_receipt" where
  "with_policy_audit receipt verdict rule_name reason =
     receipt\<lparr>rr_audit := (rr_audit receipt)\<lparr>rra_policy :=
       Some \<lparr>pd_verdict = verdict, pd_rule_name = rule_name, pd_reason = reason\<rparr>\<rparr>\<rparr>"

definition with_governance_audit ::
  "response_receipt \<Rightarrow> agent_id \<Rightarrow> string \<Rightarrow> json option \<Rightarrow> response_receipt" where
  "with_governance_audit receipt governing_agent_id reason governance_receipt =
     receipt\<lparr>rr_audit := (rr_audit receipt)\<lparr>rra_governance :=
       Some \<lparr>rg_governing_agent_id = governing_agent_id, rg_reason = reason,
             rg_receipt = governance_receipt\<rparr>\<rparr>\<rparr>"

definition execution_failed ::
  "string \<Rightarrow> string \<Rightarrow> execution_mode \<Rightarrow> string \<Rightarrow> json \<Rightarrow> response_error" where
  "execution_failed receipt_id action mode message details =
     \<lparr>re_failure = \<lparr>rf_receipt_id = receipt_id, rf_action = action, rf_mode = mode,
                    rf_message = message, rf_details = details\<rparr>\<rparr>"

definition response_error_display :: "response_error \<Rightarrow> string" where
  "response_error_display e = rf_message (re_failure e)"

section \<open>The serialised forms\<close>

text \<open>A field with \<^verbatim>\<open>skip_serializing_if = Option::is_none\<close>.\<close>

definition json_some :: "string \<Rightarrow> ('a \<Rightarrow> json) \<Rightarrow> 'a option \<Rightarrow> (string \<times> json) list" where
  "json_some key f x = (case x of None \<Rightarrow> [] | Some v \<Rightarrow> [(key, f v)])"

fun policy_verdict_str :: "policy_verdict \<Rightarrow> string" where
  "policy_verdict_str Deny = ''deny''"
| "policy_verdict_str Allow = ''allow''"
| "policy_verdict_str RequireHuman = ''require_human''"

fun execution_mode_str :: "execution_mode \<Rightarrow> string" where
  "execution_mode_str DryRun = ''dry_run''"
| "execution_mode_str Enforced = ''enforced''"

fun response_status_str :: "response_status \<Rightarrow> string" where
  "response_status_str StatusSimulated = ''simulated''"
| "response_status_str StatusExecuted = ''executed''"
| "response_status_str StatusTimeout = ''timeout''"
| "response_status_str StatusFailed = ''failed''"

definition policy_audit_json :: "policy_decision \<Rightarrow> json" where
  "policy_audit_json p =
     JObject [(''verdict'', JString (policy_verdict_str (pd_verdict p))),
              (''rule_name'', JString (pd_rule_name p)), (''reason'', JString (pd_reason p))]"

definition governance_audit_json :: "response_governance_audit \<Rightarrow> json" where
  "governance_audit_json g =
     JObject ([(''governing_agent_id'', agent_id_json (rg_governing_agent_id g)),
               (''reason'', JString (rg_reason g))]
              @ json_some ''receipt'' id (rg_receipt g))"

definition operator_approval_json :: "operator_approval \<Rightarrow> json" where
  "operator_approval_json a =
     JObject ([(''operator_id'', JString (oa_operator_id a)), (''voter_id'', JString (oa_voter_id a)),
               (''hold_id'', JString (oa_hold_id a)), (''decided_at_ms'', json_int (oa_decided_at_ms a)),
               (''signature'', detached_signature_json (oa_signature a))]
              @ json_some ''rationale'' JString (oa_rationale a)
              @ json_some ''rationale_sha256'' JString (oa_rationale_sha256 a)
              @ json_some ''nostr_intent_event_id'' JString (oa_nostr_intent_event_id a))"

definition receipt_audit_json :: "response_receipt_audit \<Rightarrow> json" where
  "receipt_audit_json a =
     JObject (json_some ''policy'' policy_audit_json (rra_policy a)
              @ json_some ''governance'' governance_audit_json (rra_governance a)
              @ json_some ''approved_by'' operator_approval_json (rra_approved_by a))"

definition response_receipt_fields :: "response_receipt \<Rightarrow> (string \<times> json) list" where
  "response_receipt_fields r =
     [(''receipt_id'', JString (rr_receipt_id r)), (''action'', JString (rr_action r)),
      (''mode'', JString (execution_mode_str (rr_mode r))),
      (''status'', JString (response_status_str (rr_status r))),
      (''summary'', JString (rr_summary r)), (''details'', rr_details r),
      (''audit'', receipt_audit_json (rr_audit r))]"

definition response_failure_fields :: "response_failure \<Rightarrow> (string \<times> json) list" where
  "response_failure_fields f =
     [(''receipt_id'', JString (rf_receipt_id f)), (''action'', JString (rf_action f)),
      (''mode'', JString (execution_mode_str (rf_mode f))), (''message'', JString (rf_message f)),
      (''details'', rf_details f)]"

text \<open>\<^verbatim>\<open>Result\<close> serialises as an object with the single key \<open>Ok\<close> or \<open>Err\<close>.\<close>

fun adapter_result_json :: "response_error + response_receipt \<Rightarrow> json" where
  "adapter_result_json (Inr receipt) = JObject [(''Ok'', JObject (response_receipt_fields receipt))]"
| "adapter_result_json (Inl e) =
     JObject [(''Err'', JObject [(''failure'', JObject (response_failure_fields (re_failure e)))])]"

fun audit_response_json :: "audit_response \<Rightarrow> json" where
  "audit_response_json (Success receipt) =
     JObject ((''kind'', JString ''success'') # response_receipt_fields receipt)"
| "audit_response_json (Failure failure) =
     JObject ((''kind'', JString ''failure'') # response_failure_fields failure)"
| "audit_response_json (Skipped reason) =
     JObject [(''kind'', JString ''skipped''), (''reason'', JString reason)]"
| "audit_response_json (GuardRejected guard_name reason) =
     JObject [(''kind'', JString ''guard_rejected''), (''guard_name'', JString guard_name),
              (''reason'', JString reason)]"

definition into_failure :: "response_receipt \<Rightarrow> response_failure" where
  "into_failure r =
     \<lparr>rf_receipt_id = rr_receipt_id r, rf_action = rr_action r, rf_mode = rr_mode r,
      rf_message = rr_summary r,
      rf_details = JObject [(''status'', JString (response_status_str (rr_status r))),
                            (''details'', rr_details r), (''audit'', receipt_audit_json (rr_audit r))]\<rparr>"

end
