(* ===== verification/Hold_Decide.thy ===== *)
theory Hold_Decide
  imports Governance_Gate Hold_Sweep Response_Types
begin

text \<open>
  The hold capture, the hold reads and the decide engine
  (\<^verbatim>\<open>crates/swarm-ingest-runtime/src/ingest/perch_ops/holds.rs\<close>), composed from the store, the
  claim guard, the signatures, the governance gate and the policy.

  The parts of \<^verbatim>\<open>IngestState\<close> the engine uses are a record: the capture with its store, the
  governance policy, the operators' verdict keys, the runtime mode and the event log. The
  runtime the grant path calls is the record \<open>runtime_ops\<close>, an argument: \<open>rt_execute\<close> is
  \<^verbatim>\<open>audit_authorize_and_execute_human_approved_instrumented\<close>, awaited, so that it may also
  return a state on which other tasks have worked; \<open>rt_issue_lease\<close> is
  \<^verbatim>\<open>policy().issue_lease\<close>. Log lines are left out.
\<close>

section \<open>The state\<close>

record hold_capture =
  hcap_store :: configured_store
  hcap_events :: "runtime_event list option"
  hcap_settings :: hold_settings

record 't ingest_state =
  in_hold_capture :: "hold_capture option"
  in_governance_policy :: "'t governance_policy option"
  in_principals :: "(string \<times> string option) list"
  in_live_response :: bool
  in_runtime_events :: "runtime_event list option"

record 't runtime_ops =
  rt_execute :: "detection_finding \<Rightarrow> action_request \<Rightarrow> approval_context \<Rightarrow> operator_approval option \<Rightarrow>
    't ingest_state \<Rightarrow> (string + execution_report) \<times> 't ingest_state"
  rt_issue_lease :: "action_request \<Rightarrow> approval_context \<Rightarrow> 't ingest_state \<Rightarrow> capability_lease option"

definition operator_binds_voter_id :: "'t ingest_state \<Rightarrow> string \<Rightarrow> string \<Rightarrow> bool" where
  "operator_binds_voter_id state operator_id voter_id =
     list_ex (\<lambda>(id, key). id = operator_id \<and>
       (case key of None \<Rightarrow> False | Some hex \<Rightarrow> ''swarm:ed25519:'' @ hex = voter_id)) (in_principals state)"

definition current_partition_state :: "'t ingest_state \<Rightarrow> partition_state option" where
  "current_partition_state state =
     map_option (\<lambda>policy. sr_partition_state (status_report policy)) (in_governance_policy state)"

definition publish_state :: "hold_capture \<Rightarrow> held_action \<Rightarrow> hold_state \<Rightarrow> i64 \<Rightarrow> hold_capture" where
  "publish_state capture hold state now_ms =
     capture\<lparr>hcap_events := map_option (\<lambda>es. es @ [held_event hold state now_ms]) (hcap_events capture)\<rparr>"

definition publish_runtime_event :: "'t ingest_state \<Rightarrow> runtime_event \<Rightarrow> 't ingest_state" where
  "publish_runtime_event state event =
     state\<lparr>in_runtime_events := map_option (\<lambda>es. es @ [event]) (in_runtime_events state)\<rparr>"

section \<open>Capture\<close>

fun threat_class_str :: "threat_class \<Rightarrow> string option" where
  "threat_class_str LateralMovement = Some ''lateral_movement''"
| "threat_class_str DataExfiltration = Some ''data_exfiltration''"
| "threat_class_str PrivilegeEscalation = Some ''privilege_escalation''"
| "threat_class_str CommandAndControl = Some ''command_and_control''"
| "threat_class_str InitialAccess = Some ''initial_access''"
| "threat_class_str Persistence = Some ''persistence''"
| "threat_class_str SupplyChain = Some ''supply_chain''"
| "threat_class_str DefenseEvasion = Some ''defense_evasion''"
| "threat_class_str CredentialAccess = Some ''credential_access''"
| "threat_class_str Discovery = Some ''discovery''"
| "threat_class_str Execution = Some ''execution''"
| "threat_class_str Impact = Some ''impact''"
| "threat_class_str (Custom _) = None"

text \<open>A custom class serialises to an object, not to a string, so its slug is \<open>unknown\<close>.\<close>

definition threat_class_slug :: "threat_class \<Rightarrow> string" where
  "threat_class_slug tclass = (case threat_class_str tclass of None \<Rightarrow> ''unknown'' | Some s \<Rightarrow> s)"

definition capture_hold ::
  "hold_codec \<Rightarrow> evidence_readers \<Rightarrow> hold_capture \<Rightarrow> 't governance_policy option \<Rightarrow> string \<Rightarrow>
   action_request \<Rightarrow> detection_finding \<Rightarrow> audit_trail \<Rightarrow> rehearsal_preview option \<Rightarrow> i64 \<Rightarrow>
   held_action option \<times> hold_capture" where
  "capture_hold S R capture governance minted_id request detection audit rehearsal now_ms =
     (if pr_verdict (at_policy audit) \<noteq> RequireHuman \<or>
         (case at_response audit of Skipped _ \<Rightarrow> False | _ \<Rightarrow> True)
      then (None, capture)
      else
        let decision = \<lparr>pd_verdict = pr_verdict (at_policy audit),
                        pd_rule_name = pr_rule_name (at_policy audit),
                        pd_reason = pr_reason (at_policy audit)\<rparr>;
            slug = (case Option.bind (Option.bind (json_get (ar_evidence request) ''escalation'')
                             (\<lambda>value. json_get value ''threat_class''))
                           (\<lambda>value. result_ok (read_threat_class R value)) of
                      None \<Rightarrow> ''execution'' | Some tclass \<Rightarrow> threat_class_slug tclass);
            ttl_ms = u64_try_i64 (hold_ttl_ms_for (hcap_settings capture) slug);
            hold = held_action_new R minted_id request detection decision rehearsal now_ms
                     (i64_saturating_add now_ms ttl_ms) (Some (at_trail_id audit));
            hold = hold\<lparr>ha_partition_state_at_hold :=
                     map_option (\<lambda>policy. sr_partition_state (status_report policy)) governance\<rparr>
        in case cfg_create S (hcap_store capture) hold of
             (Inl _, store) \<Rightarrow> (None, capture\<lparr>hcap_store := store\<rparr>)
           | (Inr _, store) \<Rightarrow>
               (Some hold, publish_state (capture\<lparr>hcap_store := store\<rparr>) hold Created now_ms))"

section \<open>Reads\<close>

datatype hold_read_error = ReadNoHoldStore | ReadStore store_error

record hold_listing =
  hl_holds :: "held_action list"
  hl_open_count :: usize
  hl_truncated :: bool
  hl_health :: store_health

definition list_holds ::
  "'t ingest_state \<Rightarrow> bool \<Rightarrow> usize \<Rightarrow> i64 \<Rightarrow> hold_read_error + hold_listing" where
  "list_holds state include_terminal limit now_ms =
     (case in_hold_capture state of
        None \<Rightarrow> Inl ReadNoHoldStore
      | Some capture \<Rightarrow>
          let all_holds = cfg_list (hcap_store capture) include_terminal u64_max
          in Inr \<lparr>hl_holds = take limit all_holds,
                  hl_open_count = length (filter hold_is_open all_holds),
                  hl_truncated = (length all_holds > limit),
                  hl_health = cfg_health (hcap_store capture) now_ms
                                (hs_decide_stall_ms (hcap_settings capture))\<rparr>)"

definition get_hold :: "'t ingest_state \<Rightarrow> string \<Rightarrow> hold_read_error + held_action option" where
  "get_hold state hold_id =
     (case in_hold_capture state of
        None \<Rightarrow> Inl ReadNoHoldStore
      | Some capture \<Rightarrow> Inr (cfg_get (hcap_store capture) hold_id))"

section \<open>Deciding\<close>

record decision_input =
  di_decision :: hold_decision
  di_decided_at_ms :: i64
  di_nostr_intent_event_id :: string
  di_signature :: detached_signature
  di_rationale :: "string option"
  di_armed_at_ms :: "i64 option"

datatype hold_decision_error =
    NoHoldStore
  | DecideNotFound
  | DecideInvalidSignature string
  | VoterMismatch string string
  | DecideExpired
  | DecisionInFlight
  | AlreadyDeciding
  | AlreadyDecided
  | DecideStore store_error
  | DecideRuntime string

record decision_outcome =
  do_hold :: held_action
  do_replayed :: bool
  do_receipt :: "response_receipt option"
  do_capability_lease :: "capability_lease option"
  do_containment_lease_id :: "string option"

definition decision_payload_json ::
  "i64 \<Rightarrow> hold_decision \<Rightarrow> string \<Rightarrow> string option \<Rightarrow> json" where
  "decision_payload_json decided_at_ms decision hold_id rationale_sha256 =
     JObject [(''decided_at_ms'', json_int decided_at_ms),
              (''decision'', JString (hold_decision_str decision)),
              (''hold_id'', JString hold_id), (''rationale_sha256'', json_opt JString rationale_sha256)]"

definition rationale_sha256_hex :: "crypto_lib \<Rightarrow> string option \<Rightarrow> string option" where
  "rationale_sha256_hex C rationale = map_option (\<lambda>text. lib_hex_encode C (lib_sha256 C text)) rationale"

definition voter_id_from_public_key :: "string \<Rightarrow> string" where
  "voter_id_from_public_key public_key_hex = ''swarm:ed25519:'' @ public_key_hex"

definition classify_conflict :: "held_action \<Rightarrow> string \<Rightarrow> hold_decision_error" where
  "classify_conflict current intent =
     (case ha_state current of
        Deciding \<Rightarrow> if ha_deciding_intent_event_id current = Some intent then DecisionInFlight
                    else AlreadyDeciding
      | Expired \<Rightarrow> DecideExpired
      | _ \<Rightarrow> AlreadyDecided)"

definition str_contains :: "string \<Rightarrow> string \<Rightarrow> bool" where
  "str_contains s p \<longleftrightarrow> list_ex (\<lambda>n. starts_with (drop n s) p) [0..<Suc (length s)]"

definition late_rule :: "string \<Rightarrow> string \<Rightarrow> string" where
  "late_rule reason rule_name =
     (if str_contains reason ''containment'' then ''runtime.containment_refused''
      else if rule_name = ''static.minimum_severity'' then ''policy.minimum_severity''
      else if rule_name = ''static.deploy_decoy_min_severity'' then ''policy.minimum_severity''
      else if rule_name = ''static.scope_rate_limit'' then ''policy.scope_rate_limit''
      else if rule_name = ''configurable.fail_closed.empty_ruleset'' then ''policy.empty_ruleset''
      else if rule_name = ''static.human_gate'' then ''policy.human_gate''
      else ''policy.denied'')"

definition classify_execution ::
  "audit_trail \<Rightarrow> hold_outcome \<times> hold_state \<times> hold_refusal option \<times> response_receipt option" where
  "classify_execution audit =
     (case at_response audit of
        Success receipt \<Rightarrow>
          (if rr_mode receipt = DryRun then GrantedSimulated else GrantedExecuted, Executed, None, Some receipt)
      | Failure failure \<Rightarrow>
          if Option.bind (json_get (rf_details failure) ''status'') json_as_str = Some ''lease_expired''
          then (RefusedLate, Refused,
                Some \<lparr>hr_rule = ''runtime.capability_lease_expired'', hr_reason = rf_message failure\<rparr>, None)
          else (GrantedFailed, HoldFailed, None, None)
      | Skipped reason \<Rightarrow>
          (RefusedLate, Refused,
           Some \<lparr>hr_rule = late_rule reason (pr_rule_name (at_policy audit)), hr_reason = reason\<rparr>, None)
      | GuardRejected guard_name reason \<Rightarrow>
          (GuardRejectedOutcome, Refused,
           Some \<lparr>hr_rule = ''runtime.guard_rejected'', hr_reason = guard_name @ '': '' @ reason\<rparr>, None))"

text \<open>Step 2: decidability, the signature, then the voter binding. Nothing is written.\<close>

definition decide_admit ::
  "crypto_lib \<Rightarrow> 't ingest_state \<Rightarrow> held_action \<Rightarrow> string \<Rightarrow> string \<Rightarrow> decision_input \<Rightarrow> i64 \<Rightarrow>
   hold_decision_error + string \<times> string option" where
  "decide_admit C state hold hold_id operator_id input now_ms =
     (case assert_decidable hold now_ms of
        Inl NdExpired \<Rightarrow> Inl DecideExpired
      | Inl NdDeciding \<Rightarrow>
          Inl (if ha_deciding_intent_event_id hold = Some (di_nostr_intent_event_id input)
               then DecisionInFlight else AlreadyDeciding)
      | Inl NdTerminal \<Rightarrow> Inl AlreadyDecided
      | Inr _ \<Rightarrow>
        let rationale_sha256 = rationale_sha256_hex C (di_rationale input) in
        (case canonical_json_bytes C (decision_payload_json (di_decided_at_ms input) (di_decision input)
                hold_id rationale_sha256) of
           Inl e \<Rightarrow> Inl (DecideRuntime (crypto_error_display e))
         | Inr payload \<Rightarrow>
           (case verify_detached_signature C payload (di_signature input) of
              Inl e \<Rightarrow> Inl (DecideInvalidSignature (crypto_error_display e))
            | Inr _ \<Rightarrow>
              let voter_id = voter_id_from_public_key (ds_public_key_hex (di_signature input)) in
              if \<not> operator_binds_voter_id state operator_id voter_id
              then Inl (VoterMismatch operator_id voter_id)
              else Inr (voter_id, rationale_sha256))))"

definition base_record ::
  "'t ingest_state \<Rightarrow> held_action \<Rightarrow> string \<Rightarrow> string \<Rightarrow> string option \<Rightarrow> decision_input \<Rightarrow> i64 \<Rightarrow>
   hold_outcome \<Rightarrow> governance_clearance \<Rightarrow> hold_decision_record" where
  "base_record state claimed operator_id voter_id rationale_sha256 input now_ms outcome clearance =
     \<lparr>hd_decision = di_decision input, hd_operator_id = operator_id, hd_voter_id = voter_id,
      hd_rationale_sha256 = rationale_sha256,
      hd_hold_notice_published = (ha_prior_state claimed \<noteq> Some Created),
      hd_governance_clearance = clearance, hd_decided_at_ms = now_ms,
      hd_nostr_intent_event_id = di_nostr_intent_event_id input,
      hd_signature = Some (di_signature input), hd_rationale = di_rationale input,
      hd_outcome = outcome, hd_dispatched = False, hd_receipt_id = None, hd_audit_trail_id = None,
      hd_refusal = None, hd_partition_state_at_execution = current_partition_state state\<rparr>"

definition with_store :: "'t ingest_state \<Rightarrow> hold_capture \<Rightarrow> configured_store \<Rightarrow> 't ingest_state" where
  "with_store state capture store = state\<lparr>in_hold_capture := Some (capture\<lparr>hcap_store := store\<rparr>)\<rparr>"

text \<open>\<^verbatim>\<open>claim.complete\<close>, then \<^verbatim>\<open>publish_state\<close>.\<close>

definition settle_claim ::
  "hold_codec \<Rightarrow> 't ingest_state \<Rightarrow> hold_capture \<Rightarrow> decision_claim \<Rightarrow> hold_decision_record \<Rightarrow>
   hold_state \<Rightarrow> i64 \<Rightarrow> (hold_decision_error + hold_capture) \<times> 't ingest_state" where
  "settle_claim S state capture claim rec state_after now_ms =
     (case claim_complete S (hcap_store capture) claim rec state_after of
        (Inl e, store) \<Rightarrow> (Inl (DecideStore e), with_store state capture store)
      | (Inr _, store) \<Rightarrow>
          let capture = publish_state (capture\<lparr>hcap_store := store\<rparr>) (dc_claimed claim) state_after now_ms
          in (Inr capture, state\<lparr>in_hold_capture := Some capture\<rparr>))"

definition read_outcome ::
  "hold_capture \<Rightarrow> string \<Rightarrow> response_receipt option \<Rightarrow> capability_lease option \<Rightarrow> string option \<Rightarrow>
   hold_decision_error + decision_outcome" where
  "read_outcome capture hold_id receipt capability_lease containment_lease_id =
     (case cfg_get (hcap_store capture) hold_id of
        None \<Rightarrow> Inl DecideNotFound
      | Some hold \<Rightarrow>
          Inr \<lparr>do_hold = hold, do_replayed = False, do_receipt = receipt,
               do_capability_lease = capability_lease, do_containment_lease_id = containment_lease_id\<rparr>)"

text \<open>The two exits without a dispatch: the operator's refusal and the governance refusal.\<close>

definition decide_refused ::
  "hold_codec \<Rightarrow> 't ingest_state \<Rightarrow> hold_capture \<Rightarrow> decision_claim \<Rightarrow> hold_decision_record \<Rightarrow> string \<Rightarrow>
   i64 \<Rightarrow> (hold_decision_error + decision_outcome) \<times> 't ingest_state" where
  "decide_refused S state capture claim rec hold_id now_ms =
     (case settle_claim S state capture claim rec Refused now_ms of
        (Inl e, state) \<Rightarrow> (Inl e, state)
      | (Inr capture, state) \<Rightarrow> (read_outcome capture hold_id None None None, state))"

text \<open>Steps 6 and 7.\<close>

definition decide_execute ::
  "hold_codec \<Rightarrow> 't runtime_ops \<Rightarrow> 't ingest_state \<Rightarrow> hold_capture \<Rightarrow> decision_claim \<Rightarrow> string \<Rightarrow>
   string option \<Rightarrow> governance_clearance \<Rightarrow> string \<Rightarrow> string \<Rightarrow> decision_input \<Rightarrow> i64 \<Rightarrow>
   (hold_decision_error + decision_outcome) \<times> 't ingest_state" where
  "decide_execute S X state capture claim voter_id rationale_sha256 clearance hold_id operator_id
     input now_ms =
     (let claimed = dc_claimed claim;
          ctxt = \<lparr>ac_live_mode = in_live_response state, ac_receipt_chain = [ha_hold_id claimed],
                  ac_correlation_id = Some (ha_hold_id claimed), ac_now_ms = now_ms\<rparr>;
          approval = \<lparr>oa_operator_id = operator_id, oa_voter_id = voter_id,
                      oa_hold_id = ha_hold_id claimed, oa_decided_at_ms = now_ms,
                      oa_signature = di_signature input, oa_rationale = di_rationale input,
                      oa_rationale_sha256 = rationale_sha256,
                      oa_nostr_intent_event_id = Some (di_nostr_intent_event_id input)\<rparr>;
          (result, state) = rt_execute X (ha_detection claimed) (ha_action_request claimed) ctxt
                              (Some approval) state;
          capture = (case in_hold_capture state of None \<Rightarrow> capture | Some shared \<Rightarrow> shared)
      in case result of
        Inl error \<Rightarrow>
          (Inl (DecideRuntime error),
           with_store state capture (claim_drop S (hcap_store capture) claim))
      | Inr execution \<Rightarrow>
          let audit = xr_audit execution;
              (receipt_id, response_error) = response_receipt_details audit;
              (outcome, state_after, refused, receipt) = classify_execution audit;
              rec = (base_record state claimed operator_id voter_id rationale_sha256 input now_ms
                       outcome clearance)
                    \<lparr>hd_dispatched := xr_response_attempted execution, hd_receipt_id := receipt_id,
                     hd_audit_trail_id := Some (at_trail_id audit), hd_refusal := refused\<rparr>
          in case settle_claim S state capture claim rec state_after now_ms of
            (Inl e, state) \<Rightarrow> (Inl e, state)
          | (Inr capture, state) \<Rightarrow>
              let state = publish_runtime_event state
                    (ResponseExecution now_ms (agent_str (ar_requested_by (ha_action_request claimed)))
                       (at_hunt_id audit) (kind (ar_action (ha_action_request claimed)))
                       (response_kind audit) (pr_verdict (at_policy audit)) (pr_rule_name (at_policy audit))
                       (pr_reason (at_policy audit)) receipt_id None response_error);
                  capability_lease = rt_issue_lease X (ha_action_request claimed) ctxt state;
                  containment_lease_id = Option.bind receipt (\<lambda>receipt.
                    Option.bind (json_get (rr_details receipt) ''containment_lease_id'') json_as_str)
              in (read_outcome capture hold_id receipt capability_lease containment_lease_id, state))"

text \<open>Steps 4 to 7, under the claim.\<close>

definition decide_claimed ::
  "crypto_lib \<Rightarrow> hold_codec \<Rightarrow> lease_reader \<Rightarrow> receipt_reader \<Rightarrow> 't runtime_ops \<Rightarrow> 't ingest_state \<Rightarrow>
   hold_capture \<Rightarrow> decision_claim \<Rightarrow> string \<Rightarrow> string option \<Rightarrow> string \<Rightarrow> string \<Rightarrow> decision_input \<Rightarrow> i64 \<Rightarrow>
   (hold_decision_error + decision_outcome) \<times> 't ingest_state" where
  "decide_claimed C S lease_of_json receipt_of_json X state capture claim voter_id rationale_sha256
     hold_id operator_id input now_ms =
     (let claimed = dc_claimed claim;
          base = (\<lambda>state. base_record state claimed operator_id voter_id rationale_sha256 input now_ms)
      in if di_decision input = Refuse
         then decide_refused S state capture claim (base state RefusedByOperator NotRequired) hold_id now_ms
         else
           let bounds = \<lparr>gb_subject_captured_at_ms = ha_held_at_ms claimed,
                         gb_max_age_ms = hs_governance_receipt_max_age_ms (hcap_settings capture)\<rparr>;
               (cleared, authority) = reauthorize C lease_of_json receipt_of_json
                  (in_governance_policy state) (ha_action_request claimed) now_ms bounds;
               state = state\<lparr>in_governance_policy := authority\<rparr>
           in case cleared of
             Inl refused \<Rightarrow>
               decide_refused S state capture claim
                 ((base state RefusedLate NotRequired)
                    \<lparr>hd_refusal := Some \<lparr>hr_rule = gf_rule refused, hr_reason = gf_reason refused\<rparr>\<rparr>)
                 hold_id now_ms
           | Inr clearance \<Rightarrow>
               decide_execute S X state capture claim voter_id rationale_sha256 clearance hold_id
                 operator_id input now_ms)"

definition decide_hold ::
  "crypto_lib \<Rightarrow> hold_codec \<Rightarrow> lease_reader \<Rightarrow> receipt_reader \<Rightarrow> 't runtime_ops \<Rightarrow> 't ingest_state \<Rightarrow>
   string \<Rightarrow> string \<Rightarrow> decision_input \<Rightarrow> i64 \<Rightarrow>
   (hold_decision_error + decision_outcome) \<times> 't ingest_state" where
  "decide_hold C S lease_of_json receipt_of_json X state hold_id operator_id input now_ms =
     (case in_hold_capture state of
        None \<Rightarrow> (Inl NoHoldStore, state)
      | Some capture \<Rightarrow>
        (case cfg_get (hcap_store capture) hold_id of
           None \<Rightarrow> (Inl DecideNotFound, state)
         | Some hold \<Rightarrow>
           if (case ha_decision hold of
                 None \<Rightarrow> False
               | Some rec \<Rightarrow> hd_nostr_intent_event_id rec = di_nostr_intent_event_id input)
           then (Inr \<lparr>do_hold = hold, do_replayed = True, do_receipt = None,
                      do_capability_lease = None, do_containment_lease_id = None\<rparr>, state)
           else case decide_admit C state hold hold_id operator_id input now_ms of
             Inl e \<Rightarrow> (Inl e, state)
           | Inr (voter_id, rationale_sha256) \<Rightarrow>
             (case claim_begin S (hcap_store capture) hold_id (di_nostr_intent_event_id input) now_ms of
                (Inl (HsNotDecidable _ current), store) \<Rightarrow>
                  (Inl (classify_conflict current (di_nostr_intent_event_id input)),
                   with_store state capture store)
              | (Inl e, store) \<Rightarrow> (Inl (DecideStore e), with_store state capture store)
              | (Inr claim, store) \<Rightarrow>
                  decide_claimed C S lease_of_json receipt_of_json X
                    (with_store state capture store) (capture\<lparr>hcap_store := store\<rparr>) claim
                    voter_id rationale_sha256 hold_id operator_id input now_ms)))"

end
