(* ===== verification/Hold_Decisions.thy ===== *)
theory Hold_Decisions
  imports Hold_Decide
begin

text \<open>
  What the decide engine guarantees: nothing is written and nothing is dispatched without a
  verified vote, a refusal depends on nothing but the store, a retry replays the stored record,
  and what it completes a claim with is what the claim specification asks for.
\<close>

section \<open>Votes\<close>

definition voted ::
  "crypto_lib \<Rightarrow> 't ingest_state \<Rightarrow> string \<Rightarrow> string \<Rightarrow> decision_input \<Rightarrow> bool" where
  "voted C state hold_id operator_id input \<longleftrightarrow>
     (\<exists>payload. canonical_json_bytes C (decision_payload_json (di_decided_at_ms input)
          (di_decision input) hold_id (rationale_sha256_hex C (di_rationale input))) = Inr payload \<and>
        verify_detached_signature C payload (di_signature input) = Inr ()) \<and>
     operator_binds_voter_id state operator_id
       (voter_id_from_public_key (ds_public_key_hex (di_signature input)))"

lemma decide_admit_iff:
  "decide_admit C state hold hold_id operator_id input now_ms = Inr (v, r) \<longleftrightarrow>
     assert_decidable hold now_ms = Inr () \<and> voted C state hold_id operator_id input \<and>
     v = voter_id_from_public_key (ds_public_key_hex (di_signature input)) \<and>
     r = rationale_sha256_hex C (di_rationale input)"
  by (cases "assert_decidable hold now_ms")
    (auto simp: decide_admit_def voted_def Let_def split: sum.splits not_decidable.splits)

lemma base_record_fields [simp]:
  "hd_nostr_intent_event_id (base_record state claimed op v r input t oc cl) = di_nostr_intent_event_id input"
  "hd_outcome (base_record state claimed op v r input t oc cl) = oc"
  "hd_decision (base_record state claimed op v r input t oc cl) = di_decision input"
  "hd_operator_id (base_record state claimed op v r input t oc cl) = op"
  "hd_dispatched (base_record state claimed op v r input t oc cl) = False"
  "hd_decided_at_ms (base_record state claimed op v r input t oc cl) = t"
  by (simp_all add: base_record_def)

text \<open>The states a decision ends in, as the claim specification requires.\<close>

lemma classified_settled: "classify_execution audit = (oc, st, rf, rc) \<Longrightarrow> settled_state st"
  by (auto simp: classify_execution_def settled_state_def split: audit_response.splits if_splits)

section \<open>The guards\<close>

lemma claim_begin_decidable:
  assumes "cfg_ok store" "cfg_get store j = Some h" "claim_begin S store j i t = (Inr claim, store')"
  shows "assert_decidable h t = Inr () \<and> dc_hold_id claim = j \<and> dc_intent_event_id claim = i \<and>
    dc_claimed claim = snd (tr_begin h i t) \<and> dc_armed claim \<and>
    cfg_get store' = (cfg_get store)(j \<mapsto> dc_claimed claim) \<and> cfg_ok store'"
proof -
  obtain claimed where b: "cfg_begin_decision S store j i t = (Inr claimed, store')"
    and c: "claim = \<lparr>dc_hold_id = j, dc_intent_event_id = i, dc_claimed = claimed, dc_armed = True\<rparr>"
    using assms(3) by (auto simp: claim_begin_def split: prod.splits sum.splits)
  have "cfg_ok store'" using configured.ok_begin [OF assms(1), of S j i t] b by simp
  then show ?thesis using configured.begin_claimed [OF assms(1) b] assms(2) c by auto
qed

lemma tr_begin_keeps:
  "ha_action_request (snd (tr_begin h i t)) = ha_action_request h"
  "ha_held_at_ms (snd (tr_begin h i t)) = ha_held_at_ms h"
  by (simp_all add: tr_begin_def split: sum.splits)

text \<open>Under a claim the runtime matters to a cleared grant only.\<close>

lemma decide_claimed_runtime:
  assumes "decide_claimed C S lr rr X state capture claim v r hold_id operator_id input now_ms \<noteq>
      decide_claimed C S lr rr X' state capture claim v r hold_id operator_id input now_ms"
  shows "di_decision input = Grant \<and> (\<exists>clearance.
      fst (reauthorize C lr rr (in_governance_policy state) (ha_action_request (dc_claimed claim)) now_ms
           \<lparr>gb_subject_captured_at_ms = ha_held_at_ms (dc_claimed claim),
            gb_max_age_ms = hs_governance_receipt_max_age_ms (hcap_settings capture)\<rparr>) = Inr clearance)"
proof -
  have "di_decision input \<noteq> Refuse" using assms by (auto simp: decide_claimed_def)
  then have "di_decision input = Grant" by (cases "di_decision input") auto
  then show ?thesis using assms
    by (auto simp: decide_claimed_def Let_def split: prod.splits sum.splits)
qed

text \<open>
  C8. The guards of a decision. A call changes the daemon's state only when the hold exists, is
  open and not past its expiry, and the body carries a signature over this hold, this decision
  and this rationale by a key bound to the authenticated operator. The runtime is consulted, so
  that anything can be dispatched, only when moreover the decision is a grant and the governance
  gate clears the held request at the decision instant.
\<close>

theorem decide_hold_guarded:
  assumes "in_hold_capture state = Some capture" "cfg_ok (hcap_store capture)"
  shows "(snd (decide_hold C S lr rr X state hold_id operator_id input now_ms) \<noteq> state \<longrightarrow>
      (\<exists>hold. cfg_get (hcap_store capture) hold_id = Some hold \<and> hold_is_open hold \<and>
         now_ms < ha_expires_at_ms hold \<and> voted C state hold_id operator_id input)) \<and>
    (decide_hold C S lr rr X state hold_id operator_id input now_ms \<noteq>
       decide_hold C S lr rr X' state hold_id operator_id input now_ms \<longrightarrow>
      (\<exists>hold clearance. cfg_get (hcap_store capture) hold_id = Some hold \<and> hold_is_open hold \<and>
         now_ms < ha_expires_at_ms hold \<and> voted C state hold_id operator_id input \<and>
         di_decision input = Grant \<and>
         fst (reauthorize C lr rr (in_governance_policy state) (ha_action_request hold) now_ms
           \<lparr>gb_subject_captured_at_ms = ha_held_at_ms hold,
            gb_max_age_ms = hs_governance_receipt_max_age_ms (hcap_settings capture)\<rparr>) = Inr clearance))"
proof (cases "cfg_get (hcap_store capture) hold_id")
  case None
  then show ?thesis by (simp add: decide_hold_def assms(1))
next
  case (Some hold)
  show ?thesis
  proof (cases "(\<exists>rec. ha_decision hold = Some rec \<and>
      hd_nostr_intent_event_id rec = di_nostr_intent_event_id input) \<or>
      (\<exists>e. decide_admit C state hold hold_id operator_id input now_ms = Inl e)")
    case True
    then show ?thesis using Some by (auto simp: decide_hold_def assms(1))
  next
    case False
    then obtain v r where ad: "decide_admit C state hold hold_id operator_id input now_ms = Inr (v, r)"
      by (cases "decide_admit C state hold hold_id operator_id input now_ms") auto
    then have dec: "assert_decidable hold now_ms = Inr ()" and vote: "voted C state hold_id operator_id input"
      by (simp_all add: decide_admit_iff)
    then have op: "hold_is_open hold" "now_ms < ha_expires_at_ms hold"
      by (simp_all add: assert_decidable_iff hold_is_open_def)
    have norec: "\<not> (case ha_decision hold of None \<Rightarrow> False
        | Some rec \<Rightarrow> hd_nostr_intent_event_id rec = di_nostr_intent_event_id input)"
      using False by (auto split: option.splits)
    obtain res store where cb: "claim_begin S (hcap_store capture) hold_id
        (di_nostr_intent_event_id input) now_ms = (res, store)" by fastforce
    show ?thesis
    proof (cases res)
      case (Inl e)
      then show ?thesis using norec ad cb op vote Some
        by (cases e) (auto simp: decide_hold_def assms(1))
    next
      case (Inr claim)
      have run: "decide_hold C S lr rr Y state hold_id operator_id input now_ms =
          decide_claimed C S lr rr Y (with_store state capture store) (capture\<lparr>hcap_store := store\<rparr>)
            claim v r hold_id operator_id input now_ms" for Y
        using norec ad cb Some Inr by (simp add: decide_hold_def assms(1))
      have claimed: "dc_claimed claim = snd (tr_begin hold (di_nostr_intent_event_id input) now_ms)"
        using claim_begin_decidable [OF assms(2) Some cb [unfolded Inr]] by blast
      show ?thesis
        using op vote Some decide_claimed_runtime [of C S lr rr X "with_store state capture store"
            "capture\<lparr>hcap_store := store\<rparr>" claim v r hold_id operator_id input now_ms X']
        by (auto simp: run claimed tr_begin_keeps with_store_def)
    qed
  qed
qed

section \<open>Outcomes are stored\<close>

lemma complete_stores:
  assumes "cfg_ok store" "claim_complete S store claim rec st = (Inr (), store')"
    and "cfg_get store' (dc_hold_id claim) = Some g"
  shows "ha_decision g = Some rec \<and> ha_state g = st"
proof -
  obtain r where c: "cfg_complete_decision S store (dc_hold_id claim) rec st = (r, store')" "r = Inr ()"
    using assms(2) by (auto simp: claim_complete_def claim_drop_def Let_def split: prod.splits)
  then have "applied cfg_get store (dc_hold_id claim) (\<lambda>h. tr_complete h rec st) (Inr (), store')"
    using configured.complete_law [OF assms(1), of "dc_hold_id claim" rec st S] by simp
  then show ?thesis using assms(3) by (auto simp: applied_def tr_complete_def split: option.splits)
qed

text \<open>The desk's state holds the outcome the caller was given.\<close>

definition answered :: "'t ingest_state \<Rightarrow> string \<Rightarrow> string \<Rightarrow> decision_outcome \<Rightarrow> bool" where
  "answered state hold_id intent outcome \<longleftrightarrow>
     (\<exists>capture rec. in_hold_capture state = Some capture \<and>
        cfg_get (hcap_store capture) hold_id = Some (do_hold outcome) \<and>
        ha_decision (do_hold outcome) = Some rec \<and> hd_nostr_intent_event_id rec = intent)"

lemma settle_claim_Inr:
  "settle_claim S state capture claim rec st now_ms = (Inr capture', state') \<longleftrightarrow>
     (\<exists>store. claim_complete S (hcap_store capture) claim rec st = (Inr (), store) \<and>
        capture' = publish_state (capture\<lparr>hcap_store := store\<rparr>) (dc_claimed claim) st now_ms \<and>
        state' = state\<lparr>in_hold_capture := Some capture'\<rparr>)"
  by (auto simp: settle_claim_def Let_def split: prod.splits sum.splits)

lemma settled_answer:
  assumes "cfg_ok (hcap_store capture)"
    and "settle_claim S state capture claim rec st now_ms = (Inr capture', state')"
    and "read_outcome capture' (dc_hold_id claim) receipt lease cont = Inr outcome"
    and "in_hold_capture state'' = in_hold_capture state'"
  shows "answered state'' (dc_hold_id claim) (hd_nostr_intent_event_id rec) outcome \<and>
    ha_state (do_hold outcome) = st \<and> ha_decision (do_hold outcome) = Some rec"
proof -
  obtain store where c: "claim_complete S (hcap_store capture) claim rec st = (Inr (), store)"
    and s: "capture' = publish_state (capture\<lparr>hcap_store := store\<rparr>) (dc_claimed claim) st now_ms"
      "state' = state\<lparr>in_hold_capture := Some capture'\<rparr>"
    using assms(2) by (auto simp: settle_claim_Inr)
  have g: "cfg_get store (dc_hold_id claim) = Some (do_hold outcome)"
    using assms(3) s(1) by (auto simp: read_outcome_def publish_state_def split: option.splits)
  then show ?thesis
    using complete_stores [OF assms(1) c g] s assms(4) by (auto simp: answered_def publish_state_def)
qed

lemma decide_refused_answer:
  assumes "cfg_ok (hcap_store capture)"
    and "decide_refused S state capture claim rec (dc_hold_id claim) now_ms = (Inr outcome, state')"
  shows "answered state' (dc_hold_id claim) (hd_nostr_intent_event_id rec) outcome"
proof -
  obtain capture' where s: "settle_claim S state capture claim rec Refused now_ms = (Inr capture', state')"
    and r: "read_outcome capture' (dc_hold_id claim) None None None = Inr outcome"
    using assms(2) by (auto simp: decide_refused_def split: prod.splits sum.splits)
  show ?thesis using settled_answer [OF assms(1) s r refl] by simp
qed

text \<open>A runtime that leaves the store it shares well formed.\<close>

definition desk_ok :: "'t ingest_state \<Rightarrow> bool" where
  "desk_ok state \<longleftrightarrow> (case in_hold_capture state of None \<Rightarrow> True | Some capture \<Rightarrow> cfg_ok (hcap_store capture))"

definition keeps_store :: "'t runtime_ops \<Rightarrow> bool" where
  "keeps_store X \<longleftrightarrow> (\<forall>detection request ctxt approval state.
     desk_ok state \<longrightarrow> desk_ok (snd (rt_execute X detection request ctxt approval state)))"

lemma decide_execute_answer:
  assumes "keeps_store X" "cfg_ok (hcap_store capture)" "desk_ok state"
    and "decide_execute S X state capture claim v r clearance (dc_hold_id claim) operator_id input now_ms =
      (Inr outcome, state')"
  shows "answered state' (dc_hold_id claim) (di_nostr_intent_event_id input) outcome"
proof -
  define claimed where "claimed = dc_claimed claim"
  define ctxt where "ctxt = \<lparr>ac_live_mode = in_live_response state, ac_receipt_chain = [ha_hold_id claimed],
    ac_correlation_id = Some (ha_hold_id claimed), ac_now_ms = now_ms\<rparr>"
  define approval where "approval = \<lparr>oa_operator_id = operator_id, oa_voter_id = v,
    oa_hold_id = ha_hold_id claimed, oa_decided_at_ms = now_ms, oa_signature = di_signature input,
    oa_rationale = di_rationale input, oa_rationale_sha256 = r,
    oa_nostr_intent_event_id = Some (di_nostr_intent_event_id input)\<rparr>"
  obtain result st1 where x: "rt_execute X (ha_detection claimed) (ha_action_request claimed) ctxt
      (Some approval) state = (result, st1)" by fastforce
  define shared where "shared = (case in_hold_capture st1 of None \<Rightarrow> capture | Some shared \<Rightarrow> shared)"
  have "desk_ok st1" using assms(1,3) x unfolding keeps_store_def by (metis snd_conv)
  then have ok: "cfg_ok (hcap_store shared)"
    using assms(2) by (simp add: desk_ok_def shared_def split: option.splits)
  note run = assms(4) [unfolded decide_execute_def Let_def, folded claimed_def, folded ctxt_def,
      folded approval_def, unfolded x, simplified, folded shared_def]
  obtain rec st capture' st2 receipt lease cont where
    s: "settle_claim S st1 shared claim rec st now_ms = (Inr capture', st2)"
    and o: "read_outcome capture' (dc_hold_id claim) receipt lease cont = Inr outcome"
    and i: "hd_nostr_intent_event_id rec = di_nostr_intent_event_id input"
      "in_hold_capture state' = in_hold_capture st2"
    using run by (auto simp: publish_runtime_event_def split: sum.splits prod.splits)
  show ?thesis using settled_answer [OF ok s o i(2)] i(1) by simp
qed

lemma decide_claimed_answer:
  assumes "keeps_store X" "cfg_ok (hcap_store capture)" "desk_ok state"
    and "decide_claimed C S lr rr X state capture claim v r (dc_hold_id claim) operator_id input now_ms =
      (Inr outcome, state')"
  shows "answered state' (dc_hold_id claim) (di_nostr_intent_event_id input) outcome"
proof (cases "di_decision input = Refuse")
  case True
  then show ?thesis using assms(4) decide_refused_answer [OF assms(2)]
    by (fastforce simp: decide_claimed_def Let_def)
next
  case False
  obtain cleared authority where a: "reauthorize C lr rr (in_governance_policy state)
      (ha_action_request (dc_claimed claim)) now_ms
      \<lparr>gb_subject_captured_at_ms = ha_held_at_ms (dc_claimed claim),
       gb_max_age_ms = hs_governance_receipt_max_age_ms (hcap_settings capture)\<rparr> = (cleared, authority)"
    by fastforce
  note run = assms(4) [unfolded decide_claimed_def Let_def, unfolded a, simplified False, simplified]
  show ?thesis
  proof (cases cleared)
    case (Inl refused)
    then show ?thesis using run decide_refused_answer [OF assms(2)] by fastforce
  next
    case (Inr clearance)
    then have "decide_execute S X (state\<lparr>in_governance_policy := authority\<rparr>) capture claim v r clearance
        (dc_hold_id claim) operator_id input now_ms = (Inr outcome, state')"
      using run by simp
    then show ?thesis by (rule decide_execute_answer [OF assms(1,2), rotated]) (use assms(3) in \<open>simp add: desk_ok_def\<close>)
  qed
qed

lemma decide_hold_answer:
  assumes "keeps_store X" "in_hold_capture state = Some capture" "cfg_ok (hcap_store capture)"
    and "decide_hold C S lr rr X state hold_id operator_id input now_ms = (Inr outcome, state')"
  shows "answered state' hold_id (di_nostr_intent_event_id input) outcome"
proof -
  obtain hold where g: "cfg_get (hcap_store capture) hold_id = Some hold"
    using assms(2,4) by (auto simp: decide_hold_def split: option.splits)
  show ?thesis
  proof (cases "\<exists>rec. ha_decision hold = Some rec \<and>
      hd_nostr_intent_event_id rec = di_nostr_intent_event_id input")
    case True
    then show ?thesis using assms(2,4) g by (auto simp: decide_hold_def answered_def)
  next
    case False
    then obtain claim store v r where
      cb: "claim_begin S (hcap_store capture) hold_id (di_nostr_intent_event_id input) now_ms = (Inr claim, store)"
      and run: "decide_claimed C S lr rr X (with_store state capture store) (capture\<lparr>hcap_store := store\<rparr>)
        claim v r hold_id operator_id input now_ms = (Inr outcome, state')"
      using assms(2,4) g
      by (auto simp: decide_hold_def split: option.splits sum.splits prod.splits store_error.splits)
    have id: "dc_hold_id claim = hold_id" and ok: "cfg_ok (hcap_store (capture\<lparr>hcap_store := store\<rparr>))"
      using claim_begin_decidable [OF assms(3) g cb] by auto
    show ?thesis using decide_claimed_answer [OF assms(1) ok _ run [folded id]] id ok by (simp add: desk_ok_def with_store_def)
  qed
qed

text \<open>
  C38. A decision is answered once. When a call returns an outcome, the store holds the record
  it returned, and any later call with the same intent, at any time, from any operator and with
  any runtime, returns the same hold marked as a replay, dispatches nothing and leaves the state
  as it is.
\<close>

theorem decision_replays:
  assumes "in_hold_capture state = Some capture" "cfg_ok (hcap_store capture)" "keeps_store X"
    and "decide_hold C S lr rr X state hold_id operator_id input now_ms = (Inr outcome, state')"
    and "di_nostr_intent_event_id input' = di_nostr_intent_event_id input"
  shows "decide_hold C' S' lr' rr' X' state' hold_id operator_id' input' now_ms' =
    (Inr \<lparr>do_hold = do_hold outcome, do_replayed = True, do_receipt = None,
         do_capability_lease = None, do_containment_lease_id = None\<rparr>, state')"
proof -
  have "answered state' hold_id (di_nostr_intent_event_id input) outcome"
    by (rule decide_hold_answer [OF assms(3,1,2,4)])
  then show ?thesis using assms(5) by (auto simp: answered_def decide_hold_def)
qed

section \<open>Refusals land\<close>

text \<open>A store whose writes succeed: the memory backend always, the file backend when serde and the system calls do.\<close>

fun writes_land :: "hold_codec \<Rightarrow> configured_store \<Rightarrow> bool" where
  "writes_land S (CfgMemory m) = True"
| "writes_land S (CfgLocalFiles f) =
     ((\<forall>h. \<exists>b. hc_encode S h = Inr b) \<and> (\<forall>n \<ge> fi_writes f. fi_io f n = WriteOk))"

lemma persist_lands:
  assumes "writes_land S (CfgLocalFiles f)"
  shows "\<exists>f'. persist S f h = (Inr (), f') \<and> writes_land S (CfgLocalFiles f') \<and> fi_holds f' = fi_holds f"
proof -
  obtain b where "hc_encode S h = Inr b" using assms by (meson writes_land.simps(2))
  then show ?thesis using assms by (simp add: persist_def Let_def)
qed

lemma put_cache_lands: "writes_land S (CfgLocalFiles (put_cache f j h)) = writes_land S (CfgLocalFiles f)"
  by (simp add: put_cache_def)

lemma claim_begin_lands:
  assumes "writes_land S store" "cfg_get store j = Some h" "assert_decidable h t = Inr ()"
  shows "\<exists>store'. claim_begin S store j i t =
    (Inr \<lparr>dc_hold_id = j, dc_intent_event_id = i, dc_claimed = snd (tr_begin h i t), dc_armed = True\<rparr>, store') \<and>
    cfg_get store' j = Some (snd (tr_begin h i t)) \<and> writes_land S store'"
proof (cases store)
  case (CfgMemory m)
  then show ?thesis
    using assms(2,3) by (auto simp: claim_begin_def cfg_begin_decision_def mem_begin_decision_def mem_get_def cfg_get_def tr_begin_def)
next
  case (CfgLocalFiles f)
  obtain f' where "persist S (put_cache f j (snd (tr_begin h i t))) (snd (tr_begin h i t)) = (Inr (), f')"
    "writes_land S (CfgLocalFiles f')" "fi_holds f' = fi_holds (put_cache f j (snd (tr_begin h i t)))"
    using persist_lands [of S "put_cache f j (snd (tr_begin h i t))"] assms(1) CfgLocalFiles put_cache_lands by metis
  then show ?thesis
    using assms(2,3) CfgLocalFiles
    by (auto simp: claim_begin_def cfg_begin_decision_def file_begin_decision_def cfg_get_def file_get_def tr_begin_def
        put_cache_def)
qed

lemma claim_complete_lands:
  assumes "writes_land S store" "cfg_get store (dc_hold_id claim) = Some h"
  shows "\<exists>store'. claim_complete S store claim rec st = (Inr (), store') \<and>
    cfg_get store' (dc_hold_id claim) = Some (tr_complete h rec st)"
proof (cases store)
  case (CfgMemory m)
  then show ?thesis
    using assms(2) by (auto simp: claim_complete_def claim_drop_def cfg_complete_decision_def mem_complete_decision_def
        mem_with_hold_def mem_get_def cfg_get_def)
next
  case (CfgLocalFiles f)
  let ?h = "tr_complete h rec st"
  obtain f' where "persist S (put_cache f (dc_hold_id claim) ?h) ?h = (Inr (), f')"
    "fi_holds f' = fi_holds (put_cache f (dc_hold_id claim) ?h)"
    using persist_lands [of S "put_cache f (dc_hold_id claim) ?h"] assms(1) CfgLocalFiles put_cache_lands by metis
  then show ?thesis
    using assms(2) CfgLocalFiles
    by (auto simp: claim_complete_def claim_drop_def cfg_complete_decision_def file_complete_decision_def file_mutate_def
        cfg_get_def file_get_def put_cache_def)
qed

lemma decide_hold_refuses:
  fixes state :: "'t ingest_state"
  assumes "in_hold_capture state = Some capture" "writes_land S (hcap_store capture)"
    and "cfg_get (hcap_store capture) hold_id = Some hold" "ha_decision hold = None" "assert_decidable hold now_ms = Inr ()"
    and "voted C state hold_id operator_id input" "di_decision input = Refuse"
  shows "\<exists>store' rec. let claimed = snd (tr_begin hold (di_nostr_intent_event_id input) now_ms);
      decided = tr_complete claimed rec Refused in
    decide_hold C S lr rr X state hold_id operator_id input now_ms =
      (Inr \<lparr>do_hold = decided, do_replayed = False, do_receipt = None,
            do_capability_lease = None, do_containment_lease_id = None\<rparr>,
       state\<lparr>in_hold_capture :=
         Some (publish_state (capture\<lparr>hcap_store := store'\<rparr>) claimed Refused now_ms)\<rparr>) \<and>
    cfg_get store' hold_id = Some decided \<and>
    hd_outcome rec = RefusedByOperator \<and> \<not> hd_dispatched rec \<and> hd_operator_id rec = operator_id"
proof -
  define i where "i = di_nostr_intent_event_id input"
  obtain v r where ad: "decide_admit C state hold hold_id operator_id input now_ms = Inr (v, r)"
    using assms(5,6) by (simp add: decide_admit_iff)
  define claim where "claim = \<lparr>dc_hold_id = hold_id, dc_intent_event_id = i,
    dc_claimed = snd (tr_begin hold i now_ms), dc_armed = True\<rparr>"
  obtain store1 where b: "claim_begin S (hcap_store capture) hold_id i now_ms = (Inr claim, store1)"
    "cfg_get store1 hold_id = Some (dc_claimed claim)" "writes_land S store1"
    using claim_begin_lands [OF assms(2,3,5), of i] by (auto simp: claim_def)
  define state1 where "state1 = with_store state capture store1"
  define rec where "rec = base_record state1 (dc_claimed claim) operator_id v r input now_ms
    RefusedByOperator NotRequired"
  obtain store2 where c: "claim_complete S store1 claim rec Refused = (Inr (), store2)"
    "cfg_get store2 hold_id = Some (tr_complete (dc_claimed claim) rec Refused)"
    using claim_complete_lands [OF b(3), of claim "dc_claimed claim" rec Refused] b(2) by (auto simp: claim_def)
  have "decide_hold C S lr rr X state hold_id operator_id input now_ms =
      decide_refused S state1 (capture\<lparr>hcap_store := store1\<rparr>) claim rec hold_id now_ms"
    using assms(1,3,4,7) ad b(1) by (simp add: decide_hold_def decide_claimed_def i_def rec_def state1_def)
  then show ?thesis using c
    by (intro exI [of _ store2] exI [of _ rec])
      (simp add: decide_refused_def settle_claim_def read_outcome_def publish_state_def
        rec_def state1_def with_store_def claim_def i_def Let_def)
qed

text \<open>
  C39. A refusal lands when it can be written. On either backend, as long as the writes of the store succeed
  (\<open>writes_land\<close>; those of the memory backend always do), a signed refusal of an open hold that has no decision
  yet, before its expiry, returns the decided hold: it is refused by the operator, nothing was dispatched, the
  store holds that record, and the governance policy was neither consulted nor changed, whatever it and the
  runtime are. On the file backend a failing write is answered with an error (\<open>unwritten_refusal\<close>).
\<close>

theorem refusal_lands:
  assumes "in_hold_capture state = Some capture" "writes_land S (hcap_store capture)"
    and "cfg_get (hcap_store capture) hold_id = Some hold" "ha_decision hold = None" "assert_decidable hold now_ms = Inr ()"
    and "voted C state hold_id operator_id input" "di_decision input = Refuse"
  shows "\<exists>outcome state' capture' rec.
    decide_hold C S lr rr X state hold_id operator_id input now_ms = (Inr outcome, state') \<and>
    in_hold_capture state' = Some capture' \<and>
    cfg_get (hcap_store capture') hold_id = Some (do_hold outcome) \<and> \<not> do_replayed outcome \<and>
    ha_state (do_hold outcome) = Refused \<and> ha_decision (do_hold outcome) = Some rec \<and>
    hd_outcome rec = RefusedByOperator \<and> \<not> hd_dispatched rec \<and> hd_operator_id rec = operator_id \<and>
    in_governance_policy state' = in_governance_policy state"
  using decide_hold_refuses [OF assms, of lr rr X]
  by (auto simp: Let_def tr_complete_def publish_state_def)

lemma unwritten_refusal:
  assumes "in_hold_capture state = Some capture" "hcap_store capture = CfgLocalFiles f"
    and "file_get f hold_id = Some hold" "ha_decision hold = None" "assert_decidable hold now_ms = Inr ()"
    and "voted C state hold_id operator_id input" "\<And>h. \<exists>b. hc_encode S h = Inr b"
    and "fi_io f (fi_writes f) = RenameFails source"
  shows "\<exists>path. fst (decide_hold C S lr rr X state hold_id operator_id input now_ms) = Inl (DecideStore (HsIo path source))"
proof -
  obtain v r where ad: "decide_admit C state hold hold_id operator_id input now_ms = Inr (v, r)"
    using assms(5,6) by (simp add: decide_admit_iff)
  let ?claimed = "snd (tr_begin hold (di_nostr_intent_event_id input) now_ms)"
  obtain b where "hc_encode S ?claimed = Inr b" using assms(7) by blast
  then have "\<exists>path f'. claim_begin S (CfgLocalFiles f) hold_id (di_nostr_intent_event_id input) now_ms =
      (Inl (HsIo path source), CfgLocalFiles f')"
    using assms(3,5,8)
    by (auto simp: claim_begin_def cfg_begin_decision_def file_begin_decision_def file_get_def persist_def Let_def
        put_cache_def tr_begin_def split: if_splits sum.splits)
  then show ?thesis using assms(1-4) ad by (auto simp: decide_hold_def cfg_get_def)
qed

section \<open>A decision on the sample hold\<close>

definition sample_payload :: json where
  "sample_payload = decision_payload_json 4 Refuse ''hold_sample'' None"

definition sample_capture :: hold_capture where
  "sample_capture = \<lparr>hcap_store = CfgMemory \<lparr>ms_holds = [(''hold_sample'', sample_hold)]\<rparr>,
     hcap_events = None,
     hcap_settings = \<lparr>hs_hold_store_path = None, hs_hold_ttl_ms = 3600000,
       hs_hold_ttl_ms_by_threat_class = [], hs_sweep_interval_ms = 5000, hs_decide_stall_ms = 60000,
       hs_refile_after_ms = 30000, hs_governance_receipt_max_age_ms = 86400000\<rparr>\<rparr>"

definition sample_key_hex :: string where
  "sample_key_hex = lib_hex_encode model_crypto (lib_verifying_key model_crypto solo_key)"

definition sample_desk :: "unit ingest_state" where
  "sample_desk = \<lparr>in_hold_capture = Some sample_capture, in_governance_policy = None,
     in_principals = [(''operator'', Some sample_key_hex)], in_live_response = True,
     in_runtime_events = None\<rparr>"

definition sample_refusal :: decision_input where
  "sample_refusal =
     \<lparr>di_decision = Refuse, di_decided_at_ms = 4, di_nostr_intent_event_id = ''intent'',
      di_signature = (case canonical_json_bytes model_crypto sample_payload of
        Inl _ \<Rightarrow> \<lparr>ds_algorithm = [], ds_key_id = [], ds_public_key_hex = [], ds_signature_hex = []\<rparr>
      | Inr payload \<Rightarrow> make_detached_signature model_crypto solo_key payload),
      di_rationale = None, di_armed_at_ms = None\<rparr>"

definition idle_runtime :: "unit runtime_ops" where
  "idle_runtime = \<lparr>rt_execute = (\<lambda>_ _ _ _ state. (Inl ''offline'', state)),
     rt_issue_lease = (\<lambda>_ _ _. None)\<rparr>"

lemma sample_voted: "voted model_crypto sample_desk ''hold_sample'' ''operator'' sample_refusal"
proof -
  obtain payload where p: "canonical_json_bytes model_crypto sample_payload = Inr payload"
  proof -
    have "float_free sample_payload"
      by (simp add: sample_payload_def decision_payload_json_def json_int_def json_opt_def)
    then show ?thesis
      using that canonicalize_total [of sample_payload model_crypto]
      by (auto simp: canonical_json_bytes_def map_result_def)
  qed
  have "ds_public_key_hex (make_detached_signature model_crypto solo_key payload) = sample_key_hex"
    by (simp add: make_detached_signature_def sample_key_hex_def Let_def)
  then show ?thesis
    using p verify_own_signature [OF model_crypto_laws, of payload solo_key]
    by (simp add: voted_def sample_refusal_def sample_desk_def operator_binds_voter_id_def
        voter_id_from_public_key_def rationale_sha256_hex_def sample_payload_def)
qed

lemma sample_capture_ok [simp]: "cfg_ok (hcap_store sample_capture)"
  by (simp add: sample_capture_def holds_ok_def bt_ok_def)

lemma sample_desk_fields [simp]:
  "in_hold_capture sample_desk = Some sample_capture"
  "hcap_store sample_capture = CfgMemory \<lparr>ms_holds = [(''hold_sample'', sample_hold)]\<rparr>"
  "mem_get \<lparr>ms_holds = [(''hold_sample'', sample_hold)]\<rparr> ''hold_sample'' = Some sample_hold"
  "ha_decision sample_hold = None" "di_decision sample_refusal = Refuse"
  by (simp_all add: sample_desk_def sample_capture_def mem_get_def sample_refusal_def
      sample_hold_def held_action_new_def)

lemma sample_store:
  "writes_land S (hcap_store sample_capture)" "cfg_get (hcap_store sample_capture) ''hold_sample'' = Some sample_hold"
  using sample_desk_fields(3) by (simp_all add: cfg_get_def)

lemmas sample_refuses = decide_hold_refuses [of sample_desk, OF sample_desk_fields(1) sample_store sample_desk_fields(4)
  sample_decidable sample_voted sample_desk_fields(5)]

theorem decide_hold_guarded_witness:
  "snd (decide_hold model_crypto no_codec (\<lambda>_. Inl []) (\<lambda>_. Inl []) idle_runtime sample_desk
     ''hold_sample'' ''intruder'' sample_refusal 5) = sample_desk"
proof -
  have "\<not> voted model_crypto sample_desk ''hold_sample'' ''intruder'' sample_refusal"
    by (simp add: voted_def sample_desk_def operator_binds_voter_id_def)
  then show ?thesis
    using decide_hold_guarded [OF sample_desk_fields(1) sample_capture_ok] by blast
qed

theorem decision_replays_witness:
  "\<exists>hold state'. snd (decide_hold model_crypto no_codec (\<lambda>_. Inl []) (\<lambda>_. Inl []) idle_runtime sample_desk
       ''hold_sample'' ''operator'' sample_refusal 5) = state' \<and> ha_state hold = Refused \<and>
     decide_hold model_crypto no_codec (\<lambda>_. Inl []) (\<lambda>_. Inl []) idle_runtime state'
       ''hold_sample'' ''operator'' (sample_refusal\<lparr>di_decision := Grant\<rparr>) 9000000 =
       (Inr \<lparr>do_hold = hold, do_replayed = True, do_receipt = None,
          do_capability_lease = None, do_containment_lease_id = None\<rparr>, state')"
proof -
  obtain outcome state' where run: "decide_hold model_crypto no_codec (\<lambda>_. Inl []) (\<lambda>_. Inl []) idle_runtime
      sample_desk ''hold_sample'' ''operator'' sample_refusal 5 = (Inr outcome, state')"
      "ha_state (do_hold outcome) = Refused"
    using sample_refuses [of no_codec "\<lambda>_. Inl []" "\<lambda>_. Inl []" idle_runtime]
    by (auto simp: Let_def tr_complete_def)
  have "keeps_store idle_runtime" by (simp add: keeps_store_def idle_runtime_def)
  from decision_replays [OF sample_desk_fields(1) sample_capture_ok this run(1)]
  show ?thesis using run by simp
qed

theorem refusal_lands_witness:
  "\<exists>outcome state'. decide_hold model_crypto no_codec (\<lambda>_. Inl []) (\<lambda>_. Inl []) idle_runtime sample_desk
     ''hold_sample'' ''operator'' sample_refusal 5 = (Inr outcome, state') \<and>
     ha_state (do_hold outcome) = Refused"
  using refusal_lands [of sample_desk, OF sample_desk_fields(1) sample_store sample_desk_fields(4) sample_decidable
      sample_voted sample_desk_fields(5), of no_codec "\<lambda>_. Inl []" "\<lambda>_. Inl []" idle_runtime]
  by blast

end
