(* ===== verification/Journal_Files.thy ===== *)
theory Journal_Files
  imports Ambush_Prelude
begin

text \<open>
  The part of the operating system the dispatch journal uses: one directory, its names, the
  contents of its files, the advisory lock on a file, and the answers to the system calls.

  A file is an inode number with its contents; the name table maps names to inodes, so that a
  file can be renamed over another while a handle on the old one stays open. Every call takes
  one answer from \<open>dr_io\<close>: when the answer is an error the call returns it, and a write has
  then written only the first bytes the answer says. With no answer left calls succeed. Reading a whole file
  is one call. All files are regular files.
\<close>

datatype io_answer = IoOk | IoErr string nat

record directory =
  dr_path :: string
  dr_dev :: nat
  dr_names :: "string \<Rightarrow> nat option"
  dr_data :: "nat \<Rightarrow> bytes"
  dr_next :: nat
  dr_locked :: "nat \<Rightarrow> bool"
  dr_io :: "io_answer list"

text \<open>One answer: the error of the call, if any, with the number of bytes it still wrote.\<close>

definition sys_answer :: "directory \<Rightarrow> (string \<times> nat) option \<times> directory" where
  "sys_answer d =
     (case dr_io d of
        [] \<Rightarrow> (None, d)
      | IoOk # rest \<Rightarrow> (None, d\<lparr>dr_io := rest\<rparr>)
      | IoErr e n # rest \<Rightarrow> (Some (e, n), d\<lparr>dr_io := rest\<rparr>))"

text \<open>A call with no effect of its own on the directory: a query, a sync.\<close>

definition sys_query :: "(directory \<Rightarrow> 'a) \<Rightarrow> directory \<Rightarrow> (string + 'a) \<times> directory" where
  "sys_query f d =
     (case sys_answer d of
        (None, d) \<Rightarrow> (Inr (f d), d)
      | (Some (e, _), d) \<Rightarrow> (Inl e, d))"

definition NO_SUCH_FILE :: string where
  "NO_SUCH_FILE = ''No such file or directory (os error 2)''"

definition FILE_EXISTS :: string where
  "FILE_EXISTS = ''File exists (os error 17)''"

text \<open>Opening an existing file.\<close>

definition sys_open :: "string \<Rightarrow> directory \<Rightarrow> (string + nat) \<times> directory" where
  "sys_open name d =
     (case sys_query (\<lambda>d. dr_names d name) d of
        (Inl e, d) \<Rightarrow> (Inl e, d)
      | (Inr None, d) \<Rightarrow> (Inl NO_SUCH_FILE, d)
      | (Inr (Some ino), d) \<Rightarrow> (Inr ino, d))"

text \<open>\<^verbatim>\<open>create_new\<close>: the inner option is \<open>None\<close> when the name exists.\<close>

definition sys_create_new :: "string \<Rightarrow> directory \<Rightarrow> (string + nat option) \<times> directory" where
  "sys_create_new name d =
     (case sys_answer d of
        (Some (e, _), d) \<Rightarrow> (Inl e, d)
      | (None, d) \<Rightarrow>
          if dr_names d name \<noteq> None then (Inr None, d)
          else (Inr (Some (dr_next d)),
                d\<lparr>dr_names := (dr_names d)(name \<mapsto> dr_next d),
                  dr_data := (dr_data d)(dr_next d := []), dr_next := Suc (dr_next d)\<rparr>))"

definition sys_read :: "nat \<Rightarrow> directory \<Rightarrow> (string + bytes) \<times> directory" where
  "sys_read ino d = sys_query (\<lambda>d. dr_data d ino) d"

definition sys_write :: "nat \<Rightarrow> bytes \<Rightarrow> directory \<Rightarrow> (string + unit) \<times> directory" where
  "sys_write ino b d =
     (case sys_answer d of
        (None, d) \<Rightarrow> (Inr (), d\<lparr>dr_data := (dr_data d)(ino := dr_data d ino @ b)\<rparr>)
      | (Some (e, n), d) \<Rightarrow> (Inl e, d\<lparr>dr_data := (dr_data d)(ino := dr_data d ino @ take n b)\<rparr>))"

definition sys_rename :: "string \<Rightarrow> string \<Rightarrow> directory \<Rightarrow> (string + unit) \<times> directory" where
  "sys_rename old_name new_name d =
     (case sys_answer d of
        (Some (e, _), d) \<Rightarrow> (Inl e, d)
      | (None, d) \<Rightarrow>
          (case dr_names d old_name of
             None \<Rightarrow> (Inl NO_SUCH_FILE, d)
           | Some ino \<Rightarrow>
               (Inr (), d\<lparr>dr_names := (dr_names d)(old_name := None, new_name \<mapsto> ino)\<rparr>)))"

text \<open>\<^verbatim>\<open>try_lock\<close>: whether the lock was free and is now taken.\<close>

definition sys_try_lock :: "nat \<Rightarrow> directory \<Rightarrow> (string + bool) \<times> directory" where
  "sys_try_lock ino d =
     (case sys_answer d of
        (Some (e, _), d) \<Rightarrow> (Inl e, d)
      | (None, d) \<Rightarrow>
          if dr_locked d ino then (Inr False, d)
          else (Inr True, d\<lparr>dr_locked := (dr_locked d)(ino := True)\<rparr>))"

definition sys_sync :: "directory \<Rightarrow> (string + unit) \<times> directory" where
  "sys_sync d = sys_query (\<lambda>_. ()) d"

text \<open>Closing a handle never fails and releases its lock.\<close>

definition sys_unlock :: "nat \<Rightarrow> directory \<Rightarrow> directory" where
  "sys_unlock ino d = d\<lparr>dr_locked := (dr_locked d)(ino := False)\<rparr>"

end
