(* ===== verification/Dispatch_Journal.thy ===== *)
theory Dispatch_Journal
  imports Journal_Files Response_Types
begin

text \<open>
  The dispatch journal (\<^verbatim>\<open>crates/swarm-runtime/src/dispatch_journal.rs\<close>): the durable record that
  permission for a dispatch was consumed, written before the external effect.

  \<^verbatim>\<open>serde_json\<close> is the record \<open>journal_codec\<close>: what its writer produced for a value, with the
  error it stopped at if any, and its decoders. A \<^verbatim>\<open>Sha256\<close> hasher is the bytes it was fed.
  Creating the directory and syncing the chain of its ancestors is one call that can fail. The
  mutex makes one call one step, and the journal's state and the directory are passed along.
\<close>

section \<open>Errors, records and events\<close>

datatype journal_error =
    DjIo string string
  | DjAlreadyOpen string
  | DjCorrupt string
  | DjAlreadyReserved string
  | DjLimitExceeded string
  | DjPoisoned
  | DjUnknownDispatch string
  | DjAlreadyCompleted string
  | DjSerialization string

fun journal_error_display :: "journal_error \<Rightarrow> string" where
  "journal_error_display (DjIo path source) = ''dispatch journal I/O at `'' @ path @ ''`: '' @ source"
| "journal_error_display (DjAlreadyOpen path) = ''dispatch journal `'' @ path @ ''` already has a writer''"
| "journal_error_display (DjCorrupt reason) = ''corrupt dispatch journal: '' @ reason"
| "journal_error_display (DjAlreadyReserved dispatch_id) =
     ''dispatch `'' @ dispatch_id @ ''` was already reserved; retransmission is forbidden''"
| "journal_error_display (DjLimitExceeded what) = ''dispatch journal limit exceeded: '' @ what"
| "journal_error_display DjPoisoned = ''dispatch journal is poisoned; reconcile its durable state''"
| "journal_error_display (DjUnknownDispatch dispatch_id) =
     ''dispatch `'' @ dispatch_id @ ''` has no durable reservation''"
| "journal_error_display (DjAlreadyCompleted dispatch_id) =
     ''dispatch `'' @ dispatch_id @ ''` already has a completion''"
| "journal_error_display (DjSerialization e) = ''dispatch journal serialization failed: '' @ e"

fun has_prior_reservation :: "journal_error \<Rightarrow> bool" where
  "has_prior_reservation (DjAlreadyReserved _) = True"
| "has_prior_reservation (DjAlreadyCompleted _) = True"
| "has_prior_reservation _ = False"

definition VERSION :: nat where "VERSION = 1"
definition MAX_CHECKPOINT_BYTES :: u64 where "MAX_CHECKPOINT_BYTES = 1024"
definition MANIFEST_NAME :: string where "MANIFEST_NAME = ''initialized''"
definition LOCK_NAME :: string where "LOCK_NAME = ''writer.lock''"
definition JOURNAL_NAME :: string where "JOURNAL_NAME = ''dispatch-journal.jsonl''"
definition MAX_DISPATCH_ENTRIES :: usize where "MAX_DISPATCH_ENTRIES = 100000"
definition MAX_DISPATCH_RECORD_BYTES :: usize where "MAX_DISPATCH_RECORD_BYTES = 65536"
definition MAX_DISPATCH_JOURNAL_BYTES :: u64 where "MAX_DISPATCH_JOURNAL_BYTES = 128 * 1024 * 1024"
definition MAX_JSON_DEPTH :: usize where "MAX_JSON_DEPTH = 96"

text \<open>\<^verbatim>\<open>MANIFEST_NAME\<close> with the extension \<open>tmp\<close>.\<close>

definition MANIFEST_TMP :: string where "MANIFEST_TMP = ''initialized.tmp''"

type_synonym adapter_result = "response_error + response_receipt"

datatype dispatch_phase = OutcomeUnknown | Completed

record dispatch_record =
  dr_dispatch_id :: string
  dr_request :: action_request
  dr_lease :: capability_lease
  dr_reserved_at_ms :: i64
  dr_completion :: "adapter_result option"

definition phase :: "dispatch_record \<Rightarrow> dispatch_phase" where
  "phase rec = (if dr_completion rec \<noteq> None then Completed else OutcomeUnknown)"

datatype journal_event =
    Header nat
  | Intent string action_request capability_lease i64
  | Completion string adapter_result

record checkpoint =
  cp_version :: nat
  cp_bytes :: u64
  cp_digest :: string
  cp_writer_identity :: string

type_synonym 'a writer = "'a \<Rightarrow> bytes \<times> string option"

record journal_codec =
  jc_request :: "action_request writer"
  jc_lease :: "capability_lease writer"
  jc_identity :: "action_request writer"
  jc_event :: "journal_event writer"
  jc_result :: "adapter_result writer"
  jc_checkpoint :: "checkpoint writer"
  jc_read_event :: "bytes \<Rightarrow> string + journal_event"
  jc_read_checkpoint :: "bytes \<Rightarrow> string + checkpoint"

type_synonym dispatch_records = "(string, dispatch_record) btree"

record journal_state =
  js_file :: nat
  js_records :: dispatch_records
  js_bytes :: u64
  js_poisoned :: bool
  js_hashed :: bytes

record journal_limits =
  jl_max_entries :: usize
  jl_max_bytes :: u64

definition journal_limits_default :: journal_limits where
  "journal_limits_default =
     \<lparr>jl_max_entries = MAX_DISPATCH_ENTRIES, jl_max_bytes = MAX_DISPATCH_JOURNAL_BYTES\<rparr>"

record dispatch_journal =
  dj_writer_lock :: nat
  dj_state :: journal_state
  dj_limits :: journal_limits

section \<open>Sequencing\<close>

type_synonym 'a jio = "directory \<Rightarrow> (journal_error + 'a) \<times> directory"

definition jbind :: "'a jio \<Rightarrow> ('a \<Rightarrow> 'b jio) \<Rightarrow> 'b jio" where
  "jbind m f d = (case m d of (Inl e, d) \<Rightarrow> (Inl e, d) | (Inr x, d) \<Rightarrow> f x d)"

definition jret :: "'a \<Rightarrow> 'a jio" where
  "jret x d = (Inr x, d)"

definition jres :: "journal_error + 'a \<Rightarrow> 'a jio" where
  "jres r d = (r, d)"

definition file_path :: "directory \<Rightarrow> string \<Rightarrow> string" where
  "file_path d name = dr_path d @ ''/'' @ name"

text \<open>A system call on a file of the directory, its error tagged with the path.\<close>

definition jsys :: "string \<Rightarrow> (directory \<Rightarrow> (string + 'a) \<times> directory) \<Rightarrow> 'a jio" where
  "jsys name call d =
     (case call d of
        (Inl e, d') \<Rightarrow> (Inl (DjIo (file_path d name) e), d')
      | (Inr x, d') \<Rightarrow> (Inr x, d'))"

text \<open>A system call on the directory itself.\<close>

definition jsys_dir :: "(directory \<Rightarrow> (string + 'a) \<times> directory) \<Rightarrow> 'a jio" where
  "jsys_dir call d =
     (case call d of
        (Inl e, d') \<Rightarrow> (Inl (DjIo (dr_path d) e), d')
      | (Inr x, d') \<Rightarrow> (Inr x, d'))"

section \<open>Serialisation\<close>

text \<open>\<^verbatim>\<open>BoundedWriter\<close> fails the first write that would bring the total to the limit.\<close>

definition serialize_bounded :: "'a writer \<Rightarrow> 'a \<Rightarrow> journal_error + bytes" where
  "serialize_bounded w v =
     (let (b, err) = w v
      in if length b \<ge> MAX_DISPATCH_RECORD_BYTES then Inl (DjLimitExceeded ''record byte count'')
         else case err of Some e \<Rightarrow> Inl (DjSerialization e) | None \<Rightarrow> Inr b)"

definition serialize_event :: "journal_codec \<Rightarrow> journal_event \<Rightarrow> journal_error + bytes" where
  "serialize_event J event =
     (case serialize_bounded (jc_event J) event of
        Inl e \<Rightarrow> Inl e
      | Inr b \<Rightarrow>
          let b = b @ [CHR 0x0A] in
          if length b > MAX_DISPATCH_RECORD_BYTES then Inl (DjLimitExceeded ''record byte count'')
          else case jc_read_event J b of
            Inl e \<Rightarrow> Inl (DjSerialization (''event cannot be recovered: '' @ e))
          | Inr _ \<Rightarrow> Inr b)"

definition identity_json :: "action_request \<Rightarrow> json" where
  "identity_json request =
     JObject [(''hunt_id'', JString (hunt_str (ar_hunt_id request))),
              (''requested_by'', agent_id_json (ar_requested_by request)),
              (''action'', response_action_json (ar_action request))]"

definition request_id :: "crypto_lib \<Rightarrow> journal_codec \<Rightarrow> action_request \<Rightarrow> journal_error + string" where
  "request_id C J request =
     (case serialize_bounded (jc_identity J) request of
        Inl e \<Rightarrow> Inl e
      | Inr _ \<Rightarrow>
        (case canonical_json_bytes C (identity_json request) of
           Inl e \<Rightarrow> Inl (DjSerialization (crypto_error_display e))
         | Inr body \<Rightarrow>
             Inr (''dispatch:'' @ sha256_hex C (''ambush.dispatch-intent.v1'' @ [CHR 0x00] @ body))))"

fun json_children :: "json \<Rightarrow> json list" where
  "json_children (JArray values) = values"
| "json_children (JObject kvs) = map snd kvs"
| "json_children _ = []"

lemma json_children_size: "sum_list (map (\<lambda>c. Suc (size c)) (json_children v)) \<le> size v"
proof (cases v)
  case (JArray xs)
  have "sum_list (map (\<lambda>c. Suc (size c)) xs) \<le> size_list size xs" by (induction xs) auto
  then show ?thesis by (simp add: JArray)
next
  case (JObject kvs)
  have "sum_list (map (\<lambda>c. Suc (size c)) (map snd kvs)) \<le> size_list (size_prod f size) kvs"
    for f :: "string \<Rightarrow> nat"
    by (induction kvs) auto
  then show ?thesis by (simp add: JObject le_SucI)
qed auto

text \<open>The explicit stack of \<^verbatim>\<open>validate_json_depth\<close>; the head of the list is the top of the stack.\<close>

function json_depth_loop :: "(usize \<times> json) list \<Rightarrow> usize \<Rightarrow> journal_error + unit" where
  "json_depth_loop [] visited = Inr ()"
| "json_depth_loop ((depth, value) # pending) visited =
     (if depth > MAX_JSON_DEPTH
      then Inl (DjSerialization ''JSON nesting exceeds recoverable depth'')
      else if Suc visited + length pending + length (json_children value) > MAX_DISPATCH_RECORD_BYTES
      then Inl (DjLimitExceeded ''JSON node count'')
      else json_depth_loop (rev (map (Pair (Suc depth)) (json_children value)) @ pending) (Suc visited))"
  by pat_completeness auto
termination
proof (relation "measure (\<lambda>(pending, visited). sum_list (map (\<lambda>p. Suc (size (snd p))) pending))", goal_cases)
  case (2 depth val pending visited)
  have "sum_list (map (\<lambda>p. Suc (size (snd p))) (rev (map (Pair (Suc depth)) (json_children val)))) =
      sum_list (map (\<lambda>c. Suc (size c)) (json_children val))"
    by (simp add: rev_map [symmetric] comp_def sum_list_rev)
  then show ?case using json_children_size [of val] by simp
qed simp

definition validate_json_depth :: "json \<Rightarrow> journal_error + unit" where
  "validate_json_depth value = json_depth_loop [(0, value)] 0"

section \<open>Replaying the log\<close>

text \<open>One line with its newline, cut after \<open>n\<close> bytes: \<^verbatim>\<open>take(n).read_until\<close>.\<close>

fun take_line :: "nat \<Rightarrow> bytes \<Rightarrow> bytes" where
  "take_line n [] = []"
| "take_line n (c # rest) =
     (if n = 0 then [] else c # (if c = CHR 0x0A then [] else take_line (n - 1) rest))"

lemma take_line_nonempty: "take_line (Suc n) (c # rest) \<noteq> []"
  by simp

text \<open>What one parsed event of the log does to the records; the first line is the header.\<close>

definition replay_event ::
  "crypto_lib \<Rightarrow> journal_codec \<Rightarrow> journal_event \<Rightarrow> dispatch_records \<Rightarrow> journal_error + dispatch_records" where
  "replay_event C J event records =
     (case event of
        Header _ \<Rightarrow> Inl (DjCorrupt ''duplicate journal header'')
      | Intent dispatch_id request lease reserved_at_ms \<Rightarrow>
          (case request_id C J request of
             Inl e \<Rightarrow> Inl e
           | Inr identity \<Rightarrow>
               if identity \<noteq> dispatch_id \<or> bt_get records dispatch_id \<noteq> None
               then Inl (DjCorrupt ''mismatched or duplicate intent identity'')
               else if cl_action lease \<noteq> kind (ar_action request) \<or> cl_expires_at_ms lease \<le> reserved_at_ms
               then Inl (DjCorrupt ''intent has invalid action authorization'')
               else if length records \<ge> MAX_DISPATCH_ENTRIES
               then Inl (DjLimitExceeded ''dispatch entry count'')
               else Inr (bt_insert dispatch_id
                      \<lparr>dr_dispatch_id = dispatch_id, dr_request = request, dr_lease = lease,
                       dr_reserved_at_ms = reserved_at_ms, dr_completion = None\<rparr> records))
      | Completion dispatch_id result \<Rightarrow>
          (case bt_get records dispatch_id of
             None \<Rightarrow> Inl (DjCorrupt ''completion without intent'')
           | Some rec \<Rightarrow>
               if dr_completion rec \<noteq> None then Inl (DjCorrupt ''duplicate completion'')
               else Inr (bt_insert dispatch_id (rec\<lparr>dr_completion := Some result\<rparr>) records)))"

definition corrupt_line :: "nat \<Rightarrow> string \<Rightarrow> journal_error" where
  "corrupt_line line_number e = DjCorrupt (''line '' @ dec_nat line_number @ '': '' @ e)"

text \<open>The line loop: the rest of the file, the lines and bytes read so far, the records.\<close>

function replay_lines ::
  "crypto_lib \<Rightarrow> journal_codec \<Rightarrow> bytes \<Rightarrow> nat \<Rightarrow> u64 \<Rightarrow> dispatch_records \<Rightarrow>
   journal_error + dispatch_records \<times> nat \<times> u64" where
  "replay_lines C J [] line_number read_bytes records = Inr (records, line_number, read_bytes)"
| "replay_lines C J (c # rest) line_number read_bytes records =
     (let line = take_line (Suc MAX_DISPATCH_RECORD_BYTES) (c # rest); line_number = Suc line_number;
          read_bytes = read_bytes + length line; rest = drop (length line) (c # rest)
      in if length line > MAX_DISPATCH_RECORD_BYTES then Inl (DjLimitExceeded ''record byte count'')
         else if List.last line \<noteq> CHR 0x0A
         then Inl (DjCorrupt (''truncated record at line '' @ dec_nat line_number))
         else if read_bytes > MAX_DISPATCH_JOURNAL_BYTES then Inl (DjLimitExceeded ''journal byte count'')
         else case jc_read_event J line of
           Inl e \<Rightarrow> Inl (corrupt_line line_number e)
         | Inr event \<Rightarrow>
           if line_number = 1
           then if event \<noteq> Header VERSION
                then Inl (DjCorrupt ''missing or unsupported journal header'')
                else replay_lines C J rest line_number read_bytes records
           else case replay_event C J event records of
             Inl e \<Rightarrow> Inl e
           | Inr records \<Rightarrow> replay_lines C J rest line_number read_bytes records)"
  by pat_completeness auto
termination
  by (relation "measure (\<lambda>(C, J, content, uu). length content)") (auto simp: less_Suc_eq_le)

declare replay_lines.simps [simp del]

text \<open>
  \<^verbatim>\<open>read_records\<close> on the contents of the journal: the records and the bytes fed to the hasher.
\<close>

definition read_records ::
  "crypto_lib \<Rightarrow> journal_codec \<Rightarrow> bytes \<Rightarrow> journal_error + dispatch_records \<times> u64 \<times> bytes" where
  "read_records C J content =
     (if length content > MAX_DISPATCH_JOURNAL_BYTES then Inl (DjLimitExceeded ''journal byte count'')
      else case replay_lines C J content 0 0 [] of
        Inl e \<Rightarrow> Inl e
      | Inr (records, line_number, read_bytes) \<Rightarrow>
          if line_number = 0 \<or> read_bytes \<noteq> length content
          then Inl (DjCorrupt ''empty or concurrently changed journal'')
          else Inr (records, read_bytes, content))"

section \<open>The checkpoint and the writer lock\<close>

definition digest_hex :: "crypto_lib \<Rightarrow> bytes \<Rightarrow> string" where
  "digest_hex C hashed = lib_hex_encode C (lib_sha256 C hashed)"

definition metadata_identity :: "directory \<Rightarrow> nat \<Rightarrow> string" where
  "metadata_identity d ino = dec_nat (dr_dev d) @ '':'' @ dec_nat ino"

definition file_identity :: "nat \<Rightarrow> string jio" where
  "file_identity ino = jsys LOCK_NAME (sys_query (\<lambda>d. metadata_identity d ino))"

definition require_regular_file :: "string \<Rightarrow> unit jio" where
  "require_regular_file name = jbind (jsys name (sys_open name)) (\<lambda>_. jret ())"

definition parse_checkpoint :: "journal_codec \<Rightarrow> bytes \<Rightarrow> journal_error + checkpoint" where
  "parse_checkpoint J b =
     (if length b > MAX_CHECKPOINT_BYTES then Inl (DjCorrupt ''oversized checkpoint'')
      else case jc_read_checkpoint J b of
        Inl e \<Rightarrow> Inl (DjCorrupt (''invalid checkpoint: '' @ e))
      | Inr cp \<Rightarrow> Inr cp)"

definition read_checkpoint :: "journal_codec \<Rightarrow> checkpoint jio" where
  "read_checkpoint J =
     jbind (jsys MANIFEST_NAME (sys_query (\<lambda>d. dr_names d MANIFEST_TMP \<noteq> None))) (\<lambda>interrupted.
     if interrupted then jres (Inl (DjCorrupt ''interrupted checkpoint update''))
     else jbind (require_regular_file MANIFEST_NAME) (\<lambda>_.
     jbind (jsys MANIFEST_NAME (sys_open MANIFEST_NAME)) (\<lambda>ino.
     jbind (jsys MANIFEST_NAME (sys_read ino)) (\<lambda>content.
     jres (parse_checkpoint J (take (Suc MAX_CHECKPOINT_BYTES) content))))))"

text \<open>The new file is written, synced and renamed over the manifest.\<close>

definition replace_manifest :: "nat \<Rightarrow> bytes \<Rightarrow> unit jio" where
  "replace_manifest ino b =
     jbind (jsys MANIFEST_TMP (sys_write ino b)) (\<lambda>_.
     jbind (jsys MANIFEST_TMP sys_sync) (\<lambda>_.
     jbind (jsys MANIFEST_NAME (sys_rename MANIFEST_TMP MANIFEST_NAME)) (\<lambda>_.
     jsys_dir sys_sync)))"

definition created_or_exists :: "string \<Rightarrow> nat option \<Rightarrow> nat jio" where
  "created_or_exists name created d =
     (case created of
        None \<Rightarrow> (Inl (DjIo (file_path d name) FILE_EXISTS), d) | Some ino \<Rightarrow> (Inr ino, d))"

definition write_checkpoint :: "journal_codec \<Rightarrow> checkpoint \<Rightarrow> unit jio" where
  "write_checkpoint J cp =
     jbind (jres (serialize_bounded (jc_checkpoint J) cp)) (\<lambda>b.
     jbind (jsys MANIFEST_TMP (sys_create_new MANIFEST_TMP)) (\<lambda>created.
     jbind (created_or_exists MANIFEST_TMP created) (\<lambda>ino.
     replace_manifest ino b)))"

definition validate_checkpoint ::
  "crypto_lib \<Rightarrow> checkpoint \<Rightarrow> u64 \<Rightarrow> bytes \<Rightarrow> journal_error + unit" where
  "validate_checkpoint C cp n hashed =
     (if cp_version cp \<noteq> VERSION \<or> cp_bytes cp \<noteq> n \<or> cp_digest cp \<noteq> digest_hex C hashed
      then Inl (DjCorrupt ''journal differs from durable checkpoint'') else Inr ())"

definition validate_writer :: "nat \<Rightarrow> checkpoint \<Rightarrow> unit jio" where
  "validate_writer writer_lock cp =
     jbind (require_regular_file LOCK_NAME) (\<lambda>_.
     jbind (jsys LOCK_NAME (sys_open LOCK_NAME)) (\<lambda>named.
     jbind (file_identity writer_lock) (\<lambda>identity d.
     if cp_writer_identity cp \<noteq> identity \<or> cp_writer_identity cp \<noteq> metadata_identity d named
     then (Inl (DjCorrupt ''writer lock was replaced''), d) else (Inr (), d))))"

section \<open>Opening\<close>

text \<open>The first writer creates the journal with its header, then the checkpoint.\<close>

definition journal_initialize :: "crypto_lib \<Rightarrow> journal_codec \<Rightarrow> nat \<Rightarrow> unit jio" where
  "journal_initialize C J writer_lock =
     jbind (jsys JOURNAL_NAME (sys_query (\<lambda>d. dr_names d JOURNAL_NAME \<noteq> None))) (\<lambda>present.
     jbind (if present then jret True
            else jsys MANIFEST_NAME (sys_query (\<lambda>d. dr_names d MANIFEST_NAME \<noteq> None))) (\<lambda>present.
     if present then jres (Inl (DjCorrupt ''writer lock missing from an existing journal''))
     else jbind (jres (serialize_event J (Header VERSION))) (\<lambda>header.
     jbind (jsys JOURNAL_NAME (sys_create_new JOURNAL_NAME)) (\<lambda>created.
     jbind (created_or_exists JOURNAL_NAME created) (\<lambda>ino.
     jbind (jsys JOURNAL_NAME (sys_write ino header)) (\<lambda>_.
     jbind (jsys JOURNAL_NAME sys_sync) (\<lambda>_.
     jbind (jsys LOCK_NAME sys_sync) (\<lambda>_.
     jbind (jsys_dir sys_sync) (\<lambda>_.
     jbind (file_identity writer_lock) (\<lambda>identity.
     write_checkpoint J
       \<lparr>cp_version = VERSION, cp_bytes = length header, cp_digest = digest_hex C header,
        cp_writer_identity = identity\<rparr>))))))))))"

text \<open>The checks every opener makes once it holds the lock.\<close>

definition journal_load :: "crypto_lib \<Rightarrow> journal_codec \<Rightarrow> nat \<Rightarrow> dispatch_journal jio" where
  "journal_load C J writer_lock =
     jbind (read_checkpoint J) (\<lambda>cp.
     jbind (validate_writer writer_lock cp) (\<lambda>_.
     jbind (require_regular_file JOURNAL_NAME) (\<lambda>_.
     jbind (jsys JOURNAL_NAME (sys_open JOURNAL_NAME)) (\<lambda>ino.
     jbind (jsys JOURNAL_NAME (sys_read ino)) (\<lambda>content.
     jbind (jres (read_records C J content)) (\<lambda>(records, n, hashed).
     jbind (jres (validate_checkpoint C cp n hashed)) (\<lambda>_.
     jbind (jsys JOURNAL_NAME (sys_open JOURNAL_NAME)) (\<lambda>file.
     jret \<lparr>dj_writer_lock = writer_lock,
           dj_state = \<lparr>js_file = file, js_records = records, js_bytes = n, js_poisoned = False,
                       js_hashed = hashed\<rparr>,
           dj_limits = journal_limits_default\<rparr>))))))))"

text \<open>An error after the lock was taken drops the handle, and the lock with it.\<close>

definition releasing :: "nat \<Rightarrow> 'a jio \<Rightarrow> 'a jio" where
  "releasing ino m d =
     (case m d of (Inl e, d) \<Rightarrow> (Inl e, sys_unlock ino d) | (Inr x, d) \<Rightarrow> (Inr x, d))"

definition journal_open :: "crypto_lib \<Rightarrow> journal_codec \<Rightarrow> dispatch_journal jio" where
  "journal_open C J =
     jbind (jsys_dir sys_sync) (\<lambda>_.
     jbind (jsys LOCK_NAME (sys_create_new LOCK_NAME)) (\<lambda>created.
     jbind (case created of
              Some ino \<Rightarrow> jret (ino, True)
            | None \<Rightarrow> jbind (require_regular_file LOCK_NAME) (\<lambda>_.
                      jbind (jsys LOCK_NAME (sys_open LOCK_NAME)) (\<lambda>ino. jret (ino, False)))) (\<lambda>(ino, new_lock).
     jbind (jsys LOCK_NAME (sys_try_lock ino)) (\<lambda>locked.
     if \<not> locked then (\<lambda>d. (Inl (DjAlreadyOpen (dr_path d)), d))
     else releasing ino
       (jbind (if new_lock then journal_initialize C J ino else jret ()) (\<lambda>_.
        journal_load C J ino))))))"

section \<open>Appending\<close>

definition validate_files :: "crypto_lib \<Rightarrow> journal_codec \<Rightarrow> dispatch_journal \<Rightarrow> unit jio" where
  "validate_files C J journal =
     (let state = dj_state journal in
      jbind (read_checkpoint J) (\<lambda>cp.
      jbind (validate_writer (dj_writer_lock journal) cp) (\<lambda>_.
      jbind (jres (validate_checkpoint C cp (js_bytes state) (js_hashed state))) (\<lambda>_.
      jbind (require_regular_file JOURNAL_NAME) (\<lambda>_.
      jbind (jsys JOURNAL_NAME (sys_open JOURNAL_NAME)) (\<lambda>disk.
      jbind (jsys JOURNAL_NAME (sys_query (\<lambda>d. (length (dr_data d disk), length (dr_data d (js_file state))))))
        (\<lambda>(disk_len, open_len).
      if disk_len \<noteq> js_bytes state \<or> open_len \<noteq> js_bytes state
      then jres (Inl (DjCorrupt ''journal changed outside its writer''))
      else if disk \<noteq> js_file state then jres (Inl (DjCorrupt ''journal file was replaced''))
      else jbind (jsys JOURNAL_NAME (sys_open JOURNAL_NAME)) (\<lambda>file.
      jbind (jsys JOURNAL_NAME (sys_read file)) (\<lambda>content.
      if length content > js_bytes state
      then jres (Inl (DjCorrupt ''journal grew outside its writer''))
      else jres (validate_checkpoint C cp (length content) content))))))))))"

definition poison :: "dispatch_journal \<Rightarrow> dispatch_journal" where
  "poison journal = journal\<lparr>dj_state := (dj_state journal)\<lparr>js_poisoned := True\<rparr>\<rparr>"

fun is_io_error :: "journal_error \<Rightarrow> bool" where
  "is_io_error (DjIo _ _) = True"
| "is_io_error _ = False"

text \<open>The writes of \<^verbatim>\<open>append\<close>, after which the record is on disk.\<close>

definition append_durably ::
  "crypto_lib \<Rightarrow> journal_codec \<Rightarrow> dispatch_journal \<Rightarrow> bytes \<Rightarrow> unit jio" where
  "append_durably C J journal b =
     (let state = dj_state journal in
      jbind (jsys JOURNAL_NAME (sys_write (js_file state) b)) (\<lambda>_.
      jbind (jsys JOURNAL_NAME sys_sync) (\<lambda>_.
      jbind (file_identity (dj_writer_lock journal)) (\<lambda>identity.
      write_checkpoint J
        \<lparr>cp_version = VERSION, cp_bytes = js_bytes state + length b,
         cp_digest = digest_hex C (js_hashed state @ b), cp_writer_identity = identity\<rparr>))))"

type_synonym 'a journal_result = "(journal_error + 'a) \<times> dispatch_journal \<times> directory"

definition journal_append ::
  "crypto_lib \<Rightarrow> journal_codec \<Rightarrow> dispatch_journal \<Rightarrow> journal_event \<Rightarrow> directory \<Rightarrow> unit journal_result" where
  "journal_append C J journal event d =
     (case serialize_event J event of
        Inl e \<Rightarrow> (Inl e, journal, d)
      | Inr b \<Rightarrow>
        if js_bytes (dj_state journal) + length b > jl_max_bytes (dj_limits journal)
        then (Inl (DjLimitExceeded ''journal byte count''), journal, d)
        else case validate_files C J journal d of
          (Inl e, d) \<Rightarrow> (Inl e, if is_io_error e then journal else poison journal, d)
        | (Inr _, d) \<Rightarrow>
          (case append_durably C J journal b d of
             (Inl e, d) \<Rightarrow> (Inl e, poison journal, d)
           | (Inr _, d) \<Rightarrow>
               (Inr (),
                journal\<lparr>dj_state := (dj_state journal)
                   \<lparr>js_bytes := js_bytes (dj_state journal) + length b,
                    js_hashed := js_hashed (dj_state journal) @ b\<rparr>\<rparr>,
                d)))"

section \<open>The operations\<close>

definition set_records :: "dispatch_journal \<Rightarrow> dispatch_records \<Rightarrow> dispatch_journal" where
  "set_records journal records = journal\<lparr>dj_state := (dj_state journal)\<lparr>js_records := records\<rparr>\<rparr>"

definition journal_reserve ::
  "crypto_lib \<Rightarrow> journal_codec \<Rightarrow> dispatch_journal \<Rightarrow> action_request \<Rightarrow> capability_lease \<Rightarrow> i64 \<Rightarrow>
   directory \<Rightarrow> string journal_result" where
  "journal_reserve C J journal request lease now_ms d =
     (case validate_json_depth (ar_evidence request) of
        Inl e \<Rightarrow> (Inl e, journal, d)
      | Inr _ \<Rightarrow>
        (case request_id C J request of
           Inl e \<Rightarrow> (Inl e, journal, d)
         | Inr dispatch_id \<Rightarrow>
           (case serialize_bounded (jc_request J) request of
              Inl e \<Rightarrow> (Inl e, journal, d)
            | Inr _ \<Rightarrow>
              (case serialize_bounded (jc_lease J) lease of
                 Inl e \<Rightarrow> (Inl e, journal, d)
               | Inr _ \<Rightarrow>
                 if js_poisoned (dj_state journal) then (Inl DjPoisoned, journal, d)
                 else if bt_get (js_records (dj_state journal)) dispatch_id \<noteq> None
                 then (Inl (DjAlreadyReserved dispatch_id), journal, d)
                 else if length (js_records (dj_state journal)) \<ge> jl_max_entries (dj_limits journal)
                 then (Inl (DjLimitExceeded ''dispatch entry count''), journal, d)
                 else if cl_action lease \<noteq> kind (ar_action request) \<or> cl_expires_at_ms lease \<le> now_ms
                 then (Inl (DjCorrupt ''reservation requires an active lease for this action''), journal, d)
                 else case journal_append C J journal (Intent dispatch_id request lease now_ms) d of
                   (Inl e, journal, d) \<Rightarrow> (Inl e, journal, d)
                 | (Inr _, journal, d) \<Rightarrow>
                     (Inr dispatch_id,
                      set_records journal (bt_insert dispatch_id
                        \<lparr>dr_dispatch_id = dispatch_id, dr_request = request, dr_lease = lease,
                         dr_reserved_at_ms = now_ms, dr_completion = None\<rparr>
                        (js_records (dj_state journal))), d)))))"

definition validate_result :: "adapter_result \<Rightarrow> journal_error + unit" where
  "validate_result result =
     (case result of
        Inr receipt \<Rightarrow>
          (case validate_json_depth (rr_details receipt) of
             Inl e \<Rightarrow> Inl e
           | Inr _ \<Rightarrow>
             (case Option.bind (rra_governance (rr_audit receipt)) rg_receipt of
                None \<Rightarrow> Inr () | Some value \<Rightarrow> validate_json_depth value))
      | Inl e \<Rightarrow> validate_json_depth (rf_details (re_failure e)))"

definition journal_complete ::
  "crypto_lib \<Rightarrow> journal_codec \<Rightarrow> dispatch_journal \<Rightarrow> string \<Rightarrow> adapter_result \<Rightarrow> directory \<Rightarrow>
   unit journal_result" where
  "journal_complete C J journal dispatch_id result d =
     (if js_poisoned (dj_state journal) then (Inl DjPoisoned, journal, d)
      else case bt_get (js_records (dj_state journal)) dispatch_id of
        None \<Rightarrow> (Inl (DjUnknownDispatch dispatch_id), journal, d)
      | Some rec \<Rightarrow>
        if dr_completion rec \<noteq> None then (Inl (DjAlreadyCompleted dispatch_id), journal, d)
        else case validate_result result of
          Inl e \<Rightarrow> (Inl e, journal, d)
        | Inr _ \<Rightarrow>
          (case serialize_bounded (jc_result J) result of
             Inl e \<Rightarrow> (Inl e, journal, d)
           | Inr _ \<Rightarrow>
             (case journal_append C J journal (Completion dispatch_id result) d of
                (Inl e, journal, d) \<Rightarrow> (Inl e, journal, d)
              | (Inr _, journal, d) \<Rightarrow>
                  (Inr (),
                   (case bt_get (js_records (dj_state journal)) dispatch_id of
                      None \<Rightarrow> journal
                    | Some rec \<Rightarrow> set_records journal (bt_insert dispatch_id
                        (rec\<lparr>dr_completion := Some result\<rparr>) (js_records (dj_state journal)))), d))))"

definition journal_lookup :: "dispatch_journal \<Rightarrow> string \<Rightarrow> journal_error + dispatch_record option" where
  "journal_lookup journal dispatch_id =
     (if js_poisoned (dj_state journal) then Inl DjPoisoned
      else Inr (bt_get (js_records (dj_state journal)) dispatch_id))"

definition lookup_persisted ::
  "crypto_lib \<Rightarrow> journal_codec \<Rightarrow> dispatch_journal \<Rightarrow> string \<Rightarrow> directory \<Rightarrow>
   dispatch_record option journal_result" where
  "lookup_persisted C J journal dispatch_id d =
     (if js_poisoned (dj_state journal) then (Inl DjPoisoned, journal, d)
      else case
        jbind (validate_files C J journal) (\<lambda>_.
        jbind (jsys JOURNAL_NAME (sys_open JOURNAL_NAME)) (\<lambda>ino.
        jbind (jsys JOURNAL_NAME (sys_read ino)) (\<lambda>content.
        jbind (jres (read_records C J content)) (\<lambda>(records, n, hashed).
        jbind (read_checkpoint J) (\<lambda>cp.
        jbind (jres (validate_checkpoint C cp n hashed)) (\<lambda>_.
        jret (bt_get records dispatch_id))))))) d of
        (Inl e, d) \<Rightarrow> (Inl e, poison journal, d)
      | (Inr found, d) \<Rightarrow> (Inr found, journal, d))"

end
