(* ===== verification/Journal_Safety.thy ===== *)
theory Journal_Safety
  imports Dispatch_Journal
begin

text \<open>
  A dispatch identity is granted at most once: over any sequence of openings, reservations,
  completions, lookups and crashes of any number of processes on one directory, with any failing
  system calls.
\<close>

section \<open>Specifications of journal calls\<close>

definition jspec ::
  "(directory \<Rightarrow> bool) \<Rightarrow> 'a jio \<Rightarrow> ('a \<Rightarrow> directory \<Rightarrow> bool) \<Rightarrow> (directory \<Rightarrow> bool) \<Rightarrow> bool" where
  "jspec P m Q E \<longleftrightarrow> (\<forall>d. P d \<longrightarrow> (case m d of (Inl _, d') \<Rightarrow> E d' | (Inr x, d') \<Rightarrow> Q x d'))"

lemma jspecI: "(\<And>d r d'. P d \<Longrightarrow> m d = (r, d') \<Longrightarrow> case r of Inl _ \<Rightarrow> E d' | Inr x \<Rightarrow> Q x d') \<Longrightarrow> jspec P m Q E"
  by (fastforce simp: jspec_def split: prod.splits sum.splits)

lemma jspecD_Inr: "jspec P m Q E \<Longrightarrow> P d \<Longrightarrow> m d = (Inr x, d') \<Longrightarrow> Q x d'"
  by (auto simp: jspec_def split: prod.splits)

lemma jspecD_Inl: "jspec P m Q E \<Longrightarrow> P d \<Longrightarrow> m d = (Inl e, d') \<Longrightarrow> E d'"
  by (auto simp: jspec_def split: prod.splits)

lemma jspec_bind:
  "jspec P m R E \<Longrightarrow> (\<And>x. jspec (R x) (f x) Q E) \<Longrightarrow> jspec P (jbind m f) Q E"
  by (fastforce simp: jspec_def jbind_def split: prod.splits sum.splits)

lemma jspec_fact: "(F \<Longrightarrow> jspec P m Q E) \<Longrightarrow> jspec (\<lambda>d. P d \<and> F) m Q E"
  by (auto simp: jspec_def)

lemma jspec_step:
  "jspec P m (\<lambda>x d. P' d \<and> F x) E \<Longrightarrow> (\<And>x. F x \<Longrightarrow> jspec P' (f x) Q E) \<Longrightarrow> jspec P (jbind m f) Q E"
  by (rule jspec_bind) (auto intro: jspec_fact)

lemma jspec_conseq:
  "jspec P m Q E \<Longrightarrow> (\<And>d. P' d \<Longrightarrow> P d) \<Longrightarrow> (\<And>x d. Q x d \<Longrightarrow> Q' x d) \<Longrightarrow> (\<And>d. E d \<Longrightarrow> E' d) \<Longrightarrow>
   jspec P' m Q' E'"
  by (fastforce simp: jspec_def split: prod.splits sum.splits)

lemma jspec_weaken: "jspec P m Q E \<Longrightarrow> (\<And>d. E d \<Longrightarrow> E' d) \<Longrightarrow> jspec P m Q E'"
  by (rule jspec_conseq)

lemma jspec_if: "(b \<Longrightarrow> jspec P m Q E) \<Longrightarrow> (\<not> b \<Longrightarrow> jspec P m' Q E) \<Longrightarrow> jspec P (if b then m else m') Q E"
  by simp

lemma jspec_ret: "(\<And>d. P d \<Longrightarrow> Q x d) \<Longrightarrow> jspec P (jret x) Q E"
  by (simp add: jspec_def jret_def)

lemma jbind_jret: "jbind (jret x) f = f x"
  by (simp add: jbind_def jret_def fun_eq_iff)

lemma jspec_pure: "jspec P (jres r) (\<lambda>x d. P d \<and> r = Inr x) P"
  by (auto simp: jspec_def jres_def split: sum.splits)

lemma jspec_res: "(\<And>d e. P d \<Longrightarrow> r = Inl e \<Longrightarrow> E d) \<Longrightarrow> (\<And>d x. P d \<Longrightarrow> r = Inr x \<Longrightarrow> Q x d) \<Longrightarrow> jspec P (jres r) Q E"
  by (auto simp: jspec_def jres_def split: sum.splits)

text \<open>The directory \<open>d\<close> with some answers taken.\<close>

definition seen :: "directory \<Rightarrow> directory \<Rightarrow> bool" where
  "seen d0 d \<longleftrightarrow> dr_names d = dr_names d0 \<and> dr_data d = dr_data d0 \<and> dr_next d = dr_next d0 \<and>
     dr_locked d = dr_locked d0 \<and> dr_dev d = dr_dev d0 \<and> dr_path d = dr_path d0"

lemma seen_refl [simp]: "seen d d"
  by (simp add: seen_def)

lemma seen_fields:
  assumes "seen d0 d"
  shows "dr_names d = dr_names d0" "dr_data d = dr_data d0" "dr_next d = dr_next d0"
    "dr_locked d = dr_locked d0" "dr_dev d = dr_dev d0" "dr_path d = dr_path d0"
  using assms by (auto simp: seen_def)

lemma seen_answer: "seen d0 d \<Longrightarrow> sys_answer d = (a, d') \<Longrightarrow> seen d0 d'"
  by (auto simp: seen_def sys_answer_def split: list.splits io_answer.splits)

lemma sys_query_seen:
  assumes "sys_query f d = (r, d')" "seen d0 d"
  shows "seen d0 d' \<and> (\<forall>x. r = Inr x \<longrightarrow> x = f d')"
proof -
  obtain a d1 where a: "sys_answer d = (a, d1)" by fastforce
  then have "seen d0 d1" by (rule seen_answer [OF assms(2)])
  then show ?thesis using assms(1) a by (cases a) (auto simp: sys_query_def)
qed

lemma jspec_query:
  assumes "\<And>d. seen d0 d \<Longrightarrow> f d = f d0"
  shows "jspec (seen d0) (jsys name (sys_query f)) (\<lambda>x d. seen d0 d \<and> x = f d0) (seen d0)"
proof (rule jspecI)
  fix d r d' assume s: "seen d0 d" and m: "jsys name (sys_query f) d = (r, d')"
  obtain r1 d1 where q: "sys_query f d = (r1, d1)" by fastforce
  show "case r of Inl _ \<Rightarrow> seen d0 d' | Inr x \<Rightarrow> seen d0 d' \<and> x = f d0"
    using sys_query_seen [OF q s] assms [of d1] m q by (cases r1) (auto simp: jsys_def)
qed

lemma jspec_open:
  "jspec (seen d0) (jsys name (sys_open name)) (\<lambda>x d. seen d0 d \<and> dr_names d0 name = Some x) (seen d0)"
proof (rule jspecI)
  fix d r d' assume s: "seen d0 d" and m: "jsys name (sys_open name) d = (r, d')"
  obtain r1 d1 where q: "sys_query (\<lambda>d. dr_names d name) d = (r1, d1)" by fastforce
  show "case r of Inl _ \<Rightarrow> seen d0 d' | Inr x \<Rightarrow> seen d0 d' \<and> dr_names d0 name = Some x"
    using sys_query_seen [OF q s] seen_fields [of d0 d1] m q
    by (cases r1) (auto simp: jsys_def sys_open_def split: option.splits)
qed

lemma jspec_read:
  "jspec (seen d0) (jsys name (sys_read ino)) (\<lambda>x d. seen d0 d \<and> x = dr_data d0 ino) (seen d0)"
  unfolding sys_read_def by (rule jspec_query) (simp add: seen_fields)

lemma jspec_sync: "jspec (seen d0) (jsys name sys_sync) (\<lambda>x. seen d0) (seen d0)"
  unfolding sys_sync_def by (rule jspec_conseq [OF jspec_query]) auto

lemma jspec_sync_dir: "jspec (seen d0) (jsys_dir sys_sync) (\<lambda>x. seen d0) (seen d0)"
proof (rule jspecI)
  fix d r d' assume s: "seen d0 d" and m: "jsys_dir sys_sync d = (r, d')"
  obtain r1 d1 where q: "sys_query (\<lambda>_. ()) d = (r1, d1)" by fastforce
  show "case r of Inl _ \<Rightarrow> seen d0 d' | Inr x \<Rightarrow> seen d0 d'"
    using sys_query_seen [OF q s] m q by (cases r1) (auto simp: jsys_dir_def sys_sync_def)
qed

lemma jspec_require:
  "jspec (seen d0) (require_regular_file name) (\<lambda>x d. seen d0 d \<and> dr_names d0 name \<noteq> None) (seen d0)"
  unfolding require_regular_file_def
  by (rule jspec_bind [OF jspec_open]) (auto intro!: jspec_ret)

lemma jspec_identity:
  "jspec (seen d0) (file_identity ino) (\<lambda>x d. seen d0 d \<and> x = metadata_identity d0 ino) (seen d0)"
  unfolding file_identity_def by (rule jspec_query) (simp add: metadata_identity_def seen_fields)

text \<open>The checkpoint on disk, as a reader gets it.\<close>

definition checkpoint_on :: "journal_codec \<Rightarrow> directory \<Rightarrow> checkpoint \<Rightarrow> bool" where
  "checkpoint_on J d cp \<longleftrightarrow>
     (\<exists>ino. dr_names d MANIFEST_NAME = Some ino \<and> jc_read_checkpoint J (dr_data d ino) = Inr cp)"

lemma parse_checkpoint_Inr:
  "parse_checkpoint J (take (Suc MAX_CHECKPOINT_BYTES) content) = Inr cp \<Longrightarrow> jc_read_checkpoint J content = Inr cp"
  by (cases "length content \<le> MAX_CHECKPOINT_BYTES")
    (auto simp: parse_checkpoint_def split: if_splits sum.splits)

lemma jspec_read_checkpoint:
  "jspec (seen d0) (read_checkpoint J) (\<lambda>cp d. seen d0 d \<and> checkpoint_on J d0 cp) (seen d0)"
  unfolding read_checkpoint_def
  by (rule jspec_step [OF jspec_query], simp add: seen_fields, rule jspec_if, rule jspec_res,
      simp_all, rule jspec_step [OF jspec_require], rule jspec_step [OF jspec_open],
      rule jspec_step [OF jspec_read], rule jspec_res)
    (auto simp: checkpoint_on_def dest: parse_checkpoint_Inr)

lemma validate_checkpoint_iff:
  "validate_checkpoint C cp n hashed = Inr () \<longleftrightarrow>
     cp_version cp = VERSION \<and> cp_bytes cp = n \<and> cp_digest cp = digest_hex C hashed"
  by (simp add: validate_checkpoint_def)

lemma jspec_validate_writer:
  "jspec (seen d0) (validate_writer l cp) (\<lambda>x d. seen d0 d \<and>
     (\<exists>named. dr_names d0 LOCK_NAME = Some named \<and> metadata_identity d0 named = metadata_identity d0 l)) (seen d0)"
  unfolding validate_writer_def
  by (rule jspec_step [OF jspec_require], rule jspec_step [OF jspec_open],
      rule jspec_step [OF jspec_identity])
    (auto simp: jspec_def metadata_identity_def seen_fields)

text \<open>A successful load: the whole journal replays, and has the length the checkpoint says.\<close>

lemma jspec_load:
  "jspec (seen d0) (journal_load C J l)
     (\<lambda>(j :: dispatch_journal) d. seen d0 d \<and> (\<exists>cp ino n. checkpoint_on J d0 cp \<and> dr_names d0 JOURNAL_NAME = Some ino \<and>
        cp_bytes cp = n \<and> dj_writer_lock j = l \<and> \<not> js_poisoned (dj_state j) \<and>
        js_hashed (dj_state j) = dr_data d0 ino \<and> js_bytes (dj_state j) = n \<and> js_file (dj_state j) = ino \<and>
        dj_limits j = journal_limits_default \<and>
        read_records C J (dr_data d0 ino) = Inr (js_records (dj_state j), n, dr_data d0 ino))) (seen d0)"
  unfolding journal_load_def
proof (rule jspec_step [OF jspec_read_checkpoint], rule jspec_step [OF jspec_validate_writer],
    rule jspec_step [OF jspec_require], rule jspec_step [OF jspec_open],
    rule jspec_step [OF jspec_read], rule jspec_step [OF jspec_pure], goal_cases)
  case (1 cp u v ino content loaded)
  obtain records n hashed where loaded: "loaded = (records, n, hashed)" by (cases loaded)
  have hashed: "hashed = dr_data d0 ino"
    using 1 loaded by (auto simp: read_records_def split: if_splits sum.splits)
  show ?case
    unfolding loaded prod.case
    by (rule jspec_step [OF jspec_pure], rule jspec_step [OF jspec_open], rule jspec_ret)
      (use 1 loaded hashed in \<open>auto simp: validate_checkpoint_iff\<close>)
qed

section \<open>The log\<close>

text \<open>One line of the log: an encoded event and its newline.\<close>

definition line_ok :: "bytes \<Rightarrow> bool" where
  "line_ok line \<longleftrightarrow> (\<exists>b. line = b @ [CHR 0x0A] \<and> CHR 0x0A \<notin> set b \<and> length line \<le> MAX_DISPATCH_RECORD_BYTES)"

definition intent_line :: "journal_codec \<Rightarrow> string \<Rightarrow> bytes \<Rightarrow> bool" where
  "intent_line J i line \<longleftrightarrow> (\<exists>request lease t. jc_read_event J line = Inr (Intent i request lease t))"

lemma take_line_append: "CHR 0x0A \<notin> set b \<Longrightarrow> length b < n \<Longrightarrow> take_line n (b @ CHR 0x0A # rest) = b @ [CHR 0x0A]"
  by (induction b arbitrary: n) auto

lemma take_line_ok: "line_ok line \<Longrightarrow> take_line (Suc MAX_DISPATCH_RECORD_BYTES) (line @ rest) = line"
  by (auto simp: line_ok_def take_line_append)

lemma replay_event_keys: "replay_event C J ev recs = Inr recs' \<Longrightarrow> bt_get recs i \<noteq> None \<Longrightarrow> bt_get recs' i \<noteq> None"
  by (auto simp: replay_event_def split: journal_event.splits sum.splits if_splits option.splits)

lemma replay_event_intent: "replay_event C J (Intent i request lease t) recs = Inr recs' \<Longrightarrow> bt_get recs' i \<noteq> None"
  by (auto simp: replay_event_def split: sum.splits if_splits)

text \<open>One line of a replay that succeeds.\<close>

lemma replay_line:
  assumes "line_ok line" "replay_lines C J (line @ rest) k n recs = Inr (recs', k', n')"
  shows "\<exists>ev recs1. jc_read_event J line = Inr ev \<and>
    (if k = 0 then ev = Header VERSION \<and> recs1 = recs else replay_event C J ev recs = Inr recs1) \<and>
    replay_lines C J rest (Suc k) (n + length line) recs1 = Inr (recs', k', n')"
proof -
  obtain c tl where cs: "line @ rest = c # tl" using assms(1) by (cases "line @ rest") (auto simp: line_ok_def)
  have "line \<noteq> []" using assms(1) by (auto simp: line_ok_def)
  moreover have "take_line (Suc MAX_DISPATCH_RECORD_BYTES) (c # tl) = line"
    using take_line_ok [OF assms(1), of rest] cs by simp
  ultimately show ?thesis
    using assms(2) unfolding cs
    by (subst (asm) replay_lines.simps(2)) (auto simp: Let_def cs [symmetric]
        split: if_splits sum.splits)
qed

lemma replay_covers:
  assumes "list_all line_ok lines" "replay_lines C J (concat lines) k n recs = Inr (recs', k', n')"
  shows "(bt_get recs i \<noteq> None \<or> (\<exists>line \<in> set lines. intent_line J i line)) \<longrightarrow> bt_get recs' i \<noteq> None"
  using assms
proof (induction lines arbitrary: k n recs)
  case (Cons line lines)
  then obtain ev recs1 where ev: "jc_read_event J line = Inr ev"
    "if k = 0 then ev = Header VERSION \<and> recs1 = recs else replay_event C J ev recs = Inr recs1"
    "replay_lines C J (concat lines) (Suc k) (n + length line) recs1 = Inr (recs', k', n')"
    using replay_line [of line C J "concat lines" k n recs recs' k' n'] by auto
  have "bt_get recs i \<noteq> None \<or> intent_line J i line \<Longrightarrow> bt_get recs1 i \<noteq> None"
    using ev(1,2) replay_event_keys replay_event_intent by (auto simp: intent_line_def split: if_splits)
  then show ?case using Cons.IH [OF _ ev(3)] Cons.prems(1) by auto
qed (simp add: replay_lines.simps)

section \<open>What the directory holds\<close>

text \<open>What the runtime relies on of \<^verbatim>\<open>serde_json\<close>: compact output has no newline, and what is
  read back of an intent or of a checkpoint has the identity or the length that was written.\<close>

definition codec_laws :: "journal_codec \<Rightarrow> bool" where
  "codec_laws J \<longleftrightarrow>
     (\<forall>ev b. jc_event J ev = (b, None) \<longrightarrow> CHR 0x0A \<notin> set b) \<and>
     (\<forall>i request lease t b ev. jc_event J (Intent i request lease t) = (b, None) \<longrightarrow>
        jc_read_event J (b @ [CHR 0x0A]) = Inr ev \<longrightarrow> (\<exists>request lease t. ev = Intent i request lease t)) \<and>
     (\<forall>cp b cp'. jc_checkpoint J cp = (b, None) \<longrightarrow> jc_read_checkpoint J b = Inr cp' \<longrightarrow> cp_bytes cp' = cp_bytes cp)"

lemma serialize_event_line:
  assumes "codec_laws J" "serialize_event J ev = Inr b"
  shows "line_ok b \<and> (\<forall>i request lease t. ev = Intent i request lease t \<longrightarrow> intent_line J i b)"
proof -
  obtain a where a: "jc_event J ev = (a, None)" "b = a @ [CHR 0x0A]" "length b \<le> MAX_DISPATCH_RECORD_BYTES"
    "\<exists>ev'. jc_read_event J b = Inr ev'"
    using assms(2)
    by (auto simp: serialize_event_def serialize_bounded_def Let_def split: sum.splits if_splits prod.splits option.splits)
  then show ?thesis
    using assms(1) unfolding codec_laws_def line_ok_def intent_line_def by blast
qed

text \<open>
  The journal starts with a log whose length is the one the checkpoint records and which has an
  intent for every granted identity; what follows it is an append that was not acknowledged.
\<close>

definition log_ok :: "journal_codec \<Rightarrow> string set \<Rightarrow> directory \<Rightarrow> bool" where
  "log_ok J granted d \<longleftrightarrow>
     (\<forall>m. dr_names d MANIFEST_NAME = Some m \<longrightarrow>
        (\<exists>ino lines junk. dr_names d JOURNAL_NAME = Some ino \<and> dr_data d ino = concat lines @ junk \<and>
           list_all line_ok lines \<and> (\<forall>i \<in> granted. \<exists>line \<in> set lines. intent_line J i line) \<and>
           (\<forall>cp. jc_read_checkpoint J (dr_data d m) = Inr cp \<longrightarrow> cp_bytes cp = length (concat lines))))"

definition names_ok :: "directory \<Rightarrow> bool" where
  "names_ok d \<longleftrightarrow> (\<forall>n i. dr_names d n = Some i \<longrightarrow> i < dr_next d) \<and>
     (\<forall>n n' i. dr_names d n = Some i \<longrightarrow> dr_names d n' = Some i \<longrightarrow> n = n')"

definition disk_ok :: "journal_codec \<Rightarrow> string set \<Rightarrow> directory \<Rightarrow> bool" where
  "disk_ok J granted d \<longleftrightarrow> names_ok d \<and> log_ok J granted d \<and>
     (dr_names d LOCK_NAME = None \<longrightarrow> dr_names d MANIFEST_NAME = None) \<and>
     (granted \<noteq> {} \<longrightarrow> dr_names d MANIFEST_NAME \<noteq> None)"

lemma disk_ok_seen: "seen d0 d \<Longrightarrow> disk_ok J g d = disk_ok J g d0"
  by (simp add: disk_ok_def names_ok_def log_ok_def seen_fields)

lemma file_names_distinct [simp]:
  "JOURNAL_NAME \<noteq> MANIFEST_NAME" "MANIFEST_NAME \<noteq> JOURNAL_NAME" "JOURNAL_NAME \<noteq> MANIFEST_TMP"
  "LOCK_NAME \<noteq> MANIFEST_NAME" "MANIFEST_NAME \<noteq> LOCK_NAME" "LOCK_NAME \<noteq> MANIFEST_TMP"
  "LOCK_NAME \<noteq> JOURNAL_NAME" "JOURNAL_NAME \<noteq> LOCK_NAME" "MANIFEST_NAME \<noteq> MANIFEST_TMP"
  "MANIFEST_TMP \<noteq> MANIFEST_NAME"
  by (simp_all add: MANIFEST_NAME_def LOCK_NAME_def JOURNAL_NAME_def MANIFEST_TMP_def)

lemma names_ok_inode:
  "names_ok d \<Longrightarrow> dr_names d n = Some i \<Longrightarrow> dr_names d n' = Some i' \<Longrightarrow> n \<noteq> n' \<Longrightarrow> i \<noteq> i'"
  unfolding names_ok_def by blast

lemmas file_names = MANIFEST_NAME_def LOCK_NAME_def JOURNAL_NAME_def MANIFEST_TMP_def

lemma read_records_Inr:
  assumes "read_records C J content = Inr (records, n, hashed)"
  shows "\<exists>k. replay_lines C J content 0 0 [] = Inr (records, k, n) \<and> n = length content \<and>
    n \<le> MAX_DISPATCH_JOURNAL_BYTES \<and> hashed = content"
  using assms unfolding read_records_def
  by (cases "replay_lines C J content 0 0 []") (auto split: if_splits prod.splits)

text \<open>A journal of the length its checkpoint records is a log with every granted identity.\<close>

lemma checked_log:
  assumes "disk_ok J granted d" "checkpoint_on J d cp" "dr_names d JOURNAL_NAME = Some ino"
    and "length (dr_data d ino) = cp_bytes cp"
  obtains lines where "dr_data d ino = concat lines" "list_all line_ok lines"
    "\<And>i. i \<in> granted \<Longrightarrow> \<exists>line \<in> set lines. intent_line J i line"
proof -
  obtain m where m: "dr_names d MANIFEST_NAME = Some m" "jc_read_checkpoint J (dr_data d m) = Inr cp"
    using assms(2) by (auto simp: checkpoint_on_def)
  have "log_ok J granted d" using assms(1) by (simp add: disk_ok_def)
  then obtain lines junk where l: "dr_data d ino = concat lines @ junk" "list_all line_ok lines"
    "\<forall>i \<in> granted. \<exists>line \<in> set lines. intent_line J i line" "cp_bytes cp = length (concat lines)"
    using m assms(3) unfolding log_ok_def by auto
  then have "junk = []" using assms(4) by simp
  with l that show thesis by simp
qed

lemma loaded_covers:
  assumes "disk_ok J granted d" "checkpoint_on J d cp" "dr_names d JOURNAL_NAME = Some ino"
    and "read_records C J (dr_data d ino) = Inr (records, cp_bytes cp, dr_data d ino)" "i \<in> granted"
  shows "bt_get records i \<noteq> None"
proof -
  obtain k where r: "replay_lines C J (dr_data d ino) 0 0 [] = Inr (records, k, cp_bytes cp)"
    "cp_bytes cp = length (dr_data d ino)"
    using read_records_Inr [OF assms(4)] by blast
  from checked_log [OF assms(1-3) r(2) [symmetric]] obtain lines where l: "dr_data d ino = concat lines"
    "list_all line_ok lines" "\<And>i. i \<in> granted \<Longrightarrow> \<exists>line \<in> set lines. intent_line J i line" by blast
  from replay_covers [OF l(2) r(1) [unfolded l(1)], of i] l(3) [OF assms(5)] show ?thesis by blast
qed

section \<open>Writing the checkpoint\<close>

definition same_but_manifest :: "directory \<Rightarrow> directory \<Rightarrow> bool" where
  "same_but_manifest d0 d \<longleftrightarrow> (\<forall>n. n \<noteq> MANIFEST_NAME \<longrightarrow> n \<noteq> MANIFEST_TMP \<longrightarrow> dr_names d n = dr_names d0 n) \<and>
     (\<forall>i < dr_next d0. dr_data d i = dr_data d0 i) \<and> dr_locked d = dr_locked d0 \<and> names_ok d \<and>
     dr_next d0 \<le> dr_next d \<and> dr_dev d = dr_dev d0"

text \<open>Either the old checkpoint is still there, or the new one is.\<close>

definition checkpoint_written :: "directory \<Rightarrow> bytes \<Rightarrow> directory \<Rightarrow> bool" where
  "checkpoint_written d0 b d \<longleftrightarrow> same_but_manifest d0 d \<and>
     (\<exists>m. dr_names d MANIFEST_NAME = Some m \<and> dr_data d m = b)"

definition checkpoint_maybe :: "directory \<Rightarrow> bytes \<Rightarrow> directory \<Rightarrow> bool" where
  "checkpoint_maybe d0 b d \<longleftrightarrow> same_but_manifest d0 d \<and>
     (dr_names d MANIFEST_NAME = dr_names d0 MANIFEST_NAME \<or> checkpoint_written d0 b d)"

text \<open>The directory after a file was created, a write and a rename.\<close>

definition created :: "string \<Rightarrow> directory \<Rightarrow> directory" where
  "created name d = d\<lparr>dr_names := (dr_names d)(name \<mapsto> dr_next d),
     dr_data := (dr_data d)(dr_next d := []), dr_next := Suc (dr_next d)\<rparr>"

definition wrote :: "nat \<Rightarrow> bytes \<Rightarrow> directory \<Rightarrow> directory" where
  "wrote ino b d = d\<lparr>dr_data := (dr_data d)(ino := dr_data d ino @ b)\<rparr>"

definition renamed :: "string \<Rightarrow> string \<Rightarrow> nat \<Rightarrow> directory \<Rightarrow> directory" where
  "renamed old_name new_name ino d = d\<lparr>dr_names := (dr_names d)(old_name := None, new_name \<mapsto> ino)\<rparr>"

lemma seen_updates:
  "seen d0 d \<Longrightarrow> seen (created n d0) (created n d)"
  "seen d0 d \<Longrightarrow> seen (wrote i b d0) (wrote i b d)"
  "seen d0 d \<Longrightarrow> seen (renamed a c i d0) (renamed a c i d)"
  by (auto simp: seen_def created_def wrote_def renamed_def)

lemma jspec_create_new:
  "jspec (seen d0) (jsys n (sys_create_new name))
     (\<lambda>r d. case r of None \<Rightarrow> seen d0 d \<and> dr_names d0 name \<noteq> None
            | Some ino \<Rightarrow> seen (created name d0) d \<and> ino = dr_next d0 \<and> dr_names d0 name = None) (seen d0)"
proof (rule jspecI)
  fix d r d' assume s: "seen d0 d" and m: "jsys n (sys_create_new name) d = (r, d')"
  obtain a d1 where a: "sys_answer d = (a, d1)" by fastforce
  have s1: "seen d0 d1" by (rule seen_answer [OF s a])
  show "case r of Inl _ \<Rightarrow> seen d0 d' | Inr r \<Rightarrow>
      (case r of None \<Rightarrow> seen d0 d' \<and> dr_names d0 name \<noteq> None
       | Some ino \<Rightarrow> seen (created name d0) d' \<and> ino = dr_next d0 \<and> dr_names d0 name = None)"
    using m a s1 seen_fields [OF s1] seen_updates(1) [OF s1, of name]
    by (cases a) (auto simp: jsys_def sys_create_new_def created_def split: if_splits)
qed

lemma jspec_create:
  "jspec (seen d0) (jbind (jsys n (sys_create_new name)) (created_or_exists name))
     (\<lambda>ino d. seen (created name d0) d \<and> ino = dr_next d0 \<and> dr_names d0 name = None) (seen d0)"
  by (rule jspec_bind [OF jspec_create_new])
    (auto simp: jspec_def created_or_exists_def split: option.splits)

lemma jspec_write:
  "jspec (seen d0) (jsys n (sys_write ino b)) (\<lambda>_. seen (wrote ino b d0))
     (\<lambda>d. \<exists>k. seen (wrote ino (take k b) d0) d)"
proof (rule jspecI)
  fix d r d' assume s: "seen d0 d" and m: "jsys n (sys_write ino b) d = (r, d')"
  obtain a d1 where a: "sys_answer d = (a, d1)" by fastforce
  have s1: "seen d0 d1" by (rule seen_answer [OF s a])
  show "case r of Inl _ \<Rightarrow> \<exists>k. seen (wrote ino (take k b) d0) d' | Inr _ \<Rightarrow> seen (wrote ino b d0) d'"
    using m a seen_updates(2) [OF s1, of ino]
    by (cases a) (fastforce simp: jsys_def sys_write_def wrote_def [symmetric])+
qed

lemma jspec_rename:
  "jspec (seen d0) (jsys n (sys_rename a c))
     (\<lambda>_ d. \<exists>ino. dr_names d0 a = Some ino \<and> seen (renamed a c ino d0) d) (seen d0)"
proof (rule jspecI)
  fix d r d' assume s: "seen d0 d" and m: "jsys n (sys_rename a c) d = (r, d')"
  obtain an d1 where an: "sys_answer d = (an, d1)" by fastforce
  have s1: "seen d0 d1" by (rule seen_answer [OF s an])
  show "case r of Inl _ \<Rightarrow> seen d0 d' | Inr _ \<Rightarrow> \<exists>ino. dr_names d0 a = Some ino \<and> seen (renamed a c ino d0) d'"
    using m an s1 seen_fields [OF s1] seen_updates(3) [OF s1]
    by (cases an) (auto simp: jsys_def sys_rename_def renamed_def split: option.splits)
qed

lemma names_ok_created: "names_ok d \<Longrightarrow> names_ok (created n d)"
  unfolding names_ok_def created_def by (auto simp: less_Suc_eq dest: less_imp_neq)

lemma names_ok_wrote [simp]: "names_ok (wrote i b d) = names_ok d"
  by (simp add: names_ok_def wrote_def)

lemma names_ok_renamed:
  assumes "names_ok d" "dr_names d a = Some i"
  shows "names_ok (renamed a c i d)"
proof -
  have up: "dr_names (renamed a c i d) n = (if n = c then Some i else if n = a then None else dr_names d n)" for n
    by (simp add: renamed_def)
  have "dr_next (renamed a c i d) = dr_next d" by (simp add: renamed_def)
  then show ?thesis using assms unfolding names_ok_def up by (metis option.discI)
qed

lemma checkpoint_steps:
  assumes "names_ok d0" "dr_names d0 MANIFEST_TMP = None"
  shows "same_but_manifest d0 (wrote (dr_next d0) b (created MANIFEST_TMP d0))"
    "dr_names (wrote (dr_next d0) b (created MANIFEST_TMP d0)) MANIFEST_NAME = dr_names d0 MANIFEST_NAME"
    "dr_names (wrote (dr_next d0) b (created MANIFEST_TMP d0)) MANIFEST_TMP = Some (dr_next d0)"
    "checkpoint_written d0 b (renamed MANIFEST_TMP MANIFEST_NAME (dr_next d0)
       (wrote (dr_next d0) b (created MANIFEST_TMP d0)))"
proof -
  have ok: "names_ok (created MANIFEST_TMP d0)" by (rule names_ok_created [OF assms(1)])
  then show "same_but_manifest d0 (wrote (dr_next d0) b (created MANIFEST_TMP d0))"
    by (simp add: same_but_manifest_def) (simp add: created_def wrote_def)
  show "dr_names (wrote (dr_next d0) b (created MANIFEST_TMP d0)) MANIFEST_NAME = dr_names d0 MANIFEST_NAME"
    "dr_names (wrote (dr_next d0) b (created MANIFEST_TMP d0)) MANIFEST_TMP = Some (dr_next d0)"
    by (simp_all add: created_def wrote_def file_names)
  have "names_ok (renamed MANIFEST_TMP MANIFEST_NAME (dr_next d0) (wrote (dr_next d0) b (created MANIFEST_TMP d0)))"
    using ok by (intro names_ok_renamed; (simp; fail)?) (simp add: created_def wrote_def)
  then show "checkpoint_written d0 b (renamed MANIFEST_TMP MANIFEST_NAME (dr_next d0)
       (wrote (dr_next d0) b (created MANIFEST_TMP d0)))"
    by (simp add: checkpoint_written_def same_but_manifest_def) (simp add: created_def wrote_def renamed_def)
qed

lemma jbind_assoc: "jbind (jbind m f) g = jbind m (\<lambda>x. jbind (f x) g)"
  by (auto simp: jbind_def fun_eq_iff split: prod.splits sum.splits)

text \<open>After writing a checkpoint the new one is in place; after a failure one of the two is.\<close>

definition replaced :: "directory \<Rightarrow> bytes \<Rightarrow> directory \<Rightarrow> bool" where
  "replaced d0 b d \<longleftrightarrow> seen d0 d \<or> checkpoint_maybe d0 b d"

lemma jspec_replace_manifest:
  assumes "names_ok d0" "dr_names d0 MANIFEST_TMP = None"
  shows "jspec (seen (created MANIFEST_TMP d0)) (replace_manifest (dr_next d0) b)
    (\<lambda>_. checkpoint_written d0 b) (replaced d0 b)"
proof -
  note cs = checkpoint_steps [OF assms]
  let ?d1 = "created MANIFEST_TMP d0" let ?d2 = "wrote (dr_next d0) b ?d1"
  let ?d3 = "renamed MANIFEST_TMP MANIFEST_NAME (dr_next d0) ?d2"
  have same: "seen (wrote (dr_next d0) b' ?d1) d \<Longrightarrow> replaced d0 b d" for b' d
    using cs(1,2) [of b']
    by (auto simp: replaced_def checkpoint_maybe_def same_but_manifest_def seen_def names_ok_def)
  have new: "seen ?d3 d \<Longrightarrow> checkpoint_written d0 b d" for d
    using cs(4) [of b] by (simp add: checkpoint_written_def same_but_manifest_def seen_def names_ok_def)
  then have maybe: "seen ?d3 d \<Longrightarrow> replaced d0 b d" for d
    by (auto simp: replaced_def checkpoint_maybe_def checkpoint_written_def)
  have "jspec (seen ?d2) (jsys MANIFEST_NAME (sys_rename MANIFEST_TMP MANIFEST_NAME)) (\<lambda>_. seen ?d3) (replaced d0 b)"
    by (rule jspec_conseq [OF jspec_rename]) (use same cs(3) [of b] in auto)
  moreover have "jspec (seen ?d3) (jsys_dir sys_sync) (\<lambda>_. checkpoint_written d0 b) (replaced d0 b)"
    by (rule jspec_conseq [OF jspec_sync_dir]) (use new maybe in auto)
  moreover have "jspec (seen ?d2) (jsys MANIFEST_TMP sys_sync) (\<lambda>_. seen ?d2) (replaced d0 b)"
    by (rule jspec_conseq [OF jspec_sync]) (use same in auto)
  moreover have "jspec (seen ?d1) (jsys MANIFEST_TMP (sys_write (dr_next d0) b)) (\<lambda>_. seen ?d2) (replaced d0 b)"
    by (rule jspec_conseq [OF jspec_write]) (use same in auto)
  ultimately show ?thesis unfolding replace_manifest_def by (blast intro: jspec_bind)
qed

lemma jspec_write_checkpoint:
  assumes "names_ok d0"
  shows "jspec (seen d0) (write_checkpoint J cp)
    (\<lambda>_ d. \<exists>b. jc_checkpoint J cp = (b, None) \<and> checkpoint_written d0 b d)
    (\<lambda>d. seen d0 d \<or> (\<exists>b. jc_checkpoint J cp = (b, None) \<and> replaced d0 b d))" (is "jspec _ _ ?Q ?E")
proof -
  have "jspec (seen d0) (jres (serialize_bounded (jc_checkpoint J) cp))
      (\<lambda>b d. seen d0 d \<and> jc_checkpoint J cp = (b, None)) ?E"
    by (rule jspec_res) (auto simp: serialize_bounded_def split: prod.splits if_splits option.splits)
  moreover have "jspec (seen d0) (jbind (jsys MANIFEST_TMP (sys_create_new MANIFEST_TMP))
        (\<lambda>created. jbind (created_or_exists MANIFEST_TMP created) (\<lambda>ino. replace_manifest ino b))) ?Q ?E"
    if b: "jc_checkpoint J cp = (b, None)" for b
    unfolding jbind_assoc [symmetric]
    by (rule jspec_step [OF jspec_weaken [OF jspec_create]], simp, clarify,
        rule jspec_conseq [OF jspec_replace_manifest [OF assms]]) (use b in auto)
  ultimately show ?thesis unfolding write_checkpoint_def by (rule jspec_step)
qed

section \<open>Every call keeps the directory acceptable\<close>

lemma disk_ok_names: "disk_ok J g d \<Longrightarrow> names_ok d"
  by (simp add: disk_ok_def)

lemma checkpoint_laws:
  "codec_laws J \<Longrightarrow> jc_checkpoint J cp = (b, None) \<Longrightarrow> jc_read_checkpoint J b = Inr cp' \<Longrightarrow> cp_bytes cp' = cp_bytes cp"
  unfolding codec_laws_def by blast

text \<open>Writing bytes behind the log, and then a checkpoint of the longer log.\<close>

lemma disk_ok_wrote:
  assumes "disk_ok J g d" "dr_names d JOURNAL_NAME = Some ino"
  shows "disk_ok J g (wrote ino b d)"
proof -
  have keep: "dr_data (wrote ino b d) m = dr_data d m" if "dr_names d MANIFEST_NAME = Some m" for m
    using names_ok_inode [OF disk_ok_names [OF assms(1)] assms(2) that] by (simp add: wrote_def)
  have new: "dr_data (wrote ino b d) ino = dr_data d ino @ b" "dr_names (wrote ino b d) = dr_names d"
    by (simp_all add: wrote_def)
  have "log_ok J g (wrote ino b d)"
    unfolding log_ok_def new(2)
  proof (intro allI impI)
    fix m assume m: "dr_names d MANIFEST_NAME = Some m"
    then obtain lines junk where l: "dr_data d ino = concat lines @ junk" "list_all line_ok lines"
      "\<forall>i \<in> g. \<exists>line \<in> set lines. intent_line J i line"
      "\<forall>cp. jc_read_checkpoint J (dr_data d m) = Inr cp \<longrightarrow> cp_bytes cp = length (concat lines)"
      using assms unfolding disk_ok_def log_ok_def by auto
    then show "\<exists>ino' lines junk. dr_names d JOURNAL_NAME = Some ino' \<and>
        dr_data (wrote ino b d) ino' = concat lines @ junk \<and> list_all line_ok lines \<and>
        (\<forall>i \<in> g. \<exists>line \<in> set lines. intent_line J i line) \<and>
        (\<forall>cp. jc_read_checkpoint J (dr_data (wrote ino b d) m) = Inr cp \<longrightarrow> cp_bytes cp = length (concat lines))"
      using assms(2) keep [OF m] new(1)
      by (intro exI [of _ ino] exI [of _ lines] exI [of _ "junk @ b"]) simp
  qed
  then show ?thesis using assms(1) by (simp add: disk_ok_def new(2))
qed

lemma disk_ok_same:
  assumes "disk_ok J g d0" "same_but_manifest d0 d" "dr_names d MANIFEST_NAME = dr_names d0 MANIFEST_NAME"
  shows "disk_ok J g d"
proof -
  have names: "dr_names d LOCK_NAME = dr_names d0 LOCK_NAME" "dr_names d JOURNAL_NAME = dr_names d0 JOURNAL_NAME"
    and ok: "names_ok d"
    using assms(2) by (auto simp: same_but_manifest_def)
  have "dr_names d0 n = Some i \<Longrightarrow> dr_data d i = dr_data d0 i" for n i
    using assms(1,2) unfolding disk_ok_def names_ok_def same_but_manifest_def by blast
  then have "log_ok J g d"
    using assms(1) unfolding disk_ok_def log_ok_def names assms(3) by metis
  then show ?thesis using assms(1) ok by (simp add: disk_ok_def names assms(3))
qed

lemma disk_ok_checkpoint:
  assumes "codec_laws J" "names_ok d0" "dr_names d0 LOCK_NAME \<noteq> None" "dr_names d0 JOURNAL_NAME = Some ino"
    and lines: "dr_data d0 ino = concat lines" "list_all line_ok lines"
      "\<And>i. i \<in> g \<Longrightarrow> \<exists>line \<in> set lines. intent_line J i line"
    and "jc_checkpoint J cp = (b, None)" "cp_bytes cp = length (concat lines)" "checkpoint_written d0 b d"
  shows "disk_ok J g d"
proof -
  obtain m where m: "dr_names d MANIFEST_NAME = Some m" "dr_data d m = b"
    and same: "same_but_manifest d0 d"
    using assms(10) by (auto simp: checkpoint_written_def)
  have "ino < dr_next d0" using assms(2,4) by (auto simp: names_ok_def)
  then have j: "dr_names d JOURNAL_NAME = Some ino" "dr_data d ino = concat lines"
    using same assms(4) lines(1) by (auto simp: same_but_manifest_def)
  have "\<forall>cp'. jc_read_checkpoint J (dr_data d m) = Inr cp' \<longrightarrow> cp_bytes cp' = length (concat lines)"
    using checkpoint_laws [OF assms(1,8)] assms(9) m(2) by auto
  then have "log_ok J g d"
    using m(1) j lines unfolding log_ok_def
    by (intro allI impI exI [of _ ino] exI [of _ lines] exI [of _ "[]"]) auto
  then show ?thesis using same assms(3) m(1) by (auto simp: disk_ok_def same_but_manifest_def)
qed

text \<open>The lock file and the locks stay as they are.\<close>

definition lock_kept :: "directory \<Rightarrow> directory \<Rightarrow> bool" where
  "lock_kept d0 d \<longleftrightarrow> dr_locked d = dr_locked d0 \<and> dr_names d LOCK_NAME = dr_names d0 LOCK_NAME"

lemma lock_kept_seen: "seen d0 d \<Longrightarrow> lock_kept d0 d"
  by (simp add: lock_kept_def seen_def)

lemma lock_kept_replaced: "replaced d0 b d \<Longrightarrow> lock_kept d0 d" "checkpoint_written d0 b d \<Longrightarrow> lock_kept d0 d"
  by (auto simp: replaced_def lock_kept_def seen_def checkpoint_maybe_def checkpoint_written_def same_but_manifest_def)

text \<open>A checkpoint of a log that is complete on disk, from an acceptable directory.\<close>

lemma jspec_checkpoint:
  assumes "codec_laws J" "disk_ok J g d0" "dr_names d0 LOCK_NAME \<noteq> None" "dr_names d0 JOURNAL_NAME = Some ino"
    and "dr_data d0 ino = concat lines" "list_all line_ok lines"
      "\<And>i. i \<in> g' \<Longrightarrow> \<exists>line \<in> set lines. intent_line J i line" "g \<subseteq> g'"
    and "cp_bytes cp = length (concat lines)"
  shows "jspec (seen d0) (write_checkpoint J cp) (\<lambda>_ d. disk_ok J g' d \<and> lock_kept d0 d)
    (\<lambda>d. disk_ok J g d \<and> lock_kept d0 d)"
proof -
  note ok = disk_ok_names [OF assms(2)]
  have new: "disk_ok J g' d" "disk_ok J g d" if "jc_checkpoint J cp = (b, None)" "checkpoint_written d0 b d" for b d
    using disk_ok_checkpoint [OF assms(1) ok assms(3-6) _ that(1) assms(9) that(2)] assms(7,8) by blast+
  have old: "disk_ok J g d" if "jc_checkpoint J cp = (b, None)" "replaced d0 b d" for b d
    using that(2) new(2) [OF that(1)] disk_ok_same [OF assms(2)] disk_ok_seen assms(2)
    unfolding replaced_def checkpoint_maybe_def by blast
  show ?thesis
    by (rule jspec_conseq [OF jspec_write_checkpoint [OF ok]])
      (use new old lock_kept_replaced lock_kept_seen disk_ok_seen assms(2) in blast)+
qed

lemma jspec_append_durably:
  assumes "codec_laws J" "disk_ok J g d0" "dr_names d0 LOCK_NAME \<noteq> None"
    and "dr_names d0 JOURNAL_NAME = Some (js_file (dj_state j))" "dr_data d0 (js_file (dj_state j)) = concat lines"
    and "list_all line_ok lines" "\<And>i. i \<in> g \<Longrightarrow> \<exists>line \<in> set lines. intent_line J i line"
    and "js_bytes (dj_state j) = length (concat lines)" "line_ok b"
  shows "jspec (seen d0) (append_durably C J j b)
    (\<lambda>_ d. disk_ok J (g \<union> {i. intent_line J i b}) d \<and> lock_kept d0 d)
    (\<lambda>d. disk_ok J g d \<and> lock_kept d0 d)" (is "jspec _ _ ?Q ?E")
proof -
  let ?ino = "js_file (dj_state j)" let ?d1 = "wrote ?ino b d0"
  have kept: "disk_ok J g (wrote ?ino b' d0)" "lock_kept d0 (wrote ?ino b' d0)" for b'
    using disk_ok_wrote [OF assms(2,4)] by (simp_all add: lock_kept_def wrote_def)
  have E: "?E d" if "seen (wrote ?ino b' d0) d" for b' d
    using that kept [of b'] disk_ok_seen [OF that] by (auto simp: lock_kept_def seen_def)
  have d1: "dr_names ?d1 = dr_names d0" "dr_data ?d1 ?ino = concat (lines @ [b])"
    using assms(5) by (simp_all add: wrote_def)
  have cp: "jspec (seen ?d1) (write_checkpoint J cp) (\<lambda>_ d. disk_ok J (g \<union> {i. intent_line J i b}) d \<and> lock_kept ?d1 d)
      (\<lambda>d. disk_ok J g d \<and> lock_kept ?d1 d)"
    if "cp_bytes cp = length (concat (lines @ [b]))" for cp
    by (rule jspec_checkpoint [OF assms(1) kept(1) _ _ d1(2) _ _ _ that])
      (use assms(3,4,6,7,9) d1(1) in auto)
  have w: "jspec (seen d0) (jsys JOURNAL_NAME (sys_write ?ino b)) (\<lambda>_. seen ?d1) ?E"
    by (rule jspec_conseq [OF jspec_write]) (use E in auto)
  have sync: "jspec (seen ?d1) (jsys JOURNAL_NAME sys_sync) (\<lambda>_. seen ?d1) ?E"
    by (rule jspec_weaken [OF jspec_sync]) (rule E)
  have rest: "jspec (seen ?d1) (jbind (file_identity (dj_writer_lock j)) (\<lambda>identity. write_checkpoint J
        \<lparr>cp_version = VERSION, cp_bytes = js_bytes (dj_state j) + length b,
         cp_digest = digest_hex C (js_hashed (dj_state j) @ b), cp_writer_identity = identity\<rparr>)) ?Q ?E"
    by (rule jspec_step [OF jspec_weaken [OF jspec_identity]], erule E, rule jspec_conseq [OF cp])
      (use assms(8) in \<open>auto simp: lock_kept_def wrote_def\<close>)
  show ?thesis
    unfolding append_durably_def Let_def
    by (rule jspec_bind [OF w], rule jspec_bind [OF sync], rule rest)
qed

text \<open>What a successful validation says of the directory.\<close>

lemma jspec_validate_files:
  "jspec (seen d0) (validate_files C J j)
     (\<lambda>_ d. seen d0 d \<and> (\<exists>cp. checkpoint_on J d0 cp \<and> cp_bytes cp = js_bytes (dj_state j) \<and>
        dr_names d0 LOCK_NAME \<noteq> None \<and> dr_names d0 JOURNAL_NAME = Some (js_file (dj_state j)) \<and>
        length (dr_data d0 (js_file (dj_state j))) = js_bytes (dj_state j) \<and>
        digest_hex C (dr_data d0 (js_file (dj_state j))) = digest_hex C (js_hashed (dj_state j)))) (seen d0)"
  unfolding validate_files_def Let_def
proof (rule jspec_step [OF jspec_read_checkpoint], rule jspec_step [OF jspec_validate_writer],
    rule jspec_step [OF jspec_pure], rule jspec_step [OF jspec_require], rule jspec_step [OF jspec_open],
    rule jspec_step [OF jspec_query], goal_cases)
  case (2 cp u v w disk lens)
  obtain a b where lens: "lens = (a, b)" by (cases lens)
  show ?case
    unfolding lens prod.case
    by (intro jspec_if jspec_res jspec_step [OF jspec_open] jspec_step [OF jspec_read])
      (use 2 lens in \<open>auto simp: validate_checkpoint_iff\<close>)
qed (simp add: seen_fields)

lemma disk_ok_mono: "disk_ok J g' d \<Longrightarrow> g \<subseteq> g' \<Longrightarrow> disk_ok J g d"
  unfolding disk_ok_def log_ok_def by (fastforce dest: subsetD)

text \<open>An append adds its line to the log, and nothing else changes what is granted.\<close>

lemma validated_append:
  assumes "codec_laws J" "disk_ok J g d" "line_ok b"
    and "validate_files C J j d = (Inr u, d1)" "append_durably C J j b d1 = (a, d2)"
  shows "disk_ok J g d2 \<and> lock_kept d d2 \<and> (a = Inr () \<longrightarrow> (\<forall>i. intent_line J i b \<longrightarrow> disk_ok J (insert i g) d2))"
proof -
  note val = jspecD_Inr [OF jspec_validate_files seen_refl assms(4)]
  then have s: "seen d d1" by blast
  have ok1: "disk_ok J g d1" and kept1: "lock_kept d d1" and names: "dr_names d1 = dr_names d" "dr_data d1 = dr_data d"
    using disk_ok_seen [OF s] lock_kept_seen [OF s] seen_fields [OF s] assms(2) by simp_all
  obtain cp where cp: "checkpoint_on J d cp" "dr_names d JOURNAL_NAME = Some (js_file (dj_state j))"
    "length (dr_data d (js_file (dj_state j))) = cp_bytes cp" "dr_names d LOCK_NAME \<noteq> None"
    "cp_bytes cp = js_bytes (dj_state j)"
    using val by auto
  from checked_log [OF assms(2) cp(1-3)] obtain lines where l: "dr_data d (js_file (dj_state j)) = concat lines"
    "list_all line_ok lines" "\<And>i. i \<in> g \<Longrightarrow> \<exists>line \<in> set lines. intent_line J i line" by blast
  have n: "js_bytes (dj_state j) = length (concat lines)" using cp(3,5) l(1) by simp
  have "jspec (seen d1) (append_durably C J j b)
      (\<lambda>_ d. disk_ok J (g \<union> {i. intent_line J i b}) d \<and> lock_kept d1 d)
      (\<lambda>d. disk_ok J g d \<and> lock_kept d1 d)"
    by (rule jspec_append_durably [OF assms(1) ok1, of j lines b C])
      (use names cp l n assms(3) in auto)
  note durable = this [unfolded jspec_def, rule_format, OF seen_refl, unfolded assms(5) prod.case]
  then have kept: "lock_kept d d2" using kept1 by (cases a) (auto simp: lock_kept_def)
  show ?thesis
  proof (cases a)
    case (Inr v)
    then have all: "disk_ok J (g \<union> {i. intent_line J i b}) d2" using durable by auto
    have "disk_ok J g d2" "\<And>i. intent_line J i b \<Longrightarrow> disk_ok J (insert i g) d2"
      by (rule disk_ok_mono [OF all], auto)+
    then show ?thesis using kept by blast
  qed (use durable kept in auto)
qed

lemma journal_append_ok:
  assumes "codec_laws J" "disk_ok J g d" "journal_append C J j ev d = (r, j', d')"
  shows "disk_ok J g d' \<and> lock_kept d d' \<and> js_records (dj_state j') = js_records (dj_state j) \<and>
    dj_writer_lock j' = dj_writer_lock j \<and>
    (r = Inr () \<longrightarrow> js_poisoned (dj_state j') = js_poisoned (dj_state j) \<and>
       (\<forall>i request lease t. ev = Intent i request lease t \<longrightarrow> disk_ok J (insert i g) d'))"
proof (cases "\<exists>b. serialize_event J ev = Inr b \<and>
    \<not> js_bytes (dj_state j) + length b > jl_max_bytes (dj_limits j)")
  case True
  then obtain b where b: "serialize_event J ev = Inr b" "\<not> js_bytes (dj_state j) + length b > jl_max_bytes (dj_limits j)"
    by blast
  note line = serialize_event_line [OF assms(1) b(1)]
  obtain v d1 where v: "validate_files C J j d = (v, d1)" by fastforce
  obtain a d2 where a: "append_durably C J j b d1 = (a, d2)" by fastforce
  show ?thesis
  proof (cases v)
    case (Inl e)
    then have s: "seen d d1" using jspecD_Inl [OF jspec_validate_files seen_refl v [unfolded Inl]] by simp
    show ?thesis using assms(2,3) b v Inl disk_ok_seen [OF s] lock_kept_seen [OF s]
      by (auto simp: journal_append_def poison_def)
  next
    case (Inr u)
    show ?thesis
      using assms(3) b v Inr a line validated_append [OF assms(1,2) conjunct1 [OF line] v [unfolded Inr] a]
      by (cases a) (auto simp: journal_append_def poison_def)
  qed
next
  case False
  then show ?thesis using assms(2,3)
    by (auto simp: journal_append_def lock_kept_def split: sum.splits if_splits)
qed

section \<open>Opening\<close>

lemma disk_ok_unmarked:
  "names_ok d \<Longrightarrow> dr_names d MANIFEST_NAME = None \<Longrightarrow> disk_ok J {} d"
  by (simp add: disk_ok_def log_ok_def)

text \<open>The new journal's header is its first line, so that the checkpoint completes an empty log.\<close>

lemma jspec_initialize:
  assumes "codec_laws J" "names_ok d0" "dr_names d0 LOCK_NAME \<noteq> None" "dr_names d0 MANIFEST_NAME = None"
  shows "jspec (seen d0) (journal_initialize C J l) (\<lambda>_ d. disk_ok J {} d \<and> lock_kept d0 d)
    (\<lambda>d. disk_ok J {} d \<and> lock_kept d0 d)" (is "jspec _ _ ?Q ?E")
proof -
  have E: "?E d" if "names_ok d1" "dr_names d1 MANIFEST_NAME = None" "lock_kept d0 d1" "seen d1 d" for d1 d
    using disk_ok_unmarked [OF that(1,2), of J] disk_ok_seen [OF that(4)] seen_fields [OF that(4)] that(3)
    by (simp add: lock_kept_def)
  have E0: "seen d0 d \<Longrightarrow> ?E d" for d using E [of d0 d] assms(2,4) by (simp add: lock_kept_def)
  let ?d1 = "created JOURNAL_NAME d0"
  have E1: "seen (wrote i b ?d1) d \<Longrightarrow> ?E d" for i b d
  proof (rule E [of "wrote i b ?d1" d])
    show "names_ok (wrote i b ?d1)" by (simp add: names_ok_created [OF assms(2)])
  qed (use assms(4) in \<open>simp_all add: lock_kept_def created_def wrote_def\<close>)
  have rest: "jspec (seen ?d1) (jbind (jsys JOURNAL_NAME (sys_write (dr_next d0) header)) (\<lambda>_.
     jbind (jsys JOURNAL_NAME sys_sync) (\<lambda>_. jbind (jsys LOCK_NAME sys_sync) (\<lambda>_.
     jbind (jsys_dir sys_sync) (\<lambda>_. jbind (file_identity l) (\<lambda>identity. write_checkpoint J
       \<lparr>cp_version = VERSION, cp_bytes = length header, cp_digest = digest_hex C header,
        cp_writer_identity = identity\<rparr>)))))) ?Q ?E"
    if header: "line_ok header" for header
  proof -
    let ?d2 = "wrote (dr_next d0) header ?d1"
    have d2: "disk_ok J {} ?d2" using E1 [OF seen_refl] by blast
    have "jspec (seen ?d2) (write_checkpoint J cp) (\<lambda>_ d. disk_ok J {} d \<and> lock_kept ?d2 d)
        (\<lambda>d. disk_ok J {} d \<and> lock_kept ?d2 d)" if "cp_bytes cp = length header" for cp
      by (rule jspec_checkpoint [OF assms(1) d2, of "dr_next d0" "[header]"])
        (use assms(3) header that in \<open>simp_all add: created_def wrote_def\<close>)
    moreover have "lock_kept ?d2 = lock_kept d0"
      by (simp add: fun_eq_iff lock_kept_def created_def wrote_def)
    ultimately have cp: "jspec (seen ?d2) (write_checkpoint J cp) ?Q ?E" if "cp_bytes cp = length header" for cp
      using that by simp
    have w: "jspec (seen ?d1) (jsys JOURNAL_NAME (sys_write (dr_next d0) header)) (\<lambda>_. seen ?d2) ?E"
      by (rule jspec_conseq [OF jspec_write]) (use E1 in auto)
    show ?thesis
      by (rule jspec_bind [OF w], (rule jspec_bind [OF jspec_weaken [OF jspec_sync]], erule E1)+,
          rule jspec_bind [OF jspec_weaken [OF jspec_sync_dir]], erule E1,
          rule jspec_step [OF jspec_weaken [OF jspec_identity]], erule E1, rule cp) simp
  qed
  have start: "jspec (seen d0) (jbind (jsys JOURNAL_NAME (sys_create_new JOURNAL_NAME)) (\<lambda>created.
      jbind (created_or_exists JOURNAL_NAME created) f)) ?Q ?E"
    if "jspec (seen ?d1) (f (dr_next d0)) ?Q ?E" for f
    unfolding jbind_assoc [symmetric]
    by (rule jspec_step [OF jspec_weaken [OF jspec_create]]) (use E0 that in auto)
  have header: "line_ok header" if "serialize_event J (Header VERSION) = Inr header" for header
    using serialize_event_line [OF assms(1) that] by blast
  have present: "jspec (seen d0) (if p then jret True
      else jsys MANIFEST_NAME (sys_query (\<lambda>d. dr_names d MANIFEST_NAME \<noteq> None))) (\<lambda>_. seen d0) ?E" for p
    by (rule jspec_if, simp add: jspec_ret, rule jspec_conseq [OF jspec_query]) (auto simp: seen_fields E0)
  show ?thesis
    unfolding journal_initialize_def
    by (rule jspec_step [OF jspec_weaken [OF jspec_query]], simp add: seen_fields, erule E0,
        rule jspec_bind [OF present], rule jspec_if, rule jspec_res, erule E0, simp,
        rule jspec_step [OF jspec_weaken [OF jspec_pure]], erule E0, rule start, rule rest, erule header)
qed

text \<open>The directory with the lock of an inode taken.\<close>

definition taken :: "nat \<Rightarrow> directory \<Rightarrow> directory" where
  "taken ino d = d\<lparr>dr_locked := (dr_locked d)(ino := True)\<rparr>"

lemma disk_ok_locked [simp]: "disk_ok J g (d\<lparr>dr_locked := f\<rparr>) = disk_ok J g d"
  by (simp add: disk_ok_def names_ok_def log_ok_def)

lemma jspec_try_lock:
  "jspec (seen d0) (jsys n (sys_try_lock ino))
     (\<lambda>r d. if r then seen (taken ino d0) d \<and> \<not> dr_locked d0 ino else seen d0 d) (seen d0)"
proof (rule jspecI)
  fix d r d' assume s: "seen d0 d" and m: "jsys n (sys_try_lock ino) d = (r, d')"
  obtain a d1 where a: "sys_answer d = (a, d1)" by fastforce
  have s1: "seen d0 d1" by (rule seen_answer [OF s a])
  then have "seen (taken ino d0) (taken ino d1)" by (simp add: seen_def taken_def)
  then show "case r of Inl _ \<Rightarrow> seen d0 d'
      | Inr r \<Rightarrow> if r then seen (taken ino d0) d' \<and> \<not> dr_locked d0 ino else seen d0 d'"
    using m a s1 seen_fields [OF s1]
    by (cases a) (auto simp: jsys_def sys_try_lock_def taken_def split: if_splits)
qed

lemma jspec_releasing:
  "jspec P m Q E \<Longrightarrow> jspec P (releasing ino m) Q (\<lambda>d. \<exists>d1. E d1 \<and> d = sys_unlock ino d1)"
  by (fastforce simp: jspec_def releasing_def split: prod.splits sum.splits)

text \<open>What opening guarantees, whether it succeeds or not.\<close>

definition opened_ok :: "journal_codec \<Rightarrow> string set \<Rightarrow> directory \<Rightarrow> dispatch_journal \<Rightarrow> directory \<Rightarrow> bool" where
  "opened_ok J g d0 j d \<longleftrightarrow> disk_ok J g d \<and> \<not> js_poisoned (dj_state j) \<and>
     (\<forall>i \<in> g. bt_get (js_records (dj_state j)) i \<noteq> None) \<and>
     dr_names d LOCK_NAME = Some (dj_writer_lock j) \<and>
     dr_locked d = (dr_locked d0)(dj_writer_lock j := True) \<and> \<not> dr_locked d0 (dj_writer_lock j) \<and>
     (dr_names d0 LOCK_NAME = None \<or> dr_names d0 LOCK_NAME = dr_names d LOCK_NAME)"

definition not_opened :: "journal_codec \<Rightarrow> string set \<Rightarrow> directory \<Rightarrow> directory \<Rightarrow> bool" where
  "not_opened J g d0 d \<longleftrightarrow> disk_ok J g d \<and> dr_locked d = dr_locked d0 \<and>
     (dr_names d0 LOCK_NAME = None \<or> dr_names d0 LOCK_NAME = dr_names d LOCK_NAME)"

text \<open>Loading from an acceptable directory under a lock that was just taken.\<close>

definition loaded_ok :: "journal_codec \<Rightarrow> string set \<Rightarrow> directory \<Rightarrow> nat \<Rightarrow> dispatch_journal \<Rightarrow> directory \<Rightarrow> bool" where
  "loaded_ok J g d1 l j d \<longleftrightarrow> disk_ok J g d \<and> lock_kept d1 d \<and> dj_writer_lock j = l \<and>
     \<not> js_poisoned (dj_state j) \<and> (\<forall>i \<in> g. bt_get (js_records (dj_state j)) i \<noteq> None)"

lemma jspec_each: "(\<And>d. P d \<Longrightarrow> jspec (seen d) m Q E) \<Longrightarrow> jspec P m Q E"
  by (simp add: jspec_def)

lemma jspec_locked_load:
  assumes "disk_ok J g d1"
  shows "jspec (seen d1) (journal_load C J l) (loaded_ok J g d1 l) (\<lambda>d. disk_ok J g d \<and> lock_kept d1 d)"
proof (rule jspec_conseq [OF jspec_load])
  fix d assume s: "seen d1 d"
  then show "disk_ok J g d \<and> lock_kept d1 d" using disk_ok_seen [OF s] lock_kept_seen [OF s] assms by simp
next
  fix j :: dispatch_journal and d assume "seen d1 d \<and> (\<exists>cp ino n. checkpoint_on J d1 cp \<and> dr_names d1 JOURNAL_NAME = Some ino \<and>
        cp_bytes cp = n \<and> dj_writer_lock j = l \<and> \<not> js_poisoned (dj_state j) \<and>
        js_hashed (dj_state j) = dr_data d1 ino \<and> js_bytes (dj_state j) = n \<and> js_file (dj_state j) = ino \<and>
        dj_limits j = journal_limits_default \<and>
        read_records C J (dr_data d1 ino) = Inr (js_records (dj_state j), n, dr_data d1 ino))"
  then obtain cp ino where s: "seen d1 d" and j: "checkpoint_on J d1 cp" "dr_names d1 JOURNAL_NAME = Some ino"
    "read_records C J (dr_data d1 ino) = Inr (js_records (dj_state j), cp_bytes cp, dr_data d1 ino)"
    "dj_writer_lock j = l" "\<not> js_poisoned (dj_state j)" by blast
  show "loaded_ok J g d1 l j d"
    using j(4,5) disk_ok_seen [OF s] lock_kept_seen [OF s] assms loaded_covers [OF assms j(1-3)]
    unfolding loaded_ok_def by blast
qed simp

lemma jspec_locked_open:
  assumes "codec_laws J" "disk_ok J g d1" "dr_names d1 LOCK_NAME \<noteq> None"
    and "new_lock \<Longrightarrow> dr_names d1 MANIFEST_NAME = None"
  shows "jspec (seen d1) (jbind (if new_lock then journal_initialize C J l else jret ()) (\<lambda>_. journal_load C J l))
    (loaded_ok J g d1 l) (\<lambda>d. disk_ok J g d \<and> lock_kept d1 d)"
proof -
  have first: "jspec (seen d1) (if new_lock then journal_initialize C J l else jret ())
      (\<lambda>_ d. disk_ok J g d \<and> lock_kept d1 d) (\<lambda>d. disk_ok J g d \<and> lock_kept d1 d)"
  proof (rule jspec_if)
    assume "new_lock"
    then have m: "dr_names d1 MANIFEST_NAME = None" by (rule assms(4))
    then have "g = {}" using assms(2) by (auto simp: disk_ok_def)
    with jspec_initialize [OF assms(1) disk_ok_names [OF assms(2)] assms(3) m]
    show "jspec (seen d1) (journal_initialize C J l)
      (\<lambda>_ d. disk_ok J g d \<and> lock_kept d1 d) (\<lambda>d. disk_ok J g d \<and> lock_kept d1 d)" by simp
  next
    show "jspec (seen d1) (jret ()) (\<lambda>_ d. disk_ok J g d \<and> lock_kept d1 d) (\<lambda>d. disk_ok J g d \<and> lock_kept d1 d)"
      by (rule jspec_ret) (use assms(2) disk_ok_seen lock_kept_seen in blast)
  qed
  show ?thesis
  proof (rule jspec_bind [OF first], rule jspec_each)
    fix d assume d: "disk_ok J g d \<and> lock_kept d1 d"
    then show "jspec (seen d) (journal_load C J l) (loaded_ok J g d1 l) (\<lambda>d. disk_ok J g d \<and> lock_kept d1 d)"
      by (intro jspec_conseq [OF jspec_locked_load [of J g d]]) (auto simp: loaded_ok_def lock_kept_def)
  qed
qed

text \<open>Taking the lock of the inode an opener got, and the rest of the opening.\<close>

lemma jspec_take_and_load:
  assumes "codec_laws J" "disk_ok J g d1" "dr_names d1 LOCK_NAME = Some l" "dr_locked d1 = dr_locked d0"
    and "new_lock \<Longrightarrow> dr_names d1 MANIFEST_NAME = None"
    and "dr_names d0 LOCK_NAME = None \<or> dr_names d0 LOCK_NAME = Some l"
  shows "jspec (seen d1) (jbind (jsys LOCK_NAME (sys_try_lock l)) (\<lambda>locked.
     if \<not> locked then (\<lambda>d. (Inl (DjAlreadyOpen (dr_path d)), d))
     else releasing l (jbind (if new_lock then journal_initialize C J l else jret ()) (\<lambda>_. journal_load C J l))))
    (opened_ok J g d0) (not_opened J g d0)"
proof -
  let ?d2 = "taken l d1"
  have d2: "disk_ok J g ?d2" "dr_names ?d2 LOCK_NAME \<noteq> None" "new_lock \<Longrightarrow> dr_names ?d2 MANIFEST_NAME = None"
    using assms(2,3,5) by (simp_all add: taken_def)
  have no: "seen d1 d \<Longrightarrow> not_opened J g d0 d" for d
    using assms(2,3,4,6) disk_ok_seen [of d1 d J g] seen_fields [of d1 d] by (auto simp: not_opened_def)
  have lock: "jspec (seen d1) (jsys LOCK_NAME (sys_try_lock l))
     (\<lambda>r d. if r then seen ?d2 d \<and> \<not> dr_locked d0 l else seen d1 d) (not_opened J g d0)"
    by (rule jspec_conseq [OF jspec_try_lock]) (use assms(4) no in \<open>auto split: if_splits\<close>)
  have rest: "jspec (seen ?d2) (releasing l
      (jbind (if new_lock then journal_initialize C J l else jret ()) (\<lambda>_. journal_load C J l)))
      (opened_ok J g d0) (not_opened J g d0)" if free: "\<not> dr_locked d0 l"
  proof (rule jspec_conseq [OF jspec_releasing [OF jspec_locked_open [OF assms(1) d2(1,2), of new_lock C l]]])
    fix d assume "\<exists>d'. (disk_ok J g d' \<and> lock_kept ?d2 d') \<and> d = sys_unlock l d'"
    moreover have "(dr_locked d0)(l := False) = dr_locked d0" using free by (simp add: fun_upd_idem)
    ultimately show "not_opened J g d0 d"
      using assms(3,4,6) by (auto simp: not_opened_def sys_unlock_def lock_kept_def taken_def)
  next
    fix j d assume "loaded_ok J g ?d2 l j d"
    then show "opened_ok J g d0 j d"
      using free assms(3,4,6) by (auto simp: loaded_ok_def opened_ok_def lock_kept_def taken_def)
  qed (use d2(3) in auto)
  show ?thesis
  proof (rule jspec_bind [OF lock])
    fix locked
    show "jspec (\<lambda>d. if locked then seen ?d2 d \<and> \<not> dr_locked d0 l else seen d1 d)
     (if \<not> locked then (\<lambda>d. (Inl (DjAlreadyOpen (dr_path d)), d))
     else releasing l (jbind (if new_lock then journal_initialize C J l else jret ()) (\<lambda>_. journal_load C J l)))
     (opened_ok J g d0) (not_opened J g d0)"
      using no rest by (cases locked) (auto simp: jspec_def)
  qed
qed

text \<open>Opening: the lock file is created, or found, before its lock is taken.\<close>

lemma journal_open_ok:
  assumes "codec_laws J" "disk_ok J g d0" "\<not> dr_locked d0 (dr_next d0)"
  shows "jspec (seen d0) (journal_open C J) (opened_ok J g d0) (not_opened J g d0)"
proof -
  have no: "seen d0 d \<Longrightarrow> not_opened J g d0 d" for d
    using assms(2) disk_ok_seen [of d0 d J g] seen_fields [of d0 d] by (auto simp: not_opened_def)
  have names: "names_ok d0" by (rule disk_ok_names [OF assms(2)])
  let ?d1 = "created LOCK_NAME d0"
  have fresh: "disk_ok J g ?d1" "dr_names ?d1 MANIFEST_NAME = None" if "dr_names d0 LOCK_NAME = None"
  proof -
    have m: "dr_names d0 MANIFEST_NAME = None" and g: "g = {}" using that assms(2) by (auto simp: disk_ok_def)
    then show m1: "dr_names ?d1 MANIFEST_NAME = None" by (simp add: created_def)
    show "disk_ok J g ?d1" unfolding g by (rule disk_ok_unmarked [OF names_ok_created [OF names] m1])
  qed
  let ?k = "\<lambda>(ino, new_lock). jbind (jsys LOCK_NAME (sys_try_lock ino)) (\<lambda>locked.
     if \<not> locked then (\<lambda>d. (Inl (DjAlreadyOpen (dr_path d)), d))
     else releasing ino
       (jbind (if new_lock then journal_initialize C J ino else jret ()) (\<lambda>_. journal_load C J ino)))"
  have old: "jspec (seen d0) (?k (ino, False)) (opened_ok J g d0) (not_opened J g d0)"
    if "dr_names d0 LOCK_NAME = Some ino" for ino
    unfolding prod.case by (rule jspec_take_and_load [OF assms(1,2) that]) (use that in simp_all)
  have new: "jspec (seen ?d1) (?k (dr_next d0, True)) (opened_ok J g d0) (not_opened J g d0)"
    if "dr_names d0 LOCK_NAME = None"
    unfolding prod.case
    by (rule jspec_take_and_load [OF assms(1) fresh(1) [OF that]])
      (use that fresh(2) [OF that] in \<open>simp_all add: created_def\<close>)
  show ?thesis
    unfolding journal_open_def
  proof (rule jspec_bind [OF jspec_conseq [OF jspec_sync_dir]], assumption, assumption, erule no,
      rule jspec_bind [OF jspec_conseq [OF jspec_create_new]], assumption, assumption, erule no, goal_cases)
    case (1 _ made)
    show ?case
    proof (cases made)
      case None
      show ?thesis
        unfolding None option.case
        by (rule jspec_fact, unfold jbind_assoc jbind_jret,
            rule jspec_step [OF jspec_weaken [OF jspec_require no]], assumption,
            rule jspec_step [OF jspec_weaken [OF jspec_open no]], assumption, erule old)
    next
      case (Some ino)
      show ?thesis
        unfolding Some option.case jbind_jret
        by (rule jspec_fact, elim conjE, hypsubst, erule new)
    qed
  qed
qed

end
