(* ===== verification/Journal_World.thy ===== *)
theory Journal_World
  imports Journal_Safety
begin

text \<open>
  The processes that use one journal directory: openings, reservations, completions, lookups and
  closings in any order, by any number of writers, with any failing system calls. A process that
  dies inside a call is one whose remaining system calls fail and which is then closed.
\<close>

section \<open>The operations of one writer\<close>

text \<open>A writer that is not poisoned knows every granted identity.\<close>

definition covers :: "string set \<Rightarrow> dispatch_journal \<Rightarrow> bool" where
  "covers g j \<longleftrightarrow> js_poisoned (dj_state j) \<or> (\<forall>i \<in> g. bt_get (js_records (dj_state j)) i \<noteq> None)"

definition op_ok :: "journal_codec \<Rightarrow> string set \<Rightarrow> dispatch_journal \<Rightarrow> directory \<Rightarrow>
   dispatch_journal \<Rightarrow> directory \<Rightarrow> bool" where
  "op_ok J g j d j' d' \<longleftrightarrow> disk_ok J g d' \<and> lock_kept d d' \<and> covers g j' \<and>
     dj_writer_lock j' = dj_writer_lock j"

lemma op_ok_refl: "disk_ok J g d \<Longrightarrow> covers g j \<Longrightarrow> op_ok J g j d j d"
  by (simp add: op_ok_def lock_kept_def)

lemma set_records_simps [simp]:
  "js_records (dj_state (set_records j recs)) = recs"
  "js_poisoned (dj_state (set_records j recs)) = js_poisoned (dj_state j)"
  "dj_writer_lock (set_records j recs) = dj_writer_lock j"
  by (simp_all add: set_records_def)

lemma journal_append_poisoned:
  "journal_append C J j ev d = (r, j', d') \<Longrightarrow> js_poisoned (dj_state j) \<Longrightarrow> js_poisoned (dj_state j')"
  by (auto simp: journal_append_def poison_def split: sum.splits if_splits prod.splits)

lemma journal_append_covers:
  assumes "codec_laws J" "disk_ok J g d" "covers g j" "journal_append C J j ev d = (r, j', d')"
  shows "op_ok J g j d j' d'"
  using journal_append_ok [OF assms(1,2,4)] journal_append_poisoned [OF assms(4)] assms(3)
  by (auto simp: op_ok_def covers_def)

text \<open>A reservation is refused without a trace, or appends an intent for an unknown identity.\<close>

lemma journal_reserve_cases:
  assumes "journal_reserve C J j request lease now_ms d = (r, j', d')"
  obtains (refused) e where "r = Inl e" "j' = j" "d' = d"
  | (failed) i e where "request_id C J request = Inr i" "r = Inl e"
      "journal_append C J j (Intent i request lease now_ms) d = (Inl e, j', d')"
  | (reserved) i j1 rec where "request_id C J request = Inr i" "r = Inr i"
      "\<not> js_poisoned (dj_state j)" "bt_get (js_records (dj_state j)) i = None"
      "kind (ar_action request) = cl_action lease" "now_ms < cl_expires_at_ms lease"
      "journal_append C J j (Intent i request lease now_ms) d = (Inr (), j1, d')"
      "j' = set_records j1 (bt_insert i rec (js_records (dj_state j1)))"
  using assms
  by (cases r) (auto simp: journal_reserve_def split: sum.splits if_splits prod.splits)

lemma journal_reserve_ok:
  assumes "codec_laws J" "disk_ok J g d" "covers g j"
    and "journal_reserve C J j request lease now_ms d = (r, j', d')"
  shows "case r of Inl _ \<Rightarrow> op_ok J g j d j' d' | Inr i \<Rightarrow> i \<notin> g \<and> op_ok J (insert i g) j d j' d'"
  using assms(4)
proof (cases rule: journal_reserve_cases)
  case (refused e)
  then show ?thesis using op_ok_refl [OF assms(2,3)] by simp
next
  case (failed i e)
  then show ?thesis using journal_append_covers [OF assms(1-3) failed(3)] by simp
next
  case (reserved i j1 rec)
  have "i \<notin> g" using assms(3) reserved(3,4) by (auto simp: covers_def)
  then show ?thesis
    using journal_append_ok [OF assms(1,2) reserved(7)] reserved assms(3)
    by (auto simp: op_ok_def covers_def)
qed

lemma journal_complete_ok:
  assumes "codec_laws J" "disk_ok J g d" "covers g j"
    and "journal_complete C J j i result d = (r, j', d')"
  shows "op_ok J g j d j' d'"
proof (cases "j' = j \<and> d' = d")
  case True
  then show ?thesis using op_ok_refl [OF assms(2,3)] by simp
next
  case False
  obtain a j1 d1 where a: "journal_append C J j (Completion i result) d = (a, j1, d1)"
    by (metis prod_cases3)
  have d1: "d1 = d'" and j': "j' = j1 \<or> (\<exists>rec. j' = set_records j1 (bt_insert i rec (js_records (dj_state j1))))"
    using False assms(4) a
    by (auto simp: journal_complete_def split: sum.splits if_splits prod.splits option.splits)
  show ?thesis
    using journal_append_covers [OF assms(1-3) a] j' d1 by (auto simp: op_ok_def covers_def)
qed

lemma jspec_lookup:
  "jspec (seen d0)
    (jbind (validate_files C J j) (\<lambda>_.
        jbind (jsys JOURNAL_NAME (sys_open JOURNAL_NAME)) (\<lambda>ino.
        jbind (jsys JOURNAL_NAME (sys_read ino)) (\<lambda>content.
        jbind (jres (read_records C J content)) (\<lambda>(records, n, hashed).
        jbind (read_checkpoint J) (\<lambda>cp.
        jbind (jres (validate_checkpoint C cp n hashed)) (\<lambda>_.
        jret (bt_get records i)))))))) (\<lambda>_. seen d0) (seen d0)"
  by (rule jspec_bind [OF jspec_conseq [OF jspec_validate_files]], assumption, erule conjunct1, assumption,
      rule jspec_step [OF jspec_open], rule jspec_step [OF jspec_read], rule jspec_step [OF jspec_pure],
      clarify, rule jspec_step [OF jspec_read_checkpoint], rule jspec_step [OF jspec_pure], rule jspec_ret)

lemma lookup_persisted_ok:
  assumes "disk_ok J g d" "covers g j" "lookup_persisted C J j i d = (r, j', d')"
  shows "op_ok J g j d j' d'"
proof -
  have "seen d d'" 
    using assms(3) jspec_lookup [of d C J j i, unfolded jspec_def, rule_format, OF seen_refl]
    by (auto simp: lookup_persisted_def split: if_splits prod.splits sum.splits)
  then show ?thesis
    using assms disk_ok_seen lock_kept_seen
    by (auto simp: op_ok_def covers_def lookup_persisted_def poison_def split: if_splits prod.splits sum.splits)
qed

section \<open>Any number of writers on one directory\<close>

record journal_world =
  jw_dir :: directory
  jw_writers :: "dispatch_journal list"
  jw_granted :: "string list"

datatype journal_op =
    JOpen
  | JReserve nat action_request capability_lease i64
  | JComplete nat string adapter_result
  | JLookup nat string
  | JClose nat

text \<open>What an operation of writer \<open>k\<close> does to the world, if there is such a writer.\<close>

definition jw_writer_op :: "(dispatch_journal \<Rightarrow> directory \<Rightarrow> 'a journal_result) \<Rightarrow> ('a \<Rightarrow> string list) \<Rightarrow>
   nat \<Rightarrow> journal_world \<Rightarrow> journal_world" where
  "jw_writer_op f grants k w =
     (if k < length (jw_writers w)
      then case f (jw_writers w ! k) (jw_dir w) of
        (r, j, d) \<Rightarrow> \<lparr>jw_dir = d, jw_writers = (jw_writers w)[k := j],
          jw_granted = (case r of Inl _ \<Rightarrow> [] | Inr x \<Rightarrow> grants x) @ jw_granted w\<rparr>
      else w)"

fun journal_step :: "crypto_lib \<Rightarrow> journal_codec \<Rightarrow> journal_op \<Rightarrow> journal_world \<Rightarrow> journal_world" where
  "journal_step C J JOpen w =
     (case journal_open C J (jw_dir w) of
        (Inl _, d) \<Rightarrow> w\<lparr>jw_dir := d\<rparr>
      | (Inr j, d) \<Rightarrow> w\<lparr>jw_dir := d, jw_writers := jw_writers w @ [j]\<rparr>)"
| "journal_step C J (JReserve k request lease now_ms) w =
     jw_writer_op (\<lambda>j. journal_reserve C J j request lease now_ms) (\<lambda>i. [i]) k w"
| "journal_step C J (JComplete k i result) w =
     jw_writer_op (\<lambda>j. journal_complete C J j i result) (\<lambda>_. []) k w"
| "journal_step C J (JLookup k i) w = jw_writer_op (\<lambda>j. lookup_persisted C J j i) (\<lambda>_. []) k w"
| "journal_step C J (JClose k) w =
     (if k < length (jw_writers w)
      then w\<lparr>jw_dir := sys_unlock (dj_writer_lock (jw_writers w ! k)) (jw_dir w),
             jw_writers := take k (jw_writers w) @ drop (Suc k) (jw_writers w)\<rparr>
      else w)"

definition journal_run :: "crypto_lib \<Rightarrow> journal_codec \<Rightarrow> journal_op list \<Rightarrow> journal_world \<Rightarrow> journal_world" where
  "journal_run C J = fold (journal_step C J)"

text \<open>An empty directory no process has open, with the answers its system calls will get.\<close>

definition journal_world_new :: "string \<Rightarrow> nat \<Rightarrow> io_answer list \<Rightarrow> journal_world" where
  "journal_world_new path dev io =
     \<lparr>jw_dir = \<lparr>dr_path = path, dr_dev = dev, dr_names = Map.empty, dr_data = (\<lambda>_. []), dr_next = 0,
                dr_locked = (\<lambda>_. False), dr_io = io\<rparr>,
      jw_writers = [], jw_granted = []\<rparr>"

definition world_ok :: "journal_codec \<Rightarrow> journal_world \<Rightarrow> bool" where
  "world_ok J w \<longleftrightarrow> disk_ok J (set (jw_granted w)) (jw_dir w) \<and> distinct (jw_granted w) \<and>
     (case jw_writers w of
        [] \<Rightarrow> dr_locked (jw_dir w) = (\<lambda>_. False)
      | j # js \<Rightarrow> js = [] \<and> covers (set (jw_granted w)) j \<and>
          dr_names (jw_dir w) LOCK_NAME = Some (dj_writer_lock j) \<and>
          dr_locked (jw_dir w) = (\<lambda>l. l = dj_writer_lock j))"

lemma world_ok_op:
  assumes "world_ok J w" "k < length (jw_writers w)"
    and "op_ok J (set (grants @ jw_granted w)) (jw_writers w ! k) (jw_dir w) j d"
    and "distinct (grants @ jw_granted w)"
  shows "world_ok J \<lparr>jw_dir = d, jw_writers = (jw_writers w)[k := j], jw_granted = grants @ jw_granted w\<rparr>"
  using assms by (auto simp: world_ok_def op_ok_def lock_kept_def split: list.splits)

lemma world_ok_covers:
  "world_ok J w \<Longrightarrow> k < length (jw_writers w) \<Longrightarrow> covers (set (jw_granted w)) (jw_writers w ! k)"
  by (auto simp: world_ok_def split: list.splits)

lemma world_ok_writer_op:
  assumes "world_ok J w"
    and "\<And>j r j' d'. covers (set (jw_granted w)) j \<Longrightarrow> f j (jw_dir w) = (r, j', d') \<Longrightarrow>
      (let gs = (case r of Inl _ \<Rightarrow> [] | Inr x \<Rightarrow> grants x) @ jw_granted w
       in op_ok J (set gs) j (jw_dir w) j' d' \<and> distinct gs)"
  shows "world_ok J (jw_writer_op f grants k w)"
proof (cases "k < length (jw_writers w)")
  case True
  obtain r j d where f: "f (jw_writers w ! k) (jw_dir w) = (r, j, d)" by (metis prod_cases3)
  show ?thesis
    using assms(2) [OF world_ok_covers [OF assms(1) True] f] world_ok_op [OF assms(1) True] True
    by (simp add: jw_writer_op_def f Let_def)
qed (use assms(1) in \<open>simp add: jw_writer_op_def\<close>)

lemma world_open_spec:
  assumes "codec_laws J" "world_ok J w"
  shows "jspec (seen (jw_dir w)) (journal_open C J) (opened_ok J (set (jw_granted w)) (jw_dir w))
    (not_opened J (set (jw_granted w)) (jw_dir w))"
proof -
  let ?g = "set (jw_granted w)" and ?d0 = "jw_dir w"
  have ok: "disk_ok J ?g ?d0" using assms(2) by (simp add: world_ok_def)
  have free: "\<not> dr_locked ?d0 (dr_next ?d0)"
    using assms(2) disk_ok_names [OF ok] by (fastforce simp: world_ok_def names_ok_def split: list.splits)
  show ?thesis by (rule journal_open_ok [OF assms(1) ok free])
qed

lemmas world_opened = jspecD_Inr [OF world_open_spec seen_refl]
lemmas world_not_opened = jspecD_Inl [OF world_open_spec seen_refl]

lemma world_ok_open:
  assumes "codec_laws J" "world_ok J w"
  shows "world_ok J (journal_step C J JOpen w)"
proof -
  let ?g = "set (jw_granted w)" and ?d0 = "jw_dir w"
  obtain r d where r: "journal_open C J ?d0 = (r, d)" by fastforce
  show ?thesis
  proof (cases r)
    case (Inl e)
    then have "not_opened J ?g ?d0 d" using world_not_opened [OF assms, of C] r by simp
    then show ?thesis using assms(2) r Inl by (auto simp: world_ok_def not_opened_def split: list.splits)
  next
    case (Inr j)
    then have "opened_ok J ?g ?d0 j d" using world_opened [OF assms, of C] r by simp
    then show ?thesis using assms(2) r Inr
      by (auto simp: world_ok_def opened_ok_def covers_def fun_eq_iff split: list.splits)
  qed
qed

lemma only_lock_released: "(\<lambda>l. l = (x :: nat))(x := False) = (\<lambda>_. False)"
  by (simp add: fun_eq_iff)

lemma world_ok_step:
  assumes "codec_laws J" "world_ok J w"
  shows "world_ok J (journal_step C J op w)"
proof -
  have ok: "disk_ok J (set (jw_granted w)) (jw_dir w)" and dist: "distinct (jw_granted w)"
    using assms(2) by (auto simp: world_ok_def)
  show ?thesis
  proof (cases op)
    case JOpen
    then show ?thesis using world_ok_open [OF assms] by simp
  next
    case (JReserve k request lease now_ms)
    show ?thesis unfolding JReserve journal_step.simps
      by (rule world_ok_writer_op [OF assms(2)])
        (use journal_reserve_ok [OF assms(1) ok] dist in \<open>fastforce simp: Let_def split: sum.splits\<close>)
  next
    case (JComplete k i result)
    show ?thesis unfolding JComplete journal_step.simps
      by (rule world_ok_writer_op [OF assms(2)])
        (use journal_complete_ok [OF assms(1) ok] dist in \<open>auto simp: Let_def split: sum.splits\<close>)
  next
    case (JLookup k i)
    show ?thesis unfolding JLookup journal_step.simps
      by (rule world_ok_writer_op [OF assms(2)])
        (use lookup_persisted_ok [OF ok] dist in \<open>auto simp: Let_def split: sum.splits\<close>)
  next
    case (JClose k)
    then show ?thesis using assms(2)
      by (auto simp: world_ok_def sys_unlock_def only_lock_released split: list.splits)
  qed
qed

lemma world_ok_run: "codec_laws J \<Longrightarrow> world_ok J w \<Longrightarrow> world_ok J (journal_run C J ops w)"
  unfolding journal_run_def by (induction ops arbitrary: w) (auto simp: world_ok_step)

lemma world_ok_new: "world_ok J (journal_world_new path dev io)"
  by (simp add: world_ok_def journal_world_new_def disk_ok_def names_ok_def log_ok_def)

lemma granted_world_ok:
  "codec_laws J \<Longrightarrow> world_ok J (journal_run C J ops (journal_world_new path dev io))"
  by (rule world_ok_run [OF _ world_ok_new])

end
