(* ===== verification/Journal_Reservations.thy ===== *)
theory Journal_Reservations
  imports Journal_World Crypto_Instance "HOL-Library.Code_Target_Nat"
begin

text \<open>
  What the dispatch journal promises its callers, over any sequence of operations on a directory
  that starts empty. The encoders and decoders only have to satisfy \<^const>\<open>codec_laws\<close>, which the
  codec below shows to be possible.
\<close>

section \<open>A concrete codec\<close>

definition model_request :: action_request where
  "model_request =
     \<lparr>ar_hunt_id = HuntId ''hunt-1'', ar_requested_by = AgentId ''agent-1'',
      ar_action = IsolateHost ''host-1'', ar_severity = High, ar_evidence = JNull\<rparr>"

definition model_lease :: capability_lease where
  "model_lease = \<lparr>cl_capability_id = ''lease-1'', cl_expires_at_ms = 1000, cl_action = ''isolate_host'', cl_scope = None\<rparr>"

definition tagged_line :: "char \<Rightarrow> string \<Rightarrow> bytes \<times> string option" where
  "tagged_line c i = (if CHR 0x0A \<in> set i then ([], Some ''newline in identity'') else (c # i, None))"

text \<open>
  Events carry their identity; the request and lease of every intent are the model's. A checkpoint
  is its length in unary, its digest and its writer.
\<close>

definition model_codec :: journal_codec where
  "model_codec =
     \<lparr>jc_request = (\<lambda>_. (''r'', None)), jc_lease = (\<lambda>_. (''l'', None)), jc_identity = (\<lambda>_. (''i'', None)),
      jc_event = (\<lambda>ev. case ev of Header _ \<Rightarrow> (''H'', None) | Intent i _ _ _ \<Rightarrow> tagged_line CHR ''I'' i
                       | Completion i _ \<Rightarrow> ([], Some ''not encoded'')),
      jc_result = (\<lambda>_. (''c'', None)),
      jc_checkpoint = (\<lambda>cp. (replicate (cp_bytes cp) CHR ''1'' @ ''|'' @ cp_digest cp @ ''|'' @ cp_writer_identity cp, None)),
      jc_read_event = (\<lambda>b. if hd b = CHR ''H'' then Inr (Header VERSION)
                           else Inr (Intent (butlast (tl b)) model_request model_lease 0)),
      jc_read_checkpoint = (\<lambda>b. let n = length (takeWhile (\<lambda>c. c = CHR ''1'') b); rest = drop (Suc n) b
         in Inr \<lparr>cp_version = VERSION, cp_bytes = n, cp_digest = takeWhile (\<lambda>c. c \<noteq> CHR ''|'') rest,
                 cp_writer_identity = tl (dropWhile (\<lambda>c. c \<noteq> CHR ''|'') rest)\<rparr>)\<rparr>"

lemma model_codec_laws: "codec_laws model_codec"
  by (auto simp: codec_laws_def model_codec_def tagged_line_def takeWhile_append Let_def
      split: journal_event.splits if_splits)

definition model_ops :: "journal_op list" where
  "model_ops = [JOpen, JReserve 0 model_request model_lease 0, JClose 0, JOpen,
     JReserve 0 model_request model_lease 0]"

abbreviation model_world :: "journal_op list \<Rightarrow> journal_world" where
  "model_world ops \<equiv> journal_run model_crypto model_codec ops (journal_world_new ''/j'' 1 [])"

section \<open>Properties\<close>

text \<open>
  C3. No dispatch identity is granted twice: over any sequence of openings, reservations,
  completions, lookups and closings by any number of processes, with any system calls failing,
  the identities that reservations returned are pairwise different.
\<close>

theorem dispatch_granted_once:
  assumes "codec_laws J"
  shows "distinct (jw_granted (journal_run C J ops (journal_world_new path dev io)))"
  using granted_world_ok [OF assms, of C ops path dev io] by (simp add: world_ok_def)

theorem dispatch_granted_once_witness:
  "length (jw_granted (model_world model_ops)) = 1 \<and> distinct (jw_granted (model_world model_ops))"
  by (rule conjI [OF _ dispatch_granted_once [OF model_codec_laws]]) code_simp

text \<open>
  A granted reservation is never forgotten: whenever a process opens the directory again, its
  journal has a record of every identity ever granted, so that it refuses to reserve it, and no
  other process has the journal open.
\<close>

theorem reservation_survives_reopen:
  assumes "codec_laws J" "w = journal_run C J ops (journal_world_new path dev io)"
    and "journal_open C J (jw_dir w) = (Inr j, d)" "i \<in> set (jw_granted w)"
  shows "jw_writers w = [] \<and> (\<exists>rec. journal_lookup j i = Inr (Some rec)) \<and>
    (\<forall>request lease now_ms. fst (journal_reserve C J j request lease now_ms d) \<noteq> Inr i)"
proof -
  have ok: "world_ok J w" unfolding assms(2) by (rule granted_world_ok [OF assms(1)])
  have "world_ok J (journal_step C J JOpen w)" by (rule world_ok_step [OF assms(1) ok])
  moreover have opened: "opened_ok J (set (jw_granted w)) (jw_dir w) j d"
    by (rule world_opened [OF assms(1) ok assms(3)])
  ultimately have w: "jw_writers w = []" using assms(3) by (auto simp: world_ok_def split: list.splits)
  have disk: "disk_ok J (set (jw_granted w)) d" "covers (set (jw_granted w)) j"
    using opened by (auto simp: opened_ok_def covers_def)
  have "fst (journal_reserve C J j request lease now_ms d) \<noteq> Inr i" for request lease now_ms
    using journal_reserve_ok [OF assms(1) disk] assms(4)
    by (cases "journal_reserve C J j request lease now_ms d") fastforce
  then show ?thesis using w opened assms(4) by (auto simp: opened_ok_def journal_lookup_def)
qed

theorem reservation_survives_reopen_witness:
  "\<exists>rec. journal_lookup
     (projr (fst (journal_open model_crypto model_codec (jw_dir (model_world (take 3 model_ops))))))
     (hd (jw_granted (model_world (take 3 model_ops)))) = Inr (Some rec)"
proof -
  have "isl (fst (journal_open model_crypto model_codec (jw_dir (model_world (take 3 model_ops))))) = False"
    "jw_granted (model_world (take 3 model_ops)) \<noteq> []"
    by code_simp+
  then show ?thesis
    using reservation_survives_reopen [OF model_codec_laws refl, of model_crypto "take 3 model_ops" "''/j''" 1 "[]"
        "projr (fst (journal_open model_crypto model_codec (jw_dir (model_world (take 3 model_ops)))))"]
    by (simp add: prod_eq_iff del: take_Suc_Cons)
qed

end
