(* ===== verification/Rehearsal.thy ===== *)
theory Rehearsal
  imports Held_Action Static_Gate
begin

text \<open>
  The rehearsal preview of a response action (\<^verbatim>\<open>build_rehearsal_preview\<close> of
  \<^verbatim>\<open>crates/swarm-runtime/src/service/preview.rs\<close>): what the action reaches and the plan that undoes
  it, as shown to an operator and as recorded on a containment lease.
\<close>

section \<open>Previews\<close>

datatype rehearsal_error = EmptyValue string | MissingScopeTarget string | UnsupportedAction string

fun rehearsal_error_display :: "rehearsal_error \<Rightarrow> string" where
  "rehearsal_error_display (EmptyValue label) = label @ '' must not be empty''"
| "rehearsal_error_display (MissingScopeTarget action) =
     action @ '' did not produce a scoped lease target''"
| "rehearsal_error_display (UnsupportedAction action) = action @ '' does not have preview metadata''"

text \<open>\<^verbatim>\<open>ServiceError::RehearsalPreview\<close> prefixes the message.\<close>

definition preview_error_display :: "rehearsal_error \<Rightarrow> string" where
  "preview_error_display e = ''failed to build rehearsal preview: '' @ rehearsal_error_display e"

definition require_value :: "string \<Rightarrow> string \<Rightarrow> rehearsal_error + string" where
  "require_value label value =
     (let trimmed = trim value in if trimmed = [] then Inl (EmptyValue label) else Inr trimmed)"

definition preview_step :: "rollback_step_kind \<Rightarrow> string \<Rightarrow> rollback_step" where
  "preview_step k summary = \<lparr>rs_kind = k, rs_summary = summary\<rparr>"

type_synonym preview_parts = "blast_radius_preview \<times> rollback_preview"

definition preview_block_egress :: "string \<Rightarrow> preview_parts" where
  "preview_block_egress target =
     (\<lparr>br_scope_kind = NetworkTarget, br_scope_value = target, br_impact = NetworkEgressBlocked, br_max_affected_scopes = 1,
       br_affected_capabilities = [''egress_connectivity''],
       br_summary = ''Blocks outbound connectivity to the scoped network target `'' @ target @ ''`''\<rparr>,
      \<lparr>rp_required = True, rp_summary = ''Remove the temporary egress deny rule for `'' @ target @ ''` to restore traffic'',
       rp_steps = [preview_step RemoveNetworkBlock
         (''Remove the egress deny rule for `'' @ target @ ''` and confirm traffic flows normally'')]\<rparr>)"

definition preview_isolate_host :: "string \<Rightarrow> preview_parts" where
  "preview_isolate_host host_id =
     (\<lparr>br_scope_kind = HostScope, br_scope_value = host_id, br_impact = HostConnectivityIsolated, br_max_affected_scopes = 1,
       br_affected_capabilities = [''network_connectivity'', ''remote_management''],
       br_summary = ''Cuts the scoped host `'' @ host_id @ ''` off from normal network communication''\<rparr>,
      \<lparr>rp_required = True, rp_summary = ''Restore normal connectivity for the isolated host `'' @ host_id @ ''`'',
       rp_steps = [preview_step RestoreHostConnectivity
         (''Remove the isolation policy for `'' @ host_id @ ''` and verify host reachability'')]\<rparr>)"

definition preview_revoke_credential :: "string \<Rightarrow> preview_parts" where
  "preview_revoke_credential credential_id =
     (\<lparr>br_scope_kind = CredentialScope, br_scope_value = credential_id, br_impact = CredentialAccessRevoked, br_max_affected_scopes = 1,
       br_affected_capabilities = [''credential_authentication''],
       br_summary = ''Removes the scoped credential `'' @ credential_id @ ''` from future authentication attempts''\<rparr>,
      \<lparr>rp_required = True, rp_summary = ''Restore or rotate the revoked credential `'' @ credential_id @ ''` with bounded access'',
       rp_steps = [preview_step RestoreCredential
         (''Reissue or restore `'' @ credential_id @ ''` after validation of the owning principal'')]\<rparr>)"

definition preview_sinkhole_dns :: "string \<Rightarrow> preview_parts" where
  "preview_sinkhole_dns domain =
     (\<lparr>br_scope_kind = NetworkTarget, br_scope_value = domain, br_impact = DnsResolutionSinkholed, br_max_affected_scopes = 1,
       br_affected_capabilities = [''dns_resolution'', ''domain_reachability''],
       br_summary = ''Redirects name resolution for the scoped domain `'' @ domain @ ''` to a controlled sinkhole target''\<rparr>,
      \<lparr>rp_required = True, rp_summary = ''Remove the sinkhole override for `'' @ domain @ ''` to restore normal DNS answers'',
       rp_steps = [preview_step RemoveDnsSinkhole
         (''Delete the sinkhole record for `'' @ domain @ ''` and confirm DNS responses return to baseline'')]\<rparr>)"

definition preview_terminate_user_session :: "string \<Rightarrow> string \<Rightarrow> preview_parts" where
  "preview_terminate_user_session host_id session_id =
     (\<lparr>br_scope_kind = UserSession, br_scope_value = host_id @ '':'' @ session_id, br_impact = UserSessionTerminated, br_max_affected_scopes = 1,
       br_affected_capabilities = [''interactive_session'', ''session_bound_credentials''],
       br_summary = ''Ends the scoped session `'' @ session_id @ ''` on host `'' @ host_id @ ''` and forces that principal to reconnect''\<rparr>,
      \<lparr>rp_required = False, rp_summary = ''The terminated session `'' @ session_id @ ''` cannot be resumed; if this was a false positive, the user must establish a fresh session on `'' @ host_id @ ''`'',
       rp_steps = [preview_step ReauthenticateUserSession
         (''After validation, allow the principal tied to `'' @ session_id @ ''` to authenticate again on `'' @ host_id @ ''`'')]\<rparr>)"

definition preview_trigger_edr_scan :: "string \<Rightarrow> string \<Rightarrow> preview_parts" where
  "preview_trigger_edr_scan host_id scan_profile =
     (\<lparr>br_scope_kind = HostScope, br_scope_value = host_id, br_impact = HostScanTriggered, br_max_affected_scopes = 1,
       br_affected_capabilities = [''endpoint_scan_capacity'', ''cpu_headroom''],
       br_summary = ''Starts the EDR scan profile `'' @ scan_profile @ ''` on host `'' @ host_id @ ''`, consuming bounded endpoint inspection capacity''\<rparr>,
      \<lparr>rp_required = False, rp_summary = ''The scan job is non-destructive; cancel the `'' @ scan_profile @ ''` scan on `'' @ host_id @ ''` only if it was launched in error'',
       rp_steps = [preview_step CancelHostScan
         (''Cancel the active `'' @ scan_profile @ ''` EDR scan on `'' @ host_id @ ''` or allow it to complete if the load is acceptable'')]\<rparr>)"

definition preview_inject_firewall_rule :: "string \<Rightarrow> string \<Rightarrow> string \<Rightarrow> string \<Rightarrow> string \<Rightarrow> preview_parts" where
  "preview_inject_firewall_rule host_id rule_name direction cidr port_clause =
     (\<lparr>br_scope_kind = HostScope, br_scope_value = host_id, br_impact = HostFirewallPolicyChanged, br_max_affected_scopes = 1,
       br_affected_capabilities = [''host_network_connectivity'', ''firewall_policy''],
       br_summary = ''Adds firewall rule `'' @ rule_name @ ''` on host `'' @ host_id @ ''` for '' @ direction @ '' traffic matching `'' @ cidr @ ''`'' @ port_clause\<rparr>,
      \<lparr>rp_required = True, rp_summary = ''Remove firewall rule `'' @ rule_name @ ''` from `'' @ host_id @ ''` to restore the pre-action policy'',
       rp_steps = [preview_step RemoveFirewallRule
         (''Delete firewall rule `'' @ rule_name @ ''` from `'' @ host_id @ ''` and verify expected traffic resumes'')]\<rparr>)"

definition preview_quarantine_file :: "string \<Rightarrow> string \<Rightarrow> preview_parts" where
  "preview_quarantine_file host_id file_path =
     (\<lparr>br_scope_kind = FileScope, br_scope_value = host_id @ '':'' @ file_path, br_impact = FileQuarantined, br_max_affected_scopes = 1,
       br_affected_capabilities = [''file_access'', ''file_execution''],
       br_summary = ''Moves the scoped file `'' @ file_path @ ''` on host `'' @ host_id @ ''` into quarantine, blocking normal access and execution''\<rparr>,
      \<lparr>rp_required = True, rp_summary = ''Release `'' @ file_path @ ''` from quarantine on `'' @ host_id @ ''` only after validating it is benign'',
       rp_steps = [preview_step ReleaseQuarantinedFile
         (''Restore `'' @ file_path @ ''` to its original location on `'' @ host_id @ ''` and confirm the file hash matches the approved baseline'')]\<rparr>)"

definition preview_kill_process :: "string \<Rightarrow> string \<Rightarrow> preview_parts" where
  "preview_kill_process host_id process_name =
     (\<lparr>br_scope_kind = ProcessScope, br_scope_value = host_id @ '':'' @ process_name, br_impact = ProcessTerminated, br_max_affected_scopes = 1,
       br_affected_capabilities = [''process_execution'', ''task_continuity''],
       br_summary = ''Terminates process `'' @ process_name @ ''` on host `'' @ host_id @ ''`, immediately interrupting that workload''\<rparr>,
      \<lparr>rp_required = False, rp_summary = ''The terminated process `'' @ process_name @ ''` does not resume automatically; restart it only if post-review confirms the workload is benign'',
       rp_steps = [preview_step RestartProcess
         (''Relaunch the approved `'' @ process_name @ ''` workload on `'' @ host_id @ ''` with normal supervision if business impact warrants recovery'')]\<rparr>)"

definition preview_suspend_process :: "string \<Rightarrow> string \<Rightarrow> preview_parts" where
  "preview_suspend_process host_id process_name =
     (\<lparr>br_scope_kind = ProcessScope, br_scope_value = host_id @ '':'' @ process_name, br_impact = ProcessSuspended, br_max_affected_scopes = 1,
       br_affected_capabilities = [''process_execution'', ''interactive_task_progress''],
       br_summary = ''Suspends process `'' @ process_name @ ''` on host `'' @ host_id @ ''`, pausing its execution without removing it from memory''\<rparr>,
      \<lparr>rp_required = True, rp_summary = ''Resume suspended process `'' @ process_name @ ''` on `'' @ host_id @ ''` if the action is later judged unnecessary'',
       rp_steps = [preview_step ResumeProcess
         (''Resume process `'' @ process_name @ ''` on `'' @ host_id @ ''` and confirm it returns to the expected execution state'')]\<rparr>)"

definition preview_disable_user_account :: "string \<Rightarrow> preview_parts" where
  "preview_disable_user_account user_id =
     (\<lparr>br_scope_kind = UserAccount, br_scope_value = user_id, br_impact = UserAccountDisabled, br_max_affected_scopes = 1,
       br_affected_capabilities = [''interactive_authentication'', ''privileged_access''],
       br_summary = ''Disables user account `'' @ user_id @ ''`, blocking new authentication and inherited access''\<rparr>,
      \<lparr>rp_required = True, rp_summary = ''Re-enable account `'' @ user_id @ ''` only after identity validation and scope review'',
       rp_steps = [preview_step ReenableUserAccount
         (''Restore account `'' @ user_id @ ''` and confirm its expected group membership and MFA state before the next login'')]\<rparr>)"

definition preview_force_password_reset :: "string \<Rightarrow> preview_parts" where
  "preview_force_password_reset user_id =
     (\<lparr>br_scope_kind = UserAccount, br_scope_value = user_id, br_impact = PasswordResetEnforced, br_max_affected_scopes = 1,
       br_affected_capabilities = [''interactive_authentication'', ''credential_rotation''],
       br_summary = ''Marks account `'' @ user_id @ ''` for password reset before the next successful login''\<rparr>,
      \<lparr>rp_required = True, rp_summary = ''Clear the forced-reset requirement for `'' @ user_id @ ''` only if the reset was queued in error'',
       rp_steps = [preview_step ClearPasswordResetRequirement
         (''Remove the forced-reset flag for `'' @ user_id @ ''` or issue a controlled temporary credential after validation'')]\<rparr>)"

definition preview_remove_scheduled_task :: "string \<Rightarrow> string \<Rightarrow> preview_parts" where
  "preview_remove_scheduled_task host_id task_name =
     (\<lparr>br_scope_kind = ScheduledTask, br_scope_value = host_id @ '':'' @ task_name, br_impact = ScheduledTaskRemoved, br_max_affected_scopes = 1,
       br_affected_capabilities = [''scheduled_automation'', ''task_execution''],
       br_summary = ''Deletes scheduled task `'' @ task_name @ ''` from host `'' @ host_id @ ''`, preventing future automated execution''\<rparr>,
      \<lparr>rp_required = True, rp_summary = ''Recreate scheduled task `'' @ task_name @ ''` on `'' @ host_id @ ''` if the removal was not justified'',
       rp_steps = [preview_step RestoreScheduledTask
         (''Restore scheduled task `'' @ task_name @ ''` on `'' @ host_id @ ''` with its approved trigger and command definition'')]\<rparr>)"

definition preview_deploy_decoy :: "string \<Rightarrow> string \<Rightarrow> preview_parts" where
  "preview_deploy_decoy decoy_type zone =
     (\<lparr>br_scope_kind = ZoneScope, br_scope_value = zone, br_impact = DeceptionCoverageChanged, br_max_affected_scopes = 1,
       br_affected_capabilities = [''deception_coverage''],
       br_summary = ''Adds a `'' @ decoy_type @ ''` deception asset inside the bounded zone `'' @ zone @ ''`''\<rparr>,
      \<lparr>rp_required = True, rp_summary = ''Withdraw the rehearsal-scoped `'' @ decoy_type @ ''` decoy from zone `'' @ zone @ ''` if it is promoted'',
       rp_steps = [preview_step WithdrawDecoy
         (''Remove the `'' @ decoy_type @ ''` decoy from `'' @ zone @ ''` and confirm sensors return to baseline'')]\<rparr>)"

definition preview_escalate :: "string \<Rightarrow> preview_parts" where
  "preview_escalate summary =
     (\<lparr>br_scope_kind = OperatorQueue, br_scope_value = ''human_review'', br_impact = OperatorEscalationOnly, br_max_affected_scopes = 1,
       br_affected_capabilities = [''operator_review_queue''],
       br_summary = ''Queues one bounded operator review using the escalation summary `'' @ summary @ ''`''\<rparr>,
      \<lparr>rp_required = False, rp_summary = ''No containment rollback is required; only the queued escalation note may need closure'',
       rp_steps = [preview_step CloseEscalation
         (''Close or supersede the rehearsal-only escalation note after review'')]\<rparr>)"

text \<open>A value is required before the arm goes on.\<close>

definition require_then ::
  "string \<Rightarrow> string \<Rightarrow> (string \<Rightarrow> rehearsal_error + 'a) \<Rightarrow> rehearsal_error + 'a" where
  "require_then label value f =
     (case require_value label value of Inl e \<Rightarrow> Inl e | Inr v \<Rightarrow> f v)"

definition scope_then ::
  "response_action \<Rightarrow> (string \<Rightarrow> rehearsal_error + 'a) \<Rightarrow> rehearsal_error + 'a" where
  "scope_then action f =
     (case scope_for_response_action action of
        None \<Rightarrow> Inl (MissingScopeTarget (kind action)) | Some scope_value \<Rightarrow> f scope_value)"

fun preview_arms :: "response_action \<Rightarrow> rehearsal_error + preview_parts" where
  "preview_arms (BlockEgress t) =
     scope_then (BlockEgress t) (\<lambda>scope_value.
     require_then ''block target'' scope_value (\<lambda>target. Inr (preview_block_egress target)))"
| "preview_arms (IsolateHost h) =
     scope_then (IsolateHost h) (\<lambda>scope_value.
     require_then ''host_id'' scope_value (\<lambda>host_id. Inr (preview_isolate_host host_id)))"
| "preview_arms (RevokeCredential c) =
     scope_then (RevokeCredential c) (\<lambda>scope_value.
     require_then ''credential_id'' scope_value (\<lambda>credential_id.
     Inr (preview_revoke_credential credential_id)))"
| "preview_arms (SinkholeDns domain) =
     require_then ''domain'' domain (\<lambda>domain. Inr (preview_sinkhole_dns domain))"
| "preview_arms (TerminateUserSession host_id session_id) =
     require_then ''host_id'' host_id (\<lambda>host_id.
     require_then ''session_id'' session_id (\<lambda>session_id.
     Inr (preview_terminate_user_session host_id session_id)))"
| "preview_arms (TriggerEdrScan host_id scan_profile) =
     require_then ''host_id'' host_id (\<lambda>host_id.
     require_then ''scan_profile'' scan_profile (\<lambda>scan_profile.
     Inr (preview_trigger_edr_scan host_id scan_profile)))"
| "preview_arms (InjectFirewallRule host_id rule_name direction cidr port) =
     require_then ''host_id'' host_id (\<lambda>host_id.
     require_then ''rule_name'' rule_name (\<lambda>rule_name.
     require_then ''direction'' direction (\<lambda>direction.
     require_then ''cidr'' cidr (\<lambda>cidr.
     Inr (preview_inject_firewall_rule host_id rule_name direction cidr
       (case port of None \<Rightarrow> [] | Some value \<Rightarrow> '' on port `'' @ dec_nat value @ ''`''))))))"
| "preview_arms (QuarantineFile host_id file_path) =
     require_then ''host_id'' host_id (\<lambda>host_id.
     require_then ''file_path'' file_path (\<lambda>file_path.
     Inr (preview_quarantine_file host_id file_path)))"
| "preview_arms (KillProcess host_id process_name) =
     require_then ''host_id'' host_id (\<lambda>host_id.
     require_then ''process_name'' process_name (\<lambda>process_name.
     Inr (preview_kill_process host_id process_name)))"
| "preview_arms (SuspendProcess host_id process_name) =
     require_then ''host_id'' host_id (\<lambda>host_id.
     require_then ''process_name'' process_name (\<lambda>process_name.
     Inr (preview_suspend_process host_id process_name)))"
| "preview_arms (DisableUserAccount user_id) =
     require_then ''user_id'' user_id (\<lambda>user_id. Inr (preview_disable_user_account user_id))"
| "preview_arms (ForcePasswordReset user_id) =
     require_then ''user_id'' user_id (\<lambda>user_id. Inr (preview_force_password_reset user_id))"
| "preview_arms (RemoveScheduledTask host_id task_name) =
     require_then ''host_id'' host_id (\<lambda>host_id.
     require_then ''task_name'' task_name (\<lambda>task_name.
     Inr (preview_remove_scheduled_task host_id task_name)))"
| "preview_arms (DeployDecoy decoy_type target_zone) =
     require_then ''decoy_type'' decoy_type (\<lambda>decoy_type.
     scope_then (DeployDecoy decoy_type target_zone) (\<lambda>zone.
     require_then ''target_zone'' zone (\<lambda>zone. Inr (preview_deploy_decoy decoy_type zone))))"
| "preview_arms (Escalate summary level) =
     require_then ''summary'' summary (\<lambda>summary. Inr (preview_escalate summary))"

definition build_rehearsal_preview ::
  "action_request \<Rightarrow> string \<Rightarrow> i64 \<Rightarrow> rehearsal_error + rehearsal_preview" where
  "build_rehearsal_preview request source_bundle_id prepared_at_ms =
     (case preview_arms (ar_action request) of
        Inl e \<Rightarrow> Inl e
      | Inr (blast_radius, rollback) \<Rightarrow>
          Inr \<lparr>rh_rehearsal_id = ''rehearsal:'' @ hunt_str (ar_hunt_id request) @ '':'' @ dec_int prepared_at_ms,
               rh_source_bundle_id = source_bundle_id, rh_prepared_at_ms = prepared_at_ms,
               rh_simulated_only = True, rh_blast_radius = blast_radius, rh_rollback = rollback\<rparr>)"

section \<open>Every request the gates accept has a rehearsal\<close>

lemma require_then_Inr [simp]:
  "require_then label value f = Inr x \<longleftrightarrow> \<not> blank value \<and> f (trim value) = Inr x"
  by (simp add: require_then_def require_value_def blank_def Let_def)

lemma preview_arms_validated:
  "(\<exists>parts. preview_arms a = Inr parts) \<longleftrightarrow> validate_action a = None"
  by (cases a) (auto simp: scope_then_def)

end
