(* ===== verification/Containment_Lease.thy ===== *)
theory Containment_Lease
  imports Rehearsal Response_Types
begin

text \<open>
  Containment leases (\<^verbatim>\<open>crates/swarm-response/src/containment.rs\<close>) and the inverses and rollback
  receipts that end them (\<^verbatim>\<open>crates/swarm-response/src/rollback.rs\<close>).
\<close>

section \<open>Leases\<close>

definition CONTAINMENT_LEASE_SCHEMA_VERSION :: nat where
  "CONTAINMENT_LEASE_SCHEMA_VERSION = 1"

datatype containment_lease_error =
    NonPositiveTtl i64
  | UnboundedLease string i64 i64
  | UnknownSchemaVersion string nat nat

fun containment_lease_error_display :: "containment_lease_error \<Rightarrow> string" where
  "containment_lease_error_display (NonPositiveTtl ttl_ms) =
     ''containment lease ttl must be strictly positive, got '' @ dec_int ttl_ms @ ''ms''"
| "containment_lease_error_display (UnboundedLease lease_id issued_at_ms expires_at_ms) =
     ''containment lease `'' @ lease_id @ ''` would expire at '' @ dec_int expires_at_ms
     @ '' but was issued at '' @ dec_int issued_at_ms @ ''; a containment must be bounded''"
| "containment_lease_error_display (UnknownSchemaVersion lease_id found expected) =
     ''containment lease `'' @ lease_id @ ''` declares schema version '' @ dec_nat found
     @ '', this build understands '' @ dec_nat expected"

datatype containment_ttl = ContainmentTtl (ttl_get: i64)

definition ttl_from_config_ms :: "i64 \<Rightarrow> containment_lease_error + containment_ttl" where
  "ttl_from_config_ms ttl_ms =
     (if ttl_ms > 0 then Inr (ContainmentTtl ttl_ms) else Inl (NonPositiveTtl ttl_ms))"

record containment_lease =
  cn_lease_id :: string
  cn_action :: response_action
  cn_origin_receipt_id :: string
  cn_governance_receipt_id :: "string option"
  cn_blast_radius :: blast_radius_preview
  cn_rollback :: rollback_preview
  cn_issued_at_ms :: i64
  cn_expires_at_ms :: i64

text \<open>The persisted form, and the check every deserialised lease passes.\<close>

record containment_lease_record =
  cq_schema_version :: nat
  cq_lease :: containment_lease

definition lease_to_record :: "containment_lease \<Rightarrow> containment_lease_record" where
  "lease_to_record lease = \<lparr>cq_schema_version = CONTAINMENT_LEASE_SCHEMA_VERSION, cq_lease = lease\<rparr>"

definition lease_try_from ::
  "containment_lease_record \<Rightarrow> containment_lease_error + containment_lease" where
  "lease_try_from rec =
     (if cq_schema_version rec \<noteq> CONTAINMENT_LEASE_SCHEMA_VERSION
      then Inl (UnknownSchemaVersion (cn_lease_id (cq_lease rec)) (cq_schema_version rec)
                  CONTAINMENT_LEASE_SCHEMA_VERSION)
      else if cn_expires_at_ms (cq_lease rec) \<le> cn_issued_at_ms (cq_lease rec)
      then Inl (UnboundedLease (cn_lease_id (cq_lease rec)) (cn_issued_at_ms (cq_lease rec))
                  (cn_expires_at_ms (cq_lease rec)))
      else Inr (cq_lease rec))"

definition lease_open ::
  "string \<Rightarrow> response_action \<Rightarrow> string \<Rightarrow> string option \<Rightarrow> rehearsal_preview \<Rightarrow> i64 \<Rightarrow> containment_ttl \<Rightarrow>
   containment_lease_error + containment_lease" where
  "lease_open lease_id action origin_receipt_id governance_receipt_id preview issued_at_ms ttl =
     (let expires_at_ms = i64_saturating_add issued_at_ms (ttl_get ttl) in
      if expires_at_ms \<le> issued_at_ms then Inl (UnboundedLease lease_id issued_at_ms expires_at_ms)
      else Inr \<lparr>cn_lease_id = lease_id, cn_action = action, cn_origin_receipt_id = origin_receipt_id,
                cn_governance_receipt_id = governance_receipt_id,
                cn_blast_radius = rh_blast_radius preview, cn_rollback = rh_rollback preview,
                cn_issued_at_ms = issued_at_ms, cn_expires_at_ms = expires_at_ms\<rparr>)"

definition lease_is_expired :: "containment_lease \<Rightarrow> i64 \<Rightarrow> bool" where
  "lease_is_expired lease now_ms \<longleftrightarrow> now_ms \<ge> cn_expires_at_ms lease"

definition remaining_ms :: "containment_lease \<Rightarrow> i64 \<Rightarrow> i64" where
  "remaining_ms lease now_ms = max (i64_saturating_sub (cn_expires_at_ms lease) now_ms) 0"

section \<open>Inverses\<close>

datatype rollback_trigger = Manual | Expiry

fun trigger_str :: "rollback_trigger \<Rightarrow> string" where
  "trigger_str Manual = ''manual''"
| "trigger_str Expiry = ''expiry''"

datatype containment_inverse =
    InverseReleaseFile string string
  | InverseResumeProcess string string
  | InverseRestoreHost string

fun inverse_kind :: "containment_inverse \<Rightarrow> string" where
  "inverse_kind (InverseReleaseFile _ _) = ''release_quarantined_file''"
| "inverse_kind (InverseResumeProcess _ _) = ''resume_process''"
| "inverse_kind (InverseRestoreHost _) = ''restore_host_connectivity''"

fun inverse_host_id :: "containment_inverse \<Rightarrow> string" where
  "inverse_host_id (InverseReleaseFile host_id _) = host_id"
| "inverse_host_id (InverseResumeProcess host_id _) = host_id"
| "inverse_host_id (InverseRestoreHost host_id) = host_id"

fun inverse_target :: "containment_inverse \<Rightarrow> string" where
  "inverse_target (InverseReleaseFile host_id file_path) = host_id @ '':'' @ file_path"
| "inverse_target (InverseResumeProcess host_id process_name) = host_id @ '':'' @ process_name"
| "inverse_target (InverseRestoreHost host_id) = host_id"

datatype rollback_step_status = Reversed | StepSimulated | Irreversible | Unsupported | StepFailed

datatype inverse_gap = GapIrreversible string | GapUnmapped

text \<open>The \<^verbatim>\<open>Debug\<close> and the serialised names of a step kind.\<close>

fun step_kind_debug :: "rollback_step_kind \<Rightarrow> string" where
  "step_kind_debug RemoveNetworkBlock = ''RemoveNetworkBlock''"
| "step_kind_debug RestoreHostConnectivity = ''RestoreHostConnectivity''"
| "step_kind_debug RestoreCredential = ''RestoreCredential''"
| "step_kind_debug RemoveDnsSinkhole = ''RemoveDnsSinkhole''"
| "step_kind_debug ReauthenticateUserSession = ''ReauthenticateUserSession''"
| "step_kind_debug CancelHostScan = ''CancelHostScan''"
| "step_kind_debug RemoveFirewallRule = ''RemoveFirewallRule''"
| "step_kind_debug ReleaseQuarantinedFile = ''ReleaseQuarantinedFile''"
| "step_kind_debug RestartProcess = ''RestartProcess''"
| "step_kind_debug ResumeProcess = ''ResumeProcess''"
| "step_kind_debug ReenableUserAccount = ''ReenableUserAccount''"
| "step_kind_debug ClearPasswordResetRequirement = ''ClearPasswordResetRequirement''"
| "step_kind_debug RestoreScheduledTask = ''RestoreScheduledTask''"
| "step_kind_debug WithdrawDecoy = ''WithdrawDecoy''"
| "step_kind_debug CloseEscalation = ''CloseEscalation''"

fun step_kind_str :: "rollback_step_kind \<Rightarrow> string" where
  "step_kind_str RemoveNetworkBlock = ''remove_network_block''"
| "step_kind_str RestoreHostConnectivity = ''restore_host_connectivity''"
| "step_kind_str RestoreCredential = ''restore_credential''"
| "step_kind_str RemoveDnsSinkhole = ''remove_dns_sinkhole''"
| "step_kind_str ReauthenticateUserSession = ''reauthenticate_user_session''"
| "step_kind_str CancelHostScan = ''cancel_host_scan''"
| "step_kind_str RemoveFirewallRule = ''remove_firewall_rule''"
| "step_kind_str ReleaseQuarantinedFile = ''release_quarantined_file''"
| "step_kind_str RestartProcess = ''restart_process''"
| "step_kind_str ResumeProcess = ''resume_process''"
| "step_kind_str ReenableUserAccount = ''reenable_user_account''"
| "step_kind_str ClearPasswordResetRequirement = ''clear_password_reset_requirement''"
| "step_kind_str RestoreScheduledTask = ''restore_scheduled_task''"
| "step_kind_str WithdrawDecoy = ''withdraw_decoy''"
| "step_kind_str CloseEscalation = ''close_escalation''"

fun gap_detail :: "inverse_gap \<Rightarrow> string \<Rightarrow> rollback_step_kind \<Rightarrow> string" where
  "gap_detail (GapIrreversible reason) action_kind step =
     ''`'' @ action_kind @ ''` cannot be reversed: '' @ reason @ '' (planned step ''
     @ step_kind_debug step @ '' does not restore the pre-containment state)''"
| "gap_detail GapUnmapped action_kind step =
     ''no inverse operation is defined for step '' @ step_kind_debug step @ '' of `'' @ action_kind
     @ ''`; the containment stays in effect''"

fun gap_status :: "inverse_gap \<Rightarrow> rollback_step_status" where
  "gap_status (GapIrreversible _) = Irreversible"
| "gap_status GapUnmapped = Unsupported"

fun resolve_inverse :: "response_action \<Rightarrow> rollback_step_kind \<Rightarrow> inverse_gap + containment_inverse" where
  "resolve_inverse (QuarantineFile host_id file_path) ReleaseQuarantinedFile =
     Inr (InverseReleaseFile host_id file_path)"
| "resolve_inverse (SuspendProcess host_id process_name) ResumeProcess =
     Inr (InverseResumeProcess host_id process_name)"
| "resolve_inverse (IsolateHost host_id) RestoreHostConnectivity = Inr (InverseRestoreHost host_id)"
| "resolve_inverse (TerminateUserSession _ _) ReauthenticateUserSession =
     Inl (GapIrreversible
       (''a terminated session cannot be resumed; the principal can only establish a ''
        @ ''fresh session''))"
| "resolve_inverse _ _ = Inl GapUnmapped"

definition plan_is_reversible :: "containment_lease \<Rightarrow> bool" where
  "plan_is_reversible lease \<longleftrightarrow> rp_steps (cn_rollback lease) \<noteq> [] \<and>
     list_all (\<lambda>step. \<not> isl (resolve_inverse (cn_action lease) (rs_kind step))) (rp_steps (cn_rollback lease))"

section \<open>Rollback receipts\<close>

definition step_restored :: "rollback_step_status \<Rightarrow> bool" where
  "step_restored status \<longleftrightarrow> status = Reversed"

record rollback_step_outcome =
  so_kind :: rollback_step_kind
  so_status :: rollback_step_status
  so_detail :: string

record rollback_receipt =
  rk_rollback_id :: string
  rk_lease_id :: string
  rk_origin_receipt_id :: string
  rk_governance_receipt_id :: "string option"
  rk_trigger :: rollback_trigger
  rk_mode :: execution_mode
  rk_status :: response_status
  rk_steps :: "rollback_step_outcome list"
  rk_completed_at_ms :: i64
  rk_summary :: string
  rk_governance_attestation :: "json option"

definition fully_reversed :: "rollback_receipt \<Rightarrow> bool" where
  "fully_reversed receipt \<longleftrightarrow> rk_steps receipt \<noteq> [] \<and>
     list_all (\<lambda>step. step_restored (so_status step)) (rk_steps receipt)"

definition fully_rehearsed :: "rollback_receipt \<Rightarrow> bool" where
  "fully_rehearsed receipt \<longleftrightarrow> rk_steps receipt \<noteq> [] \<and>
     list_all (\<lambda>step. so_status step = StepSimulated) (rk_steps receipt)"

definition irreversible_steps :: "rollback_receipt \<Rightarrow> rollback_step_outcome list" where
  "irreversible_steps receipt = filter (\<lambda>step. so_status step = Irreversible) (rk_steps receipt)"

definition derive_status :: "rollback_step_outcome list \<Rightarrow> execution_mode \<Rightarrow> response_status" where
  "derive_status steps mode =
     (if steps = [] then StatusFailed
      else if list_all (\<lambda>step. step_restored (so_status step)) steps then StatusExecuted
      else if list_all (\<lambda>step. so_status step = StepSimulated) steps \<and> mode = DryRun
      then StatusSimulated else StatusFailed)"

definition from_steps ::
  "containment_lease \<Rightarrow> rollback_trigger \<Rightarrow> execution_mode \<Rightarrow> i64 \<Rightarrow> rollback_step_outcome list \<Rightarrow>
   rollback_receipt" where
  "from_steps lease trigger mode completed_at_ms steps =
     (let reversed = length (filter (\<lambda>step. step_restored (so_status step)) steps) in
      \<lparr>rk_rollback_id = ''rollback:'' @ cn_lease_id lease @ '':'' @ dec_int completed_at_ms,
       rk_lease_id = cn_lease_id lease, rk_origin_receipt_id = cn_origin_receipt_id lease,
       rk_governance_receipt_id = cn_governance_receipt_id lease, rk_trigger = trigger, rk_mode = mode,
       rk_status = derive_status steps mode, rk_steps = steps, rk_completed_at_ms = completed_at_ms,
       rk_summary = trigger_str trigger @ '' trigger on `'' @ kind (cn_action lease) @ ''` (''
         @ br_scope_value (cn_blast_radius lease) @ ''): '' @ dec_nat reversed @ ''/''
         @ dec_nat (length steps) @ '' step(s) restored'',
       rk_governance_attestation = None\<rparr>)"

definition unavailable :: "string \<Rightarrow> execution_mode \<Rightarrow> string \<Rightarrow> response_error" where
  "unavailable action mode message =
     \<lparr>re_failure = \<lparr>rf_receipt_id = ''resp-failure:'' @ action, rf_action = action, rf_mode = mode,
                    rf_message = message, rf_details = JObject []\<rparr>\<rparr>"

definition require_steps :: "containment_lease \<Rightarrow> execution_mode \<Rightarrow> response_error + unit" where
  "require_steps lease mode =
     (if rp_steps (cn_rollback lease) = []
      then Inl (unavailable (kind (cn_action lease)) mode
                 (''containment lease `'' @ cn_lease_id lease
                  @ ''` carries no rollback steps; refusing to claim reversal''))
      else Inr ())"

definition sandbox_step :: "response_action \<Rightarrow> rollback_step \<Rightarrow> rollback_step_outcome" where
  "sandbox_step action step =
     (case resolve_inverse action (rs_kind step) of
        Inr operation \<Rightarrow>
          \<lparr>so_kind = rs_kind step, so_status = StepSimulated,
           so_detail = ''would issue `'' @ inverse_kind operation @ ''` against `'' @ inverse_target operation
             @ ''` (sandbox executor performs no side effect)''\<rparr>
      | Inl gap \<Rightarrow>
          \<lparr>so_kind = rs_kind step, so_status = gap_status gap,
           so_detail = gap_detail gap (kind action) (rs_kind step)\<rparr>)"

definition sandbox_rollback ::
  "containment_lease \<Rightarrow> rollback_trigger \<Rightarrow> execution_mode \<Rightarrow> i64 \<Rightarrow> response_error + rollback_receipt" where
  "sandbox_rollback lease trigger mode completed_at_ms =
     (case require_steps lease mode of
        Inl e \<Rightarrow> Inl e
      | Inr _ \<Rightarrow> Inr (from_steps lease trigger mode completed_at_ms
                   (map (sandbox_step (cn_action lease)) (rp_steps (cn_rollback lease)))))"

section \<open>The receipt as JSON\<close>

fun step_status_str :: "rollback_step_status \<Rightarrow> string" where
  "step_status_str Reversed = ''reversed''"
| "step_status_str StepSimulated = ''simulated''"
| "step_status_str Irreversible = ''irreversible''"
| "step_status_str Unsupported = ''unsupported''"
| "step_status_str StepFailed = ''failed''"

definition step_outcome_json :: "rollback_step_outcome \<Rightarrow> json" where
  "step_outcome_json step =
     JObject [(''kind'', JString (step_kind_str (so_kind step))),
              (''status'', JString (step_status_str (so_status step))),
              (''detail'', JString (so_detail step))]"

definition rollback_receipt_json :: "rollback_receipt \<Rightarrow> json" where
  "rollback_receipt_json r =
     JObject ([(''rollback_id'', JString (rk_rollback_id r)), (''lease_id'', JString (rk_lease_id r)),
               (''origin_receipt_id'', JString (rk_origin_receipt_id r)),
               (''governance_receipt_id'', json_opt JString (rk_governance_receipt_id r)),
               (''trigger'', JString (trigger_str (rk_trigger r))),
               (''mode'', JString (execution_mode_str (rk_mode r))),
               (''status'', JString (response_status_str (rk_status r))),
               (''steps'', JArray (map step_outcome_json (rk_steps r))),
               (''completed_at_ms'', json_int (rk_completed_at_ms r)),
               (''summary'', JString (rk_summary r))]
              @ json_some ''governance_attestation'' id (rk_governance_attestation r))"

section \<open>What a lease and a receipt say\<close>

text \<open>A lease that was opened is bounded, and is accepted when it is read back.\<close>

definition lease_bounded :: "containment_lease \<Rightarrow> bool" where
  "lease_bounded lease \<longleftrightarrow> cn_issued_at_ms lease < cn_expires_at_ms lease"

lemma lease_open_bounded: "lease_open i a o' g p t ttl = Inr lease \<Longrightarrow> lease_bounded lease"
  by (auto simp: lease_open_def lease_bounded_def Let_def split: if_splits)

lemma lease_try_from_record: "lease_bounded lease \<Longrightarrow> lease_try_from (lease_to_record lease) = Inr lease"
  by (simp add: lease_try_from_def lease_to_record_def lease_bounded_def)

lemma lease_try_from_bounded: "lease_try_from rec = Inr lease \<Longrightarrow> lease_bounded lease"
  by (auto simp: lease_try_from_def lease_bounded_def split: if_splits)

text \<open>The status of a receipt never claims more than its steps.\<close>

lemma from_steps_status:
  "indicates_success (rk_status (from_steps lease trigger mode t steps)) \<longleftrightarrow>
     fully_reversed (from_steps lease trigger mode t steps) \<or>
     fully_rehearsed (from_steps lease trigger mode t steps) \<and> mode = DryRun"
  by (auto simp: from_steps_def derive_status_def fully_reversed_def fully_rehearsed_def Let_def)

lemma sandbox_not_reversed:
  "sandbox_rollback lease trigger mode t = Inr receipt \<Longrightarrow> \<not> fully_reversed receipt"
  by (cases "rp_steps (cn_rollback lease)")
    (auto simp: sandbox_rollback_def require_steps_def from_steps_def fully_reversed_def sandbox_step_def
      step_restored_def Let_def elim: gap_status.elims split: sum.splits)

text \<open>The plan of a rehearsed containment, on a lease for the same action.\<close>

lemma rehearsed_plan_steps:
  assumes "preview_arms a = Inr (b, r)" "is_containment_action a"
  shows "\<exists>step. rp_steps r = [step] \<and>
    (isl (resolve_inverse a (rs_kind step)) \<longleftrightarrow> (\<exists>h s. a = TerminateUserSession h s))"
  using assms
  by (cases a) (auto simp: scope_then_def is_containment_action_def preview_step_def
      preview_isolate_host_def preview_terminate_user_session_def preview_quarantine_file_def
      preview_suspend_process_def)

end
