(* ===== verification/Containment_Store.thy ===== *)
theory Containment_Store
  imports Containment_Lease Ordered_Map
begin

text \<open>
  The lease stores of \<^verbatim>\<open>crates/swarm-response/src/containment.rs\<close>. The trait is the record
  \<open>store_ops\<close> of its operations on a state. The memory store is its two lists; the file store is
  its document and the answers of the operating system: whether \<^verbatim>\<open>Path::exists\<close> sees the document
  (it answers no when the query fails) and the errors of the reads and writes. \<^verbatim>\<open>serde_json\<close> is the
  record \<open>containment_codec\<close>; each lease it reads passes the check of \<^const>\<open>lease_try_from\<close>.
\<close>

section \<open>The trait\<close>

datatype containment_store_error =
    CsAlreadyOpen string
  | CsNotOpen string
  | CsIo string
  | CsCorrupt string

fun containment_store_error_display :: "containment_store_error \<Rightarrow> string" where
  "containment_store_error_display (CsAlreadyOpen lease_id) =
     ''containment lease `'' @ lease_id @ ''` is already open''"
| "containment_store_error_display (CsNotOpen lease_id) =
     ''no open containment lease `'' @ lease_id @ ''` to close''"
| "containment_store_error_display (CsIo e) = ''containment lease store i/o failed: '' @ e"
| "containment_store_error_display (CsCorrupt e) =
     ''containment lease store holds unreadable state: '' @ e"

type_synonym ('s, 'a) store_call = "'s \<Rightarrow> (containment_store_error + 'a) \<times> 's"

record 's store_ops =
  so_open_lease :: "containment_lease \<Rightarrow> ('s, unit) store_call"
  so_get :: "string \<Rightarrow> ('s, containment_lease option) store_call"
  so_open_leases :: "('s, containment_lease list) store_call"
  so_closed_receipts :: "('s, rollback_receipt list) store_call"
  so_close :: "rollback_receipt \<Rightarrow> ('s, unit) store_call"

text \<open>The provided method \<^verbatim>\<open>expired\<close>; the sort is stable.\<close>

definition store_expired :: "'s store_ops \<Rightarrow> i64 \<Rightarrow> ('s, containment_lease list) store_call" where
  "store_expired ops now_ms s =
     (case so_open_leases ops s of
        (Inl e, s) \<Rightarrow> (Inl e, s)
      | (Inr leases, s) \<Rightarrow>
          (Inr (sort_key cn_issued_at_ms (filter (\<lambda>lease. lease_is_expired lease now_ms) leases)), s))"

section \<open>The memory store\<close>

record containment_state =
  ct_open :: "containment_lease list"
  ct_closed :: "rollback_receipt list"

definition containment_state_default :: containment_state where
  "containment_state_default = \<lparr>ct_open = [], ct_closed = []\<rparr>"

definition state_open_lease :: "containment_lease \<Rightarrow> (containment_state, unit) store_call" where
  "state_open_lease lease s =
     (if list_ex (\<lambda>existing. cn_lease_id existing = cn_lease_id lease) (ct_open s)
      then (Inl (CsAlreadyOpen (cn_lease_id lease)), s)
      else (Inr (), s\<lparr>ct_open := ct_open s @ [lease]\<rparr>))"

definition state_close :: "rollback_receipt \<Rightarrow> (containment_state, unit) store_call" where
  "state_close receipt s =
     (case position (\<lambda>lease. cn_lease_id lease = rk_lease_id receipt) (ct_open s) of
        None \<Rightarrow> (Inl (CsNotOpen (rk_lease_id receipt)), s)
      | Some index \<Rightarrow>
          (Inr (), \<lparr>ct_open = take index (ct_open s) @ drop (Suc index) (ct_open s),
                    ct_closed = ct_closed s @ [receipt]\<rparr>))"

definition state_get :: "string \<Rightarrow> (containment_state, containment_lease option) store_call" where
  "state_get lease_id s = (Inr (find (\<lambda>lease. cn_lease_id lease = lease_id) (ct_open s)), s)"

definition lease_memory_ops :: "containment_state store_ops" where
  "lease_memory_ops =
     \<lparr>so_open_lease = state_open_lease, so_get = state_get,
      so_open_leases = (\<lambda>s. (Inr (ct_open s), s)), so_closed_receipts = (\<lambda>s. (Inr (ct_closed s), s)),
      so_close = state_close\<rparr>"

section \<open>The file store\<close>

type_synonym lease_map = "(string, containment_lease) btree"

record persisted_state =
  ps_open :: lease_map
  ps_closed :: "rollback_receipt list"

definition containment_file_default :: persisted_state where
  "containment_file_default = \<lparr>ps_open = [], ps_closed = []\<rparr>"

type_synonym persisted_record = "(string, containment_lease_record) btree \<times> rollback_receipt list"

record containment_codec =
  cc_write :: "persisted_record \<Rightarrow> string + bytes"
  cc_read :: "bytes \<Rightarrow> string + persisted_record"

record file_containment_store =
  fc_document :: "bytes option"
  fc_seen :: "bool list"
  fc_answers :: "string option list"

text \<open>The next answers; with none left the document is seen and the call succeeds.\<close>

definition fc_exists :: "file_containment_store \<Rightarrow> bool \<times> file_containment_store" where
  "fc_exists s =
     (case fc_seen s of
        [] \<Rightarrow> (fc_document s \<noteq> None, s)
      | seen # rest \<Rightarrow> (seen \<and> fc_document s \<noteq> None, s\<lparr>fc_seen := rest\<rparr>))"

definition fc_call :: "file_containment_store \<Rightarrow> (containment_store_error + unit) \<times> file_containment_store" where
  "fc_call s =
     (case fc_answers s of
        [] \<Rightarrow> (Inr (), s)
      | None # rest \<Rightarrow> (Inr (), s\<lparr>fc_answers := rest\<rparr>)
      | Some e # rest \<Rightarrow> (Inl (CsIo e), s\<lparr>fc_answers := rest\<rparr>))"

text \<open>Deserialising the open leases: the first one refused makes the document unreadable.\<close>

fun leases_of_records ::
  "(string, containment_lease_record) btree \<Rightarrow> containment_lease_error + lease_map" where
  "leases_of_records [] = Inr []"
| "leases_of_records ((k, rec) # recs) =
     (case lease_try_from rec of
        Inl e \<Rightarrow> Inl e
      | Inr lease \<Rightarrow>
        (case leases_of_records recs of Inl e \<Rightarrow> Inl e | Inr leases \<Rightarrow> Inr ((k, lease) # leases)))"

definition parse_document :: "containment_codec \<Rightarrow> bytes \<Rightarrow> containment_store_error + persisted_state" where
  "parse_document K b =
     (case cc_read K b of
        Inl e \<Rightarrow> Inl (CsCorrupt e)
      | Inr (open_records, closed) \<Rightarrow>
        (case leases_of_records open_records of
           Inl e \<Rightarrow> Inl (CsCorrupt (containment_lease_error_display e))
         | Inr leases \<Rightarrow> Inr \<lparr>ps_open = leases, ps_closed = closed\<rparr>))"

definition fc_read :: "containment_codec \<Rightarrow> (file_containment_store, persisted_state) store_call" where
  "fc_read K s =
     (case fc_exists s of
        (False, s) \<Rightarrow> (Inr containment_file_default, s)
      | (True, s) \<Rightarrow>
        (case fc_call s of
           (Inl e, s) \<Rightarrow> (Inl e, s)
         | (Inr _, s) \<Rightarrow> (parse_document K (the (fc_document s)), s)))"

text \<open>Creating the parent directory, writing the temporary file, renaming it over the document.\<close>

definition fc_write :: "containment_codec \<Rightarrow> persisted_state \<Rightarrow> (file_containment_store, unit) store_call" where
  "fc_write K st s =
     (case fc_call s of
        (Inl e, s) \<Rightarrow> (Inl e, s)
      | (Inr _, s) \<Rightarrow>
        (case cc_write K (map (map_prod id lease_to_record) (ps_open st), ps_closed st) of
           Inl e \<Rightarrow> (Inl (CsCorrupt e), s)
         | Inr b \<Rightarrow>
           (case fc_call s of
              (Inl e, s) \<Rightarrow> (Inl e, s)
            | (Inr _, s) \<Rightarrow>
              (case fc_call s of
                 (Inl e, s) \<Rightarrow> (Inl e, s)
               | (Inr _, s) \<Rightarrow> (Inr (), s\<lparr>fc_document := Some b\<rparr>)))))"

definition fc_open_lease ::
  "containment_codec \<Rightarrow> containment_lease \<Rightarrow> (file_containment_store, unit) store_call" where
  "fc_open_lease K lease s =
     (case fc_read K s of
        (Inl e, s) \<Rightarrow> (Inl e, s)
      | (Inr st, s) \<Rightarrow>
          if bt_get (ps_open st) (cn_lease_id lease) \<noteq> None
          then (Inl (CsAlreadyOpen (cn_lease_id lease)), s)
          else fc_write K (st\<lparr>ps_open := bt_insert (cn_lease_id lease) lease (ps_open st)\<rparr>) s)"

definition fc_get ::
  "containment_codec \<Rightarrow> string \<Rightarrow> (file_containment_store, containment_lease option) store_call" where
  "fc_get K lease_id s =
     (case fc_read K s of (Inl e, s) \<Rightarrow> (Inl e, s) | (Inr st, s) \<Rightarrow> (Inr (bt_get (ps_open st) lease_id), s))"

definition fc_open_leases ::
  "containment_codec \<Rightarrow> (file_containment_store, containment_lease list) store_call" where
  "fc_open_leases K s =
     (case fc_read K s of (Inl e, s) \<Rightarrow> (Inl e, s) | (Inr st, s) \<Rightarrow> (Inr (bt_values (ps_open st)), s))"

definition fc_closed_receipts ::
  "containment_codec \<Rightarrow> (file_containment_store, rollback_receipt list) store_call" where
  "fc_closed_receipts K s =
     (case fc_read K s of (Inl e, s) \<Rightarrow> (Inl e, s) | (Inr st, s) \<Rightarrow> (Inr (ps_closed st), s))"

definition fc_close ::
  "containment_codec \<Rightarrow> rollback_receipt \<Rightarrow> (file_containment_store, unit) store_call" where
  "fc_close K receipt s =
     (case fc_read K s of
        (Inl e, s) \<Rightarrow> (Inl e, s)
      | (Inr st, s) \<Rightarrow>
          if bt_get (ps_open st) (rk_lease_id receipt) = None
          then (Inl (CsNotOpen (rk_lease_id receipt)), s)
          else fc_write K
            \<lparr>ps_open = bt_retain (\<lambda>k. k \<noteq> rk_lease_id receipt) (ps_open st),
             ps_closed = ps_closed st @ [receipt]\<rparr> s)"

definition lease_file_ops :: "containment_codec \<Rightarrow> file_containment_store store_ops" where
  "lease_file_ops K =
     \<lparr>so_open_lease = fc_open_lease K, so_get = fc_get K, so_open_leases = fc_open_leases K,
      so_closed_receipts = fc_closed_receipts K, so_close = fc_close K\<rparr>"

section \<open>The contract of a store\<close>

text \<open>What a store holds: the open lease of every id, and the receipts of the closed ones.\<close>

type_synonym store_view = "(string \<Rightarrow> containment_lease option) \<times> rollback_receipt list"

locale containment_store =
  fixes ops :: "'s store_ops" and ok :: "'s \<Rightarrow> bool" and view :: "'s \<Rightarrow> store_view"
  assumes open_law: "ok s \<Longrightarrow> lease_bounded lease \<Longrightarrow> so_open_lease ops lease s = (r, s') \<Longrightarrow>
      ok s' \<and> (case r of Inl _ \<Rightarrow> view s' = view s
        | Inr _ \<Rightarrow> fst (view s) (cn_lease_id lease) = None \<and>
            view s' = ((fst (view s))(cn_lease_id lease \<mapsto> lease), snd (view s)))"
    and close_law: "ok s \<Longrightarrow> so_close ops receipt s = (r, s') \<Longrightarrow>
      ok s' \<and> (case r of Inl _ \<Rightarrow> view s' = view s
        | Inr _ \<Rightarrow> fst (view s) (rk_lease_id receipt) \<noteq> None \<and>
            view s' = ((fst (view s))(rk_lease_id receipt := None), snd (view s) @ [receipt]))"
    and get_law: "ok s \<Longrightarrow> so_get ops i s = (g, s') \<Longrightarrow>
      ok s' \<and> view s' = view s \<and> (\<forall>x. g = Inr x \<longrightarrow> x = fst (view s) i)"
    and leases_law: "ok s \<Longrightarrow> so_open_leases ops s = (q, s') \<Longrightarrow>
      ok s' \<and> view s' = view s \<and> (\<forall>ls. q = Inr ls \<longrightarrow> distinct (map cn_lease_id ls) \<and>
        (\<forall>l. l \<in> set ls \<longleftrightarrow> fst (view s) (cn_lease_id l) = Some l))"
    and view_ids: "ok s \<Longrightarrow> fst (view s) i = Some l \<Longrightarrow> cn_lease_id l = i \<and> lease_bounded l"
begin

lemma expired_law:
  assumes "ok s" "store_expired ops now s = (q, s')"
  shows "ok s' \<and> view s' = view s \<and> (\<forall>ls. q = Inr ls \<longrightarrow> distinct (map cn_lease_id ls) \<and>
    sorted (map cn_issued_at_ms ls) \<and>
    (\<forall>l. l \<in> set ls \<longleftrightarrow> fst (view s) (cn_lease_id l) = Some l \<and> lease_is_expired l now))"
proof -
  obtain r s1 where r: "so_open_leases ops s = (r, s1)" by fastforce
  have "distinct (map f (sort_key g (filter P ls)))" if "distinct (map f ls)" for f :: "containment_lease \<Rightarrow> string"
    and g :: "containment_lease \<Rightarrow> int" and P ls
    using that by (simp add: distinct_map inj_on_def)
  then show ?thesis
    using leases_law [OF assms(1) r] assms(2) r
    by (cases r) (auto simp: store_expired_def)
qed

end

text \<open>The memory store.\<close>

definition memory_view :: "containment_state \<Rightarrow> store_view" where
  "memory_view s = (\<lambda>i. find (\<lambda>l. cn_lease_id l = i) (ct_open s), ct_closed s)"

definition memory_ok :: "containment_state \<Rightarrow> bool" where
  "memory_ok s \<longleftrightarrow> distinct (map cn_lease_id (ct_open s)) \<and> list_all lease_bounded (ct_open s)"

lemma find_id_iff:
  "distinct (map f xs) \<Longrightarrow> find (\<lambda>x. f x = i) xs = Some x \<longleftrightarrow> x \<in> set xs \<and> f x = i"
  by (induction xs) auto

lemma find_id_None: "find (\<lambda>x. f x = i) xs = None \<longleftrightarrow> i \<notin> f ` set xs"
  by (induction xs) auto

lemma find_append: "find P (xs @ ys) = (case find P xs of None \<Rightarrow> find P ys | Some x \<Rightarrow> Some x)"
  by (induction xs) auto

lemma position_removed:
  "position (\<lambda>x. f x = i) xs = Some k \<Longrightarrow> distinct (map f xs) \<Longrightarrow>
     take k xs @ drop (Suc k) xs = filter (\<lambda>x. f x \<noteq> i) xs \<and> i \<in> f ` set xs"
proof (induction xs arbitrary: k)
  case (Cons x xs)
  have "filter (\<lambda>y. f y \<noteq> f x) xs = xs" using Cons.prems(2) by (simp add: filter_id_conv) (metis image_eqI)
  then show ?case using Cons by (auto split: if_splits)
qed simp

lemma find_filter_id:
  "find (\<lambda>x. f x = i) (filter (\<lambda>x. f x \<noteq> j) xs) = (if i = j then None else find (\<lambda>x. f x = i) xs)"
  by (induction xs) auto

lemma memory_open_law:
  assumes "memory_ok s" "lease_bounded lease" "state_open_lease lease s = (r, s')"
  shows "memory_ok s' \<and> (case r of Inl _ \<Rightarrow> memory_view s' = memory_view s
    | Inr _ \<Rightarrow> fst (memory_view s) (cn_lease_id lease) = None \<and>
        memory_view s' = ((fst (memory_view s))(cn_lease_id lease \<mapsto> lease), snd (memory_view s)))"
proof (cases "list_ex (\<lambda>existing. cn_lease_id existing = cn_lease_id lease) (ct_open s)")
  case True
  then show ?thesis using assms by (auto simp: state_open_lease_def)
next
  case False
  then have fresh: "cn_lease_id lease \<notin> cn_lease_id ` set (ct_open s)" by (auto simp: list_ex_iff)
  have s': "r = Inr ()" "s' = s\<lparr>ct_open := ct_open s @ [lease]\<rparr>"
    using False assms(3) by (auto simp: state_open_lease_def)
  have "find (\<lambda>l. cn_lease_id l = cn_lease_id lease) (ct_open s) = None" using fresh by (simp add: find_id_None)
  then show ?thesis
    using assms(1,2) fresh unfolding s'
    by (auto simp: memory_ok_def memory_view_def find_append fun_eq_iff split: option.splits)
qed

lemma memory_close_law:
  assumes "memory_ok s" "state_close receipt s = (r, s')"
  shows "memory_ok s' \<and> (case r of Inl _ \<Rightarrow> memory_view s' = memory_view s
    | Inr _ \<Rightarrow> fst (memory_view s) (rk_lease_id receipt) \<noteq> None \<and>
        memory_view s' = ((fst (memory_view s))(rk_lease_id receipt := None), snd (memory_view s) @ [receipt]))"
proof (cases "position (\<lambda>lease. cn_lease_id lease = rk_lease_id receipt) (ct_open s)")
  case None
  then show ?thesis using assms by (auto simp: state_close_def)
next
  case (Some k)
  have "distinct (map cn_lease_id (ct_open s))" using assms(1) by (simp add: memory_ok_def)
  note at = position_removed [OF Some this]
  show ?thesis
    using assms at find_id_None [of cn_lease_id "rk_lease_id receipt" "ct_open s"]
    by (auto simp: state_close_def Some memory_ok_def memory_view_def find_filter_id fun_eq_iff
        distinct_map_filter list_all_iff)
qed

interpretation lease_memory: containment_store lease_memory_ops memory_ok memory_view
proof unfold_locales
  fix s :: containment_state and lease r s'
  assume "memory_ok s" "lease_bounded lease" "so_open_lease lease_memory_ops lease s = (r, s')"
  then show "memory_ok s' \<and> (case r of Inl _ \<Rightarrow> memory_view s' = memory_view s
    | Inr _ \<Rightarrow> fst (memory_view s) (cn_lease_id lease) = None \<and>
        memory_view s' = ((fst (memory_view s))(cn_lease_id lease \<mapsto> lease), snd (memory_view s)))"
    by (intro memory_open_law) (simp_all add: lease_memory_ops_def)
next
  fix s :: containment_state and receipt r s'
  assume "memory_ok s" "so_close lease_memory_ops receipt s = (r, s')"
  then show "memory_ok s' \<and> (case r of Inl _ \<Rightarrow> memory_view s' = memory_view s
    | Inr _ \<Rightarrow> fst (memory_view s) (rk_lease_id receipt) \<noteq> None \<and>
        memory_view s' = ((fst (memory_view s))(rk_lease_id receipt := None), snd (memory_view s) @ [receipt]))"
    by (intro memory_close_law) (simp_all add: lease_memory_ops_def)
next
  fix s :: containment_state and i l
  assume "memory_ok s" "fst (memory_view s) i = Some l"
  then show "cn_lease_id l = i \<and> lease_bounded l"
    by (auto simp: memory_view_def memory_ok_def find_id_iff list_all_iff)
qed (auto simp: lease_memory_ops_def state_get_def memory_view_def memory_ok_def find_id_iff)

text \<open>The file store. \<^verbatim>\<open>serde_json\<close> reads back the document it wrote.\<close>

definition containment_codec_ok :: "containment_codec \<Rightarrow> bool" where
  "containment_codec_ok K \<longleftrightarrow> (\<forall>r b. cc_write K r = Inr b \<longrightarrow> cc_read K b = Inr r)"

definition containment_file_ok :: "persisted_state \<Rightarrow> bool" where
  "containment_file_ok st \<longleftrightarrow> bt_ok (ps_open st) \<and> (\<forall>(k, l) \<in> set (ps_open st). k = cn_lease_id l \<and> lease_bounded l)"

definition on_disk :: "containment_codec \<Rightarrow> file_containment_store \<Rightarrow> persisted_state" where
  "on_disk K s = (case fc_document s of None \<Rightarrow> containment_file_default
     | Some b \<Rightarrow> case parse_document K b of Inl _ \<Rightarrow> containment_file_default | Inr st \<Rightarrow> st)"

definition file_view :: "containment_codec \<Rightarrow> file_containment_store \<Rightarrow> store_view" where
  "file_view K s = (bt_get (ps_open (on_disk K s)), ps_closed (on_disk K s))"

text \<open>Every lookup of the document answers what is there.\<close>

definition lookups_answer :: "file_containment_store \<Rightarrow> bool" where
  "lookups_answer s \<longleftrightarrow> False \<notin> set (fc_seen s)"

definition file_ok :: "containment_codec \<Rightarrow> file_containment_store \<Rightarrow> bool" where
  "file_ok K s \<longleftrightarrow> containment_codec_ok K \<and> lookups_answer s \<and> containment_file_ok (on_disk K s) \<and>
     (\<forall>b. fc_document s = Some b \<longrightarrow> parse_document K b = Inr (on_disk K s))"

lemma set_bt_insert_entries: "(j, x) \<in> set (bt_insert k v m) \<Longrightarrow> (j, x) = (k, v) \<or> (j, x) \<in> set m"
  by (induction k v m rule: bt_insert.induct) (auto split: if_splits)

lemma bt_values_ids:
  "bt_ok m \<Longrightarrow> \<forall>(k, l) \<in> set m. k = cn_lease_id l \<and> Q l \<Longrightarrow> distinct (map cn_lease_id (bt_values m))"
proof -
  assume "bt_ok m" and "\<forall>(k, l) \<in> set m. k = cn_lease_id l \<and> Q l"
  then have "map cn_lease_id (bt_values m) = map fst m" by (auto simp: bt_values_def)
  with bt_ok_distinct [OF \<open>bt_ok m\<close>] show "distinct (map cn_lease_id (bt_values m))" by simp
qed

lemma leases_of_records_map:
  "\<forall>(k, l) \<in> set m. lease_bounded l \<Longrightarrow> leases_of_records (map (map_prod id lease_to_record) m) = Inr m"
  by (induction m) (auto simp: lease_try_from_record)

lemma fc_call_keeps: "fc_call s = (r, s') \<Longrightarrow> fc_document s' = fc_document s \<and> lookups_answer s' = lookups_answer s"
  by (auto simp: fc_call_def lookups_answer_def split: list.splits option.splits)

lemma file_ok_cong:
  "fc_document s' = fc_document s \<Longrightarrow> lookups_answer s' = lookups_answer s \<Longrightarrow>
     file_ok K s' = file_ok K s \<and> on_disk K s' = on_disk K s"
  by (simp add: file_ok_def on_disk_def)

lemma fc_exists_law:
  "lookups_answer s \<Longrightarrow> fc_exists s = (b, s') \<Longrightarrow>
     b = (fc_document s \<noteq> None) \<and> fc_document s' = fc_document s \<and> lookups_answer s'"
  by (auto simp: fc_exists_def lookups_answer_def split: list.splits)

lemma fc_read_law:
  assumes "file_ok K s" "fc_read K s = (r, s')"
  shows "file_ok K s' \<and> on_disk K s' = on_disk K s \<and> (\<forall>st. r = Inr st \<longrightarrow> st = on_disk K s)"
proof -
  obtain b s0 where b: "fc_exists s = (b, s0)" by fastforce
  obtain c s1 where c: "fc_call s0 = (c, s1)" by fastforce
  have seen: "b = (fc_document s \<noteq> None)" "fc_document s0 = fc_document s" "lookups_answer s0"
    using fc_exists_law [OF _ b] assms(1) by (simp_all add: file_ok_def)
  have "lookups_answer s0 = lookups_answer s" using seen(3) assms(1) by (simp add: file_ok_def)
  then have ok0: "file_ok K s0" "on_disk K s0 = on_disk K s"
    using file_ok_cong [OF seen(2), of K] assms(1) by blast+
  show ?thesis
  proof (cases "fc_document s")
    case None
    then show ?thesis using assms(2) seen ok0 b by (auto simp: fc_read_def on_disk_def)
  next
    case (Some d)
    have parsed: "parse_document K d = Inr (on_disk K s)" using assms(1) Some by (simp add: file_ok_def)
    have same: "file_ok K s1" "on_disk K s1 = on_disk K s" "fc_document s1 = Some d"
      using fc_call_keeps [OF c] file_ok_cong [of s1 s0 K] ok0 seen(2) Some by simp_all
    have "s' = s1 \<and> (\<forall>st. r = Inr st \<longrightarrow> st = on_disk K s)"
      using assms(2) b seen c parsed same(3) Some by (cases c) (auto simp: fc_read_def)
    then show ?thesis using same by blast
  qed
qed

lemma fc_write_law:
  assumes "file_ok K s" "containment_file_ok st" "fc_write K st s = (r, s')"
  shows "file_ok K s' \<and> (case r of Inl _ \<Rightarrow> on_disk K s' = on_disk K s | Inr _ \<Rightarrow> on_disk K s' = st)"
proof -
  let ?rec = "(map (map_prod id lease_to_record) (ps_open st), ps_closed st)"
  obtain c1 s1 c2 s2 c3 s3 where c: "fc_call s = (c1, s1)" "fc_call s1 = (c2, s2)" "fc_call s2 = (c3, s3)"
    by (meson surj_pair)
  have same: "fc_document s1 = fc_document s" "fc_document s2 = fc_document s" "fc_document s3 = fc_document s"
    "lookups_answer s1 = lookups_answer s" "lookups_answer s2 = lookups_answer s" "lookups_answer s3 = lookups_answer s"
    using c [THEN fc_call_keeps] by auto
  have parsed: "parse_document K b = Inr st" if "cc_write K ?rec = Inr b" for b
  proof -
    have "cc_read K b = Inr ?rec" using that assms(1) by (auto simp: file_ok_def containment_codec_ok_def)
    moreover have "leases_of_records (map (map_prod id lease_to_record) (ps_open st)) = Inr (ps_open st)"
      by (rule leases_of_records_map) (use assms(2) in \<open>auto simp: containment_file_ok_def\<close>)
    ultimately show ?thesis by (simp add: parse_document_def)
  qed
  have wrote: "file_ok K (s3\<lparr>fc_document := Some b\<rparr>) \<and> on_disk K (s3\<lparr>fc_document := Some b\<rparr>) = st"
    if "cc_write K ?rec = Inr b" for b
    using parsed [OF that] assms(1,2) same by (simp add: file_ok_def on_disk_def lookups_answer_def)
  have kept: "file_ok K s1 \<and> on_disk K s1 = on_disk K s" "file_ok K s2 \<and> on_disk K s2 = on_disk K s"
    "file_ok K s3 \<and> on_disk K s3 = on_disk K s"
    using file_ok_cong [of s1 s K] file_ok_cong [of s2 s K] file_ok_cong [of s3 s K] same assms(1) by simp_all
  have "isl r \<and> s' \<in> {s1, s2, s3} \<or> (\<exists>b. cc_write K ?rec = Inr b \<and> r = Inr () \<and> s' = s3\<lparr>fc_document := Some b\<rparr>)"
    using assms(3) c
    by (cases c1; cases c2; cases c3; cases "cc_write K ?rec") (auto simp: fc_write_def)
  then show ?thesis
  proof
    assume "isl r \<and> s' \<in> {s1, s2, s3}"
    then show ?thesis using kept by (cases r) auto
  next
    assume "\<exists>b. cc_write K ?rec = Inr b \<and> r = Inr () \<and> s' = s3\<lparr>fc_document := Some b\<rparr>"
    then show ?thesis using wrote by fastforce
  qed
qed

lemma file_open_law:
  assumes "file_ok K s" "lease_bounded lease" "fc_open_lease K lease s = (r, s')"
  shows "file_ok K s' \<and> (case r of Inl _ \<Rightarrow> file_view K s' = file_view K s
    | Inr _ \<Rightarrow> fst (file_view K s) (cn_lease_id lease) = None \<and>
        file_view K s' = ((fst (file_view K s))(cn_lease_id lease \<mapsto> lease), snd (file_view K s)))"
proof -
  obtain q s1 where q: "fc_read K s = (q, s1)" by fastforce
  note read = fc_read_law [OF assms(1) q]
  let ?st = "(on_disk K s)\<lparr>ps_open := bt_insert (cn_lease_id lease) lease (ps_open (on_disk K s))\<rparr>"
  show ?thesis
  proof (cases "isl q \<or> bt_get (ps_open (on_disk K s)) (cn_lease_id lease) \<noteq> None")
    case True
    then have "isl r" "s' = s1"
      using assms(3) read q by (cases q; auto simp: fc_open_lease_def)+
    then show ?thesis using read by (cases r) (auto simp: file_view_def)
  next
    case False
    then have w: "fc_write K ?st s1 = (r, s')"
      using assms(3) read q by (cases q) (auto simp: fc_open_lease_def)
    have "containment_file_ok ?st"
      using assms(1,2) by (auto simp: file_ok_def containment_file_ok_def dest!: set_bt_insert_entries)
    then show ?thesis
      using fc_write_law [OF _ _ w] read False by (cases r) (simp_all add: file_view_def)
  qed
qed

lemma file_close_law:
  assumes "file_ok K s" "fc_close K receipt s = (r, s')"
  shows "file_ok K s' \<and> (case r of Inl _ \<Rightarrow> file_view K s' = file_view K s
    | Inr _ \<Rightarrow> fst (file_view K s) (rk_lease_id receipt) \<noteq> None \<and>
        file_view K s' = ((fst (file_view K s))(rk_lease_id receipt := None), snd (file_view K s) @ [receipt]))"
proof -
  obtain q s1 where q: "fc_read K s = (q, s1)" by fastforce
  note read = fc_read_law [OF assms(1) q]
  let ?st = "\<lparr>ps_open = bt_retain (\<lambda>k. k \<noteq> rk_lease_id receipt) (ps_open (on_disk K s)),
    ps_closed = ps_closed (on_disk K s) @ [receipt]\<rparr>"
  show ?thesis
  proof (cases "isl q \<or> bt_get (ps_open (on_disk K s)) (rk_lease_id receipt) = None")
    case True
    then have "isl r" "s' = s1"
      using assms(2) read q by (cases q; auto simp: fc_close_def)+
    then show ?thesis using read by (cases r) (auto simp: file_view_def)
  next
    case False
    then have w: "fc_write K ?st s1 = (r, s')"
      using assms(2) read q by (cases q) (auto simp: fc_close_def)
    have "containment_file_ok ?st"
      using assms(1) by (auto simp: file_ok_def containment_file_ok_def bt_retain_def bt_ok_filter)
    then show ?thesis
      using fc_write_law [OF _ _ w] read False by (cases r) (auto simp: file_view_def fun_eq_iff)
  qed
qed

lemma file_view_ids:
  "file_ok K s \<Longrightarrow> fst (file_view K s) i = Some l \<Longrightarrow> cn_lease_id l = i \<and> lease_bounded l"
  by (auto simp: file_ok_def containment_file_ok_def file_view_def bt_get_def dest!: map_of_SomeD)

interpretation lease_file: containment_store "lease_file_ops K" "file_ok K" "file_view K" for K
proof (unfold_locales, goal_cases)
  case (1 s lease r s')
  then show ?case by (intro file_open_law) (simp_all add: lease_file_ops_def)
next
  case (2 s receipt r s')
  then show ?case by (intro file_close_law) (simp_all add: lease_file_ops_def)
next
  case (3 s i g s')
  then show ?case
    using fc_read_law [of K s "fst (fc_read K s)" "snd (fc_read K s)"]
    by (auto simp: lease_file_ops_def fc_get_def file_view_def split: prod.splits sum.splits)
next
  case (4 s q s')
  have ids: "distinct (map cn_lease_id (bt_values (ps_open (on_disk K s))))"
    using 4(1) by (auto simp: file_ok_def containment_file_ok_def bt_values_ids)
  have mem: "l \<in> set (bt_values (ps_open (on_disk K s))) \<longleftrightarrow> bt_get (ps_open (on_disk K s)) (cn_lease_id l) = Some l" for l
    using 4(1) file_view_ids [OF 4(1)] bt_values_get [of "ps_open (on_disk K s)" l]
    by (auto simp: file_ok_def containment_file_ok_def file_view_def)
  show ?case
    using 4 fc_read_law [of K s "fst (fc_read K s)" "snd (fc_read K s)"] ids mem
    by (auto simp: lease_file_ops_def fc_open_leases_def file_view_def split: prod.splits sum.splits)
next
  case (5 s i l)
  then show ?case by (rule file_view_ids)
qed

text \<open>
  When the query behind \<^verbatim>\<open>Path::exists\<close> fails, the document counts as absent, and the next lease
  that is opened replaces it: every other open lease and every receipt is gone.
\<close>

lemma unseen_document_replaced:
  assumes "containment_codec_ok K" "lease_bounded lease" "fc_seen s = [False]" "fc_answers s = []"
    and "cc_write K ([(cn_lease_id lease, lease_to_record lease)], []) = Inr b"
  shows "\<exists>s'. fc_open_lease K lease s = (Inr (), s') \<and> file_view K s' = ([cn_lease_id lease \<mapsto> lease], [])"
proof -
  let ?st = "\<lparr>ps_open = [(cn_lease_id lease, lease)], ps_closed = []\<rparr>" and ?s = "s\<lparr>fc_seen := []\<rparr>"
  have "fc_open_lease K lease s = (Inr (), ?s\<lparr>fc_document := Some b\<rparr>)"
    using assms(3-5) by (simp add: fc_open_lease_def fc_read_def fc_exists_def containment_file_default_def fc_write_def
        fc_call_def)
  moreover have "parse_document K b = Inr ?st"
    using assms(1,2,5) by (simp add: parse_document_def containment_codec_ok_def lease_try_from_record)
  then have "file_view K (?s\<lparr>fc_document := Some b\<rparr>) = ([cn_lease_id lease \<mapsto> lease], [])"
    by (auto simp: file_view_def on_disk_def fun_eq_iff)
  ultimately show ?thesis by blast
qed

end
