(* ===== verification/Containment_Release.thy ===== *)
theory Containment_Release
  imports Containment_Store Governance_Rounds
begin

text \<open>
  Releasing a containment (\<^verbatim>\<open>crates/swarm-runtime/src/containment.rs\<close>): the inverse is executed, the
  receipt attested by the governance policy, the lease closed against it. \<open>release_lease\<close> is the
  path of the expiry sweep and of the manual release.

  The rollback executor reaches the hosts: it is a parameter with a world of its own, which also
  holds the host clock that stamps the attestation. The decoder of a governance receipt is a
  parameter. \<open>None\<close> stands for a governance round that does not return.
\<close>

section \<open>Attestations\<close>

datatype attestation_error =
    Unattested string
  | MalformedAttestation string string
  | AttestationCanonicalization string crypto_error
  | AttestationSignature string consensus_error
  | SubjectMismatch string string string

fun attestation_error_display :: "attestation_error \<Rightarrow> string" where
  "attestation_error_display (Unattested rollback_id) =
     ''rollback receipt `'' @ rollback_id @ ''` carries no governance attestation; it proves nothing ''
     @ ''about who authorized the release''"
| "attestation_error_display (MalformedAttestation rollback_id source) =
     ''rollback receipt `'' @ rollback_id @ ''` carries a malformed governance attestation: '' @ source"
| "attestation_error_display (AttestationCanonicalization rollback_id source) =
     ''rollback receipt `'' @ rollback_id @ ''` could not be canonicalized: '' @ crypto_error_display source"
| "attestation_error_display (AttestationSignature rollback_id source) =
     ''governance attestation on rollback receipt `'' @ rollback_id @ ''` failed signature ''
     @ ''verification: '' @ consensus_error_display source"
| "attestation_error_display (SubjectMismatch rollback_id attested derived) =
     ''governance attestation on rollback receipt `'' @ rollback_id @ ''` was signed over subject ''
     @ ''`'' @ attested @ ''` but this receipt canonicalizes to `'' @ derived
     @ ''`; the signature does not cover '' @ ''this body''"

definition release_subject :: "rollback_receipt \<Rightarrow> rollback_receipt" where
  "release_subject receipt = receipt\<lparr>rk_governance_attestation := None\<rparr>"

definition release_subject_id :: "crypto_lib \<Rightarrow> rollback_receipt \<Rightarrow> crypto_error + string" where
  "release_subject_id C receipt =
     (case canonical_json_bytes C (rollback_receipt_json (release_subject receipt)) of
        Inl e \<Rightarrow> Inl e | Inr b \<Rightarrow> Inr (sha256_hex C b))"

type_synonym attestation_reader = "json \<Rightarrow> string + governance_receipt"

definition verify_release_attestation ::
  "crypto_lib \<Rightarrow> attestation_reader \<Rightarrow> rollback_receipt \<Rightarrow> attestation_error + governance_receipt" where
  "verify_release_attestation C receipt_of_json receipt =
     (let rollback_id = rk_rollback_id receipt in
      case rk_governance_attestation receipt of
        None \<Rightarrow> Inl (Unattested rollback_id)
      | Some raw \<Rightarrow>
        (case receipt_of_json raw of
           Inl e \<Rightarrow> Inl (MalformedAttestation rollback_id e)
         | Inr attestation \<Rightarrow>
           (case governance_receipt_verify C attestation of
              Inl e \<Rightarrow> Inl (AttestationSignature rollback_id e)
            | Inr _ \<Rightarrow>
              (case release_subject_id C receipt of
                 Inl e \<Rightarrow> Inl (AttestationCanonicalization rollback_id e)
               | Inr derived \<Rightarrow>
                   if gr_proposal_id (rcpt_payload attestation) \<noteq> derived
                   then Inl (SubjectMismatch rollback_id (gr_proposal_id (rcpt_payload attestation)) derived)
                   else Inr attestation))))"

text \<open>Serialising a rollback receipt to a JSON value cannot fail.\<close>

definition attest_release_receipt ::
  "crypto_lib \<Rightarrow> 't governance_policy option \<Rightarrow> rollback_receipt \<Rightarrow> i64 \<Rightarrow>
   (rollback_receipt \<times> 't governance_policy option) option" where
  "attest_release_receipt C governance receipt now_ms =
     (case governance of
        None \<Rightarrow> Some (receipt, None)
      | Some policy \<Rightarrow>
        (case authority_attest C policy (rollback_receipt_json (release_subject receipt)) now_ms of
           None \<Rightarrow> None
         | Some (None, policy) \<Rightarrow> Some (receipt, Some policy)
         | Some (Some attestation, policy) \<Rightarrow>
             Some (receipt\<lparr>rk_governance_attestation := Some attestation\<rparr>, Some policy)))"

section \<open>Releasing a lease\<close>

datatype containment_release_error =
    UnknownLease string
  | ReleaseStore containment_store_error
  | ReleaseRollback string response_error

fun release_error_display :: "containment_release_error \<Rightarrow> string" where
  "release_error_display (UnknownLease lease_id) = ''no open containment lease `'' @ lease_id @ ''`''"
| "release_error_display (ReleaseStore e) = containment_store_error_display e"
| "release_error_display (ReleaseRollback lease_id source) =
     ''rollback of containment lease `'' @ lease_id @ ''` failed: '' @ response_error_display source"

text \<open>The hosts: the executor of inverses and the clock.\<close>

record 'x hosts =
  ho_rollback :: "containment_lease \<Rightarrow> rollback_trigger \<Rightarrow> execution_mode \<Rightarrow> i64 \<Rightarrow> 'x \<Rightarrow>
    (response_error + rollback_receipt) \<times> 'x"
  ho_now_ms :: "'x \<Rightarrow> i64 \<times> 'x"

datatype release_event =
  ContainmentReleased i64 string rollback_trigger rollback_receipt bool bool "string option"
    "partition_state option"

record ('s, 'x, 't) containment_sweep =
  cw_store :: 's
  cw_hosts :: 'x
  cw_mode :: execution_mode
  cw_governance :: "'t governance_policy option"
  cw_events :: "release_event list option"

definition attempt_failed :: "rollback_receipt \<Rightarrow> bool" where
  "attempt_failed receipt \<longleftrightarrow> list_ex (\<lambda>step. so_status step = StepFailed) (rk_steps receipt)"

definition release_lease ::
  "crypto_lib \<Rightarrow> 's store_ops \<Rightarrow> 'x hosts \<Rightarrow> string \<Rightarrow> rollback_trigger \<Rightarrow> i64 \<Rightarrow>
   ('s, 'x, 't) containment_sweep \<Rightarrow>
   ((containment_release_error + rollback_receipt) \<times> ('s, 'x, 't) containment_sweep) option" where
  "release_lease C ops H lease_id trigger now_ms w =
     (case so_get ops lease_id (cw_store w) of
        (Inl e, s) \<Rightarrow> Some (Inl (ReleaseStore e), w\<lparr>cw_store := s\<rparr>)
      | (Inr None, s) \<Rightarrow> Some (Inl (UnknownLease lease_id), w\<lparr>cw_store := s\<rparr>)
      | (Inr (Some lease), s) \<Rightarrow>
        (case ho_rollback H lease trigger (cw_mode w) now_ms (cw_hosts w) of
           (Inl e, x) \<Rightarrow> Some (Inl (ReleaseRollback lease_id e), w\<lparr>cw_store := s, cw_hosts := x\<rparr>)
         | (Inr receipt, x) \<Rightarrow>
             if attempt_failed receipt then Some (Inr receipt, w\<lparr>cw_store := s, cw_hosts := x\<rparr>)
             else let (stamp, x) = ho_now_ms H x in
               case attest_release_receipt C (cw_governance w) receipt stamp of
                 None \<Rightarrow> None
               | Some (receipt, governance) \<Rightarrow>
                 (case so_close ops receipt s of
                    (Inl e, s) \<Rightarrow>
                      Some (Inl (ReleaseStore e),
                            w\<lparr>cw_store := s, cw_hosts := x, cw_governance := governance\<rparr>)
                  | (Inr _, s) \<Rightarrow>
                      Some (Inr receipt,
                            w\<lparr>cw_store := s, cw_hosts := x, cw_governance := governance\<rparr>))))"

definition publish_release ::
  "crypto_lib \<Rightarrow> attestation_reader \<Rightarrow> 's store_ops \<Rightarrow> rollback_receipt \<Rightarrow> rollback_trigger \<Rightarrow> i64 \<Rightarrow>
   ('s, 'x, 't) containment_sweep \<Rightarrow> ('s, 'x, 't) containment_sweep" where
  "publish_release C receipt_of_json ops receipt trigger now_ms w =
     (case cw_events w of
        None \<Rightarrow> w
      | Some events \<Rightarrow>
        (case so_open_leases ops (cw_store w) of
           (listed, s) \<Rightarrow>
             let lease_closed = (case listed of
                    Inl _ \<Rightarrow> False
                  | Inr leases \<Rightarrow> \<not> list_ex (\<lambda>lease. cn_lease_id lease = rk_lease_id receipt) leases);
                 verified = verify_release_attestation C receipt_of_json receipt
             in w\<lparr>cw_store := s,
                  cw_events := Some (events @ [ContainmentReleased now_ms (rk_lease_id receipt) trigger
                    receipt lease_closed (\<not> isl verified)
                    (case verified of Inl e \<Rightarrow> Some (attestation_error_display e) | Inr _ \<Rightarrow> None)
                    (map_option (\<lambda>policy. sr_partition_state (status_report policy)) (cw_governance w))])\<rparr>))"

definition sweep_release ::
  "crypto_lib \<Rightarrow> attestation_reader \<Rightarrow> 's store_ops \<Rightarrow> 'x hosts \<Rightarrow> string \<Rightarrow> i64 \<Rightarrow>
   ('s, 'x, 't) containment_sweep \<Rightarrow>
   ((containment_release_error + rollback_receipt) \<times> ('s, 'x, 't) containment_sweep) option" where
  "sweep_release C receipt_of_json ops H lease_id now_ms w =
     (case release_lease C ops H lease_id Manual now_ms w of
        None \<Rightarrow> None
      | Some (Inl e, w) \<Rightarrow> Some (Inl e, w)
      | Some (Inr receipt, w) \<Rightarrow>
          Some (Inr receipt, publish_release C receipt_of_json ops receipt Manual now_ms w))"

section \<open>The sweep\<close>

record containment_sweep_report =
  cp_expired :: usize
  cp_receipts :: "rollback_receipt list"
  cp_failures :: "(string \<times> string) list"

definition report_restored :: "containment_sweep_report \<Rightarrow> usize" where
  "report_restored report = length (filter fully_reversed (cp_receipts report))"

primrec sweep_loop ::
  "crypto_lib \<Rightarrow> attestation_reader \<Rightarrow> 's store_ops \<Rightarrow> 'x hosts \<Rightarrow> containment_lease list \<Rightarrow> i64 \<Rightarrow>
   containment_sweep_report \<Rightarrow> ('s, 'x, 't) containment_sweep \<Rightarrow>
   (containment_sweep_report \<times> ('s, 'x, 't) containment_sweep) option" where
  "sweep_loop C R ops H [] now_ms report w = Some (report, w)"
| "sweep_loop C R ops H (lease # leases) now_ms report w =
     (case release_lease C ops H (cn_lease_id lease) Expiry now_ms w of
        None \<Rightarrow> None
      | Some (Inr receipt, w) \<Rightarrow>
          sweep_loop C R ops H leases now_ms (report\<lparr>cp_receipts := cp_receipts report @ [receipt]\<rparr>)
            (publish_release C R ops receipt Expiry now_ms w)
      | Some (Inl e, w) \<Rightarrow>
          sweep_loop C R ops H leases now_ms
            (report\<lparr>cp_failures := cp_failures report @ [(cn_lease_id lease, release_error_display e)]\<rparr>) w)"

definition sweep_expired ::
  "crypto_lib \<Rightarrow> attestation_reader \<Rightarrow> 's store_ops \<Rightarrow> 'x hosts \<Rightarrow> i64 \<Rightarrow>
   ('s, 'x, 't) containment_sweep \<Rightarrow>
   (containment_sweep_report \<times> ('s, 'x, 't) containment_sweep) option" where
  "sweep_expired C R ops H now_ms w =
     (case store_expired ops now_ms (cw_store w) of
        (Inl e, s) \<Rightarrow>
          Some (\<lparr>cp_expired = 0, cp_receipts = [],
                 cp_failures = [(''<store>'', containment_store_error_display e)]\<rparr>, w\<lparr>cw_store := s\<rparr>)
      | (Inr expired, s) \<Rightarrow>
          sweep_loop C R ops H expired now_ms
            \<lparr>cp_expired = length expired, cp_receipts = [], cp_failures = []\<rparr> (w\<lparr>cw_store := s\<rparr>))"

end
