(* ===== verification/Containment_Lifecycle.thy ===== *)
theory Containment_Lifecycle
  imports Containment_Release
begin

text \<open>
  The life of a containment lease, for every store that keeps the contract of
  \<^const>\<open>containment_store\<close>: no lease is lost, the sweep accounts for every expired lease, and an
  attested release verifies.
\<close>

section \<open>What releasing does\<close>

text \<open>An executor reports on the lease it was given, and cannot attest.\<close>

definition hosts_law :: "'x hosts \<Rightarrow> bool" where
  "hosts_law H \<longleftrightarrow> (\<forall>lease trigger mode t x r x'. ho_rollback H lease trigger mode t x = (Inr r, x') \<longrightarrow>
     rk_lease_id r = cn_lease_id lease \<and> rk_governance_attestation r = None)"

lemma hosts_lawD:
  "hosts_law H \<Longrightarrow> ho_rollback H lease trigger mode t x = (Inr r, x') \<Longrightarrow>
     rk_lease_id r = cn_lease_id lease \<and> rk_governance_attestation r = None"
  unfolding hosts_law_def by blast

lemma attest_release_receipt_keeps:
  "attest_release_receipt C g r t = Some (r', g') \<Longrightarrow>
     rk_lease_id r' = rk_lease_id r \<and> rk_steps r' = rk_steps r \<and> release_subject r' = release_subject r"
  by (auto simp: attest_release_receipt_def release_subject_def split: option.splits prod.splits)

text \<open>The view after a close, and what closing keeps.\<close>

definition closed_by :: "store_view \<Rightarrow> rollback_receipt \<Rightarrow> store_view" where
  "closed_by v receipt = ((fst v)(rk_lease_id receipt := None), snd v @ [receipt])"

definition close_stable :: "(store_view \<Rightarrow> bool) \<Rightarrow> bool" where
  "close_stable P \<longleftrightarrow> (\<forall>v r. P v \<longrightarrow> fst v (rk_lease_id r) \<noteq> None \<longrightarrow> P (closed_by v r))"

lemma close_stableD: "close_stable P \<Longrightarrow> P v \<Longrightarrow> fst v (rk_lease_id r) \<noteq> None \<Longrightarrow> P (closed_by v r)"
  unfolding close_stable_def by blast

text \<open>What the report of a sweep says of one lease, and of all.\<close>

definition accounted :: "containment_lease \<Rightarrow> store_view \<Rightarrow> containment_sweep_report \<Rightarrow> bool" where
  "accounted l v report \<longleftrightarrow>
     fst v (cn_lease_id l) = Some l \<and>
       (cn_lease_id l \<in> fst ` set (cp_failures report) \<or>
        (\<exists>r \<in> set (cp_receipts report). rk_lease_id r = cn_lease_id l \<and> attempt_failed r)) \<or>
     fst v (cn_lease_id l) = None \<and>
       (\<exists>r \<in> set (cp_receipts report) \<inter> set (snd v). rk_lease_id r = cn_lease_id l \<and> \<not> attempt_failed r)"

definition sweep_accounts ::
  "containment_lease list \<Rightarrow> store_view \<Rightarrow> store_view \<Rightarrow> containment_sweep_report \<Rightarrow> bool" where
  "sweep_accounts leases v v' report \<longleftrightarrow>
     (\<forall>i. i \<notin> cn_lease_id ` set leases \<longrightarrow> fst v' i = fst v i) \<and> set (snd v) \<subseteq> set (snd v') \<and>
     (\<forall>l \<in> set leases. accounted l v' report)"

definition report_extends :: "containment_sweep_report \<Rightarrow> containment_sweep_report \<Rightarrow> bool" where
  "report_extends r r' \<longleftrightarrow> set (cp_receipts r) \<subseteq> set (cp_receipts r') \<and> set (cp_failures r) \<subseteq> set (cp_failures r')"

lemma accounted_mono:
  assumes "accounted l v r" "report_extends r r'" "fst v' (cn_lease_id l) = fst v (cn_lease_id l)"
    and "set (snd v) \<subseteq> set (snd v')"
  shows "accounted l v' r'"
proof -
  have "fst ` set (cp_failures r) \<subseteq> fst ` set (cp_failures r')" using assms(2) by (auto simp: report_extends_def)
  moreover have "set (cp_receipts r) \<subseteq> set (cp_receipts r')" using assms(2) by (simp add: report_extends_def)
  ultimately show ?thesis using assms(1,4) unfolding accounted_def assms(3) by blast
qed

lemma sweep_accounts_Cons:
  assumes "sweep_accounts [l] v v1 r1" "report_extends r1 r'" "sweep_accounts leases v1 v' r'"
    and "cn_lease_id l \<notin> cn_lease_id ` set leases"
  shows "sweep_accounts (l # leases) v v' r'"
proof -
  have "accounted l v' r'"
    by (rule accounted_mono [of l v1 r1]) (use assms in \<open>auto simp: sweep_accounts_def\<close>)
  then show ?thesis using assms(1,3) by (auto simp: sweep_accounts_def)
qed

lemma sweep_loop_expired:
  "sweep_loop C R ops H leases now report w = Some (report', w') \<Longrightarrow> cp_expired report' = cp_expired report"
  by (induction leases arbitrary: report w) (auto split: option.splits sum.splits)

context containment_store
begin

lemma release_lease_law:
  assumes "ok (cw_store w)" "release_lease C ops H i trigger now w = Some (r, w')"
  shows "ok (cw_store w') \<and>
    (case r of Inl _ \<Rightarrow> view (cw_store w') = view (cw_store w)
     | Inr receipt \<Rightarrow>
         if attempt_failed receipt then view (cw_store w') = view (cw_store w)
         else fst (view (cw_store w)) (rk_lease_id receipt) \<noteq> None \<and>
           view (cw_store w') = closed_by (view (cw_store w)) receipt)"
proof -
  obtain g s where g: "so_get ops i (cw_store w) = (g, s)" by fastforce
  note get = get_law [OF assms(1) g]
  show ?thesis
  proof (cases "\<exists>lease. g = Inr (Some lease)")
    case False
    then show ?thesis using assms(2) g get
      by (auto simp: release_lease_def split: sum.splits option.splits)
  next
    case True
    then obtain lease where lease: "g = Inr (Some lease)" by blast
    obtain q x where q: "ho_rollback H lease trigger (cw_mode w) now (cw_hosts w) = (q, x)" by fastforce
    show ?thesis
    proof (cases q)
      case (Inl e)
      then show ?thesis using assms(2) g get lease q by (auto simp: release_lease_def)
    next
      case (Inr receipt)
      show ?thesis
      proof (cases "attempt_failed receipt")
        case True
        then show ?thesis using assms(2) g get lease q Inr by (auto simp: release_lease_def)
      next
        case False
        obtain stamp x' where x': "ho_now_ms H x = (stamp, x')" by fastforce
        obtain receipt' gov where a: "attest_release_receipt C (cw_governance w) receipt stamp = Some (receipt', gov)"
          using assms(2) g lease q Inr False x' by (auto simp: release_lease_def Let_def split: option.splits)
        obtain c s' where c: "so_close ops receipt' s = (c, s')" by fastforce
        have "\<not> attempt_failed receipt'"
          using False attest_release_receipt_keeps [OF a] by (simp add: attempt_failed_def)
        then show ?thesis
          using assms(2) g lease q Inr False x' a c close_law [OF conjunct1 [OF get] c] get
          by (cases c) (auto simp: release_lease_def closed_by_def)
      qed
    qed
  qed
qed

lemma release_lease_receipt:
  assumes "ok (cw_store w)" "hosts_law H" "release_lease C ops H i trigger now w = Some (Inr receipt, w')"
  shows "rk_lease_id receipt = i"
proof -
  obtain g s where g: "so_get ops i (cw_store w) = (g, s)" by fastforce
  then obtain lease where lease: "g = Inr (Some lease)"
    using assms(3) by (auto simp: release_lease_def split: sum.splits option.splits)
  then have id: "cn_lease_id lease = i" using get_law [OF assms(1) g] view_ids [OF assms(1), of i lease] by auto
  obtain q x where q: "ho_rollback H lease trigger (cw_mode w) now (cw_hosts w) = (q, x)" by fastforce
  then obtain r0 where r0: "q = Inr r0"
    using assms(3) g lease by (auto simp: release_lease_def split: sum.splits)
  have "rk_lease_id receipt = rk_lease_id r0"
    using assms(3) g lease q r0
    by (auto simp: release_lease_def Let_def split: if_splits prod.splits option.splits sum.splits
        dest!: attest_release_receipt_keeps)
  then show ?thesis using hosts_lawD [OF assms(2) q [unfolded r0]] id by simp
qed

lemma publish_release_law:
  "ok (cw_store w) \<Longrightarrow> w' = publish_release C R ops receipt trigger now w \<Longrightarrow>
     ok (cw_store w') \<and> view (cw_store w') = view (cw_store w)"
  using leases_law [of "cw_store w"]
  by (auto simp: publish_release_def Let_def split: option.splits prod.splits)

text \<open>The sweep gets to every lease, and touches no other.\<close>

lemma sweep_loop_law:
  assumes "ok (cw_store w)" "hosts_law H" "distinct (map cn_lease_id leases)"
    and "\<forall>l \<in> set leases. fst (view (cw_store w)) (cn_lease_id l) = Some l"
    and "sweep_loop C R ops H leases now report w = Some (report', w')"
  shows "ok (cw_store w') \<and> report_extends report report' \<and>
    sweep_accounts leases (view (cw_store w)) (view (cw_store w')) report'"
  using assms
proof (induction leases arbitrary: report w)
  case Nil
  then show ?case by (simp add: sweep_accounts_def report_extends_def)
next
  case (Cons l leases)
  obtain r w1 where r: "release_lease C ops H (cn_lease_id l) Expiry now w = Some (r, w1)"
    using Cons.prems(5) by (auto split: option.splits)
  note law = release_lease_law [OF Cons.prems(1) r]
  have fresh: "distinct (map cn_lease_id leases)" "cn_lease_id l \<notin> cn_lease_id ` set leases"
    using Cons.prems(3) by auto
  obtain report1 w2 where step: "sweep_loop C R ops H leases now report1 w2 = Some (report', w')"
    "ok (cw_store w2)" "report_extends report report1"
    "sweep_accounts [l] (view (cw_store w)) (view (cw_store w2)) report1"
  proof (cases r)
    case (Inl e)
    show thesis
      by (rule that [of "report\<lparr>cp_failures := cp_failures report @ [(cn_lease_id l, release_error_display e)]\<rparr>" w1])
        (use Cons.prems(4,5) r law Inl in \<open>auto simp: sweep_accounts_def accounted_def report_extends_def\<close>)
  next
    case (Inr receipt)
    have "rk_lease_id receipt = cn_lease_id l"
      using release_lease_receipt [OF Cons.prems(1,2)] r Inr by blast
    moreover have "ok (cw_store (publish_release C R ops receipt Expiry now w1)) \<and>
        view (cw_store (publish_release C R ops receipt Expiry now w1)) = view (cw_store w1)"
      by (rule publish_release_law [OF _ refl]) (use law in blast)
    ultimately show thesis
      by (intro that [of "report\<lparr>cp_receipts := cp_receipts report @ [receipt]\<rparr>"
            "publish_release C R ops receipt Expiry now w1"])
        (use Cons.prems(4,5) r law Inr in
          \<open>auto simp: sweep_accounts_def accounted_def report_extends_def closed_by_def split: if_splits\<close>)
  qed
  have "\<forall>l' \<in> set leases. fst (view (cw_store w2)) (cn_lease_id l') = Some l'"
  proof
    fix l' assume "l' \<in> set leases"
    moreover from this have "cn_lease_id l' \<noteq> cn_lease_id l" using fresh(2) by (metis imageI)
    ultimately show "fst (view (cw_store w2)) (cn_lease_id l') = Some l'"
      using step(4) Cons.prems(4) by (simp add: sweep_accounts_def)
  qed
  note rest = Cons.IH [OF step(2) Cons.prems(2) fresh(1) this step(1)]
  then have "report_extends report report'" using step(3) by (auto simp: report_extends_def)
  then show ?case using rest sweep_accounts_Cons [OF step(4) _ _ fresh(2)] by blast
qed

lemma containment_sweep_law:
  assumes "ok (cw_store w)" "hosts_law H" "sweep_expired C R ops H now w = Some (report, w')"
  shows "ok (cw_store w') \<and>
    ((\<exists>e. cp_failures report = [(''<store>'', e)]) \<and> view (cw_store w') = view (cw_store w) \<or>
     (\<exists>leases. cp_expired report = length leases \<and> distinct (map cn_lease_id leases) \<and>
        (\<forall>l. l \<in> set leases \<longleftrightarrow> fst (view (cw_store w)) (cn_lease_id l) = Some l \<and> lease_is_expired l now) \<and>
        sweep_accounts leases (view (cw_store w)) (view (cw_store w')) report))"
proof -
  obtain q s where q: "store_expired ops now (cw_store w) = (q, s)" by fastforce
  note law = expired_law [OF assms(1) q]
  show ?thesis
  proof (cases q)
    case (Inl e)
    then show ?thesis using assms(3) q law by (auto simp: sweep_expired_def)
  next
    case (Inr leases)
    let ?w = "w\<lparr>cw_store := s\<rparr>"
    have loop: "sweep_loop C R ops H leases now \<lparr>cp_expired = length leases, cp_receipts = [], cp_failures = []\<rparr> ?w
        = Some (report, w')"
      using assms(3) q Inr by (simp add: sweep_expired_def)
    have "ok (cw_store ?w)" "distinct (map cn_lease_id leases)"
      "\<forall>l \<in> set leases. fst (view (cw_store ?w)) (cn_lease_id l) = Some l"
      using law Inr by auto
    from sweep_loop_law [OF this(1) assms(2) this(2,3) loop] sweep_loop_expired [OF loop]
    show ?thesis using law Inr by auto
  qed
qed

text \<open>What every close keeps, every release and sweep keeps.\<close>

lemma release_preserves:
  assumes "close_stable P"
    and "ok (cw_store w)" "P (view (cw_store w))" "release_lease C ops H i trigger now w = Some (r, w')"
  shows "ok (cw_store w') \<and> P (view (cw_store w'))"
  using release_lease_law [OF assms(2,4)] close_stableD [OF assms(1,3)] assms(3)
  by (cases r) (auto split: if_splits)

lemma sweep_loop_preserves:
  assumes "close_stable P"
    and "ok (cw_store w)" "P (view (cw_store w))" "sweep_loop C R ops H leases now report w = Some (report', w')"
  shows "ok (cw_store w') \<and> P (view (cw_store w'))"
  using assms(2-)
proof (induction leases arbitrary: report w)
  case (Cons l leases)
  obtain r w1 where r: "release_lease C ops H (cn_lease_id l) Expiry now w = Some (r, w1)"
    using Cons.prems(3) by (auto split: option.splits)
  have one: "ok (cw_store w1)" "P (view (cw_store w1))"
    using release_preserves [of P, OF assms(1) Cons.prems(1,2) r] by auto
  show ?case
  proof (cases r)
    case (Inl e)
    then show ?thesis using Cons.prems(3) r one Cons.IH by auto
  next
    case (Inr receipt)
    note publish_release_law [OF one(1), of _ C R receipt Expiry now, OF refl]
    then show ?thesis using Cons.prems(3) r one Inr Cons.IH by auto
  qed
qed simp

lemma containment_sweep_preserves:
  assumes "close_stable P"
    and "ok (cw_store w)" "P (view (cw_store w))" "sweep_expired C R ops H now w = Some (report, w')"
  shows "ok (cw_store w') \<and> P (view (cw_store w'))"
proof -
  obtain q s where q: "store_expired ops now (cw_store w) = (q, s)" by fastforce
  note law = expired_law [OF assms(2) q]
  show ?thesis
  proof (cases q)
    case (Inl e)
    then show ?thesis using assms(3,4) q law by (auto simp: sweep_expired_def)
  next
    case (Inr leases)
    have "sweep_loop C R ops H leases now \<lparr>cp_expired = length leases, cp_receipts = [], cp_failures = []\<rparr>
        (w\<lparr>cw_store := s\<rparr>) = Some (report, w')"
      using assms(4) q Inr by (simp add: sweep_expired_def)
    from sweep_loop_preserves [of P, OF assms(1) _ _ this] show ?thesis using law assms(3) by simp
  qed
qed

end

section \<open>Any number of leases, releases and sweeps\<close>

datatype containment_op =
    COpen string response_action string "string option" rehearsal_preview i64 containment_ttl
  | CRelease string i64
  | CSweep i64

text \<open>One operation; the ids of the leases that were opened are collected.\<close>

fun containment_step ::
  "crypto_lib \<Rightarrow> attestation_reader \<Rightarrow> 's store_ops \<Rightarrow> 'x hosts \<Rightarrow> containment_op \<Rightarrow>
   ('s, 'x, 't) containment_sweep \<times> string list \<Rightarrow>
   (('s, 'x, 't) containment_sweep \<times> string list) option" where
  "containment_step C R ops H (COpen i action origin governance preview issued ttl) (w, opened) =
     (case lease_open i action origin governance preview issued ttl of
        Inl _ \<Rightarrow> Some (w, opened)
      | Inr lease \<Rightarrow>
        (case so_open_lease ops lease (cw_store w) of
           (Inl _, s) \<Rightarrow> Some (w\<lparr>cw_store := s\<rparr>, opened)
         | (Inr _, s) \<Rightarrow> Some (w\<lparr>cw_store := s\<rparr>, i # opened)))"
| "containment_step C R ops H (CRelease i now) (w, opened) =
     map_option (\<lambda>(_, w). (w, opened)) (sweep_release C R ops H i now w)"
| "containment_step C R ops H (CSweep now) (w, opened) =
     map_option (\<lambda>(_, w). (w, opened)) (sweep_expired C R ops H now w)"

primrec containment_run ::
  "crypto_lib \<Rightarrow> attestation_reader \<Rightarrow> 's store_ops \<Rightarrow> 'x hosts \<Rightarrow> containment_op list \<Rightarrow>
   ('s, 'x, 't) containment_sweep \<times> string list \<Rightarrow>
   (('s, 'x, 't) containment_sweep \<times> string list) option" where
  "containment_run C R ops H [] q = Some q"
| "containment_run C R ops H (op # rest) q =
     Option.bind (containment_step C R ops H op q) (containment_run C R ops H rest)"

text \<open>Every lease that was opened is open, or closed by one receipt.\<close>

definition conserved :: "string list \<Rightarrow> store_view \<Rightarrow> bool" where
  "conserved opened v \<longleftrightarrow> (\<forall>i. count_list opened i =
     count_list (map rk_lease_id (snd v)) i + (if fst v i = None then 0 else 1))"

lemma conserved_close: "close_stable (conserved opened)"
  by (auto simp: close_stable_def conserved_def closed_by_def)

lemma conserved_open:
  "conserved opened v \<Longrightarrow> fst v i = None \<Longrightarrow> conserved (i # opened) ((fst v)(i \<mapsto> lease), snd v)"
  by (auto simp: conserved_def)

context containment_store
begin

lemma containment_step_law:
  assumes "ok (cw_store w)" "conserved opened (view (cw_store w))"
    and "containment_step C R ops H op (w, opened) = Some (w', opened')"
  shows "ok (cw_store w') \<and> conserved opened' (view (cw_store w'))"
proof (cases op)
  case (COpen i action origin governance preview issued ttl)
  show ?thesis
  proof (cases "lease_open i action origin governance preview issued ttl")
    case (Inl e)
    then show ?thesis using assms COpen by simp
  next
    case (Inr lease)
    obtain r s where r: "so_open_lease ops lease (cw_store w) = (r, s)" by fastforce
    have i: "cn_lease_id lease = i" using Inr by (auto simp: lease_open_def Let_def split: if_splits)
    show ?thesis
      using open_law [OF assms(1) lease_open_bounded [OF Inr] r] assms COpen Inr r i conserved_open [OF assms(2)]
      by (cases r) auto
  qed
next
  case (CRelease i now)
  obtain r w1 where r: "release_lease C ops H i Manual now w = Some (r, w1)"
    using assms(3) CRelease by (auto simp: sweep_release_def split: option.splits)
  have one: "ok (cw_store w1)" "conserved opened (view (cw_store w1))"
    using release_preserves [of "conserved opened", OF conserved_close assms(1,2) r] by auto
  show ?thesis
  proof (cases r)
    case (Inl e)
    then show ?thesis using assms(3) CRelease r one by (auto simp: sweep_release_def)
  next
    case (Inr receipt)
    note publish_release_law [OF one(1), of _ C R receipt Manual now, OF refl]
    then show ?thesis using assms(3) CRelease r one Inr by (auto simp: sweep_release_def)
  qed
next
  case (CSweep now)
  then obtain report where "sweep_expired C R ops H now w = Some (report, w')" "opened' = opened"
    using assms(3) by auto
  then show ?thesis using containment_sweep_preserves [of "conserved opened", OF conserved_close assms(1,2)] by blast
qed

lemma containment_run_law:
  assumes "ok (cw_store w)" "conserved opened (view (cw_store w))"
    and "containment_run C R ops H os (w, opened) = Some (w', opened')"
  shows "ok (cw_store w') \<and> conserved opened' (view (cw_store w'))"
  using assms
proof (induction os arbitrary: w opened)
  case (Cons op os)
  obtain w1 opened1 where "containment_step C R ops H op (w, opened) = Some (w1, opened1)"
    "containment_run C R ops H os (w1, opened1) = Some (w', opened')"
    using Cons.prems(3) by (auto simp: Option.bind_eq_Some_conv)
  then show ?case using Cons.IH containment_step_law [OF Cons.prems(1,2)] by blast
qed simp

end

section \<open>Attested releases verify\<close>

lemma rollback_receipt_float_free: "rk_governance_attestation r = None \<Longrightarrow> float_free (rollback_receipt_json r)"
  by (auto simp: rollback_receipt_json_def step_outcome_json_def json_opt_def json_some_def json_int_def list_all_iff
      split: option.splits)

lemma attest_verifies:
  assumes "crypto_laws C" "state_ok C (gp_state p)" "gp_transport p = solo_governor_ops"
    and "gs_local_governor (gp_state p) = Some k" "gs_peer_governors (gp_state p) = {}"
    and "\<And>r. R (governance_receipt_json r) = Inr r" "rk_governance_attestation receipt = None"
  shows "\<exists>receipt' p' a. attest_release_receipt C (Some p) receipt now = Some (receipt', Some p') \<and>
    verify_release_attestation C R receipt' = Inr a \<and> gr_issued_at_ms (rcpt_payload a) = now \<and>
    gr_decision (rcpt_payload a) = Approve"
proof -
  let ?subject = "rollback_receipt_json (release_subject receipt)" and ?s = "gp_state p"
  have float: "float_free ?subject" by (rule rollback_receipt_float_free) (simp add: release_subject_def)
  then obtain bs where bs: "canonical_json_bytes C ?subject = Inr bs"
    using canonical_bytes_total [of ?subject C] by (auto simp: canonical_bytes_def split: sum.splits)
  have ok: "governor_ok C (gs_local_governor ?s) (gs_peer_governors ?s)" using assms(2) by (simp add: state_ok_def)
  obtain r s' t' where run: "run_governance_round C solo_governor_ops ?s (gp_transport_state p)
      \<lparr>prop_id = sha256_hex C bs, prop_payload = ?subject\<rparr> Approve now = Some (Inr r, s', t')"
    and id: "gr_proposal_id (rcpt_payload r) = sha256_hex C bs"
    using solo_round [OF assms(1) ok assms(4,5), of "\<lparr>prop_id = sha256_hex C bs, prop_payload = ?subject\<rparr>"
        "gp_transport_state p" Approve now] float
    by auto
  let ?receipt = "receipt\<lparr>rk_governance_attestation := Some (governance_receipt_json r)\<rparr>"
  have "attest_release_receipt C (Some p) receipt now =
      Some (?receipt, Some (p\<lparr>gp_state := s', gp_transport_state := t'\<rparr>))"
    using assms(3,4) bs run by (simp add: attest_release_receipt_def authority_attest_def attest_release_def Let_def)
  moreover have "verify_release_attestation C R ?receipt = Inr r"
    using round_receipt_ok [OF assms(1) ok run] assms(6) id bs
    by (auto simp: verify_release_attestation_def release_subject_id_def release_subject_def receipt_ok_def Let_def)
  ultimately show ?thesis using round_receipt_ok [OF assms(1) ok run] by (auto simp: receipt_ok_def)
qed

end
