(* ===== verification/Containment.thy ===== *)
theory Containment
  imports Containment_Lifecycle Governance_Staging
begin

text \<open>
  What the containment lane promises: the plan of a lease can be undone, no lease is lost, the
  sweep gets to every expired lease, and an attested release verifies.
\<close>

section \<open>A sample lease and its store\<close>

definition sample_host_request :: action_request where
  "sample_host_request =
     \<lparr>ar_hunt_id = HuntId ''hunt-1'', ar_requested_by = AgentId ''agent-1'',
      ar_action = IsolateHost ''host-1'', ar_severity = High, ar_evidence = JObject []\<rparr>"

definition sample_plan :: rehearsal_preview where
  "sample_plan = projr (build_rehearsal_preview sample_host_request ''bundle'' 10)"

definition sample_op :: containment_op where
  "sample_op = COpen ''lease-1'' (IsolateHost ''host-1'') ''receipt-1'' None sample_plan 10 (ContainmentTtl 5)"

definition sample_containment :: containment_lease where
  "sample_containment =
     projr (lease_open ''lease-1'' (IsolateHost ''host-1'') ''receipt-1'' None sample_plan 10 (ContainmentTtl 5))"

text \<open>Hosts that rehearse every inverse, with a clock that stands still.\<close>

definition sandbox_hosts :: "unit hosts" where
  "sandbox_hosts = \<lparr>ho_rollback = (\<lambda>lease trigger mode t x. (sandbox_rollback lease trigger mode t, x)),
     ho_now_ms = (\<lambda>x. (20, x))\<rparr>"

lemma sandbox_hosts_law: "hosts_law sandbox_hosts"
  by (auto simp: hosts_law_def sandbox_hosts_def sandbox_rollback_def from_steps_def Let_def split: sum.splits)

text \<open>A codec for the documents of a list: a document is the number of its state, in unary.\<close>

definition listed_codec :: "persisted_record list \<Rightarrow> containment_codec" where
  "listed_codec rs =
     \<lparr>cc_write = (\<lambda>r. case position (\<lambda>x. x = r) rs of None \<Rightarrow> Inl ''not listed'' | Some n \<Rightarrow> Inr (replicate n CHR ''x'')),
      cc_read = (\<lambda>b. if length b < length rs then Inr (rs ! length b) else Inl ''not listed'')\<rparr>"

lemma listed_codec_ok: "containment_codec_ok (listed_codec rs)"
  by (auto simp: containment_codec_ok_def listed_codec_def split: option.splits dest!: position_Some)

definition sample_receipt :: rollback_receipt where
  "sample_receipt = projr (sandbox_rollback sample_containment Expiry DryRun 15)"

definition sample_lease_codec :: containment_codec where
  "sample_lease_codec = listed_codec [([(''lease-1'', lease_to_record sample_containment)], []),
     ([], [sample_receipt])]"

definition empty_file :: "string option list \<Rightarrow> file_containment_store" where
  "empty_file answers = \<lparr>fc_document = None, fc_seen = [], fc_answers = answers\<rparr>"

definition new_sweep :: "'s \<Rightarrow> 'x \<Rightarrow> execution_mode \<Rightarrow> 't governance_policy option \<Rightarrow>
   release_event list option \<Rightarrow> ('s, 'x, 't) containment_sweep" where
  "new_sweep s x mode governance events =
     \<lparr>cw_store = s, cw_hosts = x, cw_mode = mode, cw_governance = governance, cw_events = events\<rparr>"

lemma absent_file_ok:
  "containment_codec_ok K \<Longrightarrow> fc_document s = None \<Longrightarrow> lookups_answer s \<Longrightarrow> file_ok K s"
  by (simp add: file_ok_def on_disk_def containment_file_default_def containment_file_ok_def)

lemma absent_file_view: "fc_document s = None \<Longrightarrow> file_view K s = (\<lambda>_. None, [])"
  by (simp add: file_view_def on_disk_def containment_file_default_def fun_eq_iff)

lemma empty_file_ok: "containment_codec_ok K \<Longrightarrow> file_ok K (empty_file answers)"
  by (simp add: empty_file_def absent_file_ok lookups_answer_def)

section \<open>Properties\<close>

text \<open>
  C40. Rehearsal: every action that passes request validation has a rehearsal preview, and the plan
  of a containment has exactly one step, which resolves to an inverse on the very target of the
  action unless the action terminates a session.
\<close>

theorem validated_containment_reversible:
  "(\<exists>preview. build_rehearsal_preview request bundle t = Inr preview \<and>
      (if is_containment_action (ar_action request)
       then \<exists>step. rp_steps (rh_rollback preview) = [step] \<and>
         (isl (resolve_inverse (ar_action request) (rs_kind step)) \<longleftrightarrow>
            kind (ar_action request) = ''terminate_user_session'')
       else True)) \<longleftrightarrow>
   validate_action (ar_action request) = None"
proof -
  have session: "(\<exists>h s. a = TerminateUserSession h s) \<longleftrightarrow> kind a = ''terminate_user_session''" for a
    by (cases a) auto
  show ?thesis
    using preview_arms_validated [of "ar_action request"] rehearsed_plan_steps [of "ar_action request"]
    by (cases "preview_arms (ar_action request)") (auto simp: build_rehearsal_preview_def session)
qed

text \<open>
  C12. No containment is lost while lookups answer: over any sequence of openings, manual releases and sweeps
  on a file store with no document yet, with any failing reads and writes, any executor and any governance
  policy, the number of leases opened under an id is the number of receipts that closed it, plus one if it
  is open. The hypothesis \<open>lookups_answer\<close> says that \<^verbatim>\<open>Path::exists\<close> never takes a document that is there for
  absent, as it does when the lookup itself fails; \<open>unseen_document_replaced\<close> shows that leases are lost then.
\<close>

theorem no_containment_lost:
  assumes "containment_codec_ok K" "fc_document s = None" "lookups_answer s"
    and "containment_run C R (lease_file_ops K) H ops (new_sweep s x mode governance events, []) = Some (w, opened)"
  shows "count_list opened i = count_list (map rk_lease_id (snd (file_view K (cw_store w)))) i +
    (if fst (file_view K (cw_store w)) i = None then 0 else 1)"
  using lease_file.containment_run_law [OF _ _ assms(4)] absent_file_ok [OF assms(1-3)]
    absent_file_view [OF assms(2), of K]
  by (simp add: new_sweep_def conserved_def)

abbreviation leased_file :: file_containment_store where
  "leased_file \<equiv> \<lparr>fc_document = Some [], fc_seen = [], fc_answers = []\<rparr>"

abbreviation released_file :: file_containment_store where
  "released_file \<equiv> \<lparr>fc_document = Some ''x'', fc_seen = [], fc_answers = []\<rparr>"


abbreviation sample_world :: "file_containment_store \<Rightarrow> (file_containment_store, unit, unit) containment_sweep" where
  "sample_world s \<equiv> new_sweep s () DryRun None None"

lemma sample_opened:
  "lease_open ''lease-1'' (IsolateHost ''host-1'') ''receipt-1'' None sample_plan 10 (ContainmentTtl 5) = Inr sample_containment"
  by code_simp

lemma sample_open_lease:
  "fc_open_lease sample_lease_codec sample_containment (empty_file []) = (Inr (), leased_file)"
  by code_simp

lemma sample_open_leases:
  "fc_open_leases sample_lease_codec leased_file = (Inr [sample_containment], leased_file)"
  by code_simp

lemma sample_get:
  "fc_get sample_lease_codec ''lease-1'' leased_file = (Inr (Some sample_containment), leased_file)"
  by code_simp

lemma sample_rollback:
  "sandbox_rollback sample_containment Expiry DryRun 15 = Inr sample_receipt"
  by code_simp

lemma sample_landed:
  "\<not> attempt_failed sample_receipt"
  by code_simp

lemma sample_containment_id:
  "cn_lease_id sample_containment = ''lease-1''"
  by code_simp

lemma sample_expired:
  "lease_is_expired sample_containment 15"
  by code_simp

lemma sample_close:
  "fc_close sample_lease_codec sample_receipt leased_file = (Inr (), released_file)"
  by code_simp

lemmas sample_calls = sample_opened sample_open_lease sample_open_leases sample_get sample_rollback
  sample_landed sample_containment_id sample_expired sample_close

lemma sample_step:
  "containment_step model_crypto (\<lambda>_. Inl []) (lease_file_ops sample_lease_codec) sandbox_hosts sample_op
     (sample_world (empty_file []), []) = Some (sample_world leased_file, [''lease-1''])"
  by (simp add: sample_op_def sample_calls lease_file_ops_def new_sweep_def)

lemma sample_lease_sweep:
  "sweep_expired model_crypto (\<lambda>_. Inl []) (lease_file_ops sample_lease_codec) sandbox_hosts 15 (sample_world leased_file) =
     Some (\<lparr>cp_expired = 1, cp_receipts = [sample_receipt], cp_failures = []\<rparr>, sample_world released_file)"
  by (simp add: sweep_expired_def store_expired_def release_lease_def publish_release_def new_sweep_def
      lease_file_ops_def sandbox_hosts_def attest_release_receipt_def sample_calls)

theorem no_containment_lost_witness:
  "map rk_lease_id (snd (file_view sample_lease_codec released_file)) = [''lease-1''] \<and>
   fst (file_view sample_lease_codec released_file) ''lease-1'' = None"
proof -
  have run: "containment_run model_crypto (\<lambda>_. Inl []) (lease_file_ops sample_lease_codec) sandbox_hosts [sample_op, CSweep 15]
      (sample_world (empty_file []), []) = Some (sample_world released_file, [''lease-1''])"
    by (simp add: sample_step sample_lease_sweep)
  have "map rk_lease_id (snd (file_view sample_lease_codec released_file)) = [''lease-1'']" by code_simp
  then show ?thesis
    using no_containment_lost [OF _ _ _ run, of "''lease-1''"] listed_codec_ok
    by (simp add: sample_lease_codec_def new_sweep_def empty_file_def lookups_answer_def split: if_splits)
qed

text \<open>
  C24. The sweep accounts for every lease, or says that it could not list them: when the report is the single
  failure of the store, nothing changed; otherwise a lease that has not expired stays as it was, and an expired
  one is closed against a receipt of the report, or is still open and the report has a failed attempt or
  an error for it. The store's document is intact and its lookups answer (\<open>file_ok\<close>).
\<close>

theorem sweep_accounts_for_expired:
  assumes "file_ok K (cw_store w)" "hosts_law H" "sweep_expired C R (lease_file_ops K) H now w = Some (report, w')"
    and "fst (file_view K (cw_store w)) (cn_lease_id l) = Some l"
  shows "(\<exists>e. cp_failures report = [(''<store>'', e)]) \<and> file_view K (cw_store w') = file_view K (cw_store w) \<or>
    (if lease_is_expired l now
     then fst (file_view K (cw_store w')) (cn_lease_id l) = None \<and>
            (\<exists>r \<in> set (cp_receipts report) \<inter> set (snd (file_view K (cw_store w'))).
               rk_lease_id r = cn_lease_id l \<and> \<not> attempt_failed r) \<or>
          fst (file_view K (cw_store w')) (cn_lease_id l) = Some l \<and>
            (cn_lease_id l \<in> fst ` set (cp_failures report) \<or>
             (\<exists>r \<in> set (cp_receipts report). rk_lease_id r = cn_lease_id l \<and> attempt_failed r))
     else fst (file_view K (cw_store w')) (cn_lease_id l) = Some l)"
  using lease_file.containment_sweep_law [OF assms(1-3), THEN conjunct2]
proof (elim disjE exE conjE)
  fix leases
  assume leases: "\<forall>l. l \<in> set leases \<longleftrightarrow>
      fst (file_view K (cw_store w)) (cn_lease_id l) = Some l \<and> lease_is_expired l now"
    and all: "sweep_accounts leases (file_view K (cw_store w)) (file_view K (cw_store w')) report"
  show ?thesis
  proof (cases "lease_is_expired l now")
    case True
    then have "accounted l (file_view K (cw_store w')) report"
      using leases assms(4) all by (auto simp: sweep_accounts_def)
    then show ?thesis using True by (auto simp: accounted_def)
  next
    case False
    have "cn_lease_id l \<notin> cn_lease_id ` set leases"
    proof
      assume "cn_lease_id l \<in> cn_lease_id ` set leases"
      then obtain l' where "l' \<in> set leases" "cn_lease_id l' = cn_lease_id l" by auto
      then show False using leases assms(4) False by simp
    qed
    then show ?thesis using all assms(4) False by (simp add: sweep_accounts_def)
  qed
qed blast

theorem sweep_accounts_for_expired_witness:
  "lease_is_expired sample_containment 15 \<and> fst (file_view sample_lease_codec released_file) ''lease-1'' = None"
proof -
  have "file_ok sample_lease_codec leased_file"
    using conjunct1 [OF file_open_law [OF empty_file_ok lease_open_bounded [OF sample_calls(1)] sample_calls(2)]]
      listed_codec_ok by (simp add: sample_lease_codec_def)
  moreover have "fst (file_view sample_lease_codec leased_file) ''lease-1'' = Some sample_containment"
    "fst (file_view sample_lease_codec released_file) ''lease-1'' \<noteq> Some sample_containment"
    by code_simp+
  ultimately show ?thesis
    using sweep_accounts_for_expired [OF _ sandbox_hosts_law sample_lease_sweep, of sample_containment] sample_calls(7,8)
    by (simp add: new_sweep_def)
qed

text \<open>
  An attested release verifies: when the governor is alone in its committee, every release that
  closes its lease stores a receipt whose attestation passes verification, states approval and
  carries the host's clock.
\<close>

theorem attested_release_verifies:
  assumes "crypto_laws C" "state_ok C (gp_state p)" "gp_transport p = solo_governor_ops"
    and "gs_local_governor (gp_state p) \<noteq> None" "gs_peer_governors (gp_state p) = {}"
    and "\<And>r. R (governance_receipt_json r) = Inr r" "hosts_law H" "\<And>x. fst (ho_now_ms H x) = host_clock"
    and "file_ok K (cw_store w)" "cw_governance w = Some p"
    and "release_lease C (lease_file_ops K) H i trigger now w = Some (Inr receipt, w')" "\<not> attempt_failed receipt"
  shows "receipt \<in> set (snd (file_view K (cw_store w'))) \<and>
    (\<exists>a. verify_release_attestation C R receipt = Inr a \<and> gr_decision (rcpt_payload a) = Approve \<and>
       gr_issued_at_ms (rcpt_payload a) = host_clock)"
proof -
  have stored: "receipt \<in> set (snd (file_view K (cw_store w')))"
    using lease_file.release_lease_law [OF assms(9,11)] assms(12) by (simp add: closed_by_def)
  obtain k where k: "gs_local_governor (gp_state p) = Some k" using assms(4) by blast
  obtain lease x r0 x1 stamp x2 g where r0: "ho_rollback H lease trigger (cw_mode w) now x = (Inr r0, x1)"
    "ho_now_ms H x1 = (stamp, x2)" "attest_release_receipt C (Some p) r0 stamp = Some (receipt, g)"
    using assms(10,11,12)
    by (auto simp: release_lease_def Let_def split: prod.splits sum.splits option.splits if_splits)
  have "stamp = host_clock" using assms(8) [of x1] r0(2) by simp
  moreover have "rk_governance_attestation r0 = None" using hosts_lawD [OF assms(7) r0(1)] by blast
  ultimately show ?thesis
    using attest_verifies [OF assms(1-3) k assms(5,6), of r0 stamp] r0(3) stored by auto
qed

lemma governance_receipt_json_inj: "inj governance_receipt_json"
proof (rule injI)
  fix r r' :: governance_receipt assume eq: "governance_receipt_json r = governance_receipt_json r'"
  have str: "agent_str a = agent_str b \<longleftrightarrow> a = b" for a b by (cases a; cases b) simp
  have ids: "map agent_id_json xs = map agent_id_json ys \<longleftrightarrow> xs = ys" for xs ys :: "agent_id list"
    by (rule inj_map_eq_map) (auto simp: inj_def agent_id_json_def str)
  have int: "json_int i = json_int j \<longleftrightarrow> i = j" for i j by (auto simp: json_int_def)
  have dec: "decision_json a = decision_json b \<longleftrightarrow> a = b" for a b by (cases a; cases b) simp_all
  have "rcpt_payload r = rcpt_payload r'"
    using eq by (auto intro!: governance_receipt_payload.equality
        simp: governance_receipt_json_def receipt_payload_json_def json_nat_def ids int dec agent_id_json_def str)
  moreover have "rcpt_signature r = rcpt_signature r'"
    using eq by (auto intro!: detached_signature.equality simp: governance_receipt_json_def detached_signature_json_def)
  ultimately show "r = r'" by simp
qed

definition attesting_world :: "(file_containment_store, unit, solo_governor_transport) containment_sweep" where
  "attesting_world = new_sweep leased_file () DryRun (Some lone_policy) None"

lemma attested_store:
  assumes "K = listed_codec [([(''lease-1'', lease_to_record sample_containment)], []), ([], [receipt])]"
    and "rk_lease_id receipt = ''lease-1''"
  shows "file_ok K leased_file" "fc_get K ''lease-1'' leased_file = (Inr (Some sample_containment), leased_file)"
    "fc_close K receipt leased_file = (Inr (), released_file)"
proof -
  have parsed: "parse_document K [] = Inr \<lparr>ps_open = [(''lease-1'', sample_containment)], ps_closed = []\<rparr>"
    using lease_try_from_record [OF lease_open_bounded [OF sample_calls(1)]]
    by (simp add: assms(1) parse_document_def listed_codec_def)
  then have read: "fc_read K leased_file =
      (Inr \<lparr>ps_open = [(''lease-1'', sample_containment)], ps_closed = []\<rparr>, leased_file)"
    by (simp add: fc_read_def fc_exists_def fc_call_def)
  then show "fc_get K ''lease-1'' leased_file = (Inr (Some sample_containment), leased_file)"
    by (simp add: fc_get_def)
  show "fc_close K receipt leased_file = (Inr (), released_file)"
    using assms(2) read
    by (simp add: fc_close_def bt_retain_def fc_write_def fc_call_def)
      (simp add: assms(1) listed_codec_def fc_call_def)
  show "file_ok K leased_file"
    using parsed listed_codec_ok lease_open_bounded [OF sample_calls(1)] sample_calls(7)
    by (simp add: file_ok_def on_disk_def containment_file_ok_def bt_ok_def lookups_answer_def) (simp add: assms(1))
qed

theorem attested_release_verifies_witness:
  "\<exists>K receipt w' a. release_lease model_crypto (lease_file_ops K) sandbox_hosts ''lease-1'' Expiry 15 attesting_world =
      Some (Inr receipt, w') \<and>
     verify_release_attestation model_crypto (\<lambda>j. Inr (inv governance_receipt_json j)) receipt = Inr a"
proof -
  let ?R = "\<lambda>j. Inr (inv governance_receipt_json j)"
  have reader: "?R (governance_receipt_json r) = Inr r" for r by (simp add: governance_receipt_json_inj)
  have gov: "gs_local_governor (gp_state lone_policy) \<noteq> None" by (simp add: lone_policy_fields)
  have plain: "rk_governance_attestation sample_receipt = None" "rk_lease_id sample_receipt = ''lease-1''"
    by code_simp+
  obtain receipt p' where attested: "attest_release_receipt model_crypto (Some lone_policy) sample_receipt 20 = Some (receipt, Some p')"
    using attest_verifies [OF model_crypto_laws lone_policy_ok lone_policy_fields(5,1,2) reader plain(1), of 20] by blast
  note kept = attest_release_receipt_keeps [OF attested]
  let ?K = "listed_codec [([(''lease-1'', lease_to_record sample_containment)], []), ([], [receipt])]"
  note store = attested_store [OF refl, of receipt]
  have release: "release_lease model_crypto (lease_file_ops ?K) sandbox_hosts ''lease-1'' Expiry 15 attesting_world =
      Some (Inr receipt, attesting_world\<lparr>cw_store := released_file, cw_governance := Some p'\<rparr>)"
    using attested store(2,3) kept plain(2) sample_calls(5,6)
    by (simp add: release_lease_def attesting_world_def new_sweep_def lease_file_ops_def sandbox_hosts_def)
  have "\<not> attempt_failed receipt" using kept sample_calls(6) by (simp add: attempt_failed_def)
  then have "\<exists>a. verify_release_attestation model_crypto ?R receipt = Inr a"
    using attested_release_verifies [OF model_crypto_laws lone_policy_ok lone_policy_fields(5) gov
        lone_policy_fields(2) reader sandbox_hosts_law _ _ _ release, of 20] store(1) kept plain(2)
    by (simp add: sandbox_hosts_def attesting_world_def new_sweep_def) blast
  with release show ?thesis by blast
qed

end
