(* ===== verification/Guards.thy ===== *)
theory Guards
  imports Crypto "HOL-Library.Sublist"
begin

text \<open>
  The guard pipeline (\<^verbatim>\<open>crates/swarm-guard/src\<close>): the four guards, path normalisation and the
  pipeline that runs them in order. Globs, regular expressions, the lossy UTF-8 decoder and the
  JSON text of an action come from third-party crates: they are the record \<open>pattern_lib\<close>, in which
  a pattern that does not compile is \<open>None\<close>. A check that panics is \<open>None\<close>. What the pipeline does then depends
  on the build: with unwinding \<^verbatim>\<open>catch_unwind\<close> turns the panic into a block, under the release profile
  (\<^verbatim>\<open>panic = "abort"\<close>) the process ends and the pipeline has no result, \<open>None\<close>.
\<close>

section \<open>Outcomes\<close>

datatype guard_severity = GsInfo | GsWarning | GsError | GsCritical

record guard_result =
  gu_allowed :: bool
  gu_guard :: string
  gu_severity :: guard_severity
  gu_message :: string
  gu_details :: "json option"

definition guard_allow :: "string \<Rightarrow> guard_result" where
  "guard_allow name = \<lparr>gu_allowed = True, gu_guard = name, gu_severity = GsInfo, gu_message = ''Allowed'', gu_details = None\<rparr>"

definition guard_block :: "string \<Rightarrow> guard_severity \<Rightarrow> string \<Rightarrow> guard_result" where
  "guard_block name severity message =
     \<lparr>gu_allowed = False, gu_guard = name, gu_severity = severity, gu_message = message, gu_details = None\<rparr>"

definition guard_warn :: "string \<Rightarrow> string \<Rightarrow> guard_result" where
  "guard_warn name message =
     \<lparr>gu_allowed = True, gu_guard = name, gu_severity = GsWarning, gu_message = message, gu_details = None\<rparr>"

definition with_details :: "guard_result \<Rightarrow> json \<Rightarrow> guard_result" where
  "with_details r details = r\<lparr>gu_details := Some details\<rparr>"

record guard_context =
  gx_agent_id :: "string option"
  gx_metadata :: "json option"

datatype guard_action =
    FileAccess string
  | FileWrite string bytes
  | ShellCommand string
  | NetworkEgress string nat
  | GuardedResponse response_action

record guard =
  gd_name :: string
  gd_handles :: "guard_action \<Rightarrow> bool"
  gd_check :: "guard_action \<Rightarrow> guard_context \<Rightarrow> guard_result option"

section \<open>The pipeline\<close>

datatype panic_strategy = PanicUnwind | PanicAbort

fun pipeline_evaluate ::
  "panic_strategy \<Rightarrow> guard list \<Rightarrow> guard_action \<Rightarrow> guard_context \<Rightarrow> guard_result option" where
  "pipeline_evaluate panics [] action ctx = Some (guard_allow ''pipeline'')"
| "pipeline_evaluate panics (g # guards) action ctx =
     (if \<not> gd_handles g action then pipeline_evaluate panics guards action ctx
      else case gd_check g action ctx of
        None \<Rightarrow>
          (case panics of
             PanicAbort \<Rightarrow> None
           | PanicUnwind \<Rightarrow> Some (guard_block (gd_name g) GsCritical
               (''guard `'' @ gd_name g @ ''` panicked during evaluation'')))
      | Some result \<Rightarrow>
          if gu_guard result = []
          then Some (guard_block (gd_name g) GsCritical
                 (''guard `'' @ gd_name g @ ''` returned an invalid result''))
          else if \<not> gu_allowed result then Some result
          else pipeline_evaluate panics guards action ctx)"

section \<open>Path normalisation\<close>

text \<open>\<^verbatim>\<open>str::split\<close> on one character.\<close>

fun split_char :: "char \<Rightarrow> string \<Rightarrow> string list" where
  "split_char c [] = [[]]"
| "split_char c (x # xs) =
     (if x = c then [] # split_char c xs
      else case split_char c xs of [] \<Rightarrow> [[x]] | s # ss \<Rightarrow> (x # s) # ss)"

fun join_char :: "char \<Rightarrow> string list \<Rightarrow> string" where
  "join_char c [] = []"
| "join_char c [s] = s"
| "join_char c (s # ss) = s @ [c] @ join_char c ss"

text \<open>One segment; the last segment kept so far is the end of the list.\<close>

definition push_segment :: "bool \<Rightarrow> string list \<Rightarrow> string \<Rightarrow> string list" where
  "push_segment is_absolute segments segment =
     (if segment = [] \<or> segment = ''.'' then segments
      else if segment = ''..'' then
        if segments \<noteq> [] \<and> last segments \<noteq> ''..'' then butlast segments
        else if \<not> is_absolute then segments @ [segment] else segments
      else segments @ [segment])"

definition normalize_path_for_policy :: "string \<Rightarrow> string" where
  "normalize_path_for_policy path =
     (let path = map (\<lambda>c. if c = CHR 0x5C then CHR ''/'' else c) path;
          is_absolute = starts_with path ''/'';
          segments = foldl (push_segment is_absolute) [] (split_char CHR ''/'' path)
      in if is_absolute then if segments = [] then ''/'' else ''/'' @ join_char CHR ''/'' segments
         else if segments = [] then ''.'' else join_char CHR ''/'' segments)"

section \<open>The forbidden path guard\<close>

record pattern_lib =
  pl_glob :: "string \<Rightarrow> (string \<Rightarrow> bool) option"
  pl_regex :: "string \<Rightarrow> (string \<Rightarrow> (nat \<times> string) list) option"
  pl_lossy :: "bytes \<Rightarrow> string"
  pl_action_text :: "response_action \<Rightarrow> string option"

record forbidden_path_config =
  fp_enabled :: bool
  fp_patterns :: "string list option"
  fp_exceptions :: "string list"

definition default_forbidden_patterns :: "string list" where
  "default_forbidden_patterns =
     [''**/.ssh/**'', ''**/id_rsa*'', ''**/id_ed25519*'', ''**/id_ecdsa*'', ''**/.aws/**'', ''**/.env'',
      ''**/.env.*'', ''**/.git-credentials'', ''**/.gitconfig'', ''**/.gnupg/**'', ''**/.kube/**'',
      ''**/.docker/**'', ''**/.npmrc'', ''**/.password-store/**'', ''/etc/shadow'', ''/etc/passwd'',
      ''/etc/sudoers'']"

definition forbidden_path_config_default :: forbidden_path_config where
  "forbidden_path_config_default = \<lparr>fp_enabled = True, fp_patterns = None, fp_exceptions = []\<rparr>"

definition effective_patterns :: "forbidden_path_config \<Rightarrow> string list" where
  "effective_patterns config = (case fp_patterns config of None \<Rightarrow> default_forbidden_patterns | Some ps \<Rightarrow> ps)"

record forbidden_path_guard =
  fg_enabled :: bool
  fg_patterns :: "(string \<Rightarrow> bool) list"
  fg_exceptions :: "(string \<Rightarrow> bool) list"

definition forbidden_path_with_config :: "pattern_lib \<Rightarrow> forbidden_path_config \<Rightarrow> forbidden_path_guard" where
  "forbidden_path_with_config L config =
     \<lparr>fg_enabled = fp_enabled config,
      fg_patterns = List.map_filter (pl_glob L) (effective_patterns config),
      fg_exceptions = List.map_filter (pl_glob L) (fp_exceptions config)\<rparr>"

definition is_forbidden :: "forbidden_path_guard \<Rightarrow> string \<Rightarrow> bool" where
  "is_forbidden g path =
     (let normalized = normalize_path_for_policy path in
      if list_ex (\<lambda>exception. exception normalized) (fg_exceptions g) then False
      else list_ex (\<lambda>pattern. pattern normalized) (fg_patterns g))"

definition forbidden_path_check :: "forbidden_path_guard \<Rightarrow> guard_action \<Rightarrow> guard_result" where
  "forbidden_path_check g action =
     (let name = ''forbidden_path'';
          verdict = (\<lambda>path. if is_forbidden g path
            then with_details (guard_block name GsCritical (''access to forbidden path: '' @ path))
                   (JObject [(''path'', JString path), (''reason'', JString ''matches_forbidden_pattern'')])
            else guard_allow name)
      in if \<not> fg_enabled g then guard_allow name
         else case action of
           FileAccess path \<Rightarrow> verdict path | FileWrite path _ \<Rightarrow> verdict path | _ \<Rightarrow> guard_allow name)"

definition forbidden_path_handles :: "forbidden_path_guard \<Rightarrow> guard_action \<Rightarrow> bool" where
  "forbidden_path_handles g action \<longleftrightarrow> fg_enabled g \<and>
     (case action of FileAccess _ \<Rightarrow> True | FileWrite _ _ \<Rightarrow> True | _ \<Rightarrow> False)"

section \<open>The shell command guard\<close>

record shell_command_config =
  sc_enabled :: bool
  sc_forbidden_patterns :: "string list"
  sc_enforce_forbidden_paths :: bool

record shell_command_guard =
  sh_enabled :: bool
  sh_config :: shell_command_config
  sh_regexes :: "(string \<Rightarrow> (nat \<times> string) list) list"
  sh_forbidden_path :: forbidden_path_guard

definition shell_command_with_config ::
  "pattern_lib \<Rightarrow> shell_command_config \<Rightarrow> forbidden_path_config option \<Rightarrow> shell_command_guard" where
  "shell_command_with_config L config forbidden_path =
     \<lparr>sh_enabled = sc_enabled config, sh_config = config,
      sh_regexes = List.map_filter (pl_regex L) (sc_forbidden_patterns config),
      sh_forbidden_path = forbidden_path_with_config L
        (case forbidden_path of None \<Rightarrow> forbidden_path_config_default | Some c \<Rightarrow> c)\<rparr>"

text \<open>The tokens: the rest of the input, the quotes it is in, the current token, the tokens so far.\<close>

datatype quoting = Unquoted | SingleQuoted | DoubleQuoted

definition white_space_front :: "string \<Rightarrow> nat" where
  "white_space_front s = (case find (\<lambda>w. w \<noteq> [] \<and> starts_with s w) utf8_white_space of None \<Rightarrow> 0 | Some w \<Rightarrow> length w)"

function shlex_loop :: "string \<Rightarrow> quoting \<Rightarrow> string \<Rightarrow> string list \<Rightarrow> string list" where
  "shlex_loop [] q current tokens = (if current = [] then tokens else tokens @ [current])"
| "shlex_loop (c # cs) SingleQuoted current tokens =
     (if c = CHR 0x27 then shlex_loop cs Unquoted current tokens
      else shlex_loop cs SingleQuoted (current @ [c]) tokens)"
| "shlex_loop (c # cs) DoubleQuoted current tokens =
     (if c = CHR 0x22 then shlex_loop cs Unquoted current tokens
      else if c = CHR 0x5C then
        (case cs of [] \<Rightarrow> shlex_loop [] DoubleQuoted current tokens
         | n # cs' \<Rightarrow> shlex_loop cs' DoubleQuoted (current @ [n]) tokens)
      else shlex_loop cs DoubleQuoted (current @ [c]) tokens)"
| "shlex_loop (c # cs) Unquoted current tokens =
     (if c = CHR 0x27 then shlex_loop cs SingleQuoted current tokens
      else if c = CHR 0x22 then shlex_loop cs DoubleQuoted current tokens
      else if c = CHR 0x5C then
        (case cs of [] \<Rightarrow> shlex_loop [] Unquoted current tokens
         | n # cs' \<Rightarrow> shlex_loop cs' Unquoted (current @ [n]) tokens)
      else if white_space_front (c # cs) > 0 then
        shlex_loop (drop (white_space_front (c # cs)) (c # cs)) Unquoted []
          (if current = [] then tokens else tokens @ [current])
      else shlex_loop cs Unquoted (current @ [c]) tokens)"
  by pat_completeness auto
termination
  by (relation "measure (\<lambda>(s, uu). length s)") (auto simp: less_Suc_eq_le)

definition shlex_split_best_effort :: "string \<Rightarrow> string list" where
  "shlex_split_best_effort input = shlex_loop input Unquoted [] []"

definition is_redirection_op :: "string \<Rightarrow> bool" where
  "is_redirection_op token \<longleftrightarrow> token \<in> set [''>'', ''>>'', ''<'', ''1>'', ''1>>'', ''2>'', ''2>>'']"

definition split_inline_redirection :: "string \<Rightarrow> (string \<times> string) option" where
  "split_inline_redirection token =
     (let token = trim token in
      if token = [] then None
      else map_option (\<lambda>p. (p, drop (length p) token))
        (find (starts_with token) [''2>>'', ''1>>'', ''>>'', ''2>'', ''1>'', ''>'', ''<'']))"

definition is_ascii_alphabetic :: "char \<Rightarrow> bool" where
  "is_ascii_alphabetic c \<longleftrightarrow> c \<in> {CHR ''A''..CHR ''Z''} \<or> c \<in> {CHR ''a''..CHR ''z''}"

definition looks_like_path :: "string \<Rightarrow> bool" where
  "looks_like_path token =
     (let token = trim token in
      if token = [] \<or> sublist ''://'' token then False
      else if length token \<ge> 2 \<and> token ! 1 = CHR '':'' \<and> is_ascii_alphabetic (token ! 0) then True
      else if starts_with token [CHR 0x5C, CHR 0x5C] \<or> starts_with token ''//'' then True
      else starts_with token ''/'' \<or> starts_with token ''~'' \<or> starts_with token ''./''
        \<or> starts_with token ''../'' \<or> token = ''.env'' \<or> starts_with token ''.env.''
        \<or> sublist ''/.ssh/'' token \<or> sublist ''/.aws/'' token \<or> sublist ''/.gnupg/'' token)"

text \<open>ASCII white space as \<^verbatim>\<open>u8::is_ascii_whitespace\<close> has it, and the characters that end a path.\<close>

definition ends_windows_path :: "char \<Rightarrow> bool" where
  "ends_windows_path c \<longleftrightarrow>
     c \<in> {CHR 0x20, CHR 0x09, CHR 0x0A, CHR 0x0C, CHR 0x0D, CHR ''|'', CHR ''>'', CHR ''<''}"

function extract_windows_paths :: "string \<Rightarrow> string list" where
  "extract_windows_paths (b0 # b1 # b2 # rest) =
     (if b1 = CHR '':'' \<and> (b2 = CHR 0x5C \<or> b2 = CHR ''/'') \<and> is_ascii_alphabetic b0
      then (b0 # b1 # b2 # takeWhile (\<lambda>c. \<not> ends_windows_path c) rest)
             # extract_windows_paths (dropWhile (\<lambda>c. \<not> ends_windows_path c) rest)
      else extract_windows_paths (b1 # b2 # rest))"
| "extract_windows_paths [] = []"
| "extract_windows_paths [b0] = []"
| "extract_windows_paths [b0, b1] = []"
  by pat_completeness auto
termination
  by (relation "measure length") (auto simp: less_Suc_eq_le le_SucI length_dropWhile_le)

definition trim_matches :: "char set \<Rightarrow> string \<Rightarrow> string" where
  "trim_matches cs s = rev (dropWhile (\<lambda>c. c \<in> cs) (rev (dropWhile (\<lambda>c. c \<in> cs) s)))"

definition push_path_candidate :: "string \<Rightarrow> string list \<Rightarrow> string list" where
  "push_path_candidate raw out =
     (let cleaned = trim_matches
            {CHR 0x22, CHR 0x27, CHR '')'', CHR ''('', CHR '';'', CHR '','', CHR ''{'', CHR ''}''} (trim raw)
      in if cleaned = [] \<or> cleaned \<in> set out then out else out @ [cleaned])"

text \<open>One pass over the tokens. A redirection operator does not consume the token it looks at.\<close>

fun candidate_loop :: "string list \<Rightarrow> string list \<Rightarrow> string list" where
  "candidate_loop [] out = out"
| "candidate_loop (token # tokens) out =
     (if is_redirection_op token
      then candidate_loop tokens (case tokens of [] \<Rightarrow> out | n # _ \<Rightarrow> push_path_candidate n out)
      else case split_inline_redirection token of
        Some (_, rest) \<Rightarrow> candidate_loop tokens (if rest = [] then out else push_path_candidate rest out)
      | None \<Rightarrow>
          let out = (case split_once CHR ''='' token of
                Some (_, rhs) \<Rightarrow> if looks_like_path rhs then push_path_candidate rhs out else out
              | None \<Rightarrow> out)
          in candidate_loop tokens (if looks_like_path token then push_path_candidate token out else out))"

definition extract_candidate_paths :: "string \<Rightarrow> string list" where
  "extract_candidate_paths commandline =
     (let tokens = shlex_split_best_effort commandline in
      if tokens = [] then []
      else fold push_path_candidate (extract_windows_paths commandline) (candidate_loop tokens []))"

text \<open>\<^verbatim>\<open>replace("'|'", "|")\<close>\<close>

fun unquote_pipes :: "string \<Rightarrow> string" where
  "unquote_pipes (a # b # c # rest) =
     (if [a, b, c] = [CHR 0x27, CHR ''|'', CHR 0x27] then CHR ''|'' # unquote_pipes rest
      else a # unquote_pipes (b # c # rest))"
| "unquote_pipes s = s"

fun first_forbidden :: "nat \<Rightarrow> (string \<Rightarrow> (nat \<times> string) list) list \<Rightarrow> string \<Rightarrow> nat option" where
  "first_forbidden index [] s = None"
| "first_forbidden index (re # res) s = (if re s \<noteq> [] then Some index else first_forbidden (Suc index) res s)"

definition shell_command_check :: "shell_command_guard \<Rightarrow> guard_action \<Rightarrow> guard_result" where
  "shell_command_check g action =
     (let name = ''shell_command'' in
      if \<not> sh_enabled g then guard_allow name
      else case action of
        ShellCommand commandline \<Rightarrow>
          (case first_forbidden 0 (sh_regexes g) (unquote_pipes commandline) of
             Some index \<Rightarrow>
               (let patterns = sc_forbidden_patterns (sh_config g);
                    pattern = (if index < length patterns then patterns ! index else ''<unknown>'')
                in with_details (guard_block name GsCritical ''shell command matches forbidden pattern'')
                     (JObject [(''reason'', JString ''matches_forbidden_pattern''), (''pattern'', JString pattern)]))
           | None \<Rightarrow>
             (case (if sc_enforce_forbidden_paths (sh_config g)
                    then find (is_forbidden (sh_forbidden_path g)) (extract_candidate_paths commandline) else None) of
                Some path \<Rightarrow>
                  with_details (guard_block name GsCritical (''shell command touches forbidden path: '' @ path))
                    (JObject [(''reason'', JString ''touches_forbidden_path''), (''path'', JString path)])
              | None \<Rightarrow> guard_allow name))
      | _ \<Rightarrow> guard_allow name)"

definition shell_command_handles :: "shell_command_guard \<Rightarrow> guard_action \<Rightarrow> bool" where
  "shell_command_handles g action \<longleftrightarrow> sh_enabled g \<and> (case action of ShellCommand _ \<Rightarrow> True | _ \<Rightarrow> False)"

section \<open>The egress allowlist\<close>

datatype default_action = DefaultAllow | DefaultBlock

record egress_config =
  eg_enabled :: bool
  eg_allow :: "string list"
  eg_block :: "string list"
  eg_default_action :: default_action

definition default_allow :: "string list" where
  "default_allow = [''*.openai.com'', ''*.anthropic.com'', ''api.github.com'', ''registry.npmjs.org'',
     ''pypi.org'', ''crates.io'', ''static.crates.io'']"

definition egress_config_default :: egress_config where
  "egress_config_default =
     \<lparr>eg_enabled = True, eg_allow = default_allow, eg_block = [], eg_default_action = DefaultBlock\<rparr>"

definition ascii_lower :: "char \<Rightarrow> char" where
  "ascii_lower c = (if CHR ''A'' \<le> c \<and> c \<le> CHR ''Z'' then char_of (of_char c + (32 :: nat)) else c)"

definition to_ascii_lowercase :: "string \<Rightarrow> string" where
  "to_ascii_lowercase s = map ascii_lower s"

definition matches_domain :: "string \<Rightarrow> string \<Rightarrow> bool" where
  "matches_domain pattern domain =
     (let pattern = to_ascii_lowercase (trim pattern); domain = to_ascii_lowercase (trim domain) in
      if pattern = [] \<or> domain = [] then False
      else if starts_with pattern ''*.'' then suffix (''.'' @ drop 2 pattern) domain
      else pattern = domain)"

definition egress_is_allowed :: "egress_config \<Rightarrow> string \<Rightarrow> bool" where
  "egress_is_allowed config domain =
     (let domain = to_ascii_lowercase (trim domain) in
      if domain = [] then False
      else if list_ex (\<lambda>pattern. matches_domain pattern domain) (eg_block config) then False
      else if list_ex (\<lambda>pattern. matches_domain pattern domain) (eg_allow config) then True
      else eg_default_action config = DefaultAllow)"

definition egress_check :: "egress_config \<Rightarrow> guard_action \<Rightarrow> guard_result" where
  "egress_check config action =
     (let name = ''egress_allowlist'' in
      if \<not> eg_enabled config then guard_allow name
      else case action of
        NetworkEgress host port \<Rightarrow>
          if egress_is_allowed config host then guard_allow name
          else with_details (guard_block name GsError (''network destination not on allowlist: '' @ host))
                 (JObject [(''host'', JString host), (''port'', json_nat port)])
      | _ \<Rightarrow> guard_allow name)"

definition egress_handles :: "egress_config \<Rightarrow> guard_action \<Rightarrow> bool" where
  "egress_handles config action \<longleftrightarrow> eg_enabled config \<and> (case action of NetworkEgress _ _ \<Rightarrow> True | _ \<Rightarrow> False)"

section \<open>The secret leak guard\<close>

record secret_pattern =
  sp_name :: string
  sp_pattern :: string
  sp_severity :: guard_severity

record secret_leak_config =
  sl_enabled :: bool
  sl_redact :: bool
  sl_severity_threshold :: guard_severity
  sl_patterns :: "secret_pattern list"

record secret_match =
  sm_pattern_name :: string
  sm_severity :: guard_severity
  sm_offset :: usize
  sm_length :: usize
  sm_redacted :: string

fun guard_severity_rank :: "guard_severity \<Rightarrow> nat" where
  "guard_severity_rank GsInfo = 0"
| "guard_severity_rank GsWarning = 1"
| "guard_severity_rank GsError = 2"
| "guard_severity_rank GsCritical = 3"

text \<open>Slicing at a byte offset inside a character panics.\<close>

definition char_boundary :: "string \<Rightarrow> nat \<Rightarrow> bool" where
  "char_boundary s n \<longleftrightarrow> n = length s \<or> n < length s \<and> of_char (s ! n) div 64 \<noteq> (2 :: nat)"

definition mask_value :: "string \<Rightarrow> string option" where
  "mask_value value =
     (if length value \<le> 8 then Some (replicate (length value) CHR ''*'')
      else if char_boundary value 4 \<and> char_boundary value (length value - 4)
      then Some (take 4 value @ replicate (length value - 8) CHR ''*'' @ drop (length value - 4) value)
      else None)"

definition secret_match_of :: "secret_leak_config \<Rightarrow> secret_pattern \<Rightarrow> nat \<times> string \<Rightarrow> secret_match option" where
  "secret_match_of config pattern found =
     (case found of (start, matched) \<Rightarrow>
        map_option (\<lambda>redacted. \<lparr>sm_pattern_name = sp_name pattern, sm_severity = sp_severity pattern, sm_offset = start,
                     sm_length = length matched, sm_redacted = redacted\<rparr>)
          (if sl_redact config then mask_value matched else Some matched))"

text \<open>All matches, pattern by pattern; \<open>None\<close> when masking one of them panics.\<close>

definition scan :: "pattern_lib \<Rightarrow> secret_leak_config \<Rightarrow> bytes \<Rightarrow> secret_match list option" where
  "scan L config content =
     (let matches = concat (map (\<lambda>pattern.
            case pl_regex L (sp_pattern pattern) of
              None \<Rightarrow> [] | Some find_iter \<Rightarrow> map (secret_match_of config pattern) (find_iter (pl_lossy L content)))
            (sl_patterns config))
      in if None \<in> set matches then None else Some (map the matches))"

text \<open>\<^verbatim>\<open>max_by_key\<close> returns the last of the greatest.\<close>

fun max_severity :: "secret_match list \<Rightarrow> secret_match option" where
  "max_severity [] = None"
| "max_severity (m # ms) =
     (case max_severity ms of
        None \<Rightarrow> Some m
      | Some m' \<Rightarrow> if guard_severity_rank (sm_severity m) > guard_severity_rank (sm_severity m') then Some m else Some m')"

definition secret_leak_verdict :: "secret_leak_config \<Rightarrow> secret_match list \<Rightarrow> guard_result" where
  "secret_leak_verdict config matches =
     (let name = ''secret_leak'' in
      case max_severity matches of
        None \<Rightarrow> guard_allow name
      | Some highest \<Rightarrow>
          with_details
            (if guard_severity_rank (sm_severity highest) \<ge> guard_severity_rank (sl_severity_threshold config)
             then guard_block name (sm_severity highest) (''potential secret leak detected: '' @ sm_pattern_name highest)
             else guard_warn name (''low-severity secret pattern detected: '' @ sm_pattern_name highest))
            (JObject [(''pattern_name'', JString (sm_pattern_name highest)),
                      (''redacted'', JString (sm_redacted highest)), (''match_count'', json_nat (length matches))]))"

definition secret_leak_check :: "pattern_lib \<Rightarrow> secret_leak_config \<Rightarrow> guard_action \<Rightarrow> guard_result option" where
  "secret_leak_check L config action =
     (let name = ''secret_leak'' in
      if \<not> sl_enabled config then Some (guard_allow name)
      else case action of
        FileWrite _ content \<Rightarrow> map_option (secret_leak_verdict config) (scan L config content)
      | GuardedResponse response \<Rightarrow>
          map_option (secret_leak_verdict config)
            (scan L config (case pl_action_text L response of None \<Rightarrow> [] | Some text \<Rightarrow> text))
      | _ \<Rightarrow> Some (guard_allow name))"

definition secret_leak_handles :: "secret_leak_config \<Rightarrow> guard_action \<Rightarrow> bool" where
  "secret_leak_handles config action \<longleftrightarrow> sl_enabled config \<and>
     (case action of FileWrite _ _ \<Rightarrow> True | GuardedResponse _ \<Rightarrow> True | _ \<Rightarrow> False)"

section \<open>The four guards\<close>

definition four_guards ::
  "pattern_lib \<Rightarrow> forbidden_path_guard \<Rightarrow> shell_command_guard \<Rightarrow> secret_leak_config \<Rightarrow> egress_config \<Rightarrow> guard list" where
  "four_guards L fg sg config eg =
     [\<lparr>gd_name = ''forbidden_path'', gd_handles = forbidden_path_handles fg,
       gd_check = (\<lambda>action ctx. Some (forbidden_path_check fg action))\<rparr>,
      \<lparr>gd_name = ''shell_command'', gd_handles = shell_command_handles sg,
       gd_check = (\<lambda>action ctx. Some (shell_command_check sg action))\<rparr>,
      \<lparr>gd_name = ''secret_leak'', gd_handles = secret_leak_handles config,
       gd_check = (\<lambda>action ctx. secret_leak_check L config action)\<rparr>,
      \<lparr>gd_name = ''egress_allowlist'', gd_handles = egress_handles eg,
       gd_check = (\<lambda>action ctx. Some (egress_check eg action))\<rparr>]"

end
