(* ===== verification/Runtime_Lane.thy ===== *)
theory Runtime_Lane
  imports Configurable_Gate Guards Containment_Store Governance_Gate Journal_World
begin

text \<open>
  The response lane of the runtime (\<^verbatim>\<open>crates/swarm-runtime/src/lib.rs\<close>, \<^verbatim>\<open>SwarmRuntime\<close>, and
  \<^verbatim>\<open>crates/swarm-runtime/src/dispatch.rs\<close>): policy, guards, containment leases, the dispatch journal and
  the response executor composed into the entry points through which every response action passes.

  The parts the lane only calls are the fields of \<open>lane_env\<close>: the approval gate (the operations of
  \<^verbatim>\<open>trait ApprovalGate\<close>), the lease store, the executor (\<^verbatim>\<open>trait ResponseExecutor\<close>), serde's reader
  of governance receipts, and the journal's codec. What they change is part of the runtime's state: the
  gate's windows, the store, the world behind the executor, the journal handle and its directory. Calls
  are made one at a time. Logging and the elapsed times of the report are left out; \<^verbatim>\<open>Overflow\<close> of a gate is
  its abort, and \<open>RtAborted\<close>, which is no error of the source, is the end of the process in a guard that panics;
  the calls a run makes after it only add behaviours.
\<close>

section \<open>The runtime\<close>

datatype runtime_mode = DetectOnly | LiveResponse

datatype runtime_error =
    RtDispatchJournal journal_error
  | RtDispatchRefused string
  | RtApproval approval_error
  | RtGuardRejected string string
  | RtResponse response_error
  | RtContainmentRefused string string
  | RtContainmentLeaseNotRecorded string string string
  | RtAborted

fun approval_error_display :: "approval_error \<Rightarrow> string" where
  "approval_error_display (Denied reason) = ''policy denied action: '' @ reason"
| "approval_error_display (InvalidRequest reason) = ''invalid request: '' @ reason"
| "approval_error_display Overflow = ''attempt to add with overflow''"

fun runtime_error_display :: "runtime_error \<Rightarrow> string" where
  "runtime_error_display (RtDispatchJournal e) = journal_error_display e"
| "runtime_error_display (RtDispatchRefused reason) = ''dispatch refused: '' @ reason"
| "runtime_error_display (RtApproval e) = approval_error_display e"
| "runtime_error_display (RtGuardRejected guard_name reason) =
     ''guard rejected: '' @ guard_name @ '': '' @ reason"
| "runtime_error_display (RtResponse e) = response_error_display e"
| "runtime_error_display (RtContainmentRefused action reason) =
     ''containment `'' @ action @ ''` refused: '' @ reason"
| "runtime_error_display (RtContainmentLeaseNotRecorded action receipt_id reason) =
     ''containment `'' @ action @ ''` EXECUTED (receipt `'' @ receipt_id
     @ ''`) but its lease could not be recorded: '' @ reason
     @ ''. The containment is now unbounded and must be released manually.''"
| "runtime_error_display RtAborted = []"

record 'g gate_ops =
  ga_evaluate :: "'g \<Rightarrow> action_request \<Rightarrow> approval_context \<Rightarrow> (approval_error + policy_decision) \<times> 'g"
  ga_issue_lease :: "'g \<Rightarrow> action_request \<Rightarrow> approval_context \<Rightarrow> approval_error + capability_lease"

type_synonym 'x response_executor =
  "action_request \<Rightarrow> capability_lease \<Rightarrow> execution_mode \<Rightarrow> 'x \<Rightarrow>
   (response_error + response_receipt) \<times> 'x"

record ('g, 's, 'x) lane_env =
  en_crypto :: crypto_lib
  en_codec :: journal_codec
  en_receipt_of_json :: receipt_reader
  en_gate :: "'g gate_ops"
  en_store :: "'s store_ops"
  en_execute :: "'x response_executor"

record ('g, 's, 'x) swarm_runtime =
  ru_mode :: runtime_mode
  ru_policy :: 'g
  ru_response :: 'x
  ru_guard_pipeline :: "guard list option"
  ru_containment :: "('s \<times> containment_ttl) option"
  ru_dispatch_journal :: "dispatch_journal option"
  ru_directory :: directory

definition runtime_execution_mode :: "('g, 's, 'x) swarm_runtime \<Rightarrow> execution_mode" where
  "runtime_execution_mode rt = (case ru_mode rt of DetectOnly \<Rightarrow> DryRun | LiveResponse \<Rightarrow> Enforced)"

definition evaluate_guard_rejection ::
  "('g, 's, 'x) swarm_runtime \<Rightarrow> action_request \<Rightarrow> (string \<times> string) option option" where
  "evaluate_guard_rejection rt request =
     (case ru_guard_pipeline rt of
        None \<Rightarrow> Some None
      | Some pipeline \<Rightarrow>
        map_option (\<lambda>result. if gu_allowed result then None else Some (gu_guard result, gu_message result))
          (pipeline_evaluate PanicAbort pipeline (GuardedResponse (ar_action request))
              \<lparr>gx_agent_id = Some (agent_str (ar_requested_by request)),
               gx_metadata = Some (JObject [(''hunt_id'', JString (hunt_str (ar_hunt_id request))),
                                            (''severity'', severity_json (ar_severity request))])\<rparr>))"

section \<open>Governance receipts in the evidence\<close>

definition verified_governance_receipt ::
  "('g, 's, 'x) lane_env \<Rightarrow> action_request \<Rightarrow> (governance_receipt \<times> json) option" where
  "verified_governance_receipt E request =
     (case json_get (ar_evidence request) ''governance_receipt'' of
        None \<Rightarrow> None
      | Some receipt_value \<Rightarrow>
        (case en_receipt_of_json E receipt_value of
           Inl _ \<Rightarrow> None
         | Inr receipt \<Rightarrow>
           (case governance_receipt_verify (en_crypto E) receipt of
              Inl _ \<Rightarrow> None
            | Inr _ \<Rightarrow> Some (receipt, receipt_value))))"

definition decorate_receipt_with_governance ::
  "('g, 's, 'x) lane_env \<Rightarrow> response_receipt \<Rightarrow> action_request \<Rightarrow> string \<Rightarrow> response_receipt" where
  "decorate_receipt_with_governance E receipt request reason =
     (case verified_governance_receipt E request of
        None \<Rightarrow> receipt
      | Some (governance_receipt, receipt_value) \<Rightarrow>
          with_governance_audit receipt (gr_issued_by (rcpt_payload governance_receipt)) reason
            (Some receipt_value))"

text \<open>\<^verbatim>\<open>json!\<close> of an optional value: \<open>null\<close> when it is absent.\<close>

definition json_or_null :: "json option \<Rightarrow> json" where
  "json_or_null v = (case v of None \<Rightarrow> JNull | Some j \<Rightarrow> j)"

definition audit_governance_veto ::
  "('g, 's, 'x) lane_env \<Rightarrow> ('g, 's, 'x) swarm_runtime \<Rightarrow> detection_finding \<Rightarrow> action_request \<Rightarrow>
   approval_context \<Rightarrow> agent_id \<Rightarrow> string \<Rightarrow> audit_trail" where
  "audit_governance_veto E rt detection request ctx governing_agent_id reason =
     (let receipt = \<lparr>rr_receipt_id = ''veto:'' @ hunt_str (ar_hunt_id request) @ '':''
                       @ kind (ar_action request) @ '':'' @ dec_int (ac_now_ms ctx),
                     rr_action = kind (ar_action request), rr_mode = runtime_execution_mode rt,
                     rr_status = StatusFailed, rr_summary = ''governance veto: '' @ reason,
                     rr_details = JObject
                       [(''status'', JString ''vetoed''),
                        (''lineage'', json_or_null (json_get (ar_evidence request) ''lineage'')),
                        (''requested_by'', agent_id_json (ar_requested_by request)),
                        (''evidence'', ar_evidence request)],
                     rr_audit = receipt_audit_default\<rparr>;
          receipt = with_policy_audit receipt Deny ''governance.veto'' reason;
          receipt = with_governance_audit receipt governing_agent_id reason
                      (map_option snd (verified_governance_receipt E request))
      in \<lparr>at_trail_id = ''trail:'' @ hunt_str (ar_hunt_id request) @ '':'' @ dec_int (ac_now_ms ctx),
          at_hunt_id = hunt_str (ar_hunt_id request), at_related_receipt_ids = ac_receipt_chain ctx,
          at_detection = detection,
          at_policy = \<lparr>pr_verdict = Deny, pr_rule_name = ''governance.veto'', pr_reason = reason,
                       pr_lease = None\<rparr>,
          at_response = Failure (into_failure receipt), at_created_at_ms = ac_now_ms ctx\<rparr>)"

section \<open>Containment leases\<close>

record prepared_containment =
  pn_ttl :: containment_ttl
  pn_preview :: rehearsal_preview
  pn_issued_at_ms :: i64

definition prepare_containment ::
  "('g, 's, 'x) swarm_runtime \<Rightarrow> action_request \<Rightarrow> approval_context \<Rightarrow> execution_mode \<Rightarrow>
   runtime_error + prepared_containment option" where
  "prepare_containment rt request ctx mode =
     (if \<not> is_containment_action (ar_action request) then Inr None
      else if mode = DryRun then Inr None
      else case ru_containment rt of
        None \<Rightarrow> Inl (RtContainmentRefused (kind (ar_action request))
          (''no containment lease store is configured, so this containment could not be bounded ''
           @ ''or undone; attach one with `SwarmRuntime::with_containment_store`''))
      | Some (_, ttl) \<Rightarrow>
        (case build_rehearsal_preview request
                (''containment-lease:'' @ hunt_str (ar_hunt_id request)) (ac_now_ms ctx) of
           Inl e \<Rightarrow> Inl (RtContainmentRefused (kind (ar_action request))
                      (''its inverse plan could not be derived: '' @ preview_error_display e))
         | Inr preview \<Rightarrow>
             Inr (Some \<lparr>pn_ttl = ttl, pn_preview = preview, pn_issued_at_ms = ac_now_ms ctx\<rparr>)))"

definition containment_lease_id :: "action_request \<Rightarrow> string \<Rightarrow> string" where
  "containment_lease_id request receipt_id =
     ''containment:'' @ hunt_str (ar_hunt_id request) @ '':'' @ kind (ar_action request) @ '':'' @ receipt_id"

text \<open>The store of a prepared containment is the one the runtime holds.\<close>

definition record_containment_lease ::
  "('g, 's, 'x) lane_env \<Rightarrow> prepared_containment \<Rightarrow> action_request \<Rightarrow> response_receipt \<Rightarrow>
   ('g, 's, 'x) swarm_runtime \<Rightarrow> (runtime_error + unit) \<times> ('g, 's, 'x) swarm_runtime" where
  "record_containment_lease E prepared request receipt rt =
     (let not_recorded = (\<lambda>reason. RtContainmentLeaseNotRecorded (kind (ar_action request))
                                      (rr_receipt_id receipt) reason) in
      case lease_open (containment_lease_id request (rr_receipt_id receipt)) (ar_action request)
             (rr_receipt_id receipt)
             (map_option (\<lambda>(governance, _). gr_receipt_id (rcpt_payload governance))
                (verified_governance_receipt E request))
             (pn_preview prepared) (pn_issued_at_ms prepared) (pn_ttl prepared) of
        Inl e \<Rightarrow> (Inl (not_recorded (containment_lease_error_display e)), rt)
      | Inr lease \<Rightarrow>
        (case ru_containment rt of
           None \<Rightarrow> (Inr (), rt)
         | Some (s, ttl) \<Rightarrow>
           (case so_open_lease (en_store E) lease s of
              (Inl e, s) \<Rightarrow> (Inl (not_recorded (containment_store_error_display e)),
                             rt\<lparr>ru_containment := Some (s, ttl)\<rparr>)
            | (Inr _, s) \<Rightarrow> (Inr (), rt\<lparr>ru_containment := Some (s, ttl)\<rparr>))))"

section \<open>Dispatch\<close>

record dispatch_outcome =
  do_result :: "response_error + response_receipt"
  do_attempted :: bool
  do_completion_error :: "response_error option"

definition refused :: "action_request \<Rightarrow> execution_mode \<Rightarrow> string \<Rightarrow> bool \<Rightarrow> dispatch_outcome" where
  "refused request mode reason prior_reservation =
     \<lparr>do_result = Inl (execution_failed
         (''dispatch-refused:'' @ hunt_str (ar_hunt_id request) @ '':'' @ kind (ar_action request))
         (kind (ar_action request)) mode (''dispatch refused: '' @ reason)
         (JObject [(''status'', JString ''dispatch_refused''), (''response_attempted'', JBool False),
                   (''prior_reservation'', JBool prior_reservation), (''retry_permitted'', JBool False),
                   (''reason'', JString reason)])),
      do_attempted = False, do_completion_error = None\<rparr>"

definition unrecorded_completion ::
  "action_request \<Rightarrow> execution_mode \<Rightarrow> string \<Rightarrow> (response_error + response_receipt) \<Rightarrow> journal_error \<Rightarrow>
   response_error" where
  "unrecorded_completion request mode dispatch_id result error =
     execution_failed (''dispatch-unrecorded:'' @ dispatch_id) (kind (ar_action request)) mode
       (''response attempted but completion was not durably recorded: '' @ journal_error_display error)
       (JObject [(''status'', JString ''dispatch_outcome_unknown''),
                 (''dispatch_intent_id'', JString dispatch_id), (''response_attempted'', JBool True),
                 (''adapter_result'', adapter_result_json result), (''retry_permitted'', JBool False)])"

definition dispatch_once ::
  "('g, 's, 'x) lane_env \<Rightarrow> action_request \<Rightarrow> capability_lease \<Rightarrow> execution_mode \<Rightarrow> i64 \<Rightarrow>
   ('g, 's, 'x) swarm_runtime \<Rightarrow> dispatch_outcome \<times> ('g, 's, 'x) swarm_runtime" where
  "dispatch_once E request lease mode now_ms rt =
     (if mode = DryRun then
        (case en_execute E request lease mode (ru_response rt) of
           (result, x) \<Rightarrow> (\<lparr>do_result = result, do_attempted = True, do_completion_error = None\<rparr>,
                           rt\<lparr>ru_response := x\<rparr>))
      else case ru_dispatch_journal rt of
        None \<Rightarrow> (refused request mode ''durable dispatch journal is not configured'' False, rt)
      | Some journal \<Rightarrow>
        (case journal_reserve (en_crypto E) (en_codec E) journal request lease now_ms (ru_directory rt) of
           (Inl error, journal, d) \<Rightarrow>
             (refused request mode (journal_error_display error) (has_prior_reservation error),
              rt\<lparr>ru_dispatch_journal := Some journal, ru_directory := d\<rparr>)
         | (Inr dispatch_id, journal, d) \<Rightarrow>
           (case en_execute E request lease mode (ru_response rt) of
              (result, x) \<Rightarrow>
              (case journal_complete (en_crypto E) (en_codec E) journal dispatch_id result d of
                 (completed, journal, d) \<Rightarrow>
                   (\<lparr>do_result = result, do_attempted = True,
                     do_completion_error = (case completed of
                        Inl error \<Rightarrow> Some (unrecorded_completion request mode dispatch_id result error)
                      | Inr _ \<Rightarrow> None)\<rparr>,
                    rt\<lparr>ru_response := x, ru_dispatch_journal := Some journal, ru_directory := d\<rparr>)))))"

definition ensure_active_lease :: "capability_lease \<Rightarrow> i64 \<Rightarrow> approval_error + unit" where
  "ensure_active_lease lease now_ms =
     (if cl_expires_at_ms lease \<le> now_ms then Inl (Denied ''capability lease expired'') else Inr ())"

definition consensus_approved :: string where
  "consensus_approved = ''consensus approved response action''"

section \<open>The entry points\<close>

definition authorize_and_execute ::
  "('g, 's, 'x) lane_env \<Rightarrow> action_request \<Rightarrow> approval_context \<Rightarrow> ('g, 's, 'x) swarm_runtime \<Rightarrow>
   (runtime_error + response_receipt) \<times> ('g, 's, 'x) swarm_runtime" where
  "authorize_and_execute E request ctx rt =
     (case ga_evaluate (en_gate E) (ru_policy rt) request ctx of
        (Inl e, g) \<Rightarrow> (Inl (RtApproval e), rt\<lparr>ru_policy := g\<rparr>)
      | (Inr decision, g) \<Rightarrow>
        let rt = rt\<lparr>ru_policy := g\<rparr> in
        if pd_verdict decision = Deny \<or> pd_verdict decision = RequireHuman \<and> ru_mode rt = LiveResponse
        then (Inl (RtApproval (Denied (pd_reason decision))), rt)
        else case evaluate_guard_rejection rt request of
          None \<Rightarrow> (Inl RtAborted, rt)
        | Some (Some (guard_name, reason)) \<Rightarrow> (Inl (RtGuardRejected guard_name reason), rt)
        | Some None \<Rightarrow>
          (case prepare_containment rt request ctx (runtime_execution_mode rt) of
             Inl e \<Rightarrow> (Inl e, rt)
           | Inr prepared_containment \<Rightarrow>
             (case ga_issue_lease (en_gate E) (ru_policy rt) request ctx of
                Inl e \<Rightarrow> (Inl (RtApproval e), rt)
              | Inr lease \<Rightarrow>
                (case ensure_active_lease lease (ac_now_ms ctx) of
                   Inl e \<Rightarrow> (Inl (RtApproval e), rt)
                 | Inr _ \<Rightarrow>
                   (case dispatch_once E request lease (runtime_execution_mode rt) (ac_now_ms ctx) rt of
                      (dispatch, rt) \<Rightarrow>
                      (case do_result dispatch of
                         Inl error \<Rightarrow>
                           (Inl (RtResponse (case do_completion_error dispatch of
                                None \<Rightarrow> error | Some completion_error \<Rightarrow> completion_error)), rt)
                       | Inr receipt \<Rightarrow>
                         let receipt = with_policy_audit receipt (pd_verdict decision)
                                         (pd_rule_name decision) (pd_reason decision);
                             receipt = decorate_receipt_with_governance E receipt request consensus_approved
                         in if \<not> indicates_success (rr_status receipt)
                            then (Inl (RtResponse (case do_completion_error dispatch of
                                    None \<Rightarrow> \<lparr>re_failure = into_failure receipt\<rparr>
                                  | Some completion_error \<Rightarrow> completion_error)), rt)
                            else
                              (case (case prepared_containment of
                                       None \<Rightarrow> (Inr (), rt)
                                     | Some prepared \<Rightarrow> record_containment_lease E prepared request receipt rt) of
                                 (Inl e, rt) \<Rightarrow> (Inl e, rt)
                               | (Inr _, rt) \<Rightarrow>
                                 (case do_completion_error dispatch of
                                    Some error \<Rightarrow> (Inl (RtResponse error), rt)
                                  | None \<Rightarrow> (Inr receipt, rt)))))))))"

text \<open>The receipt of a lease that was not active.\<close>

definition lease_denied_receipt ::
  "('g, 's, 'x) lane_env \<Rightarrow> action_request \<Rightarrow> approval_context \<Rightarrow> policy_decision \<Rightarrow> capability_lease \<Rightarrow>
   execution_mode \<Rightarrow> string \<Rightarrow> response_receipt" where
  "lease_denied_receipt E request ctx decision lease mode reason =
     decorate_receipt_with_governance E
       (with_policy_audit
         \<lparr>rr_receipt_id = ''lease-denied:'' @ hunt_str (ar_hunt_id request) @ '':'' @ kind (ar_action request)
            @ '':'' @ dec_int (ac_now_ms ctx),
          rr_action = kind (ar_action request), rr_mode = mode, rr_status = StatusFailed,
          rr_summary = reason,
          rr_details = JObject
            [(''status'', JString ''lease_expired''), (''reason'', JString reason),
             (''lineage'', json_or_null (json_get (ar_evidence request) ''lineage'')),
             (''requested_by'', agent_id_json (ar_requested_by request)),
             (''lease'', JObject [(''capability_id'', JString (cl_capability_id lease)),
                                  (''expires_at_ms'', json_int (cl_expires_at_ms lease)),
                                  (''scope'', json_or_null (map_option JString (cl_scope lease)))]),
             (''evidence'', ar_evidence request)],
          rr_audit = receipt_audit_default\<rparr>
         (pd_verdict decision) (pd_rule_name decision) (pd_reason decision))
       request consensus_approved"

text \<open>What the trail says of the dispatch, before an unrecorded completion is projected onto it.\<close>

definition attribute_receipt ::
  "('g, 's, 'x) lane_env \<Rightarrow> action_request \<Rightarrow> policy_decision \<Rightarrow> operator_approval option \<Rightarrow>
   response_receipt \<Rightarrow> response_receipt" where
  "attribute_receipt E request decision approved_by receipt =
     (let receipt = with_policy_audit receipt (pd_verdict decision) (pd_rule_name decision)
                      (pd_reason decision);
          receipt = (case approved_by of
                       None \<Rightarrow> receipt | Some approval \<Rightarrow> with_operator_approval receipt approval)
      in decorate_receipt_with_governance E receipt request consensus_approved)"

definition lease_not_recorded_failure :: "response_receipt \<Rightarrow> runtime_error \<Rightarrow> response_failure" where
  "lease_not_recorded_failure receipt error =
     \<lparr>rf_receipt_id = rr_receipt_id receipt, rf_action = rr_action receipt, rf_mode = rr_mode receipt,
      rf_message = runtime_error_display error,
      rf_details = JObject [(''status'', JString ''containment_lease_not_recorded''),
                            (''containment_executed'', JBool True),
                            (''response_receipt'', rr_details receipt)]\<rparr>"

definition dispatched_response ::
  "('g, 's, 'x) lane_env \<Rightarrow> action_request \<Rightarrow> policy_decision \<Rightarrow> operator_approval option \<Rightarrow>
   prepared_containment option \<Rightarrow> (response_error + response_receipt) \<Rightarrow> ('g, 's, 'x) swarm_runtime \<Rightarrow>
   audit_response \<times> ('g, 's, 'x) swarm_runtime" where
  "dispatched_response E request decision approved_by prepared_containment result rt =
     (case result of
        Inl error \<Rightarrow> (Failure (re_failure error), rt)
      | Inr receipt \<Rightarrow>
        let attributed = attribute_receipt E request decision approved_by receipt in
        if \<not> indicates_success (rr_status receipt) then (Failure (into_failure attributed), rt)
        else case prepared_containment of
          None \<Rightarrow> (Success attributed, rt)
        | Some prepared \<Rightarrow>
          (case record_containment_lease E prepared request attributed rt of
             (Inl error, rt) \<Rightarrow> (Failure (lease_not_recorded_failure attributed error), rt)
           | (Inr _, rt) \<Rightarrow> (Success attributed, rt)))"

text \<open>The details of an unrecorded completion are an object.\<close>

definition project_completion :: "response_error option \<Rightarrow> audit_response \<Rightarrow> audit_response" where
  "project_completion completion_error response =
     (case completion_error of
        None \<Rightarrow> response
      | Some error \<Rightarrow>
          let failure = re_failure error in
          Failure (failure\<lparr>rf_details :=
            json_index_set (rf_details failure) ''runtime_response'' (audit_response_json response)\<rparr>))"

text \<open>The lease, the response, whether it was attempted and whether it succeeded.\<close>

type_synonym lane_stage = "capability_lease option \<times> audit_response \<times> bool \<times> bool"

definition execute_stage ::
  "('g, 's, 'x) lane_env \<Rightarrow> action_request \<Rightarrow> approval_context \<Rightarrow> policy_decision \<Rightarrow> execution_mode \<Rightarrow>
   operator_approval option \<Rightarrow> prepared_containment option \<Rightarrow> ('g, 's, 'x) swarm_runtime \<Rightarrow>
   (runtime_error + lane_stage) \<times> ('g, 's, 'x) swarm_runtime" where
  "execute_stage E request ctx decision mode approved_by prepared_containment rt =
     (case ga_issue_lease (en_gate E) (ru_policy rt) request ctx of
        Inl e \<Rightarrow> (Inl (RtApproval e), rt)
      | Inr lease \<Rightarrow>
        (case ensure_active_lease lease (ac_now_ms ctx) of
           Inr _ \<Rightarrow>
             (case dispatch_once E request lease mode (ac_now_ms ctx) rt of
                (dispatch, rt) \<Rightarrow>
                (case dispatched_response E request decision approved_by prepared_containment
                        (do_result dispatch) rt of
                   (response, rt) \<Rightarrow>
                   let response = project_completion (do_completion_error dispatch) response in
                   (Inr (Some lease, response, do_attempted dispatch,
                         (case response of Success _ \<Rightarrow> True | _ \<Rightarrow> False)), rt)))
         | Inl (Denied reason) \<Rightarrow>
             (Inr (Some lease, Failure (into_failure
                (lease_denied_receipt E request ctx decision lease mode reason)), False, False), rt)
         | Inl e \<Rightarrow> (Inl (RtApproval e), rt)))"

definition decided_stage ::
  "('g, 's, 'x) lane_env \<Rightarrow> action_request \<Rightarrow> approval_context \<Rightarrow> policy_decision \<Rightarrow> bool \<Rightarrow> execution_mode \<Rightarrow>
   operator_approval option \<Rightarrow> ('g, 's, 'x) swarm_runtime \<Rightarrow>
   (runtime_error + lane_stage) \<times> ('g, 's, 'x) swarm_runtime" where
  "decided_stage E request ctx decision allow_human_approved_execution mode approved_by rt =
     (if pd_verdict decision = Deny \<or>
         pd_verdict decision = RequireHuman \<and> ru_mode rt = LiveResponse \<and> \<not> allow_human_approved_execution
      then (Inr (None, Skipped (pd_reason decision), False, False), rt)
      else case evaluate_guard_rejection rt request of
        None \<Rightarrow> (Inl RtAborted, rt)
      | Some (Some (guard_name, reason)) \<Rightarrow> (Inr (None, GuardRejected guard_name reason, False, False), rt)
      | Some None \<Rightarrow>
        (case prepare_containment rt request ctx mode of
           Inl error \<Rightarrow> (Inr (None, Skipped (runtime_error_display error), False, False), rt)
         | Inr prepared_containment \<Rightarrow>
             execute_stage E request ctx decision mode approved_by prepared_containment rt))"

definition audit_internal ::
  "('g, 's, 'x) lane_env \<Rightarrow> detection_finding \<Rightarrow> action_request \<Rightarrow> approval_context \<Rightarrow> bool \<Rightarrow>
   execution_mode option \<Rightarrow> operator_approval option \<Rightarrow> ('g, 's, 'x) swarm_runtime \<Rightarrow>
   (runtime_error + execution_report) \<times> ('g, 's, 'x) swarm_runtime" where
  "audit_internal E detection request ctx allow_human_approved_execution mode_override approved_by rt =
     (case ga_evaluate (en_gate E) (ru_policy rt) request ctx of
        (Inl e, g) \<Rightarrow> (Inl (RtApproval e), rt\<lparr>ru_policy := g\<rparr>)
      | (Inr decision, g) \<Rightarrow>
        let rt = rt\<lparr>ru_policy := g\<rparr>;
            mode = (case mode_override of None \<Rightarrow> runtime_execution_mode rt | Some mode \<Rightarrow> mode)
        in case decided_stage E request ctx decision allow_human_approved_execution mode approved_by rt of
             (Inl e, rt) \<Rightarrow> (Inl e, rt)
           | (Inr (lease, response, attempted, succeeded), rt) \<Rightarrow>
               (Inr \<lparr>xr_audit =
                 \<lparr>at_trail_id = ''trail:'' @ hunt_str (ar_hunt_id request) @ '':'' @ dec_int (ac_now_ms ctx),
                  at_hunt_id = hunt_str (ar_hunt_id request),
                  at_related_receipt_ids = ac_receipt_chain ctx, at_detection = detection,
                  at_policy = \<lparr>pr_verdict = pd_verdict decision, pr_rule_name = pd_rule_name decision,
                               pr_reason = pd_reason decision, pr_lease = lease\<rparr>,
                  at_response = response, at_created_at_ms = ac_now_ms ctx\<rparr>,
                  xr_response_attempted = attempted, xr_response_succeeded = succeeded\<rparr>, rt))"

definition audit_instrumented where
  "audit_instrumented E detection request ctx = audit_internal E detection request ctx False None None"

definition audit_rehearse where
  "audit_rehearse E detection request ctx =
     audit_internal E detection request ctx True (Some DryRun) None"

definition audit_human_approved where
  "audit_human_approved E detection request ctx approved_by =
     audit_internal E detection request ctx True None approved_by"

definition audit_authorize_and_execute ::
  "('g, 's, 'x) lane_env \<Rightarrow> detection_finding \<Rightarrow> action_request \<Rightarrow> approval_context \<Rightarrow>
   ('g, 's, 'x) swarm_runtime \<Rightarrow> (runtime_error + audit_trail) \<times> ('g, 's, 'x) swarm_runtime" where
  "audit_authorize_and_execute E detection request ctx rt =
     (case audit_instrumented E detection request ctx rt of
        (Inl e, rt) \<Rightarrow> (Inl e, rt) | (Inr report, rt) \<Rightarrow> (Inr (xr_audit report), rt))"

end
