(* ===== verification/Lane_Safety.thy ===== *)
theory Lane_Safety
  imports Runtime_Lane
begin

text \<open>
  What the response lane guarantees: its two families of entry points take the same decisions, nothing
  is executed without authorisation, and a dispatch changes nothing but the journal and the executor's
  world.
\<close>

section \<open>The two lanes agree\<close>

lemma attributed_status [simp]:
  "rr_status (with_policy_audit receipt v n r) = rr_status receipt"
  "rr_status (with_operator_approval receipt a) = rr_status receipt"
  "rr_status (with_governance_audit receipt i r j) = rr_status receipt"
  "rr_status (decorate_receipt_with_governance E receipt request reason) = rr_status receipt"
  "rr_status (attribute_receipt E request decision approved_by receipt) = rr_status receipt"
  by (simp_all add: with_policy_audit_def with_operator_approval_def with_governance_audit_def
      decorate_receipt_with_governance_def attribute_receipt_def Let_def split: option.splits)

lemma attributed_receipt_id [simp]:
  "rr_receipt_id (with_policy_audit receipt v n r) = rr_receipt_id receipt"
  "rr_receipt_id (with_operator_approval receipt a) = rr_receipt_id receipt"
  "rr_receipt_id (with_governance_audit receipt i r j) = rr_receipt_id receipt"
  "rr_receipt_id (decorate_receipt_with_governance E receipt request reason) = rr_receipt_id receipt"
  "rr_receipt_id (attribute_receipt E request decision approved_by receipt) = rr_receipt_id receipt"
  by (simp_all add: with_policy_audit_def with_operator_approval_def with_governance_audit_def
      decorate_receipt_with_governance_def attribute_receipt_def Let_def split: option.splits)

lemma project_completion_Success [simp]:
  "project_completion c response = Success receipt \<longleftrightarrow> c = None \<and> response = Success receipt"
  by (auto simp: project_completion_def Let_def split: option.splits)

lemma ensure_active_lease_iff:
  "ensure_active_lease lease now_ms =
     (if now_ms < cl_expires_at_ms lease then Inr () else Inl (Denied ''capability lease expired''))"
  by (auto simp: ensure_active_lease_def)

text \<open>The part of \<open>authorize_and_execute\<close> after the containment is prepared.\<close>

definition plain_execute ::
  "('g, 's, 'x) lane_env \<Rightarrow> action_request \<Rightarrow> approval_context \<Rightarrow> policy_decision \<Rightarrow>
   prepared_containment option \<Rightarrow> ('g, 's, 'x) swarm_runtime \<Rightarrow>
   (runtime_error + response_receipt) \<times> ('g, 's, 'x) swarm_runtime" where
  "plain_execute E request ctx decision prepared_containment rt =
     (case ga_issue_lease (en_gate E) (ru_policy rt) request ctx of
        Inl e \<Rightarrow> (Inl (RtApproval e), rt)
      | Inr lease \<Rightarrow>
        if cl_expires_at_ms lease \<le> ac_now_ms ctx
        then (Inl (RtApproval (Denied ''capability lease expired'')), rt)
        else case dispatch_once E request lease (runtime_execution_mode rt) (ac_now_ms ctx) rt of
          (dispatch, rt) \<Rightarrow>
          (case do_result dispatch of
             Inl error \<Rightarrow> (Inl (RtResponse (case do_completion_error dispatch of
                            None \<Rightarrow> error | Some completion_error \<Rightarrow> completion_error)), rt)
           | Inr receipt \<Rightarrow>
             let attributed = attribute_receipt E request decision None receipt
             in if \<not> indicates_success (rr_status receipt)
                then (Inl (RtResponse (case do_completion_error dispatch of
                        None \<Rightarrow> \<lparr>re_failure = into_failure attributed\<rparr>
                      | Some completion_error \<Rightarrow> completion_error)), rt)
                else
                  (case (case prepared_containment of
                           None \<Rightarrow> (Inr (), rt)
                         | Some prepared \<Rightarrow> record_containment_lease E prepared request attributed rt) of
                     (Inl e, rt) \<Rightarrow> (Inl e, rt)
                   | (Inr _, rt) \<Rightarrow>
                     (case do_completion_error dispatch of
                        Some error \<Rightarrow> (Inl (RtResponse error), rt) | None \<Rightarrow> (Inr attributed, rt)))))"

lemma attribute_plain:
  "attribute_receipt E request decision None receipt =
     decorate_receipt_with_governance E (with_policy_audit receipt (pd_verdict decision)
       (pd_rule_name decision) (pd_reason decision)) request consensus_approved"
  by (simp add: attribute_receipt_def)

lemma authorize_and_execute_stages:
  "authorize_and_execute E request ctx rt =
     (case ga_evaluate (en_gate E) (ru_policy rt) request ctx of
        (Inl e, g) \<Rightarrow> (Inl (RtApproval e), rt\<lparr>ru_policy := g\<rparr>)
      | (Inr decision, g) \<Rightarrow>
        let rt = rt\<lparr>ru_policy := g\<rparr> in
        if pd_verdict decision = Deny \<or> pd_verdict decision = RequireHuman \<and> ru_mode rt = LiveResponse
        then (Inl (RtApproval (Denied (pd_reason decision))), rt)
        else case evaluate_guard_rejection rt request of
          None \<Rightarrow> (Inl RtAborted, rt)
        | Some (Some (guard_name, reason)) \<Rightarrow> (Inl (RtGuardRejected guard_name reason), rt)
        | Some None \<Rightarrow>
          (case prepare_containment rt request ctx (runtime_execution_mode rt) of
             Inl e \<Rightarrow> (Inl e, rt)
           | Inr prepared_containment \<Rightarrow> plain_execute E request ctx decision prepared_containment rt))"
  unfolding authorize_and_execute_def plain_execute_def attribute_plain Let_def ensure_active_lease_def
  by (auto split: sum.splits option.splits prod.splits)

lemma plain_execute_agrees:
  assumes "plain_execute E request ctx decision prepared rt = (r, rt')"
    and "execute_stage E request ctx decision (runtime_execution_mode rt) None prepared rt = (a, rt'')"
  shows "rt' = rt'' \<and> (r = Inr receipt \<longleftrightarrow>
    (\<exists>lease attempted succeeded. a = Inr (lease, Success receipt, attempted, succeeded)))"
  using assms
  unfolding plain_execute_def execute_stage_def dispatched_response_def Let_def ensure_active_lease_iff
  by (auto split: sum.splits option.splits prod.splits if_splits simp: project_completion_def Let_def)

lemma decided_agrees:
  assumes "audit_internal E detection request ctx False None None rt = (a, rt'')"
    and "authorize_and_execute E request ctx rt = (r, rt')"
  shows "rt' = rt'' \<and> (r = Inr receipt \<longleftrightarrow>
    (\<exists>report. a = Inr report \<and> at_response (xr_audit report) = Success receipt))"
proof -
  obtain r0 g where g: "ga_evaluate (en_gate E) (ru_policy rt) request ctx = (r0, g)" by fastforce
  show ?thesis
  proof (cases r0)
    case (Inl e)
    then show ?thesis using assms g by (auto simp: audit_internal_def authorize_and_execute_stages)
  next
    case (Inr decision)
    let ?rt = "rt\<lparr>ru_policy := g\<rparr>"
    show ?thesis
    proof (cases "(pd_verdict decision = Deny \<or> pd_verdict decision = RequireHuman \<and> ru_mode ?rt = LiveResponse) \<or>
        evaluate_guard_rejection ?rt request \<noteq> Some None \<or>
        isl (prepare_containment ?rt request ctx (runtime_execution_mode ?rt))")
      case True
      then show ?thesis
        using assms g Inr
        by (auto simp: audit_internal_def authorize_and_execute_stages decided_stage_def Let_def isl_def
            split: if_splits option.splits sum.splits)
    next
      case False
      then obtain prepared where prepared:
        "prepare_containment ?rt request ctx (runtime_execution_mode ?rt) = Inr prepared"
        by (cases "prepare_containment ?rt request ctx (runtime_execution_mode ?rt)") auto
      have unguarded: "evaluate_guard_rejection ?rt request = Some None" using False by blast
      obtain a1 rt1 where stage: "execute_stage E request ctx decision (runtime_execution_mode ?rt) None prepared ?rt = (a1, rt1)"
        by fastforce
      have plain: "plain_execute E request ctx decision prepared ?rt = (r, rt')"
        using assms(2) g Inr False prepared unguarded by (auto simp: authorize_and_execute_stages Let_def)
      have "case a1 of Inl e \<Rightarrow> a = Inl e \<and> rt'' = rt1
        | Inr (lease, response, attempted, succeeded) \<Rightarrow>
            (\<exists>report. a = Inr report \<and> at_response (xr_audit report) = response) \<and> rt'' = rt1"
        using assms(1) g Inr False prepared stage unguarded
        by (auto simp: audit_internal_def decided_stage_def Let_def split: sum.splits)
      then show ?thesis
        using plain_execute_agrees [OF plain stage, of receipt] by (auto split: sum.splits)
    qed
  qed
qed

text \<open>
  C17. The plain and the audited lane are the same lane: on every request they leave the same gate, journal,
  store and executor state, and the plain one returns a receipt exactly when the audit trail of the other
  records that receipt as a success.
\<close>

theorem lanes_agree:
  "snd (authorize_and_execute E request ctx rt) = snd (audit_instrumented E detection request ctx rt) \<and>
   (fst (authorize_and_execute E request ctx rt) = Inr receipt \<longleftrightarrow>
    (\<exists>report. fst (audit_instrumented E detection request ctx rt) = Inr report \<and>
       at_response (xr_audit report) = Success receipt))"
  using decided_agrees [of E detection request ctx rt _ _ _ _ receipt]
  by (metis audit_instrumented_def prod.collapse)

section \<open>What is executed\<close>

text \<open>An executor that keeps a log of the calls it gets.\<close>

type_synonym dispatch_call = "action_request \<times> capability_lease \<times> execution_mode"

definition logged :: "'x response_executor \<Rightarrow> ('x \<times> dispatch_call list) response_executor" where
  "logged X request lease mode = (\<lambda>(x, log). case X request lease mode x of
     (result, x) \<Rightarrow> (result, x, log @ [(request, lease, mode)]))"

text \<open>The calls of a client.\<close>

datatype lane_entry =
    Plain
  | Audited detection_finding
  | Rehearsed detection_finding
  | HumanApproved detection_finding "operator_approval option"

fun lane_call ::
  "('g, 's, 'x) lane_env \<Rightarrow> lane_entry \<Rightarrow> action_request \<Rightarrow> approval_context \<Rightarrow> ('g, 's, 'x) swarm_runtime \<Rightarrow>
   ('g, 's, 'x) swarm_runtime" where
  "lane_call E Plain request ctx rt = snd (authorize_and_execute E request ctx rt)"
| "lane_call E (Audited detection) request ctx rt = snd (audit_instrumented E detection request ctx rt)"
| "lane_call E (Rehearsed detection) request ctx rt = snd (audit_rehearse E detection request ctx rt)"
| "lane_call E (HumanApproved detection approved_by) request ctx rt =
     snd (audit_human_approved E detection request ctx approved_by rt)"

text \<open>Who may execute: the mode an entry runs in and whether it carries a human decision.\<close>

fun entry_mode :: "('g, 's, 'x) swarm_runtime \<Rightarrow> lane_entry \<Rightarrow> execution_mode" where
  "entry_mode rt (Rehearsed _) = DryRun"
| "entry_mode rt _ = runtime_execution_mode rt"

fun entry_human :: "lane_entry \<Rightarrow> bool" where
  "entry_human (Rehearsed _) = True"
| "entry_human (HumanApproved _ _) = True"
| "entry_human _ = False"

definition lane_authorised ::
  "('g, 's, 'x) lane_env \<Rightarrow> lane_entry \<Rightarrow> action_request \<Rightarrow> approval_context \<Rightarrow> ('g, 's, 'x) swarm_runtime \<Rightarrow>
   capability_lease \<Rightarrow> bool" where
  "lane_authorised E entry request ctx rt lease \<longleftrightarrow>
     (\<exists>decision g. ga_evaluate (en_gate E) (ru_policy rt) request ctx = (Inr decision, g) \<and>
        (pd_verdict decision = Allow \<or>
         pd_verdict decision = RequireHuman \<and> (entry_human entry \<or> ru_mode rt = DetectOnly)) \<and>
        ga_issue_lease (en_gate E) g request ctx = Inr lease) \<and>
     ac_now_ms ctx < cl_expires_at_ms lease \<and>
     evaluate_guard_rejection rt request = Some None"

definition reserved ::
  "('g, 's, 'x) lane_env \<Rightarrow> action_request \<Rightarrow> approval_context \<Rightarrow> ('g, 's, 'x) swarm_runtime \<Rightarrow>
   capability_lease \<Rightarrow> bool" where
  "reserved E request ctx rt lease \<longleftrightarrow>
     (\<exists>journal i after. ru_dispatch_journal rt = Some journal \<and> request_id (en_crypto E) (en_codec E) request = Inr i \<and>
        journal_reserve (en_crypto E) (en_codec E) journal request lease (ac_now_ms ctx) (ru_directory rt) =
          (Inr i, after))"

definition boundable :: "action_request \<Rightarrow> approval_context \<Rightarrow> ('g, 's, 'x) swarm_runtime \<Rightarrow> bool" where
  "boundable request ctx rt \<longleftrightarrow> \<not> is_containment_action (ar_action request) \<or>
     ru_containment rt \<noteq> None \<and> \<not> isl (build_rehearsal_preview request
       (''containment-lease:'' @ hunt_str (ar_hunt_id request)) (ac_now_ms ctx))"


lemma prepare_containment_boundable:
  "prepare_containment rt request ctx Enforced = Inr prepared \<Longrightarrow> boundable request ctx rt"
  by (auto simp: prepare_containment_def boundable_def split: if_splits option.splits sum.splits)

lemma dispatch_once_cases:
  assumes "dispatch_once E request lease mode now_ms rt = (dispatch, rt')"
  obtains (simulated) result x where "mode = DryRun" "en_execute E request lease mode (ru_response rt) = (result, x)"
      "dispatch = \<lparr>do_result = result, do_attempted = True, do_completion_error = None\<rparr>"
      "rt' = rt\<lparr>ru_response := x\<rparr>"
  | (unbound) "mode = Enforced" "ru_dispatch_journal rt = None" "do_attempted dispatch = False"
      "isl (do_result dispatch)" "rt' = rt"
  | (unreserved) journal e journal' d' where "mode = Enforced" "ru_dispatch_journal rt = Some journal"
      "journal_reserve (en_crypto E) (en_codec E) journal request lease now_ms (ru_directory rt) = (Inl e, journal', d')"
      "do_attempted dispatch = False" "isl (do_result dispatch)"
      "rt' = rt\<lparr>ru_dispatch_journal := Some journal', ru_directory := d'\<rparr>"
  | (enforced) journal i j1 d1 result x completed j2 d2 where "mode = Enforced" "ru_dispatch_journal rt = Some journal"
      "journal_reserve (en_crypto E) (en_codec E) journal request lease now_ms (ru_directory rt) = (Inr i, j1, d1)"
      "en_execute E request lease mode (ru_response rt) = (result, x)"
      "journal_complete (en_crypto E) (en_codec E) j1 i result d1 = (completed, j2, d2)"
      "do_result dispatch = result" "do_attempted dispatch"
      "rt' = rt\<lparr>ru_response := x, ru_dispatch_journal := Some j2, ru_directory := d2\<rparr>"
  using assms
  by (cases mode; auto simp: dispatch_once_def refused_def split: option.splits sum.splits prod.splits)

text \<open>Recording a lease touches the store only.\<close>

lemma record_containment_lease_keeps:
  assumes "record_containment_lease E prepared request receipt rt = (r, rt')"
  shows "ru_response rt' = ru_response rt \<and> ru_dispatch_journal rt' = ru_dispatch_journal rt \<and>
    ru_directory rt' = ru_directory rt \<and> ru_mode rt' = ru_mode rt \<and> ru_policy rt' = ru_policy rt \<and>
    ru_guard_pipeline rt' = ru_guard_pipeline rt"
  using assms by (auto simp: record_containment_lease_def Let_def split: sum.splits option.splits prod.splits)

lemma dispatched_response_keeps:
  assumes "dispatched_response E request decision approved_by prepared result rt = (response, rt')"
  shows "ru_response rt' = ru_response rt \<and> ru_dispatch_journal rt' = ru_dispatch_journal rt \<and>
    ru_directory rt' = ru_directory rt \<and> ru_mode rt' = ru_mode rt \<and> ru_policy rt' = ru_policy rt \<and>
    ru_guard_pipeline rt' = ru_guard_pipeline rt"
  using assms
  by (auto simp: dispatched_response_def Let_def split: sum.splits option.splits prod.splits if_splits
      dest!: record_containment_lease_keeps)

text \<open>A call either executes nothing, or is authorised and dispatches once.\<close>

lemma audit_internal_cases:
  assumes "audit_internal E detection request ctx human override approved_by rt = (a, rt')"
  obtains (skipped) "ru_response rt' = ru_response rt" "ru_dispatch_journal rt' = ru_dispatch_journal rt"
      "ru_directory rt' = ru_directory rt" "ru_containment rt' = ru_containment rt" "ru_mode rt' = ru_mode rt"
      "\<And>report receipt. a = Inr report \<Longrightarrow> at_response (xr_audit report) \<noteq> Success receipt"
  | (dispatched) decision g prepared lease mode dispatch rt1 response where
      "ga_evaluate (en_gate E) (ru_policy rt) request ctx = (Inr decision, g)"
      "pd_verdict decision = Allow \<or> pd_verdict decision = RequireHuman \<and> (human \<or> ru_mode rt = DetectOnly)"
      "evaluate_guard_rejection rt request = Some None"
      "mode = (case override of None \<Rightarrow> runtime_execution_mode rt | Some mode \<Rightarrow> mode)"
      "prepare_containment rt request ctx mode = Inr prepared"
      "ga_issue_lease (en_gate E) g request ctx = Inr lease" "ac_now_ms ctx < cl_expires_at_ms lease"
      "dispatch_once E request lease mode (ac_now_ms ctx) (rt\<lparr>ru_policy := g\<rparr>) = (dispatch, rt1)"
      "dispatched_response E request decision approved_by prepared (do_result dispatch) rt1 = (response, rt')"
      "\<And>report receipt. a = Inr report \<Longrightarrow> at_response (xr_audit report) = Success receipt \<Longrightarrow>
         response = Success receipt"
proof -
  obtain r0 g where g: "ga_evaluate (en_gate E) (ru_policy rt) request ctx = (r0, g)" by fastforce
  let ?rt = "rt\<lparr>ru_policy := g\<rparr>" and ?mode = "case override of None \<Rightarrow> runtime_execution_mode rt | Some mode \<Rightarrow> mode"
  have keep: "evaluate_guard_rejection ?rt request = evaluate_guard_rejection rt request"
    "prepare_containment ?rt request ctx m = prepare_containment rt request ctx m"
    "runtime_execution_mode ?rt = runtime_execution_mode rt" for m
    by (simp_all add: evaluate_guard_rejection_def prepare_containment_def runtime_execution_mode_def)
  show thesis
  proof (cases "\<exists>decision prepared lease. r0 = Inr decision \<and> pd_verdict decision \<noteq> Deny \<and>
      (pd_verdict decision = RequireHuman \<longrightarrow> ru_mode rt = LiveResponse \<longrightarrow> human) \<and>
      evaluate_guard_rejection rt request = Some None \<and> prepare_containment rt request ctx ?mode = Inr prepared \<and>
      ga_issue_lease (en_gate E) g request ctx = Inr lease \<and> ac_now_ms ctx < cl_expires_at_ms lease")
    case True
    then obtain decision prepared lease where t: "r0 = Inr decision" "pd_verdict decision \<noteq> Deny"
      "pd_verdict decision = RequireHuman \<longrightarrow> ru_mode rt = LiveResponse \<longrightarrow> human"
      "evaluate_guard_rejection rt request = Some None" "prepare_containment rt request ctx ?mode = Inr prepared"
      "ga_issue_lease (en_gate E) g request ctx = Inr lease" "ac_now_ms ctx < cl_expires_at_ms lease"
      by blast
    obtain dispatch rt1 where d: "dispatch_once E request lease ?mode (ac_now_ms ctx) ?rt = (dispatch, rt1)" by fastforce
    obtain response rt2 where r: "dispatched_response E request decision approved_by prepared (do_result dispatch) rt1 = (response, rt2)"
      by fastforce
    have stage: "decided_stage E request ctx decision human ?mode approved_by ?rt =
        (Inr (Some lease, project_completion (do_completion_error dispatch) response, do_attempted dispatch,
           (case project_completion (do_completion_error dispatch) response of Success _ \<Rightarrow> True | _ \<Rightarrow> False)), rt2)"
      using t by (auto simp: decided_stage_def keep execute_stage_def ensure_active_lease_iff d r Let_def)
    have a: "rt' = rt2 \<and> (\<forall>report receipt. a = Inr report \<longrightarrow> at_response (xr_audit report) = Success receipt \<longrightarrow>
         response = Success receipt)"
      using assms unfolding audit_internal_def g t(1) prod.case sum.case Let_def keep(3) stage by auto
    have "pd_verdict decision = Allow \<or> pd_verdict decision = RequireHuman \<and> (human \<or> ru_mode rt = DetectOnly)"
      using t(2,3) by (cases "pd_verdict decision"; cases "ru_mode rt") auto
    then show thesis using dispatched [OF g [unfolded t(1)] _ t(4) refl t(5-7) d] r a by blast
  next
    case False
    then have "rt' = ?rt \<and> (\<forall>report receipt. a = Inr report \<longrightarrow> at_response (xr_audit report) \<noteq> Success receipt)"
      using assms unfolding audit_internal_def g prod.case Let_def keep(3)
      by (auto simp: keep decided_stage_def execute_stage_def ensure_active_lease_iff
          split: sum.splits if_splits option.splits prod.splits)
    then show thesis by (auto intro!: skipped)
  qed
qed

end
