(* ===== verification/Response_Lane.thy ===== *)
theory Response_Lane
  imports Lane_Safety Journal_Reservations Containment "HOL-Library.Code_Target_Nat"
begin

text \<open>
  The promises of the response lane over every entry point: only authorised requests reach the executor,
  no dispatch identity is enforced twice, across restarts too, and an enforced containment that is
  reported as a success has an open, bounded lease.
\<close>

section \<open>A sample daemon\<close>

text \<open>The static gate, the file store, an executor that always succeeds, and a codec that also writes completions.\<close>

definition lane_codec :: journal_codec where
  "lane_codec = model_codec
     \<lparr>jc_event := (\<lambda>ev. case ev of Completion i _ \<Rightarrow> tagged_line CHR ''C'' i | _ \<Rightarrow> jc_event model_codec ev),
      jc_read_event := (\<lambda>b. if hd b = CHR ''C''
         then Inr (Completion (butlast (tl b)) (Inl (execution_failed [] [] Enforced [] JNull)))
         else jc_read_event model_codec b)\<rparr>"

lemma lane_codec_laws: "codec_laws lane_codec"
  by (auto simp: codec_laws_def lane_codec_def model_codec_def tagged_line_def takeWhile_append Let_def
      split: journal_event.splits if_splits)

definition obliging_executor :: "unit response_executor" where
  "obliging_executor request lease mode x =
     (Inr \<lparr>rr_receipt_id = ''receipt-1'', rr_action = kind (ar_action request), rr_mode = mode,
           rr_status = StatusExecuted, rr_summary = ''done'', rr_details = JNull, rr_audit = receipt_audit_default\<rparr>, x)"

definition lane_detection :: detection_finding where
  "lane_detection = \<lparr>df_finding_id = ''f1'', df_event_id = ''e1'', df_threat_class = LateralMovement,
     df_severity = Medium, df_confidence = 0, df_evidence = JNull, df_strategy_id = ''s1''\<rparr>"

definition lane_lease :: containment_lease where
  "lane_lease = projr (lease_open (containment_lease_id sample_request ''receipt-1'') (ar_action sample_request)
     ''receipt-1'' None (projr (build_rehearsal_preview sample_request ''containment-lease:h1'' 1000)) 1000
     (ContainmentTtl 5000))"

definition lane_lease_codec :: containment_codec where
  "lane_lease_codec = listed_codec [([(cn_lease_id lane_lease, lease_to_record lane_lease)], [])]"

definition lane_gate :: static_approval_gate where
  "lane_gate = static_from_config policy_config_default"

text \<open>A hash of one byte that keeps the lines of the journal short.\<close>

definition short_crypto :: crypto_lib where
  "short_crypto = model_crypto\<lparr>lib_sha256 := (\<lambda>b. ''d''), lib_hex_encode := (\<lambda>b. b)\<rparr>"

definition sample_env ::
  "(static_approval_gate, file_containment_store, unit \<times> dispatch_call list) lane_env" where
  "sample_env = \<lparr>en_crypto = short_crypto, en_codec = lane_codec, en_receipt_of_json = (\<lambda>_. Inl []),
     en_gate = \<lparr>ga_evaluate = static_evaluate, ga_issue_lease = static_issue_lease\<rparr>,
     en_store = lease_file_ops lane_lease_codec, en_execute = logged obliging_executor\<rparr>"

section \<open>Every entry point is the internal lane\<close>

fun entry_override :: "lane_entry \<Rightarrow> execution_mode option" where
  "entry_override (Rehearsed _) = Some DryRun"
| "entry_override _ = None"

lemma entry_mode_override:
  "(case entry_override entry of None \<Rightarrow> runtime_execution_mode rt | Some mode \<Rightarrow> mode) = entry_mode rt entry"
  by (cases entry) auto

lemma lane_call_internal:
  "\<exists>detection approved_by a. audit_internal E detection request ctx (entry_human entry) (entry_override entry)
     approved_by rt = (a, lane_call E entry request ctx rt)"
proof (cases entry)
  case Plain
  obtain a rt'' where a: "audit_internal E undefined request ctx False None None rt = (a, rt'')" by fastforce
  have "snd (authorize_and_execute E request ctx rt) = rt''"
    using decided_agrees [OF a surjective_pairing] by blast
  then show ?thesis using a Plain by auto
next
  case (Audited d)
  then show ?thesis unfolding lane_call.simps audit_instrumented_def Audited
    by (intro exI [of _ d] exI [of _ None]) (simp add: prod_eq_iff)
next
  case (Rehearsed d)
  then show ?thesis unfolding lane_call.simps audit_rehearse_def Rehearsed
    by (intro exI [of _ d] exI [of _ None]) (simp add: prod_eq_iff)
next
  case (HumanApproved d approved_by)
  then show ?thesis unfolding lane_call.simps audit_human_approved_def HumanApproved
    by (intro exI [of _ d] exI [of _ approved_by]) (simp add: prod_eq_iff)
qed

section \<open>What a call does to the executor, the journal and the directory\<close>

text \<open>A dispatch that the executor sees under \<^const>\<open>Enforced\<close> was reserved first.\<close>

lemma lane_call_effect:
  assumes "en_execute E = logged X" "lane_call E entry request ctx rt = rt'"
  obtains (quiet) "snd (ru_response rt') = snd (ru_response rt)" "ru_dispatch_journal rt' = ru_dispatch_journal rt"
      "ru_directory rt' = ru_directory rt"
  | (refusal) lease journal e journal' d' where "snd (ru_response rt') = snd (ru_response rt)"
      "ru_dispatch_journal rt = Some journal"
      "journal_reserve (en_crypto E) (en_codec E) journal request lease (ac_now_ms ctx) (ru_directory rt) = (Inl e, journal', d')"
      "ru_dispatch_journal rt' = Some journal'" "ru_directory rt' = d'"
  | (simulated) lease where "snd (ru_response rt') = snd (ru_response rt) @ [(request, lease, DryRun)]"
      "entry_mode rt entry = DryRun" "lane_authorised E entry request ctx rt lease"
      "ru_dispatch_journal rt' = ru_dispatch_journal rt" "ru_directory rt' = ru_directory rt"
  | (enforced) lease journal i j1 d1 result completed j2 d2 where
      "snd (ru_response rt') = snd (ru_response rt) @ [(request, lease, Enforced)]"
      "entry_mode rt entry = Enforced" "lane_authorised E entry request ctx rt lease" "boundable request ctx rt"
      "ru_dispatch_journal rt = Some journal"
      "journal_reserve (en_crypto E) (en_codec E) journal request lease (ac_now_ms ctx) (ru_directory rt) = (Inr i, j1, d1)"
      "journal_complete (en_crypto E) (en_codec E) j1 i result d1 = (completed, j2, d2)"
      "ru_dispatch_journal rt' = Some j2" "ru_directory rt' = d2"
proof -
  obtain detection approved_by a where a: "audit_internal E detection request ctx (entry_human entry)
      (entry_override entry) approved_by rt = (a, rt')"
    using lane_call_internal unfolding assms(2) [symmetric] by blast
  then show thesis
  proof (cases rule: audit_internal_cases)
    case skipped
    then show thesis using quiet by simp
  next
    case (dispatched decision g prepared lease mode dispatch rt1 response)
    have mode: "mode = entry_mode rt entry" using dispatched(4) entry_mode_override by metis
    have auth: "lane_authorised E entry request ctx rt lease"
      using dispatched(1-3,6,7) by (auto simp: lane_authorised_def)
    have bound: "mode = Enforced \<Longrightarrow> boundable request ctx rt"
      using dispatched(5) prepare_containment_boundable by blast
    have keep: "ru_response rt' = ru_response rt1" "ru_dispatch_journal rt' = ru_dispatch_journal rt1"
      "ru_directory rt' = ru_directory rt1"
      using dispatched_response_keeps [OF dispatched(9)] by simp_all
    have exec: "snd x = snd (ru_response rt) @ [(request, lease, mode)]"
      if "en_execute E request lease mode (ru_response (rt\<lparr>ru_policy := g\<rparr>)) = (result, x)" for result x
      using that assms(1) by (auto simp: logged_def split: prod.splits)
    from dispatched(8) show thesis
    proof (cases rule: dispatch_once_cases)
      case (simulated result x)
      then show thesis using that(3) [OF _ _ auth] exec [OF simulated(2)] keep mode by simp
    next
      case unbound
      then show thesis using quiet keep by simp
    next
      case (unreserved journal e journal' d')
      then show thesis using refusal [of journal lease e journal' d'] keep by simp
    next
      case (enforced journal i j1 d1 result x completed j2 d2)
      then show thesis
        using that(4) [OF _ _ auth bound [OF enforced(1)], of journal i j1 d1 result completed j2 d2]
          exec [OF enforced(4)] keep mode by simp
    qed
  qed
qed

text \<open>
  C4. Nothing reaches the executor without authorisation. Through whichever entry point, a call adds at
  most one execution, of its own request; then the gate allowed it, or asked for a human and the call carries
  a human decision or the runtime only simulates; no guard rejected it or panicked, and its lease was active. An enforced
  execution moreover has a reservation in the journal, and if it is a containment, a store and a plan to
  undo it.
\<close>

theorem lane_executes_authorised:
  assumes "en_execute E = logged X" "snd (ru_response (lane_call E entry request ctx rt)) \<noteq> snd (ru_response rt)"
  shows "\<exists>lease. snd (ru_response (lane_call E entry request ctx rt)) =
      snd (ru_response rt) @ [(request, lease, entry_mode rt entry)] \<and>
    lane_authorised E entry request ctx rt lease \<and>
    (if entry_mode rt entry = Enforced
     then ru_mode rt = LiveResponse \<and> reserved E request ctx rt lease \<and> boundable request ctx rt else True)"
proof -
  have live: "ru_mode rt = LiveResponse" if "entry_mode rt entry = Enforced"
    using that by (cases entry) (auto simp: runtime_execution_mode_def split: runtime_mode.splits)
  from assms(1) refl show ?thesis
  proof (cases rule: lane_call_effect [of E X entry request ctx rt])
    case (enforced lease journal i j1 d1 result completed j2 d2)
    have "request_id (en_crypto E) (en_codec E) request = Inr i"
      using enforced(6) by (cases rule: journal_reserve_cases) auto
    then have "reserved E request ctx rt lease" using enforced(5,6) by (auto simp: reserved_def)
    then show ?thesis using enforced live by auto
  qed (use assms(2) in auto)
qed

section \<open>Runs\<close>

text \<open>
  A run of one daemon: calls of the lane, and restarts, which close the journal, open it again and come up
  with any gate, mode, guards and containment store. When opening fails the runtime has no journal.
\<close>

datatype ('g, 's) lane_op =
    LCall lane_entry action_request approval_context
  | LRestart 'g runtime_mode "guard list option" "('s \<times> containment_ttl) option"

definition reopen_journal ::
  "('g, 's, 'x) lane_env \<Rightarrow> dispatch_journal option \<Rightarrow> directory \<Rightarrow> dispatch_journal option \<times> directory" where
  "reopen_journal E journal d =
     (let d = (case journal of None \<Rightarrow> d | Some j \<Rightarrow> sys_unlock (dj_writer_lock j) d) in
      case journal_open (en_crypto E) (en_codec E) d of (Inl _, d) \<Rightarrow> (None, d) | (Inr j, d) \<Rightarrow> (Some j, d))"

fun lane_step ::
  "('g, 's, 'x) lane_env \<Rightarrow> ('g, 's) lane_op \<Rightarrow> ('g, 's, 'x) swarm_runtime \<Rightarrow> ('g, 's, 'x) swarm_runtime" where
  "lane_step E (LCall entry request ctx) rt = lane_call E entry request ctx rt"
| "lane_step E (LRestart g mode guards containment) rt =
     (case reopen_journal E (ru_dispatch_journal rt) (ru_directory rt) of
        (journal, d) \<Rightarrow> rt\<lparr>ru_policy := g, ru_mode := mode, ru_guard_pipeline := guards,
          ru_containment := containment, ru_dispatch_journal := journal, ru_directory := d\<rparr>)"

definition lane_run ::
  "('g, 's, 'x) lane_env \<Rightarrow> ('g, 's) lane_op list \<Rightarrow> ('g, 's, 'x) swarm_runtime \<Rightarrow> ('g, 's, 'x) swarm_runtime" where
  "lane_run E = fold (lane_step E)"

text \<open>The identities of the enforced calls of a log.\<close>

definition enforced_ids :: "('g, 's, 'x) lane_env \<Rightarrow> dispatch_call list \<Rightarrow> (journal_error + string) list" where
  "enforced_ids E log = map (\<lambda>(request, _, _). request_id (en_crypto E) (en_codec E) request)
     (filter (\<lambda>(_, _, mode). mode = Enforced) log)"

definition lane_world :: "('g, 's, 'x) swarm_runtime \<Rightarrow> string list \<Rightarrow> journal_world" where
  "lane_world rt granted = \<lparr>jw_dir = ru_directory rt,
     jw_writers = (case ru_dispatch_journal rt of None \<Rightarrow> [] | Some j \<Rightarrow> [j]), jw_granted = granted\<rparr>"

definition lane_ok :: "('g, 's, 'x \<times> dispatch_call list) lane_env \<Rightarrow>
   ('g, 's, 'x \<times> dispatch_call list) swarm_runtime \<Rightarrow> bool" where
  "lane_ok E rt \<longleftrightarrow> (\<exists>granted. world_ok (en_codec E) (lane_world rt granted) \<and>
     set (enforced_ids E (snd (ru_response rt))) \<subseteq> Inr ` set granted \<and>
     distinct (enforced_ids E (snd (ru_response rt))))"

lemma enforced_ids_snoc:
  "enforced_ids E (log @ [(request, lease, mode)]) =
     enforced_ids E log @ (if mode = Enforced then [request_id (en_crypto E) (en_codec E) request] else [])"
  by (simp add: enforced_ids_def)

lemma world_ok_reserve:
  assumes "codec_laws J" "world_ok J \<lparr>jw_dir = d, jw_writers = [j], jw_granted = granted\<rparr>"
    and "journal_reserve C J j request lease now_ms d = (r, j', d')"
  shows "world_ok J \<lparr>jw_dir = d', jw_writers = [j'], jw_granted = (case r of Inl _ \<Rightarrow> [] | Inr i \<Rightarrow> [i]) @ granted\<rparr>"
  using world_ok_step [OF assms(1,2), of C "JReserve 0 request lease now_ms"] assms(3)
  by (simp add: jw_writer_op_def)

lemma world_ok_complete:
  assumes "codec_laws J" "world_ok J \<lparr>jw_dir = d, jw_writers = [j], jw_granted = granted\<rparr>"
    and "journal_complete C J j i result d = (r, j', d')"
  shows "world_ok J \<lparr>jw_dir = d', jw_writers = [j'], jw_granted = granted\<rparr>"
  using world_ok_step [OF assms(1,2), of C "JComplete 0 i result"] assms(3)
  by (cases r) (simp_all add: jw_writer_op_def)

lemma lane_ok_restart:
  assumes "codec_laws (en_codec E)" "lane_ok E rt"
  shows "lane_ok E (lane_step E (LRestart g mode guards containment) rt)"
proof -
  from assms(2) obtain granted where ok: "world_ok (en_codec E) (lane_world rt granted)"
    "set (enforced_ids E (snd (ru_response rt))) \<subseteq> Inr ` set granted" "distinct (enforced_ids E (snd (ru_response rt)))"
    by (auto simp: lane_ok_def)
  let ?closed = "case ru_dispatch_journal rt of None \<Rightarrow> lane_world rt granted
    | Some _ \<Rightarrow> journal_step (en_crypto E) (en_codec E) (JClose 0) (lane_world rt granted)"
  have "world_ok (en_codec E) ?closed"
    using ok(1) world_ok_step [OF assms(1) ok(1), of "en_crypto E" "JClose 0"]
    by (cases "ru_dispatch_journal rt") (simp_all only: option.case)
  then have "world_ok (en_codec E) (journal_step (en_crypto E) (en_codec E) JOpen ?closed)"
    by (rule world_ok_step [OF assms(1)])
  then have "world_ok (en_codec E) (lane_world (lane_step E (LRestart g mode guards containment) rt) granted)"
    by (auto simp: lane_world_def reopen_journal_def Let_def split: option.splits prod.splits sum.splits)
  then show ?thesis
    using ok(2,3) by (auto simp: lane_ok_def reopen_journal_def Let_def split: prod.splits)
qed

lemma lane_ok_call:
  assumes "codec_laws (en_codec E)" "en_execute E = logged X" "lane_ok E rt"
  shows "lane_ok E (lane_call E entry request ctx rt)"
proof -
  let ?rt = "lane_call E entry request ctx rt" and ?J = "en_codec E" and ?C = "en_crypto E"
  from assms(3) obtain granted where ok: "world_ok ?J (lane_world rt granted)"
    "set (enforced_ids E (snd (ru_response rt))) \<subseteq> Inr ` set granted" "distinct (enforced_ids E (snd (ru_response rt)))"
    by (auto simp: lane_ok_def)
  have same: "world_ok ?J (lane_world ?rt granted)"
    if "ru_dispatch_journal ?rt = ru_dispatch_journal rt" "ru_directory ?rt = ru_directory rt"
    using that ok(1) by (simp add: lane_world_def)
  from assms(2) refl show ?thesis
  proof (cases rule: lane_call_effect [of E X entry request ctx rt])
    case quiet
    then show ?thesis using ok same unfolding lane_ok_def by auto
  next
    case (refusal lease journal e journal' d')
    then have "world_ok ?J (lane_world ?rt granted)"
      using world_ok_reserve [OF assms(1) _ refusal(3), of granted] ok(1) by (simp add: lane_world_def)
    then show ?thesis using ok(2,3) refusal(1) unfolding lane_ok_def by auto
  next
    case (simulated lease)
    then show ?thesis using ok same unfolding lane_ok_def by (auto simp: enforced_ids_snoc)
  next
    case (enforced lease journal i j1 d1 result completed j2 d2)
    have w1: "world_ok ?J \<lparr>jw_dir = d1, jw_writers = [j1], jw_granted = i # granted\<rparr>"
      using world_ok_reserve [OF assms(1) _ enforced(6), of granted] ok(1) enforced(5) by (simp add: lane_world_def)
    have "world_ok ?J (lane_world ?rt (i # granted))"
      using world_ok_complete [OF assms(1) w1 enforced(7)] enforced(8,9) by (simp add: lane_world_def)
    moreover have "i \<notin> set granted" using w1 by (simp add: world_ok_def)
    moreover have "request_id ?C ?J request = Inr i" using enforced(6) by (cases rule: journal_reserve_cases) auto
    ultimately show ?thesis
      using ok(2,3) enforced(1) unfolding lane_ok_def
      by (intro exI [of _ "i # granted"]) (auto simp: enforced_ids_snoc)
  qed
qed

lemma lane_ok_step:
  assumes "codec_laws (en_codec E)" "en_execute E = logged X" "lane_ok E rt"
  shows "lane_ok E (lane_step E op rt)"
proof (cases op)
  case (LCall entry request ctx)
  then show ?thesis using lane_ok_call [OF assms] by simp
next
  case (LRestart g mode guards containment)
  then show ?thesis using lane_ok_restart [OF assms(1,3)] by blast
qed

lemma lane_ok_run:
  "codec_laws (en_codec E) \<Longrightarrow> en_execute E = logged X \<Longrightarrow> lane_ok E rt \<Longrightarrow> lane_ok E (lane_run E ops rt)"
  unfolding lane_run_def by (induction ops arbitrary: rt) (simp_all add: lane_ok_step)

text \<open>A daemon before it opened its journal for the first time, with the answers of its system calls.\<close>

definition fresh_runtime ::
  "string \<Rightarrow> nat \<Rightarrow> io_answer list \<Rightarrow> 'g \<Rightarrow> 'x \<Rightarrow> ('g, 's, 'x \<times> dispatch_call list) swarm_runtime" where
  "fresh_runtime path dev io g x =
     \<lparr>ru_mode = LiveResponse, ru_policy = g, ru_response = (x, []), ru_guard_pipeline = None,
      ru_containment = None, ru_dispatch_journal = None,
      ru_directory = jw_dir (journal_world_new path dev io)\<rparr>"

lemma fresh_runtime_ok: "lane_ok E (fresh_runtime path dev io g x)"
  using world_ok_new [of "en_codec E" path dev io]
  by (auto simp: lane_ok_def lane_world_def fresh_runtime_def enforced_ids_def journal_world_new_def)

text \<open>
  C5. No request is enforced twice: over any sequence of calls through any entry point and of restarts, with any
  gate and executor and any system calls of the journal failing, the enforced executions have pairwise
  different dispatch identities.
\<close>

theorem lane_enforces_once:
  assumes "codec_laws (en_codec E)" "en_execute E = logged X"
  shows "distinct (enforced_ids E (snd (ru_response (lane_run E ops (fresh_runtime path dev io g x)))))"
  using lane_ok_run [OF assms fresh_runtime_ok] unfolding lane_ok_def by blast

section \<open>Containment leases\<close>

text \<open>Only recording a lease touches the store.\<close>

lemma dispatch_once_containment:
  "dispatch_once E request lease mode now_ms rt = (dispatch, rt') \<Longrightarrow> ru_containment rt' = ru_containment rt"
  by (erule dispatch_once_cases) auto

context containment_store
begin

lemma recorded_lease:
  assumes "en_store E = ops" "ru_containment rt = Some (s, ttl)" "ok s"
    and "record_containment_lease E prepared request receipt rt = (Inr (), rt')"
  shows "\<exists>s' l. ru_containment rt' = Some (s', ttl) \<and> ok s' \<and>
    fst (view s') (containment_lease_id request (rr_receipt_id receipt)) = Some l \<and>
    cn_action l = ar_action request \<and> cn_origin_receipt_id l = rr_receipt_id receipt \<and>
    cn_rollback l = rh_rollback (pn_preview prepared) \<and> cn_issued_at_ms l = pn_issued_at_ms prepared \<and>
    cn_issued_at_ms l < cn_expires_at_ms l \<and>
    cn_expires_at_ms l = i64_saturating_add (pn_issued_at_ms prepared) (ttl_get (pn_ttl prepared))"
proof -
  obtain l where l: "lease_open (containment_lease_id request (rr_receipt_id receipt)) (ar_action request)
      (rr_receipt_id receipt) (map_option (\<lambda>(governance, _). gr_receipt_id (rcpt_payload governance))
        (verified_governance_receipt E request)) (pn_preview prepared) (pn_issued_at_ms prepared) (pn_ttl prepared) = Inr l"
    using assms(4) by (auto simp: record_containment_lease_def Let_def split: sum.splits)
  obtain r s' where s': "so_open_lease ops l s = (r, s')" by fastforce
  have "r = Inr ()" "ru_containment rt' = Some (s', ttl)"
    using assms(4) unfolding record_containment_lease_def Let_def l assms(1,2)
    by (auto simp: s' split: sum.splits)
  moreover have "cn_lease_id l = containment_lease_id request (rr_receipt_id receipt) \<and>
      cn_action l = ar_action request \<and> cn_origin_receipt_id l = rr_receipt_id receipt \<and>
      cn_rollback l = rh_rollback (pn_preview prepared) \<and> cn_issued_at_ms l = pn_issued_at_ms prepared \<and>
      cn_issued_at_ms l < cn_expires_at_ms l \<and>
      cn_expires_at_ms l = i64_saturating_add (pn_issued_at_ms prepared) (ttl_get (pn_ttl prepared))"
    using l by (auto simp: lease_open_def Let_def split: if_splits)
  ultimately show ?thesis
    using open_law [OF assms(3) lease_open_bounded [OF l] s'] by auto
qed

lemma enforced_containment_recorded:
  assumes "en_store E = ops" "ru_containment rt = Some (s, ttl)" "ok s" "ru_mode rt = LiveResponse"
    and "is_containment_action (ar_action request)"
    and "audit_internal E detection request ctx human None approved_by rt = (Inr report, rt')"
    and "at_response (xr_audit report) = Success receipt"
  shows "\<exists>s' l preview. ru_containment rt' = Some (s', ttl) \<and> ok s' \<and>
    fst (view s') (containment_lease_id request (rr_receipt_id receipt)) = Some l \<and>
    cn_action l = ar_action request \<and> cn_origin_receipt_id l = rr_receipt_id receipt \<and>
    build_rehearsal_preview request (''containment-lease:'' @ hunt_str (ar_hunt_id request)) (ac_now_ms ctx) = Inr preview \<and>
    cn_rollback l = rh_rollback preview \<and> cn_issued_at_ms l = ac_now_ms ctx \<and> ac_now_ms ctx < cn_expires_at_ms l \<and>
    cn_expires_at_ms l = i64_saturating_add (ac_now_ms ctx) (ttl_get ttl)"
  using assms(6)
proof (cases rule: audit_internal_cases)
  case skipped
  then show ?thesis using assms(7) by blast
next
  case (dispatched decision g prepared lease mode dispatch rt1 response)
  have mode: "mode = Enforced" using dispatched(4) assms(4) by (simp add: runtime_execution_mode_def)
  obtain preview where preview: "build_rehearsal_preview request
      (''containment-lease:'' @ hunt_str (ar_hunt_id request)) (ac_now_ms ctx) = Inr preview"
    "prepared = Some \<lparr>pn_ttl = ttl, pn_preview = preview, pn_issued_at_ms = ac_now_ms ctx\<rparr>"
    using dispatched(5) assms(2,5) unfolding mode by (auto simp: prepare_containment_def split: sum.splits)
  have rt1: "ru_containment rt1 = Some (s, ttl)"
    using dispatch_once_containment [OF dispatched(8)] assms(2) by simp
  have "response = Success receipt" using dispatched(10) assms(7) by blast
  then obtain attributed where "record_containment_lease E
      \<lparr>pn_ttl = ttl, pn_preview = preview, pn_issued_at_ms = ac_now_ms ctx\<rparr> request attributed rt1 = (Inr (), rt')"
    "attributed = receipt"
    using dispatched(9) unfolding preview(2)
    by (auto simp: dispatched_response_def Let_def split: sum.splits if_splits prod.splits)
  then show ?thesis using recorded_lease [OF assms(1) rt1 assms(3)] preview(1) by fastforce
qed

end

text \<open>
  C11. A live containment that the audit trail calls a success is bounded: the lease store then has an open lease
  for this very action and receipt, with the plan an operator would be shown, issued now and expiring after
  the configured lifetime.
\<close>

theorem enforced_containment_leased:
  assumes "en_store E = lease_file_ops K" "ru_containment rt = Some (s, ttl)" "file_ok K s" "ru_mode rt = LiveResponse"
    and "is_containment_action (ar_action request)"
    and "audit_internal E detection request ctx human None approved_by rt = (Inr report, rt')"
    and "at_response (xr_audit report) = Success receipt"
  shows "\<exists>s' l preview. ru_containment rt' = Some (s', ttl) \<and> file_ok K s' \<and>
    fst (file_view K s') (containment_lease_id request (rr_receipt_id receipt)) = Some l \<and>
    cn_action l = ar_action request \<and> cn_origin_receipt_id l = rr_receipt_id receipt \<and>
    build_rehearsal_preview request (''containment-lease:'' @ hunt_str (ar_hunt_id request)) (ac_now_ms ctx) = Inr preview \<and>
    cn_rollback l = rh_rollback preview \<and> cn_issued_at_ms l = ac_now_ms ctx \<and> ac_now_ms ctx < cn_expires_at_ms l \<and>
    cn_expires_at_ms l = i64_saturating_add (ac_now_ms ctx) (ttl_get ttl)"
  by (rule lease_file.enforced_containment_recorded [OF assms])

section \<open>The sample daemon at work\<close>

abbreviation lane_start :: "(static_approval_gate, file_containment_store, unit \<times> dispatch_call list) swarm_runtime" where
  "lane_start \<equiv> fresh_runtime ''/j'' 1 [] lane_gate ()"

definition lane_boot :: "(static_approval_gate, file_containment_store) lane_op" where
  "lane_boot = LRestart lane_gate LiveResponse None (Some (empty_file [], ContainmentTtl 5000))"

definition lane_up :: "(static_approval_gate, file_containment_store, unit \<times> dispatch_call list) swarm_runtime" where
  "lane_up = lane_step sample_env lane_boot lane_start"

lemma lane_up_facts:
  "snd (ru_response lane_up) = []" "entry_mode lane_up Plain = Enforced" "ru_mode lane_up = LiveResponse"
  "ru_containment lane_up = Some (empty_file [], ContainmentTtl 5000)"
  by (simp_all add: lane_up_def lane_boot_def fresh_runtime_def runtime_execution_mode_def split: prod.splits)

text \<open>A call that executes and is a success.\<close>

lemma lane_calls:
  "case authorize_and_execute sample_env sample_request (sample_context 1000) lane_up of
     (r, rt) \<Rightarrow> \<not> isl r \<and> length (snd (ru_response rt)) = 1"
  by code_simp

lemma lane_called:
  obtains receipt rt where "authorize_and_execute sample_env sample_request (sample_context 1000) lane_up = (Inr receipt, rt)"
    "length (snd (ru_response rt)) = 1"
proof -
  obtain r rt where call: "authorize_and_execute sample_env sample_request (sample_context 1000) lane_up = (r, rt)" by fastforce
  from lane_calls show thesis using that call unfolding call prod.case by (cases r) simp_all
qed

theorem lane_executes_authorised_witness:
  "\<exists>lease. snd (ru_response (lane_call sample_env Plain sample_request (sample_context 1000) lane_up)) =
       [(sample_request, lease, Enforced)] \<and>
     lane_authorised sample_env Plain sample_request (sample_context 1000) lane_up lease \<and>
     reserved sample_env sample_request (sample_context 1000) lane_up lease"
proof -
  have exec: "en_execute sample_env = logged obliging_executor" by (simp add: sample_env_def)
  obtain receipt rt where "authorize_and_execute sample_env sample_request (sample_context 1000) lane_up = (Inr receipt, rt)"
    "length (snd (ru_response rt)) = 1" by (rule lane_called)
  then have "snd (ru_response (lane_call sample_env Plain sample_request (sample_context 1000) lane_up)) \<noteq> snd (ru_response lane_up)"
    using lane_up_facts(1) by auto
  from lane_executes_authorised [OF exec this] show ?thesis
    using lane_up_facts(1,2) by (auto simp del: lane_call.simps entry_mode.simps)
qed

abbreviation lane_ops :: "(static_approval_gate, file_containment_store) lane_op list" where
  "lane_ops \<equiv> [lane_boot, LCall Plain sample_request (sample_context 1000),
     LCall Plain sample_request (sample_context 2000)]"

theorem lane_enforces_once_witness:
  "length (snd (ru_response (lane_run sample_env (take 2 lane_ops) lane_start))) = 1 \<and>
   distinct (enforced_ids sample_env (snd (ru_response (lane_run sample_env lane_ops lane_start))))"
proof
  obtain receipt rt where "authorize_and_execute sample_env sample_request (sample_context 1000) lane_up = (Inr receipt, rt)"
    "length (snd (ru_response rt)) = 1"
    by (rule lane_called)
  moreover have "lane_run sample_env [lane_boot, LCall Plain sample_request (sample_context 1000)] lane_start =
      lane_call sample_env Plain sample_request (sample_context 1000) lane_up"
    by (simp only: lane_run_def lane_up_def fold_simps lane_step.simps(1))
  ultimately show "length (snd (ru_response (lane_run sample_env (take 2 lane_ops) lane_start))) = 1"
    by (simp add: numeral_2_eq_2)
  show "distinct (enforced_ids sample_env (snd (ru_response (lane_run sample_env lane_ops lane_start))))"
    by (rule lane_enforces_once [where X = obliging_executor]) (simp_all add: sample_env_def lane_codec_laws)
qed

theorem enforced_containment_leased_witness:
  "\<exists>s' l i. ru_containment (snd (audit_internal sample_env lane_detection sample_request (sample_context 1000)
       False None None lane_up)) = Some (s', ContainmentTtl 5000) \<and>
     fst (file_view lane_lease_codec s') i = Some l \<and> cn_expires_at_ms l = 6000"
proof -
  obtain a rt' where a: "audit_internal sample_env lane_detection sample_request (sample_context 1000) False None None lane_up = (a, rt')"
    by fastforce
  obtain receipt rt where "authorize_and_execute sample_env sample_request (sample_context 1000) lane_up = (Inr receipt, rt)"
    by (rule lane_called)
  from decided_agrees [OF a this, of receipt] obtain report where report: "a = Inr report"
    "at_response (xr_audit report) = Success receipt" by blast
  have ok: "file_ok lane_lease_codec (empty_file [])"
    by (rule empty_file_ok) (simp add: lane_lease_codec_def listed_codec_ok)
  have store: "en_store sample_env = lease_file_ops lane_lease_codec" by (simp add: sample_env_def)
  have action: "is_containment_action (ar_action sample_request)" by (simp add: sample_request_def is_containment_action_def)
  have "i64_saturating_add 1000 5000 = 6000" by code_simp
  then show ?thesis
    using enforced_containment_leased [OF store lane_up_facts(4) ok lane_up_facts(3) action a [unfolded report(1)] report(2)] a
    by (auto simp: sample_context_def)
qed

end
