(* ===== verification/Http_Rate_Limit.thy ===== *)
theory Http_Rate_Limit
  imports Sliding_Window Guards Ordered_Map
begin

text \<open>
  The per-source HTTP rate limiter (\<^verbatim>\<open>crates/swarm-core/src/http_rate_limit.rs\<close> and \<^verbatim>\<open>HttpRateLimitConfig\<close>
  of \<^verbatim>\<open>config/operator.rs\<close>). The headers are a function from a header name to the value, if the header is
  present and its first value is visible ASCII (\<^verbatim>\<open>get\<close> and \<^verbatim>\<open>to_str\<close> of the \<^verbatim>\<open>http\<close> crate); the peer is
  the text of its address. The sources are a \<^verbatim>\<open>HashMap\<close>: the order in which it visits its entries decides
  which of several least recently seen sources is evicted, so that choice is the argument \<open>pick\<close>.
\<close>

section \<open>Configuration and state\<close>

definition MAX_TRACKED_SOURCES :: usize where "MAX_TRACKED_SOURCES = 4096"
definition MAX_RECENT_VIOLATIONS :: usize where "MAX_RECENT_VIOLATIONS = 64"

record http_rate_limit_config =
  hr_burst_max_requests :: usize
  hr_burst_window_ms :: u64
  hr_sustained_max_requests :: usize
  hr_sustained_window_ms :: u64
  hr_trust_forwarded_headers :: bool

datatype http_threshold = Burst | Sustained

record http_violation =
  hv_source :: string
  hv_path :: string
  hv_threshold :: http_threshold
  hv_observed_at_ms :: i64
  hv_retry_after_ms :: u64

record http_rejection =
  hj_source :: string
  hj_path :: string
  hj_threshold :: http_threshold
  hj_retry_after_ms :: u64

record source_rate =
  so_burst :: "i64 list"
  so_sustained :: "i64 list"
  so_last_seen_ms :: i64

definition source_rate_default :: source_rate where
  "source_rate_default = \<lparr>so_burst = [], so_sustained = [], so_last_seen_ms = 0\<rparr>"

type_synonym source_map = "(string, source_rate) btree"

record http_limiter =
  hl_surface :: string
  hl_config :: http_rate_limit_config
  hl_sources :: source_map
  hl_recent_violations :: "http_violation list"

record http_status =
  hs_surface :: string
  hs_config :: http_rate_limit_config
  hs_recent_violations :: "http_violation list"

definition http_limiter_new :: "string \<Rightarrow> http_rate_limit_config \<Rightarrow> http_limiter" where
  "http_limiter_new surface config =
     \<lparr>hl_surface = surface, hl_config = config, hl_sources = [], hl_recent_violations = []\<rparr>"

definition http_update_config :: "http_limiter \<Rightarrow> http_rate_limit_config \<Rightarrow> http_limiter" where
  "http_update_config limiter config = limiter\<lparr>hl_config := config\<rparr>"

definition http_status_report :: "http_limiter \<Rightarrow> http_status" where
  "http_status_report limiter =
     \<lparr>hs_surface = hl_surface limiter, hs_config = hl_config limiter,
      hs_recent_violations = hl_recent_violations limiter\<rparr>"

section \<open>The source of a request\<close>

type_synonym headers = "string \<Rightarrow> string option"

definition nonempty :: "string \<Rightarrow> string option" where
  "nonempty s = (if s = [] then None else Some s)"

definition first_forwarded_source :: "string \<Rightarrow> string option" where
  "first_forwarded_source v = nonempty (trim (hd (split_char CHR '','' v)))"

definition forwarded_for :: "string \<Rightarrow> string option" where
  "forwarded_for segment =
     (let segment = trim segment in
      if \<not> starts_with segment ''for='' then None
      else let rest = trim (trim_matches {CHR ''\"''} (drop 4 segment));
               rest = trim_end_matches CHR '']'' (trim_start_matches CHR ''['' rest)
           in nonempty rest)"

fun first_some :: "('a \<Rightarrow> 'b option) \<Rightarrow> 'a list \<Rightarrow> 'b option" where
  "first_some f [] = None"
| "first_some f (x # xs) = (case f x of None \<Rightarrow> first_some f xs | Some y \<Rightarrow> Some y)"

definition parse_forwarded_header_source :: "string \<Rightarrow> string option" where
  "parse_forwarded_header_source v =
     first_some (\<lambda>entry. first_some forwarded_for (split_char CHR '';'' entry)) (split_char CHR '','' v)"

definition request_source :: "headers \<Rightarrow> string option \<Rightarrow> bool \<Rightarrow> string" where
  "request_source header peer_ip trust_forwarded_headers =
     (let forwarded = (if trust_forwarded_headers then
            first_some (\<lambda>f. f ())
              [\<lambda>_. Option.bind (header ''x-forwarded-for'') first_forwarded_source,
               \<lambda>_. Option.bind (header ''x-real-ip'') (\<lambda>v. nonempty (trim v)),
               \<lambda>_. Option.bind (header ''forwarded'') parse_forwarded_header_source]
          else None)
      in case forwarded of
           Some source \<Rightarrow> source
         | None \<Rightarrow> (case peer_ip of Some ip \<Rightarrow> ip | None \<Rightarrow> ''unknown''))"

section \<open>Windows\<close>

fun prune_window :: "i64 list \<Rightarrow> i64 \<Rightarrow> u64 \<Rightarrow> i64 list" where
  "prune_window [] now_ms window_ms = []"
| "prune_window (oldest # window) now_ms window_ms =
     (if i64_saturating_sub now_ms oldest < u64_as_i64 window_ms then oldest # window
      else prune_window window now_ms window_ms)"

text \<open>The result is positive, so that \<^verbatim>\<open>as u64\<close> is exact.\<close>

definition http_retry_after_ms :: "i64 list \<Rightarrow> i64 \<Rightarrow> u64 \<Rightarrow> u64" where
  "http_retry_after_ms window now_ms window_ms =
     (case window of
        [] \<Rightarrow> max window_ms 1
      | oldest # _ \<Rightarrow>
          nat (max (i64_saturating_sub (i64_saturating_add oldest (u64_as_i64 window_ms)) now_ms) 1))"

definition push_violation :: "http_violation list \<Rightarrow> http_rejection \<Rightarrow> i64 \<Rightarrow> http_violation list" where
  "push_violation recent rejection now_ms =
     take MAX_RECENT_VIOLATIONS
       (\<lparr>hv_source = hj_source rejection, hv_path = hj_path rejection, hv_threshold = hj_threshold rejection,
         hv_observed_at_ms = now_ms, hv_retry_after_ms = hj_retry_after_ms rejection\<rparr> # recent)"

section \<open>The tracked sources\<close>

definition prune_source :: "i64 \<Rightarrow> http_rate_limit_config \<Rightarrow> source_rate \<Rightarrow> source_rate" where
  "prune_source now_ms config state = state
     \<lparr>so_burst := prune_window (so_burst state) now_ms (hr_burst_window_ms config),
      so_sustained := prune_window (so_sustained state) now_ms (hr_sustained_window_ms config)\<rparr>"

definition source_idle :: "i64 \<Rightarrow> http_rate_limit_config \<Rightarrow> source_rate \<Rightarrow> bool" where
  "source_idle now_ms config state \<longleftrightarrow> so_burst state = [] \<and> so_sustained state = [] \<and>
     i64_saturating_sub now_ms (so_last_seen_ms state) \<ge> u64_as_i64 (hr_sustained_window_ms config)"

text \<open>The entry with the least \<^verbatim>\<open>last_seen_ms\<close> that the map visits first.\<close>

definition oldest_key :: "(source_map \<Rightarrow> nat) \<Rightarrow> source_map \<Rightarrow> string" where
  "oldest_key pick sources =
     (let least = Min (set (map (so_last_seen_ms \<circ> snd) sources));
          ties = filter (\<lambda>(_, state). so_last_seen_ms state = least) sources
      in fst (ties ! (pick sources mod length ties)))"

lemma oldest_key_in: "sources \<noteq> [] \<Longrightarrow> oldest_key pick sources \<in> fst ` set sources"
proof -
  assume nonempty: "sources \<noteq> []"
  let ?least = "Min (set (map (so_last_seen_ms \<circ> snd) sources))"
  let ?ties = "filter (\<lambda>(_, state). so_last_seen_ms state = ?least) sources"
  have "?least \<in> set (map (so_last_seen_ms \<circ> snd) sources)" using nonempty by (intro Min_in) auto
  then obtain k st where "(k, st) \<in> set sources" "so_last_seen_ms st = ?least" by force
  then have "?ties \<noteq> []" by (auto simp: filter_empty_conv)
  then have "?ties ! (pick sources mod length ?ties) \<in> set ?ties" by (intro nth_mem) simp
  then show ?thesis unfolding oldest_key_def Let_def by auto
qed

function evict_oldest :: "(source_map \<Rightarrow> nat) \<Rightarrow> source_map \<Rightarrow> source_map" where
  "evict_oldest pick sources =
     (if length sources > MAX_TRACKED_SOURCES
      then evict_oldest pick (bt_retain (\<lambda>k. k \<noteq> oldest_key pick sources) sources)
      else sources)"
  by pat_completeness auto
termination
proof (relation "measure (\<lambda>(pick, sources). length sources)")
  fix pick and sources :: source_map
  assume "length sources > MAX_TRACKED_SOURCES"
  then have "oldest_key pick sources \<in> fst ` set sources" by (intro oldest_key_in) auto
  then have "length (filter (\<lambda>(k, v). k \<noteq> oldest_key pick sources) sources) < length sources"
    by (auto simp: length_filter_less)
  then show "((pick, bt_retain (\<lambda>k. k \<noteq> oldest_key pick sources) sources), pick, sources) \<in>
      measure (\<lambda>(pick, sources). length sources)"
    by (simp add: bt_retain_def)
qed simp

declare evict_oldest.simps [simp del]

definition compact_sources ::
  "(source_map \<Rightarrow> nat) \<Rightarrow> source_map \<Rightarrow> i64 \<Rightarrow> http_rate_limit_config \<Rightarrow> source_map" where
  "compact_sources pick sources now_ms config =
     evict_oldest pick
       (filter (\<lambda>(_, state). \<not> source_idle now_ms config state)
         (bt_map (\<lambda>_. prune_source now_ms config) sources))"

section \<open>Checking a request\<close>

definition check_source ::
  "(source_map \<Rightarrow> nat) \<Rightarrow> string \<Rightarrow> string \<Rightarrow> i64 \<Rightarrow> http_limiter \<Rightarrow>
   (http_rejection + unit) \<times> http_limiter" where
  "check_source pick source path now_ms limiter =
     (let config = hl_config limiter;
          state = prune_source now_ms config
            (case bt_get (hl_sources limiter) source of None \<Rightarrow> source_rate_default | Some state \<Rightarrow> state);
          rejection = (\<lambda>threshold window window_ms.
            \<lparr>hj_source = source, hj_path = path, hj_threshold = threshold,
             hj_retry_after_ms = http_retry_after_ms window now_ms window_ms\<rparr>);
          settle = (\<lambda>state. compact_sources pick (bt_insert source state (hl_sources limiter)) now_ms config)
      in if length (so_burst state) \<ge> hr_burst_max_requests config then
           let rejected = rejection Burst (so_burst state) (hr_burst_window_ms config) in
           (Inl rejected, limiter\<lparr>hl_sources := settle state,
              hl_recent_violations := push_violation (hl_recent_violations limiter) rejected now_ms\<rparr>)
         else if length (so_sustained state) \<ge> hr_sustained_max_requests config then
           let rejected = rejection Sustained (so_sustained state) (hr_sustained_window_ms config) in
           (Inl rejected, limiter\<lparr>hl_sources := settle state,
              hl_recent_violations := push_violation (hl_recent_violations limiter) rejected now_ms\<rparr>)
         else
           (Inr (), limiter\<lparr>hl_sources := settle (state
              \<lparr>so_burst := so_burst state @ [now_ms], so_sustained := so_sustained state @ [now_ms],
               so_last_seen_ms := now_ms\<rparr>)\<rparr>))"

record http_request =
  hq_headers :: headers
  hq_peer_ip :: "string option"
  hq_path :: string
  hq_now_ms :: i64

definition check_request ::
  "(source_map \<Rightarrow> nat) \<Rightarrow> http_request \<Rightarrow> http_limiter \<Rightarrow> (http_rejection + unit) \<times> http_limiter" where
  "check_request pick request limiter =
     check_source pick
       (request_source (hq_headers request) (hq_peer_ip request) (hr_trust_forwarded_headers (hl_config limiter)))
       (hq_path request) (hq_now_ms request) limiter"

end
