(* ===== verification/Http_Quota.thy ===== *)
theory Http_Quota
  imports Http_Rate_Limit
begin

text \<open>
  What the HTTP limiter guarantees: its memory is bounded whatever arrives, and while it does not have to
  evict sources, no source gets more requests through than its two windows allow.
\<close>

section \<open>Sources\<close>

definition source_of :: "source_map \<Rightarrow> string \<Rightarrow> source_rate" where
  "source_of sources k = (case bt_get sources k of None \<Rightarrow> source_rate_default | Some state \<Rightarrow> state)"

lemma evict_bounded: "length (evict_oldest pick sources) \<le> MAX_TRACKED_SOURCES"
  by (induction pick sources rule: evict_oldest.induct) (subst evict_oldest.simps, auto)

lemma evict_nothing: "length sources \<le> MAX_TRACKED_SOURCES \<Longrightarrow> evict_oldest pick sources = sources"
  by (subst evict_oldest.simps) simp

lemma evict_ok: "bt_ok sources \<Longrightarrow> bt_ok (evict_oldest pick sources)"
proof (induction pick sources rule: evict_oldest.induct)
  case (1 pick sources)
  then show ?case by (subst evict_oldest.simps) (simp add: bt_retain_def bt_ok_filter)
qed

lemma evict_keys: "fst ` set (evict_oldest pick sources) \<subseteq> fst ` set sources"
proof (induction pick sources rule: evict_oldest.induct)
  case (1 pick sources)
  then show ?case by (subst evict_oldest.simps) (auto simp: bt_retain_def)
qed

lemma compact_ok: "bt_ok sources \<Longrightarrow> bt_ok (compact_sources pick sources now_ms config)"
  unfolding compact_sources_def by (intro evict_ok bt_ok_filter) simp

lemma compact_keys: "fst ` set (compact_sources pick sources now_ms config) \<subseteq> fst ` set sources"
proof -
  have "fst ` set (compact_sources pick sources now_ms config) \<subseteq>
      fst ` set (filter (\<lambda>(_, state). \<not> source_idle now_ms config state) (bt_map (\<lambda>_. prune_source now_ms config) sources))"
    unfolding compact_sources_def by (rule evict_keys)
  also have "\<dots> \<subseteq> fst ` set sources" by (force simp: bt_map_def)
  finally show ?thesis .
qed

lemma bt_length_keys: "bt_ok m \<Longrightarrow> length m = card (fst ` set m)"
  by (metis bt_ok_distinct distinct_card length_map list.set_map)

section \<open>Bounded memory\<close>

datatype http_op = HttpCheck http_request | HttpConfig http_rate_limit_config

fun http_step :: "(source_map \<Rightarrow> nat) \<Rightarrow> http_op \<Rightarrow> http_limiter \<Rightarrow> http_limiter" where
  "http_step pick (HttpCheck request) limiter = snd (check_request pick request limiter)"
| "http_step pick (HttpConfig config) limiter = http_update_config limiter config"

definition http_ok :: "http_limiter \<Rightarrow> bool" where
  "http_ok limiter \<longleftrightarrow> bt_ok (hl_sources limiter) \<and> length (hl_sources limiter) \<le> MAX_TRACKED_SOURCES \<and>
     length (hl_recent_violations limiter) \<le> MAX_RECENT_VIOLATIONS"

lemma http_ok_check: "http_ok limiter \<Longrightarrow> http_ok (snd (check_source pick source path now_ms limiter))"
  by (auto simp: http_ok_def check_source_def Let_def push_violation_def compact_ok)
    (auto simp: compact_sources_def evict_bounded)

lemma http_ok_step: "http_ok limiter \<Longrightarrow> http_ok (http_step pick op limiter)"
  by (cases op) (auto simp: check_request_def http_ok_check http_update_config_def, simp add: http_ok_def)

lemma http_ok_run: "http_ok limiter \<Longrightarrow> http_ok (fold (http_step pick) ops limiter)"
  by (induction ops arbitrary: limiter) (simp_all add: http_ok_step)

text \<open>
  C27. The limiter's memory is bounded: after any sequence of requests with any headers and clocks, and of
  configuration changes, at most 4096 sources and 64 violations are kept.
\<close>

theorem http_memory_bounded:
  "length (hl_sources (fold (http_step pick) ops (http_limiter_new surface config))) \<le> MAX_TRACKED_SOURCES \<and>
   length (hs_recent_violations (http_status_report (fold (http_step pick) ops (http_limiter_new surface config))))
     \<le> MAX_RECENT_VIOLATIONS"
proof -
  have "http_ok (http_limiter_new surface config)" by (simp add: http_ok_def http_limiter_new_def)
  from http_ok_run [OF this, of pick ops] show ?thesis by (simp add: http_ok_def http_status_report_def)
qed

section \<open>Quotas\<close>

definition http_clock :: "i64 \<Rightarrow> bool" where
  "http_clock now_ms \<longleftrightarrow> 0 \<le> now_ms \<and> now_ms \<le> i64_max"

definition widths_ok :: "http_rate_limit_config \<Rightarrow> bool" where
  "widths_ok config \<longleftrightarrow> 0 < hr_burst_window_ms config \<and> int (hr_burst_window_ms config) \<le> i64_max \<and>
     0 < hr_sustained_window_ms config \<and> int (hr_sustained_window_ms config) \<le> i64_max"

lemma prune_window_filter:
  assumes "sorted w" "\<forall>t \<in> set w. 0 \<le> t \<and> t \<le> now_ms" "http_clock now_ms" "int window_ms \<le> i64_max"
  shows "prune_window w now_ms window_ms = filter (\<lambda>t. now_ms - int window_ms < t) w"
  using assms
proof (induction w)
  case (Cons x w)
  have "i64_saturating_sub now_ms x = now_ms - x"
    using Cons.prems(2,3) by (auto simp: machine_int_defs http_clock_def)
  moreover have "u64_as_i64 window_ms = int window_ms" using Cons.prems(4) by (simp add: u64_as_i64_def)
  moreover have "filter (\<lambda>t. now_ms - int window_ms < t) w = w" if "now_ms - int window_ms < x"
    using that Cons.prems(1) by (intro filter_True) auto
  ultimately show ?case using Cons by auto
qed simp

text \<open>The windows of every source follow the times at which it was let through.\<close>

definition quota_tracks :: "http_rate_limit_config \<Rightarrow> i64 \<Rightarrow> i64 list \<Rightarrow> source_rate \<Rightarrow> bool" where
  "quota_tracks config t0 H state \<longleftrightarrow> (\<forall>t \<in> set H. 0 \<le> t) \<and>
     window_tracks (int (hr_burst_window_ms config)) (hr_burst_max_requests config) t0 H (so_burst state) \<and>
     window_tracks (int (hr_sustained_window_ms config)) (hr_sustained_max_requests config) t0 H (so_sustained state)"

lemma quota_tracks_default: "quota_tracks config t0 [] source_rate_default"
  by (simp add: quota_tracks_def source_rate_default_def window_tracks_empty)

lemma window_tracks_members: "window_tracks W limit t0 H w \<Longrightarrow> set w \<subseteq> set H"
  by (auto simp: window_tracks_def)

lemma quota_pruned:
  assumes "quota_tracks config t0 H state" "t0 \<le> now_ms" "http_clock now_ms" "widths_ok config"
  shows "so_burst (prune_source now_ms config state) =
      filter (\<lambda>t. now_ms - int (hr_burst_window_ms config) < t) (so_burst state) \<and>
    so_sustained (prune_source now_ms config state) =
      filter (\<lambda>t. now_ms - int (hr_sustained_window_ms config) < t) (so_sustained state)"
proof -
  have "sorted w \<and> (\<forall>t \<in> set w. 0 \<le> t \<and> t \<le> now_ms)" if "window_tracks W limit t0 H w" for W limit w
    using window_tracks_sorted [OF that] window_tracks_members [OF that] assms(1,2)
    by (force simp: quota_tracks_def)
  then show ?thesis
    using assms by (auto simp: prune_source_def quota_tracks_def widths_ok_def intro!: prune_window_filter)
qed

lemma quota_tracks_prune:
  assumes "quota_tracks config t0 H state" "t0 \<le> now_ms" "http_clock now_ms" "widths_ok config"
  shows "quota_tracks config now_ms H (prune_source now_ms config state)"
  using assms quota_pruned [OF assms] by (auto simp: quota_tracks_def intro: window_tracks_prune)

lemma quota_tracks_admit:
  assumes "quota_tracks config t0 H state" "t0 \<le> now_ms" "http_clock now_ms" "widths_ok config"
    and "length (so_burst (prune_source now_ms config state)) < hr_burst_max_requests config"
    and "length (so_sustained (prune_source now_ms config state)) < hr_sustained_max_requests config"
  shows "quota_tracks config now_ms (H @ [now_ms]) ((prune_source now_ms config state)
     \<lparr>so_burst := so_burst (prune_source now_ms config state) @ [now_ms],
      so_sustained := so_sustained (prune_source now_ms config state) @ [now_ms], so_last_seen_ms := now_ms\<rparr>)"
  using assms quota_pruned [OF assms(1-4)]
  by (auto simp: quota_tracks_def widths_ok_def http_clock_def intro!: window_tracks_admit)

text \<open>Without an eviction, compaction prunes the windows of every source and forgets empty ones.\<close>

lemma source_of_filtered:
  assumes "bt_ok sources"
  shows "source_of (filter (\<lambda>(_, state). P state) sources) k =
    (case bt_get sources k of Some state \<Rightarrow> if P state then state else source_rate_default | None \<Rightarrow> source_rate_default)"
  using bt_ok_distinct [OF assms]
proof (induction sources)
  case (Cons kv sources)
  obtain k' v where kv: "kv = (k', v)" by fastforce
  have "map_of (filter (\<lambda>(_, state). P state) sources) k' = None"
    using Cons.prems kv by (auto simp: map_of_eq_None_iff)
  moreover have "map_of sources k' = None" using Cons.prems kv by (auto simp: map_of_eq_None_iff)
  ultimately show ?case
    using Cons kv by (auto simp: source_of_def bt_get_def)
qed (simp add: source_of_def)

lemma quota_tracks_idle:
  "quota_tracks config t0 H state \<Longrightarrow> so_burst state = [] \<Longrightarrow> so_sustained state = [] \<Longrightarrow>
   quota_tracks config t0 H source_rate_default"
  by (simp add: quota_tracks_def source_rate_default_def)

lemma compact_tracks:
  assumes "bt_ok sources" "length sources \<le> MAX_TRACKED_SOURCES"
    and "\<And>k. quota_tracks config t0 (Hs k) (source_of sources k)" "t0 \<le> now_ms" "http_clock now_ms" "widths_ok config"
  shows "quota_tracks config now_ms (Hs k) (source_of (compact_sources pick sources now_ms config) k)"
proof -
  let ?pruned = "bt_map (\<lambda>_. prune_source now_ms config) sources"
  have "length (filter (\<lambda>(_, state). \<not> source_idle now_ms config state) ?pruned) \<le> MAX_TRACKED_SOURCES"
    using assms(2) le_trans [OF length_filter_le] by (simp add: bt_map_def)
  then have compacted: "compact_sources pick sources now_ms config =
      filter (\<lambda>(_, state). \<not> source_idle now_ms config state) ?pruned"
    by (simp add: compact_sources_def evict_nothing)
  have here: "quota_tracks config now_ms (Hs k) (prune_source now_ms config (source_of sources k))"
    by (rule quota_tracks_prune [OF assms(3-6)])
  have "prune_source now_ms config source_rate_default = source_rate_default"
    by (simp add: prune_source_def source_rate_default_def)
  then show ?thesis
    unfolding compacted using source_of_filtered [of ?pruned "\<lambda>state. \<not> source_idle now_ms config state" k] assms(1) here
    by (auto simp: source_of_def source_idle_def dest: quota_tracks_idle split: option.splits if_splits)
qed

section \<open>Runs of requests\<close>

fun http_run :: "(source_map \<Rightarrow> nat) \<Rightarrow> http_request list \<Rightarrow> http_limiter \<Rightarrow> (http_rejection + unit) list" where
  "http_run pick [] limiter = []"
| "http_run pick (request # requests) limiter =
     (case check_request pick request limiter of (r, limiter) \<Rightarrow> r # http_run pick requests limiter)"

definition client_of :: "http_rate_limit_config \<Rightarrow> http_request \<Rightarrow> string" where
  "client_of config request =
     request_source (hq_headers request) (hq_peer_ip request) (hr_trust_forwarded_headers config)"

text \<open>The times at which requests of one source were let through.\<close>

definition admitted_times ::
  "http_rate_limit_config \<Rightarrow> string \<Rightarrow> http_request list \<Rightarrow> (http_rejection + unit) list \<Rightarrow> i64 list" where
  "admitted_times config source requests outs =
     map (hq_now_ms \<circ> fst) (filter (\<lambda>(request, out). client_of config request = source \<and> out = Inr ()) (zip requests outs))"

definition http_tracks :: "i64 \<Rightarrow> (string \<Rightarrow> i64 list) \<Rightarrow> string set \<Rightarrow> http_limiter \<Rightarrow> bool" where
  "http_tracks t0 Hs seen limiter \<longleftrightarrow> bt_ok (hl_sources limiter) \<and> fst ` set (hl_sources limiter) \<subseteq> seen \<and>
     (\<forall>k. quota_tracks (hl_config limiter) t0 (Hs k) (source_of (hl_sources limiter) k))"

lemma source_of_insert: "source_of (bt_insert k v m) j = (if j = k then v else source_of m j)"
  by (simp add: source_of_def)

lemma check_source_tracks:
  assumes inv: "http_tracks t0 Hs seen limiter" and le: "t0 \<le> now_ms" and clock: "http_clock now_ms"
    and widths: "widths_ok (hl_config limiter)" and seen: "finite seen" "card seen \<le> MAX_TRACKED_SOURCES" "source \<in> seen"
  shows "case check_source pick source path now_ms limiter of
      (Inr _, limiter') \<Rightarrow> http_tracks now_ms (Hs(source := Hs source @ [now_ms])) seen limiter' \<and> hl_config limiter' = hl_config limiter
    | (Inl _, limiter') \<Rightarrow> http_tracks now_ms Hs seen limiter' \<and> hl_config limiter' = hl_config limiter"
proof -
  let ?m = "hl_sources limiter" and ?config = "hl_config limiter"
  let ?state = "prune_source now_ms ?config (source_of ?m source)"
  have ok: "bt_ok ?m" "fst ` set ?m \<subseteq> seen" and q: "\<And>k. quota_tracks ?config t0 (Hs k) (source_of ?m k)"
    using inv by (auto simp: http_tracks_def)
  have settle: "http_tracks now_ms Hs' seen l"
    if "quota_tracks ?config now_ms (Hs' source) st" "\<And>k. k \<noteq> source \<Longrightarrow> Hs' k = Hs k" "hl_config l = ?config"
      "hl_sources l = compact_sources pick (bt_insert source st ?m) now_ms ?config" for Hs' st l
  proof -
    have "length (bt_insert source st ?m) \<le> MAX_TRACKED_SOURCES"
      using bt_length_keys [OF bt_ok_insert [OF ok(1)], of source st] seen ok(2)
      by (simp add: set_bt_insert) (meson card_mono insert_subset le_trans)
    moreover have "quota_tracks ?config now_ms (Hs' k) (source_of (bt_insert source st ?m) k)" for k
      using that(1,2) q [of k] le by (auto simp: source_of_insert quota_tracks_def intro: window_tracks_later)
    ultimately have "quota_tracks ?config now_ms (Hs' k) (source_of (compact_sources pick (bt_insert source st ?m) now_ms ?config) k)" for k
      by (intro compact_tracks [OF bt_ok_insert [OF ok(1)] _ _ order_refl clock widths])
    moreover have "fst ` set (compact_sources pick (bt_insert source st ?m) now_ms ?config) \<subseteq> seen"
      using compact_keys [of pick "bt_insert source st ?m" now_ms ?config] seen(3) ok(2) by (auto simp: set_bt_insert)
    ultimately show ?thesis using ok(1) that(3,4) by (simp add: http_tracks_def compact_ok)
  qed
  have pruned: "quota_tracks ?config now_ms (Hs source) ?state" by (rule quota_tracks_prune [OF q le clock widths])
  have admit: "quota_tracks ?config now_ms (Hs source @ [now_ms])
      (?state\<lparr>so_burst := so_burst ?state @ [now_ms], so_sustained := so_sustained ?state @ [now_ms], so_last_seen_ms := now_ms\<rparr>)"
    if "length (so_burst ?state) < hr_burst_max_requests ?config" "length (so_sustained ?state) < hr_sustained_max_requests ?config"
    by (rule quota_tracks_admit [OF q le clock widths that])
  show ?thesis
    unfolding check_source_def Let_def source_of_def [symmetric]
    by (auto simp: not_le intro!: settle [of Hs, OF pruned] settle [of "Hs(source := Hs source @ [now_ms])"] admit)
qed

lemma http_run_tracks:
  assumes "http_tracks t0 Hs seen limiter" "hl_config limiter = config" "widths_ok config" "finite seen"
    and "card seen \<le> MAX_TRACKED_SOURCES" "client_of config ` set requests \<subseteq> seen"
    and "sorted (t0 # map hq_now_ms requests)" "\<forall>request \<in> set requests. http_clock (hq_now_ms request)"
  shows "\<exists>t1 w w'. let H = Hs k @ admitted_times config k requests (http_run pick requests limiter) in
    window_tracks (int (hr_burst_window_ms config)) (hr_burst_max_requests config) t1 H w \<and>
    window_tracks (int (hr_sustained_window_ms config)) (hr_sustained_max_requests config) t1 H w'"
  using assms
proof (induction requests arbitrary: t0 Hs limiter)
  case Nil
  then have "quota_tracks config t0 (Hs k) (source_of (hl_sources limiter) k)" by (auto simp: http_tracks_def)
  then show ?case by (auto simp: admitted_times_def quota_tracks_def Let_def)
next
  case (Cons request requests)
  obtain r limiter' where r: "check_request pick request limiter = (r, limiter')" by fastforce
  let ?source = "client_of config request" and ?now = "hq_now_ms request"
  let ?Hs = "if r = Inr () then Hs(?source := Hs ?source @ [?now]) else Hs"
  have "http_tracks ?now ?Hs seen limiter' \<and> hl_config limiter' = config"
    using check_source_tracks [OF Cons.prems(1), of ?now ?source pick "hq_path request"] Cons.prems r
    by (cases r) (auto simp: check_request_def client_of_def)
  then have "\<exists>t1 w w'. let H = ?Hs k @ admitted_times config k requests (http_run pick requests limiter') in
    window_tracks (int (hr_burst_window_ms config)) (hr_burst_max_requests config) t1 H w \<and>
    window_tracks (int (hr_sustained_window_ms config)) (hr_sustained_max_requests config) t1 H w'"
    using Cons.prems by (intro Cons.IH) (auto simp del: if_image_distrib fun_upd_apply)
  moreover have "?Hs k @ admitted_times config k requests (http_run pick requests limiter') =
      Hs k @ admitted_times config k (request # requests) (http_run pick (request # requests) limiter)"
    by (auto simp: admitted_times_def r)
  ultimately show ?case by simp
qed

text \<open>
  C19. While at most 4096 different sources are seen and the clock does not run backwards, no source gets more
  than the configured number of requests through in any burst window, nor in any sustained window.
\<close>

theorem http_quota_kept:
  assumes "widths_ok config" "card (client_of config ` set requests) \<le> MAX_TRACKED_SOURCES"
    and "sorted (map hq_now_ms requests)" "\<forall>request \<in> set requests. http_clock (hq_now_ms request)"
  shows "length (trailing_in (int (hr_burst_window_ms config)) t (admitted_times config source requests
        (http_run pick requests (http_limiter_new surface config)))) \<le> hr_burst_max_requests config \<and>
    length (trailing_in (int (hr_sustained_window_ms config)) t (admitted_times config source requests
        (http_run pick requests (http_limiter_new surface config)))) \<le> hr_sustained_max_requests config"
proof -
  have "http_tracks 0 (\<lambda>_. []) (client_of config ` set requests) (http_limiter_new surface config)"
    by (simp add: http_tracks_def http_limiter_new_def source_of_def quota_tracks_default)
  from http_run_tracks [OF this _ assms(1) _ assms(2) _ _ assms(4), of source pick] assms(3,4)
  show ?thesis
    by (auto simp: http_limiter_new_def http_clock_def Let_def dest: window_tracks_bounded)
qed

definition sample_http_config :: http_rate_limit_config where
  "sample_http_config = \<lparr>hr_burst_max_requests = 1, hr_burst_window_ms = 10, hr_sustained_max_requests = 2,
     hr_sustained_window_ms = 100, hr_trust_forwarded_headers = False\<rparr>"

definition sample_http_request :: "i64 \<Rightarrow> http_request" where
  "sample_http_request t = \<lparr>hq_headers = (\<lambda>_. None), hq_peer_ip = Some ''10.0.0.1'', hq_path = ''/'', hq_now_ms = t\<rparr>"

abbreviation sample_http_requests :: "http_request list" where
  "sample_http_requests \<equiv> map sample_http_request [0, 5, 20, 40]"

theorem http_quota_kept_witness:
  "admitted_times sample_http_config ''10.0.0.1'' sample_http_requests
     (http_run (\<lambda>_. 0) sample_http_requests (http_limiter_new ''operator'' sample_http_config)) = [0, 20] \<and>
   length (trailing_in 100 40 (admitted_times sample_http_config ''10.0.0.1'' sample_http_requests
     (http_run (\<lambda>_. 0) sample_http_requests (http_limiter_new ''operator'' sample_http_config)))) \<le> 2"
proof
  show "admitted_times sample_http_config ''10.0.0.1'' sample_http_requests
     (http_run (\<lambda>_. 0) sample_http_requests (http_limiter_new ''operator'' sample_http_config)) = [0, 20]"
    by code_simp
  have "card (client_of sample_http_config ` set sample_http_requests) \<le> MAX_TRACKED_SOURCES"
    by (rule order_trans [OF card_image_le [OF finite_set] order_trans [OF card_length]])
      (simp add: MAX_TRACKED_SOURCES_def)
  then show "length (trailing_in 100 40 (admitted_times sample_http_config ''10.0.0.1'' sample_http_requests
     (http_run (\<lambda>_. 0) sample_http_requests (http_limiter_new ''operator'' sample_http_config)))) \<le> 2"
    using http_quota_kept [of sample_http_config sample_http_requests 40 "''10.0.0.1''" "\<lambda>_. 0" "''operator''"]
    by (simp add: widths_ok_def sample_http_config_def sample_http_request_def http_clock_def i64_max_def)
qed

end
