(* ===== verification/Canonical_Form.thy ===== *)
theory Canonical_Form
  imports Crypto_Instance
begin

text \<open>
  Canonical JSON is unambiguous: from the text of a value without floats the value can be read back, up to
  the order of object entries. Every signature and hash of the swarm is over such texts, so this is what
  makes them commit to values. The proof reads the text from the left and keeps what remains.
\<close>

section \<open>Strings\<close>

definition hex_val :: "char \<Rightarrow> nat" where
  "hex_val c = (if of_char c < (58 :: nat) then of_char c - 48 else of_char c - 87)"

lemma hex_val_digit: "d < 16 \<Longrightarrow> hex_val (hex_digit d) = d"
  by (auto simp: hex_val_def hex_digit_def)

text \<open>Reads the inside of a string up to its closing quote, and returns the string and what remains.\<close>

fun unescape :: "string \<Rightarrow> string \<times> string" where
  "unescape [] = ([], [])"
| "unescape (c # cs) =
     (if c = CHR 0x22 then ([], cs)
      else if c = CHR 0x5C then
        (case cs of
           [] \<Rightarrow> ([], [])
         | d # ds \<Rightarrow>
             if d = CHR ''u'' then
               (case ds of
                  _ # _ # h # l # rest \<Rightarrow>
                    let n = 16 * hex_val h + hex_val l;
                        raw = (if n < 0x80 then [char_of n] else [CHR 0xC2, char_of n])
                    in (case unescape rest of (s, r) \<Rightarrow> (raw @ s, r))
                | _ \<Rightarrow> ([], []))
             else
               let raw = (if d = CHR ''b'' then CHR 0x08 else if d = CHR ''f'' then CHR 0x0C
                          else if d = CHR ''n'' then CHR 0x0A else if d = CHR ''r'' then CHR 0x0D
                          else if d = CHR ''t'' then CHR 0x09 else d)
               in (case unescape ds of (s, r) \<Rightarrow> (raw # s, r)))
      else (case unescape cs of (s, r) \<Rightarrow> (c # s, r)))"

lemma char_of_of: "char_of (of_char c :: nat) = c" by simp

lemma unescape_quote: "unescape (CHR 0x22 # cs) = ([], cs)" by simp

lemma unescape_raw:
  "c \<noteq> CHR 0x22 \<Longrightarrow> c \<noteq> CHR 0x5C \<Longrightarrow> unescape (c # cs) = (c # fst (unescape cs), snd (unescape cs))"
  by (simp split: prod.splits)

lemma unescape_pair:
  assumes "(c, d) \<in> {(CHR 0x22, CHR 0x22), (CHR 0x5C, CHR 0x5C), (CHR 0x08, CHR ''b''), (CHR 0x0C, CHR ''f''),
    (CHR 0x0A, CHR ''n''), (CHR 0x0D, CHR ''r''), (CHR 0x09, CHR ''t'')}"
  shows "unescape (CHR 0x5C # d # cs) = (c # fst (unescape cs), snd (unescape cs))"
  using assms by (auto split: prod.splits)

lemma unescape_unicode:
  "n < 256 \<Longrightarrow> unescape (unicode_escape n @ cs) =
    ((if n < 0x80 then [char_of n] else [CHR 0xC2, char_of n]) @ fst (unescape cs), snd (unescape cs))"
  by (simp add: unicode_escape_def hex_val_digit Let_def split: prod.splits)

declare unescape.simps [simp del]

lemma unescape_escape: "unescape (escape_json_string s @ CHR 0x22 # r) = (s, r)"
proof (induction s rule: length_induct)
  case (1 s)
  have bound: "(of_char x :: nat) < 256" for x by (metis nat_of_char_less_256)
  show ?case
  proof (cases s)
    case (Cons c cs)
    have IH: "unescape (escape_json_string cs @ CHR 0x22 # r) = (cs, r)" using 1 Cons by simp
    show ?thesis
    proof (cases "c \<in> {CHR 0x22, CHR 0x5C, CHR 0x08, CHR 0x0C, CHR 0x0A, CHR 0x0D, CHR 0x09}")
      case True
      then show ?thesis
        unfolding Cons by (elim insertE emptyE) (simp_all add: IH unescape_pair)
    next
      case special: False
      show ?thesis
      proof (cases "of_char c < (0x20 :: nat) \<or> of_char c = (0x7F :: nat)")
        case True
        then have "(of_char c :: nat) < 0x80" "escape_json_string s = unicode_escape (of_char c) @ escape_json_string cs"
          using special by (auto simp: Cons)
        then show ?thesis by (simp add: unescape_unicode IH Cons)
      next
        case unescaped: False
        show ?thesis
        proof (cases "\<exists>d ds. cs = d # ds \<and> of_char c = (0xC2 :: nat) \<and> 0x80 \<le> (of_char d :: nat) \<and> of_char d \<le> (0x9F :: nat)")
          case True
          then obtain d ds where d: "cs = d # ds" "of_char c = (0xC2 :: nat)" "0x80 \<le> (of_char d :: nat)" "of_char d \<le> (0x9F :: nat)"
            by auto
          have "(of_char c :: nat) = of_char (CHR 0xC2)" using d(2) by simp
          then have c: "c = CHR 0xC2" by (simp only: of_char_eq_iff)
          have "escape_json_string s = unicode_escape (of_char d) @ escape_json_string ds"
            using d(3,4) by (simp add: Cons d(1) c)
          moreover have "unescape (escape_json_string ds @ CHR 0x22 # r) = (ds, r)" using 1 Cons d(1) by simp
          ultimately show ?thesis using d(3) bound [of d] by (simp add: unescape_unicode Cons d(1) c)
        next
          case False
          then have "escape_json_string s = c # escape_json_string cs"
            using special unescaped by (cases cs) (auto simp: Cons)
          then show ?thesis using special by (simp add: unescape_raw IH Cons)
        qed
      qed
    qed
  qed (simp add: unescape_quote)
qed

lemma quoted_append: "quoted k @ r = CHR 0x22 # escape_json_string k @ CHR 0x22 # r"
  by (simp add: quoted_def)

lemma quoted_prefix:
  assumes "quoted k @ r = quoted k' @ r'"
  shows "k = k' \<and> r = r'"
proof -
  have "unescape (escape_json_string k @ CHR 0x22 # r) = unescape (escape_json_string k' @ CHR 0x22 # r')"
    using assms unfolding quoted_append list.inject by (metis append_same_eq)
  then show ?thesis unfolding unescape_escape by simp
qed

section \<open>Numbers\<close>

text \<open>Characters that may follow a value inside a text.\<close>

definition stop :: "string \<Rightarrow> bool" where
  "stop r \<longleftrightarrow> (case r of [] \<Rightarrow> True | c # _ \<Rightarrow> c \<in> {CHR '','', CHR '']'', CHR ''}''})"

lemma digit_char: "c \<in> set (dec_nat n) \<Longrightarrow> 48 \<le> (of_char c :: nat) \<and> (of_char c :: nat) < 58"
  using dec_nat_digits [of n] by (auto simp: digit_code)

definition numeric :: "char \<Rightarrow> bool" where
  "numeric c \<longleftrightarrow> c = CHR ''-'' \<or> (48 \<le> (of_char c :: nat) \<and> (of_char c :: nat) < 58)"

lemma dec_int_numeric: "list_all numeric (dec_int i)"
  by (auto simp: list_all_iff dec_int_def numeric_def dest: digit_char)

lemma dec_int_nonempty: "dec_int i \<noteq> []"
  by (simp add: dec_int_def)

lemma takeWhile_number: "list_all numeric ds \<Longrightarrow> stop r \<Longrightarrow> takeWhile numeric (ds @ r) = ds"
proof -
  assume "list_all numeric ds" "stop r"
  moreover have "\<not> numeric (CHR '','')" "\<not> numeric (CHR '']'')" "\<not> numeric (CHR ''}'')" by (simp_all add: numeric_def)
  ultimately show ?thesis by (cases r) (auto simp: takeWhile_append2 list_all_iff stop_def)
qed

lemma number_prefix:
  assumes "dec_int i @ r = dec_int j @ r'" "stop r" "stop r'"
  shows "i = j"
proof -
  have "dec_int i = takeWhile numeric (dec_int i @ r)" by (simp only: takeWhile_number [OF dec_int_numeric assms(2)])
  also have "\<dots> = dec_int j" unfolding assms(1) by (rule takeWhile_number [OF dec_int_numeric assms(3)])
  finally show ?thesis by simp
qed

section \<open>Values\<close>

text \<open>Numbers as \<^verbatim>\<open>serde_json\<close> keeps them: a negative integer is negative. Floats are left out.\<close>

fun plain_json :: "json \<Rightarrow> bool" where
  "plain_json (JObject kvs) = list_all (\<lambda>kv. plain_json (snd kv)) kvs"
| "plain_json (JArray vs) = list_all plain_json vs"
| "plain_json (JNumber n) = (case n of PosInt _ \<Rightarrow> True | NegInt i \<Rightarrow> i < 0 | Float _ \<Rightarrow> False)"
| "plain_json _ = True"

text \<open>The same value with the entries of every object in canonical order.\<close>

fun json_norm :: "json \<Rightarrow> json" where
  "json_norm (JObject kvs) =
     JObject (sort_key (\<lambda>(k, _). cmp_utf16_key k) (map (\<lambda>kv. (fst kv, json_norm (snd kv))) kvs))"
| "json_norm (JArray vs) = JArray (map json_norm vs)"
| "json_norm v = v"

lemma sort_key_map_snd:
  "sort_key (\<lambda>(k, _). f k) (map (\<lambda>kv. (fst kv, g (snd kv))) kvs) =
   map (\<lambda>kv. (fst kv, g (snd kv))) (sort_key (\<lambda>(k, _). f k) kvs)"
proof (induction kvs)
  case (Cons kv kvs)
  have "insort_key (\<lambda>(k, _). f k) (fst kv, g (snd kv)) (map (\<lambda>kv. (fst kv, g (snd kv))) xs) =
      map (\<lambda>kv. (fst kv, g (snd kv))) (insort_key (\<lambda>(k, _). f k) kv xs)" for xs
    by (induction xs) (auto simp: case_prod_unfold)
  then show ?case using Cons by simp
qed simp

fun comma_join :: "string list \<Rightarrow> string" where
  "comma_join [] = []"
| "comma_join [s] = s"
| "comma_join (s # ss) = s @ CHR '','' # comma_join ss"

lemma join_results_Inr_iff:
  "join_results rs = Inr x \<longleftrightarrow> (\<exists>ss. rs = map Inr ss \<and> x = comma_join ss)"
proof (induction rs arbitrary: x rule: join_results.induct)
  case (3 r r' rs)
  show ?case
  proof
    assume "join_results (r # r' # rs) = Inr x"
    then obtain s t where st: "r = Inr s" "join_results (r' # rs) = Inr t" "x = s @ '','' @ t"
      by (auto split: sum.splits)
    from 3 [OF st(1), THEN iffD1, OF st(2)] obtain ss where ss: "r' # rs = map Inr ss" "t = comma_join ss" by (elim exE conjE)
    then obtain s' ss' where cons: "ss = s' # ss'" by (cases ss) (auto simp del: join_results.simps)
    have "r # r' # rs = map Inr (s # ss)" unfolding st(1) ss(1) by simp
    moreover have "x = comma_join (s # ss)" unfolding st(3) ss(2) cons by simp
    ultimately show "\<exists>ss. r # r' # rs = map Inr ss \<and> x = comma_join ss" by (intro exI conjI)
  next
    assume "\<exists>ss. r # r' # rs = map Inr ss \<and> x = comma_join ss"
    then obtain s s' ss where "r = Inr s" "r' # rs = map Inr (s' # ss)" "x = s @ '','' @ comma_join (s' # ss)"
      by (auto simp: Cons_eq_map_conv)
    moreover from this(2) have "join_results (r' # rs) = Inr (comma_join (s' # ss))"
      by (rule 3 [OF \<open>r = Inr s\<close>, THEN iffD2, OF exI, OF conjI [OF _ refl]])
    ultimately show "join_results (r # r' # rs) = Inr x" by (simp only: join_results.simps sum.case list.map)
  qed
qed (auto simp: Cons_eq_map_conv)

text \<open>
  A list of texts can be read back from their join when each is recognised by what follows it.
\<close>

definition readable :: "string \<Rightarrow> string \<Rightarrow> bool" where
  "readable x y \<longleftrightarrow> (\<forall>r r'. x @ r = y @ r' \<longrightarrow> stop r \<longrightarrow> stop r' \<longrightarrow> x = y)"

lemma comma_join_prefix:
  assumes "comma_join xs @ c # r = comma_join ys @ c # r'" "c \<in> {CHR '']'', CHR ''}''}"
    and "\<And>x y. x \<in> set xs \<Longrightarrow> y \<in> set ys \<Longrightarrow> readable x y"
    and "\<And>x. x \<in> set xs \<union> set ys \<Longrightarrow> x \<noteq> [] \<and> hd x \<notin> {CHR '','', CHR '']'', CHR ''}''}"
  shows "xs = ys \<and> r = r'"
  using assms
proof (induction xs arbitrary: ys)
  case Nil
  show ?case
  proof (cases ys)
    case (Cons y ys')
    then have "hd (comma_join ys @ c # r') = hd y" using Nil.prems(4) by (cases ys') (auto simp: hd_append)
    moreover have "hd (comma_join ys @ c # r') = c" using Nil.prems(1) by (metis append_Nil comma_join.simps(1) list.sel(1))
    ultimately show ?thesis using Nil.prems(2) Nil.prems(4) [of y] Cons by auto
  qed (use Nil in auto)
next
  case (Cons x xs)
  have hd_join: "hd (comma_join (z # zs) @ c # q) = hd z" if "z \<noteq> []" for z zs q
    using that by (cases zs) (auto simp: hd_append)
  show ?case
  proof (cases ys)
    case Nil
    then show ?thesis using Cons.prems(1,2) Cons.prems(4) [of x] hd_join [of x xs r] by auto
  next
    case (Cons y ys')
    define rest :: "string list \<Rightarrow> string \<Rightarrow> string" where
      "rest zs q = (case zs of [] \<Rightarrow> c # q | _ \<Rightarrow> CHR '','' # comma_join zs @ c # q)" for zs q
    have split: "comma_join (z # zs) @ c # q = z @ rest zs q" for z zs q by (cases zs) (simp_all add: rest_def)
    have stop: "stop (rest zs q)" for zs q using Cons.prems(2) by (cases zs) (auto simp: rest_def stop_def)
    have eq: "x @ rest xs r = y @ rest ys' r'" using Cons.prems(1) unfolding \<open>ys = y # ys'\<close> split .
    moreover have "readable x y" using Cons.prems(3) \<open>ys = y # ys'\<close> by simp
    ultimately have xy: "x = y" using stop unfolding readable_def by blast
    then have rest: "rest xs r = rest ys' r'" using eq by simp
    show ?thesis
    proof (cases "xs = [] \<or> ys' = []")
      case True
      then show ?thesis using rest xy \<open>ys = y # ys'\<close> Cons.prems(2) by (cases xs; cases ys') (auto simp: rest_def)
    next
      case False
      then have "comma_join xs @ c # r = comma_join ys' @ c # r'" using rest by (cases xs; cases ys') (auto simp: rest_def)
      then have "xs = ys' \<and> r = r'"
        using Cons.prems(2-4) \<open>ys = y # ys'\<close> by (intro Cons.IH) auto
      then show ?thesis using xy \<open>ys = y # ys'\<close> by simp
    qed
  qed
qed

lemma map_result_Inr_iff: "map_result f r = Inr y \<longleftrightarrow> (\<exists>x. r = Inr x \<and> y = f x)"
  by (auto simp: map_result_def split: sum.splits)

abbreviation entries :: "(string \<times> json) list \<Rightarrow> (string \<times> json) list" where
  "entries kvs \<equiv> sort_key (\<lambda>(k, _). cmp_utf16_key k) kvs"

lemma canonicalize_object:
  assumes "canonicalize C (JObject kvs) = Inr s"
  obtains ss where "map (\<lambda>kv. canonicalize C (snd kv)) (entries kvs) = map Inr ss"
    and "s = ''{'' @ comma_join (map (\<lambda>(kv, t). quoted (fst kv) @ '':'' @ t) (zip (entries kvs) ss)) @ ''}''"
proof -
  let ?item = "\<lambda>kv. map_result (\<lambda>s. quoted (fst kv) @ '':'' @ s) (canonicalize C (snd kv))"
  obtain x where x: "join_results (map ?item (entries kvs)) = Inr x" "s = ''{'' @ x @ ''}''"
    using assms unfolding canonicalize.simps Let_def sort_key_map_snd
    by (auto simp: comp_def map_result_Inr_iff)
  then obtain ys where ys: "map ?item (entries kvs) = map Inr ys" "x = comma_join ys"
    by (auto simp: join_results_Inr_iff)
  have "\<exists>ss. map (\<lambda>kv. canonicalize C (snd kv)) kvs = map Inr ss \<and>
      ys = map (\<lambda>(kv, t). quoted (fst kv) @ '':'' @ t) (zip kvs ss)" if "map ?item kvs = map Inr ys" for kvs ys
    using that
  proof (induction kvs arbitrary: ys)
    case (Cons kv kvs)
    then obtain y ys' where y: "ys = y # ys'" "?item kv = Inr y" "map ?item kvs = map Inr ys'"
      by (auto simp: Cons_eq_map_conv)
    from Cons.IH [OF y(3)] obtain ss where "map (\<lambda>kv. canonicalize C (snd kv)) kvs = map Inr ss"
      "ys' = map (\<lambda>(kv, t). quoted (fst kv) @ '':'' @ t) (zip kvs ss)" by blast
    moreover from y(2) obtain t where "canonicalize C (snd kv) = Inr t" "y = quoted (fst kv) @ '':'' @ t"
      by (auto simp: map_result_Inr_iff)
    ultimately show ?case using y(1) by (intro exI [of _ "t # ss"]) simp
  qed simp
  from this [OF ys(1)] that x(2) ys(2) show ?thesis by blast
qed

lemma canonicalize_array:
  "canonicalize C (JArray vs) = Inr s \<Longrightarrow>
   \<exists>ss. map (canonicalize C) vs = map Inr ss \<and> s = ''['' @ comma_join ss @ '']''"
  by (auto simp: map_result_Inr_iff join_results_Inr_iff)

text \<open>The first character of a text tells the kind of value.\<close>

fun leads :: "json \<Rightarrow> char \<Rightarrow> bool" where
  "leads (JObject _) c = (c = CHR ''{'')"
| "leads (JArray _) c = (c = CHR ''['')"
| "leads (JString _) c = (c = CHR 0x22)"
| "leads (JNumber _) c = numeric c"
| "leads (JBool b) c = (c = (if b then CHR ''t'' else CHR ''f''))"
| "leads JNull c = (c = CHR ''n'')"

lemma canonicalize_leads:
  assumes "canonicalize C v = Inr s" "plain_json v"
  shows "s \<noteq> [] \<and> leads v (hd s)"
proof (cases v)
  case (JNumber n)
  have "dec_nat m \<noteq> [] \<and> numeric (hd (dec_nat m))" for m
    using digit_char [of "hd (dec_nat m)" m] by (simp add: numeric_def)
  moreover have "dec_int i \<noteq> [] \<and> numeric (hd (dec_int i))" for i
    using dec_int_numeric [of i] dec_int_nonempty [of i] by (simp add: list_all_iff)
  ultimately show ?thesis using assms JNumber by (cases n) auto
qed (use assms in \<open>auto simp: map_result_Inr_iff quoted_def\<close>)

lemma leads_exclusive: "leads v c \<Longrightarrow> leads w c \<Longrightarrow>
    (\<exists>a b. v = JObject a \<and> w = JObject b) \<or> (\<exists>a b. v = JArray a \<and> w = JArray b) \<or>
    (\<exists>a b. v = JString a \<and> w = JString b) \<or> (\<exists>a b. v = JNumber a \<and> w = JNumber b) \<or>
    v = JNull \<and> w = JNull \<or> (\<exists>a. v = JBool a \<and> w = JBool a)"
  by (cases v; cases w) (auto simp: numeric_def split: if_splits)

lemma leads_not_stop: "leads v c \<Longrightarrow> c \<notin> {CHR '','', CHR '']'', CHR ''}''}"
  by (cases v) (auto simp: numeric_def split: if_splits)

definition same_text :: "crypto_lib \<Rightarrow> json \<Rightarrow> json \<Rightarrow> bool" where
  "same_text C v w \<longleftrightarrow> (\<forall>s t r q. canonicalize C v = Inr s \<longrightarrow> canonicalize C w = Inr t \<longrightarrow> s @ r = t @ q \<longrightarrow>
     stop r \<longrightarrow> stop q \<longrightarrow> json_norm v = json_norm w \<and> s = t)"

lemma same_textD:
  "same_text C v w \<Longrightarrow> canonicalize C v = Inr s \<Longrightarrow> canonicalize C w = Inr s \<Longrightarrow> json_norm v = json_norm w"
  unfolding same_text_def by (metis append_Nil2 list.case(1) stop_def)

lemma number_same_text: "plain_json (JNumber a) \<Longrightarrow> plain_json (JNumber b) \<Longrightarrow> same_text C (JNumber a) (JNumber b)"
proof -
  have shown: "canonicalize C (JNumber n) = Inr (dec_int (case n of PosInt m \<Rightarrow> int m | NegInt i \<Rightarrow> i | Float _ \<Rightarrow> 0))"
    if "plain_json (JNumber n)" for n
    using that by (cases n) (auto simp: dec_int_def)
  assume "plain_json (JNumber a)" "plain_json (JNumber b)"
  then show ?thesis
    unfolding same_text_def shown [OF \<open>plain_json (JNumber a)\<close>] shown [OF \<open>plain_json (JNumber b)\<close>]
    by (auto dest!: number_prefix split: json_number.splits)
qed

text \<open>Two lists of values whose texts agree are the same lists.\<close>

lemma values_norm_eq:
  assumes "map (canonicalize C) vs = map Inr ss" "map (canonicalize C) ws = map Inr ss"
    and "\<And>v w. v \<in> set vs \<Longrightarrow> w \<in> set ws \<Longrightarrow> same_text C v w"
  shows "map json_norm vs = map json_norm ws"
  using assms
proof (induction vs arbitrary: ws ss)
  case (Cons v vs)
  then obtain s ss' where ss: "ss = s # ss'" "canonicalize C v = Inr s" "map (canonicalize C) vs = map Inr ss'" by auto
  then obtain w ws' where ws: "ws = w # ws'" "canonicalize C w = Inr s" "map (canonicalize C) ws' = map Inr ss'"
    using Cons.prems(2) by (auto simp: map_eq_Cons_conv)
  have "json_norm v = json_norm w"
    using Cons.prems(3) [of v w] ss(2) ws(1,2) by (auto dest: same_textD)
  moreover have "map json_norm vs = map json_norm ws'"
    using Cons.IH [OF ss(3) ws(3)] Cons.prems(3) ws(1) by auto
  ultimately show ?case by (simp add: ws(1))
qed simp

abbreviation item :: "(string \<times> json) \<times> string \<Rightarrow> string" where
  "item \<equiv> (\<lambda>(kv, t). quoted (fst kv) @ '':'' @ t)"

lemma items_eq:
  assumes "length es = length ss" "length fs = length ts" "map item (zip es ss) = map item (zip fs ts)"
  shows "map fst es = map fst fs \<and> ss = ts"
  using assms
proof (induction es arbitrary: ss fs ts)
  case (Cons e es)
  then obtain s ss' where ss: "ss = s # ss'" by (cases ss) auto
  then obtain f fs' t ts' where fs: "fs = f # fs'" "ts = t # ts'" using Cons.prems by (cases fs; cases ts) auto
  have "quoted (fst e) @ '':'' @ s = quoted (fst f) @ '':'' @ t" "map item (zip es ss') = map item (zip fs' ts')"
    using Cons.prems(3) ss fs by auto
  then show ?case using quoted_prefix [of "fst e" "'':'' @ s" "fst f" "'':'' @ t"] Cons.IH [of ss' fs' ts'] Cons.prems(1,2) ss fs
    by simp
qed auto

lemma same_text_readable:
  "same_text C v w \<Longrightarrow> canonicalize C v = Inr s \<Longrightarrow> canonicalize C w = Inr t \<Longrightarrow> readable s t"
  unfolding same_text_def readable_def by blast

lemma item_readable: "readable s t \<Longrightarrow> readable (item (e, s)) (item (f, t))"
  unfolding readable_def by (auto dest!: quoted_prefix)

lemma array_same_text:
  assumes "\<And>v w. v \<in> set vs \<Longrightarrow> w \<in> set ws \<Longrightarrow> same_text C v w" "plain_json (JArray vs)" "plain_json (JArray ws)"
  shows "same_text C (JArray vs) (JArray ws)"
  unfolding same_text_def
proof (intro allI impI)
  fix s t r q
  assume st: "canonicalize C (JArray vs) = Inr s" "canonicalize C (JArray ws) = Inr t" "s @ r = t @ q"
  obtain ss where ss: "map (canonicalize C) vs = map Inr ss" "s = ''['' @ comma_join ss @ '']''"
    using canonicalize_array [OF st(1)] by blast
  obtain ts where ts: "map (canonicalize C) ws = map Inr ts" "t = ''['' @ comma_join ts @ '']''"
    using canonicalize_array [OF st(2)] by blast
  have of_text: "\<exists>v \<in> set us. canonicalize C v = Inr x" if "map (canonicalize C) us = map Inr xs" "x \<in> set xs" for us xs x
    using that by (metis (no_types, lifting) image_iff image_eqI list.set_map)
  have "ss = ts \<and> r = q"
  proof (rule comma_join_prefix)
    show "comma_join ss @ CHR '']'' # r = comma_join ts @ CHR '']'' # q" using st(3) ss(2) ts(2) by simp
    show "readable x y" if "x \<in> set ss" "y \<in> set ts" for x y
      using of_text [OF ss(1) that(1)] of_text [OF ts(1) that(2)] assms(1) same_text_readable by blast
    show "x \<noteq> [] \<and> hd x \<notin> {CHR '','', CHR '']'', CHR ''}''}" if x: "x \<in> set ss \<union> set ts" for x
    proof -
      obtain v where "canonicalize C v = Inr x" "plain_json v"
        using x of_text [OF ss(1), of x] of_text [OF ts(1), of x] assms(2,3) by (auto simp: list_all_iff)
      then show ?thesis using canonicalize_leads leads_not_stop by blast
    qed
  qed simp
  moreover have "map json_norm vs = map json_norm ws"
    using values_norm_eq [OF ss(1) _ assms(1)] ts(1) \<open>ss = ts \<and> r = q\<close> by blast
  ultimately show "json_norm (JArray vs) = json_norm (JArray ws) \<and> s = t" using ss(2) ts(2) by simp
qed

lemma object_same_text:
  assumes "\<And>v w. v \<in> snd ` set vs \<Longrightarrow> w \<in> snd ` set ws \<Longrightarrow> same_text C v w"
  shows "same_text C (JObject vs) (JObject ws)"
  unfolding same_text_def
proof (intro allI impI)
  fix s t r q
  assume st: "canonicalize C (JObject vs) = Inr s" "canonicalize C (JObject ws) = Inr t" "s @ r = t @ q"
  obtain ss where ss: "map (\<lambda>kv. canonicalize C (snd kv)) (entries vs) = map Inr ss"
    "s = ''{'' @ comma_join (map item (zip (entries vs) ss)) @ ''}''" by (rule canonicalize_object [OF st(1)])
  obtain ts where ts: "map (\<lambda>kv. canonicalize C (snd kv)) (entries ws) = map Inr ts"
    "t = ''{'' @ comma_join (map item (zip (entries ws) ts)) @ ''}''" by (rule canonicalize_object [OF st(2)])
  have len: "length (entries vs) = length ss" "length (entries ws) = length ts"
    using ss(1) ts(1) by (metis length_map)+
  have paired: "canonicalize C (snd e) = Inr x \<and> e \<in> set es" if "map (\<lambda>kv. canonicalize C (snd kv)) es = map Inr xs" "(e, x) \<in> set (zip es xs)"
    for es xs e x
    using that by (auto simp: in_set_zip) (metis (no_types, lifting) length_map nth_map)
  have "map item (zip (entries vs) ss) = map item (zip (entries ws) ts) \<and> r = q"
  proof (rule comma_join_prefix)
    show "comma_join (map item (zip (entries vs) ss)) @ CHR ''}'' # r = comma_join (map item (zip (entries ws) ts)) @ CHR ''}'' # q"
      using st(3) ss(2) ts(2) by simp
    show "readable x y" if xy: "x \<in> set (map item (zip (entries vs) ss))" "y \<in> set (map item (zip (entries ws) ts))" for x y
    proof -
      obtain e s' where e: "(e, s') \<in> set (zip (entries vs) ss)" "x = item (e, s')" using xy(1) by auto
      obtain f t' where f: "(f, t') \<in> set (zip (entries ws) ts)" "y = item (f, t')" using xy(2) by auto
      have "same_text C (snd e) (snd f)" using paired [OF ss(1) e(1)] paired [OF ts(1) f(1)] by (intro assms) auto
      then show ?thesis
        unfolding e(2) f(2) using paired [OF ss(1) e(1)] paired [OF ts(1) f(1)] by (intro item_readable) (blast intro: same_text_readable)
    qed
    show "x \<noteq> [] \<and> hd x \<notin> {CHR '','', CHR '']'', CHR ''}''}"
      if "x \<in> set (map item (zip (entries vs) ss)) \<union> set (map item (zip (entries ws) ts))" for x
      using that by (auto simp: quoted_def)
  qed simp
  then have eq: "map fst (entries vs) = map fst (entries ws)" "ss = ts" "s = t"
    using items_eq [OF len] ss(2) ts(2) by auto
  have "map json_norm (map snd (entries vs)) = map json_norm (map snd (entries ws))"
    using ss(1) ts(1) eq(2) by (intro values_norm_eq [of C _ ss]) (auto simp: comp_def intro: assms)
  then have "map (\<lambda>kv. (fst kv, json_norm (snd kv))) (entries vs) = map (\<lambda>kv. (fst kv, json_norm (snd kv))) (entries ws)"
    using eq(1) by (simp add: list_eq_iff_nth_eq)
  then show "json_norm (JObject vs) = json_norm (JObject ws) \<and> s = t"
    using eq(3) by (simp add: sort_key_map_snd)
qed

lemma other_kind_same_text:
  assumes "plain_json v" "plain_json w" "\<And>c. leads v c \<Longrightarrow> \<not> leads w c"
  shows "same_text C v w"
  unfolding same_text_def
proof (intro allI impI)
  fix s t r q
  assume st: "canonicalize C v = Inr s" "canonicalize C w = Inr t" "s @ r = t @ q"
  note s = canonicalize_leads [OF st(1) assms(1)] and t = canonicalize_leads [OF st(2) assms(2)]
  have "hd s = hd t" using st(3) s t by (metis hd_append2)
  then show "json_norm v = json_norm w \<and> s = t" using s t assms(3) by metis
qed

lemma same_text_by_kind:
  assumes "plain_json v" "plain_json w" "\<And>c. leads v c \<Longrightarrow> leads w c \<Longrightarrow> same_text C v w"
  shows "same_text C v w"
  using assms other_kind_same_text by blast

lemma plain_same_text: "plain_json v \<Longrightarrow> plain_json w \<Longrightarrow> same_text C v w"
proof (induction C v arbitrary: w rule: canonicalize.induct)
  case (1 C kvs)
  have objects: "same_text C (JObject kvs) (JObject ws)" if "plain_json (JObject ws)" for ws
    using 1 that by (intro object_same_text) (auto simp: list_all_iff)
  show ?case
    by (rule same_text_by_kind [OF 1(2,3)], drule (1) leads_exclusive) (use objects 1(3) in auto)
next
  case (2 C vs)
  have arrays: "same_text C (JArray vs) (JArray ws)" if "plain_json (JArray ws)" for ws
    using 2 that by (intro array_same_text) (auto simp: list_all_iff)
  show ?case
    by (rule same_text_by_kind [OF 2(2,3)], drule (1) leads_exclusive) (use arrays 2(3) in auto)
next
  case (3 C s)
  have strings: "same_text C (JString s) (JString t)" for t
    by (auto simp: same_text_def dest: quoted_prefix)
  show ?case by (rule same_text_by_kind [OF 3], drule (1) leads_exclusive) (use strings in auto)
next
  case (4 C n)
  show ?case
    by (rule same_text_by_kind [OF 4], drule (1) leads_exclusive) (use number_same_text 4 in auto)
next
  case (5 C b)
  have "same_text C (JBool b) (JBool b)" by (auto simp: same_text_def)
  then show ?case using same_text_by_kind [OF 5] leads_exclusive by fastforce
next
  case (6 C)
  have "same_text C JNull JNull" by (auto simp: same_text_def)
  then show ?case using same_text_by_kind [OF 6] leads_exclusive by fastforce
qed

text \<open>
  C16. Canonical JSON is unambiguous: two values without floats that have the same canonical text are the same
  value, up to the order in which objects list their entries.
\<close>

theorem canonical_text_unambiguous:
  assumes "plain_json v" "plain_json w" "canonical_json_bytes C v = Inr s" "canonical_json_bytes C w = Inr s"
  shows "json_norm v = json_norm w"
  using same_textD [OF plain_same_text [OF assms(1,2)]] assms(3,4) unfolding canonical_json_bytes_def by blast

theorem canonical_text_unambiguous_witness:
  "\<not> isl (canonical_json_bytes model_crypto (JObject [(''a'', JArray [JString ''x'', JNull]), (''b'', JNumber (PosInt 1))])) \<and>
   json_norm (JObject [(''b'', JNumber (PosInt 1)), (''a'', JArray [JString ''x'', JNull])]) =
   json_norm (JObject [(''a'', JArray [JString ''x'', JNull]), (''b'', JNumber (PosInt 1))])"
proof -
  let ?v = "JObject [(''b'', JNumber (PosInt 1)), (''a'', JArray [JString ''x'', JNull])]"
  let ?w = "JObject [(''a'', JArray [JString ''x'', JNull]), (''b'', JNumber (PosInt 1))]"
  obtain s where s: "canonical_json_bytes model_crypto ?w = Inr s"
    using canonicalize_total [of ?w model_crypto] by (auto simp: canonical_json_bytes_def)
  have "sort_key (\<lambda>(k, _). cmp_utf16_key k) [(''b'', x), (''a'', y)] = [(''a'', y), (''b'', x)]"
    "sort_key (\<lambda>(k, _). cmp_utf16_key k) [(''a'', y), (''b'', x)] = [(''a'', y), (''b'', x)]" for x y :: "crypto_error + string"
    by (simp_all add: cmp_utf16_key_def utf16_units.simps)
  then have "canonical_json_bytes model_crypto ?v = canonical_json_bytes model_crypto ?w"
    unfolding canonical_json_bytes_def canonicalize.simps Let_def list.map fst_conv snd_conv by simp
  then show ?thesis using canonical_text_unambiguous [OF _ _ _ s, of ?v] s by (simp add: isl_def)
qed

end
