(* ===== verification/Spine.thy ===== *)
theory Spine
  imports Canonical_Form Guards
begin

text \<open>
  Signed envelopes, issuer chains and witnessed checkpoints of the spine (\<^verbatim>\<open>crates/swarm-spine/src/envelope.rs\<close>,
  \<^verbatim>\<open>chain.rs\<close>, \<^verbatim>\<open>checkpoint.rs\<close>, \<^verbatim>\<open>spine_error.rs\<close>). \<^verbatim>\<open>chrono\<close>'s RFC 3339 parser is the argument
  \<open>bad_time\<close>, the error text if the timestamp does not parse; \<^verbatim>\<open>serde_json::from_slice\<close> is the argument
  \<open>parse\<close>. A keypair is its secret seed.
\<close>

datatype spine_error =
    InvalidIssuer string
  | MissingField string
  | InvalidWitnessSignature
  | EnvelopeHashMismatch string string
  | InvalidTimestamp string
  | ChainIntegrityViolation string string
  | SpineJson string
  | SpineCrypto crypto_error

definition from_crypto :: "crypto_error + 'a \<Rightarrow> spine_error + 'a" where
  "from_crypto r = (case r of Inl e \<Rightarrow> Inl (SpineCrypto e) | Inr x \<Rightarrow> Inr x)"

definition ok_or :: "'e \<Rightarrow> 'a option \<Rightarrow> 'e + 'a" where
  "ok_or e x = (case x of None \<Rightarrow> Inl e | Some v \<Rightarrow> Inr v)"

fun json_as_u64 :: "json \<Rightarrow> u64 option" where
  "json_as_u64 (JNumber (PosInt n)) = Some n"
| "json_as_u64 _ = None"

section \<open>Envelopes\<close>

definition ENVELOPE_SCHEMA_V1 :: string where "ENVELOPE_SCHEMA_V1 = ''swarm.spine.envelope.v1''"

definition ISSUER_PREFIX :: string where "ISSUER_PREFIX = ''swarm:ed25519:''"

definition issuer_from_keypair :: "crypto_lib \<Rightarrow> bytes \<Rightarrow> string" where
  "issuer_from_keypair C sk = ISSUER_PREFIX @ lib_hex_encode C (lib_verifying_key C sk)"

definition ascii_hexdigit :: "char \<Rightarrow> bool" where
  "ascii_hexdigit c \<longleftrightarrow> c \<in> set ''0123456789abcdefABCDEF''"

definition parse_issuer_pubkey_hex :: "string \<Rightarrow> spine_error + string" where
  "parse_issuer_pubkey_hex issuer =
     (if \<not> starts_with issuer ISSUER_PREFIX then Inl (InvalidIssuer issuer)
      else let rest = drop (length ISSUER_PREFIX) issuer in
        if rest = [] then Inl (InvalidIssuer issuer)
        else if length rest \<noteq> 64 \<or> \<not> list_all ascii_hexdigit rest then Inl (InvalidIssuer issuer)
        else Inr rest)"

definition envelope_signing_bytes :: "crypto_lib \<Rightarrow> json \<Rightarrow> spine_error + bytes" where
  "envelope_signing_bytes C envelope = from_crypto (canonical_json_bytes C envelope)"

definition compute_envelope_hash_hex :: "crypto_lib \<Rightarrow> json \<Rightarrow> spine_error + string" where
  "compute_envelope_hash_hex C envelope =
     (case envelope_signing_bytes C envelope of Inl e \<Rightarrow> Inl e | Inr data \<Rightarrow> Inr (sha256_hex_prefixed C data))"

definition compute_envelope_hash :: "crypto_lib \<Rightarrow> json \<Rightarrow> spine_error + bytes" where
  "compute_envelope_hash C envelope =
     (case envelope_signing_bytes C envelope of Inl e \<Rightarrow> Inl e | Inr data \<Rightarrow> Inr (sha256 C data))"

definition sign_envelope :: "crypto_lib \<Rightarrow> bytes \<Rightarrow> json \<Rightarrow> spine_error + string \<times> string" where
  "sign_envelope C sk envelope =
     (case envelope_signing_bytes C envelope of
        Inl e \<Rightarrow> Inl e
      | Inr data \<Rightarrow> Inr (sha256_hex_prefixed C data, ''0x'' @ lib_hex_encode C (lib_sign C sk data)))"

definition unsigned_envelope :: "crypto_lib \<Rightarrow> bytes \<Rightarrow> u64 \<Rightarrow> string option \<Rightarrow> json \<Rightarrow> string \<Rightarrow> json" where
  "unsigned_envelope C sk seq prev_envelope_hash content issued_at = JObject
     [(''schema'', JString ENVELOPE_SCHEMA_V1), (''issuer'', JString (issuer_from_keypair C sk)),
      (''seq'', json_nat seq), (''prev_envelope_hash'', json_opt JString prev_envelope_hash),
      (''issued_at'', JString issued_at), (''capability_token'', JNull), (''fact'', content)]"

definition build_signed_envelope ::
  "crypto_lib \<Rightarrow> (string \<Rightarrow> string option) \<Rightarrow> bytes \<Rightarrow> u64 \<Rightarrow> string option \<Rightarrow> json \<Rightarrow> string \<Rightarrow> spine_error + json" where
  "build_signed_envelope C bad_time sk seq prev_envelope_hash content issued_at =
     (case bad_time issued_at of
        Some error \<Rightarrow> Inl (InvalidTimestamp (''issued_at is not a valid RFC 3339 timestamp: '' @ error))
      | None \<Rightarrow>
          let unsigned = unsigned_envelope C sk seq prev_envelope_hash content issued_at in
          (case sign_envelope C sk unsigned of
             Inl e \<Rightarrow> Inl e
           | Inr (envelope_hash, signature) \<Rightarrow>
               Inr (json_index_set (json_index_set unsigned ''envelope_hash'' (JString envelope_hash))
                      ''signature'' (JString signature))))"

text \<open>\<^verbatim>\<open>value.get(name).and_then(Value::as_str).ok_or(MissingField(name))\<close>.\<close>

definition str_field :: "json \<Rightarrow> string \<Rightarrow> spine_error + string" where
  "str_field v name = ok_or (MissingField name) (Option.bind (json_get v name) json_as_str)"

definition extract_envelope_hash :: "(bytes \<Rightarrow> string + json) \<Rightarrow> bytes \<Rightarrow> spine_error + string" where
  "extract_envelope_hash parse payload =
     (case parse payload of Inl e \<Rightarrow> Inl (SpineJson e) | Inr v \<Rightarrow> str_field v ''envelope_hash'')"

fun json_remove :: "string \<Rightarrow> json \<Rightarrow> json" where
  "json_remove key (JObject kvs) = JObject (filter (\<lambda>(k, _). k \<noteq> key) kvs)"
| "json_remove key v = v"

definition signed_part :: "json \<Rightarrow> json" where
  "signed_part envelope = json_remove ''signature'' (json_remove ''envelope_hash'' envelope)"

definition bind_sum :: "'e + 'a \<Rightarrow> ('a \<Rightarrow> 'e + 'b) \<Rightarrow> 'e + 'b" where
  "bind_sum r f = (case r of Inl e \<Rightarrow> Inl e | Inr x \<Rightarrow> f x)"

definition verify_envelope :: "crypto_lib \<Rightarrow> json \<Rightarrow> spine_error + bool" where
  "verify_envelope C envelope =
     bind_sum (str_field envelope ''issuer'') (\<lambda>issuer.
     bind_sum (str_field envelope ''signature'') (\<lambda>signature_hex.
     bind_sum (str_field envelope ''envelope_hash'') (\<lambda>claimed_hash.
     bind_sum (parse_issuer_pubkey_hex issuer) (\<lambda>pubkey_hex.
     bind_sum (from_crypto (public_key_from_hex C pubkey_hex)) (\<lambda>public_key.
     bind_sum (from_crypto (signature_from_hex C signature_hex)) (\<lambda>signature.
     bind_sum (envelope_signing_bytes C (signed_part envelope)) (\<lambda>data.
       let computed_hash = sha256_hex_prefixed C data in
       if computed_hash \<noteq> claimed_hash then Inl (EnvelopeHashMismatch claimed_hash computed_hash)
       else Inr (lib_verify C public_key data signature))))))))"

section \<open>Issuer chains\<close>

record issuer_chain_head =
  ich_issuer :: string
  ich_seq :: u64
  ich_envelope_hash :: string

datatype chain_link_verdict =
    NewChain
  | ValidContinuation
  | HashMismatch string string
  | SequenceMismatch u64 u64
  | InvalidChainHead string

definition normalize_issuer_for_compare :: "string \<Rightarrow> string" where
  "normalize_issuer_for_compare issuer =
     (case parse_issuer_pubkey_hex issuer of
        Inr hex \<Rightarrow> to_ascii_lowercase hex
      | Inl _ \<Rightarrow> to_ascii_lowercase issuer)"

fun verdict_is_valid :: "chain_link_verdict \<Rightarrow> bool" where
  "verdict_is_valid NewChain = True"
| "verdict_is_valid ValidContinuation = True"
| "verdict_is_valid _ = False"

fun verdict_into_result :: "string \<Rightarrow> chain_link_verdict \<Rightarrow> spine_error + unit" where
  "verdict_into_result issuer NewChain = Inr ()"
| "verdict_into_result issuer ValidContinuation = Inr ()"
| "verdict_into_result issuer (HashMismatch expected_prev_hash actual_prev_hash) =
     Inl (ChainIntegrityViolation issuer
       (''prev_envelope_hash mismatch: expected '' @ expected_prev_hash @ '', got '' @ actual_prev_hash))"
| "verdict_into_result issuer (SequenceMismatch expected_seq actual_seq) =
     Inl (ChainIntegrityViolation issuer
       (''sequence mismatch: expected '' @ dec_nat expected_seq @ '', got '' @ dec_nat actual_seq))"
| "verdict_into_result issuer (InvalidChainHead reason) = Inl (ChainIntegrityViolation issuer reason)"

text \<open>The \<^verbatim>\<open>prev_envelope_hash\<close> of an envelope: present, and null or a string.\<close>

definition prev_hash_field :: "json \<Rightarrow> spine_error + string option" where
  "prev_hash_field envelope =
     (case json_get envelope ''prev_envelope_hash'' of
        None \<Rightarrow> Inl (MissingField ''prev_envelope_hash'')
      | Some JNull \<Rightarrow> Inr None
      | Some v \<Rightarrow> (case json_as_str v of
                    None \<Rightarrow> Inl (MissingField ''prev_envelope_hash'')
                  | Some s \<Rightarrow> Inr (Some s)))"

definition chain_verdict :: "string \<Rightarrow> u64 \<Rightarrow> string option \<Rightarrow> issuer_chain_head option \<Rightarrow> chain_link_verdict" where
  "chain_verdict envelope_issuer seq prev_hash_str known_head =
     (case known_head of
        None \<Rightarrow>
          if seq \<noteq> 1 then InvalidChainHead (''first envelope must have seq=1, got seq='' @ dec_nat seq)
          else if prev_hash_str \<noteq> None then InvalidChainHead ''first envelope must have null prev_envelope_hash''
          else NewChain
      | Some head \<Rightarrow>
          if normalize_issuer_for_compare envelope_issuer \<noteq> normalize_issuer_for_compare (ich_issuer head) then
            InvalidChainHead (''issuer mismatch: envelope issuer '' @ envelope_issuer
              @ '' does not match head issuer '' @ ich_issuer head)
          else (case u64_add (ich_seq head) 1 of
            None \<Rightarrow> InvalidChainHead (''known head sequence overflow for issuer '' @ ich_issuer head)
          | Some expected_seq \<Rightarrow>
              if seq \<noteq> expected_seq then SequenceMismatch expected_seq seq
              else
                let actual_prev_hash = (case prev_hash_str of None \<Rightarrow> '''' | Some s \<Rightarrow> s) in
                if actual_prev_hash \<noteq> ich_envelope_hash head
                then HashMismatch (ich_envelope_hash head) actual_prev_hash
                else ValidContinuation))"

definition verify_chain_link :: "json \<Rightarrow> issuer_chain_head option \<Rightarrow> spine_error + chain_link_verdict" where
  "verify_chain_link envelope known_head =
     bind_sum (str_field envelope ''issuer'') (\<lambda>envelope_issuer.
     bind_sum (ok_or (MissingField ''seq'') (Option.bind (json_get envelope ''seq'') json_as_u64)) (\<lambda>seq.
     bind_sum (prev_hash_field envelope) (\<lambda>prev_hash_str.
       Inr (chain_verdict envelope_issuer seq prev_hash_str known_head))))"

definition chain_head_from_envelope :: "json \<Rightarrow> spine_error + issuer_chain_head" where
  "chain_head_from_envelope envelope =
     bind_sum (str_field envelope ''issuer'') (\<lambda>issuer.
     bind_sum (ok_or (MissingField ''seq'') (Option.bind (json_get envelope ''seq'') json_as_u64)) (\<lambda>seq.
     bind_sum (str_field envelope ''envelope_hash'') (\<lambda>envelope_hash.
       Inr \<lparr>ich_issuer = issuer, ich_seq = seq, ich_envelope_hash = envelope_hash\<rparr>)))"

section \<open>Checkpoints\<close>

definition CHECKPOINT_STATEMENT_SCHEMA_V1 :: string where
  "CHECKPOINT_STATEMENT_SCHEMA_V1 = ''swarm.spine.checkpoint_statement.v1''"

definition checkpoint_statement ::
  "string \<Rightarrow> u64 \<Rightarrow> string option \<Rightarrow> string \<Rightarrow> u64 \<Rightarrow> string \<Rightarrow> json" where
  "checkpoint_statement log_id checkpoint_seq prev_checkpoint_hash merkle_root tree_size issued_at = JObject
     [(''schema'', JString CHECKPOINT_STATEMENT_SCHEMA_V1), (''log_id'', JString log_id),
      (''checkpoint_seq'', json_nat checkpoint_seq),
      (''prev_checkpoint_hash'', json_opt JString prev_checkpoint_hash),
      (''merkle_root'', JString merkle_root), (''tree_size'', json_nat tree_size),
      (''issued_at'', JString issued_at)]"

definition checkpoint_hash :: "crypto_lib \<Rightarrow> json \<Rightarrow> spine_error + bytes" where
  "checkpoint_hash C statement =
     bind_sum (from_crypto (canonicalize C statement)) (\<lambda>canonical. Inr (sha256 C canonical))"

definition checkpoint_witness_message :: "bytes \<Rightarrow> bytes" where
  "checkpoint_witness_message hash = ''SwarmCheckpointHashV1'' @ [CHR 0x00] @ hash"

definition sign_checkpoint_statement :: "crypto_lib \<Rightarrow> bytes \<Rightarrow> json \<Rightarrow> spine_error + json" where
  "sign_checkpoint_statement C sk statement =
     bind_sum (checkpoint_hash C statement) (\<lambda>hash.
       Inr (JObject
         [(''schema'', JString ''swarm.spine.witness_signature.v1''),
          (''witness_node_id'', JString (issuer_from_keypair C sk)),
          (''checkpoint_hash'', JString (hash_to_hex_prefixed C hash)),
          (''signature'', JString (''0x'' @ lib_hex_encode C (lib_sign C sk (checkpoint_witness_message hash))))]))"

definition verify_witness_signature :: "crypto_lib \<Rightarrow> json \<Rightarrow> string \<Rightarrow> string \<Rightarrow> spine_error + bool" where
  "verify_witness_signature C statement witness_node_id signature_hex =
     bind_sum (parse_issuer_pubkey_hex witness_node_id) (\<lambda>pubkey_hex.
     bind_sum (from_crypto (public_key_from_hex C pubkey_hex)) (\<lambda>public_key.
     bind_sum (case signature_from_hex C signature_hex of
                 Inl _ \<Rightarrow> Inl InvalidWitnessSignature | Inr s \<Rightarrow> Inr s) (\<lambda>signature.
     bind_sum (checkpoint_hash C statement) (\<lambda>hash.
       Inr (lib_verify C public_key (checkpoint_witness_message hash) signature)))))"

end
