(* ===== verification/Spine_Chain.thy ===== *)
theory Spine_Chain
  imports Spine Crypto_Instance
begin

text \<open>
  What the spine's signatures and chains guarantee: an envelope it builds verifies and continues the chain it
  was built for, and the hash of a chain's last envelope commits to the whole history.
\<close>

section \<open>Fields of envelopes\<close>

lemma bind_sum_Inr: "bind_sum r f = Inr y \<longleftrightarrow> (\<exists>x. r = Inr x \<and> f x = Inr y)"
  by (auto simp: bind_sum_def split: sum.splits)

lemma bind_sum_simps [simp]: "bind_sum (Inr x) f = f x" "bind_sum (Inl e) f = Inl e"
  by (simp_all add: bind_sum_def)

lemma from_crypto_Inr [simp]: "from_crypto r = Inr x \<longleftrightarrow> r = Inr x"
  by (auto simp: from_crypto_def split: sum.splits)

lemma ok_or_Inr [simp]: "ok_or e x = Inr v \<longleftrightarrow> x = Some v"
  by (auto simp: ok_or_def split: option.splits)

lemma json_as_str_Some: "json_as_str v = Some s \<longleftrightarrow> v = JString s"
  by (cases v) auto

lemma json_as_u64_Some: "json_as_u64 v = Some n \<longleftrightarrow> v = JNumber (PosInt n)"
  by (cases v rule: json_as_u64.cases) auto

lemma str_field_Inr: "str_field v name = Inr s \<longleftrightarrow> json_get v name = Some (JString s)"
  by (auto simp: str_field_def bind_eq_Some_conv json_as_str_Some)

lemma prev_hash_field_Inr:
  "prev_hash_field v = Inr p \<longleftrightarrow> json_get v ''prev_envelope_hash'' = Some (json_opt JString p)"
proof (cases "json_get v ''prev_envelope_hash''")
  case (Some x)
  then show ?thesis by (cases x; cases p) (auto simp: prev_hash_field_def json_opt_def)
qed (simp add: prev_hash_field_def)

text \<open>The hex text of a key has two characters per byte.\<close>

definition hex_doubles :: "crypto_lib \<Rightarrow> bool" where
  "hex_doubles C \<longleftrightarrow> (\<forall>b. length (lib_hex_encode C b) = 2 * length b)"

lemma issuer_parses:
  assumes "crypto_laws C" "hex_doubles C"
  shows "parse_issuer_pubkey_hex (issuer_from_keypair C sk) = Inr (lib_hex_encode C (lib_verifying_key C sk))"
proof -
  let ?h = "lib_hex_encode C (lib_verifying_key C sk)"
  have "length ?h = 64" "set ?h \<subseteq> set ''0123456789abcdef''"
    using assms by (auto simp: crypto_laws_def hex_doubles_def)
  moreover have "set ''0123456789abcdef'' \<subseteq> set ''0123456789abcdefABCDEF''" by simp
  ultimately have "list_all ascii_hexdigit ?h" unfolding list_all_iff ascii_hexdigit_def by blast
  with \<open>length ?h = 64\<close> show ?thesis
    by (auto simp: parse_issuer_pubkey_hex_def issuer_from_keypair_def ISSUER_PREFIX_def starts_with_def Let_def)
qed

lemma strip_0x_prefixed [simp]: "strip_0x (''0x'' @ s) = s"
  by (simp add: strip_0x_def starts_with_def)

lemma signature_from_hex_own:
  "crypto_laws C \<Longrightarrow> signature_from_hex C (''0x'' @ lib_hex_encode C (lib_sign C sk m)) = Inr (lib_sign C sk m)"
  by (simp only: signature_from_hex_def strip_0x_prefixed) (simp add: crypto_laws_def)

section \<open>What is built verifies\<close>

lemma built_envelope:
  assumes "build_signed_envelope C bad_time sk seq prev content issued_at = Inr envelope"
  obtains data where "canonical_json_bytes C (unsigned_envelope C sk seq prev content issued_at) = Inr data"
    and "json_get envelope ''issuer'' = Some (JString (issuer_from_keypair C sk))"
    and "json_get envelope ''seq'' = Some (json_nat seq)"
    and "json_get envelope ''prev_envelope_hash'' = Some (json_opt JString prev)"
    and "json_get envelope ''envelope_hash'' = Some (JString (sha256_hex_prefixed C data))"
    and "json_get envelope ''signature'' = Some (JString (''0x'' @ lib_hex_encode C (lib_sign C sk data)))"
    and "signed_part envelope = unsigned_envelope C sk seq prev content issued_at"
proof -
  let ?unsigned = "unsigned_envelope C sk seq prev content issued_at"
  obtain data where data: "canonical_json_bytes C ?unsigned = Inr data"
    and env: "envelope = json_index_set (json_index_set ?unsigned ''envelope_hash'' (JString (sha256_hex_prefixed C data)))
        ''signature'' (JString (''0x'' @ lib_hex_encode C (lib_sign C sk data)))"
    using assms by (auto simp: build_signed_envelope_def sign_envelope_def envelope_signing_bytes_def Let_def
        split: option.splits sum.splits)
  show ?thesis
    by (rule that [OF data]) (simp_all add: env unsigned_envelope_def signed_part_def)
qed

lemma built_verifies:
  assumes "crypto_laws C" "hex_doubles C"
    and "build_signed_envelope C bad_time sk seq prev content issued_at = Inr envelope"
  shows "verify_envelope C envelope = Inr True"
proof -
  obtain data where "canonical_json_bytes C (unsigned_envelope C sk seq prev content issued_at) = Inr data"
    and fields: "str_field envelope ''issuer'' = Inr (issuer_from_keypair C sk)"
      "str_field envelope ''signature'' = Inr (''0x'' @ lib_hex_encode C (lib_sign C sk data))"
      "str_field envelope ''envelope_hash'' = Inr (sha256_hex_prefixed C data)"
    and part: "signed_part envelope = unsigned_envelope C sk seq prev content issued_at"
    using built_envelope [OF assms(3)] unfolding str_field_Inr by metis
  then have "envelope_signing_bytes C (signed_part envelope) = Inr data" by (simp add: envelope_signing_bytes_def)
  moreover have "lib_verify C (lib_verifying_key C sk) data (lib_sign C sk data)"
    using assms(1) by (simp add: crypto_laws_def)
  ultimately show ?thesis
    unfolding verify_envelope_def fields bind_sum_simps issuer_parses [OF assms(1,2)]
      public_key_from_hex_own [OF assms(1)] signature_from_hex_own [OF assms(1)] from_crypto_def sum.case
    by simp
qed

section \<open>Witnessed checkpoints\<close>

lemma witness_signature_verifies:
  assumes "crypto_laws C" "hex_doubles C" "sign_checkpoint_statement C sk statement = Inr payload"
    and "str_field payload ''witness_node_id'' = Inr witness" "str_field payload ''signature'' = Inr signature"
  shows "verify_witness_signature C statement witness signature = Inr True"
proof -
  obtain hash where hash: "checkpoint_hash C statement = Inr hash" and "witness = issuer_from_keypair C sk"
    and "signature = ''0x'' @ lib_hex_encode C (lib_sign C sk (checkpoint_witness_message hash))"
    using assms(3-5) by (auto simp: sign_checkpoint_statement_def bind_sum_Inr str_field_Inr)
  moreover have "lib_verify C (lib_verifying_key C sk) m (lib_sign C sk m)" for m using assms(1) by (simp add: crypto_laws_def)
  ultimately show ?thesis
    unfolding verify_witness_signature_def
    by (simp only: issuer_parses [OF assms(1,2)] public_key_from_hex_own [OF assms(1)] signature_from_hex_own [OF assms(1)]
        bind_sum_simps from_crypto_def sum.case)
qed

section \<open>Chains\<close>

text \<open>
  A reader's check of an issuer's envelopes, oldest first: every one verifies and links to the head the one
  before it left.
\<close>

fun chain_ok :: "crypto_lib \<Rightarrow> issuer_chain_head option \<Rightarrow> json list \<Rightarrow> bool" where
  "chain_ok C known_head [] = True"
| "chain_ok C known_head (envelope # envelopes) \<longleftrightarrow>
     verify_envelope C envelope = Inr True \<and>
     (case verify_chain_link envelope known_head of Inl _ \<Rightarrow> False | Inr verdict \<Rightarrow> verdict_is_valid verdict) \<and>
     (case chain_head_from_envelope envelope of Inl _ \<Rightarrow> False | Inr head \<Rightarrow> chain_ok C (Some head) envelopes)"

definition link_ok :: "json \<Rightarrow> issuer_chain_head option \<Rightarrow> bool" where
  "link_ok envelope known_head \<longleftrightarrow>
     (case verify_chain_link envelope known_head of Inl _ \<Rightarrow> False | Inr verdict \<Rightarrow> verdict_is_valid verdict)"

text \<open>The head after some envelopes.\<close>

definition head_after :: "issuer_chain_head option \<Rightarrow> json list \<Rightarrow> issuer_chain_head option" where
  "head_after known_head envelopes =
     (if envelopes = [] then known_head
      else case chain_head_from_envelope (last envelopes) of Inl _ \<Rightarrow> None | Inr head \<Rightarrow> Some head)"

lemma chain_ok_snoc:
  "chain_ok C known_head (envelopes @ [envelope]) \<longleftrightarrow>
   chain_ok C known_head envelopes \<and> verify_envelope C envelope = Inr True \<and>
   link_ok envelope (head_after known_head envelopes) \<and> (\<exists>head. chain_head_from_envelope envelope = Inr head)"
proof (induction envelopes arbitrary: known_head)
  case Nil
  show ?case by (auto simp: head_after_def link_ok_def split: sum.splits)
next
  case (Cons e es)
  show ?case
  proof (cases "chain_head_from_envelope e")
    case (Inr h)
    have "head_after (Some h) es = head_after known_head (e # es)" using Inr by (auto simp: head_after_def)
    then show ?thesis using Inr Cons.IH [of "Some h"] by (auto split: sum.splits)
  qed simp
qed

lemma chain_head_Inr:
  "chain_head_from_envelope e = Inr h \<longleftrightarrow> json_get e ''issuer'' = Some (JString (ich_issuer h)) \<and>
     json_get e ''seq'' = Some (json_nat (ich_seq h)) \<and> json_get e ''envelope_hash'' = Some (JString (ich_envelope_hash h))"
  by (auto simp: chain_head_from_envelope_def bind_sum_Inr str_field_Inr bind_eq_Some_conv json_as_u64_Some json_nat_def)

lemma verify_chain_link_Inr:
  "verify_chain_link e known_head = Inr verdict \<longleftrightarrow> (\<exists>issuer seq prev. json_get e ''issuer'' = Some (JString issuer) \<and>
     json_get e ''seq'' = Some (json_nat seq) \<and> json_get e ''prev_envelope_hash'' = Some (json_opt JString prev) \<and>
     verdict = chain_verdict issuer seq prev known_head)"
  by (auto simp: verify_chain_link_def bind_sum_Inr str_field_Inr prev_hash_field_Inr bind_eq_Some_conv
      json_as_u64_Some json_nat_def)

lemma link_ok_iff:
  "link_ok e known_head \<longleftrightarrow> (\<exists>issuer seq prev. json_get e ''issuer'' = Some (JString issuer) \<and>
     json_get e ''seq'' = Some (json_nat seq) \<and> json_get e ''prev_envelope_hash'' = Some (json_opt JString prev) \<and>
     verdict_is_valid (chain_verdict issuer seq prev known_head))"
proof -
  have "link_ok e known_head \<longleftrightarrow> (\<exists>verdict. verify_chain_link e known_head = Inr verdict \<and> verdict_is_valid verdict)"
    by (auto simp: link_ok_def split: sum.splits)
  then show ?thesis unfolding verify_chain_link_Inr by blast
qed

lemma valid_first: "verdict_is_valid (chain_verdict issuer seq prev None) \<longleftrightarrow> seq = 1 \<and> prev = None"
  by (simp add: chain_verdict_def)

lemma valid_next: "verdict_is_valid (chain_verdict issuer seq prev (Some head)) \<longleftrightarrow>
    normalize_issuer_for_compare issuer = normalize_issuer_for_compare (ich_issuer head) \<and>
    seq = ich_seq head + 1 \<and> seq \<le> u64_max \<and> case_option [] id prev = ich_envelope_hash head"
  by (auto simp: chain_verdict_def u64_add_def Let_def split: option.splits)

section \<open>A head commits to its history\<close>

text \<open>Objects of \<^verbatim>\<open>serde_json\<close> have no key twice; floats are left out.\<close>

definition envelope_wf :: "json \<Rightarrow> bool" where
  "envelope_wf e \<longleftrightarrow> plain_json e \<and> (case e of JObject kvs \<Rightarrow> distinct (map fst kvs) | _ \<Rightarrow> True)"

definition chain_inputs :: "crypto_lib \<Rightarrow> json list \<Rightarrow> bytes set" where
  "chain_inputs C es = {data. \<exists>e \<in> set es. canonical_json_bytes C (signed_part e) = Inr data}"

lemma json_get_norm:
  assumes "envelope_wf e"
  shows "json_get (json_norm e) k = map_option json_norm (json_get e k)"
proof (cases e)
  case (JObject kvs)
  let ?f = "\<lambda>kv. (fst kv, json_norm (snd kv))"
  have dist: "distinct (map fst kvs)" using assms JObject by (simp add: envelope_wf_def)
  have "map_of (map ?f (entries kvs)) = map_of (map ?f kvs)"
    using dist by (subst map_of_inject_set) (simp_all add: comp_def distinct_map inj_on_def flip: distinct_map [of fst])
  moreover have "map_of (map ?f kvs) k = map_option json_norm (map_of kvs k)" by (induction kvs) auto
  ultimately show ?thesis by (simp add: JObject sort_key_map_snd)
qed auto

lemma signed_part_get:
  "k \<notin> {''envelope_hash'', ''signature''} \<Longrightarrow> json_get (signed_part e) k = json_get e k"
proof -
  assume k: "k \<notin> {''envelope_hash'', ''signature''}"
  have "map_of (filter (\<lambda>(j, _). j \<noteq> key) kvs) k = map_of kvs k" if "k \<noteq> key" for key and kvs :: "(string \<times> json) list"
    using that by (induction kvs) auto
  with k show ?thesis by (cases e) (auto simp: signed_part_def simp del: filter_filter)
qed

lemma signed_part_wf: "envelope_wf e \<Longrightarrow> envelope_wf (signed_part e)"
  by (cases e) (auto simp: envelope_wf_def signed_part_def list_all_iff distinct_map_filter)

lemma verified_hash:
  assumes "verify_envelope C e = Inr True"
  obtains data where "canonical_json_bytes C (signed_part e) = Inr data"
    and "json_get e ''envelope_hash'' = Some (JString (sha256_hex_prefixed C data))"
  using assms
  by (auto simp: verify_envelope_def bind_sum_Inr str_field_Inr envelope_signing_bytes_def Let_def split: if_splits)

lemma same_hash_same_content:
  assumes "crypto_laws C" "envelope_wf e" "envelope_wf f" "verify_envelope C e = Inr True" "verify_envelope C f = Inr True"
    and "json_get e ''envelope_hash'' = json_get f ''envelope_hash''"
    and "inj_on (lib_sha256 C) (chain_inputs C [e, f])"
  shows "json_norm (signed_part e) = json_norm (signed_part f)"
proof -
  obtain x where x: "canonical_json_bytes C (signed_part e) = Inr x"
    "json_get e ''envelope_hash'' = Some (JString (sha256_hex_prefixed C x))" by (rule verified_hash [OF assms(4)])
  obtain y where y: "canonical_json_bytes C (signed_part f) = Inr y"
    "json_get f ''envelope_hash'' = Some (JString (sha256_hex_prefixed C y))" by (rule verified_hash [OF assms(5)])
  have "lib_hex_encode C (lib_sha256 C x) = lib_hex_encode C (lib_sha256 C y)"
    using x(2) y(2) assms(6) by (simp add: sha256_hex_prefixed_def hash_to_hex_prefixed_def hash_to_hex_def sha256_def)
  then have "lib_sha256 C x = lib_sha256 C y" using assms(1) by (metis crypto_laws_def sum.inject(2))
  then have "x = y" using assms(7) x(1) y(1) by (auto simp: chain_inputs_def dest: inj_onD)
  moreover have "plain_json (signed_part e)" "plain_json (signed_part f)"
    using signed_part_wf [OF assms(2)] signed_part_wf [OF assms(3)] by (simp_all add: envelope_wf_def)
  ultimately show ?thesis
    using same_textD [OF plain_same_text] x(1) y(1) by (metis canonical_json_bytes_def)
qed

lemma norm_scalar: "json_norm v = json_nat n \<longleftrightarrow> v = json_nat n" "json_norm v = json_opt JString p \<longleftrightarrow> v = json_opt JString p"
  by (cases v; auto simp: json_nat_def json_opt_def split: option.splits)+

lemma same_content_fields:
  assumes "envelope_wf e" "envelope_wf f" "json_norm (signed_part e) = json_norm (signed_part f)"
  shows "json_get e ''seq'' = Some (json_nat n) \<Longrightarrow> json_get f ''seq'' = Some (json_nat n)"
    and "json_get e ''prev_envelope_hash'' = Some (json_opt JString p) \<Longrightarrow>
      json_get f ''prev_envelope_hash'' = Some (json_opt JString p)"
proof -
  have get: "map_option json_norm (json_get e k) = map_option json_norm (json_get f k)"
    if "k \<notin> {''envelope_hash'', ''signature''}" for k
    using json_get_norm [OF signed_part_wf [OF assms(1)], of k] json_get_norm [OF signed_part_wf [OF assms(2)], of k]
      assms(3) signed_part_get [OF that] by metis
  show "json_get e ''seq'' = Some (json_nat n) \<Longrightarrow> json_get f ''seq'' = Some (json_nat n)"
    using get [of "''seq''"] norm_scalar(1) by (auto simp: map_option_case split: option.splits) metis
  show "json_get e ''prev_envelope_hash'' = Some (json_opt JString p) \<Longrightarrow>
      json_get f ''prev_envelope_hash'' = Some (json_opt JString p)"
    using get [of "''prev_envelope_hash''"] norm_scalar(2) by (auto simp: map_option_case split: option.splits) metis
qed

text \<open>The sequence numbers of a chain count its envelopes.\<close>

lemma chain_counts:
  "chain_ok C None es \<Longrightarrow> es \<noteq> [] \<Longrightarrow> \<exists>head. head_after None es = Some head \<and> ich_seq head = length es \<and>
     chain_head_from_envelope (last es) = Inr head"
proof (induction es rule: rev_induct)
  case (snoc e es)
  then obtain head where head: "chain_head_from_envelope e = Inr head" and ok: "chain_ok C None es"
    and link: "link_ok e (head_after None es)" by (auto simp: chain_ok_snoc)
  have "ich_seq head = length es + 1"
  proof (cases "es = []")
    case True
    then show ?thesis using link head by (auto simp: link_ok_iff valid_first head_after_def chain_head_Inr json_nat_def)
  next
    case False
    from snoc.IH [OF ok False] link head show ?thesis
      by (auto simp: link_ok_iff valid_next chain_head_Inr json_nat_def)
  qed
  then show ?case using head by (simp add: head_after_def)
qed simp

lemma last_hash_binds:
  assumes "crypto_laws C" "\<forall>e \<in> set es \<union> set fs. envelope_wf e" "chain_ok C None es" "chain_ok C None fs"
    and "es \<noteq> []" "fs \<noteq> []" "json_get (last es) ''envelope_hash'' = json_get (last fs) ''envelope_hash''"
    and "inj_on (lib_sha256 C) (chain_inputs C (es @ fs))"
  shows "map (json_norm \<circ> signed_part) es = map (json_norm \<circ> signed_part) fs"
  using assms(2-)
proof (induction es arbitrary: fs rule: rev_induct)
  case (snoc e es)
  obtain gs f where fs: "fs = gs @ [f]" using snoc.prems(5) by (metis append_butlast_last_id)
  have e: "verify_envelope C e = Inr True" "link_ok e (head_after None es)" "chain_ok C None es"
    using snoc.prems(2) by (auto simp: chain_ok_snoc)
  have f: "verify_envelope C f = Inr True" "link_ok f (head_after None gs)" "chain_ok C None gs"
    using snoc.prems(3) by (auto simp: fs chain_ok_snoc)
  have wf: "envelope_wf e" "envelope_wf f" using snoc.prems(1) fs by auto
  have "inj_on (lib_sha256 C) (chain_inputs C [e, f])"
    using snoc.prems(7) by (rule inj_on_subset) (auto simp: fs chain_inputs_def)
  then have same: "json_norm (signed_part e) = json_norm (signed_part f)"
    using snoc.prems(6) by (intro same_hash_same_content [OF assms(1) wf e(1) f(1)]) (simp_all add: fs)
  note fields = same_content_fields [OF wf same]
  have "json_get e ''seq'' = Some (json_nat (length es + 1))" "json_get f ''seq'' = Some (json_nat (length gs + 1))"
    using chain_counts [OF snoc.prems(2)] chain_counts [OF snoc.prems(3)] fs by (auto simp: chain_head_Inr)
  then have len: "length es = length gs" using fields(1) by (auto simp: json_nat_def)
  have "map (json_norm \<circ> signed_part) es = map (json_norm \<circ> signed_part) gs"
  proof (cases "es = []")
    case False
    then have ne: "gs \<noteq> []" using len by auto
    obtain h where h: "head_after None es = Some h" "chain_head_from_envelope (last es) = Inr h"
      using chain_counts [OF e(3) False] by auto
    obtain k where k: "head_after None gs = Some k" "chain_head_from_envelope (last gs) = Inr k"
      using chain_counts [OF f(3) ne] by auto
    obtain p where "json_get e ''prev_envelope_hash'' = Some (json_opt JString p)" "case_option [] id p = ich_envelope_hash h"
      using e(2) unfolding h(1) by (auto simp: link_ok_iff valid_next)
    moreover obtain q where "json_get f ''prev_envelope_hash'' = Some (json_opt JString q)" "case_option [] id q = ich_envelope_hash k"
      using f(2) unfolding k(1) by (auto simp: link_ok_iff valid_next)
    moreover have "json_opt JString p = json_opt JString q \<Longrightarrow> p = q" by (cases p; cases q) (auto simp: json_opt_def)
    ultimately have "ich_envelope_hash h = ich_envelope_hash k" using fields(2) [of p] by auto
    then have "json_get (last es) ''envelope_hash'' = json_get (last gs) ''envelope_hash''"
      using h(2) k(2) by (auto simp: chain_head_Inr)
    moreover have "inj_on (lib_sha256 C) (chain_inputs C (es @ gs))"
      using snoc.prems(7) by (rule inj_on_subset) (auto simp: fs chain_inputs_def)
    ultimately show ?thesis using snoc.prems(1) e(3) f(3) False ne by (intro snoc.IH) (auto simp: fs)
  qed (use len in auto)
  then show ?case using same by (simp add: fs comp_def)
qed simp

text \<open>
  C14. The hash of an issuer's last envelope commits to the signed content of the whole chain, for envelopes
  without floats (\<open>envelope_wf\<close>): two such chains that a reader accepts and that end in the same envelope hash
  have the same number of envelopes and, envelope by envelope, the same signed content up to the order of
  object entries, unless SHA-256 collides on the signed contents of these chains. Floats are left out because
  canonical JSON does not tell 1.0 from 1.
\<close>

theorem chain_head_binds_history:
  assumes "crypto_laws C" "\<forall>e \<in> set es \<union> set fs. envelope_wf e" "chain_ok C None es" "chain_ok C None fs"
    and "es \<noteq> []" "fs \<noteq> []" "json_get (last es) ''envelope_hash'' = json_get (last fs) ''envelope_hash''"
    and "inj_on (lib_sha256 C) (chain_inputs C (es @ fs))"
  shows "length es = length fs \<and>
    (\<forall>i < length es. json_norm (signed_part (es ! i)) = json_norm (signed_part (fs ! i)))"
proof -
  have eq: "map (json_norm \<circ> signed_part) es = map (json_norm \<circ> signed_part) fs" by (rule last_hash_binds [OF assms])
  then have len: "length es = length fs" by (metis length_map)
  moreover have "json_norm (signed_part (es ! i)) = json_norm (signed_part (fs ! i))" if "i < length es" for i
    using arg_cong [OF eq, of "\<lambda>xs. xs ! i"] that len by simp
  ultimately show ?thesis by blast
qed

section \<open>Examples\<close>

lemma model_hex_doubles: "hex_doubles model_crypto"
proof -
  have "length (hex_encode b) = 2 * length b" for b by (induction b) (simp_all add: hex_encode_def)
  then show ?thesis by (simp add: hex_doubles_def model_crypto_def)
qed

definition sample_envelope :: "u64 \<Rightarrow> string option \<Rightarrow> json" where
  "sample_envelope seq prev =
     (case build_signed_envelope model_crypto (\<lambda>_. None) ''k'' seq prev (JObject [(''type'', JString ''init'')]) ''t'' of
        Inl _ \<Rightarrow> JNull | Inr envelope \<Rightarrow> envelope)"

lemma sample_envelope_built:
  "build_signed_envelope model_crypto (\<lambda>_. None) ''k'' 1 None (JObject [(''type'', JString ''init'')]) ''t'' =
   Inr (sample_envelope 1 None)"
  by code_simp

text \<open>The same envelope with its hash listed last.\<close>

fun moved :: "json \<Rightarrow> json" where
  "moved (JObject kvs) =
     JObject (filter (\<lambda>(k, _). k \<noteq> ''envelope_hash'') kvs @ filter (\<lambda>(k, _). k = ''envelope_hash'') kvs)"
| "moved v = v"

lemma moved_get: "json_get (moved e) k = json_get e k"
proof (cases e)
  case (JObject kvs)
  have "map_of (filter (\<lambda>(j, _). P j) kvs) i = (if P i then map_of kvs i else None)" for P i
    by (induction kvs) auto
  then show ?thesis by (simp add: JObject map_add_def split: option.splits)
qed simp_all

lemma moved_signed_part: "signed_part (moved e) = signed_part e"
proof (cases e)
  case (JObject kvs)
  have "filter (\<lambda>(k, _). k \<noteq> ''envelope_hash'') (filter (\<lambda>(k, _). k = ''envelope_hash'') kvs) = []"
    by (auto simp: filter_empty_conv)
  then show ?thesis by (simp add: JObject signed_part_def case_prod_unfold)
qed simp_all

lemma chain_ok_moved: "chain_ok C None [moved e] = chain_ok C None [e]"
  by (simp add: verify_envelope_def verify_chain_link_def chain_head_from_envelope_def str_field_def prev_hash_field_def
      moved_get moved_signed_part)

lemma sample_chain: "chain_ok model_crypto None [sample_envelope 1 None]"
proof -
  let ?e = "sample_envelope 1 None"
  have "verify_envelope model_crypto ?e = Inr True"
    by (rule built_verifies [OF model_crypto_laws model_hex_doubles sample_envelope_built])
  moreover have "link_ok ?e None \<and> (\<exists>head. chain_head_from_envelope ?e = Inr head)"
  proof (rule built_envelope [OF sample_envelope_built])
    fix data
    assume "json_get ?e ''issuer'' = Some (JString (issuer_from_keypair model_crypto ''k''))"
      "json_get ?e ''seq'' = Some (json_nat 1)" "json_get ?e ''prev_envelope_hash'' = Some (json_opt JString None)"
      "json_get ?e ''envelope_hash'' = Some (JString (sha256_hex_prefixed model_crypto data))"
    then show ?thesis
      unfolding link_ok_iff chain_head_Inr using valid_first
      by (auto intro: exI [of _ "\<lparr>ich_issuer = issuer_from_keypair model_crypto ''k'', ich_seq = 1,
        ich_envelope_hash = sha256_hex_prefixed model_crypto data\<rparr>"])
  qed
  ultimately show ?thesis using chain_ok_snoc [of model_crypto None "[]" ?e] by (simp add: head_after_def)
qed

lemma sample_envelope_wf: "envelope_wf (sample_envelope 1 None) \<and> envelope_wf (moved (sample_envelope 1 None))"
  by code_simp

theorem chain_head_binds_history_witness:
  "chain_ok model_crypto None [sample_envelope 1 None] \<and> chain_ok model_crypto None [moved (sample_envelope 1 None)] \<and>
   json_norm (signed_part (sample_envelope 1 None)) = json_norm (signed_part (moved (sample_envelope 1 None)))"
proof -
  let ?e = "sample_envelope 1 None"
  have "inj_on (lib_sha256 model_crypto) (chain_inputs model_crypto ([?e] @ [moved ?e]))"
    by (auto simp: inj_on_def chain_inputs_def moved_signed_part)
  then have "length [?e] = length [moved ?e] \<and>
      (\<forall>i < length [?e]. json_norm (signed_part ([?e] ! i)) = json_norm (signed_part ([moved ?e] ! i)))"
    using sample_chain chain_ok_moved sample_envelope_wf moved_get
    by (intro chain_head_binds_history [OF model_crypto_laws]) auto
  then show ?thesis using sample_chain chain_ok_moved by simp
qed

end
