(* ===== verification/Spine_Signer.thy ===== *)
theory Spine_Signer
  imports Spine_Chain Governance Ordered_Map
begin

text \<open>
  The bridge's spine identities and the seal (\<^verbatim>\<open>crates/swarm-perch-bridge/src/spine.rs\<close>) over the durable
  chain heads (\<^verbatim>\<open>spool/chain_heads.rs\<close>), with the card envelope and card kinds of
  \<^verbatim>\<open>crates/swarm-perch-wire\<close>. \<open>bridge_env\<close> holds what the code takes from other crates: cryptography,
  the RFC 3339 parser, decoding a card envelope, the two directions of the heads document, and the quoting of
  \<^verbatim>\<open>{:?}\<close>, which follows Unicode tables. The clock's text is an argument of each seal. The heads file is its
  contents, whether \<^verbatim>\<open>exists\<close> sees it, and the errors of the system calls to come.
\<close>

section \<open>Data\<close>

datatype bridge_error =
    SpoolIo string string
  | UnknownSlot string
  | EnvelopeRefused string
  | MissingSpineSeed string
  | ChainHeadCorrupt string string
  | ChainHeadRegression string u64 u64
  | ChainHeadColonyMismatch string string

datatype card_kind = FindingCard | EscalationCard | HoldCard | VerdictCard | ReceiptCard | LeaseCard | RollbackCard

fun fact_schema :: "card_kind \<Rightarrow> string" where
  "fact_schema FindingCard = ''swarm.perch.finding.v1''"
| "fact_schema EscalationCard = ''swarm.perch.escalation.v1''"
| "fact_schema HoldCard = ''swarm.perch.hold.v1''"
| "fact_schema VerdictCard = ''swarm.perch.verdict.v1''"
| "fact_schema ReceiptCard = ''swarm.perch.receipt.v1''"
| "fact_schema LeaseCard = ''swarm.perch.lease.v1''"
| "fact_schema RollbackCard = ''swarm.perch.rollback.v1''"

record card_envelope =
  ce_schema :: string
  ce_issuer :: string
  ce_seq :: u64
  ce_prev_envelope_hash :: "string option"
  ce_issued_at :: string
  ce_capability_token :: json
  ce_fact :: json
  ce_envelope_hash :: string
  ce_signature :: "string option"

text \<open>Its serialised shape; an absent signature is left out.\<close>

definition card_envelope_json :: "card_envelope \<Rightarrow> json" where
  "card_envelope_json c = JObject
     ([(''schema'', JString (ce_schema c)), (''issuer'', JString (ce_issuer c)), (''seq'', json_nat (ce_seq c)),
       (''prev_envelope_hash'', json_opt JString (ce_prev_envelope_hash c)), (''issued_at'', JString (ce_issued_at c)),
       (''capability_token'', ce_capability_token c), (''fact'', ce_fact c),
       (''envelope_hash'', JString (ce_envelope_hash c))] @
      (case ce_signature c of None \<Rightarrow> [] | Some s \<Rightarrow> [(''signature'', JString s)]))"

type_synonym head_map = "(string, issuer_chain_head) btree"

record heads_on_disk =
  od_colony_id :: string
  od_heads :: head_map

record chain_head_store =
  chs_path :: string
  chs_colony_id :: string
  chs_heads :: head_map

record heads_file =
  hf_document :: "bytes option"
  hf_seen :: "bool list"
  hf_answers :: "string option list"

record bridge_env =
  be_crypto :: crypto_lib
  be_bad_time :: "string \<Rightarrow> string option"
  be_decode_card :: "json \<Rightarrow> string + card_envelope"
  be_write_heads :: "heads_on_disk \<Rightarrow> string + bytes"
  be_read_heads :: "bytes \<Rightarrow> string + heads_on_disk"
  be_debug :: "string \<Rightarrow> string"

section \<open>The chain-head store\<close>

definition heads_exists :: "heads_file \<Rightarrow> bool \<times> heads_file" where
  "heads_exists d =
     (case hf_seen d of
        [] \<Rightarrow> (hf_document d \<noteq> None, d)
      | visible # rest \<Rightarrow> (visible \<and> hf_document d \<noteq> None, d\<lparr>hf_seen := rest\<rparr>))"

text \<open>One system call on a path; with no answers left it succeeds.\<close>

definition heads_call :: "string \<Rightarrow> heads_file \<Rightarrow> (bridge_error + unit) \<times> heads_file" where
  "heads_call path d =
     (case hf_answers d of
        [] \<Rightarrow> (Inr (), d)
      | None # rest \<Rightarrow> (Inr (), d\<lparr>hf_answers := rest\<rparr>)
      | Some e # rest \<Rightarrow> (Inl (SpoolIo path e), d\<lparr>hf_answers := rest\<rparr>))"

definition then_call ::
  "string \<Rightarrow> (heads_file \<Rightarrow> (bridge_error + 'a) \<times> heads_file) \<Rightarrow> heads_file \<Rightarrow> (bridge_error + 'a) \<times> heads_file" where
  "then_call path k d = (case heads_call path d of (Inl e, d) \<Rightarrow> (Inl e, d) | (Inr _, d) \<Rightarrow> k d)"

text \<open>\<^verbatim>\<open>File::create\<close>, \<^verbatim>\<open>write_all\<close>, \<^verbatim>\<open>sync_all\<close> on the temporary file, then \<^verbatim>\<open>rename\<close>.\<close>

definition heads_persist :: "bridge_env \<Rightarrow> chain_head_store \<Rightarrow> heads_file \<Rightarrow> (bridge_error + unit) \<times> heads_file" where
  "heads_persist E store d =
     (let tmp = chs_path store @ ''.tmp'' in
      case be_write_heads E \<lparr>od_colony_id = chs_colony_id store, od_heads = chs_heads store\<rparr> of
        Inl reason \<Rightarrow> (Inl (ChainHeadCorrupt (chs_path store) reason), d)
      | Inr data \<Rightarrow>
          then_call tmp (then_call tmp (then_call tmp (then_call (chs_path store)
            (\<lambda>d. (Inr (), d\<lparr>hf_document := Some data\<rparr>))))) d)"

definition heads_open ::
  "bridge_env \<Rightarrow> string \<Rightarrow> string \<Rightarrow> heads_file \<Rightarrow> (bridge_error + chain_head_store) \<times> heads_file" where
  "heads_open E dir colony_id d =
     (let path = dir @ ''/chain-heads.json'';
          finish = (\<lambda>heads d.
            let store = \<lparr>chs_path = path, chs_colony_id = colony_id, chs_heads = heads\<rparr> in
            case heads_persist E store d of (Inl e, d) \<Rightarrow> (Inl e, d) | (Inr _, d) \<Rightarrow> (Inr store, d))
      in case heads_exists d of
           (False, d) \<Rightarrow> finish [] d
         | (True, d) \<Rightarrow>
             then_call path (\<lambda>d.
               case be_read_heads E (the (hf_document d)) of
                 Inl reason \<Rightarrow> (Inl (ChainHeadCorrupt path reason), d)
               | Inr disk \<Rightarrow>
                   if od_colony_id disk \<noteq> colony_id
                   then (Inl (ChainHeadColonyMismatch colony_id (od_colony_id disk)), d)
                   else finish (od_heads disk) d) d)"

definition heads_head :: "chain_head_store \<Rightarrow> string \<Rightarrow> issuer_chain_head option" where
  "heads_head store issuer = bt_get (chs_heads store) issuer"

text \<open>\<open>None\<close>: the sequence number overflows and the process aborts.\<close>

definition next_seq :: "issuer_chain_head option \<Rightarrow> u64 option" where
  "next_seq head = (case head of None \<Rightarrow> Some 1 | Some stored \<Rightarrow> u64_add (ich_seq stored) 1)"

definition heads_advance ::
  "bridge_env \<Rightarrow> issuer_chain_head \<Rightarrow> chain_head_store \<Rightarrow> heads_file \<Rightarrow>
   ((bridge_error + unit) \<times> chain_head_store \<times> heads_file) option" where
  "heads_advance E head store d =
     (case next_seq (heads_head store (ich_issuer head)) of
        None \<Rightarrow> None
      | Some expected \<Rightarrow>
          if ich_seq head \<noteq> expected
          then Some (Inl (ChainHeadRegression (ich_issuer head) expected (ich_seq head)), store, d)
          else
            let store = store\<lparr>chs_heads := bt_insert (ich_issuer head) head (chs_heads store)\<rparr> in
            (case heads_persist E store d of (r, d) \<Rightarrow> Some (r, store, d)))"

section \<open>The signer\<close>

record spine_signer =
  sp_keys :: "(string, bytes) btree"
  sp_issuers :: "(string, string) btree"

definition SPINE_DOMAIN :: bytes where "SPINE_DOMAIN = ''swarm.perch.bridge.spine.v1''"

definition slot_seed :: "crypto_lib \<Rightarrow> bytes \<Rightarrow> string \<Rightarrow> string \<Rightarrow> bytes" where
  "slot_seed C root colony_id slot =
     sha256 C (SPINE_DOMAIN @ [CHR 0x00] @ root @ [CHR 0x00] @ colony_id @ [CHR 0x00] @ slot)"

definition add_slot :: "crypto_lib \<Rightarrow> bytes \<Rightarrow> string \<Rightarrow> string \<Rightarrow> spine_signer \<Rightarrow> spine_signer" where
  "add_slot C root colony_id slot signer =
     (let keypair = slot_seed C root colony_id slot in
      \<lparr>sp_keys = bt_insert slot keypair (sp_keys signer),
       sp_issuers = bt_insert slot (issuer_from_keypair C keypair) (sp_issuers signer)\<rparr>)"

definition signer_from_seed_hex :: "crypto_lib \<Rightarrow> string \<Rightarrow> string \<Rightarrow> string list \<Rightarrow> bridge_error + spine_signer" where
  "signer_from_seed_hex C seed_hex colony_id slots =
     (case lib_hex_decode C seed_hex of
        Inl _ \<Rightarrow> Inl (MissingSpineSeed [])
      | Inr root \<Rightarrow>
          if length root < 32 then Inl (MissingSpineSeed [])
          else Inr (fold (add_slot C root colony_id) slots \<lparr>sp_keys = [], sp_issuers = []\<rparr>))"

text \<open>The environment is a map of its variables.\<close>

definition signer_from_config ::
  "crypto_lib \<Rightarrow> (string \<Rightarrow> string option) \<Rightarrow> string \<Rightarrow> string \<Rightarrow> string list \<Rightarrow> bridge_error + spine_signer" where
  "signer_from_config C vars spine_seed_env colony_id slots =
     (let env = trim spine_seed_env in
      case vars env of
        None \<Rightarrow> Inl (MissingSpineSeed env)
      | Some raw \<Rightarrow>
          (case signer_from_seed_hex C (trim raw) colony_id slots of
             Inl _ \<Rightarrow> Inl (MissingSpineSeed env)
           | Inr signer \<Rightarrow> Inr signer))"

definition signer_issuer :: "spine_signer \<Rightarrow> string \<Rightarrow> string" where
  "signer_issuer signer slot = (case bt_get (sp_issuers signer) slot of None \<Rightarrow> '''' | Some issuer \<Rightarrow> issuer)"

fun spine_error_display :: "spine_error \<Rightarrow> string" where
  "spine_error_display (InvalidIssuer s) = ''invalid issuer string: '' @ s"
| "spine_error_display (MissingField s) = ''missing required field: '' @ s"
| "spine_error_display InvalidWitnessSignature = ''invalid witness signature''"
| "spine_error_display (EnvelopeHashMismatch expected computed) =
     ''envelope hash mismatch: expected '' @ expected @ '', computed '' @ computed"
| "spine_error_display (InvalidTimestamp s) = ''invalid timestamp: '' @ s"
| "spine_error_display (ChainIntegrityViolation issuer reason) =
     ''chain integrity violation for issuer '' @ issuer @ '': '' @ reason"
| "spine_error_display (SpineJson s) = ''JSON error: '' @ s"
| "spine_error_display (SpineCrypto e) = crypto_error_display e"

definition seal_at ::
  "bridge_env \<Rightarrow> spine_signer \<Rightarrow> string \<Rightarrow> card_kind \<Rightarrow> u64 \<Rightarrow> string option \<Rightarrow> json \<Rightarrow> string \<Rightarrow>
   bridge_error + card_envelope" where
  "seal_at E signer slot kd seq prev content now =
     (case bt_get (sp_keys signer) slot of
        None \<Rightarrow> Inl (UnknownSlot slot)
      | Some keypair \<Rightarrow>
          let found = (case Option.bind (json_get content ''schema'') json_as_str of None \<Rightarrow> '''' | Some s \<Rightarrow> s) in
          if found \<noteq> fact_schema kd then
            Inl (EnvelopeRefused (''fact schema '' @ be_debug E found @ '' does not match '' @ fact_schema kd))
          else (case build_signed_envelope (be_crypto E) (be_bad_time E) keypair seq prev content now of
            Inl error \<Rightarrow> Inl (EnvelopeRefused (spine_error_display error))
          | Inr envelope \<Rightarrow>
              (case verify_envelope (be_crypto E) envelope of
                 Inl error \<Rightarrow> Inl (EnvelopeRefused (spine_error_display error))
               | Inr False \<Rightarrow> Inl (EnvelopeRefused ''the spine rejected its own newly signed envelope'')
               | Inr True \<Rightarrow>
                   (case be_decode_card E envelope of
                      Inl error \<Rightarrow> Inl (EnvelopeRefused error)
                    | Inr sealed \<Rightarrow> Inr sealed))))"

definition seal ::
  "bridge_env \<Rightarrow> spine_signer \<Rightarrow> string \<Rightarrow> card_kind \<Rightarrow> json \<Rightarrow> string \<Rightarrow> chain_head_store \<Rightarrow> heads_file \<Rightarrow>
   ((bridge_error + card_envelope) \<times> chain_head_store \<times> heads_file) option" where
  "seal E signer slot kd content now heads d =
     (let issuer = signer_issuer signer slot; head = heads_head heads issuer in
      case next_seq head of
        None \<Rightarrow> None
      | Some seq \<Rightarrow>
          (case seal_at E signer slot kd seq (map_option ich_envelope_hash head) content now of
             Inl e \<Rightarrow> Some (Inl e, heads, d)
           | Inr envelope \<Rightarrow>
               (case heads_advance E \<lparr>ich_issuer = issuer, ich_seq = seq, ich_envelope_hash = ce_envelope_hash envelope\<rparr> heads d of
                  None \<Rightarrow> None
                | Some (Inl e, heads, d) \<Rightarrow> Some (Inl e, heads, d)
                | Some (Inr _, heads, d) \<Rightarrow> Some (Inr envelope, heads, d))))"

section \<open>Heads committed on acknowledgement\<close>

text \<open>
  Of the pacer (\<^verbatim>\<open>pacer.rs\<close>) the step that advances the durable head when the relay took a card. The card was
  signed with \<^const>\<open>seal_at\<close> under the spool's sequence number, which is the argument here; the error of the
  store is only logged.
\<close>

datatype bridge_slot = AgentSlot agent_id | TelemetrySlot | AlarmSlot

fun slot_label :: "bridge_slot \<Rightarrow> string" where
  "slot_label (AgentSlot i) = agent_str i"
| "slot_label TelemetrySlot = ''perch-telemetry''"
| "slot_label AlarmSlot = ''perch-alarm''"

record seq_chain =
  sc_prev_envelope_hash :: "string option"

record pacer_spine =
  pa_spine :: "spine_signer option"
  pa_chain_heads :: "chain_head_store option"
  pa_identities :: "bridge_slot list"
  pa_chains :: "nat \<rightharpoonup> seq_chain"

definition commit_chain_head :: "bridge_env \<Rightarrow> nat \<Rightarrow> u64 \<Rightarrow> pacer_spine \<Rightarrow> heads_file \<Rightarrow> (pacer_spine \<times> heads_file) option" where
  "commit_chain_head E issuer seq p d =
     (case (pa_spine p, pa_chain_heads p) of
        (Some spine, Some heads) \<Rightarrow>
          if issuer < length (pa_identities p) then
            (case Option.bind (pa_chains p issuer) sc_prev_envelope_hash of
               None \<Rightarrow> Some (p, d)
             | Some envelope_hash \<Rightarrow>
                 (case heads_advance E
                    \<lparr>ich_issuer = signer_issuer spine (slot_label (pa_identities p ! issuer)), ich_seq = seq,
                     ich_envelope_hash = envelope_hash\<rparr> heads d of
                    None \<Rightarrow> None
                  | Some (_, heads, d) \<Rightarrow> Some (p\<lparr>pa_chain_heads := Some heads\<rparr>, d)))
          else Some (p, d)
      | _ \<Rightarrow> Some (p, d))"

end
