(* ===== verification/Spine_Heads.thy ===== *)
theory Spine_Heads
  imports Spine_Signer
begin

text \<open>
  The durable chain heads (\<^verbatim>\<open>crates/swarm-perch-bridge/src/spool/chain_heads.rs\<close>) under any sequence of
  openings and advances, by whichever caller, with failing system calls: no issuer has two heads recorded
  under one sequence number, as long as the lookup of the file sees it.
\<close>

section \<open>The file\<close>

text \<open>What the code relies on: \<^verbatim>\<open>serde_json\<close> reads back what it wrote.\<close>

definition heads_codec_ok :: "bridge_env \<Rightarrow> bool" where
  "heads_codec_ok E \<longleftrightarrow> (\<forall>disk. \<exists>data. be_write_heads E disk = Inr data \<and> be_read_heads E data = Inr disk)"

lemma heads_read_back: "heads_codec_ok E \<Longrightarrow> be_write_heads E disk = Inr data \<Longrightarrow> be_read_heads E data = Inr disk"
  unfolding heads_codec_ok_def by (metis sum.inject(2))

text \<open>Every lookup of the file answers what is there.\<close>

definition lookups_see :: "heads_file \<Rightarrow> bool" where
  "lookups_see d \<longleftrightarrow> False \<notin> set (hf_seen d)"

lemma lookups_see_tl: "lookups_see d \<Longrightarrow> hf_seen d' = tl (hf_seen d) \<Longrightarrow> lookups_see d'"
  by (cases "hf_seen d") (auto simp: lookups_see_def)

text \<open>A persisted document is the store's; a failed attempt leaves the file as it was.\<close>

lemma then_call_cases:
  assumes "then_call path k d = (r, d')"
  obtains e d1 where "r = Inl e" "d' = d1" "hf_document d1 = hf_document d" "hf_seen d1 = hf_seen d" "hf_answers d \<noteq> []"
  | d1 where "k d1 = (r, d')" "hf_document d1 = hf_document d" "hf_seen d1 = hf_seen d" "hf_answers d = [] \<longrightarrow> hf_answers d1 = []"
  using assms by (auto simp: then_call_def heads_call_def split: list.splits option.splits)

lemma heads_persist_effect:
  assumes "heads_persist E store d = (r, d')"
  shows "hf_seen d' = hf_seen d \<and> (case r of Inl _ \<Rightarrow> hf_document d' = hf_document d
    | Inr _ \<Rightarrow> \<exists>data. be_write_heads E \<lparr>od_colony_id = chs_colony_id store, od_heads = chs_heads store\<rparr> = Inr data \<and>
        hf_document d' = Some data)"
  using assms
  by (auto simp: heads_persist_def Let_def split: sum.splits elim!: then_call_cases)

lemma heads_persist_succeeds:
  assumes "heads_codec_ok E" "hf_answers d = []"
  shows "\<exists>d'. heads_persist E store d = (Inr (), d') \<and> hf_answers d' = []"
proof -
  obtain data where "be_write_heads E \<lparr>od_colony_id = chs_colony_id store, od_heads = chs_heads store\<rparr> = Inr data"
    using assms(1) by (meson heads_codec_ok_def)
  then show ?thesis using assms(2) by (simp add: heads_persist_def Let_def then_call_def heads_call_def)
qed

definition seq_of :: "head_map \<Rightarrow> string \<Rightarrow> nat" where
  "seq_of heads issuer = (case bt_get heads issuer of None \<Rightarrow> 0 | Some head \<Rightarrow> ich_seq head)"

lemma seq_of_insert: "seq_of (bt_insert k h heads) i = (if i = k then ich_seq h else seq_of heads i)"
  by (simp add: seq_of_def)

lemma next_seq_of: "next_seq (bt_get heads i) = Some seq \<Longrightarrow> seq = seq_of heads i + 1 \<and> (bt_get heads i \<noteq> None \<longrightarrow> seq \<le> u64_max)"
  by (auto simp: next_seq_def seq_of_def u64_add_def split: option.splits if_splits)

lemma heads_advance_effect:
  assumes "heads_advance E head store d = Some (r, store', d')"
  shows "store' = store \<and> d' = d \<and> (\<exists>e. r = Inl e) \<or>
    store' = store\<lparr>chs_heads := bt_insert (ich_issuer head) head (chs_heads store)\<rparr> \<and>
    ich_seq head = seq_of (chs_heads store) (ich_issuer head) + 1 \<and> heads_persist E store' d = (r, d')"
  using assms
  by (auto simp: heads_advance_def Let_def heads_head_def dest!: next_seq_of split: option.splits if_splits prod.splits)

lemma heads_open_effect:
  assumes "heads_open E dir colony d = (r, d')" "lookups_see d"
  shows "hf_seen d' = tl (hf_seen d) \<and> (case r of
      Inl _ \<Rightarrow> hf_document d' = hf_document d
    | Inr heads \<Rightarrow> chs_colony_id heads = colony \<and>
       (\<exists>d1. heads_persist E heads d1 = (Inr (), d') \<and> hf_document d1 = hf_document d \<and> hf_seen d1 = tl (hf_seen d)) \<and>
       (case hf_document d of None \<Rightarrow> chs_heads heads = []
        | Some data \<Rightarrow> \<exists>disk. be_read_heads E data = Inr disk \<and> od_heads disk = chs_heads heads))"
proof -
  let ?path = "dir @ ''/chain-heads.json''"
  define finish where "finish heads d = (let store = \<lparr>chs_path = ?path, chs_colony_id = colony, chs_heads = heads\<rparr> in
      case heads_persist E store d of (Inl e, d) \<Rightarrow> (Inl e, d) | (Inr _, d) \<Rightarrow> (Inr store, d))" for heads d
  have fin: "hf_seen d2 = hf_seen d1 \<and> (case r of Inl _ \<Rightarrow> hf_document d2 = hf_document d1
      | Inr store \<Rightarrow> chs_colony_id store = colony \<and> chs_heads store = heads \<and> heads_persist E store d1 = (Inr (), d2))"
    if "finish heads d1 = (r, d2)" for heads d1 d2
    using that heads_persist_effect [of E "\<lparr>chs_path = ?path, chs_colony_id = colony, chs_heads = heads\<rparr>" d1]
    by (auto simp: finish_def Let_def split: prod.splits sum.splits)
  obtain b d0 where b: "heads_exists d = (b, d0)" by fastforce
  have seen: "b = (hf_document d \<noteq> None)" "hf_document d0 = hf_document d" "hf_seen d0 = tl (hf_seen d)"
    using b assms(2) by (auto simp: heads_exists_def lookups_see_def split: list.splits)
  show ?thesis
  proof (cases "hf_document d")
    case None
    then have "finish [] d0 = (r, d')" using assms(1) b seen by (simp add: heads_open_def finish_def)
    from fin [OF this] show ?thesis using None seen by (auto split: sum.splits)
  next
    case (Some data)
    let ?k = "\<lambda>d. case be_read_heads E (the (hf_document d)) of
        Inl reason \<Rightarrow> (Inl (ChainHeadCorrupt ?path reason), d)
      | Inr disk \<Rightarrow> if od_colony_id disk \<noteq> colony then (Inl (ChainHeadColonyMismatch colony (od_colony_id disk)), d)
          else finish (od_heads disk) d"
    have "then_call ?path ?k d0 = (r, d')"
      using assms(1) b seen Some unfolding heads_open_def finish_def Let_def by simp
    then show ?thesis
    proof (cases rule: then_call_cases)
      case (2 d1)
      then show ?thesis using Some seen fin [of _ d1 d'] by (auto split: sum.splits if_splits intro!: exI [of _ d1])
    qed (use seen in auto)
  qed
qed

section \<open>No head twice\<close>

datatype heads_op = OpenHeads | AdvanceHead issuer_chain_head

type_synonym heads_state = "chain_head_store option \<times> heads_file"

text \<open>What the store accepts; after an abort or a failed opening it is closed until it is opened again.\<close>

fun heads_step ::
  "bridge_env \<Rightarrow> string \<Rightarrow> string \<Rightarrow> heads_op \<Rightarrow> heads_state \<Rightarrow> issuer_chain_head list \<times> heads_state" where
  "heads_step E dir colony (AdvanceHead head) (None, d) = ([], None, d)"
| "heads_step E dir colony (AdvanceHead head) (Some store, d) =
     (case heads_advance E head store d of
        None \<Rightarrow> ([], None, d)
      | Some (Inl _, store, d) \<Rightarrow> ([], Some store, d)
      | Some (Inr _, store, d) \<Rightarrow> ([head], Some store, d))"
| "heads_step E dir colony OpenHeads (_, d) =
     (case heads_open E dir colony d of
        (Inl _, d) \<Rightarrow> ([], None, d)
      | (Inr store, d) \<Rightarrow> ([], Some store, d))"

fun heads_run :: "bridge_env \<Rightarrow> string \<Rightarrow> string \<Rightarrow> heads_op list \<Rightarrow> heads_state \<Rightarrow> issuer_chain_head list" where
  "heads_run E dir colony [] s = []"
| "heads_run E dir colony (op # ops) s =
     (case heads_step E dir colony op s of (accepted, s) \<Rightarrow> accepted @ heads_run E dir colony ops s)"

text \<open>Every sequence number accepted is at most the one the file holds, and at most the one in memory.\<close>

definition seqs_recorded :: "bridge_env \<Rightarrow> (string \<Rightarrow> nat) \<Rightarrow> heads_state \<Rightarrow> bool" where
  "seqs_recorded E given s \<longleftrightarrow> lookups_see (snd s) \<and>
     (case hf_document (snd s) of
        None \<Rightarrow> (\<forall>i. given i = 0)
      | Some data \<Rightarrow> \<exists>disk. be_read_heads E data = Inr disk \<and> (\<forall>i. given i \<le> seq_of (od_heads disk) i)) \<and>
     (case fst s of None \<Rightarrow> True | Some heads \<Rightarrow> \<forall>i. given i \<le> seq_of (chs_heads heads) i)"

definition give :: "issuer_chain_head list \<Rightarrow> (string \<Rightarrow> nat) \<Rightarrow> string \<Rightarrow> nat" where
  "give accepted given = fold (\<lambda>h g. g(ich_issuer h := ich_seq h)) accepted given"

lemma seqs_recorded_persist:
  assumes "heads_codec_ok E" "seqs_recorded E given (s, d)" "heads_persist E heads d = (r, d')"
    and "\<And>i. given i \<le> seq_of (chs_heads heads) i" "\<And>i. given' i \<le> seq_of (chs_heads heads) i"
    and "\<exists>e. r = Inl e \<Longrightarrow> given' = given"
  shows "seqs_recorded E given' (Some heads, d')"
proof -
  note eff = heads_persist_effect [OF assms(3)]
  have see: "lookups_see d'" using eff assms(2) by (simp add: seqs_recorded_def lookups_see_def)
  show ?thesis
  proof (cases r)
    case (Inl e)
    then show ?thesis using eff see assms(2,4,6) by (auto simp: seqs_recorded_def)
  next
    case (Inr u)
    then obtain data where data: "be_write_heads E \<lparr>od_colony_id = chs_colony_id heads, od_heads = chs_heads heads\<rparr> = Inr data"
      "hf_document d' = Some data" using eff by auto
    then show ?thesis
      using heads_read_back [OF assms(1) data(1)] see assms(5) by (simp add: seqs_recorded_def)
  qed
qed

lemma advance_seqs:
  assumes "heads_codec_ok E" "seqs_recorded E given (Some store, d)" "heads_advance E head store d = Some (r, store', d')"
  shows "seqs_recorded E (if isl r then given else given(ich_issuer head := ich_seq head)) (Some store', d') \<and>
    (isl r \<or> given (ich_issuer head) < ich_seq head)"
proof -
  have le: "given i \<le> seq_of (chs_heads store) i" for i using assms(2) by (simp add: seqs_recorded_def)
  from heads_advance_effect [OF assms(3)] show ?thesis
  proof (elim disjE conjE)
    assume store': "store' = store\<lparr>chs_heads := bt_insert (ich_issuer head) head (chs_heads store)\<rparr>"
      and seq: "ich_seq head = seq_of (chs_heads store) (ich_issuer head) + 1" and persist: "heads_persist E store' d = (r, d')"
    have "given (ich_issuer head) \<le> ich_seq head" using le [of "ich_issuer head"] seq by simp
    then have "seqs_recorded E (if isl r then given else given(ich_issuer head := ich_seq head)) (Some store', d')"
      by (intro seqs_recorded_persist [OF assms(1,2) persist]) (auto simp: store' seq_of_insert le)
    then show ?thesis using le [of "ich_issuer head"] seq by simp
  qed (use assms(2) in auto)
qed

lemma open_seqs:
  assumes "heads_codec_ok E" "seqs_recorded E given (s, d)" "heads_open E dir colony d = (r, d')"
  shows "seqs_recorded E given (case r of Inl _ \<Rightarrow> None | Inr store \<Rightarrow> Some store, d')"
proof -
  have see: "lookups_see d" using assms(2) by (simp add: seqs_recorded_def)
  note eff = heads_open_effect [OF assms(3) see]
  have see': "lookups_see d'" using lookups_see_tl [OF see] eff by blast
  show ?thesis
  proof (cases r)
    case (Inl e)
    then show ?thesis using eff see' assms(2) by (auto simp: seqs_recorded_def)
  next
    case (Inr heads)
    then obtain d1 where d1: "heads_persist E heads d1 = (Inr (), d')" "hf_document d1 = hf_document d"
      "hf_seen d1 = tl (hf_seen d)" using eff by auto
    have "given i \<le> seq_of (chs_heads heads) i" for i
      using assms(2) eff Inr by (auto simp: seqs_recorded_def split: option.splits)
    moreover have "seqs_recorded E given (None, d1)"
      using assms(2) d1(2) lookups_see_tl [OF see d1(3)] by (simp add: seqs_recorded_def)
    ultimately show ?thesis using seqs_recorded_persist [OF assms(1) _ d1(1)] Inr by simp
  qed
qed

lemma step_seqs:
  assumes "heads_codec_ok E" "seqs_recorded E given s" "heads_step E dir colony op s = (accepted, s')"
  shows "seqs_recorded E (give accepted given) s' \<and> (\<forall>h \<in> set accepted. given (ich_issuer h) < ich_seq h) \<and> length accepted \<le> 1"
proof (cases op)
  case OpenHeads
  obtain st d where s: "s = (st, d)" by fastforce
  show ?thesis
    using assms(3) open_seqs [OF assms(1) assms(2) [unfolded s], of dir colony]
    by (auto simp: OpenHeads s give_def split: prod.splits sum.splits)
next
  case (AdvanceHead head)
  obtain st d where s: "s = (st, d)" by fastforce
  show ?thesis
  proof (cases st)
    case None
    then show ?thesis using assms(2,3) by (auto simp: AdvanceHead s give_def)
  next
    case (Some store)
    then show ?thesis
      using assms(2,3) advance_seqs [OF assms(1) assms(2) [unfolded s Some], of head]
      by (auto simp: AdvanceHead s give_def seqs_recorded_def split: option.splits prod.splits sum.splits)
  qed
qed

lemma run_seqs:
  assumes "heads_codec_ok E" "seqs_recorded E given s"
  shows "sorted_wrt (\<lambda>a b. ich_issuer a = ich_issuer b \<longrightarrow> ich_seq a < ich_seq b) (heads_run E dir colony ops s) \<and>
    (\<forall>h \<in> set (heads_run E dir colony ops s). given (ich_issuer h) < ich_seq h)"
  using assms(2)
proof (induction ops arbitrary: given s)
  case (Cons op ops)
  obtain accepted s' where step: "heads_step E dir colony op s = (accepted, s')"
    by (cases "heads_step E dir colony op s")
  have eff: "seqs_recorded E (give accepted given) s'" "\<forall>h \<in> set accepted. given (ich_issuer h) < ich_seq h"
    "length accepted \<le> 1" using step_seqs [OF assms(1) Cons.prems step] by auto
  show ?case
  proof (cases accepted)
    case Nil
    then show ?thesis using Cons.IH [OF eff(1)] step by (simp add: give_def)
  next
    case (Cons h hs)
    then have "accepted = [h]" using eff(3) by auto
    then have "give accepted given = given(ich_issuer h := ich_seq h)" by (simp add: give_def)
    moreover have "given (ich_issuer h) < ich_seq h" using eff(2) Cons by simp
    ultimately show ?thesis using Cons.IH [OF eff(1)] step \<open>accepted = [h]\<close> by (auto simp: fun_upd_def) (metis order_less_trans)
  qed
qed simp

text \<open>
  C15. The durable chain heads never take a sequence number twice: over any run of openings and advances of the
  store, offered any heads by any caller, with its writes failing at any point and aborts, the heads accepted
  for one issuer have strictly increasing sequence numbers. The hypothesis \<open>lookups_see\<close> says that
  \<^verbatim>\<open>Path::exists\<close> never takes a heads file that is there for absent, as it does when the lookup itself fails;
  \<open>unseen_heads_forgotten\<close> shows that the numbers start over then.
\<close>

theorem recorded_heads_increase:
  assumes "heads_codec_ok E" "hf_document d = None" "lookups_see d"
  shows "sorted_wrt (\<lambda>a b. ich_issuer a = ich_issuer b \<longrightarrow> ich_seq a < ich_seq b) (heads_run E dir colony ops (None, d))"
proof -
  have "seqs_recorded E (\<lambda>_. 0) (None, d)" using assms(2,3) by (simp add: seqs_recorded_def)
  from run_seqs [OF assms(1) this] show ?thesis by blast
qed

section \<open>What the heads do not give\<close>

lemma unseen_heads_forgotten:
  assumes "heads_codec_ok E" "hf_seen d = [False]" "hf_answers d = []"
  shows "\<exists>store d'. heads_open E dir colony d = (Inr store, d') \<and> chs_heads store = [] \<and>
    (\<exists>d2. heads_advance E \<lparr>ich_issuer = issuer, ich_seq = 1, ich_envelope_hash = hash\<rparr> store d' =
       Some (Inr (), store\<lparr>chs_heads := [(issuer, \<lparr>ich_issuer = issuer, ich_seq = 1, ich_envelope_hash = hash\<rparr>)]\<rparr>, d2))"
proof -
  let ?store = "\<lparr>chs_path = dir @ ''/chain-heads.json'', chs_colony_id = colony, chs_heads = []\<rparr>"
  obtain d' where d': "heads_persist E ?store (d\<lparr>hf_seen := []\<rparr>) = (Inr (), d')" "hf_answers d' = []"
    using heads_persist_succeeds [OF assms(1), of "d\<lparr>hf_seen := []\<rparr>" ?store] assms(3) by auto
  have "heads_open E dir colony d = (Inr ?store, d')"
    using assms(2) d'(1) by (simp add: heads_open_def heads_exists_def)
  moreover have "heads_advance E head ?store d' = Some (Inr (), ?store\<lparr>chs_heads := [(issuer, head)]\<rparr>,
      snd (heads_persist E (?store\<lparr>chs_heads := [(issuer, head)]\<rparr>) d'))"
    if "ich_issuer head = issuer" "ich_seq head = 1" for head
    using that heads_persist_succeeds [OF assms(1) d'(2), of "?store\<lparr>chs_heads := [(issuer, head)]\<rparr>"]
    by (auto simp: heads_advance_def heads_head_def next_seq_def bt_get_def)
  ultimately show ?thesis by fastforce
qed

text \<open>
  The pacer commits the sequence numbers of the spool, which records that are never published use up too. After
  one such number the store refuses every later commit of the issuer, and its durable head stays for good.
\<close>

lemma skipped_seq_stalls_heads:
  assumes "pa_chain_heads p = Some store" "pa_spine p = Some spine" "issuer < length (pa_identities p)"
    and "heads_head store (signer_issuer spine (slot_label (pa_identities p ! issuer))) = Some head"
    and "ich_seq head + 1 < seq" "seq \<le> u64_max"
  shows "commit_chain_head E issuer seq p d = Some (p, d)"
proof -
  have "next_seq (Some head) = Some (ich_seq head + 1)" using assms(5,6) by (simp add: next_seq_def u64_add_def)
  then show ?thesis
    using assms by (auto simp: commit_chain_head_def heads_advance_def split: option.splits)
qed

end
