(* ===== verification/Spine_Sealing.thy ===== *)
theory Spine_Sealing
  imports Spine_Heads
begin

text \<open>
  What \<^verbatim>\<open>SpineSigner::seal\<close> guarantees over runs of seals and restarts: as long as the system calls succeed a
  reader accepts everything that was sealed as one unbroken chain. It is the signer's own chain operation; the
  pacer that publishes cards signs with \<open>seal_at\<close> at the spool's sequence numbers and commits the heads on
  acknowledgement (\<open>Spine_Heads\<close>).
\<close>

section \<open>Seals and restarts\<close>

datatype bridge_op = Seal string card_kind json string | Reopen

type_synonym bridge_state = "chain_head_store option \<times> heads_file"

text \<open>After an abort or a failed start the bridge is down until it is started again.\<close>

fun bridge_step ::
  "bridge_env \<Rightarrow> spine_signer \<Rightarrow> string \<Rightarrow> string \<Rightarrow> bridge_op \<Rightarrow> bridge_state \<Rightarrow> card_envelope list \<times> bridge_state" where
  "bridge_step E signer dir colony (Seal slot kd content now) (None, d) = ([], None, d)"
| "bridge_step E signer dir colony (Seal slot kd content now) (Some heads, d) =
     (case seal E signer slot kd content now heads d of
        None \<Rightarrow> ([], None, d)
      | Some (Inl _, heads, d) \<Rightarrow> ([], Some heads, d)
      | Some (Inr sealed, heads, d) \<Rightarrow> ([sealed], Some heads, d))"
| "bridge_step E signer dir colony Reopen (_, d) =
     (case heads_open E dir colony d of
        (Inl _, d) \<Rightarrow> ([], None, d)
      | (Inr heads, d) \<Rightarrow> ([], Some heads, d))"

fun bridge_run ::
  "bridge_env \<Rightarrow> spine_signer \<Rightarrow> string \<Rightarrow> string \<Rightarrow> bridge_op list \<Rightarrow> bridge_state \<Rightarrow> card_envelope list" where
  "bridge_run E signer dir colony [] s = []"
| "bridge_run E signer dir colony (op # ops) s =
     (case bridge_step E signer dir colony op s of (cards, s) \<Rightarrow> cards @ bridge_run E signer dir colony ops s)"

text \<open>What the code relies on: \<^verbatim>\<open>serde_json\<close> reads back what it wrote, cards and heads.\<close>

definition bridge_laws :: "bridge_env \<Rightarrow> bool" where
  "bridge_laws E \<longleftrightarrow> crypto_laws (be_crypto E) \<and> hex_doubles (be_crypto E) \<and>
     (\<forall>sealed. be_decode_card E (card_envelope_json sealed) = Inr sealed) \<and>
     heads_codec_ok E"

lemma bridge_heads: "bridge_laws E \<Longrightarrow> heads_codec_ok E"
  by (simp add: bridge_laws_def)

section \<open>The signer\<close>

definition signer_ok :: "crypto_lib \<Rightarrow> spine_signer \<Rightarrow> bool" where
  "signer_ok C signer \<longleftrightarrow> (\<forall>slot key. bt_get (sp_keys signer) slot = Some key \<longrightarrow>
     bt_get (sp_issuers signer) slot = Some (issuer_from_keypair C key))"

lemma signer_ok_add: "signer_ok C signer \<Longrightarrow> signer_ok C (add_slot C root colony slot signer)"
  by (simp add: signer_ok_def add_slot_def Let_def)

lemma signer_from_seed_ok: "signer_from_seed_hex C seed_hex colony slots = Inr signer \<Longrightarrow> signer_ok C signer"
proof -
  have "signer_ok C signer \<Longrightarrow> signer_ok C (fold (add_slot C root colony) slots signer)" for root signer
    by (induction slots arbitrary: signer) (simp_all add: signer_ok_add)
  then show "signer_from_seed_hex C seed_hex colony slots = Inr signer \<Longrightarrow> signer_ok C signer"
    by (auto simp: signer_from_seed_hex_def signer_ok_def split: sum.splits if_splits)
qed

section \<open>One seal\<close>

lemma built_card:
  assumes "build_signed_envelope C bad_time sk seq prev content now = Inr envelope"
  obtains sealed where "envelope = card_envelope_json sealed" "ce_issuer sealed = issuer_from_keypair C sk" "ce_seq sealed = seq"
    "ce_prev_envelope_hash sealed = prev"
proof -
  obtain hash sig where "envelope = json_index_set (json_index_set (unsigned_envelope C sk seq prev content now)
      ''envelope_hash'' (JString hash)) ''signature'' (JString sig)"
    using assms by (auto simp: build_signed_envelope_def sign_envelope_def Let_def split: option.splits sum.splits)
  then have "envelope = card_envelope_json \<lparr>ce_schema = ENVELOPE_SCHEMA_V1, ce_issuer = issuer_from_keypair C sk, ce_seq = seq,
      ce_prev_envelope_hash = prev, ce_issued_at = now, ce_capability_token = JNull, ce_fact = content,
      ce_envelope_hash = hash, ce_signature = Some sig\<rparr>"
    by (simp add: unsigned_envelope_def card_envelope_json_def)
  then show ?thesis by (rule that) simp_all
qed

lemma card_fields:
  "json_get (card_envelope_json c) ''issuer'' = Some (JString (ce_issuer c))"
  "json_get (card_envelope_json c) ''seq'' = Some (json_nat (ce_seq c))"
  "json_get (card_envelope_json c) ''prev_envelope_hash'' = Some (json_opt JString (ce_prev_envelope_hash c))"
  "json_get (card_envelope_json c) ''envelope_hash'' = Some (JString (ce_envelope_hash c))"
  by (simp_all add: card_envelope_json_def)

lemma seal_at_card:
  assumes "bridge_laws E" "signer_ok (be_crypto E) signer" "seal_at E signer slot kd seq prev content now = Inr sealed"
  shows "verify_envelope (be_crypto E) (card_envelope_json sealed) = Inr True \<and> ce_issuer sealed = signer_issuer signer slot \<and>
    ce_seq sealed = seq \<and> ce_prev_envelope_hash sealed = prev"
proof -
  obtain key envelope where key: "bt_get (sp_keys signer) slot = Some key"
    and built: "build_signed_envelope (be_crypto E) (be_bad_time E) key seq prev content now = Inr envelope"
    and verified: "verify_envelope (be_crypto E) envelope = Inr True" and decoded: "be_decode_card E envelope = Inr sealed"
    using assms(3) by (auto simp: seal_at_def Let_def split: option.splits if_splits sum.splits bool.splits)
  obtain c where c: "envelope = card_envelope_json c" "ce_issuer c = issuer_from_keypair (be_crypto E) key" "ce_seq c = seq"
      "ce_prev_envelope_hash c = prev" by (rule built_card [OF built])
  then have "sealed = c" using decoded assms(1) by (auto simp: bridge_laws_def)
  then show ?thesis using c verified key assms(2) by (auto simp: signer_ok_def signer_issuer_def)
qed

text \<open>What a seal returns and leaves, whatever the system calls answer.\<close>

lemma seal_effect:
  assumes "bridge_laws E" "signer_ok (be_crypto E) signer" "seal E signer slot kd content now heads d = Some (r, heads', d')"
  shows "heads' = heads \<and> d' = d \<and> (\<exists>e. r = Inl e) \<or>
    (\<exists>sealed head q. heads' = heads\<lparr>chs_heads := bt_insert (ich_issuer head) head (chs_heads heads)\<rparr> \<and>
      ich_seq head = seq_of (chs_heads heads) (ich_issuer head) + 1 \<and> heads_persist E heads' d = (q, d') \<and>
      next_seq (bt_get (chs_heads heads) (ich_issuer head)) = Some (ich_seq head) \<and>
      r = (case q of Inl e \<Rightarrow> Inl e | Inr _ \<Rightarrow> Inr sealed) \<and>
      verify_envelope (be_crypto E) (card_envelope_json sealed) = Inr True \<and>
      head = \<lparr>ich_issuer = ce_issuer sealed, ich_seq = ce_seq sealed, ich_envelope_hash = ce_envelope_hash sealed\<rparr> \<and>
      ce_prev_envelope_hash sealed = map_option ich_envelope_hash (bt_get (chs_heads heads) (ce_issuer sealed)))"
proof -
  let ?issuer = "signer_issuer signer slot"
  let ?prior = "heads_head heads ?issuer"
  obtain seq where seq: "next_seq ?prior = Some seq"
    using assms(3) by (auto simp: seal_def Let_def split: option.splits)
  show ?thesis
  proof (cases "seal_at E signer slot kd seq (map_option ich_envelope_hash ?prior) content now")
    case (Inl e)
    then have "heads' = heads \<and> d' = d \<and> r = Inl e" using assms(3) seq by (simp add: seal_def Let_def)
    then show ?thesis by blast
  next
    case (Inr sealed)
    note sealed = seal_at_card [OF assms(1,2) Inr]
    let ?head = "\<lparr>ich_issuer = ?issuer, ich_seq = seq, ich_envelope_hash = ce_envelope_hash sealed\<rparr>"
    obtain q where q: "heads_advance E ?head heads d = Some (q, heads', d')" "r = (case q of Inl e \<Rightarrow> Inl e | Inr _ \<Rightarrow> Inr sealed)"
      using assms(3) seq Inr by (auto simp: seal_def Let_def split: option.splits sum.splits prod.splits)
    from heads_advance_effect [OF q(1)] show ?thesis
    proof (elim disjE conjE)
      assume "heads' = heads\<lparr>chs_heads := bt_insert (ich_issuer ?head) ?head (chs_heads heads)\<rparr>"
        "ich_seq ?head = seq_of (chs_heads heads) (ich_issuer ?head) + 1" "heads_persist E heads' d = (q, d')"
      then show ?thesis using sealed q(2) seq unfolding heads_head_def
        by (intro disjI2 exI [of _ sealed] exI [of _ ?head] exI [of _ q]) auto
    qed (use q(2) in auto)
  qed
qed

section \<open>Unbroken chains\<close>

text \<open>What an issuer sealed so far is a chain a reader accepts, and the stored head is where it ends.\<close>

definition chain_heads :: "crypto_lib \<Rightarrow> card_envelope list \<Rightarrow> head_map \<Rightarrow> bool" where
  "chain_heads C cs heads \<longleftrightarrow> (\<forall>i. let es = map card_envelope_json (filter (\<lambda>c. ce_issuer c = i) cs) in
     chain_ok C None es \<and> bt_get heads i = head_after None es)"

definition chains_recorded :: "bridge_env \<Rightarrow> card_envelope list \<Rightarrow> bridge_state \<Rightarrow> bool" where
  "chains_recorded E cs s \<longleftrightarrow> hf_seen (snd s) = [] \<and> hf_answers (snd s) = [] \<and>
     (case hf_document (snd s) of
        None \<Rightarrow> chain_heads (be_crypto E) cs []
      | Some data \<Rightarrow> \<exists>disk. be_read_heads E data = Inr disk \<and> chain_heads (be_crypto E) cs (od_heads disk)) \<and>
     (case fst s of None \<Rightarrow> True | Some heads \<Rightarrow> chain_heads (be_crypto E) cs (chs_heads heads))"

lemma chain_heads_extend:
  assumes "chain_heads C cs heads" "verify_envelope C (card_envelope_json c) = Inr True"
    and "next_seq (bt_get heads (ce_issuer c)) = Some (ce_seq c)"
    and "ce_prev_envelope_hash c = map_option ich_envelope_hash (bt_get heads (ce_issuer c))"
  shows "chain_heads C (cs @ [c]) (bt_insert (ce_issuer c)
    \<lparr>ich_issuer = ce_issuer c, ich_seq = ce_seq c, ich_envelope_hash = ce_envelope_hash c\<rparr> heads)"
proof -
  let ?e = "card_envelope_json c"
  let ?es = "map card_envelope_json (filter (\<lambda>d. ce_issuer d = ce_issuer c) cs)"
  let ?head = "\<lparr>ich_issuer = ce_issuer c, ich_seq = ce_seq c, ich_envelope_hash = ce_envelope_hash c\<rparr>"
  have es: "chain_ok C None ?es" "bt_get heads (ce_issuer c) = head_after None ?es"
    using assms(1) by (auto simp: chain_heads_def Let_def)
  have head: "chain_head_from_envelope ?e = Inr ?head" by (simp add: chain_head_Inr card_fields)
  have "link_ok ?e (head_after None ?es)"
  proof (cases "head_after None ?es")
    case None
    then show ?thesis using assms(3,4) es(2) by (auto simp: link_ok_iff card_fields valid_first next_seq_def)
  next
    case (Some h)
    then have "?es \<noteq> []" by (auto simp: head_after_def)
    then have "chain_head_from_envelope (last ?es) = Inr h" using chain_counts [OF es(1)] Some by auto
    moreover have "last ?es = card_envelope_json (last (filter (\<lambda>d. ce_issuer d = ce_issuer c) cs))"
      using \<open>?es \<noteq> []\<close> by (simp add: last_map)
    moreover have "ce_issuer (last (filter (\<lambda>d. ce_issuer d = ce_issuer c) cs)) = ce_issuer c"
      using last_in_set [of "filter (\<lambda>d. ce_issuer d = ce_issuer c) cs"] \<open>?es \<noteq> []\<close> by auto
    ultimately have "ich_issuer h = ce_issuer c" by (simp add: chain_head_Inr card_fields)
    then show ?thesis using assms(3,4) es(2) Some
      by (auto simp: link_ok_iff card_fields valid_next next_seq_def u64_add_def split: if_splits
          intro!: exI [of _ "ce_seq c"] exI [of _ "Some (ich_envelope_hash h)"])
  qed
  then have "chain_ok C None (?es @ [?e])" using es(1) assms(2) head by (simp add: chain_ok_snoc)
  moreover have "head_after None (?es @ [?e]) = Some ?head" using head by (simp add: head_after_def)
  ultimately show ?thesis using assms(1) by (auto simp: chain_heads_def Let_def)
qed

lemma chains_recorded_persist:
  assumes "bridge_laws E" "hf_seen d = []" "hf_answers d = []" "chain_heads (be_crypto E) cs (chs_heads heads)"
    and "heads_persist E heads d = (r, d')"
  shows "r = Inr () \<and> chains_recorded E cs (Some heads, d')"
proof -
  have r: "r = Inr ()" "hf_answers d' = []" using heads_persist_succeeds [OF bridge_heads [OF assms(1)] assms(3), of heads] assms(5) by auto
  obtain data where data: "be_write_heads E \<lparr>od_colony_id = chs_colony_id heads, od_heads = chs_heads heads\<rparr> = Inr data"
    "hf_document d' = Some data" "hf_seen d' = []"
    using heads_persist_effect [OF assms(5)] r(1) assms(2) by auto
  have "be_read_heads E data = Inr \<lparr>od_colony_id = chs_colony_id heads, od_heads = chs_heads heads\<rparr>"
    by (rule heads_read_back [OF bridge_heads [OF assms(1)] data(1)])
  then show ?thesis using r data assms(4) by (simp add: chains_recorded_def)
qed

lemma heads_open_answers:
  assumes "heads_open E dir colony d = (r, d')" "hf_answers d = []" "hf_seen d = []"
  shows "hf_answers d' = []"
proof -
  have persist: "heads_persist E store d = (q, d2) \<Longrightarrow> hf_answers d2 = []" for store q d2
    using assms(2) by (auto simp: heads_persist_def Let_def then_call_def heads_call_def split: sum.splits)
  show ?thesis
    using assms persist
    by (cases "hf_document d") (auto simp: heads_open_def Let_def heads_exists_def then_call_def heads_call_def
        split: if_splits sum.splits prod.splits option.splits)
qed

lemma step_chains:
  assumes "bridge_laws E" "signer_ok (be_crypto E) signer" "chains_recorded E cs s"
    and "bridge_step E signer dir colony op s = (cards, s')"
  shows "chains_recorded E (cs @ cards) s'"
proof (cases op)
  case (Seal slot kd content now)
  obtain st d where s: "s = (st, d)" by fastforce
  show ?thesis
  proof (cases st)
    case None
    then show ?thesis using assms(3,4) by (simp add: Seal s)
  next
    case (Some heads)
    show ?thesis
    proof (cases "seal E signer slot kd content now heads d")
      case None
      then show ?thesis using assms(3,4) by (auto simp: Seal s Some chains_recorded_def)
    next
      case (Some res)
      obtain r heads' d' where res: "res = (r, heads', d')" by (cases res) auto
      have out: "cards = (case r of Inl _ \<Rightarrow> [] | Inr c \<Rightarrow> [c])" "s' = (Some heads', d')"
        using assms(4) by (auto simp: Seal s \<open>st = Some heads\<close> Some res split: sum.splits)
      from seal_effect [OF assms(1,2) Some [unfolded res]] show ?thesis
      proof (elim disjE exE conjE)
        fix e assume "heads' = heads" "d' = d" "r = Inl e"
        then show ?thesis using assms(3) out by (simp add: s \<open>st = Some heads\<close>)
      next
        fix sealed head q
        assume heads': "heads' = heads\<lparr>chs_heads := bt_insert (ich_issuer head) head (chs_heads heads)\<rparr>"
          and nxt: "next_seq (bt_get (chs_heads heads) (ich_issuer head)) = Some (ich_seq head)"
          and q: "heads_persist E heads' d = (q, d')" "r = (case q of Inl e \<Rightarrow> Inl e | Inr _ \<Rightarrow> Inr sealed)"
          and ok: "verify_envelope (be_crypto E) (card_envelope_json sealed) = Inr True"
          and head: "head = \<lparr>ich_issuer = ce_issuer sealed, ich_seq = ce_seq sealed, ich_envelope_hash = ce_envelope_hash sealed\<rparr>"
          and prev: "ce_prev_envelope_hash sealed = map_option ich_envelope_hash (bt_get (chs_heads heads) (ce_issuer sealed))"
        have rec: "hf_seen d = []" "hf_answers d = []" "chain_heads (be_crypto E) cs (chs_heads heads)"
          using assms(3) by (auto simp: chains_recorded_def s \<open>st = Some heads\<close>)
        have "chain_heads (be_crypto E) (cs @ [sealed]) (chs_heads heads')"
          using chain_heads_extend [OF rec(3) ok] nxt prev by (simp add: heads' head)
        from chains_recorded_persist [OF assms(1) rec(1,2) this q(1)] show ?thesis using q(2) out by simp
      qed
    qed
  qed
next
  case Reopen
  obtain st d where s: "s = (st, d)" by fastforce
  have rec: "hf_seen d = []" "hf_answers d = []" "case hf_document d of None \<Rightarrow> chain_heads (be_crypto E) cs []
      | Some data \<Rightarrow> \<exists>disk. be_read_heads E data = Inr disk \<and> chain_heads (be_crypto E) cs (od_heads disk)"
    using assms(3) by (auto simp: chains_recorded_def s)
  obtain r d' where r: "heads_open E dir colony d = (r, d')" by fastforce
  have "lookups_see d" using rec(1) by (simp add: lookups_see_def)
  note eff = heads_open_effect [OF r this, unfolded rec(1) list.sel] and answers = heads_open_answers [OF r rec(2,1)]
  show ?thesis
  proof (cases r)
    case (Inl e)
    then show ?thesis using eff answers rec assms(4) r by (auto simp: Reopen s chains_recorded_def)
  next
    case (Inr heads)
    then have "chain_heads (be_crypto E) cs (chs_heads heads)"
      using eff rec(3) by (auto split: option.splits)
    moreover obtain data where "be_write_heads E \<lparr>od_colony_id = chs_colony_id heads, od_heads = chs_heads heads\<rparr> = Inr data"
      "hf_document d' = Some data" using eff Inr by (auto dest!: heads_persist_effect)
    moreover from this(1) have "be_read_heads E data = Inr \<lparr>od_colony_id = chs_colony_id heads, od_heads = chs_heads heads\<rparr>"
      by (rule heads_read_back [OF bridge_heads [OF assms(1)]])
    ultimately show ?thesis using eff answers assms(4) r Inr by (auto simp: Reopen s chains_recorded_def)
  qed
qed

lemma run_chains:
  assumes "bridge_laws E" "signer_ok (be_crypto E) signer" "chains_recorded E cs s"
  shows "\<exists>s'. chains_recorded E (cs @ bridge_run E signer dir colony ops s) s'"
  using assms(3)
proof (induction ops arbitrary: cs s)
  case (Cons op ops)
  obtain cards s' where step: "bridge_step E signer dir colony op s = (cards, s')"
    by (cases "bridge_step E signer dir colony op s")
  from Cons.IH [OF step_chains [OF assms(1,2) Cons.prems step]] show ?case by (simp add: step)
qed auto

text \<open>
  C26. What \<^verbatim>\<open>SpineSigner::seal\<close> seals is an unbroken chain: over any run of seals and restarts whose system calls succeed,
  refused seals included, the cards of every issuer, in the order they were sealed, all verify under its key
  and each continues the one before, from the first.
\<close>

theorem sealed_chains_verify:
  assumes "bridge_laws E" "signer_from_seed_hex (be_crypto E) seed colony slots = Inr signer"
  shows "chain_ok (be_crypto E) None (map card_envelope_json (filter (\<lambda>c. ce_issuer c = issuer)
    (bridge_run E signer dir colony ops (None, \<lparr>hf_document = None, hf_seen = [], hf_answers = []\<rparr>))))"
proof -
  have "chains_recorded E [] (None, \<lparr>hf_document = None, hf_seen = [], hf_answers = []\<rparr>)"
    by (simp add: chains_recorded_def chain_heads_def head_after_def)
  from run_chains [OF assms(1) signer_from_seed_ok [OF assms(2)] this, of dir colony ops] show ?thesis
    by (auto simp: chains_recorded_def chain_heads_def Let_def split: option.splits)
qed

section \<open>A seal that can return does\<close>

definition sealable :: "bridge_env \<Rightarrow> spine_signer \<Rightarrow> string \<Rightarrow> card_kind \<Rightarrow> json \<Rightarrow> string \<Rightarrow> bool" where
  "sealable E signer slot kd content now \<longleftrightarrow> bt_get (sp_keys signer) slot \<noteq> None \<and>
     json_get content ''schema'' = Some (JString (fact_schema kd)) \<and> float_free content \<and> be_bad_time E now = None"

lemma seal_at_succeeds:
  assumes "bridge_laws E" "sealable E signer slot kd content now"
  shows "\<exists>sealed. seal_at E signer slot kd seq prev content now = Inr sealed"
proof -
  obtain key where key: "bt_get (sp_keys signer) slot = Some key" using assms(2) by (auto simp: sealable_def)
  let ?unsigned = "unsigned_envelope (be_crypto E) key seq prev content now"
  have "float_free ?unsigned"
    using assms(2) by (cases prev) (simp_all add: unsigned_envelope_def sealable_def json_nat_def json_opt_def)
  then obtain data where "canonical_json_bytes (be_crypto E) ?unsigned = Inr data"
    unfolding canonical_json_bytes_def using canonicalize_total by blast
  then obtain envelope where built:
      "build_signed_envelope (be_crypto E) (be_bad_time E) key seq prev content now = Inr envelope"
    using assms(2)
    by (auto simp: build_signed_envelope_def sealable_def sign_envelope_def envelope_signing_bytes_def from_crypto_def Let_def)
  have "verify_envelope (be_crypto E) envelope = Inr True"
    using assms(1) by (intro built_verifies [OF _ _ built]) (simp_all add: bridge_laws_def)
  moreover obtain c where "envelope = card_envelope_json c" by (rule built_card [OF built])
  moreover have "be_decode_card E (card_envelope_json c) = Inr c" for c using assms(1) by (simp add: bridge_laws_def)
  ultimately show ?thesis using assms(2) key built by (auto simp: seal_at_def sealable_def Let_def)
qed

lemma seal_attempt:
  assumes "bridge_laws E" "sealable E signer slot kd content now"
    and "next_seq (heads_head heads (signer_issuer signer slot)) = Some seq"
    and "heads_persist E (heads\<lparr>chs_heads := bt_insert (signer_issuer signer slot) head (chs_heads heads)\<rparr>) d = (q, d')"
    and "seal_at E signer slot kd seq (map_option ich_envelope_hash (heads_head heads (signer_issuer signer slot))) content now = Inr sealed"
    and "head = \<lparr>ich_issuer = signer_issuer signer slot, ich_seq = seq, ich_envelope_hash = ce_envelope_hash sealed\<rparr>"
  shows "seal E signer slot kd content now heads d =
    Some (case q of Inl e \<Rightarrow> Inl e | Inr _ \<Rightarrow> Inr sealed,
      heads\<lparr>chs_heads := bt_insert (signer_issuer signer slot) head (chs_heads heads)\<rparr>, d')"
  using assms(3-) by (auto simp: seal_def Let_def heads_advance_def split: sum.splits)

lemma seal_returns:
  assumes "bridge_laws E" "sealable E signer slot kd content now" "hf_answers d = []"
    and "next_seq (heads_head heads (signer_issuer signer slot)) \<noteq> None"
  shows "\<exists>sealed heads' d'. seal E signer slot kd content now heads d = Some (Inr sealed, heads', d')"
proof -
  obtain seq where seq: "next_seq (heads_head heads (signer_issuer signer slot)) = Some seq" using assms(4) by auto
  obtain sealed where sealed: "seal_at E signer slot kd seq
      (map_option ich_envelope_hash (heads_head heads (signer_issuer signer slot))) content now = Inr sealed"
    using seal_at_succeeds [OF assms(1,2)] by blast
  obtain d' where "heads_persist E (heads\<lparr>chs_heads := bt_insert (signer_issuer signer slot)
      \<lparr>ich_issuer = signer_issuer signer slot, ich_seq = seq, ich_envelope_hash = ce_envelope_hash sealed\<rparr> (chs_heads heads)\<rparr>) d
      = (Inr (), d')" using heads_persist_succeeds [OF bridge_heads [OF assms(1)] assms(3)] by blast
  from seal_attempt [OF assms(1,2) seq this sealed refl] show ?thesis by auto
qed

text \<open>
  The comment on \<^verbatim>\<open>seal\<close> promises that a failed seal leaves the chain where it was. When the write of the
  heads file fails, the head in memory has already moved: the next seal continues an envelope that nobody got.
\<close>

lemma failed_seal_moves_chain:
  assumes "bridge_laws E" "sealable E signer slot kd content now" "hf_answers d = Some err # rest"
    and "next_seq (heads_head heads (signer_issuer signer slot)) \<noteq> None"
  shows "\<exists>e heads' d'. seal E signer slot kd content now heads d = Some (Inl e, heads', d') \<and>
    seq_of (chs_heads heads') (signer_issuer signer slot) = seq_of (chs_heads heads) (signer_issuer signer slot) + 1"
proof -
  obtain seq where seq: "next_seq (heads_head heads (signer_issuer signer slot)) = Some seq" using assms(4) by auto
  obtain sealed where sealed: "seal_at E signer slot kd seq
      (map_option ich_envelope_hash (heads_head heads (signer_issuer signer slot))) content now = Inr sealed"
    using seal_at_succeeds [OF assms(1,2)] by blast
  let ?head = "\<lparr>ich_issuer = signer_issuer signer slot, ich_seq = seq, ich_envelope_hash = ce_envelope_hash sealed\<rparr>"
  let ?heads = "heads\<lparr>chs_heads := bt_insert (signer_issuer signer slot) ?head (chs_heads heads)\<rparr>"
  obtain data where "be_write_heads E \<lparr>od_colony_id = chs_colony_id ?heads, od_heads = chs_heads ?heads\<rparr> = Inr data"
    using assms(1) unfolding bridge_laws_def heads_codec_ok_def by blast
  then obtain e d' where "heads_persist E ?heads d = (Inl e, d')"
    using assms(3) by (auto simp: heads_persist_def Let_def then_call_def heads_call_def)
  from seal_attempt [OF assms(1,2) seq this sealed refl] show ?thesis
    using next_seq_of [OF seq [unfolded heads_head_def]] by (auto simp: seq_of_insert)
qed

end
