(* ===== verification/Spine_Example.thy ===== *)
theory Spine_Example
  imports Spine_Sealing
begin

text \<open>
  A bridge environment in which everything the sealing theorems rely on holds, with a small length-prefixed
  format for the heads document, and the theorems on it.
\<close>

section \<open>A document format\<close>

definition put_number :: "nat \<Rightarrow> string" where "put_number n = dec_nat n @ '':''"

definition take_number :: "string \<Rightarrow> nat \<times> string" where
  "take_number t = (let ds = takeWhile (\<lambda>c. c \<noteq> CHR '':'') t in (read_dec ds, drop (length ds + 1) t))"

definition put_text :: "string \<Rightarrow> string" where "put_text s = put_number (length s) @ s"

definition take_text :: "string \<Rightarrow> string \<times> string" where
  "take_text t = (let (n, rest) = take_number t in (take n rest, drop n rest))"

lemma take_put_number: "take_number (put_number n @ r) = (n, r)"
proof -
  have "CHR '':'' \<notin> set (dec_nat n)"
    using digit_char [of "CHR '':''" n] by auto
  then have "takeWhile (\<lambda>c. c \<noteq> CHR '':'') (dec_nat n @ CHR '':'' # r) = dec_nat n"
    by (subst takeWhile_append2) auto
  then show ?thesis by (simp add: take_number_def put_number_def Let_def)
qed

lemma take_put_text: "take_text (put_text s @ r) = (s, r)"
  by (simp add: take_text_def put_text_def take_put_number)

definition put_entry :: "string \<times> issuer_chain_head \<Rightarrow> string" where
  "put_entry kh = (case kh of (k, h) \<Rightarrow>
     put_text k @ put_text (ich_issuer h) @ put_number (ich_seq h) @ put_text (ich_envelope_hash h))"

definition take_entry :: "string \<Rightarrow> (string \<times> issuer_chain_head) \<times> string" where
  "take_entry t = (let (k, t) = take_text t; (issuer, t) = take_text t; (seq, t) = take_number t; (hash, t) = take_text t
     in ((k, \<lparr>ich_issuer = issuer, ich_seq = seq, ich_envelope_hash = hash\<rparr>), t))"

lemma take_put_entry: "take_entry (put_entry kh @ r) = (kh, r)"
  by (simp add: take_entry_def put_entry_def take_put_text take_put_number split: prod.splits)

fun take_entries :: "nat \<Rightarrow> string \<Rightarrow> head_map" where
  "take_entries 0 t = []"
| "take_entries (Suc n) t = (case take_entry t of (kh, t) \<Rightarrow> kh # take_entries n t)"

lemma take_put_entries: "take_entries (length hs) (concat (map put_entry hs)) = hs"
  by (induction hs) (simp_all add: take_put_entry)

definition put_disk :: "heads_on_disk \<Rightarrow> bytes" where
  "put_disk disk = put_text (od_colony_id disk) @ put_number (length (od_heads disk)) @ concat (map put_entry (od_heads disk))"

definition take_disk :: "bytes \<Rightarrow> heads_on_disk" where
  "take_disk t = (let (colony, t) = take_text t; (n, t) = take_number t in \<lparr>od_colony_id = colony, od_heads = take_entries n t\<rparr>)"

lemma take_put_disk: "take_disk (put_disk disk) = disk"
  by (simp add: take_disk_def put_disk_def take_put_text take_put_number take_put_entries)

section \<open>An environment\<close>

definition text_of :: "json \<Rightarrow> string \<Rightarrow> string" where
  "text_of v k = (case Option.bind (json_get v k) json_as_str of None \<Rightarrow> [] | Some s \<Rightarrow> s)"

definition value_of :: "json \<Rightarrow> string \<Rightarrow> json" where
  "value_of v k = (case json_get v k of None \<Rightarrow> JNull | Some x \<Rightarrow> x)"

definition read_card :: "json \<Rightarrow> card_envelope" where
  "read_card v = \<lparr>ce_schema = text_of v ''schema'', ce_issuer = text_of v ''issuer'',
     ce_seq = (case json_as_u64 (value_of v ''seq'') of None \<Rightarrow> 0 | Some n \<Rightarrow> n),
     ce_prev_envelope_hash = json_as_str (value_of v ''prev_envelope_hash''), ce_issued_at = text_of v ''issued_at'',
     ce_capability_token = value_of v ''capability_token'', ce_fact = value_of v ''fact'',
     ce_envelope_hash = text_of v ''envelope_hash'', ce_signature = json_as_str (value_of v ''signature'')\<rparr>"

lemma read_card_json: "read_card (card_envelope_json c) = c"
  by (cases "ce_signature c"; cases "ce_prev_envelope_hash c")
    (simp_all add: read_card_def card_envelope_json_def text_of_def value_of_def json_nat_def json_opt_def)

definition bridge_sample :: bridge_env where
  "bridge_sample = \<lparr>be_crypto = model_crypto, be_bad_time = (\<lambda>_. None), be_decode_card = (\<lambda>v. Inr (read_card v)),
     be_write_heads = (\<lambda>disk. Inr (put_disk disk)), be_read_heads = (\<lambda>data. Inr (take_disk data)), be_debug = id\<rparr>"

lemma bridge_sample_laws: "bridge_laws bridge_sample"
  by (simp add: bridge_laws_def heads_codec_ok_def bridge_sample_def model_crypto_laws model_hex_doubles read_card_json take_put_disk)

definition sample_seed :: string where "sample_seed = replicate 64 CHR ''0''"

definition sample_signer :: spine_signer where
  "sample_signer = add_slot model_crypto (replicate 32 CHR 0x00) ''colony'' ''alarm'' \<lparr>sp_keys = [], sp_issuers = []\<rparr>"

lemma sample_signer_made: "signer_from_seed_hex (be_crypto bridge_sample) sample_seed ''colony'' [''alarm''] = Inr sample_signer"
proof -
  have "hex_encode (replicate n (CHR 0x00)) = replicate (2 * n) CHR ''0''" for n
    by (induction n) (simp_all add: hex_encode_def nibbles_def)
  from this [of 32] have seed: "sample_seed = hex_encode (replicate 32 (CHR 0x00))" by (simp add: sample_seed_def)
  have "lib_hex_decode model_crypto sample_seed = Inr (replicate 32 (CHR 0x00))"
    unfolding seed by (simp add: model_crypto_def hex_decode_encode)
  then show ?thesis by (simp add: signer_from_seed_hex_def bridge_sample_def sample_signer_def)
qed

abbreviation fresh_bridge :: "string option list \<Rightarrow> bridge_state" where
  "fresh_bridge answers \<equiv> (None, \<lparr>hf_document = None, hf_seen = [], hf_answers = answers\<rparr>)"

definition sample_content :: json where
  "sample_content = JObject [(''schema'', JString ''swarm.perch.hold.v1'')]"

abbreviation sample_seals_ops :: "bridge_op list" where
  "sample_seals_ops \<equiv> [Reopen, Seal ''alarm'' HoldCard sample_content ''t'']"

lemma sample_seals: "\<exists>sealed. bridge_run bridge_sample sample_signer ''d'' ''colony'' sample_seals_ops (fresh_bridge []) = [sealed]"
proof -
  let ?heads = "\<lparr>chs_path = ''d/chain-heads.json'', chs_colony_id = ''colony'', chs_heads = []\<rparr>"
  let ?d = "\<lparr>hf_document = Some (put_disk \<lparr>od_colony_id = ''colony'', od_heads = []\<rparr>), hf_seen = [], hf_answers = []\<rparr>"
  have "heads_open bridge_sample ''d'' ''colony'' \<lparr>hf_document = None, hf_seen = [], hf_answers = []\<rparr> = (Inr ?heads, ?d)"
    by (simp add: heads_open_def heads_exists_def heads_persist_def Let_def then_call_def heads_call_def bridge_sample_def)
  moreover obtain sealed heads' d' where "seal bridge_sample sample_signer ''alarm'' HoldCard sample_content ''t'' ?heads ?d = Some (Inr sealed, heads', d')"
    using seal_returns [OF bridge_sample_laws, of sample_signer "''alarm''" HoldCard sample_content "''t''" ?d ?heads]
    by (auto simp: sealable_def sample_signer_def add_slot_def Let_def sample_content_def bridge_sample_def heads_head_def next_seq_def)
  ultimately show ?thesis by simp
qed

theorem sealed_chains_verify_witness:
  "\<exists>sealed. bridge_run bridge_sample sample_signer ''d'' ''colony'' sample_seals_ops (fresh_bridge []) = [sealed] \<and>
     chain_ok model_crypto None [card_envelope_json sealed]"
proof -
  obtain sealed where run: "bridge_run bridge_sample sample_signer ''d'' ''colony'' sample_seals_ops (fresh_bridge []) = [sealed]"
    using sample_seals by blast
  have "chain_ok (be_crypto bridge_sample) None (map card_envelope_json (filter (\<lambda>c. ce_issuer c = ce_issuer sealed)
      (bridge_run bridge_sample sample_signer ''d'' ''colony'' sample_seals_ops (fresh_bridge []))))"
    by (rule sealed_chains_verify [OF bridge_sample_laws sample_signer_made])
  then show ?thesis using run by (simp add: bridge_sample_def)
qed

definition sample_head :: "u64 \<Rightarrow> issuer_chain_head" where
  "sample_head seq = \<lparr>ich_issuer = ''i'', ich_seq = seq, ich_envelope_hash = ''h''\<rparr>"

abbreviation sample_heads_ops :: "heads_op list" where
  "sample_heads_ops \<equiv> [OpenHeads, AdvanceHead (sample_head 1), OpenHeads, AdvanceHead (sample_head 1), AdvanceHead (sample_head 2)]"

abbreviation sample_heads_file :: heads_file where
  "sample_heads_file \<equiv> \<lparr>hf_document = None, hf_seen = [True], hf_answers = [None, None]\<rparr>"

lemma sample_heads_run:
  "heads_run bridge_sample ''d'' ''c'' sample_heads_ops (None, sample_heads_file) = [sample_head 1, sample_head 2]"
  by (simp add: heads_open_def heads_exists_def heads_persist_def heads_advance_def heads_head_def next_seq_def u64_add_def
      u64_max_def then_call_def heads_call_def bridge_sample_def sample_head_def take_put_disk bt_get_def Let_def)

theorem recorded_heads_increase_witness:
  "heads_run bridge_sample ''d'' ''c'' sample_heads_ops (None, sample_heads_file) = [sample_head 1, sample_head 2] \<and>
   sorted_wrt (\<lambda>a b. ich_issuer a = ich_issuer b \<longrightarrow> ich_seq a < ich_seq b)
     (heads_run bridge_sample ''d'' ''c'' sample_heads_ops (None, sample_heads_file))"
proof
  show "sorted_wrt (\<lambda>a b. ich_issuer a = ich_issuer b \<longrightarrow> ich_seq a < ich_seq b)
     (heads_run bridge_sample ''d'' ''c'' sample_heads_ops (None, sample_heads_file))"
    using bridge_sample_laws by (intro recorded_heads_increase) (simp_all add: bridge_laws_def lookups_see_def)
qed (rule sample_heads_run)

end
