(* ===== verification/Resilience.thy ===== *)
theory Resilience
  imports Spine Runtime_Lane
begin

text \<open>
  The executors around response adapters: the sandbox (\<^verbatim>\<open>crates/swarm-response/src/adapters.rs\<close>), circuit
  breaking, retries and dead letters (\<^verbatim>\<open>resilience.rs\<close>, \<^verbatim>\<open>dead_letter.rs\<close>) and the dispatching executor
  (\<^verbatim>\<open>dispatch.rs\<close>). The HTTP adapters are executors given as arguments. The readings of the monotonic clock,
  in nanoseconds, and of the wall clock are lists consumed in order; the pauses between retries, whose lengths
  the code computes with floats, show only as later readings. A system call answers with an error and, for a
  write, how many bytes it had written.
\<close>

type_synonym u32 = nat

definition u32_max :: nat where "u32_max = 2 ^ 32 - 1"

section \<open>The sandbox\<close>

fun execution_mode_debug :: "execution_mode \<Rightarrow> string" where
  "execution_mode_debug DryRun = ''DryRun''"
| "execution_mode_debug Enforced = ''Enforced''"

fun needs_scoped_lease :: "response_action \<Rightarrow> bool" where
  "needs_scoped_lease (Escalate _ _) = False"
| "needs_scoped_lease _ = True"

definition sandbox_execute :: "'x response_executor" where
  "sandbox_execute request lease mode x =
     (let action = kind (ar_action request);
          receipt_id = ''resp:'' @ hunt_str (ar_hunt_id request) @ '':'' @ cl_capability_id lease in
      if needs_scoped_lease (ar_action request) \<and> cl_scope lease = None then
        (Inl (execution_failed receipt_id action mode ''sandbox execution requires a scoped lease''
           (JObject [(''capability_id'', JString (cl_capability_id lease)), (''scope'', json_opt JString (cl_scope lease))])), x)
      else
        (Inr \<lparr>rr_receipt_id = receipt_id, rr_action = action, rr_mode = mode,
              rr_status = (case mode of DryRun \<Rightarrow> StatusSimulated | Enforced \<Rightarrow> StatusExecuted),
              rr_summary = ''sandbox '' @ execution_mode_debug mode @ '' for '' @ action,
              rr_details = JObject
                [(''mode'', JString (execution_mode_str mode)), (''capability_id'', JString (cl_capability_id lease)),
                 (''scope'', json_opt JString (cl_scope lease)), (''requested_by'', agent_id_json (ar_requested_by request))],
              rr_audit = receipt_audit_default\<rparr>, x))"

section \<open>Dead letters\<close>

record dead_letter_entry =
  dl_timestamp_ms :: i64
  dl_receipt_id :: string
  dl_action :: string
  dl_mode :: execution_mode
  dl_adapter :: string
  dl_attempts :: u32
  dl_last_error :: string
  dl_details :: json

definition dead_letter_json :: "dead_letter_entry \<Rightarrow> json" where
  "dead_letter_json e = JObject
     [(''timestamp_ms'', json_int (dl_timestamp_ms e)), (''receipt_id'', JString (dl_receipt_id e)),
      (''action'', JString (dl_action e)), (''mode'', JString (execution_mode_str (dl_mode e))),
      (''adapter'', JString (dl_adapter e)), (''attempts'', json_nat (dl_attempts e)),
      (''last_error'', JString (dl_last_error e)), (''details'', dl_details e)]"

text \<open>The journal with the file at its path, the rotated files, the answers of the system calls and the times.\<close>

record dead_letter_journal =
  dlj_file_path :: string
  dlj_max_bytes :: "u64 option"
  dlj_current :: "bytes option"
  dlj_rotated :: "string \<rightharpoonup> bytes"
  dlj_visible :: "bool list"
  dlj_answers :: "(nat \<times> string) option list"
  dlj_wall_ms :: "nat list"

definition dead_call :: "dead_letter_journal \<Rightarrow> (nat \<times> string) option \<times> dead_letter_journal" where
  "dead_call j = (case dlj_answers j of [] \<Rightarrow> (None, j) | a # rest \<Rightarrow> (a, j\<lparr>dlj_answers := rest\<rparr>))"

definition dead_exists :: "dead_letter_journal \<Rightarrow> bool \<times> dead_letter_journal" where
  "dead_exists j =
     (case dlj_visible j of
        [] \<Rightarrow> (dlj_current j \<noteq> None, j)
      | v # rest \<Rightarrow> (v \<and> dlj_current j \<noteq> None, j\<lparr>dlj_visible := rest\<rparr>))"

definition wall_ms :: "dead_letter_journal \<Rightarrow> nat \<times> dead_letter_journal" where
  "wall_ms j = (case dlj_wall_ms j of [] \<Rightarrow> (0, j) | t # ts \<Rightarrow> (t, j\<lparr>dlj_wall_ms := ts\<rparr>))"

text \<open>Whether the parent of a path is there and not the empty path.\<close>

definition has_parent :: "string \<Rightarrow> bool" where
  "has_parent path \<longleftrightarrow> CHR ''/'' \<in> set (dropWhile (\<lambda>c. c = CHR ''/'') (rev path))"

definition ensure_path :: "dead_letter_journal \<Rightarrow> (string + unit) \<times> dead_letter_journal" where
  "ensure_path j =
     (case (if has_parent (dlj_file_path j) then dead_call j else (None, j)) of
        (Some (_, e), j) \<Rightarrow> (Inl e, j)
      | (None, j) \<Rightarrow>
          (case dead_exists j of
             (True, j) \<Rightarrow> (Inr (), j)
           | (False, j) \<Rightarrow>
               (case dead_call j of
                  (Some (_, e), j) \<Rightarrow> (Inl e, j)
                | (None, j) \<Rightarrow> (Inr (), j\<lparr>dlj_current := Some []\<rparr>))))"

definition rotate_if_needed :: "dead_letter_journal \<Rightarrow> (string + unit) \<times> dead_letter_journal" where
  "rotate_if_needed j =
     (case dlj_max_bytes j of
        None \<Rightarrow> (Inr (), j)
      | Some max_bytes \<Rightarrow>
          (case dead_call j of
             (Some (_, e), j) \<Rightarrow> (Inl e, j)
           | (None, j) \<Rightarrow>
               (case dlj_current j of
                  None \<Rightarrow> (Inr (), j)
                | Some data \<Rightarrow>
                    if length data < max_bytes then (Inr (), j)
                    else (case wall_ms j of (timestamp_ms, j) \<Rightarrow>
                      (case dead_call j of
                         (Some (_, e), j) \<Rightarrow> (Inl e, j)
                       | (None, j) \<Rightarrow>
                           let j = j\<lparr>dlj_current := None,
                             dlj_rotated := (dlj_rotated j)(dlj_file_path j @ ''.'' @ dec_nat timestamp_ms \<mapsto> data)\<rparr> in
                           (case dead_call j of
                              (Some (_, e), j) \<Rightarrow> (Inl e, j)
                            | (None, j) \<Rightarrow> (Inr (), j\<lparr>dlj_current := Some []\<rparr>)))))))"

text \<open>One write to the file opened for appending: on an error a prefix is there.\<close>

definition dead_append :: "bytes \<Rightarrow> dead_letter_journal \<Rightarrow> (string + unit) \<times> dead_letter_journal" where
  "dead_append data j =
     (case dead_call j of
        (Some (n, e), j) \<Rightarrow> (Inl e, j\<lparr>dlj_current := map_option (\<lambda>b. b @ take n data) (dlj_current j)\<rparr>)
      | (None, j) \<Rightarrow> (Inr (), j\<lparr>dlj_current := map_option (\<lambda>b. b @ data) (dlj_current j)\<rparr>))"

definition dead_write ::
  "(json \<Rightarrow> bytes) \<Rightarrow> dead_letter_entry \<Rightarrow> dead_letter_journal \<Rightarrow> (string + unit) \<times> dead_letter_journal" where
  "dead_write to_text entry j =
     (case rotate_if_needed j of
        (Inl e, j) \<Rightarrow> (Inl e, j)
      | (Inr _, j) \<Rightarrow>
        (case ensure_path j of
           (Inl e, j) \<Rightarrow> (Inl e, j)
         | (Inr _, j) \<Rightarrow>
           (case dead_call j of
              (Some (_, e), j) \<Rightarrow> (Inl e, j)
            | (None, j) \<Rightarrow>
              (case dead_append (to_text (dead_letter_json entry)) (j\<lparr>dlj_current := Some (case dlj_current j of None \<Rightarrow> [] | Some b \<Rightarrow> b)\<rparr>) of
                 (Inl e, j) \<Rightarrow> (Inl e, j)
               | (Inr _, j) \<Rightarrow> dead_append [CHR 0x0A] j))))"

definition dead_letter_new :: "dead_letter_journal \<Rightarrow> (string + unit) \<times> dead_letter_journal" where
  "dead_letter_new j = ensure_path j"

section \<open>Circuit breaking and retries\<close>

record 'x resilient =
  rx_inner :: 'x
  rx_adapter :: string
  rx_max_retries :: u32
  rx_retries_enabled :: bool
  rx_threshold :: u32
  rx_cooldown_ms :: u64
  rx_consecutive_failures :: u32
  rx_last_failure_time :: "nat option"
  rx_dead_letter :: "dead_letter_journal option"
  rx_instants :: "nat list"

definition next_instant :: "'x resilient \<Rightarrow> nat \<times> 'x resilient" where
  "next_instant r = (case rx_instants r of [] \<Rightarrow> (0, r) | t # ts \<Rightarrow> (t, r\<lparr>rx_instants := ts\<rparr>))"

definition resilient_build ::
  "'x \<Rightarrow> string \<Rightarrow> u32 \<Rightarrow> bool \<Rightarrow> u32 \<times> u64 \<Rightarrow> dead_letter_journal option \<Rightarrow> nat list \<Rightarrow> 'x resilient" where
  "resilient_build inner adapter max_retries retries_enabled breaker dead_letter instants =
     \<lparr>rx_inner = inner, rx_adapter = adapter, rx_max_retries = max_retries, rx_retries_enabled = retries_enabled,
      rx_threshold = fst breaker, rx_cooldown_ms = snd breaker, rx_consecutive_failures = 0,
      rx_last_failure_time = None, rx_dead_letter = dead_letter, rx_instants = instants\<rparr>"

definition resilient_new ::
  "'x \<Rightarrow> string \<Rightarrow> u32 \<Rightarrow> u32 \<times> u64 \<Rightarrow> dead_letter_journal option \<Rightarrow> nat list \<Rightarrow> 'x resilient" where
  "resilient_new inner adapter max_retries breaker dead_letter instants =
     resilient_build inner adapter max_retries False breaker dead_letter instants"

definition resilient_with_retries ::
  "'x \<Rightarrow> string \<Rightarrow> u32 \<Rightarrow> u32 \<times> u64 \<Rightarrow> dead_letter_journal option \<Rightarrow> nat list \<Rightarrow> 'x resilient" where
  "resilient_with_retries inner adapter max_retries breaker dead_letter instants =
     resilient_build inner adapter max_retries True breaker dead_letter instants"

text \<open>\<^verbatim>\<open>elapsed\<close> saturates at zero; the clock is read only when there is a last failure.\<close>

definition circuit_is_open :: "'x resilient \<Rightarrow> bool \<times> 'x resilient" where
  "circuit_is_open r =
     (if rx_consecutive_failures r < rx_threshold r then (False, r)
      else case rx_last_failure_time r of
        None \<Rightarrow> (False, r)
      | Some last_failure \<Rightarrow>
          (case next_instant r of (now, r) \<Rightarrow> (now - last_failure < rx_cooldown_ms r * 1000000, r)))"

definition reset_after_success :: "'x resilient \<Rightarrow> 'x resilient" where
  "reset_after_success r = r\<lparr>rx_consecutive_failures := 0, rx_last_failure_time := None\<rparr>"

text \<open>\<^verbatim>\<open>fetch_add\<close> wraps.\<close>

definition record_failure :: "'x resilient \<Rightarrow> 'x resilient" where
  "record_failure r =
     (case next_instant (r\<lparr>rx_consecutive_failures := (rx_consecutive_failures r + 1) mod 2 ^ 32\<rparr>) of
        (now, r) \<Rightarrow> r\<lparr>rx_last_failure_time := Some now\<rparr>)"

definition circuit_open_receipt :: "'x resilient \<Rightarrow> action_request \<Rightarrow> execution_mode \<Rightarrow> response_receipt" where
  "circuit_open_receipt r request mode =
     \<lparr>rr_receipt_id = ''resp-circuit-open:'' @ hunt_str (ar_hunt_id request) @ '':'' @ kind (ar_action request),
      rr_action = kind (ar_action request), rr_mode = mode, rr_status = StatusFailed,
      rr_summary = rx_adapter r @ '' circuit breaker open'',
      rr_details = JObject
        [(''adapter'', JString (rx_adapter r)), (''consecutive_failures'', json_nat (rx_consecutive_failures r)),
         (''cooldown_ms'', json_nat (rx_cooldown_ms r))],
      rr_audit = receipt_audit_default\<rparr>"

definition receipt_is_retryable :: "response_receipt \<Rightarrow> bool" where
  "receipt_is_retryable receipt =
     (case rr_status receipt of
        StatusTimeout \<Rightarrow> True
      | StatusFailed \<Rightarrow>
          (case Option.bind (json_get (rr_details receipt) ''status_code'') json_as_u64 of
             Some status_code \<Rightarrow> status_code \<ge> 500 \<or> status_code = 429
           | None \<Rightarrow> Option.bind (json_get (rr_details receipt) ''error'') json_as_str \<noteq> None)
      | _ \<Rightarrow> False)"

definition error_is_retryable :: "response_error \<Rightarrow> bool" where
  "error_is_retryable error =
     (let details = rf_details (re_failure error) in
      if Option.bind (json_get details ''status'') json_as_str = Some ''timeout'' then True
      else case Option.bind (json_get details ''status_code'') json_as_u64 of
        Some status_code \<Rightarrow> status_code \<ge> 500 \<or> status_code = 429
      | None \<Rightarrow>
          if Option.bind (json_get details ''error'') json_as_str \<noteq> None then True
          else let message = to_ascii_lowercase (rf_message (re_failure error)) in
            sublist ''timeout'' message \<or> sublist ''connection'' message)"

definition dead_letter_entry_from_receipt :: "'x resilient \<Rightarrow> response_receipt \<Rightarrow> u32 \<Rightarrow> i64 \<Rightarrow> dead_letter_entry" where
  "dead_letter_entry_from_receipt r receipt attempts now_ms =
     \<lparr>dl_timestamp_ms = now_ms, dl_receipt_id = rr_receipt_id receipt, dl_action = rr_action receipt,
      dl_mode = rr_mode receipt, dl_adapter = rx_adapter r, dl_attempts = attempts,
      dl_last_error = rr_summary receipt, dl_details = rr_details receipt\<rparr>"

definition dead_letter_entry_from_error :: "'x resilient \<Rightarrow> response_error \<Rightarrow> u32 \<Rightarrow> i64 \<Rightarrow> dead_letter_entry" where
  "dead_letter_entry_from_error r error attempts now_ms =
     (let failure = re_failure error in
      \<lparr>dl_timestamp_ms = now_ms, dl_receipt_id = rf_receipt_id failure, dl_action = rf_action failure,
       dl_mode = rf_mode failure, dl_adapter = rx_adapter r, dl_attempts = attempts,
       dl_last_error = rf_message failure, dl_details = rf_details failure\<rparr>)"

text \<open>The error of a write that fails is only logged.\<close>

definition write_dead_letter :: "(json \<Rightarrow> bytes) \<Rightarrow> (i64 \<Rightarrow> dead_letter_entry) \<Rightarrow> 'x resilient \<Rightarrow> 'x resilient" where
  "write_dead_letter to_text entry r =
     (case rx_dead_letter r of
        None \<Rightarrow> r
      | Some j \<Rightarrow>
          (case wall_ms j of (now, j) \<Rightarrow> r\<lparr>rx_dead_letter := Some (snd (dead_write to_text (entry (int now)) j))\<rparr>))"

definition outcome_entry ::
  "'x resilient \<Rightarrow> response_error + response_receipt \<Rightarrow> u32 \<Rightarrow> i64 \<Rightarrow> dead_letter_entry" where
  "outcome_entry r outcome attempts now_ms =
     (case outcome of
        Inl error \<Rightarrow> dead_letter_entry_from_error r error attempts now_ms
      | Inr receipt \<Rightarrow> dead_letter_entry_from_receipt r receipt attempts now_ms)"

fun outcome_is_retryable :: "response_error + response_receipt \<Rightarrow> bool" where
  "outcome_is_retryable (Inl error) = error_is_retryable error"
| "outcome_is_retryable (Inr receipt) = receipt_is_retryable receipt"

fun outcome_succeeded :: "response_error + response_receipt \<Rightarrow> bool" where
  "outcome_succeeded (Inl _) = False"
| "outcome_succeeded (Inr receipt) = indicates_success (rr_status receipt)"

text \<open>One invocation of the adapter.\<close>

definition invoke ::
  "'x response_executor \<Rightarrow> action_request \<Rightarrow> capability_lease \<Rightarrow> execution_mode \<Rightarrow> 'x resilient \<Rightarrow>
   (response_error + response_receipt) \<times> 'x resilient" where
  "invoke X request lease mode r =
     (case X request lease mode (rx_inner r) of (outcome, x) \<Rightarrow> (outcome, r\<lparr>rx_inner := x\<rparr>))"

text \<open>The loop from one attempt on; the last argument counts the attempts left.\<close>

fun retry_loop ::
  "(json \<Rightarrow> bytes) \<Rightarrow> 'x response_executor \<Rightarrow> action_request \<Rightarrow> capability_lease \<Rightarrow> execution_mode \<Rightarrow>
   u32 \<Rightarrow> nat \<Rightarrow> 'x resilient \<Rightarrow> (response_error + response_receipt) \<times> 'x resilient" where
  "retry_loop to_text X request lease mode attempt 0 r = (Inr (circuit_open_receipt r request mode), r)"
| "retry_loop to_text X request lease mode attempt (Suc left) r =
     (case circuit_is_open r of
        (True, r) \<Rightarrow> (Inr (circuit_open_receipt r request mode), r)
      | (False, r) \<Rightarrow>
          (case invoke X request lease mode r of (outcome, r) \<Rightarrow>
             if outcome_succeeded outcome then (outcome, reset_after_success r)
             else let r = record_failure r; attempts = attempt + 1 in
               if outcome_is_retryable outcome \<and> left > 0
               then retry_loop to_text X request lease mode attempts left r
               else (outcome, write_dead_letter to_text (outcome_entry r outcome attempts) r)))"

definition resilient_execute ::
  "(json \<Rightarrow> bytes) \<Rightarrow> 'x response_executor \<Rightarrow> 'x resilient response_executor" where
  "resilient_execute to_text X request lease mode r =
     (if mode = DryRun then invoke X request lease mode r
      else if \<not> rx_retries_enabled r then
        (case circuit_is_open r of
           (True, r) \<Rightarrow> (Inr (circuit_open_receipt r request mode), r)
         | (False, r) \<Rightarrow>
             (case invoke X request lease mode r of (outcome, r) \<Rightarrow>
                if outcome_succeeded outcome then (outcome, reset_after_success r)
                else let r = record_failure r in
                  (outcome, write_dead_letter to_text (outcome_entry r outcome 1) r)))
      else retry_loop to_text X request lease mode 0 (min u32_max (rx_max_retries r + 1)) r)"

section \<open>The dispatching executor\<close>

text \<open>An adapter's configuration; what only the adapter reads is \<open>ag_settings\<close>.\<close>

record 'c adapter_config =
  ag_settings :: 'c
  ag_max_retries :: u32
  ag_threshold :: u32
  ag_cooldown_ms :: u64
  ag_dead_letter_path :: string

datatype 'c response_adapter_config =
    SandboxConfig
  | HttpEdrConfig "'c adapter_config"
  | CrowdStrikeRtrConfig "'c adapter_config"
  | WebhookConfig "'c adapter_config"

datatype 'x adapter_inner =
    SandboxInner
  | HttpEdrInner "'x resilient"
  | CrowdStrikeRtrInner "'x resilient"
  | WebhookInner "'x resilient"

record ('c, 'x) adapter_env =
  ae_to_text :: "json \<Rightarrow> bytes"
  ae_http_edr :: "'x response_executor"
  ae_crowdstrike_rtr :: "'x response_executor"
  ae_webhook :: "'x response_executor"
  ae_make :: "'c response_adapter_config \<Rightarrow> response_error + 'x"
  ae_journal :: "string \<Rightarrow> u64 option \<Rightarrow> dead_letter_journal"
  ae_instants :: "nat list"

text \<open>\<open>ae_journal\<close> is the journal's file, and what its calls will answer, when it is opened.\<close>

definition guarded_adapter ::
  "('c, 'x) adapter_env \<Rightarrow> string \<Rightarrow> 'c response_adapter_config \<Rightarrow> 'c adapter_config \<Rightarrow> u64 option \<Rightarrow>
   response_error + 'x resilient" where
  "guarded_adapter A name config settings max_dead_letter_bytes =
     (case dead_letter_new (ae_journal A (ag_dead_letter_path settings) max_dead_letter_bytes) of
        (Inl error, _) \<Rightarrow> Inl (unavailable name Enforced (''failed to initialize dead-letter journal: '' @ error))
      | (Inr _, journal) \<Rightarrow>
          (case ae_make A config of
             Inl error \<Rightarrow> Inl error
           | Inr adapter \<Rightarrow>
               Inr (resilient_new adapter name (ag_max_retries settings) (ag_threshold settings, ag_cooldown_ms settings)
                      (Some journal) (ae_instants A))))"

fun dispatching_from_config ::
  "('c, 'x) adapter_env \<Rightarrow> 'c response_adapter_config \<Rightarrow> u64 option \<Rightarrow> response_error + 'x adapter_inner" where
  "dispatching_from_config A SandboxConfig limit = Inr SandboxInner"
| "dispatching_from_config A (HttpEdrConfig c) limit =
     (case guarded_adapter A ''http_edr'' (HttpEdrConfig c) c limit of Inl e \<Rightarrow> Inl e | Inr r \<Rightarrow> Inr (HttpEdrInner r))"
| "dispatching_from_config A (CrowdStrikeRtrConfig c) limit =
     (case guarded_adapter A ''crowdstrike_rtr'' (CrowdStrikeRtrConfig c) c limit of
        Inl e \<Rightarrow> Inl e | Inr r \<Rightarrow> Inr (CrowdStrikeRtrInner r))"
| "dispatching_from_config A (WebhookConfig c) limit =
     (case guarded_adapter A ''webhook'' (WebhookConfig c) c limit of Inl e \<Rightarrow> Inl e | Inr r \<Rightarrow> Inr (WebhookInner r))"

fun dispatching_kind :: "'x adapter_inner \<Rightarrow> string" where
  "dispatching_kind SandboxInner = ''sandbox''"
| "dispatching_kind (HttpEdrInner _) = ''http_edr''"
| "dispatching_kind (CrowdStrikeRtrInner _) = ''crowdstrike_rtr''"
| "dispatching_kind (WebhookInner _) = ''webhook''"

fun dispatching_execute :: "('c, 'x) adapter_env \<Rightarrow> 'x adapter_inner response_executor" where
  "dispatching_execute A request lease mode SandboxInner = sandbox_execute request lease mode SandboxInner"
| "dispatching_execute A request lease mode (HttpEdrInner r) =
     map_prod id HttpEdrInner (resilient_execute (ae_to_text A) (ae_http_edr A) request lease mode r)"
| "dispatching_execute A request lease mode (CrowdStrikeRtrInner r) =
     map_prod id CrowdStrikeRtrInner (resilient_execute (ae_to_text A) (ae_crowdstrike_rtr A) request lease mode r)"
| "dispatching_execute A request lease mode (WebhookInner r) =
     map_prod id WebhookInner (resilient_execute (ae_to_text A) (ae_webhook A) request lease mode r)"

end
