(* ===== verification/Adapter_Safety.thy ===== *)
theory Adapter_Safety
  imports Resilience Response_Lane
begin

text \<open>
  What the executors around an adapter guarantee: how often an adapter is invoked, when the circuit breaker
  keeps it from being invoked, and, composed with the response lane, that no dispatch identity reaches an
  adapter twice for enforcement.
\<close>

section \<open>Invocations\<close>

lemma circuit_is_open_keeps:
  "circuit_is_open r = (b, r') \<Longrightarrow> rx_inner r' = rx_inner r \<and> rx_retries_enabled r' = rx_retries_enabled r \<and>
     rx_max_retries r' = rx_max_retries r"
  by (auto simp: circuit_is_open_def next_instant_def split: if_splits option.splits list.splits)

lemma bookkeeping_keeps [simp]:
  "rx_inner (reset_after_success r) = rx_inner r" "rx_retries_enabled (reset_after_success r) = rx_retries_enabled r"
  "rx_inner (record_failure r) = rx_inner r" "rx_retries_enabled (record_failure r) = rx_retries_enabled r"
  "rx_inner (write_dead_letter T e r) = rx_inner r" "rx_retries_enabled (write_dead_letter T e r) = rx_retries_enabled r"
  by (auto simp: reset_after_success_def record_failure_def next_instant_def write_dead_letter_def
      split: list.splits option.splits prod.splits)

lemma invoke_logged:
  assumes "invoke (logged X) request lease mode r = (outcome, r')"
  shows "snd (rx_inner r') = snd (rx_inner r) @ [(request, lease, mode)] \<and> rx_retries_enabled r' = rx_retries_enabled r"
  using assms by (auto simp: invoke_def logged_def split: prod.splits)

definition attempts_limit :: "execution_mode \<Rightarrow> 'x resilient \<Rightarrow> nat" where
  "attempts_limit mode r = (if mode = Enforced \<and> rx_retries_enabled r then min u32_max (rx_max_retries r + 1) else 1)"

lemma retry_loop_attempts:
  assumes "retry_loop T (logged X) request lease mode attempt left r = (outcome, r')"
  shows "(\<exists>n \<le> left. snd (rx_inner r') = snd (rx_inner r) @ replicate n (request, lease, mode)) \<and>
    rx_retries_enabled r' = rx_retries_enabled r"
  using assms
proof (induction left arbitrary: attempt r)
  case (Suc left)
  obtain b r1 where open_: "circuit_is_open r = (b, r1)" by fastforce
  note keep = circuit_is_open_keeps [OF open_]
  show ?case
  proof (cases b)
    case True
    then show ?thesis using Suc.prems open_ keep by (auto intro: exI [of _ 0])
  next
    case False
    obtain out r2 where inv: "invoke (logged X) request lease mode r1 = (out, r2)" by fastforce
    note log = invoke_logged [OF inv]
    show ?thesis
    proof (cases "\<not> outcome_succeeded out \<and> outcome_is_retryable out \<and> left > 0")
      case True
      then have "retry_loop T (logged X) request lease mode (attempt + 1) left (record_failure r2) = (outcome, r')"
        using Suc.prems open_ False inv by (simp add: Let_def)
      from Suc.IH [OF this] obtain n where "n \<le> left" "rx_retries_enabled r' = rx_retries_enabled r2"
        "snd (rx_inner r') = snd (rx_inner r2) @ replicate n (request, lease, mode)" by auto
      then show ?thesis using log keep by (intro conjI exI [of _ "Suc n"]) auto
    next
      case False
      then have "rx_inner r' = rx_inner r2 \<and> rx_retries_enabled r' = rx_retries_enabled r2"
        using Suc.prems open_ \<open>\<not> b\<close> inv by (auto simp: Let_def split: if_splits)
      then show ?thesis using log keep by (intro conjI exI [of _ 1]) auto
    qed
  qed
qed (auto intro: exI [of _ 0])

text \<open>
  An adapter is invoked at most once per call, with that call's request, lease and mode; only an executor
  built for retries repeats an enforced call, and then at most one more time than the configured retries.
\<close>

lemma resilient_attempts:
  assumes "resilient_execute T (logged X) request lease mode r = (outcome, r')"
  shows "(\<exists>n \<le> attempts_limit mode r. snd (rx_inner r') = snd (rx_inner r) @ replicate n (request, lease, mode)) \<and>
    rx_retries_enabled r' = rx_retries_enabled r"
proof -
  consider "mode = DryRun" | "mode = Enforced" "\<not> rx_retries_enabled r" | "mode = Enforced" "rx_retries_enabled r"
    by (cases mode) auto
  then show ?thesis
  proof cases
    case 1
    then show ?thesis using assms invoke_logged [of X request lease mode r outcome r']
      by (auto simp: resilient_execute_def attempts_limit_def intro!: exI [of _ 1])
  next
    case 2
    obtain b r1 where open_: "circuit_is_open r = (b, r1)" by fastforce
    note keep = circuit_is_open_keeps [OF open_]
    show ?thesis
    proof (cases b)
      case True
      then show ?thesis using assms 2 open_ keep by (auto simp: resilient_execute_def intro: exI [of _ 0])
    next
      case False
      obtain out r2 where inv: "invoke (logged X) request lease mode r1 = (out, r2)" by fastforce
      have "rx_inner r' = rx_inner r2 \<and> rx_retries_enabled r' = rx_retries_enabled r2"
        using assms 2 open_ False inv by (auto simp: resilient_execute_def Let_def split: if_splits)
      then show ?thesis using invoke_logged [OF inv] keep 2 by (auto simp: attempts_limit_def intro!: exI [of _ 1])
    qed
  next
    case 3
    then show ?thesis using assms retry_loop_attempts [of T X request lease mode 0 "min u32_max (rx_max_retries r + 1)" r]
      by (simp add: resilient_execute_def attempts_limit_def)
  qed
qed

section \<open>The adapters behind the response lane\<close>

text \<open>
  The daemon's executor is the dispatching one. A ghost log behind each adapter records its invocations; a
  restart builds the executor anew from whatever configuration it finds, with its breaker closed.
\<close>

definition logged_adapters :: "('c, 'x) adapter_env \<Rightarrow> ('c, 'x \<times> dispatch_call list) adapter_env" where
  "logged_adapters A = \<lparr>ae_to_text = ae_to_text A, ae_http_edr = logged (ae_http_edr A),
     ae_crowdstrike_rtr = logged (ae_crowdstrike_rtr A), ae_webhook = logged (ae_webhook A),
     ae_make = (\<lambda>config. map_sum id (\<lambda>x. (x, [])) (ae_make A config)), ae_journal = ae_journal A,
     ae_instants = ae_instants A\<rparr>"

fun adapter_log :: "('x \<times> dispatch_call list) adapter_inner \<Rightarrow> dispatch_call list" where
  "adapter_log SandboxInner = []"
| "adapter_log (HttpEdrInner r) = snd (rx_inner r)"
| "adapter_log (CrowdStrikeRtrInner r) = snd (rx_inner r)"
| "adapter_log (WebhookInner r) = snd (rx_inner r)"

fun never_retries :: "'x adapter_inner \<Rightarrow> bool" where
  "never_retries SandboxInner = True"
| "never_retries (HttpEdrInner r) = (\<not> rx_retries_enabled r)"
| "never_retries (CrowdStrikeRtrInner r) = (\<not> rx_retries_enabled r)"
| "never_retries (WebhookInner r) = (\<not> rx_retries_enabled r)"

lemma guarded_adapter_fresh:
  "guarded_adapter (logged_adapters A) name config settings limit = Inr r \<Longrightarrow>
     snd (rx_inner r) = [] \<and> \<not> rx_retries_enabled r"
  by (auto simp: guarded_adapter_def logged_adapters_def resilient_new_def resilient_build_def map_sum_def
      split: prod.splits sum.splits)

lemma dispatching_fresh:
  "dispatching_from_config (logged_adapters A) config limit = Inr inner \<Longrightarrow> adapter_log inner = [] \<and> never_retries inner"
  by (cases config) (auto split: sum.splits dest: guarded_adapter_fresh)

lemma resilient_once:
  assumes "resilient_execute T (logged X) request lease mode r = (outcome, r')" "\<not> rx_retries_enabled r"
  shows "subseq (snd (rx_inner r')) (snd (rx_inner r) @ [(request, lease, mode)]) \<and> \<not> rx_retries_enabled r'"
proof -
  from resilient_attempts [OF assms(1)] assms(2) obtain n where "n \<le> 1" "\<not> rx_retries_enabled r'"
    "snd (rx_inner r') = snd (rx_inner r) @ replicate n (request, lease, mode)"
    by (auto simp: attempts_limit_def)
  then show ?thesis by (cases n) (auto simp: subseq_append_iff)
qed

lemma dispatching_once:
  assumes "dispatching_execute (logged_adapters A) request lease mode inner = (outcome, inner')" "never_retries inner"
  shows "subseq (adapter_log inner') (adapter_log inner @ [(request, lease, mode)]) \<and> never_retries inner'"
  using assms
  by (cases inner)
    (auto simp: logged_adapters_def sandbox_execute_def map_prod_def Let_def split: if_splits prod.splits
      dest: resilient_once)

text \<open>A call of the lane reaches the executor at most once.\<close>

lemma lane_call_executor:
  obtains "ru_response (lane_call E entry request ctx rt) = ru_response rt"
  | lease mode where
      "ru_response (lane_call E entry request ctx rt) = snd (en_execute E request lease mode (ru_response rt))"
proof -
  obtain detection approved_by a where a: "audit_internal E detection request ctx (entry_human entry)
      (entry_override entry) approved_by rt = (a, lane_call E entry request ctx rt)"
    using lane_call_internal by blast
  then show thesis
  proof (cases rule: audit_internal_cases)
    case skipped
    then show thesis using that by simp
  next
    case (dispatched decision g prepared lease mode dispatch rt1 response)
    have "ru_response (lane_call E entry request ctx rt) = ru_response rt1"
      using dispatched_response_keeps [OF dispatched(9)] by simp
    moreover have "ru_response rt1 = ru_response rt \<or> ru_response rt1 = snd (en_execute E request lease mode (ru_response rt))"
      using dispatched(8) by (cases rule: dispatch_once_cases) auto
    ultimately show thesis using that by auto
  qed
qed

datatype ('g, 's, 'c, 'x) daemon_op =
    DCall lane_entry action_request approval_context
  | DRestart 'g runtime_mode "guard list option" "('s \<times> containment_ttl) option" "'c response_adapter_config"
      "u64 option" "('c, 'x) adapter_env"

type_synonym ('g, 's, 'x) daemon =
  "('g, 's, ('x \<times> dispatch_call list) adapter_inner \<times> dispatch_call list) swarm_runtime \<times> dispatch_call list"

definition invoked :: "('g, 's, 'x) daemon \<Rightarrow> dispatch_call list" where
  "invoked = (\<lambda>(rt, past). past @ adapter_log (fst (ru_response rt)))"

text \<open>
  The programs of the adapters stay the same; their configuration, clients, journals and clocks are those of
  each start. A daemon whose executor cannot be built does not start.
\<close>

fun daemon_step ::
  "('c, 'x) adapter_env \<Rightarrow> ('g, 's, ('x \<times> dispatch_call list) adapter_inner \<times> dispatch_call list) lane_env \<Rightarrow>
   ('g, 's, 'c, 'x) daemon_op \<Rightarrow> ('g, 's, 'x) daemon \<Rightarrow> ('g, 's, 'x) daemon" where
  "daemon_step A E (DCall entry request ctx) (rt, past) = (lane_call E entry request ctx rt, past)"
| "daemon_step A E (DRestart g mode guards containment config limit B) (rt, past) =
     (case dispatching_from_config (logged_adapters B) config limit of
        Inl _ \<Rightarrow> (rt, past)
      | Inr inner \<Rightarrow>
          ((lane_step E (LRestart g mode guards containment) rt)\<lparr>ru_response := (inner, snd (ru_response rt))\<rparr>,
           invoked (rt, past)))"

definition daemon_run where
  "daemon_run A E = fold (daemon_step A E)"

definition daemon_new ::
  "string \<Rightarrow> nat \<Rightarrow> io_answer list \<Rightarrow> 'g \<Rightarrow> ('g, 's, 'x) daemon" where
  "daemon_new path dev io g = (fresh_runtime path dev io g SandboxInner, [])"

definition daemon_ok ::
  "('g, 's, ('x \<times> dispatch_call list) adapter_inner \<times> dispatch_call list) lane_env \<Rightarrow> ('g, 's, 'x) daemon \<Rightarrow> bool" where
  "daemon_ok E = (\<lambda>(rt, past). lane_ok E rt \<and> never_retries (fst (ru_response rt)) \<and>
     subseq (invoked (rt, past)) (snd (ru_response rt)))"

lemma daemon_ok_call:
  assumes "codec_laws (en_codec E)" "en_execute E = logged (dispatching_execute (logged_adapters A))"
    and "daemon_ok E (rt, past)"
  shows "daemon_ok E (lane_call E entry request ctx rt, past)"
proof -
  obtain inner log where state: "ru_response rt = (inner, log)" by fastforce
  have ok: "lane_ok E rt" "never_retries inner" "subseq (past @ adapter_log inner) log"
    using assms(3) state by (auto simp: daemon_ok_def invoked_def)
  have lane: "lane_ok E (lane_call E entry request ctx rt)"
    using lane_ok_call [OF assms(1,2) ok(1)] by simp
  show ?thesis
  proof (cases rule: lane_call_executor [of E entry request ctx rt])
    case 1
    then show ?thesis using lane ok(2,3) state by (simp add: daemon_ok_def invoked_def)
  next
    case (2 lease mode)
    obtain outcome inner' where exec:
      "dispatching_execute (logged_adapters A) request lease mode inner = (outcome, inner')" by fastforce
    note once = dispatching_once [OF exec ok(2)]
    have "ru_response (lane_call E entry request ctx rt) = (inner', log @ [(request, lease, mode)])"
      using 2 exec state by (simp add: assms(2) logged_def)
    moreover have "subseq (past @ adapter_log inner') (log @ [(request, lease, mode)])"
    proof -
      have "subseq (past @ adapter_log inner') (past @ adapter_log inner @ [(request, lease, mode)])" 
        using once by (simp add: subseq_append')
      also have "subseq \<dots> (log @ [(request, lease, mode)])" using ok(3) by (simp flip: append_assoc)
      finally show ?thesis .
    qed
    ultimately show ?thesis using lane once by (simp add: daemon_ok_def invoked_def)
  qed
qed

lemma daemon_ok_restart:
  assumes "codec_laws (en_codec E)" "daemon_ok E (rt, past)"
  shows "daemon_ok E (daemon_step A E (DRestart g mode guards containment config limit B) (rt, past))"
proof (cases "dispatching_from_config (logged_adapters B) config limit")
  case (Inr inner)
  have "lane_ok E (lane_step E (LRestart g mode guards containment) rt)"
    using lane_ok_restart [OF assms(1)] assms(2) by (simp add: daemon_ok_def)
  then have "lane_ok E ((lane_step E (LRestart g mode guards containment) rt)\<lparr>ru_response := (inner, snd (ru_response rt))\<rparr>)"
    by (auto simp: lane_ok_def lane_world_def split: prod.splits)
  then show ?thesis
    using Inr dispatching_fresh [OF Inr] assms(2)
    by (auto simp: daemon_ok_def invoked_def split: prod.splits)
qed (use assms(2) in simp)

lemma daemon_ok_run:
  assumes "codec_laws (en_codec E)" "en_execute E = logged (dispatching_execute (logged_adapters A))" "daemon_ok E w"
  shows "daemon_ok E (daemon_run A E ops w)"
  using assms(3) unfolding daemon_run_def
proof (induction ops arbitrary: w)
  case (Cons op ops)
  obtain rt past where w: "w = (rt, past)" by fastforce
  have "daemon_ok E (daemon_step A E op w)"
  proof (cases op)
    case (DCall entry request ctx)
    then show ?thesis using daemon_ok_call [OF assms(1,2)] Cons.prems w by simp
  next
    case (DRestart g mode guards containment config limit B)
    then show ?thesis using daemon_ok_restart [OF assms(1)] Cons.prems w by blast
  qed
  then show ?case using Cons.IH by simp
qed simp

lemma enforced_ids_subseq:
  "subseq log log' \<Longrightarrow> subseq (enforced_ids E log) (enforced_ids E log')"
  unfolding enforced_ids_def by (intro subseq_map subseq_filter)

lemma subseq_distinct: "subseq xs ys \<Longrightarrow> distinct ys \<Longrightarrow> distinct xs"
  by (auto simp: subseq_conv_nths distinct_nthsI)

text \<open>
  C6. No request is enforced twice on a host: over any sequence of calls through any entry point and of restarts
  under any adapter configuration, with the adapters failing and the breaker opening and closing in any way,
  the enforced invocations of the adapters have pairwise different dispatch identities.
\<close>

theorem adapter_enforces_once:
  assumes "codec_laws (en_codec E)" "en_execute E = logged (dispatching_execute (logged_adapters A))"
  shows "distinct (enforced_ids E (invoked (daemon_run A E ops (daemon_new path dev io g))))"
proof -
  have "daemon_ok E (daemon_new path dev io g)"
    using fresh_runtime_ok by (simp add: daemon_new_def daemon_ok_def invoked_def fresh_runtime_def)
  from daemon_ok_run [OF assms this, of ops] show ?thesis
    unfolding daemon_ok_def lane_ok_def by (auto split: prod.splits intro: subseq_distinct [OF enforced_ids_subseq])
qed

section \<open>A sample daemon\<close>

text \<open>A webhook that always succeeds.\<close>

definition sample_dead_letters :: "string \<Rightarrow> u64 option \<Rightarrow> dead_letter_journal" where
  "sample_dead_letters path limit = \<lparr>dlj_file_path = path, dlj_max_bytes = limit, dlj_current = None,
     dlj_rotated = (\<lambda>_. None), dlj_visible = [], dlj_answers = [], dlj_wall_ms = []\<rparr>"

definition sample_adapters :: "(unit, unit) adapter_env" where
  "sample_adapters = \<lparr>ae_to_text = (\<lambda>_. []), ae_http_edr = obliging_executor, ae_crowdstrike_rtr = obliging_executor,
     ae_webhook = obliging_executor, ae_make = (\<lambda>_. Inr ()), ae_journal = sample_dead_letters, ae_instants = []\<rparr>"

definition adapter_sample_env ::
  "(static_approval_gate, file_containment_store,
    (unit \<times> dispatch_call list) adapter_inner \<times> dispatch_call list) lane_env" where
  "adapter_sample_env = \<lparr>en_crypto = short_crypto, en_codec = lane_codec, en_receipt_of_json = (\<lambda>_. Inl []),
     en_gate = \<lparr>ga_evaluate = static_evaluate, ga_issue_lease = static_issue_lease\<rparr>,
     en_store = lease_file_ops lane_lease_codec,
     en_execute = logged (dispatching_execute (logged_adapters sample_adapters))\<rparr>"

definition webhook_boot :: "(static_approval_gate, file_containment_store, unit, unit) daemon_op" where
  "webhook_boot = DRestart lane_gate LiveResponse None (Some (empty_file [], ContainmentTtl 5000))
     (WebhookConfig \<lparr>ag_settings = (), ag_max_retries = 3, ag_threshold = 3, ag_cooldown_ms = 1000,
        ag_dead_letter_path = ''d''\<rparr>) None sample_adapters"

definition webhook_call :: "int \<Rightarrow> (static_approval_gate, file_containment_store, unit, unit) daemon_op" where
  "webhook_call now_ms = DCall Plain sample_request (sample_context now_ms)"

abbreviation webhook_daemon :: "(static_approval_gate, file_containment_store, unit) daemon" where
  "webhook_daemon \<equiv> daemon_new ''/j'' 1 [] lane_gate"

lemma webhook_invoked:
  "length (invoked (daemon_run sample_adapters adapter_sample_env [webhook_boot, webhook_call 1000] webhook_daemon)) = 1"
  by code_simp

theorem adapter_enforces_once_witness:
  "length (invoked (daemon_run sample_adapters adapter_sample_env [webhook_boot, webhook_call 1000] webhook_daemon)) = 1 \<and>
   distinct (enforced_ids adapter_sample_env (invoked (daemon_run sample_adapters adapter_sample_env
     [webhook_boot, webhook_call 1000, webhook_boot, webhook_call 2000] webhook_daemon)))"
proof
  show "distinct (enforced_ids adapter_sample_env (invoked (daemon_run sample_adapters adapter_sample_env
     [webhook_boot, webhook_call 1000, webhook_boot, webhook_call 2000] webhook_daemon)))"
    by (rule adapter_enforces_once) (simp_all add: adapter_sample_env_def lane_codec_laws)
qed (rule webhook_invoked)

end
