(* ===== verification/Spec2Isabelle.thy ===== *)
theory Spec2Isabelle
  imports Configurable_Gate Merkle Node_Limits Governance_Staging Hold_Durability Hold_Decisions Journal_Reservations
    Containment Guard_Safety Response_Lane Http_Quota Spine_Example Adapter_Safety
begin

text \<open>
  A verification library for the ambush swarm: the Rust crates under \<^verbatim>\<open>src/crates\<close> that decide whether an
  automated response to an attack may touch a host, that record the decision and that undo it. Every
  definition of the model translates code of those crates; the theorems say what the code promises for
  all inputs, all interleavings of its operations and all failures of the calls it makes.

  \<^bold>\<open>The program and how its parts interact.\<close> An agent asks for a response action
  (\<^verbatim>\<open>swarm-core/src/types.rs\<close>). An approval gate (\<^verbatim>\<open>swarm-policy\<close>) denies it, allows it or asks for a
  human. Destructive actions also need the governance policy of the Tom agent
  (\<^verbatim>\<open>swarm-agents/src/tom_agent.rs\<close>), which runs a consensus round (\<^verbatim>\<open>swarm-consensus\<close>) and signs a
  receipt, or, when the quorum of governors is lost, spends a contingency lease staged beforehand. An action
  that needs a human is held (\<^verbatim>\<open>swarm-runtime/src/held_action.rs\<close>) until an operator's signed decision
  (\<^verbatim>\<open>swarm-ingest-runtime/src/ingest/perch_ops/holds.rs\<close>) passes the governance gate
  (\<^verbatim>\<open>governance_gate.rs\<close>), or until the sweep expires it (\<^verbatim>\<open>hold_sweep.rs\<close>). The response lane of the
  runtime (\<^verbatim>\<open>swarm-runtime/src/lib.rs\<close>, \<^verbatim>\<open>dispatch.rs\<close>) then asks the gate again, runs the guards
  (\<^verbatim>\<open>swarm-guard\<close>), reserves the dispatch in a durable journal (\<^verbatim>\<open>dispatch_journal.rs\<close>), executes it, and
  opens a lease for a containment, which the containment sweep (\<^verbatim>\<open>containment.rs\<close>) undoes and attests when it
  expires. The executor is one adapter behind a circuit breaker (\<^verbatim>\<open>swarm-response\<close>). What happened is
  sealed into hash-linked envelopes (\<^verbatim>\<open>swarm-spine\<close>) by the bridge to the operators' relay
  (\<^verbatim>\<open>swarm-perch-bridge\<close>), and the HTTP surfaces are rate limited (\<^verbatim>\<open>swarm-core\<close>). Hashes, canonical JSON
  and the Merkle tree are \<^verbatim>\<open>swarm-crypto\<close>'s.

  \<^bold>\<open>Conventions.\<close> A struct is a record, an enum a datatype, a fallible function returns a sum with the error
  on the left, a function that changes state returns the new state beside its result. The workspace is built
  with \<^verbatim>\<open>overflow-checks = true\<close> and \<^verbatim>\<open>panic = "abort"\<close>: integers are \<open>int\<close> or \<open>nat\<close> with the range written
  out, saturating and checked operations as in the source (\<open>Ambush_Prelude\<close>), and where an option is the
  outer result of a stateful operation, \<open>None\<close> is the abort of the process. \<^verbatim>\<open>BTreeMap\<close> is \<open>Ordered_Map\<close>, a
  \<^verbatim>\<open>HashMap\<close> whose order is never read is a map. A mutex is one call at a time; the interleavings that matter
  are explicit sequences of calls. Loops are structural recursion or functions with a termination proof;
  \<open>drive_loop\<close> is a partial function whose value \<open>None\<close> is not returning, and \<open>drive_round_returns\<close> proves
  that it returns. No fuel is used.

  \<^bold>\<open>Parameters.\<close> Code outside \<^verbatim>\<open>src\<close> is an argument of the definitions that use it: \<open>crypto_lib\<close> (sha2,
  ed25519, hex, ryu; \<open>crypto_laws\<close> holds of \<open>model_crypto\<close> in \<open>Crypto_Instance\<close>), serde's encoders and decoders
  (\<open>hold_codec\<close>, \<open>journal_codec\<close>, \<open>containment_codec\<close>, \<open>bridge_env\<close>, the readers of receipts and leases), the operating
  system (lists of answers, any of which may be a failure), the executors of responses and inverses
  (\<open>response_executor\<close>, \<open>adapter_env\<close>, \<open>hosts\<close>) and the regular expression and glob libraries (\<open>pattern_lib\<close>). Every law
  assumed of them is a named hypothesis of the property, and its witness shows an instance.

  \<^bold>\<open>Theories.\<close>
  \<^item> \<open>Ambush_Prelude\<close>, \<open>Ordered_Map\<close>, \<open>Core_Types\<close>: integers, lists, ordered maps, JSON, identities, actions.
  \<^item> \<open>Crypto\<close>, \<open>Crypto_Instance\<close>, \<open>Merkle\<close>: RFC 8785 canonical JSON, detached signatures; the tree, equal to
    the recursive hash of RFC 6962, with inclusion proofs complete and sound.
  \<^item> \<open>Policy_Config\<close>, \<open>Policy_Core\<close>, \<open>Static_Gate\<close>, \<open>Configurable_Gate\<close>: when a gate allows, that its
    sliding windows bound every trailing minute, and what its leases name. The locales \<open>sliding_window\<close> and
    \<open>approval_gate\<close> are the interfaces, interpreted on both gates.
  \<^item> \<open>Committee\<close>, \<open>Vote_Ledger\<close>, \<open>Consensus_Msgs\<close>, \<open>Consensus_Node\<close>: the consensus protocol.
    \<open>Node_Contract\<close> states once what an elementary update has to keep (\<open>node_contract\<close>), \<open>Node_Safety\<close> and
    \<open>Node_Exclusion\<close> interpret it, \<open>Node_Properties\<close> has agreement, single votes, exclusion, \<open>Node_Limits\<close>
    what the protocol does not give, \<open>Consensus_Drive\<close> the round driver and the solo transport.
  \<^item> \<open>Governance\<close>, \<open>Governance_Policy\<close>, \<open>Governance_Contract\<close>, \<open>Governance_Rounds\<close>, \<open>Governance_Partition\<close>,
    \<open>Governance_Staging\<close>: the policy of the Tom agent; destructive actions only on evidence, blast radius,
    partitions that end with a complete report, restarts that fail closed.
  \<^item> \<open>Held_Action\<close>, \<open>Hold_Store\<close>, \<open>Hold_Contract\<close>, \<open>Hold_Claims\<close>, \<open>Hold_System\<close>, \<open>Hold_Sweep\<close>,
    \<open>Hold_Durability\<close>: held actions, three stores under one locale \<open>hold_store\<close>, and the refinement of every
    run by the claim specification; \<open>Governance_Gate\<close>, \<open>Hold_Decide\<close>, \<open>Hold_Decisions\<close>: the decisions.
  \<^item> \<open>Response_Types\<close>, \<open>Journal_Files\<close>, \<open>Dispatch_Journal\<close>, \<open>Journal_Safety\<close>, \<open>Journal_World\<close>,
    \<open>Journal_Reservations\<close>: the journal over a directory whose calls may fail: no identity is granted twice.
  \<^item> \<open>Rehearsal\<close>, \<open>Containment_Lease\<close>, \<open>Containment_Store\<close>, \<open>Containment_Release\<close>, \<open>Containment_Lifecycle\<close>,
    \<open>Containment\<close>: leases, their inverses, two stores under the locale \<open>containment_store\<close>, the release and
    the sweep: no containment is lost.
  \<^item> \<open>Guards\<close>, \<open>Guard_Safety\<close>: the guard pipeline, with panics that unwind or abort, and path normalisation.
    The lane runs it as the release profile builds it, with panics that abort.
  \<^item> \<open>Runtime_Lane\<close>, \<open>Lane_Safety\<close>, \<open>Response_Lane\<close>: every entry point of the lane. The plain and the audited
    lane agree; only authorised requests reach the executor; no dispatch is enforced twice, across restarts
    and failing writes; an enforced containment has a bounded lease.
  \<^item> \<open>Resilience\<close>, \<open>Adapter_Safety\<close>: the executors around the adapters (\<^verbatim>\<open>swarm-response/src/resilience.rs\<close>,
    \<^verbatim>\<open>dead_letter.rs\<close>, \<^verbatim>\<open>adapters.rs\<close>, \<^verbatim>\<open>dispatch.rs\<close>); composed with the lane, no adapter is invoked twice to
    enforce one dispatch.
  \<^item> \<open>Sliding_Window\<close>, \<open>Http_Rate_Limit\<close>, \<open>Http_Quota\<close>: the HTTP rate limiter (\<^verbatim>\<open>swarm-core\<close>): quotas per source
    and bounded memory. \<open>window_tracks\<close> of \<open>Sliding_Window\<close> is shared with the gates.
  \<^item> \<open>Canonical_Form\<close>: canonical JSON is unambiguous. \<open>Spine\<close>, \<open>Spine_Chain\<close>: envelopes, chains and checkpoints
    of \<^verbatim>\<open>swarm-spine\<close>; the last hash of a chain commits to all of it. \<open>Spine_Signer\<close>,
    \<open>Spine_Heads\<close>, \<open>Spine_Sealing\<close>, \<open>Spine_Example\<close>: the bridge's signer, its chain heads on disk and the commit
    of a head on acknowledgement (\<^verbatim>\<open>swarm-perch-bridge\<close>): the heads never take a sequence number twice, and
    what \<^verbatim>\<open>SpineSigner::seal\<close> seals is a chain that verifies.

  \<^bold>\<open>Findings.\<close> Where the code does not do what its comments say, the development states what it does and
  proves it as a lemma (for example \<open>Node_Limits\<close>, \<open>receipt_chain_forks_on_restart\<close>,
  \<open>unseen_document_replaced\<close>, \<open>failed_seal_moves_chain\<close>, \<open>unseen_heads_forgotten\<close>, \<open>skipped_seq_stalls_heads\<close>,
  \<open>unwritten_refusal\<close>, \<open>claimed_size_unchecked\<close>). Where such a behaviour limits a property, the property has the
  hypothesis that excludes it: \<open>lookups_answer\<close> and \<open>lookups_see\<close> (\<^verbatim>\<open>Path::exists\<close> sees a file that is there),
  \<open>writes_land\<close>, the size of an inclusion proof, a clock that does not run backwards.

  \<^bold>\<open>Not modelled, and why.\<close> The HTTP, gRPC, NATS and Nostr surfaces, the command line, metrics and the tasks that
  call the modelled operations on a timer are input and output around them; so are the bridge's pacer, which
  signs and publishes cards, and its spool, but for the commit of a chain head. The adapters of
  \<^verbatim>\<open>swarm-response\<close> are HTTP clients and arguments of the model; the pauses between retries are computed with
  floats and left out. Detection (\<^verbatim>\<open>swarm-whisker\<close>), the pheromone substrate and strategy
  evolution are floating-point scoring whose rounding the library theories here do not
  provide. The second Cargo workspace under \<^verbatim>\<open>src/workspace\<close>, vendored forks, client libraries and experiments are separate
  programs that the runtime does not link.
\<close>

end
